(* ===== verification/Prelude.thy ===== *)
theory Prelude
  imports Main "HOL-Library.Char_ord" "HOL-Library.List_Lexorder" "HOL-Library.Multiset"
begin

text \<open>
  Shared vocabulary of the development: Python exceptions as values, the result type of
  fallible code, bounded loops that may raise, the Python string predicates the sources use,
  and SQLite tables as lists of rows with the handful of statements the stores issue.

  Text is modelled as \<^typ>\<open>string\<close>: one character per code point, so the model covers the
  code points up to U+00FF and the string predicates below are exact on them. Bytes are
  \<^typ>\<open>string\<close> as well (a character is eight bits); a store's cell keeps the two apart.
\<close>

named_theorems result_simps \<open>inversion of results of fallible code\<close>
named_theorems table_simps \<open>statements on keyed tables\<close>

type_synonym bytes = string

section \<open>Exceptions and results\<close>

datatype err =
    ValueError string
  | TypeError string
  | KeyError string
  | RuntimeError string
  | OverflowError string
  | IntegrityError string
  | ReplayDetected string
  | PolicyViolation string
  | ProtocolError string
  | TransferExpired string
  | PolymorphError string
  | SqliteError
  | AttributeError string
  | ArithmeticError string
  | SyncStateError string
  | CheckpointConflict string
  | RunLeaseBusy string
  | WorkBudgetExceeded string

type_synonym 'a result = "err + 'a"

definition raise_if :: "bool \<Rightarrow> err \<Rightarrow> 'a result \<Rightarrow> 'a result" where
  "raise_if c e k = (if c then Inl e else k)"

definition bindE :: "'a result \<Rightarrow> ('a \<Rightarrow> 'b result) \<Rightarrow> 'b result" where
  "bindE m f = (case m of Inl e \<Rightarrow> Inl e | Inr x \<Rightarrow> f x)"

lemma raise_if_Inr [simp, result_simps]: "raise_if c e k = Inr y \<longleftrightarrow> \<not> c \<and> k = Inr y"
  by (simp add: raise_if_def)

lemma raise_if_Inl [result_simps]: "raise_if c e k = Inl x \<longleftrightarrow> (if c then x = e else k = Inl x)"
  by (auto simp: raise_if_def)

lemma raise_if_True [simp]: "raise_if True e k = Inl e"
  and raise_if_False [simp]: "raise_if False e k = k"
  by (simp_all add: raise_if_def)

lemma bindE_Inr_iff [simp, result_simps]: "bindE m f = Inr y \<longleftrightarrow> (\<exists>x. m = Inr x \<and> f x = Inr y)"
  by (auto simp: bindE_def split: sum.splits)

lemma bindE_Inl_iff [result_simps]:
  "bindE m f = Inl e \<longleftrightarrow> m = Inl e \<or> (\<exists>x. m = Inr x \<and> f x = Inl e)"
  by (auto simp: bindE_def split: sum.splits)

lemma bindE_simps [simp]: "bindE (Inl e) f = Inl e" "bindE (Inr x) f = f x"
  by (simp_all add: bindE_def)

subsection \<open>Loops that may raise\<close>

text \<open>
  \<open>foldE\<close> runs a loop body over a list, threading a state and collecting one output per
  item; the first exception ends the loop. \<open>mapE\<close> is the stateless case.
\<close>

fun foldE :: "('s \<Rightarrow> 'a \<Rightarrow> ('s \<times> 'b) result) \<Rightarrow> 's \<Rightarrow> 'a list \<Rightarrow> ('s \<times> 'b list) result" where
  "foldE f s [] = Inr (s, [])"
| "foldE f s (x # xs) =
     bindE (f s x) (\<lambda>(s1, y). bindE (foldE f s1 xs) (\<lambda>(s2, ys). Inr (s2, y # ys)))"

fun mapE :: "('a \<Rightarrow> 'b result) \<Rightarrow> 'a list \<Rightarrow> 'b list result" where
  "mapE f [] = Inr []"
| "mapE f (x # xs) = bindE (f x) (\<lambda>y. bindE (mapE f xs) (\<lambda>ys. Inr (y # ys)))"

lemma foldE_inv:
  assumes "foldE f s xs = Inr (s', ys)" and "I s"
    and "\<And>s x s' y. I s \<Longrightarrow> x \<in> set xs \<Longrightarrow> f s x = Inr (s', y) \<Longrightarrow> I s'"
  shows "I s'"
  using assms
proof (induction xs arbitrary: s ys)
  case (Cons x xs)
  from Cons.prems(1) obtain s1 y ys' where
    step: "f s x = Inr (s1, y)" and rest: "foldE f s1 xs = Inr (s', ys')" by auto
  have "I s1" using Cons.prems(3) [OF Cons.prems(2) _ step] by simp
  with rest show ?case
  proof (rule Cons.IH)
    show "I t'" if "I t" "z \<in> set xs" "f t z = Inr (t', u)" for t z t' u
      using that Cons.prems(3) [of t z t' u] by simp
  qed
qed simp

lemma foldE_length: "foldE f s xs = Inr (s', ys) \<Longrightarrow> length ys = length xs"
  by (induction xs arbitrary: s ys) auto

lemma mapE_length: "mapE f xs = Inr ys \<Longrightarrow> length ys = length xs"
  by (induction xs arbitrary: ys) auto

lemma mapE_nth: "mapE f xs = Inr ys \<Longrightarrow> i < length xs \<Longrightarrow> f (xs ! i) = Inr (ys ! i)"
  by (induction xs arbitrary: ys i) (auto simp: nth_Cons split: nat.splits)

lemma mapE_Inr_map: "(\<And>x. x \<in> set xs \<Longrightarrow> f x = Inr (g x)) \<Longrightarrow> mapE f xs = Inr (map g xs)"
  by (induction xs) auto

lemma foldE_append:
  "foldE f s (xs @ ys) =
     bindE (foldE f s xs) (\<lambda>(s1, us). bindE (foldE f s1 ys) (\<lambda>(s2, vs). Inr (s2, us @ vs)))"
  by (induction xs arbitrary: s) (auto simp: bindE_def split: sum.splits prod.splits)

section \<open>Python string predicates\<close>

definition char_printable :: "char \<Rightarrow> bool" where
  "char_printable c = (let n = (of_char c :: nat) in 32 \<le> n \<and> n \<le> 126 \<or> 161 \<le> n \<and> n \<noteq> 173)"

definition isprintable :: "string \<Rightarrow> bool" where
  "isprintable s = list_all char_printable s"

definition char_alnum :: "char \<Rightarrow> bool" where
  "char_alnum c = (let n = (of_char c :: nat) in
     48 \<le> n \<and> n \<le> 57 \<or> 65 \<le> n \<and> n \<le> 90 \<or> 97 \<le> n \<and> n \<le> 122 \<or>
     n \<in> {170, 178, 179, 181, 185, 186, 188, 189, 190} \<or>
     192 \<le> n \<and> n \<noteq> 215 \<and> n \<noteq> 247)"

definition isalnum :: "string \<Rightarrow> bool" where
  "isalnum s = (s \<noteq> [] \<and> list_all char_alnum s)"

definition char_space :: "char \<Rightarrow> bool" where
  "char_space c = ((of_char c :: nat) \<in> {9, 10, 11, 12, 13, 28, 29, 30, 31, 32, 133, 160})"

definition strip :: "string \<Rightarrow> string" where
  "strip s = rev (dropWhile char_space (rev (dropWhile char_space s)))"

definition hex_digit :: "char \<Rightarrow> bool" where
  "hex_digit c = (c \<in> set ''0123456789abcdef'')"

text \<open>\<open>len(s) == n and all(c in "0123456789abcdef" for c in s)\<close>\<close>

definition lower_hex :: "nat \<Rightarrow> string \<Rightarrow> bool" where
  "lower_hex n s = (length s = n \<and> list_all hex_digit s)"

text \<open>
  \<open>not s or len(s) > n or not s.replace("_", "").isalnum()\<close>, the test for a short
  machine-readable identifier, negated.
\<close>

definition machine_id :: "nat \<Rightarrow> string \<Rightarrow> bool" where
  "machine_id n s = (s \<noteq> [] \<and> length s \<le> n \<and> isalnum (filter (\<lambda>c. c \<noteq> CHR ''_'') s))"

section \<open>SQLite cells and tables\<close>

text \<open>
  A nullable TEXT column holds NULL, text or a blob (SQLite's column affinity turns numbers
  into text). \<open>sql_eq\<close> and \<open>sql_gt\<close> are the comparison operators of a WHERE clause: NULL
  compares to nothing, text precedes every blob, text compares by code point. \<open>sql_is\<close> is
  the IS operator.
\<close>

datatype cell = Null | Text string | Blob bytes

definition sql_eq :: "cell \<Rightarrow> cell \<Rightarrow> bool" where
  "sql_eq a b = (a \<noteq> Null \<and> a = b)"

fun sql_gt :: "cell \<Rightarrow> cell \<Rightarrow> bool" where
  "sql_gt (Text a) (Text b) = (b < a)"
| "sql_gt (Blob a) (Text b) = True"
| "sql_gt (Blob a) (Blob b) = (b < a)"
| "sql_gt _ _ = False"

definition sql_is :: "cell \<Rightarrow> cell \<Rightarrow> bool" where
  "sql_is a b = (a = b)"

text \<open>A table is the list of its rows in insertion order.\<close>

definition select_one :: "('r \<Rightarrow> bool) \<Rightarrow> 'r list \<Rightarrow> 'r option" where
  "select_one P t = find P t"

definition rowcount :: "('r \<Rightarrow> bool) \<Rightarrow> 'r list \<Rightarrow> nat" where
  "rowcount P t = length (filter P t)"

definition update_where :: "('r \<Rightarrow> bool) \<Rightarrow> ('r \<Rightarrow> 'r) \<Rightarrow> 'r list \<Rightarrow> 'r list" where
  "update_where P f t = map (\<lambda>r. if P r then f r else r) t"

definition delete_where :: "('r \<Rightarrow> bool) \<Rightarrow> 'r list \<Rightarrow> 'r list" where
  "delete_where P t = filter (\<lambda>r. \<not> P r) t"

definition keyed :: "('r \<Rightarrow> 'k) \<Rightarrow> 'r list \<Rightarrow> bool" where
  "keyed key t = distinct (map key t)"

lemma select_one_Some:
  "select_one P t = Some r \<Longrightarrow> r \<in> set t \<and> P r"
  by (auto simp: select_one_def find_Some_iff)

lemma select_one_None: "select_one P t = None \<longleftrightarrow> (\<forall>r \<in> set t. \<not> P r)"
  by (auto simp: select_one_def find_None_iff)

lemma keyed_Cons: "keyed key (r # t) \<longleftrightarrow> (\<forall>s \<in> set t. key s \<noteq> key r) \<and> keyed key t"
  unfolding keyed_def by (simp add: image_iff) metis

lemma keyed_Nil [simp]: "keyed key []"
  by (simp add: keyed_def)

lemma keyed_inj: "keyed key t \<Longrightarrow> r \<in> set t \<Longrightarrow> s \<in> set t \<Longrightarrow> key r = key s \<Longrightarrow> r = s"
  by (auto simp: keyed_def distinct_map dest: inj_onD)

lemma keyed_select:
  assumes "keyed key t" and "r \<in> set t"
  shows "select_one (\<lambda>x. key x = key r) t = Some r"
proof (cases "select_one (\<lambda>x. key x = key r) t")
  case None
  with assms(2) show ?thesis by (auto simp: select_one_None)
next
  case (Some s)
  with select_one_Some [OF Some] keyed_inj [OF assms(1)] assms(2) show ?thesis by metis
qed

lemma keyed_select_iff:
  "keyed key t \<Longrightarrow> select_one (\<lambda>x. key x = k) t = Some r \<longleftrightarrow> r \<in> set t \<and> key r = k"
  using keyed_select [of key t r] select_one_Some [of "\<lambda>x. key x = k" t r] by auto

lemma keyed_update:
  "keyed key t \<Longrightarrow> (\<And>r. P r \<Longrightarrow> key (f r) = key r) \<Longrightarrow> keyed key (update_where P f t)"
  by (simp add: keyed_def update_where_def comp_def if_distrib [of key] cong: if_cong)

lemma keyed_delete: "keyed key t \<Longrightarrow> keyed key (delete_where P t)"
  by (simp add: keyed_def delete_where_def distinct_map_filter)

lemma keyed_insert: "keyed key t \<Longrightarrow> key r \<notin> key ` set t \<Longrightarrow> keyed key (t @ [r])"
  by (simp add: keyed_def)

lemma in_update_where:
  "r \<in> set (update_where P f t) \<longleftrightarrow> (r \<in> set t \<and> \<not> P r) \<or> (\<exists>s \<in> set t. P s \<and> r = f s)"
  by (auto simp: update_where_def)

lemma in_delete_where [simp]: "r \<in> set (delete_where P t) \<longleftrightarrow> r \<in> set t \<and> \<not> P r"
  by (auto simp: delete_where_def)

lemma length_update_where [simp]: "length (update_where P f t) = length t"
  by (simp add: update_where_def)

lemma length_delete_where: "length (delete_where P t) + rowcount P t = length t"
  unfolding delete_where_def rowcount_def by (induction t) auto

lemma keyed_filter_single:
  assumes "keyed key t" and "r \<in> set t" and "P r" and same: "\<And>x. P x \<Longrightarrow> key x = key r"
  shows "filter P t = [r]"
  using assms(1,2)
proof (induction t)
  case (Cons x t)
  show ?case
  proof (cases "r = x")
    case True
    with Cons.prems(1) have "y \<in> set t \<Longrightarrow> \<not> P y" for y
      using same [of y] by (auto simp: keyed_Cons)
    with True \<open>P r\<close> show ?thesis by (simp add: filter_empty_conv)
  next
    case False
    with Cons.prems have "r \<in> set t" and "key x \<noteq> key r" by (auto simp: keyed_Cons)
    with Cons same [of x] show ?thesis by (auto simp: keyed_Cons)
  qed
qed simp

lemma rowcount_1_keyed:
  assumes "keyed key t" and "r \<in> set t" and "P r" and "\<And>x. P x \<Longrightarrow> key x = key r"
  shows "rowcount P t = 1"
  using keyed_filter_single [where P = P, OF assms] by (simp add: rowcount_def)

lemma rowcount_pos: "rowcount P t \<noteq> 0 \<longleftrightarrow> (\<exists>r \<in> set t. P r)"
  by (auto simp: rowcount_def filter_empty_conv)

lemma rowcount_1_obtain:
  assumes "rowcount P t = 1"
  obtains r where "r \<in> set t" and "P r"
  using assms rowcount_pos [of P t] by auto

end
