(* ===== verification/PyTime.thy ===== *)
theory PyTime
  imports Prelude
begin

text \<open>
  The part of Python's \<open>datetime\<close> the sources use. An aware datetime is the number of
  microseconds since 0001-01-01T00:00:00 UTC; \<open>isoformat\<close> renders it the way
  \<open>datetime.isoformat\<close> renders a UTC datetime (the fraction is omitted when it is zero), and
  \<open>fromisoformat\<close> reads the extended layout \<open>YYYY-MM-DD?HH:MM:SS[.ffffff][Z|+HH:MM|-HH:MM]\<close>.
  The other ISO 8601 layouts that \<open>datetime.fromisoformat\<close> also reads (basic and week dates,
  truncated times) are rejected by the model; the program never writes them.

  The stores keep timestamps as text and compare them in SQL. The main result here is that
  this comparison is the chronological one (\<open>isoformat_less_iff\<close>), stated as the contract
  \<open>time_text\<close> that the stores rely on.
\<close>

section \<open>Calendar\<close>

definition leap :: "int \<Rightarrow> bool" where
  "leap y = (y mod 4 = 0 \<and> (y mod 100 \<noteq> 0 \<or> y mod 400 = 0))"

text \<open>Days before year \<open>k + 1\<close>, counted from 0001-01-01.\<close>

definition dby :: "int \<Rightarrow> int" where
  "dby k = 365 * k + k div 4 - k div 100 + k div 400"

lemma div_succ:
  fixes k c :: int
  assumes "0 < c"
  shows "(k + 1) div c = k div c + (if (k + 1) mod c = 0 then 1 else 0)"
proof -
  define q where "q = k div c"
  define r where "r = k mod c"
  have k: "k = c * q + r" by (simp add: q_def r_def)
  have r: "0 \<le> r" "r < c" using assms by (simp_all add: r_def)
  have "(k + 1) div c = q + (if (k + 1) mod c = 0 then 1 else 0)"
  proof (cases "r + 1 = c")
    case True
    then have "k + 1 = c * (q + 1)" unfolding k by (simp add: distrib_left)
    then show ?thesis using assms by simp
  next
    case False
    then have "(k + 1) div c = q" "(k + 1) mod c = r + 1"
      using r unfolding k
      by (auto intro!: int_div_pos_eq [of _ _ _ "r + 1"] int_mod_pos_eq [of _ _ q])
    then show ?thesis using r by simp
  qed
  then show ?thesis by (simp add: q_def)
qed

lemma div_lex:
  fixes t u c :: int
  assumes "t < u" "0 < c"
  shows "t div c < u div c \<or> t div c = u div c \<and> t mod c < u mod c"
proof (cases "t div c = u div c")
  case True
  have "c * (t div c) + t mod c < c * (u div c) + u mod c" using assms(1) by simp
  then have "t mod c < u mod c" unfolding True by linarith
  with True show ?thesis by blast
next
  case False
  with zdiv_mono1 [of t u c] assms show ?thesis by linarith
qed

lemma dby_step: "dby (k + 1) = dby k + (if leap (k + 1) then 366 else 365)"
proof -
  define A where "A \<longleftrightarrow> (k + 1) mod 4 = 0"
  define B where "B \<longleftrightarrow> (k + 1) mod 100 = 0"
  define C where "C \<longleftrightarrow> (k + 1) mod 400 = 0"
  have "B \<longrightarrow> A" unfolding A_def B_def
    using dvd_trans [of 4 100 "k + 1"] by (simp add: dvd_eq_mod_eq_0 [symmetric])
  moreover have "C \<longrightarrow> B" unfolding B_def C_def
    using dvd_trans [of 100 400 "k + 1"] by (simp add: dvd_eq_mod_eq_0 [symmetric])
  moreover have "dby (k + 1) - dby k =
      365 + (if A then 1 else 0) - (if B then 1 else 0) + (if C then 1 else 0)"
    unfolding dby_def div_succ [of 4 k, simplified] div_succ [of 100 k, simplified]
      div_succ [of 400 k, simplified] A_def [symmetric] B_def [symmetric] C_def [symmetric]
    by algebra
  moreover have "leap (k + 1) \<longleftrightarrow> A \<and> (\<not> B \<or> C)"
    by (simp only: leap_def A_def B_def C_def)
  ultimately show ?thesis by (cases A; cases B; cases C) simp_all
qed

lemma dby_less: "dby k < dby (k + 1)"
  by (simp add: dby_step)

lemma dby_mono: "i \<le> j \<Longrightarrow> dby i \<le> dby j"
proof (induction rule: int_ge_induct)
  case (step j)
  then show ?case using dby_less [of j] by simp
qed simp

lemma dby_bound: "0 \<le> k \<Longrightarrow> dby k \<le> 366 * k"
proof -
  assume "0 \<le> k"
  then have "k div 400 \<le> k div 100" "k div 4 \<le> k div 1" by (intro zdiv_mono2; simp)+
  then show ?thesis by (simp add: dby_def)
qed

function year_from :: "int \<Rightarrow> int \<Rightarrow> int" where
  "year_from n k = (if dby (k + 1) \<le> n then year_from n (k + 1) else k)"
  by pat_completeness auto
termination
  by (relation "measure (\<lambda>(n, k). nat (n - dby k))") (auto intro: less_le_trans [OF dby_less])

declare year_from.simps [simp del]

lemma year_from_spec:
  "dby k \<le> n \<Longrightarrow> dby (year_from n k) \<le> n \<and> n < dby (year_from n k + 1)"
proof (induction n k rule: year_from.induct)
  case (1 n k)
  then show ?case
    by (cases "dby (k + 1) \<le> n") (auto simp: year_from.simps [of n k])
qed

definition year_idx :: "int \<Rightarrow> int" where
  "year_idx n = year_from n (n div 366)"

lemma year_idx_spec: "0 \<le> n \<Longrightarrow> dby (year_idx n) \<le> n \<and> n < dby (year_idx n + 1)"
proof -
  assume "0 \<le> n"
  then have "dby (n div 366) \<le> 366 * (n div 366)" by (intro dby_bound) simp
  also have "\<dots> \<le> n" by simp
  finally show ?thesis unfolding year_idx_def by (rule year_from_spec)
qed

lemma year_idx_unique:
  assumes "dby i \<le> n" "n < dby (i + 1)" "dby j \<le> n" "n < dby (j + 1)"
  shows "i = j"
proof (rule ccontr)
  assume "i \<noteq> j"
  then consider "i + 1 \<le> j" | "j + 1 \<le> i" by linarith
  then show False using assms dby_mono [of "i + 1" j] dby_mono [of "j + 1" i] by cases auto
qed

lemma year_idx_mono: "0 \<le> n \<Longrightarrow> n \<le> m \<Longrightarrow> year_idx n \<le> year_idx m"
proof (rule ccontr)
  assume "0 \<le> n" "n \<le> m" "\<not> year_idx n \<le> year_idx m"
  with dby_mono [of "year_idx m + 1" "year_idx n"] year_idx_spec [of n] year_idx_spec [of m]
  show False by simp
qed

definition month_starts :: "bool \<Rightarrow> int list" where
  "month_starts l = (let x = (if l then 1 else 0) in
     [0, 31, 59 + x, 90 + x, 120 + x, 151 + x, 181 + x, 212 + x, 243 + x, 273 + x, 304 + x,
      334 + x])"

definition month_idx :: "bool \<Rightarrow> int \<Rightarrow> nat" where
  "month_idx l d = length (filter (\<lambda>s. s \<le> d) (tl (month_starts l)))"

lemma month_idx_cases:
  assumes "0 \<le> d" "d < (if l then 366 else 365)"
  shows "month_idx l d < 12 \<and> month_starts l ! month_idx l d \<le> d
    \<and> d < month_starts l ! month_idx l d + 31"
  using assms by (cases l) (auto simp: month_idx_def month_starts_def)

lemma month_idx_mono: "d \<le> e \<Longrightarrow> month_idx l d \<le> month_idx l e"
  by (cases l) (auto simp: month_idx_def month_starts_def)

definition days_in_month :: "bool \<Rightarrow> nat \<Rightarrow> int" where
  "days_in_month l m = (month_starts l @ [if l then 366 else 365]) ! Suc m - month_starts l ! m"

lemma month_idx_dim:
  assumes "0 \<le> d" "d < (if l then 366 else 365)"
  shows "d - month_starts l ! month_idx l d < days_in_month l (month_idx l d)"
  using assms by (cases l) (auto simp: month_idx_def month_starts_def days_in_month_def)

section \<open>Rendering\<close>

definition digit :: "nat \<Rightarrow> char" where
  "digit d = char_of (48 + d)"

fun pad :: "nat \<Rightarrow> nat \<Rightarrow> string" where
  "pad 0 n = []"
| "pad (Suc k) n = pad k (n div 10) @ [digit (n mod 10)]"

lemma length_pad [simp]: "length (pad k n) = k"
  by (induction k arbitrary: n) auto

lemma digit_less: "d < e \<Longrightarrow> e < 10 \<Longrightarrow> digit d < digit e"
  by (simp add: digit_def less_char_def)

lemma append_less:
  fixes x y u v :: "'a :: linorder list"
  shows "length x = length y \<Longrightarrow> x @ u < y @ v \<longleftrightarrow> x < y \<or> x = y \<and> u < v"
  by (induction x y rule: list_induct2) auto

lemma pad_less: "n < m \<Longrightarrow> m < 10 ^ k \<Longrightarrow> pad k n < pad k m"
proof (induction k arbitrary: n m)
  case (Suc k)
  show ?case
  proof (cases "n div 10 = m div 10")
    case True
    with Suc.prems(1) have "n mod 10 < m mod 10"
      by (metis div_mult_mod_eq nat_add_left_cancel_less)
    with True digit_less show ?thesis by (auto simp: append_less)
  next
    case False
    with Suc.prems(1) have "n div 10 < m div 10"
      by (metis div_le_mono less_imp_le_nat nat_less_le)
    moreover have "m div 10 < 10 ^ k" using Suc.prems(2) by (simp add: less_mult_imp_div_less)
    ultimately show ?thesis using Suc.IH by (simp add: append_less)
  qed
qed simp

lemma pad2_less: "0 \<le> a \<Longrightarrow> a < b \<Longrightarrow> b < 100 \<Longrightarrow> pad 2 (nat a) < pad 2 (nat b)"
  by (intro pad_less) auto

definition day_us :: int where "day_us = 86400000000"

definition time_valid :: "int \<Rightarrow> bool" where
  "time_valid t = (0 \<le> t \<and> t < 3652059 * day_us)"

definition iso_date :: "int \<Rightarrow> string" where
  "iso_date n = (let k = year_idx n; l = leap (k + 1); d = n - dby k; m = month_idx l d in
     pad 4 (nat (k + 1)) @ ''-'' @ pad 2 (Suc m) @ ''-'' @
     pad 2 (nat (d - month_starts l ! m + 1)))"

definition hms_text :: "int \<Rightarrow> int \<Rightarrow> int \<Rightarrow> string" where
  "hms_text h m s = pad 2 (nat h) @ '':'' @ pad 2 (nat m) @ '':'' @ pad 2 (nat s)"

definition iso_hms :: "int \<Rightarrow> string" where
  "iso_hms s = hms_text (s div 3600) (s div 60 mod 60) (s mod 60)"

definition iso_frac :: "int \<Rightarrow> string" where
  "iso_frac u = (if u = 0 then [] else ''.'' @ pad 6 (nat u)) @ ''+00:00''"

definition isoformat :: "int \<Rightarrow> string" where
  "isoformat t = iso_date (t div day_us) @ ''T'' @ iso_hms (t mod day_us div 1000000) @
     iso_frac (t mod 1000000)"

lemma length_iso_date [simp]: "length (iso_date n) = 10"
  by (simp add: iso_date_def Let_def)

lemma length_iso_hms [simp]: "length (iso_hms n) = 8"
  by (simp add: iso_hms_def hms_text_def)

lemma year_idx_bound: "0 \<le> n \<Longrightarrow> n < 3652059 \<Longrightarrow> 0 \<le> year_idx n \<and> year_idx n < 9999"
proof -
  assume n: "0 \<le> n" "n < 3652059"
  have "dby 9999 = 3652059" by (simp add: dby_def)
  with n year_idx_spec [of n] have "\<not> 9999 \<le> year_idx n" by (auto dest: dby_mono)
  moreover have "\<not> year_idx n + 1 \<le> 0"
  proof
    assume "year_idx n + 1 \<le> 0"
    then have "dby (year_idx n + 1) \<le> dby 0" by (rule dby_mono)
    with n year_idx_spec [of n] show False by (simp add: dby_def)
  qed
  ultimately show ?thesis by simp
qed

lemma doy_bound:
  assumes "0 \<le> n"
  shows "0 \<le> n - dby (year_idx n)"
    and "n - dby (year_idx n) < (if leap (year_idx n + 1) then 366 else 365)"
  using year_idx_spec [OF assms] by (simp_all add: dby_step)

lemma iso_date_less:
  assumes "0 \<le> n" "n < m" "m < 3652059"
  shows "iso_date n < iso_date m"
proof (cases "year_idx n = year_idx m")
  case False
  with assms year_idx_mono [of n m] have "year_idx n < year_idx m" by simp
  with assms year_idx_bound [of n] year_idx_bound [of m]
  have "pad 4 (nat (year_idx n + 1)) < pad 4 (nat (year_idx m + 1))"
    by (intro pad_less) auto
  then show ?thesis by (simp add: iso_date_def Let_def append_less)
next
  case True
  define l where "l = leap (year_idx n + 1)"
  define d where "d = n - dby (year_idx n)"
  define e where "e = m - dby (year_idx m)"
  have de: "d < e" using assms(2) True by (simp add: d_def e_def)
  have d: "0 \<le> d" "d < (if l then 366 else 365)"
    using doy_bound [of n] assms by (simp_all add: d_def l_def)
  have e: "0 \<le> e" "e < (if l then 366 else 365)"
    using doy_bound [of m] assms True by (simp_all add: e_def l_def)
  note dc = month_idx_cases [OF d] and ec = month_idx_cases [OF e]
  have "pad 2 (Suc (month_idx l d)) < pad 2 (Suc (month_idx l e)) \<or>
    month_idx l d = month_idx l e \<and> pad 2 (nat (d - month_starts l ! month_idx l d + 1))
      < pad 2 (nat (e - month_starts l ! month_idx l e + 1))"
  proof (cases "month_idx l d = month_idx l e")
    case True
    with de dc ec show ?thesis by (auto intro!: pad_less)
  next
    case False
    with month_idx_mono [of d e l] de ec show ?thesis by (auto intro!: pad_less)
  qed
  then show ?thesis using True
    by (auto simp: iso_date_def Let_def append_less d_def e_def l_def)
qed

lemma hms_text_less:
  assumes "0 \<le> h" "0 \<le> m" "0 \<le> s" "h' < 100" "m' < 100" "s' < 100"
    and "h < h' \<or> h = h' \<and> (m < m' \<or> m = m' \<and> s < s')"
  shows "hms_text h m s < hms_text h' m' s'"
  using assms pad2_less [of h h'] pad2_less [of m m'] pad2_less [of s s']
  unfolding hms_text_def by (auto simp: append_less)

lemma iso_hms_less:
  assumes "0 \<le> s" "s < r" "r < 86400"
  shows "iso_hms s < iso_hms r"
proof -
  have bounds: "r div 3600 < 24" "r div 60 mod 60 < 60" "r mod 60 < 60"
    "0 \<le> s div 3600" "0 \<le> s div 60 mod 60" "0 \<le> s mod 60"
    using assms by simp_all
  consider "s div 3600 < r div 3600"
    | "s div 3600 = r div 3600" "s div 60 mod 60 < r div 60 mod 60"
    | "s div 3600 = r div 3600" "s div 60 mod 60 = r div 60 mod 60" "s mod 60 < r mod 60"
  proof -
    have eqs: "s div 3600 = s div 60 div 60" "r div 3600 = r div 60 div 60"
      using zdiv_zmult2_eq [of 60 s 60] zdiv_zmult2_eq [of 60 r 60] by simp_all
    from div_lex [OF assms(2), of 60] consider "s div 60 < r div 60"
      | "s div 60 = r div 60" "s mod 60 < r mod 60" by fastforce
    then show thesis
    proof cases
      case 1
      from div_lex [OF 1, of 60] that(1,2) show ?thesis unfolding eqs by fastforce
    next
      case 2
      with that(3) show ?thesis unfolding eqs by simp
    qed
  qed
  then have "s div 3600 < r div 3600 \<or> s div 3600 = r div 3600 \<and>
    (s div 60 mod 60 < r div 60 mod 60 \<or> s div 60 mod 60 = r div 60 mod 60 \<and> s mod 60 < r mod 60)"
    by cases blast+
  moreover have "r div 3600 < 100" using bounds(1) by linarith
  moreover have "r div 60 mod 60 < 100" using bounds(2) by linarith
  moreover have "r mod 60 < 100" using bounds(3) by linarith
  ultimately show ?thesis
    unfolding iso_hms_def by (intro hms_text_less bounds(4-6))
qed

lemma iso_frac_less:
  assumes "0 \<le> u" "u < v" "v < 1000000"
  shows "iso_frac u < iso_frac v"
proof -
  have "pad 6 (nat u) < pad 6 (nat v)" using assms by (intro pad_less) auto
  then show ?thesis using assms
    by (auto simp: iso_frac_def append_less less_char_def)
qed

lemma isoformat_less:
  assumes "time_valid t" "time_valid u" "t < u"
  shows "isoformat t < isoformat u"
proof -
  let ?D = "\<lambda>t. t div day_us" and ?S = "\<lambda>t. t mod day_us div 1000000"
  have S: "0 \<le> ?S t" "?S u < 86400" by (auto simp: day_us_def)
  have D: "0 \<le> ?D t" "?D u < 3652059"
    using assms by (auto simp: time_valid_def day_us_def)
  consider "?D t < ?D u" | "?D t = ?D u" "?S t < ?S u"
    | "?D t = ?D u" "?S t = ?S u" "t mod 1000000 < u mod 1000000"
  proof -
    have c: "t mod day_us mod 1000000 = t mod 1000000" "u mod day_us mod 1000000 = u mod 1000000"
      by (simp_all add: day_us_def mod_mod_cancel)
    from div_lex [OF assms(3), of day_us] consider "?D t < ?D u"
      | "?D t = ?D u" "t mod day_us < u mod day_us" by (fastforce simp: day_us_def)
    then show thesis
    proof cases
      case 1
      with that(1) show ?thesis .
    next
      case 2
      from div_lex [OF 2(2), of 1000000] that(2,3) [OF 2(1)] show ?thesis unfolding c by fastforce
    qed
  qed
  then show ?thesis
  proof cases
    case 1
    with D iso_date_less have "iso_date (?D t) < iso_date (?D u)" by blast
    then show ?thesis by (simp add: isoformat_def append_less)
  next
    case 2
    with S iso_hms_less have "iso_hms (?S t) < iso_hms (?S u)" by blast
    with 2 show ?thesis by (simp add: isoformat_def append_less)
  next
    case 3
    then have "iso_frac (t mod 1000000) < iso_frac (u mod 1000000)"
      by (intro iso_frac_less) auto
    with 3 show ?thesis by (simp add: isoformat_def append_less)
  qed
qed

lemma isoformat_less_iff:
  assumes "time_valid t" "time_valid u"
  shows "isoformat t < isoformat u \<longleftrightarrow> t < u"
proof -
  have "\<not> isoformat t < isoformat u" if "\<not> t < u"
  proof (cases "t = u")
    case False
    with that isoformat_less [OF assms(2,1)] show ?thesis by (simp add: less_imp_not_less)
  qed simp
  with isoformat_less [OF assms] show ?thesis by blast
qed

section \<open>Reading\<close>

text \<open>
  A parsed datetime: local microseconds and, when aware, the offset from UTC.
  \<open>astimezone_utc\<close> is \<open>value.astimezone(UTC)\<close>.
\<close>

datatype py_datetime = Naive int | Aware int int

definition astimezone_utc :: "int \<Rightarrow> int \<Rightarrow> int result" where
  "astimezone_utc local off =
     (if time_valid (local - off) then Inr (local - off) else Inl (OverflowError ''date value out of range''))"

definition digit_val :: "char \<Rightarrow> nat option" where
  "digit_val c = (let n = (of_char c :: nat) in if 48 \<le> n \<and> n \<le> 57 then Some (n - 48) else None)"

fun num_acc :: "nat \<Rightarrow> string \<Rightarrow> nat option" where
  "num_acc a [] = Some a"
| "num_acc a (c # cs) = (case digit_val c of None \<Rightarrow> None | Some d \<Rightarrow> num_acc (10 * a + d) cs)"

lemma digit_val_digit [simp]: "d < 10 \<Longrightarrow> digit_val (digit d) = Some d"
  by (simp add: digit_val_def digit_def)

lemma num_acc_append: "num_acc a (x @ y) = (case num_acc a x of None \<Rightarrow> None | Some b \<Rightarrow> num_acc b y)"
  by (induction x arbitrary: a) (auto split: option.splits)

lemma num_acc_pad: "n < 10 ^ k \<Longrightarrow> num_acc a (pad k n) = Some (a * 10 ^ k + n)"
proof (induction k arbitrary: n)
  case (Suc k)
  then have "n div 10 < 10 ^ k" by (simp add: less_mult_imp_div_less)
  with Suc.IH have "num_acc a (pad k (n div 10)) = Some (a * 10 ^ k + n div 10)" by blast
  then show ?case by (simp add: num_acc_append algebra_simps)
qed simp

definition num :: "string \<Rightarrow> int option" where
  "num s = map_option int (if s = [] then None else num_acc 0 s)"

lemma num_pad:
  assumes "n < 10 ^ k" "0 < k"
  shows "num (pad k n) = Some (int n)"
proof -
  from assms(2) have "length (pad k n) \<noteq> 0" by simp
  then have "pad k n \<noteq> []" by fastforce
  with num_acc_pad [OF assms(1), of 0] show ?thesis by (simp add: num_def)
qed

lemma num_pad_int:
  assumes "0 \<le> i" "i < 10 ^ k" "0 < k"
  shows "num (pad k (nat i)) = Some i"
  using num_pad [of "nat i" k] assms by (simp add: nat_less_iff)

definition read_date :: "string \<Rightarrow> int option" where
  "read_date s = (case (num (take 4 s), num (take 2 (drop 5 s)), num (drop 8 s)) of
     (Some y, Some m, Some d) \<Rightarrow>
       if s ! 4 = CHR ''-'' \<and> s ! 7 = CHR ''-'' \<and> 1 \<le> y \<and> 1 \<le> m \<and> m \<le> 12 \<and> 1 \<le> d
         \<and> d \<le> days_in_month (leap y) (nat (m - 1))
       then Some (dby (y - 1) + month_starts (leap y) ! nat (m - 1) + d - 1) else None
   | _ \<Rightarrow> None)"

definition read_hms :: "string \<Rightarrow> int option" where
  "read_hms s = (case (num (take 2 s), num (take 2 (drop 3 s)), num (drop 6 s)) of
     (Some h, Some m, Some sec) \<Rightarrow>
       if s ! 2 = CHR '':'' \<and> s ! 5 = CHR '':'' \<and> h < 24 \<and> m < 60 \<and> sec < 60
       then Some (3600 * h + 60 * m + sec) else None
   | _ \<Rightarrow> None)"

definition read_offset :: "string \<Rightarrow> int option" where
  "read_offset s =
     (if s = ''Z'' then Some 0
      else if length s = 6 \<and> s ! 3 = CHR '':'' \<and> (hd s = CHR ''+'' \<or> hd s = CHR ''-'') then
        (case (num (take 2 (drop 1 s)), num (drop 4 s)) of
           (Some h, Some m) \<Rightarrow>
             if h < 24 \<and> m < 60
             then Some ((if hd s = CHR ''-'' then -1 else 1) * (3600 * h + 60 * m) * 1000000) else None
         | _ \<Rightarrow> None)
      else None)"

definition read_tail :: "string \<Rightarrow> (int \<times> string) option" where
  "read_tail s = (case s of
     [] \<Rightarrow> Some (0, [])
   | c # r \<Rightarrow> if c = CHR ''.'' then map_option (\<lambda>u. (u, drop 6 r)) (if length r < 6 then None else num (take 6 r))
            else Some (0, s))"

definition fromisoformat :: "string \<Rightarrow> py_datetime option" where
  "fromisoformat s =
     (if length s < 19 then None
      else case (read_date (take 10 s), read_hms (take 8 (drop 11 s)), read_tail (drop 19 s)) of
        (Some n, Some sec, Some (u, z)) \<Rightarrow>
          let local = n * day_us + sec * 1000000 + u in
          if z = [] then Some (Naive local) else map_option (Aware local) (read_offset z)
      | _ \<Rightarrow> None)"

lemma read_date_iso:
  assumes "0 \<le> n" "n < 3652059"
  shows "read_date (iso_date n) = Some n"
proof -
  define k where "k = year_idx n"
  define l where "l = leap (k + 1)"
  define d where "d = n - dby k"
  define m where "m = month_idx l d"
  have kb: "0 \<le> k" "k < 9999" using year_idx_bound [OF assms] by (simp_all add: k_def)
  have db: "0 \<le> d" "d < (if l then 366 else 365)"
    using doy_bound [OF assms(1)] by (simp_all add: d_def l_def k_def)
  note mc = month_idx_cases [OF db, folded m_def] and md = month_idx_dim [OF db, folded m_def]
  have iso: "iso_date n = pad 4 (nat (k + 1)) @ ''-'' @ pad 2 (Suc m) @ ''-'' @
      pad 2 (nat (d - month_starts l ! m + 1))"
    by (simp add: iso_date_def Let_def k_def l_def d_def m_def)
  have nums: "num (pad 4 (nat (k + 1))) = Some (k + 1)" "num (pad 2 (Suc m)) = Some (int m + 1)"
    "num (pad 2 (nat (d - month_starts l ! m + 1))) = Some (d - month_starts l ! m + 1)"
    using kb mc num_pad_int [of "k + 1" 4] num_pad [of "Suc m" 2]
      num_pad_int [of "d - month_starts l ! m + 1" 2] by simp_all
  have parts: "take 4 (iso_date n) = pad 4 (nat (k + 1))"
    "take 2 (drop 5 (iso_date n)) = pad 2 (Suc m)"
    "drop 8 (iso_date n) = pad 2 (nat (d - month_starts l ! m + 1))"
    "iso_date n ! 4 = CHR ''-''" "iso_date n ! 7 = CHR ''-''"
    unfolding iso by (simp_all add: nth_append)
  show ?thesis
    unfolding read_date_def parts nums using kb mc md by (simp add: l_def [symmetric]) (simp add: d_def)
qed

lemma read_hms_text:
  assumes "0 \<le> h" "h < 24" "0 \<le> m" "m < 60" "0 \<le> s" "s < 60"
  shows "read_hms (hms_text h m s) = Some (3600 * h + 60 * m + s)"
proof -
  have nums: "num (pad 2 (nat h)) = Some h" "num (pad 2 (nat m)) = Some m" "num (pad 2 (nat s)) = Some s"
    using assms by (simp_all add: num_pad_int)
  have parts: "take 2 (hms_text h m s) = pad 2 (nat h)"
    "take 2 (drop 3 (hms_text h m s)) = pad 2 (nat m)" "drop 6 (hms_text h m s) = pad 2 (nat s)"
    "hms_text h m s ! 2 = CHR '':''" "hms_text h m s ! 5 = CHR '':''"
    unfolding hms_text_def by (simp_all add: nth_append)
  show ?thesis unfolding read_hms_def parts nums using assms by simp
qed

lemma read_hms_iso:
  assumes "0 \<le> s" "s < 86400"
  shows "read_hms (iso_hms s) = Some s"
proof -
  have h: "0 \<le> s div 3600" "s div 3600 < 24" using assms by simp_all
  have "s = 60 * (s div 60) + s mod 60" "s div 60 = 60 * (s div 60 div 60) + s div 60 mod 60" by simp_all
  moreover have "s div 60 div 60 = s div 3600" using zdiv_zmult2_eq [of 60 s 60] by simp
  ultimately have "3600 * (s div 3600) + 60 * (s div 60 mod 60) + s mod 60 = s" by linarith
  moreover have "0 \<le> s div 60 mod 60" "s div 60 mod 60 < 60" "0 \<le> s mod 60" "s mod 60 < 60"
    by simp_all
  ultimately show ?thesis
    using read_hms_text [OF h] unfolding iso_hms_def by metis
qed

lemma read_offset_utc: "read_offset ''+00:00'' = Some 0"
  by (simp add: read_offset_def num_def digit_val_def)

lemma read_tail_iso:
  assumes "0 \<le> u" "u < 1000000"
  shows "read_tail (iso_frac u) = Some (u, ''+00:00'')"
proof (cases "u = 0")
  case False
  have "num (pad 6 (nat u)) = Some u" using assms by (simp add: num_pad_int)
  with False show ?thesis by (simp add: read_tail_def iso_frac_def)
qed (simp add: read_tail_def iso_frac_def)

lemma fromisoformat_isoformat:
  assumes "time_valid t"
  shows "fromisoformat (isoformat t) = Some (Aware t 0)"
proof -
  let ?n = "t div day_us" and ?s = "t mod day_us div 1000000" and ?u = "t mod 1000000"
  have n: "0 \<le> ?n" "?n < 3652059" using assms by (auto simp: time_valid_def day_us_def)
  have s: "0 \<le> ?s" "?s < 86400" by (auto simp: day_us_def)
  have parts: "take 10 (isoformat t) = iso_date ?n"
    "take 8 (drop 11 (isoformat t)) = iso_hms ?s" "drop 19 (isoformat t) = iso_frac ?u"
    by (simp_all add: isoformat_def)
  have len: "\<not> length (isoformat t) < 19" by (simp add: isoformat_def)
  have "t mod day_us mod 1000000 = ?u" by (simp add: day_us_def mod_mod_cancel)
  moreover have "t = ?n * day_us + t mod day_us"
    "t mod day_us = ?s * 1000000 + t mod day_us mod 1000000" by simp_all
  ultimately have "?n * day_us + ?s * 1000000 + ?u = t" by linarith
  moreover have "?u < 1000000" "0 \<le> ?u" by simp_all
  ultimately show ?thesis
    using len by (simp add: fromisoformat_def parts read_date_iso [OF n] read_hms_iso [OF s]
        read_tail_iso read_offset_utc)
qed

section \<open>The contract of timestamp columns\<close>

text \<open>
  What a store that keeps timestamps as text relies on: comparing two stored texts compares
  the times, and reading a stored text gives the time back.
\<close>

locale time_text =
  fixes render :: "int \<Rightarrow> string" and parse :: "string \<Rightarrow> py_datetime option" and ok :: "int \<Rightarrow> bool"
  assumes render_less: "ok t \<Longrightarrow> ok u \<Longrightarrow> render t < render u \<longleftrightarrow> t < u"
    and parse_render: "ok t \<Longrightarrow> parse (render t) = Some (Aware t 0)"
begin

lemma render_inject: "ok t \<Longrightarrow> ok u \<Longrightarrow> render t = render u \<longleftrightarrow> t = u"
  by (metis parse_render option.inject py_datetime.inject(2))

lemma column_gt: "ok t \<Longrightarrow> ok u \<Longrightarrow> sql_gt (Text (render t)) (Text (render u)) \<longleftrightarrow> u < t"
  by (simp add: render_less)

lemma render_nonempty: "ok t \<Longrightarrow> ok u \<Longrightarrow> t < u \<Longrightarrow> render u \<noteq> []"
  using render_less [of t u] by auto

end

interpretation iso: time_text isoformat fromisoformat time_valid
  by unfold_locales (simp_all add: isoformat_less_iff fromisoformat_isoformat)

lemma isoformat_nonempty [simp]: "isoformat t \<noteq> []"
proof -
  have "length (isoformat t) \<noteq> 0" by (simp add: isoformat_def)
  then show ?thesis by auto
qed

end
