(* ===== verification/Json.thy ===== *)
theory Json
  imports PyTime
begin

text \<open>
  Python's \<open>json\<close> as the wire code uses it. \<open>json_dumps\<close> is \<open>json.dumps(value,
  sort_keys=True, separators=(",", ":"), ensure_ascii=False)\<close>; \<open>json_loads\<close> is \<open>json.loads\<close>,
  with \<open>strict\<close> set where the sources install the hooks that reject duplicate keys and
  non-finite constants. A float is kept as its lexeme. The parser spends one unit of fuel per
  value; \<open>json_loads\<close> supplies more than the text can need, and \<open>json_roundtrip\<close> shows that every
  rendered value is read back. Python's recursion limit is not modelled.
\<close>

datatype json =
    JNull
  | JBool bool
  | JInt int
  | JFloat string
  | JStr string
  | JArr "json list"
  | JObj "(string \<times> json) list"

section \<open>UTF-8 on the modelled code points\<close>

fun utf8_char :: "char \<Rightarrow> bytes" where
  "utf8_char c = (let n = (of_char c :: nat) in
     if n < 128 then [c] else [char_of (192 + n div 64), char_of (128 + n mod 64)])"

definition utf8_encode :: "string \<Rightarrow> bytes" where
  "utf8_encode s = concat (map utf8_char s)"

fun utf8_decode :: "bytes \<Rightarrow> string option" where
  "utf8_decode [] = Some []"
| "utf8_decode (c # r) = (let n = (of_char c :: nat) in
     if n < 128 then map_option ((#) c) (utf8_decode r)
     else if n = 194 \<or> n = 195 then
       (case r of [] \<Rightarrow> None
        | d # r' \<Rightarrow> (let m = (of_char d :: nat) in
            if 128 \<le> m \<and> m < 192
            then map_option ((#) (char_of ((n - 192) * 64 + (m - 128)))) (utf8_decode r') else None))
     else None)"

lemma of_char_less_256: "(of_char c :: nat) < 256"
  by simp

lemma utf8_decode_char: "utf8_decode (utf8_char c @ r) = map_option ((#) c) (utf8_decode r)"
proof (cases "(of_char c :: nat) < 128")
  case True
  then show ?thesis by (simp add: Let_def)
next
  case False
  define n where "n = (of_char c :: nat)"
  have c: "c = char_of n" by (simp add: n_def)
  have n: "128 \<le> n" "n < 256" using False of_char_less_256 [of c] by (simp_all add: n_def)
  then have "n div 64 = 2 \<or> n div 64 = 3" by auto
  moreover have "64 * (n div 64) + n mod 64 = n" "n mod 64 < 64" by simp_all
  ultimately consider "n div 64 = 2" "128 + n mod 64 = n" "n < 192" | "n div 64 = 3" "192 + n mod 64 = n"
    by linarith
  moreover have "utf8_char c = [char_of (192 + n div 64), char_of (128 + n mod 64)]"
    using n by (simp add: n_def Let_def)
  ultimately show ?thesis unfolding c by cases (simp_all add: Let_def del: utf8_char.simps)
qed

lemma utf8_roundtrip: "utf8_decode (utf8_encode s) = Some s"
  unfolding utf8_encode_def
  by (induction s) (simp_all add: utf8_decode_char del: utf8_char.simps)

section \<open>Rendering\<close>

fun hex4 :: "nat \<Rightarrow> string" where
  "hex4 n = map (\<lambda>i. ''0123456789abcdef'' ! (n div 16 ^ i mod 16)) [3, 2, 1, 0]"

definition esc_char :: "char \<Rightarrow> string" where
  "esc_char c =
     (if c = CHR 0x22 then [CHR 0x5C, CHR 0x22]
      else if c = CHR 0x5C then [CHR 0x5C, CHR 0x5C]
      else if c = CHR 0x0A then [CHR 0x5C, CHR ''n'']
      else if c = CHR 0x0D then [CHR 0x5C, CHR ''r'']
      else if c = CHR 0x09 then [CHR 0x5C, CHR ''t'']
      else if c = CHR 0x0C then [CHR 0x5C, CHR ''f'']
      else if c = CHR 0x08 then [CHR 0x5C, CHR ''b'']
      else if (of_char c :: nat) < 32 then [CHR 0x5C, CHR ''u''] @ hex4 (of_char c)
      else [c])"

definition quote :: "string \<Rightarrow> string" where
  "quote s = [CHR 0x22] @ concat (map esc_char s) @ [CHR 0x22]"

fun show_nat :: "nat \<Rightarrow> string" where
  "show_nat n = (if n < 10 then [digit n] else show_nat (n div 10) @ [digit (n mod 10)])"

declare show_nat.simps [simp del]

definition show_int :: "int \<Rightarrow> string" where
  "show_int i = (if i < 0 then ''-'' @ show_nat (nat (- i)) else show_nat (nat i))"

fun render :: "json \<Rightarrow> string"
  and render_elems :: "json list \<Rightarrow> string"
  and render_members :: "(string \<times> json) list \<Rightarrow> string" where
  "render JNull = ''null''"
| "render (JBool b) = (if b then ''true'' else ''false'')"
| "render (JInt i) = show_int i"
| "render (JFloat f) = f"
| "render (JStr s) = quote s"
| "render (JArr []) = ''[]''"
| "render (JArr (x # xs)) = ''['' @ render x @ render_elems xs"
| "render (JObj []) = ''{}''"
| "render (JObj ((k, v) # kvs)) = ''{'' @ quote k @ '':'' @ render v @ render_members kvs"
| "render_elems [] = '']''"
| "render_elems (x # xs) = '','' @ render x @ render_elems xs"
| "render_members [] = ''}''"
| "render_members ((k, v) # kvs) = '','' @ quote k @ '':'' @ render v @ render_members kvs"

fun canon :: "json \<Rightarrow> json"
  and canon_elems :: "json list \<Rightarrow> json list"
  and canon_members :: "(string \<times> json) list \<Rightarrow> (string \<times> json) list" where
  "canon (JArr xs) = JArr (canon_elems xs)"
| "canon (JObj kvs) = JObj (sort_key fst (canon_members kvs))"
| "canon j = j"
| "canon_elems [] = []"
| "canon_elems (x # xs) = canon x # canon_elems xs"
| "canon_members [] = []"
| "canon_members ((k, v) # kvs) = (k, canon v) # canon_members kvs"

definition json_dumps :: "json \<Rightarrow> string" where
  "json_dumps j = render (canon j)"

section \<open>Reading\<close>

definition skip_ws :: "string \<Rightarrow> string" where
  "skip_ws s = dropWhile (\<lambda>c. c \<in> {CHR '' '', CHR 0x09, CHR 0x0A, CHR 0x0D}) s"

definition hex_val :: "char \<Rightarrow> nat option" where
  "hex_val c = (let n = (of_char c :: nat) in
     if 48 \<le> n \<and> n \<le> 57 then Some (n - 48)
     else if 97 \<le> n \<and> n \<le> 102 then Some (n - 87)
     else if 65 \<le> n \<and> n \<le> 70 then Some (n - 55) else None)"

definition unesc :: "char \<Rightarrow> char option" where
  "unesc c =
     (if c \<in> {CHR 0x22, CHR 0x5C, CHR ''/''} then Some c
      else if c = CHR ''n'' then Some (CHR 0x0A) else if c = CHR ''r'' then Some (CHR 0x0D)
      else if c = CHR ''t'' then Some (CHR 0x09) else if c = CHR ''f'' then Some (CHR 0x0C)
      else if c = CHR ''b'' then Some (CHR 0x08) else None)"

definition unhex4 :: "char \<Rightarrow> char \<Rightarrow> char \<Rightarrow> char \<Rightarrow> char option" where
  "unhex4 a b c d = (case (hex_val a, hex_val b, hex_val c, hex_val d) of
     (Some p, Some q, Some r, Some s) \<Rightarrow>
       (let n = ((p * 16 + q) * 16 + r) * 16 + s in if n < 256 then Some (char_of n) else None)
   | _ \<Rightarrow> None)"

fun pstr :: "string \<Rightarrow> (string \<times> string) option" where
  "pstr [] = None"
| "pstr (c # r) =
     (if c = CHR 0x22 then Some ([], r)
      else if c = CHR 0x5C then
        (case r of [] \<Rightarrow> None
         | e # r1 \<Rightarrow>
           (if e = CHR ''u'' then
              (case r1 of a # b # c # d # r2 \<Rightarrow>
                 (case unhex4 a b c d of None \<Rightarrow> None
                  | Some x \<Rightarrow> map_option (\<lambda>(t, z). (x # t, z)) (pstr r2))
               | _ \<Rightarrow> None)
            else (case unesc e of None \<Rightarrow> None
                  | Some x \<Rightarrow> map_option (\<lambda>(t, z). (x # t, z)) (pstr r1))))
      else if (of_char c :: nat) < 32 then None
      else map_option (\<lambda>(t, z). (c # t, z)) (pstr r))"

definition is_digit :: "char \<Rightarrow> bool" where
  "is_digit c = (48 \<le> (of_char c :: nat) \<and> (of_char c :: nat) \<le> 57)"

definition pnum :: "string \<Rightarrow> (json \<times> string) option" where
  "pnum s =
     (let (neg, r) = (case s of c # r \<Rightarrow> if c = CHR ''-'' then (True, r) else (False, s) | [] \<Rightarrow> (False, s));
          ds = takeWhile is_digit r;
          r1 = dropWhile is_digit r
      in if ds = [] \<or> (hd ds = CHR ''0'' \<and> length ds > 1) then None
         else
           (let (frac, r2) = (case r1 of c # q \<Rightarrow>
                 if c = CHR ''.'' \<and> takeWhile is_digit q \<noteq> []
                 then (c # takeWhile is_digit q, dropWhile is_digit q) else ([], r1)
               | [] \<Rightarrow> ([], r1));
                (ex, r3) = (case r2 of c # q \<Rightarrow>
                 (let (sg, q1) = (case q of d # q1 \<Rightarrow> if d \<in> {CHR ''+'', CHR ''-''} then ([d], q1) else ([], q)
                                  | [] \<Rightarrow> ([], q))
                  in if c \<in> {CHR ''e'', CHR ''E''} \<and> takeWhile is_digit q1 \<noteq> []
                     then (c # sg @ takeWhile is_digit q1, dropWhile is_digit q1) else ([], r2))
               | [] \<Rightarrow> ([], r2))
            in if frac = [] \<and> ex = []
               then Some (JInt ((if neg then -1 else 1) * int (the (num_acc 0 ds))), r3)
               else Some (JFloat ((if neg then ''-'' else []) @ ds @ frac @ ex), r3)))"

definition literals :: "(string \<times> json) list" where
  "literals = [(''null'', JNull), (''true'', JBool True), (''false'', JBool False)]"

definition constants :: "string list" where
  "constants = [''NaN'', ''Infinity'', ''-Infinity'']"

definition starts_with :: "string \<Rightarrow> string \<Rightarrow> bool" where
  "starts_with p s = (take (length p) s = p)"

lemma starts_with_simps [simp]:
  "starts_with [] s" "\<not> starts_with (p # ps) []"
  "starts_with (p # ps) (c # s) \<longleftrightarrow> p = c \<and> starts_with ps s"
  by (auto simp: starts_with_def)

definition patom :: "bool \<Rightarrow> string \<Rightarrow> (json \<times> string) option" where
  "patom strict s =
     (case find (\<lambda>(p, _). starts_with p s) literals of
        Some (p, j) \<Rightarrow> Some (j, drop (length p) s)
      | None \<Rightarrow> (case find (\<lambda>p. starts_with p s) constants of
          Some p \<Rightarrow> if strict then None else Some (JFloat p, drop (length p) s)
        | None \<Rightarrow> pnum s))"

text \<open>\<open>result[key] = value\<close> on a dictionary in insertion order.\<close>

fun dict_put :: "string \<Rightarrow> 'a \<Rightarrow> (string \<times> 'a) list \<Rightarrow> (string \<times> 'a) list" where
  "dict_put k v [] = [(k, v)]"
| "dict_put k v ((l, w) # d) = (if k = l then (k, v) # d else (l, w) # dict_put k v d)"

definition mk_obj :: "bool \<Rightarrow> (string \<times> json) list \<Rightarrow> json option" where
  "mk_obj strict kvs =
     (if strict then (if distinct (map fst kvs) then Some (JObj kvs) else None)
      else Some (JObj (foldl (\<lambda>d (k, v). dict_put k v d) [] kvs)))"

fun pvalue :: "bool \<Rightarrow> nat \<Rightarrow> string \<Rightarrow> (json \<times> string) option"
  and pelems :: "bool \<Rightarrow> nat \<Rightarrow> string \<Rightarrow> (json list \<times> string) option"
  and pmembers :: "bool \<Rightarrow> nat \<Rightarrow> string \<Rightarrow> ((string \<times> json) list \<times> string) option"
  and pmember :: "bool \<Rightarrow> nat \<Rightarrow> string \<Rightarrow> ((string \<times> json) list \<times> string) option" where
  "pvalue st 0 s = None"
| "pvalue st (Suc n) s =
     (case skip_ws s of [] \<Rightarrow> None
      | c # r \<Rightarrow>
        if c = CHR 0x22 then map_option (\<lambda>(t, z). (JStr t, z)) (pstr r)
        else if c = CHR ''['' then
          (if starts_with '']'' (skip_ws r) then Some (JArr [], tl (skip_ws r))
           else (case pvalue st n r of None \<Rightarrow> None
                 | Some (x, r1) \<Rightarrow> map_option (\<lambda>(xs, z). (JArr (x # xs), z)) (pelems st n r1)))
        else if c = CHR ''{'' then
          (if starts_with ''}'' (skip_ws r) then Some (JObj [], tl (skip_ws r))
           else (case pmember st n r of None \<Rightarrow> None
                 | Some (kvs, z) \<Rightarrow> map_option (\<lambda>j. (j, z)) (mk_obj st kvs)))
        else patom st (c # r))"
| "pelems st 0 s = None"
| "pelems st (Suc n) s =
     (case skip_ws s of [] \<Rightarrow> None
      | c # r \<Rightarrow>
        if c = CHR '']'' then Some ([], r)
        else if c = CHR '','' then
          (case pvalue st n r of None \<Rightarrow> None
           | Some (x, r1) \<Rightarrow> map_option (\<lambda>(xs, z). (x # xs, z)) (pelems st n r1))
        else None)"
| "pmembers st 0 s = None"
| "pmembers st (Suc n) s =
     (case skip_ws s of [] \<Rightarrow> None
      | c # r \<Rightarrow>
        if c = CHR ''}'' then Some ([], r)
        else if c = CHR '','' then pmember st n r else None)"
| "pmember st 0 s = None"
| "pmember st (Suc n) s =
     (case skip_ws s of [] \<Rightarrow> None
      | c # r \<Rightarrow>
        if c = CHR 0x22 then
          (case pstr r of None \<Rightarrow> None
           | Some (k, r1) \<Rightarrow>
             (if starts_with '':'' (skip_ws r1) then
                (case pvalue st n (tl (skip_ws r1)) of None \<Rightarrow> None
                 | Some (v, r2) \<Rightarrow> map_option (\<lambda>(kvs, z). ((k, v) # kvs, z)) (pmembers st n r2))
              else None))
        else None)"

definition json_loads :: "bool \<Rightarrow> string \<Rightarrow> json option" where
  "json_loads strict s = (case pvalue strict (2 * length s + 2) s of
     Some (j, r) \<Rightarrow> if skip_ws r = [] then Some j else None
   | None \<Rightarrow> None)"

section \<open>Every rendered value is read back\<close>

lemma hex_val_nth: "k < 16 \<Longrightarrow> hex_val (''0123456789abcdef'' ! k) = Some k"
proof -
  have "list_all (\<lambda>k. hex_val (''0123456789abcdef'' ! k) = Some k) [0..<16]"
    by (simp add: upt_rec hex_val_def Let_def)
  then show "k < 16 \<Longrightarrow> ?thesis" by (simp add: list_all_iff)
qed

lemma unhex4_eq:
  "hex_val a = Some p \<Longrightarrow> hex_val b = Some q \<Longrightarrow> hex_val c = Some r \<Longrightarrow> hex_val d = Some s \<Longrightarrow>
   ((p * 16 + q) * 16 + r) * 16 + s = n \<Longrightarrow> n < 256 \<Longrightarrow> unhex4 a b c d = Some (char_of n)"
  unfolding unhex4_def by simp

lemma unhex4_hex4:
  assumes "n < 256" "hex4 n = [a, b, c, d]"
  shows "unhex4 a b c d = Some (char_of n)"
proof -
  have abcd: "a = ''0123456789abcdef'' ! (n div 4096 mod 16)" "b = ''0123456789abcdef'' ! (n div 256 mod 16)"
    "c = ''0123456789abcdef'' ! (n div 16 mod 16)" "d = ''0123456789abcdef'' ! (n mod 16)"
    using assms(2) by auto
  have sum: "((n div 4096 mod 16 * 16 + n div 256 mod 16) * 16 + n div 16 mod 16) * 16 + n mod 16 = n"
    using assms(1) by simp
  show ?thesis unfolding abcd
    by (rule unhex4_eq [OF _ _ _ _ sum assms(1)]) (rule hex_val_nth, simp)+
qed

lemma of_char_quote: "\<not> (of_char (CHR 0x22) :: nat) < 32"
  and of_char_backslash: "\<not> (of_char (CHR 0x5C) :: nat) < 32"
  by simp_all

lemma pstr_esc: "pstr (esc_char c @ z) = map_option (\<lambda>(t, y). (c # t, y)) (pstr z)"
proof (cases "(of_char c :: nat) < 32 \<and> c \<notin> {CHR 0x0A, CHR 0x0D, CHR 0x09, CHR 0x0C, CHR 0x08}")
  case True
  obtain a b d e where h: "hex4 (of_char c) = [a, b, d, e]" by simp
  have "unhex4 a b d e = Some c"
    using unhex4_hex4 [OF _ h] of_char_less_256 [of c] by simp
  moreover have "c \<noteq> CHR 0x22" "c \<noteq> CHR 0x5C"
    using True by (metis of_char_quote, metis of_char_backslash)
  with True have "esc_char c = [CHR 0x5C, CHR ''u''] @ hex4 (of_char c)"
    unfolding esc_char_def by (simp del: hex4.simps)
  then have "esc_char c = [CHR 0x5C, CHR ''u'', a, b, d, e]" by (simp only: h append.simps)
  ultimately show ?thesis by simp
next
  case False
  show ?thesis
  proof (cases "c \<in> {CHR 0x22, CHR 0x5C, CHR 0x0A, CHR 0x0D, CHR 0x09, CHR 0x0C, CHR 0x08}")
    case True
    then show ?thesis by (elim insertE emptyE; simp add: esc_char_def unesc_def)
  next
    case plain: False
    with False have "esc_char c = [c]" "\<not> (of_char c :: nat) < 32" by (simp_all add: esc_char_def)
    with plain show ?thesis by simp
  qed
qed

lemma pstr_quote: "pstr (concat (map esc_char s) @ CHR 0x22 # r) = Some (s, r)"
  by (induction s) (simp_all add: pstr_esc)

lemma show_nat_digits: "list_all is_digit (show_nat n) \<and> show_nat n \<noteq> []"
proof (induction n rule: show_nat.induct)
  case (1 n)
  have d: "is_digit (digit m)" if "m < 10" for m using that by (simp add: is_digit_def digit_def)
  show ?case using 1 d unfolding show_nat.simps [of n] by simp
qed

lemma num_acc_show_nat: "num_acc 0 (show_nat n) = Some n"
proof (induction n rule: show_nat.induct)
  case (1 n)
  then show ?case unfolding show_nat.simps [of n] by (simp add: num_acc_append)
qed

lemma show_nat_lead: "9 < n \<Longrightarrow> hd (show_nat n) \<noteq> CHR ''0''"
proof (induction n rule: show_nat.induct)
  case (1 n)
  have nz: "digit m \<noteq> CHR ''0''" if "0 < m" "m < 10" for m
  proof
    assume "digit m = CHR ''0''"
    then have "digit_val (digit m) = Some 0" by (simp add: digit_val_def)
    with that show False by simp
  qed
  show ?case
  proof (cases "n div 10 < 10")
    case True
    with 1 nz [of "n div 10"] show ?thesis
      by (simp add: show_nat.simps [of n] show_nat.simps [of "n div 10"])
  next
    case False
    with 1 show_nat_digits [of "n div 10"] show ?thesis
      by (simp add: show_nat.simps [of n])
  qed
qed

text \<open>What may follow a value: nothing, a delimiter, or the end of the line.\<close>

definition delimited :: "string \<Rightarrow> bool" where
  "delimited r = (case r of [] \<Rightarrow> True | c # _ \<Rightarrow> c \<in> {CHR '','', CHR '']'', CHR ''}'', CHR 0x0A})"

lemma digits_split:
  assumes "list_all is_digit ds" "delimited r"
  shows "takeWhile is_digit (ds @ r) = ds" "dropWhile is_digit (ds @ r) = r"
proof -
  have "r = [] \<or> \<not> is_digit (hd r)"
    using assms(2) by (auto simp: delimited_def is_digit_def split: list.splits)
  then have "takeWhile is_digit r = []" "dropWhile is_digit r = r" by (cases r; auto)+
  with assms(1) show "takeWhile is_digit (ds @ r) = ds" "dropWhile is_digit (ds @ r) = r"
    by (auto simp: list_all_iff takeWhile_append2 dropWhile_append2)
qed

lemma pnum_digits:
  assumes "delimited r"
  shows "pnum ((if neg then ''-'' else []) @ show_nat n @ r)
    = Some (JInt ((if neg then -1 else 1) * int n), r)"
proof -
  let ?ds = "show_nat n"
  have d: "list_all is_digit ?ds" "?ds \<noteq> []" using show_nat_digits by blast+
  note sp = digits_split [OF d(1) assms]
  have lead: "\<not> (hd ?ds = CHR ''0'' \<and> length ?ds > 1)"
    using show_nat_lead [of n] by (cases "n < 10") (auto simp: show_nat.simps [of n])
  have start: "(case ?ds @ r of c # q \<Rightarrow> if c = CHR ''-'' then (True, q) else (False, ?ds @ r)
      | [] \<Rightarrow> (False, ?ds @ r)) = (False, ?ds @ r)"
    using d by (cases ?ds) (auto simp: is_digit_def)
  show ?thesis
  proof (cases neg)
    case True
    then show ?thesis
      using assms d lead sp num_acc_show_nat [of n]
      by (auto simp: pnum_def delimited_def split: list.splits)
  next
    case False
    then show ?thesis
      using assms d lead sp start num_acc_show_nat [of n]
      by (auto simp: pnum_def delimited_def split: list.splits)
  qed
qed

lemma pnum_show_int: "delimited r \<Longrightarrow> pnum (show_int i @ r) = Some (JInt i, r)"
  using pnum_digits [of r "i < 0" "nat \<bar>i\<bar>"] by (cases "i < 0") (simp_all add: show_int_def)

lemma show_int_first:
  "\<exists>c q. show_int i = c # q \<and> (is_digit c \<or> c = CHR ''-'' \<and> q \<noteq> [] \<and> is_digit (hd q))"
proof -
  obtain d ds where "show_nat (nat \<bar>i\<bar>) = d # ds" "is_digit d"
    using show_nat_digits [of "nat \<bar>i\<bar>"] by (auto simp: neq_Nil_conv)
  then show ?thesis by (cases "i < 0") (simp_all add: show_int_def)
qed

lemma is_digit_not: "is_digit c \<Longrightarrow> c \<notin> {CHR '' '', CHR 0x09, CHR 0x0A, CHR 0x0D, CHR '']'', CHR ''}'',
    CHR 0x22, CHR ''['', CHR ''{'', CHR ''n'', CHR ''t'', CHR ''f'', CHR ''N'', CHR ''I'', CHR ''-''}"
  by (auto simp: is_digit_def)

lemma pvalue_int:
  assumes "delimited r"
  shows "pvalue st (Suc n) (show_int i @ r) = Some (JInt i, r)"
proof -
  obtain c q where c: "show_int i = c # q" "is_digit c \<or> c = CHR ''-'' \<and> q \<noteq> [] \<and> is_digit (hd q)"
    using show_int_first by blast
  have "\<not> starts_with p (show_int i @ r)" if "p \<in> set (map fst literals @ constants)" for p
  proof -
    have "(\<exists>a p'. p = a # p' \<and> a \<in> {CHR ''n'', CHR ''t'', CHR ''f'', CHR ''N'', CHR ''I''})
        \<or> (\<exists>p'. p = CHR ''-'' # CHR ''I'' # p')"
      using that by (auto simp: literals_def constants_def)
    then consider (alpha) a p' where "p = a # p'" "a \<in> {CHR ''n'', CHR ''t'', CHR ''f'', CHR ''N'', CHR ''I''}"
      | (minus) p' where "p = CHR ''-'' # CHR ''I'' # p'" by blast
    then show ?thesis
    proof cases
      case alpha
      have "\<not> is_digit a \<and> a \<noteq> CHR ''-''"
        using alpha(2) by (elim insertE emptyE) (simp_all add: is_digit_def)
      then have "a \<noteq> c" using c(2) by metis
      with alpha c(1) show ?thesis by simp
    next
      case minus
      show ?thesis
      proof (cases "c = CHR ''-''")
        case True
        then have "\<not> is_digit c" by (simp add: is_digit_def)
        with c(2) have "q \<noteq> []" "is_digit (hd q)" by simp_all
        then obtain d q' where q: "q = d # q'" "is_digit d" by (cases q) simp_all
        have "\<not> is_digit (CHR ''I'')" by (simp add: is_digit_def)
        with q(2) have "CHR ''I'' \<noteq> d" by metis
        with minus c(1) q(1) show ?thesis by simp
      next
        case False
        with minus c(1) show ?thesis by simp
      qed
    qed
  qed
  then have "patom st (show_int i @ r) = pnum (show_int i @ r)"
    by (simp add: patom_def literals_def constants_def)
  moreover have f: "c \<notin> {CHR '' '', CHR 0x09, CHR 0x0A, CHR 0x0D, CHR 0x22, CHR ''['', CHR ''{''}"
  proof (cases "is_digit c")
    case True
    then show ?thesis using is_digit_not [of c] by simp
  next
    case False
    with c(2) show ?thesis by simp
  qed
  moreover have "skip_ws (show_int i @ r) = c # (q @ r)"
    using c(1) f by (simp add: skip_ws_def)
  ultimately show ?thesis using pnum_show_int [OF assms, of i] c(1) by simp
qed

fun readable :: "json \<Rightarrow> bool"
  and readable_elems :: "json list \<Rightarrow> bool"
  and readable_members :: "(string \<times> json) list \<Rightarrow> bool" where
  "readable (JFloat f) = False"
| "readable (JArr xs) = readable_elems xs"
| "readable (JObj kvs) = (distinct (map fst kvs) \<and> readable_members kvs)"
| "readable _ = True"
| "readable_elems [] = True"
| "readable_elems (x # xs) = (readable x \<and> readable_elems xs)"
| "readable_members [] = True"
| "readable_members ((k, v) # kvs) = (readable v \<and> readable_members kvs)"

lemma foldl_dict_put:
  "distinct (map fst (d @ kvs)) \<Longrightarrow> foldl (\<lambda>d (k, v). dict_put k v d) d kvs = d @ kvs"
proof (induction kvs arbitrary: d)
  case (Cons kv kvs)
  obtain k v where kv: "kv = (k, v)" by force
  have "dict_put k v d = d @ [(k, v)]"
    using Cons.prems kv by (induction d) auto
  with Cons.IH [of "d @ [(k, v)]"] Cons.prems kv show ?case by simp
qed simp

lemma mk_obj_distinct: "distinct (map fst kvs) \<Longrightarrow> mk_obj st kvs = Some (JObj kvs)"
  using foldl_dict_put [of "[]" kvs] by (simp add: mk_obj_def)

lemma skip_ws_first [simp]: "c \<notin> {CHR '' '', CHR 0x09, CHR 0x0A, CHR 0x0D} \<Longrightarrow> skip_ws (c # r) = c # r"
  by (simp add: skip_ws_def)

text \<open>
  Rendering with any quotation of strings. A quotation that \<open>pstr\<close> reads back makes the whole text readable; the
  two that the sources use are \<open>quote\<close> (\<open>ensure_ascii=False\<close>) and \<open>quote_ascii\<close> (the default).
\<close>

fun render_with :: "(string \<Rightarrow> string) \<Rightarrow> json \<Rightarrow> string"
  and render_elems_with :: "(string \<Rightarrow> string) \<Rightarrow> json list \<Rightarrow> string"
  and render_members_with :: "(string \<Rightarrow> string) \<Rightarrow> (string \<times> json) list \<Rightarrow> string" where
  "render_with q JNull = ''null''"
| "render_with q (JBool b) = (if b then ''true'' else ''false'')"
| "render_with q (JInt i) = show_int i"
| "render_with q (JFloat f) = f"
| "render_with q (JStr s) = q s"
| "render_with q (JArr []) = ''[]''"
| "render_with q (JArr (x # xs)) = ''['' @ render_with q x @ render_elems_with q xs"
| "render_with q (JObj []) = ''{}''"
| "render_with q (JObj ((k, v) # kvs)) = ''{'' @ q k @ '':'' @ render_with q v @ render_members_with q kvs"
| "render_elems_with q [] = '']''"
| "render_elems_with q (x # xs) = '','' @ render_with q x @ render_elems_with q xs"
| "render_members_with q [] = ''}''"
| "render_members_with q ((k, v) # kvs) = '','' @ q k @ '':'' @ render_with q v @ render_members_with q kvs"

definition esc_ascii :: "char \<Rightarrow> string" where
  "esc_ascii c = (if (of_char c :: nat) < 127 then esc_char c else [CHR 0x5C, CHR ''u''] @ hex4 (of_char c))"

definition quote_ascii :: "string \<Rightarrow> string" where
  "quote_ascii s = [CHR 0x22] @ concat (map esc_ascii s) @ [CHR 0x22]"

text \<open>\<open>json.dumps(value, sort_keys=True, separators=(",", ":"))\<close>\<close>

definition json_dumps_ascii :: "json \<Rightarrow> string" where
  "json_dumps_ascii j = render_with quote_ascii (canon j)"

lemma pstr_esc_ascii: "pstr (esc_ascii c @ z) = map_option (\<lambda>(t, y). (c # t, y)) (pstr z)"
proof (cases "(of_char c :: nat) < 127")
  case False
  obtain a b d e where h: "hex4 (of_char c) = [a, b, d, e]" by simp
  have "unhex4 a b d e = Some c" using unhex4_hex4 [OF _ h] of_char_less_256 [of c] by simp
  moreover have "esc_ascii c = [CHR 0x5C, CHR ''u'', a, b, d, e]"
    using False by (simp only: esc_ascii_def h append.simps if_False)
  ultimately show ?thesis by simp
qed (simp add: esc_ascii_def pstr_esc)

lemma render_with_quote:
  "render_with quote j = render j" "render_elems_with quote xs = render_elems xs" "render_members_with quote kvs = render_members kvs"
  by (induction j and xs and kvs rule: render_render_elems_render_members.induct) simp_all

lemma delimited_elems: "delimited (render_elems_with q xs @ r)"
  by (cases xs) (simp_all add: delimited_def)

lemma delimited_members: "delimited (render_members_with q kvs @ r)"
  by (cases kvs rule: render_members.cases) (simp_all add: delimited_def)

lemma pvalue_atoms:
  assumes "0 < n"
  shows "pvalue st n (CHR ''n'' # CHR ''u'' # CHR ''l'' # CHR ''l'' # r) = Some (JNull, r)"
    "pvalue st n (CHR ''t'' # CHR ''r'' # CHR ''u'' # CHR ''e'' # r) = Some (JBool True, r)"
    "pvalue st n (CHR ''f'' # CHR ''a'' # CHR ''l'' # CHR ''s'' # CHR ''e'' # r) = Some (JBool False, r)"
    "pvalue st n (CHR ''['' # CHR '']'' # r) = Some (JArr [], r)"
    "pvalue st n (CHR ''{'' # CHR ''}'' # r) = Some (JObj [], r)"
    "pelems st n (CHR '']'' # r) = Some ([], r)"
    "pmembers st n (CHR ''}'' # r) = Some ([], r)"
  using assms by (cases n; simp add: patom_def literals_def)+

locale quotation =
  fixes q :: "string \<Rightarrow> string"
  assumes opens: "q s = CHR 0x22 # tl (q s)" and closes: "tl (q s) \<noteq> []" and reads: "pstr (tl (q s) @ r) = Some (s, r)"
begin

lemma length_q: "2 \<le> length (q s)"
  using closes [of s] by (subst opens) (cases "tl (q s)"; simp)

lemma starts: "q s @ r = CHR 0x22 # (tl (q s) @ r)"
  by (subst opens) simp

lemma render_first:
  "readable j \<Longrightarrow> \<exists>c z. render_with q j = c # z \<and> c \<notin> {CHR '' '', CHR 0x09, CHR 0x0A, CHR 0x0D, CHR '']''}"
proof (cases j)
  case (JInt i)
  obtain c z where "show_int i = c # z" "is_digit c \<or> c = CHR ''-''" using show_int_first by blast
  then have "c \<notin> {CHR '' '', CHR 0x09, CHR 0x0A, CHR 0x0D, CHR '']''}"
    using is_digit_not [of c] by (cases "is_digit c") simp_all
  with JInt \<open>show_int i = c # z\<close> show ?thesis by simp
next
  case (JStr s)
  then show ?thesis using opens [of s] by (intro exI [of _ "CHR 0x22"] exI [of _ "tl (q s)"]) simp
next
  case (JArr xs)
  then show ?thesis by (cases xs) simp_all
next
  case (JObj kvs)
  then show ?thesis by (cases kvs) auto
qed simp_all

lemma pmember_q:
  assumes "pvalue st n (render_with q v @ z) = Some (v, z)" "pmembers st n z = Some (kvs, r)"
  shows "pmember st (Suc n) (q k @ '':'' @ render_with q v @ z) = Some ((k, v) # kvs, r)"
  using assms by (simp add: starts reads)

lemma pvalue_q:
  shows "readable j \<Longrightarrow> delimited r \<Longrightarrow> 2 * length (render_with q j) \<le> n \<Longrightarrow>
      pvalue st n (render_with q j @ r) = Some (j, r)"
    and "readable_elems xs \<Longrightarrow> 2 * length (render_elems_with q xs) \<le> n \<Longrightarrow>
      pelems st n (render_elems_with q xs @ r) = Some (xs, r)"
    and "readable_members kvs \<Longrightarrow> 2 * length (render_members_with q kvs) \<le> n \<Longrightarrow>
      pmembers st n (render_members_with q kvs @ r) = Some (kvs, r)"
proof (induction j and xs and kvs arbitrary: n r and n r and n r
    rule: render_render_elems_render_members.induct)
  case (3 i)
  obtain c z where "show_int i = c # z" using show_int_first by blast
  with 3 obtain m where "n = Suc m" by (cases n) auto
  then show ?case using pvalue_int 3 by simp
next
  case (5 s)
  then obtain m where "n = Suc m" using length_q [of s] by (cases n) auto
  then show ?case by (simp add: starts reads)
next
  case (7 x xs)
  then obtain m where n: "n = Suc m" by (cases n) auto
  obtain c z where c: "render_with q x = c # z" "c \<notin> {CHR '' '', CHR 0x09, CHR 0x0A, CHR 0x0D, CHR '']''}"
    using render_first [of x] 7 by auto
  have "pvalue st m (render_with q x @ render_elems_with q xs @ r) = Some (x, render_elems_with q xs @ r)"
    using 7 n delimited_elems by simp
  moreover have "pelems st m (render_elems_with q xs @ r) = Some (xs, r)" using 7 n by simp
  ultimately show ?case using c n by auto
next
  case (9 k v kvs)
  then obtain m where n: "n = Suc (Suc m)" using length_q [of k] by (cases n; cases "n - 1") auto
  have len: "2 * length (render_with q v) \<le> m" "2 * length (render_members_with q kvs) \<le> m"
    using 9 n length_q [of k] by simp_all
  have "pmember st (Suc m) (q k @ '':'' @ render_with q v @ render_members_with q kvs @ r) = Some ((k, v) # kvs, r)"
    using 9 len delimited_members by (intro pmember_q) simp_all
  moreover have "\<not> starts_with ''}'' (skip_ws (q k @ z))" for z by (simp add: starts)
  ultimately show ?case using n 9 mk_obj_distinct [of "(k, v) # kvs" st] by simp
next
  case (11 x xs)
  then obtain m where n: "n = Suc m" by (cases n) auto
  have "pvalue st m (render_with q x @ render_elems_with q xs @ r) = Some (x, render_elems_with q xs @ r)"
    using 11 n delimited_elems by simp
  moreover have "pelems st m (render_elems_with q xs @ r) = Some (xs, r)" using 11 n by simp
  ultimately show ?case using n by simp
next
  case (13 k v kvs)
  then obtain m where n: "n = Suc (Suc m)" using length_q [of k] by (cases n; cases "n - 1") auto
  have len: "2 * length (render_with q v) \<le> m" "2 * length (render_members_with q kvs) \<le> m"
    using 13 n length_q [of k] by simp_all
  have "pmember st (Suc m) (q k @ '':'' @ render_with q v @ render_members_with q kvs @ r) = Some ((k, v) # kvs, r)"
    using 13 len delimited_members by (intro pmember_q) simp_all
  then show ?case using n by simp
qed (auto simp: pvalue_atoms)

lemma loads_render: "readable j \<Longrightarrow> json_loads st (render_with q j) = Some j"
  using pvalue_q(1) [of j "[]" "2 * length (render_with q j) + 2" st]
  by (simp add: json_loads_def delimited_def skip_ws_def)

end

interpretation plain: quotation quote
  by unfold_locales (simp_all add: quote_def pstr_quote)

interpretation escaped: quotation quote_ascii
proof
  have "pstr (concat (map esc_ascii s) @ CHR 0x22 # r) = Some (s, r)" for s r
    by (induction s) (simp_all add: pstr_esc_ascii)
  then show "pstr (tl (quote_ascii s) @ r) = Some (s, r)" for s r by (simp add: quote_ascii_def)
qed (simp_all add: quote_ascii_def)

lemmas pvalue_render = plain.pvalue_q [unfolded render_with_quote]

lemma json_roundtrip:
  assumes "readable j"
  shows "json_loads st (render j) = Some j"
  using plain.loads_render [OF assms] by (simp add: render_with_quote)

lemma json_roundtrip_ascii: "readable (canon j) \<Longrightarrow> json_loads st (json_dumps_ascii j) = Some (canon j)"
  unfolding json_dumps_ascii_def by (rule escaped.loads_render)

end
