(* ===== verification/Wire.thy ===== *)
theory Wire
  imports Json
begin

text \<open>
  What the wire code takes from Python beyond \<open>json\<close>: URL-safe base64
  (\<open>base64.urlsafe_b64encode\<close> and \<open>base64.b64decode(altchars=b"-_", validate=True)\<close>, CPython
  3.11), the conversions \<open>str()\<close>, \<open>int()\<close> and \<open>dict()\<close> applied to decoded JSON, and dictionary
  lookups. A decoded float carries its lexeme, so \<open>str()\<close> of it is exact when the lexeme is the one
  Python itself would print.

  The last section states the contract of a JSON wire codec: canonical text read back gives
  the same dictionaries up to the order of their keys.
\<close>

section \<open>Base64\<close>

definition b64_alphabet :: string where
  "b64_alphabet = ''ABCDEFGHIJKLMNOPQRSTUVWXYZabcdefghijklmnopqrstuvwxyz0123456789-_''"

definition b64_char :: "nat \<Rightarrow> char" where
  "b64_char k = b64_alphabet ! k"

definition b64_val :: "char \<Rightarrow> nat option" where
  "b64_val c = (let n = (of_char c :: nat) in
     if 65 \<le> n \<and> n \<le> 90 then Some (n - 65)
     else if 97 \<le> n \<and> n \<le> 122 then Some (n - 71)
     else if 48 \<le> n \<and> n \<le> 57 then Some (n + 4)
     else if n = 45 \<or> n = 43 then Some 62
     else if n = 95 \<or> n = 47 then Some 63 else None)"

fun b64_encode :: "bytes \<Rightarrow> string" where
  "b64_encode [] = []"
| "b64_encode [a] = (let x = (of_char a :: nat) in
     [b64_char (x div 4), b64_char (x mod 4 * 16), CHR ''='', CHR ''=''])"
| "b64_encode [a, b] = (let x = (of_char a :: nat); y = (of_char b :: nat) in
     [b64_char (x div 4), b64_char (x mod 4 * 16 + y div 16), b64_char (y mod 16 * 4), CHR ''=''])"
| "b64_encode (a # b # c # r) = (let x = (of_char a :: nat); y = (of_char b :: nat); z = (of_char c :: nat) in
     [b64_char (x div 4), b64_char (x mod 4 * 16 + y div 16), b64_char (y mod 16 * 4 + z div 64),
      b64_char (z mod 64)] @ b64_encode r)"

fun b64_bytes :: "nat list \<Rightarrow> bytes" where
  "b64_bytes (w # x # y # z # r) =
     [char_of (w * 4 + x div 16), char_of (x mod 16 * 16 + y div 4), char_of (y mod 4 * 64 + z)] @ b64_bytes r"
| "b64_bytes [w, x, y] = [char_of (w * 4 + x div 16), char_of (x mod 16 * 16 + y div 4)]"
| "b64_bytes [w, x] = [char_of (w * 4 + x div 16)]"
| "b64_bytes _ = []"

fun b64_vals :: "string \<Rightarrow> nat list option" where
  "b64_vals [] = Some []"
| "b64_vals (c # s) = (case (b64_val c, b64_vals s) of (Some v, Some vs) \<Rightarrow> Some (v # vs) | _ \<Rightarrow> None)"

text \<open>
  Strict decoding: only alphabet characters, then only padding; the padding must complete the
  last group exactly, except that padding after a complete group is ignored.
\<close>

definition b64_decode :: "string \<Rightarrow> bytes option" where
  "b64_decode s =
     (let d = takeWhile (\<lambda>c. c \<noteq> CHR ''='') s;
          p = dropWhile (\<lambda>c. c \<noteq> CHR ''='') s;
          pads = length p
      in if \<not> list_all (\<lambda>c. c = CHR ''='') p \<or> d = [] \<and> p \<noteq> [] then None
         else case b64_vals d of None \<Rightarrow> None
         | Some vs \<Rightarrow>
           if length d mod 4 = 0 \<or> length d mod 4 = 2 \<and> pads = 2 \<or> length d mod 4 = 3 \<and> pads = 1
           then Some (b64_bytes vs) else None)"

lemma b64_alphabet_vals: "map b64_val b64_alphabet = map Some [0..<64]"
  by (simp add: b64_alphabet_def b64_val_def Let_def upt_rec)

lemma b64_alphabet_ascii:
  "list_all (\<lambda>c. c \<noteq> CHR ''='') b64_alphabet" "list_all (\<lambda>c. (of_char c :: nat) < 128) b64_alphabet"
  by (simp_all add: b64_alphabet_def)

lemma b64_char_facts:
  assumes "k < 64"
  shows "b64_val (b64_char k) = Some k" "b64_char k \<noteq> CHR ''=''"
    "(of_char (b64_char k) :: nat) < 128"
proof -
  have len: "k < length b64_alphabet" using assms by (simp add: b64_alphabet_def)
  have "map b64_val b64_alphabet ! k = map Some [0..<64] ! k" by (simp only: b64_alphabet_vals)
  with assms len show "b64_val (b64_char k) = Some k" by (simp add: b64_char_def)
  show "b64_char k \<noteq> CHR ''=''" "(of_char (b64_char k) :: nat) < 128"
    using b64_alphabet_ascii nth_mem [OF len] unfolding b64_char_def list_all_iff by blast+
qed

text \<open>The sextets of a byte string and the padding that completes them.\<close>

fun sextets :: "nat list \<Rightarrow> nat list" where
  "sextets [] = []"
| "sextets [x] = [x div 4, x mod 4 * 16]"
| "sextets [x, y] = [x div 4, x mod 4 * 16 + y div 16, y mod 16 * 4]"
| "sextets (x # y # z # r) =
     [x div 4, x mod 4 * 16 + y div 16, y mod 16 * 4 + z div 64, z mod 64] @ sextets r"

definition b64_pads :: "nat \<Rightarrow> nat" where
  "b64_pads n = (3 - n mod 3) mod 3"

lemma b64_pads_step: "b64_pads (Suc (Suc (Suc n))) = b64_pads n"
proof -
  have "Suc (Suc (Suc n)) mod 3 = n mod 3" by presburger
  then show ?thesis by (simp only: b64_pads_def)
qed

lemma b64_encode_sextets:
  "b64_encode bs = map b64_char (sextets (map of_char bs)) @ replicate (b64_pads (length bs)) (CHR ''='')"
  by (induction bs rule: b64_encode.induct)
    (simp_all add: Let_def b64_pads_step, simp_all add: b64_pads_def numeral_2_eq_2)

lemma sextet_bounds:
  fixes x y z :: nat
  assumes "x < 256" "y < 256" "z < 256"
  shows "x div 4 < 64" "x mod 4 * 16 < 64" "x mod 4 * 16 + y div 16 < 64"
    "y mod 16 * 4 < 64" "y mod 16 * 4 + z div 64 < 64"
proof -
  have "x mod 4 < 4" "y mod 16 < 16" "y div 16 < 16" "z div 64 < 4"
    using assms by (simp_all add: less_mult_imp_div_less)
  then show "x mod 4 * 16 < 64" "x mod 4 * 16 + y div 16 < 64"
    "y mod 16 * 4 < 64" "y mod 16 * 4 + z div 64 < 64" by linarith+
  show "x div 4 < 64" using assms by (simp add: less_mult_imp_div_less)
qed

lemma sextets_less: "list_all (\<lambda>x. x < 256) xs \<Longrightarrow> list_all (\<lambda>v. v < 64) (sextets xs)"
proof (induction xs rule: sextets.induct)
  case (2 x)
  then show ?case using sextet_bounds [of x 0 0] by simp
next
  case (3 x y)
  then show ?case using sextet_bounds [of x y 0] by simp
next
  case (4 x y z r)
  then show ?case using sextet_bounds [of x y z] by simp
qed simp

lemma sextets_Nil: "sextets xs = [] \<longleftrightarrow> xs = []"
  by (cases xs rule: sextets.cases) simp_all

lemma mod3_step: "Suc (Suc (Suc n)) mod 3 = n mod (3 :: nat)"
  by presburger

lemma length_sextets_mod:
  "length (sextets xs) mod 4 = 0 \<and> b64_pads (length xs) = 0
   \<or> length (sextets xs) mod 4 = 2 \<and> b64_pads (length xs) = 2
   \<or> length (sextets xs) mod 4 = 3 \<and> b64_pads (length xs) = 1"
proof (induction xs rule: sextets.induct)
  case (4 x y z r)
  have "length (sextets (x # y # z # r)) mod 4 = length (sextets r) mod 4" by simp
  moreover have "b64_pads (length (x # y # z # r)) = b64_pads (length r)" by (simp add: b64_pads_step)
  ultimately show ?case using 4 by (simp only:)
qed (simp_all add: b64_pads_def)

lemma join_div: "(q * m + r) div m = (q :: nat)" and join_mod: "(q * m + r) mod m = (r :: nat)" if "r < m"
  using that by simp_all

lemma sextet_join:
  fixes x y z :: nat
  assumes "x < 256" "y < 256" "z < 256"
  shows "x div 4 * 4 + (x mod 4 * 16) div 16 = x"
    "x div 4 * 4 + (x mod 4 * 16 + y div 16) div 16 = x"
    "(x mod 4 * 16 + y div 16) mod 16 * 16 + (y mod 16 * 4) div 4 = y"
    "(x mod 4 * 16 + y div 16) mod 16 * 16 + (y mod 16 * 4 + z div 64) div 4 = y"
    "(y mod 16 * 4 + z div 64) mod 4 * 64 + z mod 64 = z"
proof -
  have y: "y div 16 < 16" and z: "z div 64 < 4" using assms by (simp_all add: less_mult_imp_div_less)
  show "x div 4 * 4 + (x mod 4 * 16) div 16 = x" by simp
  show "x div 4 * 4 + (x mod 4 * 16 + y div 16) div 16 = x"
    unfolding join_div [OF y] by simp
  show "(x mod 4 * 16 + y div 16) mod 16 * 16 + (y mod 16 * 4) div 4 = y"
    unfolding join_mod [OF y] by simp
  show "(x mod 4 * 16 + y div 16) mod 16 * 16 + (y mod 16 * 4 + z div 64) div 4 = y"
    unfolding join_mod [OF y] join_div [OF z] by simp
  show "(y mod 16 * 4 + z div 64) mod 4 * 64 + z mod 64 = z"
    unfolding join_mod [OF z] by simp
qed

lemma b64_bytes_sextets: "b64_bytes (sextets (map of_char bs)) = bs"
proof (induction bs rule: b64_encode.induct)
  case (2 a)
  show ?case using sextet_join(1) [of "of_char a" 0 0] by simp
next
  case (3 a b)
  show ?case using sextet_join(2,3) [of "of_char a" "of_char b" 0] by simp
next
  case (4 a b c r)
  then show ?case using sextet_join(2,4,5) [of "of_char a" "of_char b" "of_char c"] by simp
qed simp

lemma b64_vals_chars: "list_all (\<lambda>v. v < 64) vs \<Longrightarrow> b64_vals (map b64_char vs) = Some vs"
  by (induction vs) (simp_all add: b64_char_facts)

lemma split_padding:
  assumes "\<forall>c \<in> set d. c \<noteq> e"
  shows "takeWhile (\<lambda>c. c \<noteq> e) (d @ replicate n e) = d" "dropWhile (\<lambda>c. c \<noteq> e) (d @ replicate n e) = replicate n e"
  using assms by (induction d) (simp_all add: takeWhile_eq_Nil_iff dropWhile_eq_self_iff)

lemma b64_roundtrip: "b64_decode (b64_encode bs) = Some bs"
proof -
  let ?d = "map b64_char (sextets (map of_char bs))" and ?p = "replicate (b64_pads (length bs)) (CHR ''='')"
  have less: "list_all (\<lambda>v. v < 64) (sextets (map of_char bs))"
    by (rule sextets_less) (simp add: list_all_iff)
  then have ne: "\<forall>c \<in> set ?d. c \<noteq> CHR ''=''" by (auto simp: list_all_iff b64_char_facts)
  have split: "takeWhile (\<lambda>c. c \<noteq> CHR ''='') (?d @ ?p) = ?d" "dropWhile (\<lambda>c. c \<noteq> CHR ''='') (?d @ ?p) = ?p"
    by (rule split_padding [OF ne])+
  have pads: "length ?d mod 4 = 0 \<or> length ?d mod 4 = 2 \<and> length ?p = 2 \<or> length ?d mod 4 = 3 \<and> length ?p = 1"
    using length_sextets_mod [of "map of_char bs :: nat list"] by simp blast
  have empty: "?d \<noteq> [] \<or> ?p = []" by (cases bs) (simp_all add: sextets_Nil b64_pads_def)
  have "list_all (\<lambda>c. c = CHR ''='') ?p" by (simp add: list_all_iff)
  with pads empty show ?thesis
    unfolding b64_encode_sextets b64_decode_def split Let_def
      b64_vals_chars [OF less] b64_bytes_sextets option.case by simp
qed

lemma b64_encode_ascii: "c \<in> set (b64_encode bs) \<Longrightarrow> (of_char c :: nat) < 128"
proof -
  have "list_all (\<lambda>v. v < 64) (sextets (map of_char bs))"
    by (rule sextets_less) (simp add: list_all_iff)
  then show "c \<in> set (b64_encode bs) \<Longrightarrow> (of_char c :: nat) < 128"
    by (auto simp: b64_encode_sextets list_all_iff b64_char_facts split: if_splits)
qed

lemma length_b64_encode: "length (b64_encode bs) = (length bs + 2) div 3 * 4"
proof (induction bs rule: b64_encode.induct)
  case (4 a b c r)
  have "(length (a # b # c # r) + 2) div 3 = Suc ((length r + 2) div 3)" by simp
  with 4 show ?case by (simp only: b64_encode.simps Let_def length_append list.size) simp
qed (simp_all add: Let_def)

section \<open>Conversions of decoded JSON\<close>

text \<open>\<open>repr(str)\<close> and \<open>str(value)\<close>\<close>

definition hex2 :: "nat \<Rightarrow> string" where
  "hex2 n = [''0123456789abcdef'' ! (n div 16 mod 16), ''0123456789abcdef'' ! (n mod 16)]"

definition repr_char :: "char \<Rightarrow> char \<Rightarrow> string" where
  "repr_char q c =
     (if c = q \<or> c = CHR 0x5C then [CHR 0x5C, c]
      else if c = CHR 0x09 then [CHR 0x5C, CHR ''t'']
      else if c = CHR 0x0A then [CHR 0x5C, CHR ''n'']
      else if c = CHR 0x0D then [CHR 0x5C, CHR ''r'']
      else if char_printable c then [c]
      else [CHR 0x5C, CHR ''x''] @ hex2 (of_char c))"

definition repr_str :: "string \<Rightarrow> string" where
  "repr_str s = (let q = (if CHR 0x27 \<in> set s \<and> CHR 0x22 \<notin> set s then CHR 0x22 else CHR 0x27)
     in [q] @ concat (map (repr_char q) s) @ [q])"

fun join :: "string \<Rightarrow> string list \<Rightarrow> string" where
  "join sep [] = []"
| "join sep [x] = x"
| "join sep (x # y # r) = x @ sep @ join sep (y # r)"

fun py_repr :: "json \<Rightarrow> string"
  and py_repr_elems :: "json list \<Rightarrow> string list"
  and py_repr_members :: "(string \<times> json) list \<Rightarrow> string list" where
  "py_repr JNull = ''None''"
| "py_repr (JBool b) = (if b then ''True'' else ''False'')"
| "py_repr (JInt i) = show_int i"
| "py_repr (JFloat f) = f"
| "py_repr (JStr s) = repr_str s"
| "py_repr (JArr xs) = ''['' @ join '', '' (py_repr_elems xs) @ '']''"
| "py_repr (JObj kvs) = ''{'' @ join '', '' (py_repr_members kvs) @ ''}''"
| "py_repr_elems [] = []"
| "py_repr_elems (x # xs) = py_repr x # py_repr_elems xs"
| "py_repr_members [] = []"
| "py_repr_members ((k, v) # kvs) = (repr_str k @ '': '' @ py_repr v) # py_repr_members kvs"

definition py_str :: "json \<Rightarrow> string" where
  "py_str j = (case j of JStr s \<Rightarrow> s | _ \<Rightarrow> py_repr j)"

lemma py_str_JStr [simp]: "py_str (JStr s) = s"
  by (simp add: py_str_def)

text \<open>
  \<open>int(text)\<close> in base ten: surrounding blanks, a sign, digits with single underscores between
  them, at most 4300 digits.
\<close>

definition int_space :: "char \<Rightarrow> bool" where
  "int_space c = ((of_char c :: nat) \<in> {9, 10, 11, 12, 13, 32, 133, 160})"

fun grouped :: "string \<Rightarrow> bool" where
  "grouped [] = False"
| "grouped [c] = is_digit c"
| "grouped (c # d # r) = (is_digit c \<and> (if d = CHR ''_'' then grouped r else grouped (d # r)))"

definition py_int :: "string \<Rightarrow> int option" where
  "py_int s =
     (let t = rev (dropWhile int_space (rev (dropWhile int_space s)));
          neg = (t \<noteq> [] \<and> hd t = CHR ''-'');
          u = (if t \<noteq> [] \<and> (hd t = CHR ''-'' \<or> hd t = CHR ''+'') then tl t else t);
          ds = filter is_digit u
      in if grouped u \<and> length ds \<le> 4300
         then map_option (\<lambda>n. (if neg then -1 else 1) * int n) (num_acc 0 ds) else None)"

text \<open>
  \<open>isinstance(raw, bool) or not isinstance(raw, (int, str))\<close> rejects, then \<open>int(raw)\<close>.
\<close>

definition version_of :: "json \<Rightarrow> int option" where
  "version_of j = (case j of JInt i \<Rightarrow> Some i | JStr s \<Rightarrow> py_int s | _ \<Rightarrow> None)"

text \<open>
  \<open>dict(item)\<close>. Only string keys can be looked up by the callers, so other keys are dropped;
  unhashable keys raise.
\<close>

definition pair_of :: "json \<Rightarrow> (json \<times> json) result" where
  "pair_of j = (case j of
     JArr xs \<Rightarrow> (case xs of [k, v] \<Rightarrow> Inr (k, v) | _ \<Rightarrow> Inl (ValueError ''dictionary update sequence''))
   | JStr s \<Rightarrow> (case s of [a, b] \<Rightarrow> Inr (JStr [a], JStr [b]) | _ \<Rightarrow> Inl (ValueError ''dictionary update sequence''))
   | JObj kvs \<Rightarrow> (case kvs of [(a, _), (b, _)] \<Rightarrow> Inr (JStr a, JStr b)
       | _ \<Rightarrow> Inl (ValueError ''dictionary update sequence''))
   | _ \<Rightarrow> Inl (TypeError ''cannot convert dictionary update sequence element''))"

definition dict_add :: "json \<Rightarrow> json \<Rightarrow> (string \<times> json) list \<Rightarrow> (string \<times> json) list result" where
  "dict_add k v d = (case k of
     JStr s \<Rightarrow> Inr (dict_put s v d)
   | JArr _ \<Rightarrow> Inl (TypeError ''unhashable type'')
   | JObj _ \<Rightarrow> Inl (TypeError ''unhashable type'')
   | _ \<Rightarrow> Inr d)"

fun dict_of_pairs :: "json list \<Rightarrow> (string \<times> json) list \<Rightarrow> (string \<times> json) list result" where
  "dict_of_pairs [] d = Inr d"
| "dict_of_pairs (x # xs) d =
     bindE (pair_of x) (\<lambda>(k, v). bindE (dict_add k v d) (dict_of_pairs xs))"

definition py_dict :: "json \<Rightarrow> (string \<times> json) list result" where
  "py_dict j = (case j of
     JObj kvs \<Rightarrow> Inr kvs
   | JArr xs \<Rightarrow> dict_of_pairs xs []
   | JStr s \<Rightarrow> dict_of_pairs (map (\<lambda>c. JStr [c]) s) []
   | _ \<Rightarrow> Inl (TypeError ''object is not iterable''))"

text \<open>\<open>payload[key]\<close> and \<open>payload.get(key, default)\<close>\<close>

definition item :: "string \<Rightarrow> (string \<times> json) list \<Rightarrow> json result" where
  "item k d = (case map_of d k of None \<Rightarrow> Inl (KeyError k) | Some v \<Rightarrow> Inr v)"

definition get_default :: "json \<Rightarrow> string \<Rightarrow> (string \<times> json) list \<Rightarrow> json" where
  "get_default v k d = (case map_of d k of None \<Rightarrow> v | Some w \<Rightarrow> w)"

lemma item_eq: "item k d = Inr v \<longleftrightarrow> map_of d k = Some v"
  by (auto simp: item_def split: option.splits)

section \<open>Canonical text and the order of keys\<close>

lemma canon_members_map: "canon_members kvs = map (\<lambda>(k, v). (k, canon v)) kvs"
  by (induction kvs) auto

lemma canon_elems_map: "canon_elems xs = map canon xs"
  by (induction xs) auto

lemma map_fst_canon [simp]: "map fst (canon_members kvs) = map fst kvs"
  by (simp add: canon_members_map case_prod_unfold comp_def)

lemma map_of_sort_key:
  assumes "distinct (map fst kvs)"
  shows "map_of (sort_key fst kvs) = map_of kvs"
proof -
  have "mset (map fst (sort_key fst kvs)) = mset (map fst kvs)" by simp
  then have "distinct (map fst (sort_key fst kvs))" using assms mset_eq_imp_distinct_iff by blast
  with assms show ?thesis by (simp add: map_of_inject_set)
qed

lemma map_of_canon:
  assumes "distinct (map fst kvs)"
  shows "map_of (sort_key fst (canon_members kvs)) k = map_option canon (map_of kvs k)"
proof -
  have "map_of (sort_key fst (canon_members kvs)) = map_of (canon_members kvs)"
    using assms by (intro map_of_sort_key) simp
  then show ?thesis by (simp add: canon_members_map map_of_map)
qed

lemma readable_elems_iff: "readable_elems xs \<longleftrightarrow> (\<forall>x \<in> set xs. readable x)"
  by (induction xs) auto

lemma readable_members_iff: "readable_members kvs \<longleftrightarrow> (\<forall>(k, v) \<in> set kvs. readable v)"
  by (induction kvs) auto

lemma readable_canon:
  "readable j \<Longrightarrow> readable (canon j)"
  "readable_elems xs \<Longrightarrow> readable_elems (canon_elems xs)"
  "readable_members kvs \<Longrightarrow> readable_members (canon_members kvs)"
proof (induction j and xs and kvs rule: canon_canon_elems_canon_members.induct)
  case (2 kvs)
  then have "distinct (map fst (sort_key fst (canon_members kvs)))"
    using mset_eq_imp_distinct_iff [of "map fst (sort_key fst (canon_members kvs))" "map fst kvs"]
    by (metis map_fst_canon mset_map mset_sort readable.simps(3))
  with 2 show ?case by (simp add: readable_members_iff)
qed simp_all

text \<open>\<open>json.dumps(...).encode("utf-8")\<close> and \<open>json.loads(raw.decode("utf-8"))\<close>\<close>

definition json_encode :: "json \<Rightarrow> bytes" where
  "json_encode j = utf8_encode (json_dumps j)"

definition json_decode :: "bool \<Rightarrow> bytes \<Rightarrow> json option" where
  "json_decode strict b = (case utf8_decode b of None \<Rightarrow> None | Some s \<Rightarrow> json_loads strict s)"

locale wire_codec =
  fixes encode :: "json \<Rightarrow> bytes" and decode :: "bytes \<Rightarrow> json option"
    and norm :: "json \<Rightarrow> json" and ok :: "json \<Rightarrow> bool"
  assumes decode_encode: "ok j \<Longrightarrow> decode (encode j) = Some (norm j)"
begin

lemma encode_inject: "ok j \<Longrightarrow> ok k \<Longrightarrow> encode j = encode k \<Longrightarrow> norm j = norm k"
  by (metis decode_encode option.inject)

end

interpretation jc: wire_codec json_encode "json_decode strict" canon readable for strict
  by unfold_locales
    (simp add: json_encode_def json_decode_def json_dumps_def utf8_roundtrip json_roundtrip readable_canon)

end
