(* ===== verification/Sha256.thy ===== *)
theory Sha256
  imports Prelude "HOL-Library.Word"
begin

unbundle bit_operations_syntax

text \<open>
  \<open>hashlib.sha256(data).hexdigest()\<close> on byte strings, following FIPS 180-4: padding,
  message schedule, 64 rounds per block on 32-bit words, and the lowercase hexadecimal
  rendering. The stores validate digests with \<open>lower_hex 64\<close>; \<open>sha256_hex_lower\<close> shows that
  every digest passes.
\<close>

type_synonym u32 = "32 word"

definition rotr :: "nat \<Rightarrow> u32 \<Rightarrow> u32" where
  "rotr n x = drop_bit n x OR push_bit (32 - n) x"

definition round_constants :: "u32 list" where
  "round_constants = [
     1116352408, 1899447441, 3049323471, 3921009573, 961987163, 1508970993,
     2453635748, 2870763221, 3624381080, 310598401, 607225278, 1426881987,
     1925078388, 2162078206, 2614888103, 3248222580, 3835390401, 4022224774,
     264347078, 604807628, 770255983, 1249150122, 1555081692, 1996064986,
     2554220882, 2821834349, 2952996808, 3210313671, 3336571891, 3584528711,
     113926993, 338241895, 666307205, 773529912, 1294757372, 1396182291,
     1695183700, 1986661051, 2177026350, 2456956037, 2730485921, 2820302411,
     3259730800, 3345764771, 3516065817, 3600352804, 4094571909, 275423344,
     430227734, 506948616, 659060556, 883997877, 958139571, 1322822218,
     1537002063, 1747873779, 1955562222, 2024104815, 2227730452, 2361852424,
     2428436474, 2756734187, 3204031479, 3329325298]"

definition initial_hash :: "u32 list" where
  "initial_hash = [1779033703, 3144134277, 1013904242, 2773480762, 1359893119, 2600822924,
     528734635, 1541459225]"

fun be_bytes :: "nat \<Rightarrow> nat \<Rightarrow> nat list" where
  "be_bytes 0 n = []"
| "be_bytes (Suc k) n = be_bytes k (n div 256) @ [n mod 256]"

definition padding :: "nat \<Rightarrow> nat list" where
  "padding len = 128 # replicate ((119 - len mod 64) mod 64) 0 @ be_bytes 8 (8 * len)"

fun words_of :: "nat list \<Rightarrow> u32 list" where
  "words_of (a # b # c # d # r) = of_nat (((a * 256 + b) * 256 + c) * 256 + d) # words_of r"
| "words_of _ = []"

text \<open>The schedule is kept newest word first.\<close>

fun schedule :: "nat \<Rightarrow> u32 list \<Rightarrow> u32 list" where
  "schedule 0 w = w"
| "schedule (Suc n) w =
     (let x = w ! 14; y = w ! 1;
          s0 = rotr 7 x XOR rotr 18 x XOR drop_bit 3 x;
          s1 = rotr 17 y XOR rotr 19 y XOR drop_bit 10 y
      in schedule n ((w ! 15 + s0 + w ! 6 + s1) # w))"

fun sha_round :: "u32 list \<Rightarrow> u32 \<times> u32 \<Rightarrow> u32 list" where
  "sha_round [a, b, c, d, e, f, g, h] (k, w) =
     (let t1 = h + (rotr 6 e XOR rotr 11 e XOR rotr 25 e) + ((e AND f) XOR (NOT e AND g)) + k + w;
          t2 = (rotr 2 a XOR rotr 13 a XOR rotr 22 a) + ((a AND b) XOR (a AND c) XOR (b AND c))
      in [t1 + t2, a, b, c, d + t1, e, f, g])"
| "sha_round hs _ = hs"

definition compress :: "u32 list \<Rightarrow> u32 list \<Rightarrow> u32 list" where
  "compress hs block =
     map2 (+) hs (foldl sha_round hs (zip round_constants (rev (schedule 48 (rev block)))))"

function blocks :: "u32 list \<Rightarrow> u32 list \<Rightarrow> u32 list" where
  "blocks hs ws = (if ws = [] then hs else blocks (compress hs (take 16 ws)) (drop 16 ws))"
  by pat_completeness auto
termination
  by (relation "measure (\<lambda>(hs, ws). length ws)") auto

declare blocks.simps [simp del]

definition hex_char :: "nat \<Rightarrow> char" where
  "hex_char n = ''0123456789abcdef'' ! (n mod 16)"

definition hex_word :: "u32 \<Rightarrow> string" where
  "hex_word w = map (\<lambda>i. hex_char (unat w div 16 ^ i)) [7, 6, 5, 4, 3, 2, 1, 0]"

definition sha256_hex :: "bytes \<Rightarrow> string" where
  "sha256_hex m =
     (let data = map of_char m @ padding (length m)
      in concat (map hex_word (blocks initial_hash (words_of data))))"

section \<open>Every digest is 64 lowercase hexadecimal characters\<close>

lemma hex_char_digit: "hex_digit (hex_char n)"
proof -
  have "n mod 16 < length ''0123456789abcdef''" by simp
  then show ?thesis unfolding hex_digit_def hex_char_def by (rule nth_mem)
qed

lemma length_sha_round: "length hs = 8 \<Longrightarrow> length (sha_round hs kw) = 8"
  by (cases "(hs, kw)" rule: sha_round.cases) (auto simp: Let_def)

lemma length_foldl_round: "length hs = 8 \<Longrightarrow> length (foldl sha_round hs kws) = 8"
  by (induction kws arbitrary: hs) (auto simp: length_sha_round)

lemma length_compress: "length hs = 8 \<Longrightarrow> length (compress hs b) = 8"
  by (simp add: compress_def length_foldl_round)

lemma length_blocks: "length hs = 8 \<Longrightarrow> length (blocks hs ws) = 8"
proof (induction hs ws rule: blocks.induct)
  case (1 hs ws)
  then show ?case unfolding blocks.simps [of hs ws] by (simp add: length_compress)
qed

lemma sha256_hex_lower: "lower_hex 64 (sha256_hex m)"
proof -
  let ?d = "blocks initial_hash (words_of (map of_char m @ padding (length m)))"
  have "length ?d = 8" by (rule length_blocks) (simp add: initial_hash_def)
  moreover have "length (concat (map hex_word ws)) = 8 * length ws" for ws
    by (induction ws) (auto simp: hex_word_def)
  moreover have "list_all hex_digit (concat (map hex_word ws))" for ws
    by (induction ws) (auto simp: hex_word_def hex_char_digit)
  ultimately show ?thesis by (simp add: lower_hex_def sha256_hex_def Let_def)
qed

end
