(* ===== verification/Transport.thy ===== *)
theory Transport
  imports Wire Sha256
begin

text \<open>
  The blind transport record (\<open>crypto.py\<close>, \<open>agents.py\<close>): the authenticated transfer context, the
  opaque envelope, source authentication, and the record that carries them, with the checks their
  constructors make and their wire form. A constructed object is a record value; a constructor is a
  function that returns it or the exception. Datetimes inside a context are UTC microseconds, as
  the constructor normalises them. The memo fields of a record cache pure functions and have no
  counterpart.

  The theorems show that a constructor accepts exactly the well-formed values, that every
  transportable record is read back from its canonical bytes, and that the authenticated bytes
  determine what they authenticate.
\<close>

section \<open>Transfer contexts\<close>

record transfer_context =
  ctx_tenant :: string
  ctx_source_connector :: string
  ctx_destination_connector :: string
  ctx_field_id :: string
  ctx_schema_version :: string
  ctx_record_id :: string
  ctx_transfer_id :: string
  ctx_plan_id :: string
  ctx_plan_digest :: string
  ctx_protocol_version :: int
  ctx_recipient_key_id :: string
  ctx_issued_at :: "int option"
  ctx_expires_at :: "int option"

definition utc :: "py_datetime \<Rightarrow> int result" where
  "utc v = (case v of
     Naive _ \<Rightarrow> Inl (ProtocolError ''authenticated timestamps must include a timezone'')
   | Aware t off \<Rightarrow> astimezone_utc t off)"

definition utc_opt :: "py_datetime option \<Rightarrow> int option result" where
  "utc_opt v = (case v of None \<Rightarrow> Inr None | Some d \<Rightarrow> bindE (utc d) (\<lambda>t. Inr (Some t)))"

definition interval_inverted :: "int option \<Rightarrow> int option \<Rightarrow> bool" where
  "interval_inverted i e = (case (i, e) of (Some t, Some u) \<Rightarrow> u < t | _ \<Rightarrow> False)"

text \<open>\<open>TransferContext(...)\<close>: the two datetimes are given apart, as the caller passes them.\<close>

definition TransferContext :: "transfer_context \<Rightarrow> py_datetime option \<Rightarrow> py_datetime option \<Rightarrow> transfer_context result" where
  "TransferContext c issued expires =
     raise_if (ctx_protocol_version c = 2 \<and> ctx_recipient_key_id c \<noteq> [])
       (ProtocolError ''v2 transfer contexts may not carry a recipient key id'') (
     raise_if (ctx_recipient_key_id c \<noteq> [] \<and> \<not> lower_hex 64 (ctx_recipient_key_id c))
       (ProtocolError ''recipient key id must be a lowercase SHA-256 digest'') (
     bindE (utc_opt issued) (\<lambda>i.
     bindE (utc_opt expires) (\<lambda>e.
     raise_if (interval_inverted i e)
       (ProtocolError ''authenticated transfer validity interval is inverted'') (
     Inr (c\<lparr>ctx_issued_at := i, ctx_expires_at := e\<rparr>))))))"

definition aad_payload :: "transfer_context \<Rightarrow> (string \<times> json) list" where
  "aad_payload c =
     [(''destination_connector'', JStr (ctx_destination_connector c)),
      (''field_id'', JStr (ctx_field_id c)),
      (''plan_digest'', JStr (ctx_plan_digest c)),
      (''plan_id'', JStr (ctx_plan_id c)),
      (''protocol_version'', JInt (ctx_protocol_version c)),
      (''record_id'', JStr (ctx_record_id c)),
      (''schema_version'', JStr (ctx_schema_version c)),
      (''source_connector'', JStr (ctx_source_connector c)),
      (''tenant'', JStr (ctx_tenant c)),
      (''transfer_id'', JStr (ctx_transfer_id c))]
     @ (if ctx_recipient_key_id c \<noteq> [] then [(''recipient_key_id'', JStr (ctx_recipient_key_id c))] else [])
     @ (case ctx_issued_at c of None \<Rightarrow> [] | Some t \<Rightarrow> [(''issued_at'', JStr (isoformat t))])
     @ (case ctx_expires_at c of None \<Rightarrow> [] | Some t \<Rightarrow> [(''expires_at'', JStr (isoformat t))])"

definition aad :: "transfer_context \<Rightarrow> bytes" where
  "aad c = json_encode (JObj (aad_payload c))"

text \<open>\<open>now\<close> is the caller's reading, or the system clock's.\<close>

definition validate_time :: "transfer_context \<Rightarrow> py_datetime \<Rightarrow> unit result" where
  "validate_time c now = (case ctx_expires_at c of
     None \<Rightarrow> Inr ()
   | Some e \<Rightarrow> bindE (utc now) (\<lambda>current.
       raise_if (e < current) (TransferExpired ''authenticated transfer has expired'') (Inr ())))"

definition bounded_printable :: "nat \<Rightarrow> string \<Rightarrow> bool" where
  "bounded_printable maximum s = (strip s \<noteq> [] \<and> length s \<le> maximum \<and> isprintable s)"

definition validate_new_metadata :: "transfer_context \<Rightarrow> unit result" where
  "validate_new_metadata c =
     bindE (mapE (\<lambda>(label, val, maximum).
         raise_if (\<not> bounded_printable maximum val)
           (ProtocolError (''new transfer '' @ label @ '' must be bounded printable metadata'')) (Inr ()))
       [(''tenant'', ctx_tenant c, 128),
        (''source connector'', ctx_source_connector c, 128),
        (''destination connector'', ctx_destination_connector c, 128),
        (''field id'', ctx_field_id c, 256),
        (''schema version'', ctx_schema_version c, 128),
        (''record id'', ctx_record_id c, 256),
        (''transfer id'', ctx_transfer_id c, 256)]) (\<lambda>_.
     raise_if (ctx_plan_id c \<noteq> [] \<and> (256 < length (ctx_plan_id c) \<or> \<not> isprintable (ctx_plan_id c)))
       (ProtocolError ''new transfer plan id must be bounded printable metadata'') (
     raise_if (ctx_plan_digest c \<noteq> [] \<and> \<not> lower_hex 64 (ctx_plan_digest c))
       (ProtocolError ''new transfer plan digest must be a lowercase SHA-256 digest'') (
     Inr ())))"

definition parse_time :: "(string \<times> json) list \<Rightarrow> string \<Rightarrow> int option result" where
  "parse_time payload name = (case map_of payload name of
     None \<Rightarrow> Inr None
   | Some raw \<Rightarrow>
     if raw = JNull \<or> raw = JStr [] then Inr None
     else (case fromisoformat (py_str raw) of
       None \<Rightarrow> Inl (ProtocolError (''authenticated '' @ name @ '' timestamp is invalid''))
     | Some d \<Rightarrow> (case utc d of
         Inl (OverflowError _) \<Rightarrow> Inl (ProtocolError (''authenticated '' @ name @ '' timestamp is invalid''))
       | Inl e \<Rightarrow> Inl e
       | Inr t \<Rightarrow> Inr (Some t))))"

definition str_item :: "string \<Rightarrow> (string \<times> json) list \<Rightarrow> string result" where
  "str_item k d = bindE (item k d) (\<lambda>v. Inr (py_str v))"

definition as_aware :: "int option \<Rightarrow> py_datetime option" where
  "as_aware t = map_option (\<lambda>t. Aware t 0) t"

definition TransferContext_from_wire :: "(string \<times> json) list \<Rightarrow> transfer_context result" where
  "TransferContext_from_wire payload =
     (case version_of (get_default (JInt 0) ''protocol_version'' payload) of
        None \<Rightarrow> Inl (ProtocolError ''authenticated protocol version is invalid'')
      | Some version \<Rightarrow>
        bindE (str_item ''tenant'' payload) (\<lambda>tenant.
        bindE (str_item ''source_connector'' payload) (\<lambda>source.
        bindE (str_item ''destination_connector'' payload) (\<lambda>destination.
        bindE (str_item ''field_id'' payload) (\<lambda>fld.
        bindE (str_item ''schema_version'' payload) (\<lambda>schema.
        bindE (str_item ''record_id'' payload) (\<lambda>record_id.
        bindE (str_item ''transfer_id'' payload) (\<lambda>transfer.
        bindE (parse_time payload ''issued_at'') (\<lambda>issued.
        bindE (parse_time payload ''expires_at'') (\<lambda>expires.
        TransferContext \<lparr>ctx_tenant = tenant, ctx_source_connector = source,
            ctx_destination_connector = destination, ctx_field_id = fld, ctx_schema_version = schema,
            ctx_record_id = record_id, ctx_transfer_id = transfer,
            ctx_plan_id = py_str (get_default (JStr []) ''plan_id'' payload),
            ctx_plan_digest = py_str (get_default (JStr []) ''plan_digest'' payload),
            ctx_protocol_version = version,
            ctx_recipient_key_id = py_str (get_default (JStr []) ''recipient_key_id'' payload),
            ctx_issued_at = None, ctx_expires_at = None\<rparr> (as_aware issued) (as_aware expires)))))))))))"

section \<open>Envelopes and source authentication\<close>

record opaque_envelope =
  env_epk :: bytes
  env_nonce :: bytes
  env_ciphertext :: bytes

definition OpaqueEnvelope :: "bytes \<Rightarrow> bytes \<Rightarrow> bytes \<Rightarrow> opaque_envelope result" where
  "OpaqueEnvelope epk nonce ct =
     raise_if (length epk \<noteq> 32) (ProtocolError ''ephemeral X25519 public key must be 32 bytes'') (
     raise_if (length nonce \<noteq> 12) (ProtocolError ''ChaCha20-Poly1305 nonce must be 12 bytes'') (
     raise_if (length ct < 16) (ProtocolError ''ciphertext is shorter than the authentication tag'') (
     Inr \<lparr>env_epk = epk, env_nonce = nonce, env_ciphertext = ct\<rparr>)))"

definition OpaqueEnvelope_to_wire :: "opaque_envelope \<Rightarrow> (string \<times> json) list" where
  "OpaqueEnvelope_to_wire e =
     [(''epk'', JStr (b64_encode (env_epk e))),
      (''nonce'', JStr (b64_encode (env_nonce e))),
      (''ciphertext'', JStr (b64_encode (env_ciphertext e)))]"

definition ascii :: "string \<Rightarrow> bool" where
  "ascii s = list_all (\<lambda>c. (of_char c :: nat) < 128) s"

definition b64_decode_field :: "string \<Rightarrow> string \<Rightarrow> int \<Rightarrow> bytes result" where
  "b64_decode_field val fld max_bytes =
     raise_if ((max_bytes + 2) div 3 * 4 + 8 < int (length val))
       (ProtocolError (fld @ '' exceeds protocol size limit'')) (
     case (if ascii val then b64_decode val else None) of
       None \<Rightarrow> Inl (ProtocolError (fld @ '' is not valid base64url''))
     | Some decoded \<Rightarrow>
         raise_if (max_bytes < int (length decoded))
           (ProtocolError (fld @ '' exceeds protocol size limit'')) (Inr decoded))"

definition OpaqueEnvelope_from_wire :: "(string \<times> json) list \<Rightarrow> int \<Rightarrow> opaque_envelope result" where
  "OpaqueEnvelope_from_wire payload max_ciphertext_bytes =
     bindE (str_item ''epk'' payload) (\<lambda>epk.
     bindE (b64_decode_field epk ''epk'' 32) (\<lambda>epk.
     bindE (str_item ''nonce'' payload) (\<lambda>nonce.
     bindE (b64_decode_field nonce ''nonce'' 12) (\<lambda>nonce.
     bindE (str_item ''ciphertext'' payload) (\<lambda>ct.
     bindE (b64_decode_field ct ''ciphertext'' max_ciphertext_bytes) (\<lambda>ct.
     OpaqueEnvelope epk nonce ct))))))"

record record_authentication =
  auth_key_id :: string
  auth_signature :: bytes
  auth_algorithm :: string

definition RecordAuthentication :: "string \<Rightarrow> bytes \<Rightarrow> string \<Rightarrow> record_authentication result" where
  "RecordAuthentication key_id signature algorithm =
     raise_if (algorithm \<noteq> ''ed25519'') (ProtocolError ''unsupported source signature algorithm'') (
     raise_if (\<not> lower_hex 64 key_id)
       (ProtocolError ''source signing key id must be a lowercase SHA-256 digest'') (
     raise_if (length signature \<noteq> 64) (ProtocolError ''Ed25519 source signature must be 64 bytes'') (
     Inr \<lparr>auth_key_id = key_id, auth_signature = signature, auth_algorithm = algorithm\<rparr>)))"

definition RecordAuthentication_to_wire :: "record_authentication \<Rightarrow> (string \<times> json) list" where
  "RecordAuthentication_to_wire a =
     [(''algorithm'', JStr (auth_algorithm a)),
      (''key_id'', JStr (auth_key_id a)),
      (''signature'', JStr (b64_encode (auth_signature a)))]"

definition RecordAuthentication_from_wire :: "(string \<times> json) list \<Rightarrow> record_authentication result" where
  "RecordAuthentication_from_wire payload =
     (let bad = ProtocolError ''source signature is not valid base64url'' in
      case map_of payload ''signature'' of None \<Rightarrow> Inl bad
      | Some raw \<Rightarrow>
        (case (if ascii (py_str raw) then b64_decode (py_str raw) else None) of None \<Rightarrow> Inl bad
         | Some signature \<Rightarrow>
           (case map_of payload ''key_id'' of None \<Rightarrow> Inl bad
            | Some key_id \<Rightarrow>
                RecordAuthentication (py_str key_id) signature
                  (py_str (get_default (JStr []) ''algorithm'' payload)))))"

section \<open>Sealed fields and transport records\<close>

record sealed_field =
  sf_target_field_id :: string
  sf_context :: transfer_context
  sf_envelope :: opaque_envelope

record protocol_limits =
  max_fields_per_record :: int
  max_ciphertext_bytes_per_field :: int
  max_record_wire_bytes :: int

definition ProtocolLimits :: protocol_limits where
  "ProtocolLimits = \<lparr>max_fields_per_record = 4096, max_ciphertext_bytes_per_field = 16 * 1024 * 1024,
     max_record_wire_bytes = 64 * 1024 * 1024\<rparr>"

definition SealedField_to_wire :: "sealed_field \<Rightarrow> json" where
  "SealedField_to_wire f = JObj
     [(''target_field_id'', JStr (sf_target_field_id f)),
      (''context'', JObj (aad_payload (sf_context f))),
      (''envelope'', JObj (OpaqueEnvelope_to_wire (sf_envelope f)))]"

definition is_text :: "json \<Rightarrow> bool" where
  "is_text j = (case j of JStr _ \<Rightarrow> True | _ \<Rightarrow> False)"

definition SealedField_from_wire :: "protocol_limits \<Rightarrow> (string \<times> json) list \<Rightarrow> sealed_field result" where
  "SealedField_from_wire limits payload =
     (case map_of payload ''context'' of
        Some (JObj raw_context) \<Rightarrow>
          (case map_of payload ''envelope'' of
             Some (JObj raw_envelope) \<Rightarrow>
               raise_if (\<not> list_all (\<lambda>kv. is_text (snd kv)) raw_envelope)
                 (ProtocolError ''sealed field envelope must contain string fields'') (
               bindE (TransferContext_from_wire raw_context) (\<lambda>context.
               bindE (OpaqueEnvelope_from_wire raw_envelope (max_ciphertext_bytes_per_field limits)) (\<lambda>envelope.
               bindE (str_item ''target_field_id'' payload) (\<lambda>target.
               Inr \<lparr>sf_target_field_id = target, sf_context = context, sf_envelope = envelope\<rparr>))))
           | _ \<Rightarrow> Inl (ProtocolError ''sealed field envelope must contain string fields''))
      | _ \<Rightarrow> Inl (ProtocolError ''sealed field context must be an object with string keys''))"

record transport_record =
  btr_record_id :: string
  btr_fields :: "sealed_field list"
  btr_authentication :: "record_authentication option"
  btr_allow_blank :: bool

definition first_context :: "transport_record \<Rightarrow> transfer_context" where
  "first_context r = sf_context (hd (btr_fields r))"

definition transfer_id :: "transport_record \<Rightarrow> string" where
  "transfer_id r = ctx_transfer_id (first_context r)"

definition tenant :: "transport_record \<Rightarrow> string" where
  "tenant r = ctx_tenant (first_context r)"

definition source_connector :: "transport_record \<Rightarrow> string" where
  "source_connector r = ctx_source_connector (first_context r)"

definition destination_connector :: "transport_record \<Rightarrow> string" where
  "destination_connector r = ctx_destination_connector (first_context r)"

definition plan_id :: "transport_record \<Rightarrow> string" where
  "plan_id r = ctx_plan_id (first_context r)"

definition plan_digest :: "transport_record \<Rightarrow> string" where
  "plan_digest r = ctx_plan_digest (first_context r)"

definition protocol_version :: "transport_record \<Rightarrow> int" where
  "protocol_version r = ctx_protocol_version (first_context r)"

text \<open>The attributes every field's context shares with the first, in the order they are compared.\<close>

definition mixed_attributes :: "transfer_context \<Rightarrow> transfer_context \<Rightarrow> string option" where
  "mixed_attributes first c = map_option fst (find snd
     [(''tenant'', ctx_tenant c \<noteq> ctx_tenant first),
      (''source_connector'', ctx_source_connector c \<noteq> ctx_source_connector first),
      (''destination_connector'', ctx_destination_connector c \<noteq> ctx_destination_connector first),
      (''transfer_id'', ctx_transfer_id c \<noteq> ctx_transfer_id first),
      (''plan_id'', ctx_plan_id c \<noteq> ctx_plan_id first),
      (''plan_digest'', ctx_plan_digest c \<noteq> ctx_plan_digest first),
      (''schema_version'', ctx_schema_version c \<noteq> ctx_schema_version first),
      (''protocol_version'', ctx_protocol_version c \<noteq> ctx_protocol_version first),
      (''recipient_key_id'', ctx_recipient_key_id c \<noteq> ctx_recipient_key_id first),
      (''issued_at'', ctx_issued_at c \<noteq> ctx_issued_at first),
      (''expires_at'', ctx_expires_at c \<noteq> ctx_expires_at first)])"

fun check_fields :: "transfer_context \<Rightarrow> string \<Rightarrow> string list \<Rightarrow> sealed_field list \<Rightarrow> unit result" where
  "check_fields first record_id seen [] = Inr ()"
| "check_fields first record_id seen (f # fs) =
     raise_if (sf_target_field_id f \<in> set seen)
       (ProtocolError ''blind transport record contains a duplicate target field'') (
     raise_if (sf_target_field_id f \<noteq> ctx_field_id (sf_context f))
       (ProtocolError ''sealed field id does not match authenticated field id'') (
     raise_if (ctx_record_id (sf_context f) \<noteq> record_id)
       (ProtocolError ''record id does not match authenticated context'') (
     case mixed_attributes first (sf_context f) of
       Some name \<Rightarrow> Inl (ProtocolError (''mixed '' @ name @ '' values in one blind transport record''))
     | None \<Rightarrow> check_fields first record_id (sf_target_field_id f # seen) fs)))"

definition BlindTransportRecord ::
    "string \<Rightarrow> sealed_field list \<Rightarrow> record_authentication option \<Rightarrow> bool \<Rightarrow> transport_record result" where
  "BlindTransportRecord record_id fs authentication allow_blank =
     raise_if (fs = []) (ProtocolError ''blind transport record must contain at least one field'') (
     let first = sf_context (hd fs); version = ctx_protocol_version first in
     raise_if (version \<notin> {2, 3}) (ProtocolError ''unsupported transport record version'') (
     bindE (check_fields first record_id [] fs) (\<lambda>_.
     raise_if (version = 2 \<and> authentication \<noteq> None)
       (ProtocolError ''legacy transport records may not carry v3 source authentication'') (
     raise_if (version = 2 \<and> ctx_recipient_key_id first \<noteq> [])
       (ProtocolError ''legacy v2 transport records may not carry a recipient key id'') (
     raise_if (version = 2 \<and> allow_blank)
       (ProtocolError ''legacy recipient-key-id policy applies only to v3 records'') (
     raise_if (version = 3 \<and> ctx_recipient_key_id first = [] \<and> \<not> allow_blank)
       (ProtocolError ''v3 transport record has no authenticated recipient key id'') (
     Inr \<lparr>btr_record_id = record_id, btr_fields = fs, btr_authentication = authentication,
          btr_allow_blank = allow_blank\<rparr>)))))))"

definition content_wire :: "transport_record \<Rightarrow> (string \<times> json) list" where
  "content_wire r =
     [(''protocol'', JStr ''opaque-record''),
      (''version'', JInt (protocol_version r)),
      (''record_id'', JStr (btr_record_id r)),
      (''fields'', JArr (map SealedField_to_wire (btr_fields r)))]"

definition source_authentication_bytes :: "transport_record \<Rightarrow> string \<Rightarrow> string \<Rightarrow> bytes result" where
  "source_authentication_bytes r key_id algorithm =
     raise_if (protocol_version r \<noteq> 3)
       (ProtocolError ''source authentication is supported only for record protocol v3'') (
     Inr (''angusu.bridge/opaque-record/source-auth/v3'' @ [char_of (0 :: nat)]
       @ json_encode (JObj (content_wire r
           @ [(''authentication'', JObj [(''algorithm'', JStr algorithm), (''key_id'', JStr key_id)])]))))"

text \<open>
  \<open>signer.public_bytes()\<close> and \<open>signer.sign\<close> are the Ed25519 library's; the key id is the SHA-256
  digest of the public key.
\<close>

definition signing_key_id :: "bytes \<Rightarrow> string result" where
  "signing_key_id public_key =
     raise_if (length public_key \<noteq> 32) (ProtocolError ''Ed25519 public key must be 32 bytes'') (
     Inr (sha256_hex public_key))"

definition signed :: "bytes \<Rightarrow> (bytes \<Rightarrow> bytes) \<Rightarrow> transport_record \<Rightarrow> transport_record result" where
  "signed public_key sign r =
     raise_if (protocol_version r \<noteq> 3) (ProtocolError ''legacy transport records cannot be source-signed'') (
     raise_if (btr_authentication r \<noteq> None) (ProtocolError ''transport record is already source-signed'') (
     bindE (mapE (\<lambda>f. validate_new_metadata (sf_context f)) (btr_fields r)) (\<lambda>_.
     bindE (signing_key_id public_key) (\<lambda>key_id.
     bindE (source_authentication_bytes r key_id ''ed25519'') (\<lambda>text.
     bindE (RecordAuthentication key_id (sign text) ''ed25519'') (\<lambda>authentication.
     BlindTransportRecord (btr_record_id r) (btr_fields r) (Some authentication) (btr_allow_blank r)))))))"

definition to_wire :: "transport_record \<Rightarrow> (string \<times> json) list" where
  "to_wire r = content_wire r @ (case btr_authentication r of None \<Rightarrow> []
     | Some a \<Rightarrow> [(''authentication'', JObj (RecordAuthentication_to_wire a))])"

definition canonical_wire_bytes :: "transport_record \<Rightarrow> bytes" where
  "canonical_wire_bytes r = json_encode (JObj (to_wire r))"

definition digest :: "transport_record \<Rightarrow> string" where
  "digest r = sha256_hex (json_encode (JObj (content_wire r)))"

definition authentication_from_wire :: "int \<Rightarrow> (string \<times> json) list \<Rightarrow> record_authentication option result" where
  "authentication_from_wire version payload =
     (if version = 3
      then (case map_of payload ''authentication'' of
          Some (JObj a) \<Rightarrow> bindE (RecordAuthentication_from_wire a) (\<lambda>x. Inr (Some x))
        | _ \<Rightarrow> Inl (ProtocolError ''v3 transport record has no source authentication''))
      else raise_if (get_default JNull ''authentication'' payload \<noteq> JNull)
        (ProtocolError ''legacy transport record contains unexpected authentication'') (Inr None))"

definition from_wire :: "protocol_limits \<Rightarrow> bool \<Rightarrow> bool \<Rightarrow> (string \<times> json) list \<Rightarrow> transport_record result" where
  "from_wire limits allow_unsigned allow_blank payload =
     raise_if (map_of payload ''protocol'' \<noteq> Some (JStr ''opaque-record''))
       (ProtocolError ''unsupported transport record protocol'') (
     case version_of (get_default (JInt 0) ''version'' payload) of
       None \<Rightarrow> Inl (ProtocolError ''transport record version is invalid'')
     | Some version \<Rightarrow>
       raise_if (version \<notin> {2, 3}) (ProtocolError ''unsupported transport record version'') (
       raise_if (version = 2 \<and> \<not> allow_unsigned)
         (ProtocolError ''unsigned v2 transport records require explicit legacy policy'') (
       case map_of payload ''fields'' of
         Some (JArr raw_fields) \<Rightarrow>
           raise_if (raw_fields = []) (ProtocolError ''transport record fields must be a non-empty list'') (
           raise_if (max_fields_per_record limits < int (length raw_fields))
             (ProtocolError ''transport record exceeds field count limit'') (
           raise_if (max_record_wire_bytes limits < int (length (utf8_encode (render (JObj payload)))))
             (ProtocolError ''transport record exceeds wire size limit'') (
           bindE (mapE (\<lambda>x. bindE (py_dict x) (SealedField_from_wire limits)) raw_fields) (\<lambda>fs.
           bindE (authentication_from_wire version payload) (\<lambda>authentication.
           bindE (str_item ''record_id'' payload) (\<lambda>record_id.
           bindE (BlindTransportRecord record_id fs authentication
               (version = 3 \<and> ctx_recipient_key_id (sf_context (hd fs)) = [] \<and> allow_blank)) (\<lambda>r.
           raise_if (protocol_version r \<noteq> version)
             (ProtocolError ''outer record version does not match authenticated field context'') (
           Inr r))))))))
       | _ \<Rightarrow> Inl (ProtocolError ''transport record fields must be a non-empty list''))))"

section \<open>Well-formed values\<close>

definition context_wf :: "transfer_context \<Rightarrow> bool" where
  "context_wf c =
     ((ctx_protocol_version c = 2 \<longrightarrow> ctx_recipient_key_id c = [])
      \<and> (ctx_recipient_key_id c \<noteq> [] \<longrightarrow> lower_hex 64 (ctx_recipient_key_id c))
      \<and> pred_option time_valid (ctx_issued_at c) \<and> pred_option time_valid (ctx_expires_at c)
      \<and> \<not> interval_inverted (ctx_issued_at c) (ctx_expires_at c))"

definition envelope_wf :: "opaque_envelope \<Rightarrow> bool" where
  "envelope_wf e = (length (env_epk e) = 32 \<and> length (env_nonce e) = 12 \<and> 16 \<le> length (env_ciphertext e))"

definition authentication_wf :: "record_authentication \<Rightarrow> bool" where
  "authentication_wf a =
     (auth_algorithm a = ''ed25519'' \<and> lower_hex 64 (auth_key_id a) \<and> length (auth_signature a) = 64)"

definition field_wf :: "sealed_field \<Rightarrow> bool" where
  "field_wf f = (context_wf (sf_context f) \<and> envelope_wf (sf_envelope f))"

text \<open>All contexts of a record agree, field by field, apart from the field id.\<close>

definition agrees :: "transfer_context \<Rightarrow> transfer_context \<Rightarrow> bool" where
  "agrees first c = (c\<lparr>ctx_field_id := [], ctx_record_id := []\<rparr> = first\<lparr>ctx_field_id := [], ctx_record_id := []\<rparr>)"

definition record_wf :: "transport_record \<Rightarrow> bool" where
  "record_wf r =
     (btr_fields r \<noteq> [] \<and> protocol_version r \<in> {2, 3}
      \<and> distinct (map sf_target_field_id (btr_fields r))
      \<and> list_all (\<lambda>f. sf_target_field_id f = ctx_field_id (sf_context f)
          \<and> ctx_record_id (sf_context f) = btr_record_id r
          \<and> agrees (first_context r) (sf_context f)) (btr_fields r)
      \<and> (protocol_version r = 2 \<longrightarrow>
          btr_authentication r = None \<and> ctx_recipient_key_id (first_context r) = [] \<and> \<not> btr_allow_blank r)
      \<and> (protocol_version r = 3 \<longrightarrow> ctx_recipient_key_id (first_context r) \<noteq> [] \<or> btr_allow_blank r))"

text \<open>What holds of every record object: its own checks and those of its parts.\<close>

definition object_wf :: "transport_record \<Rightarrow> bool" where
  "object_wf r = (record_wf r \<and> list_all field_wf (btr_fields r) \<and> pred_option authentication_wf (btr_authentication r))"

lemma utc_Inr: "utc v = Inr t \<Longrightarrow> time_valid t"
  by (auto simp: utc_def astimezone_utc_def split: py_datetime.splits if_splits)

lemma utc_aware [simp]: "time_valid t \<Longrightarrow> utc (Aware t 0) = Inr t"
  by (simp add: utc_def astimezone_utc_def)

lemma utc_opt_Inr: "utc_opt v = Inr t \<Longrightarrow> pred_option time_valid t"
  by (auto simp: utc_opt_def split: option.splits dest: utc_Inr)

lemma utc_opt_aware [simp]: "pred_option time_valid t \<Longrightarrow> utc_opt (as_aware t) = Inr t"
  by (cases t) (simp_all add: utc_opt_def as_aware_def)

lemma TransferContext_wf: "TransferContext c i e = Inr c' \<Longrightarrow> context_wf c'"
  by (auto simp: TransferContext_def context_wf_def dest: utc_opt_Inr)

lemma TransferContext_id:
  "context_wf c \<Longrightarrow> TransferContext \<lparr>ctx_tenant = ctx_tenant c, ctx_source_connector = ctx_source_connector c,
       ctx_destination_connector = ctx_destination_connector c, ctx_field_id = ctx_field_id c,
       ctx_schema_version = ctx_schema_version c, ctx_record_id = ctx_record_id c,
       ctx_transfer_id = ctx_transfer_id c, ctx_plan_id = ctx_plan_id c, ctx_plan_digest = ctx_plan_digest c,
       ctx_protocol_version = ctx_protocol_version c, ctx_recipient_key_id = ctx_recipient_key_id c,
       ctx_issued_at = None, ctx_expires_at = None\<rparr>
     (as_aware (ctx_issued_at c)) (as_aware (ctx_expires_at c)) = Inr c"
  by (auto simp: TransferContext_def context_wf_def)

lemma OpaqueEnvelope_Inr:
  "OpaqueEnvelope k n ct = Inr e \<longleftrightarrow> e = \<lparr>env_epk = k, env_nonce = n, env_ciphertext = ct\<rparr> \<and> envelope_wf e"
  by (auto simp: OpaqueEnvelope_def envelope_wf_def)

lemma RecordAuthentication_Inr:
  "RecordAuthentication k s a = Inr x \<longleftrightarrow>
     x = \<lparr>auth_key_id = k, auth_signature = s, auth_algorithm = a\<rparr> \<and> authentication_wf x"
  by (auto simp: RecordAuthentication_def authentication_wf_def)

lemma mixed_attributes_None: "mixed_attributes first c = None \<longleftrightarrow> agrees first c"
  by (cases first; cases c) (auto simp: mixed_attributes_def agrees_def)

lemma check_fields_Inr:
  "check_fields first rid seen fs = Inr u \<longleftrightarrow>
     distinct (map sf_target_field_id fs) \<and> set (map sf_target_field_id fs) \<inter> set seen = {}
     \<and> list_all (\<lambda>f. sf_target_field_id f = ctx_field_id (sf_context f)
         \<and> ctx_record_id (sf_context f) = rid \<and> agrees first (sf_context f)) fs"
proof (induction fs arbitrary: seen)
  case (Cons f fs)
  have "check_fields first rid seen (f # fs) = Inr u \<longleftrightarrow>
      sf_target_field_id f \<notin> set seen \<and> sf_target_field_id f = ctx_field_id (sf_context f)
      \<and> ctx_record_id (sf_context f) = rid \<and> agrees first (sf_context f)
      \<and> check_fields first rid (sf_target_field_id f # seen) fs = Inr u"
    by (auto simp flip: mixed_attributes_None split: option.splits)
  then show ?case unfolding Cons.IH by auto
qed simp

lemma BlindTransportRecord_Inr:
  "BlindTransportRecord rid fs a b = Inr r \<longleftrightarrow>
     r = \<lparr>btr_record_id = rid, btr_fields = fs, btr_authentication = a, btr_allow_blank = b\<rparr> \<and> record_wf r"
  unfolding BlindTransportRecord_def Let_def raise_if_Inr bindE_Inr_iff check_fields_Inr
  by (auto simp: record_wf_def protocol_version_def first_context_def)

section \<open>Reading the wire form back\<close>

lemma aad_lookup [simp]:
  "map_of (aad_payload c) ''destination_connector'' = Some (JStr (ctx_destination_connector c))"
  "map_of (aad_payload c) ''field_id'' = Some (JStr (ctx_field_id c))"
  "map_of (aad_payload c) ''plan_digest'' = Some (JStr (ctx_plan_digest c))"
  "map_of (aad_payload c) ''plan_id'' = Some (JStr (ctx_plan_id c))"
  "map_of (aad_payload c) ''protocol_version'' = Some (JInt (ctx_protocol_version c))"
  "map_of (aad_payload c) ''record_id'' = Some (JStr (ctx_record_id c))"
  "map_of (aad_payload c) ''schema_version'' = Some (JStr (ctx_schema_version c))"
  "map_of (aad_payload c) ''source_connector'' = Some (JStr (ctx_source_connector c))"
  "map_of (aad_payload c) ''tenant'' = Some (JStr (ctx_tenant c))"
  "map_of (aad_payload c) ''transfer_id'' = Some (JStr (ctx_transfer_id c))"
  by (simp_all add: aad_payload_def)

lemma aad_lookup_optional:
  "map_of (aad_payload c) ''recipient_key_id'' =
     (if ctx_recipient_key_id c = [] then None else Some (JStr (ctx_recipient_key_id c)))"
  "map_of (aad_payload c) ''issued_at'' = map_option (\<lambda>t. JStr (isoformat t)) (ctx_issued_at c)"
  "map_of (aad_payload c) ''expires_at'' = map_option (\<lambda>t. JStr (isoformat t)) (ctx_expires_at c)"
  by (simp_all add: aad_payload_def split: option.splits)

lemma aad_keys: "distinct (map fst (aad_payload c))"
  by (simp add: aad_payload_def split: option.splits)

lemma aad_atoms: "(k, v) \<in> set (aad_payload c) \<Longrightarrow> canon v = v \<and> readable v"
  by (auto simp: aad_payload_def split: option.splits if_splits)

text \<open>A dictionary read from canonical text has the same entries, each canonical.\<close>

definition reread :: "(string \<times> json) list \<Rightarrow> (string \<times> json) list" where
  "reread kvs = sort_key fst (canon_members kvs)"

lemma canon_JObj: "canon (JObj kvs) = JObj (reread kvs)"
  by (simp add: reread_def)

lemma map_of_reread: "distinct (map fst kvs) \<Longrightarrow> map_of (reread kvs) k = map_option canon (map_of kvs k)"
  by (simp add: reread_def map_of_canon)

lemma set_reread: "set (reread kvs) = (\<lambda>(k, v). (k, canon v)) ` set kvs"
  by (simp add: reread_def canon_members_map)

lemma parse_time_reread:
  assumes "map_of d name = map_option (\<lambda>t. JStr (isoformat t)) t" "pred_option time_valid t"
  shows "parse_time d name = Inr t"
  using assms by (cases t) (simp_all add: parse_time_def iso.parse_render)

lemma TransferContext_from_wire_reread:
  assumes "context_wf c"
  shows "TransferContext_from_wire (reread (aad_payload c)) = Inr c"
proof -
  let ?d = "reread (aad_payload c)"
  note look = map_of_reread [OF aad_keys, of c]
  have tm: "parse_time ?d ''issued_at'' = Inr (ctx_issued_at c)"
    "parse_time ?d ''expires_at'' = Inr (ctx_expires_at c)"
    using assms by (auto intro!: parse_time_reread simp: look aad_lookup_optional context_wf_def
        option.map_comp comp_def)
  have key: "py_str (get_default (JStr []) ''recipient_key_id'' ?d) = ctx_recipient_key_id c"
    by (simp add: get_default_def look aad_lookup_optional)
  have "version_of (get_default (JInt 0) ''protocol_version'' ?d) = Some (ctx_protocol_version c)"
    by (simp add: get_default_def look version_of_def)
  moreover have "py_str (get_default (JStr []) ''plan_id'' ?d) = ctx_plan_id c"
    "py_str (get_default (JStr []) ''plan_digest'' ?d) = ctx_plan_digest c"
    by (simp_all add: get_default_def look)
  ultimately show ?thesis
    using TransferContext_id [OF assms]
    by (simp add: TransferContext_from_wire_def str_item_def item_def look tm key)
qed

lemma b64_field_encode:
  assumes "int (length b) \<le> m"
  shows "b64_decode_field (b64_encode b) n m = Inr b"
proof -
  have "ascii (b64_encode b)" by (simp add: ascii_def list_all_iff b64_encode_ascii)
  moreover have "int (length (b64_encode b)) \<le> (m + 2) div 3 * 4"
    using assms zdiv_mono1 [of "int (length b) + 2" "m + 2" 3]
    by (simp add: length_b64_encode zdiv_int)
  ultimately show ?thesis using assms by (simp add: b64_decode_field_def b64_roundtrip)
qed

lemma OpaqueEnvelope_from_wire_reread:
  assumes "envelope_wf e" "int (length (env_ciphertext e)) \<le> m"
  shows "OpaqueEnvelope_from_wire (reread (OpaqueEnvelope_to_wire e)) m = Inr e"
proof -
  have keys: "distinct (map fst (OpaqueEnvelope_to_wire e))" by (simp add: OpaqueEnvelope_to_wire_def)
  have "str_item ''epk'' (reread (OpaqueEnvelope_to_wire e)) = Inr (b64_encode (env_epk e))"
    "str_item ''nonce'' (reread (OpaqueEnvelope_to_wire e)) = Inr (b64_encode (env_nonce e))"
    "str_item ''ciphertext'' (reread (OpaqueEnvelope_to_wire e)) = Inr (b64_encode (env_ciphertext e))"
    by (simp_all add: str_item_def item_def map_of_reread [OF keys]) (simp_all add: OpaqueEnvelope_to_wire_def)
  with assms show ?thesis
    by (simp add: OpaqueEnvelope_from_wire_def b64_field_encode envelope_wf_def OpaqueEnvelope_Inr)
qed

lemma RecordAuthentication_from_wire_reread:
  assumes "authentication_wf a"
  shows "RecordAuthentication_from_wire (reread (RecordAuthentication_to_wire a)) = Inr a"
proof -
  have keys: "distinct (map fst (RecordAuthentication_to_wire a))" by (simp add: RecordAuthentication_to_wire_def)
  have "map_of (reread (RecordAuthentication_to_wire a)) ''signature'' = Some (JStr (b64_encode (auth_signature a)))"
    "map_of (reread (RecordAuthentication_to_wire a)) ''key_id'' = Some (JStr (auth_key_id a))"
    "map_of (reread (RecordAuthentication_to_wire a)) ''algorithm'' = Some (JStr (auth_algorithm a))"
    by (simp_all add: map_of_reread [OF keys]) (simp_all add: RecordAuthentication_to_wire_def)
  moreover have "ascii (b64_encode (auth_signature a))" by (simp add: ascii_def list_all_iff b64_encode_ascii)
  ultimately show ?thesis
    using assms by (simp add: RecordAuthentication_from_wire_def get_default_def b64_roundtrip RecordAuthentication_Inr)
qed

lemma SealedField_from_wire_reread:
  assumes "field_wf f" "int (length (env_ciphertext (sf_envelope f))) \<le> max_ciphertext_bytes_per_field limits"
  shows "bindE (py_dict (canon (SealedField_to_wire f))) (SealedField_from_wire limits) = Inr f"
proof -
  let ?d = "[(''target_field_id'', JStr (sf_target_field_id f)), (''context'', JObj (aad_payload (sf_context f))),
      (''envelope'', JObj (OpaqueEnvelope_to_wire (sf_envelope f)))]"
  have "map_of (reread ?d) ''context'' = Some (JObj (reread (aad_payload (sf_context f))))"
    "map_of (reread ?d) ''envelope'' = Some (JObj (reread (OpaqueEnvelope_to_wire (sf_envelope f))))"
    "map_of (reread ?d) ''target_field_id'' = Some (JStr (sf_target_field_id f))"
    by (simp_all add: map_of_reread) (simp_all add: reread_def)
  moreover have "list_all (\<lambda>kv. is_text (snd kv)) (reread (OpaqueEnvelope_to_wire (sf_envelope f)))"
    by (simp add: list_all_iff set_reread) (simp add: OpaqueEnvelope_to_wire_def is_text_def)
  ultimately show ?thesis
    using assms TransferContext_from_wire_reread OpaqueEnvelope_from_wire_reread
    by (simp add: SealedField_to_wire_def canon_JObj py_dict_def SealedField_from_wire_def
        field_wf_def str_item_def item_def del: canon.simps)
qed

definition within_limits :: "protocol_limits \<Rightarrow> transport_record \<Rightarrow> bool" where
  "within_limits limits r =
     (int (length (btr_fields r)) \<le> max_fields_per_record limits
      \<and> list_all (\<lambda>f. int (length (env_ciphertext (sf_envelope f))) \<le> max_ciphertext_bytes_per_field limits)
          (btr_fields r)
      \<and> int (length (canonical_wire_bytes r)) \<le> max_record_wire_bytes limits)"

text \<open>
  A record that a decoder with the given policies gives back unchanged: a v3 record is signed, a
  v2 record needs the legacy policy, and the blank-recipient flag is set exactly when it is used.
\<close>

definition transportable :: "bool \<Rightarrow> bool \<Rightarrow> transport_record \<Rightarrow> bool" where
  "transportable allow_unsigned allow_blank r =
     (object_wf r
      \<and> (protocol_version r = 3 \<longrightarrow> btr_authentication r \<noteq> None
           \<and> btr_allow_blank r = (ctx_recipient_key_id (first_context r) = [])
           \<and> (btr_allow_blank r \<longrightarrow> allow_blank))
      \<and> (protocol_version r = 2 \<longrightarrow> allow_unsigned))"

lemma to_wire_keys: "distinct (map fst (to_wire r))" "distinct (map fst (content_wire r))"
  by (simp_all add: to_wire_def content_wire_def split: option.splits)

lemma SealedField_readable: "readable (SealedField_to_wire f)"
proof -
  have "readable_members (aad_payload (sf_context f))"
    unfolding readable_members_iff using aad_atoms by blast
  then show ?thesis
    by (simp add: SealedField_to_wire_def aad_keys OpaqueEnvelope_to_wire_def)
qed

lemma content_wire_readable: "readable_members (content_wire r)"
  by (simp add: content_wire_def readable_elems_iff SealedField_readable)

lemma to_wire_readable: "readable (JObj (to_wire r))"
proof -
  have "readable_members (to_wire r)"
    using content_wire_readable [of r]
    by (auto simp: to_wire_def readable_members_iff RecordAuthentication_to_wire_def split: option.splits)
  then show ?thesis by (simp add: to_wire_keys)
qed

lemma canonical_wire_decode: "json_decode strict (canonical_wire_bytes r) = Some (JObj (reread (to_wire r)))"
  unfolding canonical_wire_bytes_def jc.decode_encode [OF to_wire_readable] canon_JObj ..

lemma to_wire_lookup:
  "map_of (to_wire r) ''protocol'' = Some (JStr ''opaque-record'')"
  "map_of (to_wire r) ''version'' = Some (JInt (protocol_version r))"
  "map_of (to_wire r) ''record_id'' = Some (JStr (btr_record_id r))"
  "map_of (to_wire r) ''fields'' = Some (JArr (map SealedField_to_wire (btr_fields r)))"
  "map_of (to_wire r) ''authentication'' =
     map_option (\<lambda>a. JObj (RecordAuthentication_to_wire a)) (btr_authentication r)"
  by (simp_all add: to_wire_def content_wire_def split: option.splits)

lemma fields_from_wire_reread:
  assumes "list_all field_wf fs"
    "list_all (\<lambda>f. int (length (env_ciphertext (sf_envelope f))) \<le> max_ciphertext_bytes_per_field limits) fs"
  shows "mapE (\<lambda>x. bindE (py_dict x) (SealedField_from_wire limits)) (canon_elems (map SealedField_to_wire fs)) = Inr fs"
  using assms by (induction fs) (simp_all add: SealedField_from_wire_reread [simplified bindE_def] bindE_def)

lemma authentication_from_wire_reread:
  assumes "transportable u b r"
  shows "authentication_from_wire (protocol_version r) (reread (to_wire r)) = Inr (btr_authentication r)"
proof (cases "protocol_version r = 3")
  case True
  with assms obtain x where "btr_authentication r = Some x" "authentication_wf x"
    by (auto simp: transportable_def object_wf_def)
  with True show ?thesis
    using RecordAuthentication_from_wire_reread
    by (simp add: authentication_from_wire_def map_of_reread to_wire_keys to_wire_lookup canon_JObj del: canon.simps)
next
  case False
  with assms have "btr_authentication r = None" by (auto simp: transportable_def object_wf_def record_wf_def)
  with False show ?thesis
    by (simp add: authentication_from_wire_def map_of_reread to_wire_keys to_wire_lookup get_default_def)
qed

lemma from_wire_reread:
  assumes "transportable allow_unsigned allow_blank r" "within_limits limits r"
  shows "from_wire limits allow_unsigned allow_blank (reread (to_wire r)) = Inr r"
proof -
  note look = map_of_reread [OF to_wire_keys(1)] to_wire_lookup
  have obj: "object_wf r" and rec: "record_wf r" using assms(1) by (simp_all add: transportable_def object_wf_def)
  have v: "protocol_version r \<in> {2, 3}" "btr_fields r \<noteq> []" using rec by (simp_all add: record_wf_def)
  have size: "int (length (utf8_encode (render (JObj (reread (to_wire r)))))) \<le> max_record_wire_bytes limits"
    using assms(2) by (simp add: within_limits_def canonical_wire_bytes_def json_encode_def json_dumps_def reread_def)
  have fs: "mapE (\<lambda>x. bindE (py_dict x) (SealedField_from_wire limits))
      (canon_elems (map SealedField_to_wire (btr_fields r))) = Inr (btr_fields r)"
    using obj assms(2) by (intro fields_from_wire_reread) (simp_all add: object_wf_def within_limits_def)
  have len: "length (canon_elems (map SealedField_to_wire (btr_fields r))) = length (btr_fields r)"
    "canon_elems (map SealedField_to_wire (btr_fields r)) \<noteq> []"
    using v by (simp_all add: canon_elems_map)
  have built: "BlindTransportRecord (btr_record_id r) (btr_fields r) (btr_authentication r) (btr_allow_blank r) = Inr r"
    using rec by (simp add: BlindTransportRecord_Inr)
  have blank: "(protocol_version r = 3 \<and> ctx_recipient_key_id (sf_context (hd (btr_fields r))) = [] \<and> allow_blank)
      = btr_allow_blank r"
    using assms(1) rec v(1) by (auto simp: transportable_def record_wf_def first_context_def)
  show ?thesis
    unfolding from_wire_def
    using v size assms
    by (simp add: look get_default_def version_of_def str_item_def item_def fs len built blank
        authentication_from_wire_reread [OF assms(1)] within_limits_def transportable_def)
qed

section \<open>What an accepted record satisfies\<close>

lemma TransferContext_from_wire_wf: "TransferContext_from_wire d = Inr c \<Longrightarrow> context_wf c"
  by (auto simp: TransferContext_from_wire_def split: option.splits intro: TransferContext_wf)

lemma OpaqueEnvelope_from_wire_wf: "OpaqueEnvelope_from_wire d m = Inr e \<Longrightarrow> envelope_wf e"
  by (auto simp: OpaqueEnvelope_from_wire_def OpaqueEnvelope_Inr)

lemma b64_decode_field_bound: "b64_decode_field s n m = Inr b \<Longrightarrow> int (length b) \<le> m"
  by (auto simp: b64_decode_field_def split: option.splits)

lemma OpaqueEnvelope_from_wire_bound:
  "OpaqueEnvelope_from_wire d m = Inr e \<Longrightarrow> int (length (env_ciphertext e)) \<le> m"
  by (auto simp: OpaqueEnvelope_from_wire_def OpaqueEnvelope_Inr dest: b64_decode_field_bound)

lemma SealedField_from_wire_wf:
  "SealedField_from_wire limits d = Inr f \<Longrightarrow>
     field_wf f \<and> int (length (env_ciphertext (sf_envelope f))) \<le> max_ciphertext_bytes_per_field limits"
  by (auto simp: SealedField_from_wire_def field_wf_def split: option.splits json.splits
      dest: TransferContext_from_wire_wf OpaqueEnvelope_from_wire_wf OpaqueEnvelope_from_wire_bound)

lemma RecordAuthentication_from_wire_wf: "RecordAuthentication_from_wire d = Inr a \<Longrightarrow> authentication_wf a"
  by (auto simp: RecordAuthentication_from_wire_def Let_def RecordAuthentication_Inr split: option.splits if_splits)

lemma authentication_from_wire_wf:
  "authentication_from_wire v d = Inr a \<Longrightarrow> pred_option authentication_wf a \<and> (v = 3 \<longrightarrow> a \<noteq> None)"
  by (auto simp: authentication_from_wire_def split: if_splits option.splits json.splits
      dest: RecordAuthentication_from_wire_wf)

lemma mapE_list_all:
  "mapE f xs = Inr ys \<Longrightarrow> (\<And>x y. f x = Inr y \<Longrightarrow> P y) \<Longrightarrow> list_all P ys"
  by (induction xs arbitrary: ys) auto

lemma mapE_Inr_all: "mapE f xs = Inr ys \<Longrightarrow> \<forall>x \<in> set xs. \<exists>y. f x = Inr y"
  by (induction xs arbitrary: ys) auto

lemma fields_from_wire_wf:
  "mapE (\<lambda>x. bindE (py_dict x) (SealedField_from_wire limits)) xs = Inr fs \<Longrightarrow>
   list_all (\<lambda>f. field_wf f \<and> int (length (env_ciphertext (sf_envelope f))) \<le> max_ciphertext_bytes_per_field limits) fs"
  by (erule mapE_list_all) (auto dest: SealedField_from_wire_wf)

lemma from_wire_cases:
  assumes "from_wire limits u b payload = Inr r"
  obtains version raw fs a rid where
    "version \<in> {2, 3}" "version = 2 \<longrightarrow> u"
    "map_of payload ''fields'' = Some (JArr raw)" "int (length raw) \<le> max_fields_per_record limits"
    "int (length (utf8_encode (render (JObj payload)))) \<le> max_record_wire_bytes limits"
    "mapE (\<lambda>x. bindE (py_dict x) (SealedField_from_wire limits)) raw = Inr fs"
    "authentication_from_wire version payload = Inr a"
    "BlindTransportRecord rid fs a (version = 3 \<and> ctx_recipient_key_id (sf_context (hd fs)) = [] \<and> b) = Inr r"
    "protocol_version r = version"
  using assms unfolding from_wire_def
  by (fastforce split: option.splits json.splits)

lemma from_wire_transportable:
  assumes "from_wire limits u b payload = Inr r"
  shows "transportable u b r"
proof -
  obtain version raw fs a rid where *:
    "version \<in> {2, 3}" "version = 2 \<longrightarrow> u"
    "mapE (\<lambda>x. bindE (py_dict x) (SealedField_from_wire limits)) raw = Inr fs"
    "authentication_from_wire version payload = Inr a"
    "BlindTransportRecord rid fs a (version = 3 \<and> ctx_recipient_key_id (sf_context (hd fs)) = [] \<and> b) = Inr r"
    "protocol_version r = version"
    using assms by (rule from_wire_cases) blast
  have "list_all field_wf fs" using fields_from_wire_wf [OF *(3)] by (simp add: list_all_iff)
  moreover note authentication_from_wire_wf [OF *(4)]
  ultimately show ?thesis
    using * by (auto simp: transportable_def object_wf_def BlindTransportRecord_Inr first_context_def record_wf_def)
qed

section \<open>What the authenticated bytes determine\<close>

lemma aad_readable: "readable (JObj (aad_payload c))"
  using aad_atoms by (simp add: aad_keys readable_members_iff) blast

lemma aad_inject:
  assumes "context_wf c" "context_wf d" "aad c = aad d"
  shows "c = d"
proof -
  have "canon (JObj (aad_payload c)) = canon (JObj (aad_payload d))"
    by (rule jc.encode_inject [OF aad_readable aad_readable assms(3) [unfolded aad_def]])
  then have "reread (aad_payload c) = reread (aad_payload d)" unfolding canon_JObj by (simp only: json.inject)
  with TransferContext_from_wire_reread [OF assms(1)] TransferContext_from_wire_reread [OF assms(2)]
  show ?thesis by (metis sum.inject(2))
qed

lemma SealedField_wire_inject:
  assumes "field_wf f" "field_wf g" "canon (SealedField_to_wire f) = canon (SealedField_to_wire g)"
  shows "f = g"
proof -
  define m where "m = max (length (env_ciphertext (sf_envelope f))) (length (env_ciphertext (sf_envelope g)))"
  let ?l = "\<lparr>max_fields_per_record = 0, max_ciphertext_bytes_per_field = int m, max_record_wire_bytes = 0\<rparr>"
  have "bindE (py_dict (canon (SealedField_to_wire f))) (SealedField_from_wire ?l) = Inr f"
    "bindE (py_dict (canon (SealedField_to_wire g))) (SealedField_from_wire ?l) = Inr g"
    using assms(1,2) by (intro SealedField_from_wire_reread; simp add: m_def)+
  then show ?thesis unfolding assms(3) by (metis sum.inject(2))
qed

lemma fields_wire_inject:
  "list_all field_wf fs \<Longrightarrow> list_all field_wf gs \<Longrightarrow>
   canon_elems (map SealedField_to_wire fs) = canon_elems (map SealedField_to_wire gs) \<Longrightarrow> fs = gs"
proof (induction fs arbitrary: gs)
  case (Cons f fs)
  then show ?case by (cases gs) (auto dest: SealedField_wire_inject)
qed (simp add: canon_elems_map)

lemma content_lookup:
  "map_of (content_wire r) ''record_id'' = Some (JStr (btr_record_id r))"
  "map_of (content_wire r) ''fields'' = Some (JArr (map SealedField_to_wire (btr_fields r)))"
  by (simp_all add: content_wire_def)

lemma content_inject:
  assumes "object_wf r" "object_wf s" "json_encode (JObj (content_wire r)) = json_encode (JObj (content_wire s))"
  shows "btr_record_id r = btr_record_id s" "btr_fields r = btr_fields s"
proof -
  have ok: "readable (JObj (content_wire q))" for q by (simp add: to_wire_keys content_wire_readable)
  have eq: "reread (content_wire r) = reread (content_wire s)"
    using jc.encode_inject [OF ok ok assms(3)] by (simp add: reread_def)
  then have look: "map_option canon (map_of (content_wire r) k) = map_option canon (map_of (content_wire s) k)" for k
    using map_of_reread [OF to_wire_keys(2)] by metis
  show "btr_record_id r = btr_record_id s" using look [of "''record_id''"] by (simp add: content_lookup)
  show "btr_fields r = btr_fields s"
    using look [of "''fields''"] assms(1,2) fields_wire_inject by (simp add: content_lookup object_wf_def)
qed

lemma auth_payload_readable:
  "readable (JObj (content_wire r @ [(''authentication'', JObj [(''algorithm'', JStr a), (''key_id'', JStr k)])]))"
  using content_wire_readable [of r]
  by (simp add: readable_members_iff) (simp add: content_wire_def)

lemma source_authentication_inject:
  assumes "object_wf r" "object_wf s"
    and "source_authentication_bytes r k a = Inr m" "source_authentication_bytes s l b = Inr m"
  shows "btr_record_id r = btr_record_id s" "btr_fields r = btr_fields s" "k = l" "a = b"
proof -
  let ?p = "\<lambda>r k a. content_wire r @ [(''authentication'', JObj [(''algorithm'', JStr a), (''key_id'', JStr k)])]"
  have keys: "distinct (map fst (?p q i j))" for q i j by (simp add: content_wire_def)
  have "json_encode (JObj (?p r k a)) = json_encode (JObj (?p s l b))"
    using assms(3,4) by (auto simp: source_authentication_bytes_def)
  then have "canon (JObj (?p r k a)) = canon (JObj (?p s l b))"
    by (rule jc.encode_inject [OF auth_payload_readable auth_payload_readable])
  then have "reread (?p r k a) = reread (?p s l b)" unfolding canon_JObj by (simp only: json.inject)
  then have look: "map_option canon (map_of (?p r k a) x) = map_option canon (map_of (?p s l b) x)" for x
    using map_of_reread [OF keys] by metis
  show "btr_record_id r = btr_record_id s" using look [of "''record_id''"] by (simp add: content_wire_def)
  show "btr_fields r = btr_fields s"
    using look [of "''fields''"] assms(1,2) fields_wire_inject by (simp add: content_wire_def object_wf_def)
  show "k = l" "a = b"
    using look [of "''authentication''"] by (simp_all add: content_wire_def sort_key_def insort_key_def)
qed

section \<open>Properties\<close>

text \<open>A record with one field, used to exhibit the hypotheses of the properties.\<close>

definition sample_context :: transfer_context where
  "sample_context = \<lparr>ctx_tenant = ''acme'', ctx_source_connector = ''crm'', ctx_destination_connector = ''erp'',
     ctx_field_id = ''name'', ctx_schema_version = ''1'', ctx_record_id = ''r1'', ctx_transfer_id = ''t1'',
     ctx_plan_id = ''p'', ctx_plan_digest = [], ctx_protocol_version = 3,
     ctx_recipient_key_id = replicate 64 CHR ''a'', ctx_issued_at = Some 0, ctx_expires_at = Some 1000000\<rparr>"

definition sample_record :: transport_record where
  "sample_record = \<lparr>btr_record_id = ''r1'',
     btr_fields = [\<lparr>sf_target_field_id = ''name'', sf_context = sample_context,
       sf_envelope = \<lparr>env_epk = replicate 32 CHR ''k'', env_nonce = replicate 12 CHR ''n'',
         env_ciphertext = replicate 16 CHR ''c''\<rparr>\<rparr>],
     btr_authentication = Some \<lparr>auth_key_id = replicate 64 CHR ''b'', auth_signature = replicate 64 CHR ''s'',
       auth_algorithm = ''ed25519''\<rparr>,
     btr_allow_blank = False\<rparr>"

lemma sample_context_wf: "context_wf sample_context"
  by (simp add: sample_context_def context_wf_def lower_hex_def hex_digit_def list_all_iff
      interval_inverted_def time_valid_def day_us_def)

lemma sample_first_context: "first_context sample_record = sample_context"
  by (simp add: first_context_def sample_record_def)

lemma sample_transportable: "transportable False False sample_record"
  using sample_context_wf
  by (simp add: transportable_def object_wf_def record_wf_def protocol_version_def sample_first_context)
    (simp add: sample_record_def field_wf_def envelope_wf_def authentication_wf_def agrees_def
      lower_hex_def hex_digit_def list_all_iff sample_context_def)

definition sample_limits :: protocol_limits where
  "sample_limits = ProtocolLimits\<lparr>max_record_wire_bytes := int (length (canonical_wire_bytes sample_record))\<rparr>"

lemma sample_within_limits: "within_limits sample_limits sample_record"
  by (simp add: within_limits_def sample_limits_def ProtocolLimits_def) (simp add: sample_record_def)

lemma canonical_wire_nonempty: "canonical_wire_bytes r \<noteq> []"
proof
  assume e: "canonical_wire_bytes r = []"
  have "json_decode True [] = None" by (simp add: json_decode_def json_loads_def skip_ws_def numeral_2_eq_2)
  with canonical_wire_decode [of True r] e show False by simp
qed

text \<open>The sample record sealed again: another signature over the same content.\<close>

definition resealed_record :: transport_record where
  "resealed_record = sample_record\<lparr>btr_authentication :=
     Some \<lparr>auth_key_id = replicate 64 CHR ''b'', auth_signature = replicate 64 CHR ''t'', auth_algorithm = ''ed25519''\<rparr>\<rparr>"

lemma resealed_bytes: "canonical_wire_bytes sample_record \<noteq> canonical_wire_bytes resealed_record"
proof
  assume eq: "canonical_wire_bytes sample_record = canonical_wire_bytes resealed_record"
  have "transportable False False resealed_record"
    using sample_context_wf
    by (simp add: transportable_def object_wf_def record_wf_def protocol_version_def first_context_def)
      (simp add: resealed_record_def sample_record_def field_wf_def envelope_wf_def authentication_wf_def agrees_def
        lower_hex_def hex_digit_def list_all_iff sample_context_def)
  moreover have "within_limits sample_limits resealed_record"
    using sample_within_limits eq by (simp add: within_limits_def) (simp add: resealed_record_def)
  ultimately have a: "from_wire sample_limits False False (reread (to_wire resealed_record)) = Inr resealed_record"
    by (rule from_wire_reread)
  have b: "from_wire sample_limits False False (reread (to_wire sample_record)) = Inr sample_record"
    by (rule from_wire_reread [OF sample_transportable sample_within_limits])
  have d: "json_decode True (canonical_wire_bytes resealed_record) = Some (JObj (reread (to_wire sample_record)))"
    unfolding eq [symmetric] by (rule canonical_wire_decode)
  have "Some (JObj (reread (to_wire resealed_record))) = Some (JObj (reread (to_wire sample_record)))"
    by (rule trans [OF canonical_wire_decode [of True resealed_record, symmetric] d])
  then have e: "reread (to_wire resealed_record) = reread (to_wire sample_record)" by (simp only: option.inject json.inject)
  have "resealed_record = sample_record" by (rule Inr_inject, rule trans [OF a [unfolded e, symmetric] b])
  then have "btr_authentication resealed_record = btr_authentication sample_record" by (rule arg_cong)
  then show False by (simp add: resealed_record_def sample_record_def)
qed

text \<open>
  C29. Every transportable record within the limits is given back unchanged by decoding its
  canonical wire bytes, whether or not the decoder installs the strict hooks.
\<close>

theorem wire_roundtrip:
  assumes "transportable allow_unsigned allow_blank r" "within_limits limits r"
  shows "\<exists>payload. json_decode strict (canonical_wire_bytes r) = Some (JObj payload)
    \<and> from_wire limits allow_unsigned allow_blank payload = Inr r"
  using from_wire_reread [OF assms] by (simp add: canonical_wire_decode)

theorem wire_roundtrip_witness:
  "\<exists>payload. json_decode True (canonical_wire_bytes sample_record) = Some (JObj payload)
    \<and> from_wire sample_limits False False payload = Inr sample_record"
  by (rule wire_roundtrip [OF sample_transportable sample_within_limits])

text \<open>
  C30. Whatever the decoder accepts is a well-formed record: one to the maximum number of distinct
  fields, one tenant, route, plan, schema version and validity interval throughout, bounded
  ciphertexts, a signature on every v3 record, none on a v2 record, and v2 or blank-recipient records only
  under their explicit policies.
\<close>

theorem from_wire_sound:
  assumes "from_wire limits allow_unsigned allow_blank payload = Inr r"
  shows "transportable allow_unsigned allow_blank r
    \<and> int (length (btr_fields r)) \<le> max_fields_per_record limits
    \<and> list_all (\<lambda>f. int (length (env_ciphertext (sf_envelope f))) \<le> max_ciphertext_bytes_per_field limits) (btr_fields r)"
proof -
  obtain version raw fs a rid where *: "int (length raw) \<le> max_fields_per_record limits"
    "mapE (\<lambda>x. bindE (py_dict x) (SealedField_from_wire limits)) raw = Inr fs"
    "BlindTransportRecord rid fs a (version = (3 :: int) \<and> ctx_recipient_key_id (sf_context (hd fs)) = [] \<and> allow_blank) = Inr r"
    using assms by (rule from_wire_cases) blast
  then have "btr_fields r = fs" by (auto simp: BlindTransportRecord_Inr)
  with * mapE_length [OF *(2)] fields_from_wire_wf [OF *(2)] from_wire_transportable [OF assms]
  show ?thesis by (simp add: list_all_iff)
qed

theorem from_wire_sound_witness:
  "transportable False False sample_record
    \<and> int (length (btr_fields sample_record)) \<le> max_fields_per_record sample_limits
    \<and> list_all (\<lambda>f. int (length (env_ciphertext (sf_envelope f))) \<le> max_ciphertext_bytes_per_field sample_limits)
        (btr_fields sample_record)"
  by (rule from_wire_sound [OF from_wire_reread [OF sample_transportable sample_within_limits]])

text \<open>
  The additional authenticated data determines the whole transfer context: two well-formed
  contexts with the same bytes are equal, so an envelope cannot be moved to another tenant, route,
  field, record, transfer, plan, recipient or validity interval under the same authenticated data.
\<close>

theorem aad_binds_context:
  assumes "context_wf c" "context_wf d"
  shows "aad c = aad d \<longleftrightarrow> c = d"
  using aad_inject [OF assms] by blast

theorem aad_binds_context_witness:
  "aad sample_context = aad (sample_context\<lparr>ctx_tenant := ''other''\<rparr>)
     \<longleftrightarrow> sample_context = sample_context\<lparr>ctx_tenant := ''other''\<rparr>"
proof (rule aad_binds_context [OF sample_context_wf])
  show "context_wf (sample_context\<lparr>ctx_tenant := ''other''\<rparr>)"
    using sample_context_wf by (simp add: context_wf_def)
qed

text \<open>
  The bytes a source signs determine the record id, every sealed field (context, envelope and
  order) and the signing key id: equal bytes come from equal content under the same key.
\<close>

theorem signature_binds_content:
  assumes "object_wf r" "object_wf s"
    and "source_authentication_bytes r k a = Inr m" "source_authentication_bytes s l b = Inr m"
  shows "btr_record_id r = btr_record_id s \<and> btr_fields r = btr_fields s \<and> k = l \<and> a = b"
  using source_authentication_inject [OF assms] by blast

theorem signature_binds_content_witness:
  "\<exists>m. source_authentication_bytes sample_record ''k'' ''ed25519'' = Inr m
     \<and> btr_record_id sample_record = btr_record_id (sample_record\<lparr>btr_authentication := None\<rparr>)"
proof -
  let ?s = "sample_record\<lparr>btr_authentication := None\<rparr>"
  have wf: "object_wf sample_record" using sample_transportable by (simp add: transportable_def)
  then have wf': "object_wf ?s"
    by (auto simp: object_wf_def record_wf_def protocol_version_def first_context_def)
  have eq: "content_wire ?s = content_wire sample_record" "protocol_version ?s = protocol_version sample_record"
    by (simp_all add: content_wire_def protocol_version_def first_context_def)
  have "protocol_version sample_record = 3"
    by (simp add: protocol_version_def sample_first_context sample_context_def)
  with eq obtain m where m: "source_authentication_bytes sample_record ''k'' ''ed25519'' = Inr m"
    "source_authentication_bytes ?s ''k'' ''ed25519'' = Inr m"
    by (simp add: source_authentication_bytes_def)
  show ?thesis using m(1) signature_binds_content [OF wf wf' m] by blast
qed

text \<open>
  Signing keeps the content: the signed record has the digest, identity and fields of the
  unsigned one, carries a well-formed signature over its source authentication bytes, and every
  field's metadata was within the bounds for new records.
\<close>

theorem signed_record:
  assumes "signed public_key sign r = Inr s"
  shows "digest s = digest r \<and> btr_record_id s = btr_record_id r \<and> btr_fields s = btr_fields r
    \<and> (\<exists>key_id msg. signing_key_id public_key = Inr key_id
         \<and> source_authentication_bytes s key_id ''ed25519'' = Inr msg
         \<and> btr_authentication s = Some \<lparr>auth_key_id = key_id, auth_signature = sign msg, auth_algorithm = ''ed25519''\<rparr>)
    \<and> (\<forall>f \<in> set (btr_fields s). validate_new_metadata (sf_context f) = Inr ())"
proof -
  obtain us key_id msg a where *: "mapE (\<lambda>f. validate_new_metadata (sf_context f)) (btr_fields r) = Inr us"
    "signing_key_id public_key = Inr key_id" "source_authentication_bytes r key_id ''ed25519'' = Inr msg"
    "RecordAuthentication key_id (sign msg) ''ed25519'' = Inr a"
    "s = r\<lparr>btr_authentication := Some a\<rparr>"
    using assms by (auto simp: signed_def BlindTransportRecord_Inr)
  have same: "content_wire s = content_wire r" "protocol_version s = protocol_version r"
    by (simp_all add: *(5) content_wire_def protocol_version_def first_context_def)
  have "\<forall>f \<in> set (btr_fields r). validate_new_metadata (sf_context f) = Inr ()"
    using mapE_Inr_all [OF *(1)] by simp
  moreover have "source_authentication_bytes s key_id ''ed25519'' = Inr msg"
    using *(3) by (simp only: source_authentication_bytes_def same)
  moreover have "digest s = digest r" by (simp only: digest_def same)
  ultimately show ?thesis
    using *(2,4) by (auto simp: *(5) RecordAuthentication_Inr)
qed

theorem signed_record_witness:
  "\<exists>s. signed (replicate 32 CHR ''p'') (\<lambda>_. replicate 64 CHR ''s'') (sample_record\<lparr>btr_authentication := None\<rparr>) = Inr s
     \<and> digest s = digest (sample_record\<lparr>btr_authentication := None\<rparr>)"
proof -
  let ?r = "sample_record\<lparr>btr_authentication := None\<rparr>"
  have v: "protocol_version ?r = 3" "protocol_version sample_record = 3"
    by (simp_all add: protocol_version_def first_context_def sample_record_def sample_context_def)
  have "mapE (\<lambda>f. validate_new_metadata (sf_context f)) (btr_fields ?r) = Inr [()]"
    by (simp add: sample_record_def sample_context_def validate_new_metadata_def bounded_printable_def
        strip_def char_space_def isprintable_def char_printable_def Let_def)
  moreover have "record_wf \<lparr>btr_record_id = btr_record_id ?r, btr_fields = btr_fields ?r,
      btr_authentication = Some a, btr_allow_blank = btr_allow_blank ?r\<rparr>" for a
    using sample_transportable v
    by (simp add: transportable_def object_wf_def record_wf_def protocol_version_def first_context_def)
  ultimately obtain s where s: "signed (replicate 32 CHR ''p'') (\<lambda>_. replicate 64 CHR ''s'') ?r = Inr s"
    using v by (auto simp: signed_def signing_key_id_def source_authentication_bytes_def RecordAuthentication_def
        sha256_hex_lower BlindTransportRecord_Inr)
  show ?thesis using s signed_record [OF s] by blast
qed

end
