(* ===== verification/Signing.thy ===== *)
theory Signing
  imports Transport
begin

text \<open>
  The registry of trusted source keys (\<open>signing.py\<close>): key lifecycle, rotation, revocation and the
  verification of a record's source signature. Every operation runs under the store's reentrant
  lock, so an operation is one step; a verification session holds the lock and raises
  \<open>_verification_depth\<close>, which every mutator tests. The Ed25519 check
  \<open>Ed25519PublicKey.from_public_bytes(k).verify(signature, payload)\<close> is the parameter
  \<open>ed25519_ok\<close>: it is true when the library call returns.
\<close>

datatype source_key_state = ACTIVE | VERIFY_ONLY | REVOKED

record trusted_source_key =
  tsk_public_key :: bytes
  tsk_tenant :: string
  tsk_source_connector :: string
  tsk_state :: source_key_state
  tsk_not_before :: "int option"
  tsk_not_after :: "int option"
  tsk_key_id :: string
  tsk_signing_cutoff :: "int option"

definition key_utc :: "py_datetime \<Rightarrow> int result" where
  "key_utc v = (case v of
     Naive _ \<Rightarrow> Inl (ValueError ''source key validity timestamps must be timezone-aware'')
   | Aware t off \<Rightarrow> astimezone_utc t off)"

definition key_utc_opt :: "py_datetime option \<Rightarrow> int option result" where
  "key_utc_opt v = (case v of None \<Rightarrow> Inr None | Some d \<Rightarrow> bindE (key_utc d) (\<lambda>t. Inr (Some t)))"

definition TrustedSourceKey :: "bytes \<Rightarrow> string \<Rightarrow> string \<Rightarrow> source_key_state \<Rightarrow> py_datetime option \<Rightarrow>
    py_datetime option \<Rightarrow> string \<Rightarrow> py_datetime option \<Rightarrow> trusted_source_key result" where
  "TrustedSourceKey public_key tnt source state not_before not_after key_id cutoff =
     bindE (signing_key_id public_key) (\<lambda>expected.
     raise_if (key_id \<noteq> [] \<and> key_id \<noteq> expected) (ValueError ''source key id does not match its public key'') (
     raise_if (tnt = [] \<or> source = [])
       (ValueError ''trusted source keys require tenant and connector bindings'') (
     bindE (key_utc_opt not_before) (\<lambda>nb.
     bindE (key_utc_opt not_after) (\<lambda>na.
     bindE (key_utc_opt cutoff) (\<lambda>co.
     raise_if (interval_inverted nb na) (ValueError ''source key validity interval is inverted'') (
     raise_if (state = ACTIVE \<and> co \<noteq> None) (ValueError ''active source key cannot have a signing cutoff'') (
     raise_if (state = VERIFY_ONLY \<and> co = None)
       (ValueError ''verification-only source key requires a signing cutoff'') (
     raise_if (state = VERIFY_ONLY \<and> na = None)
       (ValueError ''verification-only source key requires an expiry deadline'') (
     Inr \<lparr>tsk_public_key = public_key, tsk_tenant = tnt, tsk_source_connector = source, tsk_state = state,
          tsk_not_before = nb, tsk_not_after = na, tsk_key_id = expected, tsk_signing_cutoff = co\<rparr>))))))))))"

record trust_store =
  ts_keys :: "string \<rightharpoonup> trusted_source_key"
  ts_verification_depth :: nat

definition ensure_mutation_allowed :: "trust_store \<Rightarrow> 'a result \<Rightarrow> 'a result" where
  "ensure_mutation_allowed st k =
     raise_if (ts_verification_depth st \<noteq> 0)
       (RuntimeError ''source trust registry cannot mutate inside a verification session'') k"

definition SourceTrustStore_add :: "trusted_source_key \<Rightarrow> trust_store \<Rightarrow> trust_store result" where
  "SourceTrustStore_add key st = ensure_mutation_allowed st (
     raise_if (case ts_keys st (tsk_key_id key) of None \<Rightarrow> False | Some current \<Rightarrow> current \<noteq> key)
       (ValueError ''source key id is already registered with different policy'') (
     Inr (st\<lparr>ts_keys := (ts_keys st)(tsk_key_id key \<mapsto> key)\<rparr>)))"

definition SourceTrustStore_get :: "string \<Rightarrow> trust_store \<Rightarrow> trusted_source_key option" where
  "SourceTrustStore_get key_id st = ts_keys st key_id"

text \<open>
  \<open>SourceTrustStore(keys)\<close> adds the given keys to an empty registry.
\<close>

fun SourceTrustStore_init :: "trusted_source_key list \<Rightarrow> trust_store \<Rightarrow> trust_store result" where
  "SourceTrustStore_init [] st = Inr st"
| "SourceTrustStore_init (k # ks) st = bindE (SourceTrustStore_add k st) (SourceTrustStore_init ks)"

definition empty_store :: trust_store where
  "empty_store = \<lparr>ts_keys = Map.empty, ts_verification_depth = 0\<rparr>"

definition add_delta :: "int \<Rightarrow> int \<Rightarrow> int result" where
  "add_delta t d = (if time_valid (t + d) then Inr (t + d) else Inl (OverflowError ''date value out of range''))"

text \<open>The signing cutoff and the deadline a state change gives the key.\<close>

definition next_validity :: "source_key_state \<Rightarrow> py_datetime \<Rightarrow> int \<Rightarrow> trusted_source_key \<Rightarrow> (int option \<times> int option) result" where
  "next_validity state changed_at grace current = (case state of
     VERIFY_ONLY \<Rightarrow>
       raise_if (grace \<le> 0) (ValueError ''source key rotation grace must be positive'') (
       bindE (case tsk_signing_cutoff current of Some c \<Rightarrow> Inr c | None \<Rightarrow> key_utc changed_at) (\<lambda>cutoff.
       bindE (add_delta cutoff grace) (\<lambda>deadline.
       Inr (Some cutoff, Some (case tsk_not_after current of
           None \<Rightarrow> deadline | Some na \<Rightarrow> min na deadline)))))
   | ACTIVE \<Rightarrow> Inr (None, tsk_not_after current)
   | REVOKED \<Rightarrow> Inr (tsk_signing_cutoff current, tsk_not_after current))"

definition set_state :: "string \<Rightarrow> source_key_state \<Rightarrow> py_datetime \<Rightarrow> int \<Rightarrow> trust_store \<Rightarrow> trust_store result" where
  "set_state key_id state changed_at grace st = ensure_mutation_allowed st (
     case ts_keys st key_id of
       None \<Rightarrow> Inl (KeyError ''source verification key is not registered'')
     | Some current \<Rightarrow>
       raise_if (tsk_state current = REVOKED \<and> state \<noteq> REVOKED)
         (ValueError ''revoked source keys cannot be reactivated'') (
       bindE (next_validity state changed_at grace current) (\<lambda>(cutoff, deadline).
       bindE (TrustedSourceKey (tsk_public_key current) (tsk_tenant current) (tsk_source_connector current)
           state (as_aware (tsk_not_before current)) (as_aware deadline) (tsk_key_id current) (as_aware cutoff))
         (\<lambda>key. Inr (st\<lparr>ts_keys := (ts_keys st)(key_id \<mapsto> key)\<rparr>)))))"

definition default_rotation_grace :: int where
  "default_rotation_grace = 24 * 3600 * 1000000"

definition revoke :: "string \<Rightarrow> py_datetime \<Rightarrow> trust_store \<Rightarrow> trust_store result" where
  "revoke key_id now st = set_state key_id REVOKED now default_rotation_grace st"

definition rotate :: "string \<Rightarrow> trusted_source_key \<Rightarrow> py_datetime \<Rightarrow> int \<Rightarrow> trust_store \<Rightarrow> trust_store result" where
  "rotate previous replacement changed_at grace st = ensure_mutation_allowed st (
     case ts_keys st previous of
       None \<Rightarrow> Inl (KeyError ''source verification key is not registered'')
     | Some current \<Rightarrow>
       raise_if (tsk_key_id replacement = previous)
         (ValueError ''replacement source key must be a different key'') (
       raise_if (tsk_tenant replacement \<noteq> tsk_tenant current
           \<or> tsk_source_connector replacement \<noteq> tsk_source_connector current)
         (ValueError ''rotated source key must preserve tenant and connector binding'') (
       raise_if (tsk_state replacement \<noteq> ACTIVE) (ValueError ''replacement source key must be active'') (
       raise_if (case ts_keys st (tsk_key_id replacement) of None \<Rightarrow> False | Some k \<Rightarrow> k \<noteq> replacement)
         (ValueError ''replacement source key is registered with different policy'') (
       bindE (set_state previous VERIFY_ONLY changed_at grace st) (SourceTrustStore_add replacement))))))"

definition verify_ed25519 :: "(bytes \<Rightarrow> bytes \<Rightarrow> bytes \<Rightarrow> bool) \<Rightarrow> bytes \<Rightarrow> bytes \<Rightarrow> bytes \<Rightarrow> unit result" where
  "verify_ed25519 ed25519_ok public_key payload signature =
     raise_if (length public_key \<noteq> 32) (ProtocolError ''Ed25519 public key must be 32 bytes'') (
     raise_if (length signature \<noteq> 64) (IntegrityError ''Ed25519 signature must be 64 bytes'') (
     raise_if (\<not> ed25519_ok public_key payload signature) (IntegrityError ''signature verification failed'') (
     Inr ())))"

definition verify_record_locked ::
    "(bytes \<Rightarrow> bytes \<Rightarrow> bytes \<Rightarrow> bool) \<Rightarrow> transport_record \<Rightarrow> py_datetime \<Rightarrow> trust_store \<Rightarrow> trusted_source_key result" where
  "verify_record_locked ed25519_ok r now st =
     (case btr_authentication r of
        None \<Rightarrow> Inl (IntegrityError ''transport record has no source authentication'')
      | Some auth \<Rightarrow>
        raise_if (auth_algorithm auth \<noteq> ''ed25519'')
          (IntegrityError ''transport record uses an unsupported source signature'') (
        case ts_keys st (auth_key_id auth) of
          None \<Rightarrow> Inl (IntegrityError ''transport record source key is not trusted'')
        | Some key \<Rightarrow>
          raise_if (tsk_state key = REVOKED) (IntegrityError ''transport record source key is revoked'') (
          raise_if (tsk_tenant key \<noteq> tenant r \<or> tsk_source_connector key \<noteq> source_connector r)
            (IntegrityError ''transport source identity does not match its trusted key binding'') (
          bindE (source_authentication_bytes r (auth_key_id auth) (auth_algorithm auth)) (\<lambda>payload.
          bindE (verify_ed25519 ed25519_ok (tsk_public_key key) payload (auth_signature auth)) (\<lambda>_.
          bindE (key_utc now) (\<lambda>current.
          raise_if (case tsk_not_before key of None \<Rightarrow> False | Some nb \<Rightarrow> current < nb)
            (IntegrityError ''transport record source key is not active yet'') (
          raise_if (case tsk_not_after key of None \<Rightarrow> False | Some na \<Rightarrow> na < current)
            (IntegrityError ''transport record source key has expired'') (
          if tsk_state key = VERIFY_ONLY
          then (case (ctx_issued_at (first_context r), tsk_signing_cutoff key) of
              (Some issued, Some cutoff) \<Rightarrow>
                raise_if (cutoff < issued)
                  (IntegrityError ''transport record was issued after source key rotation'') (Inr key)
            | _ \<Rightarrow> Inl (IntegrityError ''verification-only source key requires signed issuance time''))
          else Inr key)))))))))"

text \<open>
  A verification session: \<open>enter\<close> is the entry of the context manager, \<open>leave\<close> its exit. The session
  object remembers the thread that opened it and whether it is still open.
\<close>

record verification_session =
  vs_active :: bool
  vs_owner :: nat

definition enter_session :: "nat \<Rightarrow> trust_store \<Rightarrow> trust_store \<times> verification_session" where
  "enter_session thread st =
     (st\<lparr>ts_verification_depth := ts_verification_depth st + 1\<rparr>, \<lparr>vs_active = True, vs_owner = thread\<rparr>)"

definition leave_session :: "verification_session \<Rightarrow> trust_store \<Rightarrow> trust_store \<times> verification_session" where
  "leave_session s st = (st\<lparr>ts_verification_depth := ts_verification_depth st - 1\<rparr>, s\<lparr>vs_active := False\<rparr>)"

definition session_verify :: "(bytes \<Rightarrow> bytes \<Rightarrow> bytes \<Rightarrow> bool) \<Rightarrow> nat \<Rightarrow> verification_session \<Rightarrow> transport_record \<Rightarrow>
    py_datetime \<Rightarrow> trust_store \<Rightarrow> trusted_source_key result" where
  "session_verify ed25519_ok thread s r now st =
     raise_if (\<not> vs_active s) (RuntimeError ''source trust verification session is closed'') (
     raise_if (thread \<noteq> vs_owner s)
       (RuntimeError ''source trust verification session belongs to another thread'') (
     verify_record_locked ed25519_ok r now st))"

definition verify_record :: "(bytes \<Rightarrow> bytes \<Rightarrow> bytes \<Rightarrow> bool) \<Rightarrow> nat \<Rightarrow> transport_record \<Rightarrow> py_datetime \<Rightarrow>
    trust_store \<Rightarrow> trusted_source_key result \<times> trust_store" where
  "verify_record ed25519_ok thread r now st =
     (let (st1, s) = enter_session thread st;
          res = session_verify ed25519_ok thread s r now st1;
          (st2, _) = leave_session s st1
      in (res, st2))"

section \<open>The registry's invariant\<close>

definition key_wf :: "trusted_source_key \<Rightarrow> bool" where
  "key_wf k =
     (signing_key_id (tsk_public_key k) = Inr (tsk_key_id k)
      \<and> tsk_tenant k \<noteq> [] \<and> tsk_source_connector k \<noteq> []
      \<and> pred_option time_valid (tsk_not_before k) \<and> pred_option time_valid (tsk_not_after k)
      \<and> pred_option time_valid (tsk_signing_cutoff k)
      \<and> \<not> interval_inverted (tsk_not_before k) (tsk_not_after k)
      \<and> (tsk_state k = ACTIVE \<longrightarrow> tsk_signing_cutoff k = None)
      \<and> (tsk_state k = VERIFY_ONLY \<longrightarrow> tsk_signing_cutoff k \<noteq> None \<and> tsk_not_after k \<noteq> None))"

definition store_wf :: "trust_store \<Rightarrow> bool" where
  "store_wf st = (\<forall>i k. ts_keys st i = Some k \<longrightarrow> key_wf k \<and> tsk_key_id k = i)"

lemma store_wf_depth [simp]: "store_wf (st\<lparr>ts_verification_depth := d\<rparr>) = store_wf st"
  by (simp add: store_wf_def)

lemma key_utc_Inr: "key_utc v = Inr t \<Longrightarrow> time_valid t"
  by (auto simp: key_utc_def astimezone_utc_def split: py_datetime.splits if_splits)

lemma key_utc_opt_Inr: "key_utc_opt v = Inr t \<Longrightarrow> pred_option time_valid t"
  by (auto simp: key_utc_opt_def split: option.splits dest: key_utc_Inr)

lemma key_utc_opt_aware [simp]: "pred_option time_valid t \<Longrightarrow> key_utc_opt (as_aware t) = Inr t"
  by (cases t) (simp_all add: key_utc_opt_def as_aware_def key_utc_def astimezone_utc_def)

lemma TrustedSourceKey_wf: "TrustedSourceKey pk t s state nb na i co = Inr k \<Longrightarrow> key_wf k"
  by (auto simp: TrustedSourceKey_def key_wf_def dest: key_utc_opt_Inr)

lemma add_Inr:
  "SourceTrustStore_add key st = Inr st' \<longleftrightarrow>
     ts_verification_depth st = 0 \<and> (ts_keys st (tsk_key_id key) = None \<or> ts_keys st (tsk_key_id key) = Some key)
     \<and> st' = st\<lparr>ts_keys := (ts_keys st)(tsk_key_id key \<mapsto> key)\<rparr>"
  by (auto simp: SourceTrustStore_add_def ensure_mutation_allowed_def split: option.splits)

text \<open>
  What a successful state change writes: the cutoff is kept when there is one, the deadline never
  moves later, and everything else about the key stays.
\<close>

definition validity_law :: "source_key_state \<Rightarrow> py_datetime \<Rightarrow> int \<Rightarrow> trusted_source_key \<Rightarrow> int option \<Rightarrow> int option \<Rightarrow> bool" where
  "validity_law state changed_at grace current cutoff deadline = (case state of
     ACTIVE \<Rightarrow> cutoff = None \<and> deadline = tsk_not_after current
   | REVOKED \<Rightarrow> cutoff = tsk_signing_cutoff current \<and> deadline = tsk_not_after current
   | VERIFY_ONLY \<Rightarrow> 0 < grace \<and> (\<exists>c d. cutoff = Some c \<and> deadline = Some d \<and> d \<le> c + grace
       \<and> (case tsk_signing_cutoff current of Some c' \<Rightarrow> c = c' | None \<Rightarrow> key_utc changed_at = Inr c)
       \<and> (case tsk_not_after current of Some na \<Rightarrow> d \<le> na | None \<Rightarrow> d = c + grace)))"

lemma next_validity_Inr:
  assumes "next_validity state changed_at grace current = Inr (cutoff, deadline)"
  shows "validity_law state changed_at grace current cutoff deadline"
    and "key_wf current \<Longrightarrow> pred_option time_valid cutoff \<and> pred_option time_valid deadline"
proof -
  show "validity_law state changed_at grace current cutoff deadline"
    using assms
    by (cases state; cases "tsk_not_after current"; cases "tsk_signing_cutoff current")
      (auto simp: next_validity_def validity_law_def add_delta_def split: if_splits)
  show "pred_option time_valid cutoff \<and> pred_option time_valid deadline" if "key_wf current"
    using assms that key_utc_Inr [of changed_at]
    by (cases state; cases "tsk_not_after current"; cases "tsk_signing_cutoff current")
      (auto simp: next_validity_def add_delta_def key_wf_def min_def split: if_splits,
        (metis option.pred_inject(2))+)
qed

lemma set_state_Inr:
  assumes "set_state i state changed_at grace st = Inr st'" "store_wf st"
  obtains current cutoff deadline where
    "ts_verification_depth st = 0" "ts_keys st i = Some current"
    "tsk_state current = REVOKED \<longrightarrow> state = REVOKED"
    "st' = st\<lparr>ts_keys := (ts_keys st)(i \<mapsto>
       current\<lparr>tsk_state := state, tsk_not_after := deadline, tsk_signing_cutoff := cutoff\<rparr>)\<rparr>"
    "key_wf (current\<lparr>tsk_state := state, tsk_not_after := deadline, tsk_signing_cutoff := cutoff\<rparr>)"
    "validity_law state changed_at grace current cutoff deadline"
proof -
  obtain current cutoff deadline k where *:
    "ts_verification_depth st = 0" "ts_keys st i = Some current" "tsk_state current = REVOKED \<longrightarrow> state = REVOKED"
    "next_validity state changed_at grace current = Inr (cutoff, deadline)"
    "TrustedSourceKey (tsk_public_key current) (tsk_tenant current) (tsk_source_connector current)
       state (as_aware (tsk_not_before current)) (as_aware deadline) (tsk_key_id current) (as_aware cutoff) = Inr k"
    "st' = st\<lparr>ts_keys := (ts_keys st)(i \<mapsto> k)\<rparr>"
    using assms(1) by (auto simp: set_state_def ensure_mutation_allowed_def split: option.splits)
  have "key_wf current" using assms(2) *(2) by (simp add: store_wf_def)
  then have k: "k = current\<lparr>tsk_state := state, tsk_not_after := deadline, tsk_signing_cutoff := cutoff\<rparr>"
    using *(5) next_validity_Inr(2) [OF *(4)] by (auto simp: TrustedSourceKey_def key_wf_def)
  show thesis
    using that [OF *(1,2,3)] *(6) TrustedSourceKey_wf [OF *(5)] next_validity_Inr(1) [OF *(4)] k by blast
qed

lemma set_state_wf:
  assumes "set_state i state changed_at grace st = Inr st'" "store_wf st"
  shows "store_wf st' \<and> ts_verification_depth st' = ts_verification_depth st"
proof -
  obtain current cutoff deadline where *: "ts_keys st i = Some current"
    "st' = st\<lparr>ts_keys := (ts_keys st)(i \<mapsto>
       current\<lparr>tsk_state := state, tsk_not_after := deadline, tsk_signing_cutoff := cutoff\<rparr>)\<rparr>"
    "key_wf (current\<lparr>tsk_state := state, tsk_not_after := deadline, tsk_signing_cutoff := cutoff\<rparr>)"
    using assms by (rule set_state_Inr)
  with assms(2) show ?thesis by (simp add: store_wf_def)
qed

lemma add_wf: "SourceTrustStore_add k st = Inr st' \<Longrightarrow> key_wf k \<Longrightarrow> store_wf st \<Longrightarrow>
    store_wf st' \<and> ts_verification_depth st' = ts_verification_depth st"
  by (auto simp: add_Inr store_wf_def)

lemma rotate_Inr:
  assumes "rotate previous replacement changed_at grace st = Inr st'"
  obtains current mid where "ts_keys st previous = Some current" "tsk_key_id replacement \<noteq> previous"
    "tsk_tenant replacement = tsk_tenant current" "tsk_source_connector replacement = tsk_source_connector current"
    "tsk_state replacement = ACTIVE"
    "set_state previous VERIFY_ONLY changed_at grace st = Inr mid" "SourceTrustStore_add replacement mid = Inr st'"
  using assms by (auto simp: rotate_def ensure_mutation_allowed_def split: option.splits)

text \<open>The registry as a state machine: everything that can happen to it.\<close>

inductive registry_step :: "trust_store \<Rightarrow> trust_store \<Rightarrow> bool" where
  step_add: "key_wf k \<Longrightarrow> SourceTrustStore_add k st = Inr st' \<Longrightarrow> registry_step st st'"
| step_set_state: "set_state i state changed_at grace st = Inr st' \<Longrightarrow> registry_step st st'"
| step_revoke: "revoke i now st = Inr st' \<Longrightarrow> registry_step st st'"
| step_rotate: "key_wf k \<Longrightarrow> rotate i k changed_at grace st = Inr st' \<Longrightarrow> registry_step st st'"
| step_enter: "registry_step st (fst (enter_session thread st))"
| step_leave: "0 < ts_verification_depth st \<Longrightarrow> registry_step st (fst (leave_session s st))"
| step_verify: "registry_step st (snd (verify_record ed25519_ok thread r now st))"

lemma verify_record_store [simp]: "snd (verify_record ok thread r now st) = st"
  by (simp add: verify_record_def enter_session_def leave_session_def)

lemma registry_step_wf: "registry_step st st' \<Longrightarrow> store_wf st \<Longrightarrow> store_wf st'"
proof (induction rule: registry_step.induct)
  case (step_rotate k i changed_at grace st st')
  from step_rotate(2) obtain mid where "set_state i VERIFY_ONLY changed_at grace st = Inr mid"
    "SourceTrustStore_add k mid = Inr st'" by (rule rotate_Inr)
  with step_rotate(1,3) show ?case using set_state_wf add_wf by blast
qed (auto simp: revoke_def enter_session_def leave_session_def dest: set_state_wf add_wf)

section \<open>Properties\<close>

lemma revoked_step:
  assumes "registry_step st st'" "store_wf st" "ts_keys st i = Some k" "tsk_state k = REVOKED"
  shows "\<exists>k'. ts_keys st' i = Some k' \<and> tsk_state k' = REVOKED"
proof -
  have set: "\<exists>k'. ts_keys s' i = Some k' \<and> tsk_state k' = REVOKED"
    if "set_state j state c g s = Inr s'" "store_wf s" "ts_keys s i = Some k" for j state c g s s'
    using that(1,2)
  proof (rule set_state_Inr)
    fix current cutoff deadline
    assume "ts_keys s j = Some current" "tsk_state current = REVOKED \<longrightarrow> state = REVOKED"
      "s' = s\<lparr>ts_keys := (ts_keys s)(j \<mapsto>
         current\<lparr>tsk_state := state, tsk_not_after := deadline, tsk_signing_cutoff := cutoff\<rparr>)\<rparr>"
    with that(3) assms(4) show ?thesis by (cases "i = j") simp_all
  qed
  have add: "\<exists>k'. ts_keys s' i = Some k' \<and> tsk_state k' = REVOKED"
    if "SourceTrustStore_add x s = Inr s'" "ts_keys s i = Some k'" "tsk_state k' = REVOKED" for x s s' k'
    using that by (auto simp: add_Inr)
  show ?thesis
    using assms(1)
  proof cases
    case (step_rotate x j c g)
    from step_rotate(2) obtain mid where "set_state j VERIFY_ONLY c g st = Inr mid" "SourceTrustStore_add x mid = Inr st'"
      by (rule rotate_Inr)
    with set [OF _ assms(2,3)] add show ?thesis by blast
  qed (use set [OF _ assms(2,3)] add [OF _ assms(3,4)] assms(3,4) in
      \<open>auto simp: revoke_def enter_session_def leave_session_def\<close>)
qed

lemma revoked_steps:
  assumes "registry_step\<^sup>*\<^sup>* st st'" "store_wf st" "ts_keys st i = Some k" "tsk_state k = REVOKED"
  shows "store_wf st' \<and> (\<exists>k'. ts_keys st' i = Some k' \<and> tsk_state k' = REVOKED)"
  using assms(1)
proof induction
  case (step y z)
  then show ?case using registry_step_wf revoked_step by blast
qed (use assms(2-4) in blast)

text \<open>
  C32. Revocation is final: whatever sequence of additions, state changes, rotations, sessions and
  verifications follows, no record that names the revoked key is verified again.
\<close>

theorem revocation_is_final:
  assumes "store_wf st" "ts_keys st (auth_key_id a) = Some k" "tsk_state k = REVOKED"
    and "registry_step\<^sup>*\<^sup>* st st'" "btr_authentication r = Some a"
  shows "\<exists>e. verify_record_locked ed25519_ok r now st' = Inl e"
  using revoked_steps [OF assms(4,1,2,3)] assms(5)
  by (auto simp: verify_record_locked_def raise_if_def)

text \<open>
  While a verification session is open every mutator of the registry raises, and leaving the
  session restores the registry exactly, so a verification and the commit that follows it see one
  key state.
\<close>

theorem session_fences_registry:
  assumes "enter_session thread st = (st1, s)"
  shows "ts_keys st1 = ts_keys st
    \<and> fst (leave_session s st1) = st
    \<and> (\<exists>e. SourceTrustStore_add k st1 = Inl e) \<and> (\<exists>e. set_state i state c g st1 = Inl e)
    \<and> (\<exists>e. revoke i c st1 = Inl e) \<and> (\<exists>e. rotate i k c g st1 = Inl e)
    \<and> (thread' \<noteq> thread \<longrightarrow> (\<exists>e. session_verify ed25519_ok thread' s r now st1 = Inl e))
    \<and> (\<exists>e. session_verify ed25519_ok thread (snd (leave_session s st1)) r now st1 = Inl e)"
proof -
  have "st1 = st\<lparr>ts_verification_depth := ts_verification_depth st + 1\<rparr>" "s = \<lparr>vs_active = True, vs_owner = thread\<rparr>"
    using assms by (simp_all add: enter_session_def)
  then show ?thesis
    by (simp add: leave_session_def SourceTrustStore_add_def set_state_def revoke_def rotate_def
        ensure_mutation_allowed_def session_verify_def)
qed

lemma verify_record_locked_Inr:
  "verify_record_locked ok r now st = Inr key \<longleftrightarrow>
     (\<exists>auth msg current. btr_authentication r = Some auth \<and> auth_algorithm auth = ''ed25519''
       \<and> ts_keys st (auth_key_id auth) = Some key \<and> tsk_state key \<noteq> REVOKED
       \<and> tsk_tenant key = tenant r \<and> tsk_source_connector key = source_connector r
       \<and> source_authentication_bytes r (auth_key_id auth) ''ed25519'' = Inr msg
       \<and> length (tsk_public_key key) = 32 \<and> length (auth_signature auth) = 64
       \<and> ok (tsk_public_key key) msg (auth_signature auth)
       \<and> key_utc now = Inr current
       \<and> (\<forall>nb. tsk_not_before key = Some nb \<longrightarrow> nb \<le> current)
       \<and> (\<forall>na. tsk_not_after key = Some na \<longrightarrow> current \<le> na)
       \<and> (tsk_state key = VERIFY_ONLY \<longrightarrow>
            (\<exists>issued cutoff. ctx_issued_at (first_context r) = Some issued
               \<and> tsk_signing_cutoff key = Some cutoff \<and> issued \<le> cutoff)))"
  (is "?l \<longleftrightarrow> ?r")
proof
  assume ?l
  then show ?r
    by (auto simp: verify_record_locked_def verify_ed25519_def split: option.splits if_splits)
next
  assume ?r
  then obtain auth msg current where *: "btr_authentication r = Some auth" "auth_algorithm auth = ''ed25519''"
    "ts_keys st (auth_key_id auth) = Some key" "tsk_state key \<noteq> REVOKED"
    "tsk_tenant key = tenant r" "tsk_source_connector key = source_connector r"
    "source_authentication_bytes r (auth_key_id auth) ''ed25519'' = Inr msg"
    "length (tsk_public_key key) = 32" "length (auth_signature auth) = 64"
    "ok (tsk_public_key key) msg (auth_signature auth)" "key_utc now = Inr current"
    "\<not> (case tsk_not_before key of None \<Rightarrow> False | Some nb \<Rightarrow> current < nb)"
    "\<not> (case tsk_not_after key of None \<Rightarrow> False | Some na \<Rightarrow> na < current)"
    "tsk_state key = VERIFY_ONLY \<longrightarrow> (\<exists>issued cutoff. ctx_issued_at (first_context r) = Some issued
       \<and> tsk_signing_cutoff key = Some cutoff \<and> issued \<le> cutoff)"
    by (fastforce split: option.splits)
  then show ?l by (auto simp: verify_record_locked_def verify_ed25519_def)
qed

lemma verify_record_eq: "verify_record ok thread r now st = (verify_record_locked ok r now st, st)"
proof -
  have "verify_record_locked ok r now (st\<lparr>ts_verification_depth := d\<rparr>) = verify_record_locked ok r now st" for d
  proof -
    have "ts_keys (st\<lparr>ts_verification_depth := d\<rparr>) = ts_keys st" by simp
    then show ?thesis unfolding verify_record_locked_def by (simp only:)
  qed
  then show ?thesis by (simp add: verify_record_def enter_session_def leave_session_def session_verify_def)
qed

text \<open>A registry with one active key and the record it signed, under a verifier that accepts one signature.\<close>

definition sample_public_key :: bytes where
  "sample_public_key = replicate 32 CHR ''p''"

definition sample_key :: "source_key_state \<Rightarrow> trusted_source_key" where
  "sample_key state = \<lparr>tsk_public_key = sample_public_key, tsk_tenant = ''acme'', tsk_source_connector = ''crm'',
     tsk_state = state, tsk_not_before = None, tsk_not_after = None,
     tsk_key_id = sha256_hex sample_public_key, tsk_signing_cutoff = None\<rparr>"

definition sample_store :: "source_key_state \<Rightarrow> trust_store" where
  "sample_store state = \<lparr>ts_keys = [sha256_hex sample_public_key \<mapsto> sample_key state], ts_verification_depth = 0\<rparr>"

definition sample_authentication :: record_authentication where
  "sample_authentication = \<lparr>auth_key_id = sha256_hex sample_public_key, auth_signature = replicate 64 CHR ''s'',
     auth_algorithm = ''ed25519''\<rparr>"

definition sample_signed :: transport_record where
  "sample_signed = sample_record\<lparr>btr_authentication := Some sample_authentication\<rparr>"

lemma sample_key_wf: "state \<noteq> VERIFY_ONLY \<Longrightarrow> key_wf (sample_key state)"
  by (simp add: key_wf_def sample_key_def signing_key_id_def sample_public_key_def interval_inverted_def)

lemma sample_store_wf: "state \<noteq> VERIFY_ONLY \<Longrightarrow> store_wf (sample_store state)"
  using sample_key_wf by (simp add: store_wf_def sample_store_def) (simp add: sample_key_def)

theorem revocation_is_final_witness:
  "\<exists>e. verify_record_locked (\<lambda>_ _ _. True) sample_signed (Aware 0 0) (sample_store REVOKED) = Inl e"
proof (rule revocation_is_final [where a = sample_authentication and k = "sample_key REVOKED" and st = "sample_store REVOKED"])
  show "store_wf (sample_store REVOKED)" by (simp add: sample_store_wf)
  show "ts_keys (sample_store REVOKED) (auth_key_id sample_authentication) = Some (sample_key REVOKED)"
    by (simp add: sample_store_def sample_authentication_def)
  show "tsk_state (sample_key REVOKED) = REVOKED" by (simp add: sample_key_def)
  show "registry_step\<^sup>*\<^sup>* (sample_store REVOKED) (sample_store REVOKED)" by simp
  show "btr_authentication sample_signed = Some sample_authentication" by (simp add: sample_signed_def)
qed

theorem session_fences_registry_witness:
  "fst (leave_session (snd (enter_session 7 (sample_store ACTIVE))) (fst (enter_session 7 (sample_store ACTIVE))))
     = sample_store ACTIVE"
  using session_fences_registry [where thread = 7 and st = "sample_store ACTIVE"]
  by (metis prod.collapse)

text \<open>
  C31. A record is verified exactly when its signature is valid for the registered, unrevoked key it
  names over its own authentication bytes, the key is bound to the record's tenant and source, the
  clock is inside the key's validity interval and, for a rotated key, the record was issued no later than
  the signing cutoff. Verification does not change the registry.
\<close>

theorem verify_record_iff:
  "verify_record ed25519_ok thread r now st = (Inr key, st) \<longleftrightarrow>
     (\<exists>auth msg current. btr_authentication r = Some auth \<and> auth_algorithm auth = ''ed25519''
       \<and> ts_keys st (auth_key_id auth) = Some key \<and> tsk_state key \<noteq> REVOKED
       \<and> tsk_tenant key = tenant r \<and> tsk_source_connector key = source_connector r
       \<and> source_authentication_bytes r (auth_key_id auth) ''ed25519'' = Inr msg
       \<and> length (tsk_public_key key) = 32 \<and> length (auth_signature auth) = 64
       \<and> ed25519_ok (tsk_public_key key) msg (auth_signature auth)
       \<and> key_utc now = Inr current
       \<and> (\<forall>nb. tsk_not_before key = Some nb \<longrightarrow> nb \<le> current)
       \<and> (\<forall>na. tsk_not_after key = Some na \<longrightarrow> current \<le> na)
       \<and> (tsk_state key = VERIFY_ONLY \<longrightarrow>
            (\<exists>issued cutoff. ctx_issued_at (first_context r) = Some issued
               \<and> tsk_signing_cutoff key = Some cutoff \<and> issued \<le> cutoff)))"
  unfolding verify_record_eq verify_record_locked_Inr [symmetric] by simp

lemma sample_signed_context: "first_context sample_signed = sample_context"
  using sample_first_context by (simp add: first_context_def sample_signed_def)

lemma sample_signed_bytes: "\<exists>m. source_authentication_bytes sample_signed key_id algorithm = Inr m"
  by (simp add: source_authentication_bytes_def protocol_version_def sample_signed_context sample_context_def)

lemma sample_signed_bound:
  "btr_authentication sample_signed = Some sample_authentication"
  "tsk_tenant (sample_key ACTIVE) = tenant sample_signed"
  "tsk_source_connector (sample_key ACTIVE) = source_connector sample_signed"
  "key_utc (Aware 0 0) = Inr 0"
  by (simp_all add: sample_signed_def tenant_def source_connector_def sample_signed_context [unfolded sample_signed_def]
      sample_key_def sample_context_def key_utc_def astimezone_utc_def time_valid_def day_us_def)

lemma sample_verified:
  assumes "ts_keys st = ts_keys (sample_store ACTIVE)"
  shows "verify_record_locked (\<lambda>_ _ _. True) sample_signed (Aware 0 0) st = Inr (sample_key ACTIVE)"
proof -
  obtain m where "source_authentication_bytes sample_signed (auth_key_id sample_authentication) ''ed25519'' = Inr m"
    using sample_signed_bytes by blast
  then show ?thesis unfolding verify_record_locked_Inr
    using sample_signed_bound assms
    by (intro exI [of _ sample_authentication] exI [of _ m] exI [of _ 0])
      (simp_all add: sample_authentication_def sample_store_def, simp_all add: sample_key_def sample_public_key_def)
qed

theorem verify_record_iff_witness:
  "verify_record (\<lambda>_ _ _. True) 0 sample_signed (Aware 0 0) (sample_store ACTIVE) = (Inr (sample_key ACTIVE), sample_store ACTIVE)"
proof -
  obtain m where m: "source_authentication_bytes sample_signed (auth_key_id sample_authentication) ''ed25519'' = Inr m"
    using sample_signed_bytes by blast
  show ?thesis
  proof (rule verify_record_iff [THEN iffD2], intro exI conjI)
    show "source_authentication_bytes sample_signed (auth_key_id sample_authentication) ''ed25519'' = Inr m" by (rule m)
  qed (rule sample_signed_bound | simp add: sample_authentication_def sample_store_def sample_key_def sample_public_key_def)+
qed

lemma verified_cutoff:
  assumes "verify_record_locked ok r now st = Inr key" "tsk_state key = VERIFY_ONLY"
    "ctx_issued_at (first_context r) = Some t" "tsk_signing_cutoff key = Some c"
  shows "t \<le> c"
  using assms by (auto simp: verify_record_locked_Inr)

text \<open>
  Rotation registers the replacement as an active key of the same tenant and source, leaves the
  previous key able to verify only until a deadline no later than its old one and no later than the
  cutoff plus the grace period, keeps a cutoff the key already had, rejects every record the previous
  key signed after the cutoff, and changes no other key.
\<close>

theorem rotation_cuts_off:
  assumes "store_wf st"
    and "rotate previous replacement changed_at grace st = Inr st'"
  shows "\<exists>current old c d. ts_keys st previous = Some current \<and> ts_keys st' previous = Some old
    \<and> ts_keys st' (tsk_key_id replacement) = Some replacement
    \<and> tsk_tenant replacement = tsk_tenant old \<and> tsk_source_connector replacement = tsk_source_connector old
    \<and> tsk_state old = VERIFY_ONLY \<and> tsk_signing_cutoff old = Some c \<and> tsk_not_after old = Some d
    \<and> d \<le> c + grace \<and> (\<forall>na. tsk_not_after current = Some na \<longrightarrow> d \<le> na)
    \<and> (\<forall>c'. tsk_signing_cutoff current = Some c' \<longrightarrow> c = c')
    \<and> (\<forall>i. i \<noteq> previous \<and> i \<noteq> tsk_key_id replacement \<longrightarrow> ts_keys st' i = ts_keys st i)
    \<and> (\<forall>r ed25519_ok now t. ctx_issued_at (first_context r) = Some t \<and> c < t \<longrightarrow>
         verify_record_locked ed25519_ok r now st' \<noteq> Inr old)"
proof -
  obtain current mid where r: "ts_keys st previous = Some current" "tsk_key_id replacement \<noteq> previous"
    "tsk_tenant replacement = tsk_tenant current" "tsk_source_connector replacement = tsk_source_connector current"
    "set_state previous VERIFY_ONLY changed_at grace st = Inr mid" "SourceTrustStore_add replacement mid = Inr st'"
    using assms(2) by (rule rotate_Inr)
  obtain cur cutoff deadline where "ts_keys st previous = Some cur" and m: "mid = st\<lparr>ts_keys := (ts_keys st)(previous \<mapsto>
       cur\<lparr>tsk_state := VERIFY_ONLY, tsk_not_after := deadline, tsk_signing_cutoff := cutoff\<rparr>)\<rparr>"
    "validity_law VERIFY_ONLY changed_at grace cur cutoff deadline"
    using r(5) assms(1) by (rule set_state_Inr)
  then have cur: "cur = current" using r(1) by simp
  obtain c d where cd: "cutoff = Some c" "deadline = Some d" "d \<le> c + grace"
    "\<forall>c'. tsk_signing_cutoff current = Some c' \<longrightarrow> c = c'" "\<forall>na. tsk_not_after current = Some na \<longrightarrow> d \<le> na"
    using m(2) by (fastforce simp: validity_law_def cur)
  let ?old = "current\<lparr>tsk_state := VERIFY_ONLY, tsk_not_after := Some d, tsk_signing_cutoff := Some c\<rparr>"
  have "ts_keys st' = (ts_keys st)(previous \<mapsto> ?old, tsk_key_id replacement \<mapsto> replacement)"
    using r(6) m(1) cd by (simp add: add_Inr cur)
  moreover have "verify_record_locked ok q now st' \<noteq> Inr ?old"
    if "ctx_issued_at (first_context q) = Some t" "c < t" for ok q now t
    using verified_cutoff [of ok q now st' ?old t c] that by auto
  ultimately show ?thesis
    using r cd by (intro exI [of _ current] exI [of _ ?old] exI [of _ c] exI [of _ d]) simp
qed

text \<open>Rotating the sample key at time 5 with a grace of 10 microseconds.\<close>

definition sample_replacement :: trusted_source_key where
  "sample_replacement = (sample_key ACTIVE)\<lparr>tsk_key_id := ''replacement''\<rparr>"

lemma sample_rotation:
  "\<exists>st'. rotate (sha256_hex sample_public_key) sample_replacement (Aware 5 0) 10 (sample_store ACTIVE) = Inr st'"
proof -
  have "length (sha256_hex sample_public_key) = 64" using sha256_hex_lower by (simp add: lower_hex_def)
  moreover have "length ''replacement'' \<noteq> 64" by simp
  ultimately have "''replacement'' \<noteq> sha256_hex sample_public_key" by metis
  moreover have "time_valid 5" "time_valid 15" by (simp_all add: time_valid_def day_us_def)
  ultimately show ?thesis
    by (simp add: rotate_def set_state_def next_validity_def SourceTrustStore_add_def ensure_mutation_allowed_def
        sample_store_def sample_replacement_def sample_key_def key_utc_def astimezone_utc_def add_delta_def
        TrustedSourceKey_def signing_key_id_def sample_public_key_def key_utc_opt_def as_aware_def
        interval_inverted_def raise_if_def)
qed

theorem rotation_cuts_off_witness:
  "\<exists>st' old c. rotate (sha256_hex sample_public_key) sample_replacement (Aware 5 0) 10 (sample_store ACTIVE) = Inr st'
     \<and> ts_keys st' (sha256_hex sample_public_key) = Some old \<and> tsk_signing_cutoff old = Some c
     \<and> tsk_state old = VERIFY_ONLY"
proof -
  obtain st' where st': "rotate (sha256_hex sample_public_key) sample_replacement (Aware 5 0) 10 (sample_store ACTIVE) = Inr st'"
    using sample_rotation by blast
  have "store_wf (sample_store ACTIVE)" by (simp add: sample_store_wf)
  from rotation_cuts_off [OF this st'] st' show ?thesis by blast
qed

subsection \<open>The signing cutoff\<close>












end
