(* ===== verification/Capabilities.thy ===== *)
theory Capabilities
  imports Signing
begin

text \<open>
  Capability grants (\<open>capabilities.py\<close>): what a grant allows, its canonical bytes, its signature, its wire
  form, and the authorizer a runtime consults. The Ed25519 primitive is an argument, the clock reading too.
\<close>

datatype capability_operation = READ_SCHEMA | READ_RECORDS | WRITE_RECORDS | REPLAY | FORCE_UNCERTAIN_REPLAY

fun operation_value :: "capability_operation \<Rightarrow> string" where
  "operation_value READ_SCHEMA = ''read_schema''"
| "operation_value READ_RECORDS = ''read_records''"
| "operation_value WRITE_RECORDS = ''write_records''"
| "operation_value REPLAY = ''replay''"
| "operation_value FORCE_UNCERTAIN_REPLAY = ''force_uncertain_replay''"

definition all_operations :: "capability_operation list" where
  "all_operations = [READ_SCHEMA, READ_RECORDS, WRITE_RECORDS, REPLAY, FORCE_UNCERTAIN_REPLAY]"

definition parse_operation :: "json \<Rightarrow> capability_operation result" where
  "parse_operation j = (case j of
     JStr s \<Rightarrow> (case find (\<lambda>o'. operation_value o' = s) all_operations of
        Some o' \<Rightarrow> Inr o' | None \<Rightarrow> Inl (ValueError ''not a valid CapabilityOperation''))
   | _ \<Rightarrow> Inl (ValueError ''not a valid CapabilityOperation''))"

text \<open>Naive datetimes are read as UTC here, unlike in the transfer contexts.\<close>

definition cap_utc :: "py_datetime \<Rightarrow> int result" where
  "cap_utc v = (case v of Naive t \<Rightarrow> Inr t | Aware t off \<Rightarrow> astimezone_utc t off)"

record capability_grant =
  cg_id :: string
  cg_issuer :: string
  cg_subject :: string
  cg_tenant :: string
  cg_connector_id :: string
  cg_operations :: "capability_operation list"
  cg_allowed_plan_digests :: "string list"
  cg_issued_at :: py_datetime
  cg_expires_at :: py_datetime
  cg_protocol_version :: int

text \<open>\<open>sorted(set(xs))\<close>\<close>

definition sorted_set :: "string list \<Rightarrow> string list" where
  "sorted_set xs = sort (remdups xs)"

definition grant_canonical_dict :: "capability_grant \<Rightarrow> (string \<times> json) list result" where
  "grant_canonical_dict g =
     bindE (cap_utc (cg_expires_at g)) (\<lambda>expires.
     bindE (cap_utc (cg_issued_at g)) (\<lambda>issued.
     Inr [(''allowed_plan_digests'', JArr (map JStr (sorted_set (cg_allowed_plan_digests g)))),
      (''connector_id'', JStr (cg_connector_id g)),
      (''expires_at'', JStr (isoformat expires)),
      (''id'', JStr (cg_id g)),
      (''issued_at'', JStr (isoformat issued)),
      (''issuer'', JStr (cg_issuer g)),
      (''operations'', JArr (map JStr (sorted_set (map operation_value (cg_operations g))))),
      (''protocol_version'', JInt (cg_protocol_version g)),
      (''subject'', JStr (cg_subject g)),
      (''tenant'', JStr (cg_tenant g))]))"

definition grant_canonical_bytes :: "capability_grant \<Rightarrow> bytes result" where
  "grant_canonical_bytes g = bindE (grant_canonical_dict g) (\<lambda>d. Inr (json_encode (JObj d)))"

text \<open>\<open>issue\<close>: \<open>uuid\<close> is the fresh identifier and \<open>now\<close> the clock reading.\<close>

definition issue :: "string \<Rightarrow> int \<Rightarrow> string \<Rightarrow> string \<Rightarrow> string \<Rightarrow> string \<Rightarrow> capability_operation list \<Rightarrow> string list \<Rightarrow> int \<Rightarrow>
    capability_grant result" where
  "issue uuid now issuer subject tnt connector operations plans ttl =
     bindE (add_delta now ttl) (\<lambda>expires.
     Inr \<lparr>cg_id = uuid, cg_issuer = issuer, cg_subject = subject, cg_tenant = tnt, cg_connector_id = connector,
          cg_operations = operations, cg_allowed_plan_digests = plans, cg_issued_at = Aware now 0,
          cg_expires_at = Aware expires 0, cg_protocol_version = 1\<rparr>)"

definition grant_authorize :: "capability_grant \<Rightarrow> capability_operation \<Rightarrow> string \<Rightarrow> string \<Rightarrow> string \<Rightarrow> string option \<Rightarrow>
    py_datetime \<Rightarrow> unit result" where
  "grant_authorize g operation subject tnt connector plan now =
     bindE (cap_utc now) (\<lambda>current.
     raise_if (cg_protocol_version g \<noteq> 1) (PolicyViolation ''unsupported capability protocol version'') (
     bindE (cap_utc (cg_issued_at g)) (\<lambda>issued.
     if current < issued then Inl (PolicyViolation ''capability grant is outside its validity window'') else
     bindE (cap_utc (cg_expires_at g)) (\<lambda>expires.
     raise_if (expires < current) (PolicyViolation ''capability grant is outside its validity window'') (
     raise_if (cg_subject g \<noteq> subject) (PolicyViolation ''capability subject mismatch'') (
     raise_if (cg_tenant g \<noteq> tnt) (PolicyViolation ''capability tenant mismatch'') (
     raise_if (cg_connector_id g \<noteq> connector) (PolicyViolation ''capability connector mismatch'') (
     raise_if (operation \<notin> set (cg_operations g))
       (PolicyViolation (''capability does not allow '' @ operation_value operation)) (
     raise_if (cg_allowed_plan_digests g \<noteq> []
         \<and> (case plan of None \<Rightarrow> True | Some p \<Rightarrow> p \<notin> set (cg_allowed_plan_digests g)))
       (PolicyViolation ''mapping plan is outside capability scope'') (Inr ()))))))))))"

record signed_capability_grant =
  sg_grant :: capability_grant
  sg_signature :: bytes

definition sign_grant :: "(bytes \<Rightarrow> bytes) \<Rightarrow> capability_grant \<Rightarrow> signed_capability_grant result" where
  "sign_grant sign g = bindE (grant_canonical_bytes g) (\<lambda>b. Inr \<lparr>sg_grant = g, sg_signature = sign b\<rparr>)"

definition verify_grant :: "(bytes \<Rightarrow> bytes \<Rightarrow> bytes \<Rightarrow> bool) \<Rightarrow> bytes \<Rightarrow> string option \<Rightarrow> signed_capability_grant \<Rightarrow> unit result" where
  "verify_grant ed25519_ok public_key expected_issuer sg =
     bindE (grant_canonical_bytes (sg_grant sg)) (\<lambda>b.
     bindE (verify_ed25519 ed25519_ok public_key b (sg_signature sg)) (\<lambda>_.
     raise_if (case expected_issuer of None \<Rightarrow> False | Some i \<Rightarrow> cg_issuer (sg_grant sg) \<noteq> i)
       (PolicyViolation ''capability issuer is not trusted'') (Inr ())))"

definition grant_to_wire :: "signed_capability_grant \<Rightarrow> (string \<times> json) list result" where
  "grant_to_wire sg = bindE (grant_canonical_dict (sg_grant sg)) (\<lambda>d.
     Inr [(''grant'', JObj d), (''signature'', JStr (b64_encode (sg_signature sg)))])"

text \<open>Iterating over a decoded JSON value: a list, the characters of a string, or the keys of a dict.\<close>

definition py_iter :: "json \<Rightarrow> json list result" where
  "py_iter j = (case j of
     JArr xs \<Rightarrow> Inr xs
   | JStr s \<Rightarrow> Inr (map (\<lambda>c. JStr [c]) s)
   | JObj kvs \<Rightarrow> Inr (map (\<lambda>(k, _). JStr k) kvs)
   | _ \<Rightarrow> Inl (TypeError ''object is not iterable''))"

definition wire_time :: "string \<Rightarrow> (string \<times> json) list \<Rightarrow> py_datetime result" where
  "wire_time k raw = bindE (item k raw) (\<lambda>j. case fromisoformat (py_str j) of
     None \<Rightarrow> Inl (ValueError ''Invalid isoformat string'') | Some d \<Rightarrow> Inr d)"

definition grant_from_wire :: "(string \<times> json) list \<Rightarrow> signed_capability_grant result" where
  "grant_from_wire payload =
     bindE (item ''grant'' payload) (\<lambda>raw_payload. case raw_payload of
       JObj raw \<Rightarrow>
         bindE (py_iter (get_default (JArr []) ''operations'' raw)) (\<lambda>raw_operations.
         bindE (mapE parse_operation raw_operations) (\<lambda>operations.
         bindE (item ''id'' raw) (\<lambda>gid.
         bindE (item ''issuer'' raw) (\<lambda>issuer.
         bindE (item ''subject'' raw) (\<lambda>subject.
         bindE (item ''tenant'' raw) (\<lambda>tnt.
         bindE (item ''connector_id'' raw) (\<lambda>connector.
         bindE (py_iter (get_default (JArr []) ''allowed_plan_digests'' raw)) (\<lambda>plans.
         bindE (wire_time ''issued_at'' raw) (\<lambda>issued.
         bindE (wire_time ''expires_at'' raw) (\<lambda>expires.
         case py_int (py_str (get_default (JInt 1) ''protocol_version'' raw)) of
           None \<Rightarrow> Inl (ValueError ''invalid literal for int()'')
         | Some version \<Rightarrow>
             (case map_of payload ''signature'' of
                None \<Rightarrow> Inl (ProtocolError ''invalid capability signature encoding'')
              | Some s \<Rightarrow> (case b64_decode (py_str s) of
                  None \<Rightarrow> Inl (ProtocolError ''invalid capability signature encoding'')
                | Some sig \<Rightarrow> Inr \<lparr>sg_grant = \<lparr>cg_id = py_str gid, cg_issuer = py_str issuer, cg_subject = py_str subject,
                      cg_tenant = py_str tnt, cg_connector_id = py_str connector, cg_operations = operations,
                      cg_allowed_plan_digests = map py_str plans, cg_issued_at = issued, cg_expires_at = expires,
                      cg_protocol_version = version\<rparr>, sg_signature = sig\<rparr>))))))))))))
     | _ \<Rightarrow> Inl (ProtocolError ''capability grant must be an object''))"

record capability_authorizer =
  ca_signed_grant :: signed_capability_grant
  ca_trusted_public_key :: bytes
  ca_subject :: string
  ca_expected_issuer :: "string option"

definition authorizer_authorize :: "(bytes \<Rightarrow> bytes \<Rightarrow> bytes \<Rightarrow> bool) \<Rightarrow> capability_authorizer \<Rightarrow> capability_operation \<Rightarrow>
    string \<Rightarrow> string \<Rightarrow> string option \<Rightarrow> int \<Rightarrow> unit result" where
  "authorizer_authorize ed25519_ok a operation tnt connector plan now =
     bindE (verify_grant ed25519_ok (ca_trusted_public_key a) (ca_expected_issuer a) (ca_signed_grant a)) (\<lambda>_.
     grant_authorize (sg_grant (ca_signed_grant a)) operation (ca_subject a) tnt connector plan (Aware now 0))"

section \<open>Properties\<close>

lemma operation_value_inject [simp]: "operation_value a = operation_value b \<longleftrightarrow> a = b"
  by (cases a; cases b) simp_all

lemma parse_operation_value [simp]: "parse_operation (JStr (operation_value a)) = Inr a"
  by (cases a) (simp_all add: parse_operation_def all_operations_def)

lemma set_sorted_set [simp]: "set (sorted_set xs) = set xs"
  by (simp add: sorted_set_def)

lemma sorted_set_Nil [simp]: "sorted_set xs = [] \<longleftrightarrow> xs = []"
  by (metis set_empty set_sorted_set)

lemma sorted_set_eq: "set xs = set ys \<Longrightarrow> sorted_set xs = sorted_set ys"
  unfolding sorted_set_def by (metis sorted_list_of_set_sort_remdups)

text \<open>
  C37. An authorizer lets an operation through exactly when the grant's signature over its canonical bytes
  verifies under the trusted key, its issuer is the expected one, its version is 1, the time lies in its validity
  window, and subject, tenant, connector, operation and mapping plan are within its scope.
\<close>

theorem authorizer_iff:
  "authorizer_authorize ok a operation tnt connector plan now = Inr () \<longleftrightarrow>
     (\<exists>b issued expires. grant_canonical_bytes (sg_grant (ca_signed_grant a)) = Inr b
        \<and> length (ca_trusted_public_key a) = 32 \<and> length (sg_signature (ca_signed_grant a)) = 64
        \<and> ok (ca_trusted_public_key a) b (sg_signature (ca_signed_grant a))
        \<and> (ca_expected_issuer a = None \<or> ca_expected_issuer a = Some (cg_issuer (sg_grant (ca_signed_grant a))))
        \<and> cg_protocol_version (sg_grant (ca_signed_grant a)) = 1 \<and> time_valid now
        \<and> cap_utc (cg_issued_at (sg_grant (ca_signed_grant a))) = Inr issued \<and> issued \<le> now
        \<and> cap_utc (cg_expires_at (sg_grant (ca_signed_grant a))) = Inr expires \<and> now \<le> expires
        \<and> cg_subject (sg_grant (ca_signed_grant a)) = ca_subject a \<and> cg_tenant (sg_grant (ca_signed_grant a)) = tnt
        \<and> cg_connector_id (sg_grant (ca_signed_grant a)) = connector
        \<and> operation \<in> set (cg_operations (sg_grant (ca_signed_grant a)))
        \<and> (cg_allowed_plan_digests (sg_grant (ca_signed_grant a)) = []
            \<or> (\<exists>p. plan = Some p \<and> p \<in> set (cg_allowed_plan_digests (sg_grant (ca_signed_grant a))))))"
  by (auto simp: authorizer_authorize_def verify_grant_def verify_ed25519_def grant_authorize_def cap_utc_def [of "Aware now 0"]
      astimezone_utc_def not_less split: option.splits)

subsection \<open>The wire form\<close>

text \<open>The grant a receiver reads: what the canonical form keeps of the issuer's grant.\<close>

definition normal_grant :: "capability_grant \<Rightarrow> int \<Rightarrow> int \<Rightarrow> capability_grant" where
  "normal_grant g issued expires = g\<lparr>
     cg_operations := map (\<lambda>s. the (find (\<lambda>o'. operation_value o' = s) all_operations)) (sorted_set (map operation_value (cg_operations g))),
     cg_allowed_plan_digests := sorted_set (cg_allowed_plan_digests g),
     cg_issued_at := Aware issued 0, cg_expires_at := Aware expires 0\<rparr>"

lemma find_operation: "find (\<lambda>o'. operation_value o' = operation_value a) all_operations = Some a"
  by (cases a) (simp_all add: all_operations_def)

lemma find_self [simp]: "find (\<lambda>o'. o' = a) all_operations = Some a"
  by (cases a) (simp_all add: all_operations_def)

lemma parse_operations:
  assumes "set ss \<subseteq> range operation_value"
  shows "mapE parse_operation (map JStr ss) = Inr (map (\<lambda>s. the (find (\<lambda>o'. operation_value o' = s) all_operations)) ss)"
  using assms by (induction ss) (auto simp: find_operation)

lemma normal_operations: "set (cg_operations (normal_grant g i e)) = set (cg_operations g)"
proof -
  have "(\<lambda>s. the (find (\<lambda>o'. operation_value o' = s) all_operations)) ` operation_value ` set (cg_operations g) = set (cg_operations g)"
    by (simp add: image_image find_operation)
  then show ?thesis by (simp add: normal_grant_def)
qed

lemma normal_grant_sel [simp]:
  "cg_issued_at (normal_grant g i e) = Aware i 0" "cg_expires_at (normal_grant g i e) = Aware e 0"
  "cg_subject (normal_grant g i e) = cg_subject g" "cg_tenant (normal_grant g i e) = cg_tenant g"
  "cg_connector_id (normal_grant g i e) = cg_connector_id g"
  "cg_protocol_version (normal_grant g i e) = cg_protocol_version g"
  "cg_allowed_plan_digests (normal_grant g i e) = sorted_set (cg_allowed_plan_digests g)"
  by (simp_all add: normal_grant_def)

lemma sorted_set_idem [simp]: "sorted_set (sorted_set xs) = sorted_set xs"
  by (rule sorted_set_eq) simp

lemma cap_utc_aware: "time_valid t \<Longrightarrow> cap_utc (Aware t 0) = Inr t"
  by (simp add: cap_utc_def astimezone_utc_def)

lemma normal_canonical:
  assumes "cap_utc (cg_issued_at g) = Inr i" "cap_utc (cg_expires_at g) = Inr e" "time_valid i" "time_valid e"
  shows "grant_canonical_dict (normal_grant g i e) = grant_canonical_dict g"
proof -
  have "sorted_set (map operation_value (cg_operations (normal_grant g i e))) = sorted_set (map operation_value (cg_operations g))"
    by (rule sorted_set_eq) (simp add: normal_operations)
  then show ?thesis using assms by (simp add: grant_canonical_dict_def cap_utc_aware normal_grant_def)
qed

lemma py_int_show: "py_int (py_str (JInt 1)) = Some 1"
  by code_simp

text \<open>
  A signed grant survives its wire form: a grant within the representable times is read back with the
  same signature and the same canonical bytes, so the signature still verifies, and the grant that is
  read authorizes exactly the same requests at every time.
\<close>

theorem grant_wire_roundtrip:
  assumes "cap_utc (cg_issued_at (sg_grant sg)) = Inr i" "cap_utc (cg_expires_at (sg_grant sg)) = Inr e"
    and "time_valid i" "time_valid e" "cg_protocol_version (sg_grant sg) = 1"
  shows "\<exists>payload sg'. grant_to_wire sg = Inr payload \<and> grant_from_wire payload = Inr sg'
    \<and> sg_signature sg' = sg_signature sg
    \<and> grant_canonical_bytes (sg_grant sg') = grant_canonical_bytes (sg_grant sg)
    \<and> (\<forall>operation subject tnt connector plan now.
         grant_authorize (sg_grant sg') operation subject tnt connector plan now
           = grant_authorize (sg_grant sg) operation subject tnt connector plan now)"
proof -
  let ?g = "sg_grant sg"
  obtain d where d: "grant_canonical_dict ?g = Inr d"
    using assms(1,2) by (simp add: grant_canonical_dict_def)
  then have w: "grant_to_wire sg = Inr [(''grant'', JObj d), (''signature'', JStr (b64_encode (sg_signature sg)))]"
    by (simp add: grant_to_wire_def)
  have shape: "d = (case grant_canonical_dict ?g of Inr x \<Rightarrow> x | Inl x \<Rightarrow> [])" using d by simp
  have ops: "mapE parse_operation (map JStr (sorted_set (map operation_value (cg_operations ?g))))
      = Inr (cg_operations (normal_grant ?g i e))"
    by (subst parse_operations) (auto simp: normal_grant_def)
  have "grant_from_wire [(''grant'', JObj d), (''signature'', JStr (b64_encode (sg_signature sg)))]
      = Inr \<lparr>sg_grant = normal_grant ?g i e, sg_signature = sg_signature sg\<rparr>"
    unfolding shape using assms(1-5) ops
    by (simp add: grant_canonical_dict_def grant_from_wire_def item_def get_default_def py_iter_def wire_time_def
        fromisoformat_isoformat py_int_show b64_roundtrip comp_def) (simp add: normal_grant_def)
  moreover have "grant_canonical_bytes (normal_grant ?g i e) = grant_canonical_bytes ?g"
    using normal_canonical [OF assms(1-4)] by (simp add: grant_canonical_bytes_def)
  moreover have "grant_authorize (normal_grant ?g i e) operation subject tnt connector plan now
      = grant_authorize ?g operation subject tnt connector plan now" for operation subject tnt connector plan now
    using assms(1-4) by (simp add: grant_authorize_def cap_utc_aware normal_operations cong: if_cong option.case_cong)
  ultimately show ?thesis using w by auto
qed

definition sample_grant :: signed_capability_grant where
  "sample_grant = \<lparr>sg_grant = \<lparr>cg_id = ''g'', cg_issuer = ''ops'', cg_subject = ''runtime'', cg_tenant = ''acme'',
     cg_connector_id = ''erp'', cg_operations = [WRITE_RECORDS, REPLAY, WRITE_RECORDS], cg_allowed_plan_digests = [''b'', ''a''],
     cg_issued_at = Naive 0, cg_expires_at = Aware 1000000 0, cg_protocol_version = 1\<rparr>, sg_signature = replicate 64 CHR ''s''\<rparr>"

theorem grant_wire_roundtrip_witness:
  "\<exists>payload sg'. grant_to_wire sample_grant = Inr payload \<and> grant_from_wire payload = Inr sg'
    \<and> sg_signature sg' = sg_signature sample_grant
    \<and> grant_canonical_bytes (sg_grant sg') = grant_canonical_bytes (sg_grant sample_grant)"
proof -
  have t: "time_valid 0" "time_valid 1000000" by (simp_all add: time_valid_def day_us_def)
  have "cap_utc (cg_issued_at (sg_grant sample_grant)) = Inr 0" "cap_utc (cg_expires_at (sg_grant sample_grant)) = Inr 1000000"
    "cg_protocol_version (sg_grant sample_grant) = 1"
    using t by (simp_all add: sample_grant_def cap_utc_def astimezone_utc_def)
  from grant_wire_roundtrip [OF this(1,2) t this(3)] show ?thesis by blast
qed

end
