(* ===== verification/Ledger.thy ===== *)
theory Ledger
  imports Transport
begin

text \<open>
  The destination's delivery ledger (\<open>ledger.py\<close>): a SQLite table with one row per transfer
  identity, the claims that fence it and the state machine of a delivery. Every method opens one
  connection and runs one write transaction (\<open>BEGIN IMMEDIATE\<close>, or a single autocommitted UPDATE), so a
  method is one atomic step from a table to a table or to an exception with the table unchanged.
  A reading of the clock and the random tokens of \<open>secrets\<close> are arguments.

  Columns declared NOT NULL hold text; the others hold a \<^typ>\<open>cell\<close>. Timestamps are stored as
  text and compared as text by SQLite.
\<close>

section \<open>States and rows\<close>

datatype delivery_state =
    CLAIMED | WRITE_STARTED | BATCH_WRITE_STARTED | REPLAY_CLAIMED | REPLAY_WRITE_STARTED
  | COMMITTED | UNCERTAIN | BATCH_UNCERTAIN | REPLAY_UNCERTAIN | QUARANTINED | REPLAY_QUARANTINED

fun state_value :: "delivery_state \<Rightarrow> string" where
  "state_value CLAIMED = ''claimed''"
| "state_value WRITE_STARTED = ''write_started''"
| "state_value BATCH_WRITE_STARTED = ''batch_write_started''"
| "state_value REPLAY_CLAIMED = ''replay_claimed''"
| "state_value REPLAY_WRITE_STARTED = ''replay_write_started''"
| "state_value COMMITTED = ''committed''"
| "state_value UNCERTAIN = ''uncertain''"
| "state_value BATCH_UNCERTAIN = ''batch_uncertain''"
| "state_value REPLAY_UNCERTAIN = ''replay_uncertain''"
| "state_value QUARANTINED = ''quarantined''"
| "state_value REPLAY_QUARANTINED = ''replay_quarantined''"

definition all_states :: "delivery_state list" where
  "all_states = [CLAIMED, WRITE_STARTED, BATCH_WRITE_STARTED, REPLAY_CLAIMED, REPLAY_WRITE_STARTED,
     COMMITTED, UNCERTAIN, BATCH_UNCERTAIN, REPLAY_UNCERTAIN, QUARANTINED, REPLAY_QUARANTINED]"

text \<open>\<open>DeliveryState(text)\<close>; None is the ValueError.\<close>

definition parse_state :: "string \<Rightarrow> delivery_state option" where
  "parse_state s = find (\<lambda>d. state_value d = s) all_states"

datatype claim_disposition = NEW | RECOVERED | IN_PROGRESS | ALREADY_COMMITTED | AMBIGUOUS

record claim_result =
  cr_disposition :: claim_disposition
  cr_state :: delivery_state
  cr_record_digest :: string
  cr_claim_token :: "string option"
  cr_claim_expires_at :: "string option"
  cr_batch_attempt_id :: "string option"

record delivery_row =
  dl_tenant :: string
  dl_destination_connector :: string
  dl_transfer_id :: string
  dl_record_id :: string
  dl_record_digest :: string
  dl_plan_digest :: string
  dl_state :: string
  dl_created_at :: string
  dl_updated_at :: string
  dl_reason_code :: cell
  dl_claim_token :: cell
  dl_claim_expires_at :: cell
  dl_batch_attempt_id :: cell
  dl_contract_id :: cell

type_synonym ledger = "delivery_row list"
type_synonym identity = "string \<times> string \<times> string \<times> string"

record ledger_entry =
  le_key :: identity
  le_record_digest :: string
  le_plan_digest :: string
  le_state :: delivery_state
  le_created_at :: string
  le_updated_at :: string
  le_reason_code :: cell
  le_claim_token :: cell
  le_claim_expires_at :: cell
  le_batch_attempt_id :: "string option"
  le_contract_id :: "string option"

definition row_key :: "delivery_row \<Rightarrow> identity" where
  "row_key r = (dl_tenant r, dl_destination_connector r, dl_transfer_id r, dl_record_id r)"

definition ledger_key :: "transport_record \<Rightarrow> identity" where
  "ledger_key r = (tenant r, destination_connector r, transfer_id r, btr_record_id r)"

section \<open>Validation\<close>

definition sec_us :: int where "sec_us = 1000000"

definition DEFAULT_CLAIM_DURATION :: int where "DEFAULT_CLAIM_DURATION = 300 * sec_us"

definition MAX_CLAIM_DURATION :: int where "MAX_CLAIM_DURATION = 3600 * sec_us"

definition MAX_LEDGER_BATCH_ITEMS :: nat where "MAX_LEDGER_BATCH_ITEMS = 10000"

definition MAX_IDEMPOTENCY_CONTRACT_ID_LENGTH :: nat where "MAX_IDEMPOTENCY_CONTRACT_ID_LENGTH = 128"

definition ledger_now :: "py_datetime \<Rightarrow> int result" where
  "ledger_now clock = (case clock of
     Naive _ \<Rightarrow> Inl (ValueError ''delivery ledger clock must return a timezone-aware datetime'')
   | Aware t off \<Rightarrow> astimezone_utc t off)"

text \<open>\<open>now + delta\<close>, which raises outside the years 1 to 9999\<close>

definition plus_delta :: "int \<Rightarrow> int \<Rightarrow> int result" where
  "plus_delta t d = (if time_valid (t + d) then Inr (t + d) else Inl (OverflowError ''date value out of range''))"

definition lease_duration_ok :: "int \<Rightarrow> bool" where
  "lease_duration_ok d = (0 < d \<and> d \<le> MAX_CLAIM_DURATION)"

definition claim_token_ok :: "string \<Rightarrow> bool" where
  "claim_token_ok t = (t \<noteq> [] \<and> length t \<le> 128)"

definition batch_attempt_ok :: "string \<Rightarrow> bool" where
  "batch_attempt_ok b = lower_hex 32 b"

definition contract_id_ok :: "string \<Rightarrow> bool" where
  "contract_id_ok c = (c \<noteq> [] \<and> length c \<le> MAX_IDEMPOTENCY_CONTRACT_ID_LENGTH \<and> isprintable c \<and> c = strip c)"

definition contract_from_row :: "delivery_row \<Rightarrow> string option result" where
  "contract_from_row row = (case dl_contract_id row of
     Null \<Rightarrow> Inr None
   | Blob _ \<Rightarrow> Inl (IntegrityError ''delivery ledger contains an invalid idempotency contract id'')
   | Text c \<Rightarrow> raise_if (\<not> contract_id_ok c)
       (IntegrityError ''delivery ledger contains an invalid idempotency contract id'') (Inr (Some c)))"

definition attempt_from_row :: "delivery_row \<Rightarrow> string option result" where
  "attempt_from_row row = (case dl_batch_attempt_id row of
     Null \<Rightarrow> Inr None
   | Blob _ \<Rightarrow> Inl (IntegrityError ''delivery ledger contains an invalid batch attempt id'')
   | Text b \<Rightarrow> raise_if (\<not> batch_attempt_ok b)
       (IntegrityError ''delivery ledger contains an invalid batch attempt id'') (Inr (Some b)))"

definition parse_expiry :: "cell \<Rightarrow> int option result" where
  "parse_expiry raw = (case raw of
     Text s \<Rightarrow> (if s = [] then Inr None else (case fromisoformat s of
         Some (Aware t off) \<Rightarrow> bindE (astimezone_utc t off) (\<lambda>u. Inr (Some u))
       | _ \<Rightarrow> Inr None))
   | _ \<Rightarrow> Inr None)"

text \<open>\<open>isinstance(token, str) and token\<close>\<close>

definition token_present :: "cell \<Rightarrow> bool" where
  "token_present c = (case c of Text s \<Rightarrow> s \<noteq> [] | _ \<Rightarrow> False)"

definition claim_active :: "delivery_row \<Rightarrow> int option \<Rightarrow> int \<Rightarrow> bool" where
  "claim_active row expiry now = (token_present (dl_claim_token row) \<and> (case expiry of None \<Rightarrow> False | Some e \<Rightarrow> now < e))"

section \<open>Claims\<close>

definition new_row :: "transport_record \<Rightarrow> string \<Rightarrow> string \<Rightarrow> string \<Rightarrow> delivery_row" where
  "new_row r token now expires =
     \<lparr>dl_tenant = tenant r, dl_destination_connector = destination_connector r, dl_transfer_id = transfer_id r,
      dl_record_id = btr_record_id r, dl_record_digest = digest r, dl_plan_digest = plan_digest r,
      dl_state = state_value CLAIMED, dl_created_at = now, dl_updated_at = now, dl_reason_code = Null,
      dl_claim_token = Text token, dl_claim_expires_at = Text expires,
      dl_batch_attempt_id = Null, dl_contract_id = Null\<rparr>"

definition claim_existing ::
    "transport_record \<Rightarrow> string \<Rightarrow> int \<Rightarrow> string \<Rightarrow> delivery_row \<Rightarrow> ledger \<Rightarrow> (ledger \<times> claim_result) result" where
  "claim_existing r token now_value expires row db =
     raise_if (dl_record_digest row \<noteq> digest r \<or> dl_plan_digest row \<noteq> plan_digest r)
       (ReplayDetected ''transfer identity was reused with different authenticated content'') (
     case parse_state (dl_state row) of
       None \<Rightarrow> Inl (IntegrityError ''delivery ledger contains an invalid state'')
     | Some state \<Rightarrow>
       bindE (attempt_from_row row) (\<lambda>attempt.
       raise_if (state \<in> {BATCH_WRITE_STARTED, BATCH_UNCERTAIN} \<and> attempt = None)
         (IntegrityError ''batch delivery state is missing its attempt id'') (
       bindE (contract_from_row row) (\<lambda>_.
       let result = (\<lambda>disposition expiry. \<lparr>cr_disposition = disposition, cr_state = state,
             cr_record_digest = digest r, cr_claim_token = None, cr_claim_expires_at = expiry,
             cr_batch_attempt_id = attempt\<rparr>)
       in if state = COMMITTED then Inr (db, result ALREADY_COMMITTED None)
          else if state \<in> {CLAIMED, REPLAY_CLAIMED} then
            bindE (parse_expiry (dl_claim_expires_at row)) (\<lambda>expiry.
            if claim_active row expiry now_value
            then Inr (db, result IN_PROGRESS (map_option isoformat expiry))
            else if state = REPLAY_CLAIMED then Inr (db, result AMBIGUOUS None)
            else if token_present (dl_claim_token row) \<and> expiry \<noteq> None then
              (let matches = (\<lambda>x. row_key x = ledger_key r \<and> dl_record_digest x = digest r
                    \<and> dl_plan_digest x = plan_digest r \<and> dl_state x = state_value CLAIMED
                    \<and> sql_eq (dl_claim_token x) (dl_claim_token row)
                    \<and> sql_eq (dl_claim_expires_at x) (dl_claim_expires_at row))
               in raise_if (rowcount matches db \<noteq> 1)
                    (IntegrityError ''stale delivery claim could not be fenced'') (
                  Inr (update_where matches (\<lambda>x. x\<lparr>dl_claim_token := Text token,
                         dl_claim_expires_at := Text expires, dl_updated_at := isoformat now_value,
                         dl_reason_code := Null\<rparr>) db,
                       \<lparr>cr_disposition = RECOVERED, cr_state = CLAIMED, cr_record_digest = digest r,
                        cr_claim_token = Some token, cr_claim_expires_at = Some expires,
                        cr_batch_attempt_id = attempt\<rparr>)))
            else Inr (db, result AMBIGUOUS None))
          else Inr (db, result AMBIGUOUS None)))))"

definition claim_one ::
    "int \<Rightarrow> string \<Rightarrow> ledger \<Rightarrow> transport_record \<times> string \<Rightarrow> (ledger \<times> claim_result) result" where
  "claim_one now_value expires db x =
     (let (r, token) = x in
      case select_one (\<lambda>x. row_key x = ledger_key r) db of
        None \<Rightarrow> Inr (db @ [new_row r token (isoformat now_value) expires],
          \<lparr>cr_disposition = NEW, cr_state = CLAIMED, cr_record_digest = digest r, cr_claim_token = Some token,
           cr_claim_expires_at = Some expires, cr_batch_attempt_id = None\<rparr>)
      | Some row \<Rightarrow> claim_existing r token now_value expires row db)"

text \<open>
  \<open>claim_many\<close>. \<open>token i\<close> is the token drawn for the \<open>i\<close>th record.
\<close>

definition claim_many ::
    "transport_record list \<Rightarrow> int \<Rightarrow> py_datetime \<Rightarrow> (nat \<Rightarrow> string) \<Rightarrow> ledger \<Rightarrow> (ledger \<times> claim_result list) result" where
  "claim_many records lease_for clock token db =
     raise_if (\<not> lease_duration_ok lease_for) (ValueError ''claim duration is outside supported range'') (
     if records = [] then Inr (db, []) else
     raise_if (MAX_LEDGER_BATCH_ITEMS < length records)
       (ValueError ''delivery ledger batch exceeds the record count limit'') (
     raise_if (\<not> distinct (map ledger_key records))
       (ValueError ''delivery batch contains a duplicate transfer identity'') (
     bindE (ledger_now clock) (\<lambda>now_value.
     bindE (plus_delta now_value lease_for) (\<lambda>expiry.
     foldE (claim_one now_value (isoformat expiry)) db (zip records (map token [0..<length records])))))))"

definition claim ::
    "transport_record \<Rightarrow> int \<Rightarrow> py_datetime \<Rightarrow> string \<Rightarrow> ledger \<Rightarrow> (ledger \<times> claim_result) result" where
  "claim r lease_for clock token db =
     bindE (claim_many [r] lease_for clock (\<lambda>_. token) db) (\<lambda>(db', results). Inr (db', hd results))"

section \<open>Fenced transitions\<close>

text \<open>The WHERE clause and the SET clause of a fenced transition.\<close>

definition fenced :: "transport_record \<Rightarrow> delivery_state \<Rightarrow> string \<Rightarrow> string option \<Rightarrow> delivery_row \<Rightarrow> bool" where
  "fenced r expected token unexpired_at x =
     (row_key x = ledger_key r \<and> dl_record_digest x = digest r \<and> dl_plan_digest x = plan_digest r
      \<and> dl_state x = state_value expected \<and> sql_eq (dl_claim_token x) (Text token)
      \<and> (case unexpired_at of None \<Rightarrow> True | Some now \<Rightarrow> sql_gt (dl_claim_expires_at x) (Text now)))"

definition text_or_null :: "string option \<Rightarrow> cell" where
  "text_or_null s = (case s of None \<Rightarrow> Null | Some t \<Rightarrow> Text t)"

definition moved :: "delivery_state \<Rightarrow> string \<Rightarrow> string option \<Rightarrow> cell option \<Rightarrow> cell option \<Rightarrow> delivery_row \<Rightarrow> delivery_row" where
  "moved state now reason attempt contract x =
     x\<lparr>dl_state := state_value state, dl_updated_at := now, dl_reason_code := text_or_null reason,
       dl_batch_attempt_id := (case attempt of None \<Rightarrow> dl_batch_attempt_id x | Some a \<Rightarrow> a),
       dl_contract_id := (case contract of None \<Rightarrow> dl_contract_id x | Some c \<Rightarrow> c)\<rparr>"

definition transition ::
    "transport_record \<Rightarrow> delivery_state \<Rightarrow> string \<Rightarrow> delivery_state \<Rightarrow> string option \<Rightarrow> bool \<Rightarrow> bool \<Rightarrow> bool \<Rightarrow>
     string option \<Rightarrow> py_datetime \<Rightarrow> ledger \<Rightarrow> ledger result" where
  "transition r state claim_token expected reason require_unexpired clear_attempt set_contract contract clock db =
     raise_if (\<not> claim_token_ok claim_token) (ValueError ''claim token is invalid'') (
     raise_if (case contract of None \<Rightarrow> False | Some c \<Rightarrow> \<not> contract_id_ok c)
       (ValueError ''idempotency contract id is invalid'') (
     bindE (ledger_now clock) (\<lambda>now_value.
     let now = isoformat now_value;
         matches = fenced r expected claim_token (if require_unexpired then Some now else None)
     in raise_if (rowcount matches db \<noteq> 1) (IntegrityError ''invalid delivery ledger state transition'') (
        Inr (update_where matches
          (moved state now reason (if clear_attempt then Some Null else None)
             (if set_contract then Some (text_or_null contract) else None)) db)))))"

definition transition_one ::
    "delivery_state \<Rightarrow> delivery_state \<Rightarrow> string option \<Rightarrow> bool \<Rightarrow> string option \<Rightarrow> bool \<Rightarrow> string option \<Rightarrow> string \<Rightarrow>
     ledger \<Rightarrow> transport_record \<times> string \<Rightarrow> (ledger \<times> unit) result" where
  "transition_one state expected reason require_unexpired attempt set_contract contract now db x =
     (let matches = fenced (fst x) expected (snd x) (if require_unexpired then Some now else None)
      in raise_if (rowcount matches db \<noteq> 1) (IntegrityError ''invalid delivery ledger batch state transition'') (
         Inr (update_where matches
           (moved state now reason (map_option Text attempt)
              (if set_contract then Some (text_or_null contract) else None)) db, ())))"

definition transition_many ::
    "(transport_record \<times> string) list \<Rightarrow> delivery_state \<Rightarrow> delivery_state \<Rightarrow> string option \<Rightarrow> bool \<Rightarrow> string option \<Rightarrow>
     bool \<Rightarrow> string option \<Rightarrow> py_datetime \<Rightarrow> ledger \<Rightarrow> ledger result" where
  "transition_many items state expected reason require_unexpired attempt set_contract contract clock db =
     (if items = [] then Inr db else
     raise_if (MAX_LEDGER_BATCH_ITEMS < length items)
       (ValueError ''delivery ledger batch exceeds the record count limit'') (
     raise_if (\<not> distinct (map (ledger_key \<circ> fst) items))
       (ValueError ''delivery batch contains a duplicate transfer identity'') (
     raise_if (\<not> list_all (claim_token_ok \<circ> snd) items) (ValueError ''claim token is invalid'') (
     raise_if (case attempt of None \<Rightarrow> False | Some b \<Rightarrow> \<not> batch_attempt_ok b)
       (ValueError ''batch attempt id must be a lowercase 128-bit hexadecimal identifier'') (
     raise_if (case contract of None \<Rightarrow> False | Some c \<Rightarrow> \<not> contract_id_ok c)
       (ValueError ''idempotency contract id is invalid'') (
     bindE (ledger_now clock) (\<lambda>now_value.
     bindE (foldE (transition_one state expected reason require_unexpired attempt set_contract contract
         (isoformat now_value)) db items) (\<lambda>(db', _). Inr db'))))))))"

definition start_write :: "transport_record \<Rightarrow> string \<Rightarrow> string option \<Rightarrow> py_datetime \<Rightarrow> ledger \<Rightarrow> ledger result" where
  "start_write r token contract clock db =
     transition r WRITE_STARTED token CLAIMED None True True True contract clock db"

definition start_replay_write :: "transport_record \<Rightarrow> string \<Rightarrow> py_datetime \<Rightarrow> ledger \<Rightarrow> ledger result" where
  "start_replay_write r token clock db =
     transition r REPLAY_WRITE_STARTED token REPLAY_CLAIMED None True False False None clock db"

text \<open>\<open>attempt\<close> is \<open>secrets.token_hex(16)\<close>.\<close>

definition start_write_many ::
    "(transport_record \<times> string) list \<Rightarrow> string option \<Rightarrow> string \<Rightarrow> py_datetime \<Rightarrow> ledger \<Rightarrow> (ledger \<times> string) result" where
  "start_write_many items contract attempt clock db =
     bindE (transition_many items BATCH_WRITE_STARTED CLAIMED None True (Some attempt) True contract clock db)
       (\<lambda>db'. Inr (db', attempt))"

definition mark_committed :: "transport_record \<Rightarrow> string \<Rightarrow> py_datetime \<Rightarrow> ledger \<Rightarrow> ledger result" where
  "mark_committed r token clock db =
     transition r COMMITTED token WRITE_STARTED None False False False None clock db"

definition mark_replay_committed :: "transport_record \<Rightarrow> string \<Rightarrow> py_datetime \<Rightarrow> ledger \<Rightarrow> ledger result" where
  "mark_replay_committed r token clock db =
     transition r COMMITTED token REPLAY_WRITE_STARTED None False False False None clock db"

definition mark_committed_many :: "(transport_record \<times> string) list \<Rightarrow> py_datetime \<Rightarrow> ledger \<Rightarrow> ledger result" where
  "mark_committed_many items clock db =
     transition_many items COMMITTED BATCH_WRITE_STARTED None False None False None clock db"

definition mark_uncertain :: "transport_record \<Rightarrow> string \<Rightarrow> string \<Rightarrow> py_datetime \<Rightarrow> ledger \<Rightarrow> ledger result" where
  "mark_uncertain r reason token clock db =
     transition r UNCERTAIN token WRITE_STARTED (Some reason) False False False None clock db"

definition mark_replay_uncertain :: "transport_record \<Rightarrow> string \<Rightarrow> string \<Rightarrow> py_datetime \<Rightarrow> ledger \<Rightarrow> ledger result" where
  "mark_replay_uncertain r reason token clock db =
     transition r REPLAY_UNCERTAIN token REPLAY_WRITE_STARTED (Some reason) False False False None clock db"

definition mark_uncertain_many :: "(transport_record \<times> string) list \<Rightarrow> string \<Rightarrow> py_datetime \<Rightarrow> ledger \<Rightarrow> ledger result" where
  "mark_uncertain_many items reason clock db =
     transition_many items BATCH_UNCERTAIN BATCH_WRITE_STARTED (Some reason) False None False None clock db"

definition mark_quarantined ::
    "transport_record \<Rightarrow> string \<Rightarrow> string \<Rightarrow> delivery_state \<Rightarrow> py_datetime \<Rightarrow> ledger \<Rightarrow> ledger result" where
  "mark_quarantined r reason token expected clock db =
     raise_if (expected \<notin> {CLAIMED, WRITE_STARTED, REPLAY_CLAIMED, REPLAY_WRITE_STARTED})
       (ValueError ''invalid state for delivery quarantine'') (
     transition r (if expected \<in> {REPLAY_CLAIMED, REPLAY_WRITE_STARTED} then REPLAY_QUARANTINED else QUARANTINED)
       token expected (Some reason) (expected \<in> {CLAIMED, REPLAY_CLAIMED}) False False None clock db)"

definition mark_quarantined_many ::
    "(transport_record \<times> string) list \<Rightarrow> string \<Rightarrow> delivery_state \<Rightarrow> py_datetime \<Rightarrow> ledger \<Rightarrow> ledger result" where
  "mark_quarantined_many items reason expected clock db =
     raise_if (expected \<notin> {CLAIMED, BATCH_WRITE_STARTED}) (ValueError ''invalid state for delivery quarantine'') (
     transition_many items QUARANTINED expected (Some reason) (expected = CLAIMED) None False None clock db)"

section \<open>Retry, lookup and migration\<close>

definition rearm_target :: "delivery_state \<Rightarrow> delivery_state" where
  "rearm_target expected = (if expected = QUARANTINED then CLAIMED else REPLAY_CLAIMED)"

definition rearm_for_retry ::
    "transport_record \<Rightarrow> delivery_state \<Rightarrow> int \<Rightarrow> py_datetime \<Rightarrow> string \<Rightarrow> ledger \<Rightarrow> (ledger \<times> claim_result) result" where
  "rearm_for_retry r expected lease_for clock token db =
     raise_if (expected = COMMITTED) (ValueError ''delivery state cannot be rearmed'') (
     raise_if (\<not> lease_duration_ok lease_for) (ValueError ''claim duration is outside supported range'') (
     bindE (ledger_now clock) (\<lambda>now_value.
     bindE (plus_delta now_value lease_for) (\<lambda>expiry_value.
     let bad = IntegrityError ''invalid delivery ledger retry transition''; expires = isoformat expiry_value in
     case select_one (\<lambda>x. row_key x = ledger_key r) db of
       None \<Rightarrow> Inl bad
     | Some row \<Rightarrow>
       raise_if (dl_record_digest row \<noteq> digest r \<or> dl_plan_digest row \<noteq> plan_digest r
           \<or> dl_state row \<noteq> state_value expected) bad (
       bindE (parse_expiry (dl_claim_expires_at row)) (\<lambda>expiry.
       raise_if (expected \<in> {CLAIMED, REPLAY_CLAIMED} \<and> claim_active row expiry now_value)
         (IntegrityError ''active delivery claim cannot be rearmed'') (
       bindE (attempt_from_row row) (\<lambda>attempt.
       raise_if (attempt = None \<and> expected \<in> {BATCH_WRITE_STARTED, BATCH_UNCERTAIN})
         (IntegrityError ''batch delivery state is missing its attempt id'') (
       bindE (contract_from_row row) (\<lambda>_.
       let matches = (\<lambda>x. row_key x = ledger_key r \<and> dl_record_digest x = digest r
             \<and> dl_plan_digest x = plan_digest r \<and> dl_state x = state_value expected
             \<and> sql_is (dl_claim_token x) (dl_claim_token row)
             \<and> sql_is (dl_claim_expires_at x) (dl_claim_expires_at row)
             \<and> sql_is (dl_batch_attempt_id x) (dl_batch_attempt_id row))
       in raise_if (rowcount matches db \<noteq> 1) bad (
          Inr (update_where matches (\<lambda>x. x\<lparr>dl_state := state_value (rearm_target expected),
                 dl_updated_at := isoformat now_value, dl_claim_token := Text token,
                 dl_claim_expires_at := Text expires\<rparr>) db,
               \<lparr>cr_disposition = RECOVERED, cr_state = rearm_target expected, cr_record_digest = digest r,
                cr_claim_token = Some token, cr_claim_expires_at = Some expires,
                cr_batch_attempt_id = attempt\<rparr>))))))))))))"

definition entry_from_row :: "delivery_row \<Rightarrow> ledger_entry result" where
  "entry_from_row row =
     bindE (attempt_from_row row) (\<lambda>attempt.
     case parse_state (dl_state row) of
       None \<Rightarrow> Inl (IntegrityError ''delivery ledger contains an invalid state'')
     | Some state \<Rightarrow>
       raise_if (state \<in> {BATCH_WRITE_STARTED, BATCH_UNCERTAIN} \<and> attempt = None)
         (IntegrityError ''batch delivery state is missing its attempt id'') (
       bindE (contract_from_row row) (\<lambda>contract.
       Inr \<lparr>le_key = row_key row, le_record_digest = dl_record_digest row, le_plan_digest = dl_plan_digest row,
            le_state = state, le_created_at = dl_created_at row, le_updated_at = dl_updated_at row,
            le_reason_code = dl_reason_code row, le_claim_token = dl_claim_token row,
            le_claim_expires_at = dl_claim_expires_at row, le_batch_attempt_id = attempt,
            le_contract_id = contract\<rparr>)))"

definition ledger_get :: "transport_record \<Rightarrow> ledger \<Rightarrow> ledger_entry option result" where
  "ledger_get r db = (case select_one (\<lambda>x. row_key x = ledger_key r) db of
     None \<Rightarrow> Inr None
   | Some row \<Rightarrow> bindE (entry_from_row row) (\<lambda>e. Inr (Some e)))"

definition get_batch_attempt :: "string \<Rightarrow> ledger \<Rightarrow> ledger_entry list result" where
  "get_batch_attempt attempt db =
     raise_if (\<not> batch_attempt_ok attempt)
       (ValueError ''batch attempt id must be a lowercase 128-bit hexadecimal identifier'') (
     let rows = take (MAX_LEDGER_BATCH_ITEMS + 1) (sort_key dl_record_digest
           (filter (\<lambda>x. sql_eq (dl_batch_attempt_id x) (Text attempt)) db))
     in raise_if (MAX_LEDGER_BATCH_ITEMS < length rows)
          (IntegrityError ''delivery ledger batch membership exceeds its limit'') (
        mapE entry_from_row rows))"

text \<open>
  A ledger file as \<open>_initialize\<close> finds it: the deliveries table, if it exists, with the names of its
  columns (a column the table lacks reads as NULL once it has been added), and the applied migrations.
\<close>

record ledger_file =
  lf_deliveries :: "(string list \<times> ledger) option"
  lf_migrations :: "string list"

definition added_columns :: "string list" where
  "added_columns = [''claim_token'', ''claim_expires_at'', ''current_write_batch_attempt_id'', ''idempotency_contract_id'']"

definition ledger_columns :: "string list" where
  "ledger_columns = [''tenant'', ''destination_connector'', ''transfer_id'', ''record_id'', ''record_digest'',
     ''plan_digest'', ''state'', ''created_at'', ''updated_at'', ''reason_code'']"

definition restate :: "delivery_state \<Rightarrow> delivery_state \<Rightarrow> bool \<Rightarrow> ledger \<Rightarrow> ledger" where
  "restate from to need_attempt db =
     update_where (\<lambda>x. dl_state x = state_value from \<and> (need_attempt \<longrightarrow> dl_batch_attempt_id x \<noteq> Null))
       (\<lambda>x. x\<lparr>dl_state := state_value to\<rparr>) db"

definition initialize :: "ledger_file \<Rightarrow> ledger_file" where
  "initialize f =
     (let (columns, rows, existed) = (case lf_deliveries f of
          None \<Rightarrow> (ledger_columns @ added_columns, [], False) | Some (cs, rows) \<Rightarrow> (cs, rows, True));
        had_attempt = ''current_write_batch_attempt_id'' \<in> set columns;
        applied = ''replay_fencing_v1'' \<in> set (lf_migrations f);
        rows' =
          (if applied \<or> \<not> existed then rows
           else let fenced_rows = restate QUARANTINED REPLAY_QUARANTINED False (restate CLAIMED REPLAY_CLAIMED False rows)
                in if \<not> had_attempt then fenced_rows
                   else restate UNCERTAIN BATCH_UNCERTAIN True (restate WRITE_STARTED BATCH_WRITE_STARTED True fenced_rows))
      in \<lparr>lf_deliveries = Some (columns @ filter (\<lambda>c. c \<notin> set columns) added_columns, rows'),
          lf_migrations = (if applied then lf_migrations f else lf_migrations f @ [''replay_fencing_v1''])\<rparr>)"

section \<open>The life of a delivery\<close>

text \<open>
  The abstract specification: the moves a delivery may make. A write that may have reached the
  destination leaves the \<open>REPLAY\<close> half of the diagram only by being committed, and a committed
  delivery never moves.
\<close>

inductive delivery_step :: "delivery_state \<Rightarrow> delivery_state \<Rightarrow> bool" where
  ds_recover: "delivery_step CLAIMED CLAIMED"
| ds_start: "delivery_step CLAIMED WRITE_STARTED"
| ds_start_batch: "delivery_step CLAIMED BATCH_WRITE_STARTED"
| ds_start_replay: "delivery_step REPLAY_CLAIMED REPLAY_WRITE_STARTED"
| ds_commit: "a \<in> {WRITE_STARTED, BATCH_WRITE_STARTED, REPLAY_WRITE_STARTED} \<Longrightarrow> delivery_step a COMMITTED"
| ds_uncertain: "delivery_step WRITE_STARTED UNCERTAIN"
| ds_uncertain_batch: "delivery_step BATCH_WRITE_STARTED BATCH_UNCERTAIN"
| ds_uncertain_replay: "delivery_step REPLAY_WRITE_STARTED REPLAY_UNCERTAIN"
| ds_quarantine: "a \<in> {CLAIMED, WRITE_STARTED, BATCH_WRITE_STARTED} \<Longrightarrow> delivery_step a QUARANTINED"
| ds_quarantine_replay: "a \<in> {REPLAY_CLAIMED, REPLAY_WRITE_STARTED} \<Longrightarrow> delivery_step a REPLAY_QUARANTINED"
| ds_rearm: "delivery_step QUARANTINED CLAIMED"
| ds_replay: "a \<noteq> COMMITTED \<Longrightarrow> a \<noteq> QUARANTINED \<Longrightarrow> delivery_step a REPLAY_CLAIMED"

inductive_cases delivery_step_from_committed [elim!]: "delivery_step COMMITTED b"



lemma parse_state_value [simp]: "parse_state (state_value s) = Some s"
  by (cases s) (simp_all add: parse_state_def all_states_def)

declare state_value.simps [simp del]

lemma state_value_inject [simp]: "state_value a = state_value b \<longleftrightarrow> a = b"
  by (metis parse_state_value option.inject)

lemma parse_state_Some: "parse_state s = Some d \<longleftrightarrow> s = state_value d"
proof
  show "parse_state s = Some d \<Longrightarrow> s = state_value d" by (auto simp: parse_state_def find_Some_iff)
qed simp

subsection \<open>Rows and tables along the diagram\<close>

definition same_record :: "delivery_row \<Rightarrow> delivery_row \<Rightarrow> bool" where
  "same_record x y = (row_key x = row_key y \<and> dl_record_digest x = dl_record_digest y
     \<and> dl_plan_digest x = dl_plan_digest y \<and> dl_created_at x = dl_created_at y)"

definition row_step :: "delivery_row \<Rightarrow> delivery_row \<Rightarrow> bool" where
  "row_step x y = (same_record x y
     \<and> (\<exists>a b. dl_state x = state_value a \<and> dl_state y = state_value b \<and> delivery_step a b))"

abbreviation row_le :: "delivery_row \<Rightarrow> delivery_row \<Rightarrow> bool" where
  "row_le \<equiv> row_step\<^sup>*\<^sup>*"

definition fresh_row :: "delivery_row \<Rightarrow> bool" where
  "fresh_row x = (\<exists>y. dl_state y = state_value CLAIMED \<and> dl_batch_attempt_id y = Null \<and> row_le y x)"

definition ledger_le :: "ledger \<Rightarrow> ledger \<Rightarrow> bool" where
  "ledger_le db db' = (\<exists>ups news. db' = ups @ news \<and> list_all2 row_le db ups \<and> list_all fresh_row news)"





lemma ledger_le_refl [simp]: "ledger_le db db"
  unfolding ledger_le_def by (rule exI [of _ db]) (simp add: list_all2_refl)





subsection \<open>Well-formed tables\<close>

definition stamp :: "string \<Rightarrow> bool" where
  "stamp s = (\<exists>t. time_valid t \<and> s = isoformat t)"

definition cell_ok :: "(string \<Rightarrow> bool) \<Rightarrow> cell \<Rightarrow> bool" where
  "cell_ok P c = (case c of Null \<Rightarrow> True | Text s \<Rightarrow> P s | Blob _ \<Rightarrow> False)"

definition row_wf :: "delivery_row \<Rightarrow> bool" where
  "row_wf x =
     ((\<exists>s. dl_state x = state_value s \<and> (s \<in> {BATCH_WRITE_STARTED, BATCH_UNCERTAIN} \<longrightarrow> dl_batch_attempt_id x \<noteq> Null))
      \<and> lower_hex 64 (dl_record_digest x) \<and> stamp (dl_created_at x) \<and> stamp (dl_updated_at x)
      \<and> cell_ok claim_token_ok (dl_claim_token x) \<and> cell_ok stamp (dl_claim_expires_at x)
      \<and> cell_ok batch_attempt_ok (dl_batch_attempt_id x) \<and> cell_ok contract_id_ok (dl_contract_id x))"

definition ledger_wf :: "ledger \<Rightarrow> bool" where
  "ledger_wf db = (keyed row_key db \<and> list_all row_wf db)"

lemma cell_ok_simps [simp]: "cell_ok P Null" "cell_ok P (Text s) = P s" "\<not> cell_ok P (Blob b)"
  by (simp_all add: cell_ok_def)

lemma cell_ok_text_or_null: "cell_ok P (text_or_null s) = pred_option P s"
  by (cases s) (simp_all add: text_or_null_def)

lemma stamp_isoformat [simp, intro]: "time_valid t \<Longrightarrow> stamp (isoformat t)"
  by (auto simp: stamp_def)

lemma ledger_now_valid: "ledger_now c = Inr t \<Longrightarrow> time_valid t"
  by (auto simp: ledger_now_def astimezone_utc_def split: py_datetime.splits if_splits)

lemma plus_delta_valid: "plus_delta t d = Inr u \<Longrightarrow> time_valid u \<and> u = t + d"
  by (auto simp: plus_delta_def split: if_splits)

text \<open>
  What one statement may do to the table. Every operation is a sequence of such statements, so
  what they preserve every operation preserves.
\<close>

inductive table_step :: "ledger \<Rightarrow> ledger \<Rightarrow> bool" where
  insert_row: "row_key x \<notin> row_key ` set db \<Longrightarrow> row_wf x \<Longrightarrow> dl_state x = state_value CLAIMED \<Longrightarrow>
    dl_batch_attempt_id x = Null \<Longrightarrow> table_step db (db @ [x])"
| update_rows: "(\<And>x. x \<in> set db \<Longrightarrow> P x \<Longrightarrow> row_step x (f x) \<and> (row_wf x \<longrightarrow> row_wf (f x))) \<Longrightarrow>
    table_step db (update_where P f db)"


lemma table_step_wf: "table_step db db' \<Longrightarrow> ledger_wf db \<Longrightarrow> ledger_wf db'"
proof (induction rule: table_step.induct)
  case (update_rows db P f)
  have "row_key (if P x then f x else x) = row_key x" if "x \<in> set db" for x
    using update_rows(1) [OF that] by (auto simp: row_step_def same_record_def)
  then have "map row_key (update_where P f db) = map row_key db" by (simp add: update_where_def)
  moreover have "list_all row_wf (update_where P f db)"
    using update_rows by (auto simp: ledger_wf_def list_all_iff in_update_where)
  ultimately show ?case using update_rows(2) by (simp add: ledger_wf_def keyed_def)
qed (auto simp: ledger_wf_def keyed_insert)


lemma table_steps_wf: "table_step\<^sup>*\<^sup>* db db' \<Longrightarrow> ledger_wf db \<Longrightarrow> ledger_wf db'"
  by (induction rule: rtranclp_induct) (auto dest: table_step_wf)

subsection \<open>Every operation follows the diagram\<close>

lemma moved_step:
  assumes "fenced r expected token u x" "delivery_step expected state"
  shows "row_step x (moved state now reason attempt contract x)"
  using assms by (auto simp: fenced_def row_step_def moved_def same_record_def row_key_def)

lemma moved_wf:
  assumes "fenced r expected token u x" "row_wf x" "time_valid t"
    and "attempt = None \<or> (\<exists>b. attempt = Some (Text b) \<and> batch_attempt_ok b)
      \<or> attempt = Some Null \<and> state \<notin> {BATCH_WRITE_STARTED, BATCH_UNCERTAIN}"
    and "state = BATCH_WRITE_STARTED \<longrightarrow> attempt \<noteq> None"
    and "state = BATCH_UNCERTAIN \<longrightarrow> expected = BATCH_WRITE_STARTED"
    and "\<forall>c. contract = Some c \<longrightarrow> cell_ok contract_id_ok c"
  shows "row_wf (moved state (isoformat t) reason attempt contract x)"
  using assms
  by (auto simp: row_wf_def moved_def fenced_def split: option.splits)

lemma moved_update:
  assumes "delivery_step expected state" "time_valid t"
    and "attempt = None \<or> (\<exists>b. attempt = Some (Text b) \<and> batch_attempt_ok b)
      \<or> attempt = Some Null \<and> state \<notin> {BATCH_WRITE_STARTED, BATCH_UNCERTAIN}"
    and "state = BATCH_WRITE_STARTED \<longrightarrow> attempt \<noteq> None"
    and "state = BATCH_UNCERTAIN \<longrightarrow> expected = BATCH_WRITE_STARTED"
    and "\<forall>c. contract = Some c \<longrightarrow> cell_ok contract_id_ok c"
  shows "table_step db (update_where (fenced r expected token u) (moved state (isoformat t) reason attempt contract) db)"
proof (rule update_rows, rule conjI)
  fix x
  assume x: "fenced r expected token u x"
  show "row_step x (moved state (isoformat t) reason attempt contract x)" by (rule moved_step [OF x assms(1)])
  show "row_wf x \<longrightarrow> row_wf (moved state (isoformat t) reason attempt contract x)"
    using moved_wf [OF x _ assms(2-6)] by blast
qed

lemma transition_step:
  assumes "transition r state token expected reason req clear setc contract clock db = Inr db'"
    and "delivery_step expected state" "state \<notin> {BATCH_WRITE_STARTED, BATCH_UNCERTAIN}"
  shows "table_step db db'"
proof -
  obtain now where now: "ledger_now clock = Inr now"
    and db': "db' = update_where (fenced r expected token (if req then Some (isoformat now) else None))
       (moved state (isoformat now) reason (if clear then Some Null else None)
          (if setc then Some (text_or_null contract) else None)) db"
    and c: "pred_option contract_id_ok contract"
    using assms(1) by (auto simp: transition_def Let_def split: option.splits)
  show ?thesis unfolding db'
    by (rule moved_update [OF assms(2) ledger_now_valid [OF now]])
      (use assms(3) c in \<open>auto simp: cell_ok_text_or_null\<close>)
qed

lemma transition_one_step:
  assumes "transition_one state expected reason req attempt setc contract (isoformat t) db x = Inr (db', u)"
    and "delivery_step expected state" "time_valid t"
    and "pred_option batch_attempt_ok attempt" "pred_option contract_id_ok contract"
    and "state = BATCH_WRITE_STARTED \<longrightarrow> attempt \<noteq> None" "state = BATCH_UNCERTAIN \<longrightarrow> expected = BATCH_WRITE_STARTED"
  shows "table_step db db'"
proof -
  have db': "db' = update_where (fenced (fst x) expected (snd x) (if req then Some (isoformat t) else None))
      (moved state (isoformat t) reason (map_option Text attempt)
         (if setc then Some (text_or_null contract) else None)) db"
    using assms(1) by (simp add: transition_one_def Let_def)
  show ?thesis unfolding db'
    by (rule moved_update [OF assms(2,3)])
      (use assms(4-) in \<open>cases attempt; auto simp: cell_ok_text_or_null\<close>)+
qed

lemma transition_many_steps:
  assumes "transition_many items state expected reason req attempt setc contract clock db = Inr db'"
    and "delivery_step expected state"
    and "state = BATCH_WRITE_STARTED \<longrightarrow> attempt \<noteq> None" "state = BATCH_UNCERTAIN \<longrightarrow> expected = BATCH_WRITE_STARTED"
  shows "table_step\<^sup>*\<^sup>* db db'"
proof (cases "items = []")
  case False
  then obtain now us where now: "ledger_now clock = Inr now"
    and fold: "foldE (transition_one state expected reason req attempt setc contract (isoformat now)) db items = Inr (db', us)"
    and c: "pred_option contract_id_ok contract" and a: "pred_option batch_attempt_ok attempt"
    using assms(1) by (auto simp: transition_many_def split: option.splits)
  show ?thesis
  proof (rule foldE_inv [OF fold, where I = "\<lambda>d. table_step\<^sup>*\<^sup>* db d"])
    fix d x d' y
    assume "table_step\<^sup>*\<^sup>* db d"
      "transition_one state expected reason req attempt setc contract (isoformat now) d x = Inr (d', y)"
    with transition_one_step [OF _ assms(2) ledger_now_valid [OF now] a c assms(3,4)]
    show "table_step\<^sup>*\<^sup>* db d'" by (meson rtranclp.rtrancl_into_rtrancl)
  qed simp
qed (use assms(1) in \<open>simp add: transition_many_def\<close>)

text \<open>
  The outcomes of claiming a record that already has a row: either the table stays and no token
  is issued, or the row is a claim whose lease has lapsed and it is fenced with the new token.
\<close>

lemma claim_existing_cases:
  assumes "claim_existing r token now expires row db = Inr (db', res)"
  obtains (kept) "db' = db" "cr_claim_token res = None" "cr_disposition res \<notin> {NEW, RECOVERED}"
  | (recovered) matches where "db' = update_where matches (\<lambda>x. x\<lparr>dl_claim_token := Text token,
        dl_claim_expires_at := Text expires, dl_updated_at := isoformat now, dl_reason_code := Null\<rparr>) db"
      "\<And>x. matches x \<Longrightarrow> row_key x = ledger_key r \<and> dl_state x = state_value CLAIMED"
      "rowcount matches db = 1" "dl_state row = state_value CLAIMED"
      "\<exists>expiry. parse_expiry (dl_claim_expires_at row) = Inr (Some expiry) \<and> expiry \<le> now"
      "cr_claim_token res = Some token" "cr_disposition res = RECOVERED" "cr_claim_expires_at res = Some expires"
proof -
  obtain state attempt where *: "parse_state (dl_state row) = Some state" "attempt_from_row row = Inr attempt"
    using assms by (auto simp: claim_existing_def split: option.splits)
  let ?recover = "\<exists>expiry. state = CLAIMED \<and> parse_expiry (dl_claim_expires_at row) = Inr (Some expiry)
    \<and> token_present (dl_claim_token row) \<and> expiry \<le> now"
  let ?m = "\<lambda>x. row_key x = ledger_key r \<and> dl_record_digest x = digest r
      \<and> dl_plan_digest x = plan_digest r \<and> dl_state x = state_value CLAIMED
      \<and> sql_eq (dl_claim_token x) (dl_claim_token row) \<and> sql_eq (dl_claim_expires_at x) (dl_claim_expires_at row)"
  show thesis
  proof (cases ?recover)
    case True
    then have "db' = update_where ?m (\<lambda>x. x\<lparr>dl_claim_token := Text token,
        dl_claim_expires_at := Text expires, dl_updated_at := isoformat now, dl_reason_code := Null\<rparr>) db
      \<and> rowcount ?m db = 1 \<and> cr_claim_token res = Some token \<and> cr_disposition res = RECOVERED
      \<and> cr_claim_expires_at res = Some expires"
      using assms * by (auto simp: claim_existing_def Let_def claim_active_def)
    with True *(1) show thesis by (intro recovered [of ?m]) (auto simp: parse_state_Some)
  next
    case False
    then show thesis
      using assms * by (intro kept) (auto simp: claim_existing_def Let_def claim_active_def split: if_splits)
  qed
qed

lemma new_row_facts [simp]:
  "row_key (new_row r token now expires) = ledger_key r" "dl_state (new_row r token now expires) = state_value CLAIMED"
  "dl_batch_attempt_id (new_row r token now expires) = Null" "dl_claim_token (new_row r token now expires) = Text token"
  "dl_claim_expires_at (new_row r token now expires) = Text expires"
  "dl_record_digest (new_row r token now expires) = digest r" "dl_plan_digest (new_row r token now expires) = plan_digest r"
  by (simp_all add: new_row_def row_key_def ledger_key_def)

lemma digest_hex: "lower_hex 64 (digest r)"
  by (simp add: digest_def sha256_hex_lower)

lemma new_row_wf:
  "time_valid now \<Longrightarrow> time_valid e \<Longrightarrow> claim_token_ok token \<Longrightarrow> row_wf (new_row r token (isoformat now) (isoformat e))"
  by (auto simp: row_wf_def digest_hex) (auto simp: new_row_def)

lemma claim_one_step:
  assumes "claim_one now (isoformat e) db x = Inr (db', res)" "time_valid now" "time_valid e" "claim_token_ok (snd x)"
  shows "table_step\<^sup>*\<^sup>* db db'"
proof (cases "select_one (\<lambda>y. row_key y = ledger_key (fst x)) db")
  case None
  then have "row_key (new_row (fst x) (snd x) (isoformat now) (isoformat e)) \<notin> row_key ` set db"
    by (auto simp: select_one_None)
  then have "table_step db (db @ [new_row (fst x) (snd x) (isoformat now) (isoformat e)])"
    using assms(2-4) by (intro insert_row) (simp_all add: new_row_wf)
  with None assms(1) show ?thesis by (auto simp: claim_one_def case_prod_unfold)
next
  case (Some row)
  then have "claim_existing (fst x) (snd x) now (isoformat e) row db = Inr (db', res)"
    using assms(1) by (simp add: claim_one_def case_prod_unfold)
  then show ?thesis
  proof (cases rule: claim_existing_cases)
    case (recovered matches)
    have "table_step db db'" unfolding recovered(1)
      by (rule update_rows) (use recovered(2) assms(2-4) in
        \<open>auto simp: row_step_def same_record_def row_key_def row_wf_def intro: ds_recover\<close>)
    then show ?thesis by simp
  qed simp
qed

lemma claim_many_cases:
  assumes "claim_many rs lease clock token db = Inr (db', res)" "rs \<noteq> []"
  obtains now where "ledger_now clock = Inr now" "time_valid now" "time_valid (now + lease)" "0 < lease"
    "distinct (map ledger_key rs)"
    "foldE (claim_one now (isoformat (now + lease))) db (zip rs (map token [0..<length rs])) = Inr (db', res)"
  using assms plus_delta_valid ledger_now_valid
  by (fastforce simp: claim_many_def lease_duration_ok_def)

lemma claim_many_steps:
  assumes "claim_many rs lease clock token db = Inr (db', res)" "\<forall>i. claim_token_ok (token i)"
  shows "table_step\<^sup>*\<^sup>* db db'"
proof (cases "rs = []")
  case False
  obtain now where *: "time_valid now" "time_valid (now + lease)"
    "foldE (claim_one now (isoformat (now + lease))) db (zip rs (map token [0..<length rs])) = Inr (db', res)"
    using assms(1) False by (rule claim_many_cases)
  show ?thesis
  proof (rule foldE_inv [OF *(3), where I = "\<lambda>d. table_step\<^sup>*\<^sup>* db d"])
    fix d x d' y
    assume a: "table_step\<^sup>*\<^sup>* db d" "x \<in> set (zip rs (map token [0..<length rs]))"
      "claim_one now (isoformat (now + lease)) d x = Inr (d', y)"
    have "snd x \<in> set (map token [0..<length rs])" using a(2) by (metis prod.collapse set_zip_rightD)
    then have "claim_token_ok (snd x)" using assms(2) by auto
    with claim_one_step [OF a(3) *(1,2)] a(1) show "table_step\<^sup>*\<^sup>* db d'" by simp
  qed simp
qed (use assms in \<open>simp add: claim_many_def\<close>)

lemma rearm_cases:
  assumes "rearm_for_retry r expected lease clock token db = Inr (db', res)"
  obtains now row matches where "ledger_now clock = Inr now" "time_valid (now + lease)" "expected \<noteq> COMMITTED"
    "select_one (\<lambda>x. row_key x = ledger_key r) db = Some row" "dl_state row = state_value expected"
    "dl_record_digest row = digest r" "dl_plan_digest row = plan_digest r"
    "expected \<in> {CLAIMED, REPLAY_CLAIMED} \<longrightarrow>
      (\<exists>expiry. parse_expiry (dl_claim_expires_at row) = Inr expiry \<and> \<not> claim_active row expiry now)"
    "\<And>x. matches x \<Longrightarrow> row_key x = ledger_key r \<and> dl_state x = state_value expected"
    "rowcount matches db = 1"
    "db' = update_where matches (\<lambda>x. x\<lparr>dl_state := state_value (rearm_target expected),
       dl_updated_at := isoformat now, dl_claim_token := Text token,
       dl_claim_expires_at := Text (isoformat (now + lease))\<rparr>) db"
    "cr_claim_token res = Some token" "cr_state res = rearm_target expected"
proof -
  obtain now row expiry where *: "ledger_now clock = Inr now" "time_valid (now + lease)" "expected \<noteq> COMMITTED"
    "select_one (\<lambda>x. row_key x = ledger_key r) db = Some row" "dl_state row = state_value expected"
    "dl_record_digest row = digest r" "dl_plan_digest row = plan_digest r"
    "parse_expiry (dl_claim_expires_at row) = Inr expiry"
    "\<not> (expected \<in> {CLAIMED, REPLAY_CLAIMED} \<and> claim_active row expiry now)"
    using assms by (auto simp: rearm_for_retry_def Let_def plus_delta_def split: option.splits if_splits)
  let ?m = "\<lambda>x. row_key x = ledger_key r \<and> dl_record_digest x = digest r
      \<and> dl_plan_digest x = plan_digest r \<and> dl_state x = state_value expected
      \<and> sql_is (dl_claim_token x) (dl_claim_token row) \<and> sql_is (dl_claim_expires_at x) (dl_claim_expires_at row)
      \<and> sql_is (dl_batch_attempt_id x) (dl_batch_attempt_id row)"
  have "rowcount ?m db = 1 \<and> db' = update_where ?m (\<lambda>x. x\<lparr>dl_state := state_value (rearm_target expected),
       dl_updated_at := isoformat now, dl_claim_token := Text token,
       dl_claim_expires_at := Text (isoformat (now + lease))\<rparr>) db
     \<and> cr_claim_token res = Some token \<and> cr_state res = rearm_target expected"
    using assms * by (auto simp: rearm_for_retry_def Let_def plus_delta_def)
  then show thesis using * by (intro that [of now row ?m]) auto
qed

lemma rearm_step:
  assumes "rearm_for_retry r expected lease clock token db = Inr (db', res)" "claim_token_ok token"
  shows "table_step db db'"
  using assms(1)
proof (rule rearm_cases)
  fix now row matches
  assume *: "ledger_now clock = Inr now" "time_valid (now + lease)" "expected \<noteq> COMMITTED"
    "\<And>x. matches x \<Longrightarrow> row_key x = ledger_key r \<and> dl_state x = state_value expected"
  have "delivery_step expected (rearm_target expected)"
    using *(3) by (auto simp: rearm_target_def intro: ds_rearm ds_replay)
  moreover have "rearm_target expected \<notin> {BATCH_WRITE_STARTED, BATCH_UNCERTAIN}" by (simp add: rearm_target_def)
  moreover assume db': "db' = update_where matches (\<lambda>x. x\<lparr>dl_state := state_value (rearm_target expected),
       dl_updated_at := isoformat now, dl_claim_token := Text token,
       dl_claim_expires_at := Text (isoformat (now + lease))\<rparr>) db"
  ultimately show ?thesis unfolding db'
    by (intro update_rows) (use * assms(2) ledger_now_valid [OF *(1)] in
      \<open>auto simp: row_step_def same_record_def row_key_def row_wf_def\<close>)
qed

text \<open>Everything that can happen to a ledger. Tokens and attempt ids have the shape \<open>secrets\<close> gives them.\<close>

inductive ledger_step :: "ledger \<Rightarrow> ledger \<Rightarrow> bool" where
  ls_claim: "claim_many rs lease clock tok db = Inr (db', res) \<Longrightarrow> \<forall>i. claim_token_ok (tok i) \<Longrightarrow> ledger_step db db'"
| ls_start: "start_write r token contract clock db = Inr db' \<Longrightarrow> ledger_step db db'"
| ls_start_replay: "start_replay_write r token clock db = Inr db' \<Longrightarrow> ledger_step db db'"
| ls_start_many: "start_write_many items contract attempt clock db = Inr (db', a) \<Longrightarrow> ledger_step db db'"
| ls_commit: "mark_committed r token clock db = Inr db' \<Longrightarrow> ledger_step db db'"
| ls_commit_replay: "mark_replay_committed r token clock db = Inr db' \<Longrightarrow> ledger_step db db'"
| ls_commit_many: "mark_committed_many items clock db = Inr db' \<Longrightarrow> ledger_step db db'"
| ls_uncertain: "mark_uncertain r reason token clock db = Inr db' \<Longrightarrow> ledger_step db db'"
| ls_uncertain_replay: "mark_replay_uncertain r reason token clock db = Inr db' \<Longrightarrow> ledger_step db db'"
| ls_uncertain_many: "mark_uncertain_many items reason clock db = Inr db' \<Longrightarrow> ledger_step db db'"
| ls_quarantine: "mark_quarantined r reason token expected clock db = Inr db' \<Longrightarrow> ledger_step db db'"
| ls_quarantine_many: "mark_quarantined_many items reason expected clock db = Inr db' \<Longrightarrow> ledger_step db db'"
| ls_rearm: "rearm_for_retry r expected lease clock token db = Inr (db', cr) \<Longrightarrow> claim_token_ok token \<Longrightarrow> ledger_step db db'"

lemmas ledger_operations = start_write_def start_replay_write_def start_write_many_def mark_committed_def
  mark_replay_committed_def mark_committed_many_def mark_uncertain_def mark_replay_uncertain_def
  mark_uncertain_many_def mark_quarantined_def mark_quarantined_many_def

lemma ledger_step_table: "ledger_step db db' \<Longrightarrow> table_step\<^sup>*\<^sup>* db db'"
proof (induction rule: ledger_step.induct)
  case (ls_claim rs lease clock tok db db' res)
  then show ?case by (rule claim_many_steps)
next
  case (ls_rearm r expected lease clock token db db' cr)
  then show ?case using rearm_step by blast
qed (auto simp: ledger_operations delivery_step.simps split: if_splits
    dest!: transition_step transition_many_steps)

section \<open>What well-formed tables guarantee\<close>

lemma parse_expiry_stamp [simp]: "time_valid t \<Longrightarrow> parse_expiry (Text (isoformat t)) = Inr (Some t)"
  by (simp add: parse_expiry_def iso.parse_render astimezone_utc_def)

lemma parse_expiry_Null [simp]: "parse_expiry Null = Inr None"
  by (simp add: parse_expiry_def)

lemma row_wf_state: "row_wf x \<Longrightarrow> \<exists>s. dl_state x = state_value s \<and> parse_state (dl_state x) = Some s"
  by (auto simp: row_wf_def)

lemma row_wf_attempt: "row_wf x \<Longrightarrow> attempt_from_row x = Inr (case dl_batch_attempt_id x of Text b \<Rightarrow> Some b | _ \<Rightarrow> None)"
  by (auto simp: row_wf_def attempt_from_row_def cell_ok_def split: cell.splits)

lemma row_wf_contract: "row_wf x \<Longrightarrow> contract_from_row x = Inr (case dl_contract_id x of Text b \<Rightarrow> Some b | _ \<Rightarrow> None)"
  by (auto simp: row_wf_def contract_from_row_def cell_ok_def split: cell.splits)

lemma row_wf_expiry:
  "row_wf x \<Longrightarrow> dl_claim_expires_at x = Null \<or> (\<exists>t. time_valid t \<and> dl_claim_expires_at x = Text (isoformat t))"
  by (auto simp: row_wf_def cell_ok_def stamp_def split: cell.splits)

lemma row_wf_batch:
  "row_wf x \<Longrightarrow> dl_state x \<in> state_value ` {BATCH_WRITE_STARTED, BATCH_UNCERTAIN} \<Longrightarrow>
   (\<exists>b. dl_batch_attempt_id x = Text b \<and> batch_attempt_ok b)"
  by (auto simp: row_wf_def cell_ok_def split: cell.splits)

lemma row_wf_entry: "row_wf x \<Longrightarrow> \<exists>e. entry_from_row x = Inr e"
proof -
  assume wf: "row_wf x"
  then obtain s where s: "dl_state x = state_value s" "parse_state (dl_state x) = Some s" using row_wf_state by blast
  have "\<not> (s \<in> {BATCH_WRITE_STARTED, BATCH_UNCERTAIN} \<and> (case dl_batch_attempt_id x of Text b \<Rightarrow> Some b | _ \<Rightarrow> None) = None)"
    using row_wf_batch [OF wf] s(1) by auto
  with s wf show ?thesis by (simp add: entry_from_row_def row_wf_attempt row_wf_contract)
qed

lemma ledger_wf_row: "ledger_wf db \<Longrightarrow> x \<in> set db \<Longrightarrow> row_wf x"
  by (simp add: ledger_wf_def list_all_iff)

lemma ledger_wf_select:
  "ledger_wf db \<Longrightarrow> select_one (\<lambda>x. row_key x = k) db = Some x \<longleftrightarrow> x \<in> set db \<and> row_key x = k"
  by (simp add: ledger_wf_def keyed_select_iff)

lemma ledger_wf_unique:
  "ledger_wf db \<Longrightarrow> x \<in> set db \<Longrightarrow> y \<in> set db \<Longrightarrow> row_key x = row_key y \<Longrightarrow> x = y"
  by (auto simp: ledger_wf_def dest: keyed_inj)

lemma ledger_steps_table: "ledger_step\<^sup>*\<^sup>* db db' \<Longrightarrow> table_step\<^sup>*\<^sup>* db db'"
proof (induction rule: rtranclp_induct)
  case (step y z)
  then show ?case using ledger_step_table [of y z] by (meson rtranclp_trans)
qed simp

lemmas ledger_steps_wf = ledger_steps_table [THEN table_steps_wf]

text \<open>A successful fenced transition, on a well-formed table: exactly one row moves.\<close>

lemma transition_row:
  assumes "transition r state token expected reason req clear setc contract clock db = Inr db'" "ledger_wf db"
  obtains now x where "ledger_now clock = Inr now" "x \<in> set db" "row_key x = ledger_key r"
    "dl_record_digest x = digest r" "dl_plan_digest x = plan_digest r"
    "dl_state x = state_value expected" "dl_claim_token x = Text token"
    "req \<longrightarrow> (\<exists>t. dl_claim_expires_at x = Text (isoformat t) \<and> now < t)"
    "db' = update_where (\<lambda>y. row_key y = ledger_key r) (moved state (isoformat now) reason (if clear then Some Null else None)
       (if setc then Some (text_or_null contract) else None)) db"
proof -
  obtain now where now: "ledger_now clock = Inr now"
    and rc: "rowcount (fenced r expected token (if req then Some (isoformat now) else None)) db = 1"
    and db': "db' = update_where (fenced r expected token (if req then Some (isoformat now) else None))
       (moved state (isoformat now) reason (if clear then Some Null else None)
          (if setc then Some (text_or_null contract) else None)) db"
    using assms(1) by (auto simp: transition_def Let_def split: option.splits)
  obtain x where x: "x \<in> set db" "fenced r expected token (if req then Some (isoformat now) else None) x"
    using rc by (rule rowcount_1_obtain)
  have only: "fenced r expected token (if req then Some (isoformat now) else None) y \<longleftrightarrow> row_key y = ledger_key r"
    if "y \<in> set db" for y
    using ledger_wf_unique [OF assms(2) that x(1)] x(2) by (auto simp: fenced_def)
  have "update_where (fenced r expected token (if req then Some (isoformat now) else None)) f db
      = update_where (\<lambda>y. row_key y = ledger_key r) f db" for f
    unfolding update_where_def using only by (simp cong: map_cong)
  moreover have "\<exists>t. dl_claim_expires_at x = Text (isoformat t) \<and> now < t" if req
  proof -
    have "sql_gt (dl_claim_expires_at x) (Text (isoformat now))" using x(2) that by (simp add: fenced_def)
    with row_wf_expiry [OF ledger_wf_row [OF assms(2) x(1)]] iso.column_gt [OF _ ledger_now_valid [OF now]]
    show ?thesis by auto
  qed
  ultimately show thesis
    using that [OF now x(1)] x(2) db' by (simp add: fenced_def sql_eq_def)
qed

lemma row_key_moved [simp]: "row_key (moved state now reason attempt contract x) = row_key x"
  by (simp add: moved_def row_key_def)

lemma fenced_key: "fenced r expected token u x \<Longrightarrow> row_key x = ledger_key r"
  by (simp add: fenced_def)

lemma update_where_twice:
  assumes "\<And>y. P y \<Longrightarrow> \<not> Q (f y)" "\<And>y. \<not> P y \<Longrightarrow> Q y = R y" "\<And>y. P y \<Longrightarrow> R y"
  shows "update_where Q f (update_where P f db) = update_where R f db"
  unfolding update_where_def using assms by auto

text \<open>A successful batch transition: every item's row was fenced, all of them move, nothing else does.\<close>

lemma fold_transition:
  assumes "foldE (transition_one state expected reason req attempt setc contract now) db items = Inr (db', us)"
    and "keyed row_key db" "distinct (map (ledger_key \<circ> fst) items)"
  shows "db' = update_where (\<lambda>y. row_key y \<in> ledger_key ` fst ` set items)
      (moved state now reason (map_option Text attempt) (if setc then Some (text_or_null contract) else None)) db
    \<and> (\<forall>x \<in> set items. \<exists>y \<in> set db. fenced (fst x) expected (snd x) (if req then Some now else None) y)"
  using assms
proof (induction items arbitrary: db us)
  case Nil
  then show ?case by (simp add: update_where_def)
next
  case (Cons x items)
  let ?mv = "moved state now reason (map_option Text attempt) (if setc then Some (text_or_null contract) else None)"
  let ?fe = "\<lambda>x. fenced (fst x) expected (snd x) (if req then Some now else None)"
  from Cons.prems(1) obtain db1 us1 where one: "transition_one state expected reason req attempt setc contract now db x = Inr (db1, ())"
    and rest: "foldE (transition_one state expected reason req attempt setc contract now) db1 items = Inr (db', us1)" by auto
  have rc: "rowcount (?fe x) db = 1" and db1: "db1 = update_where (?fe x) ?mv db"
    using one by (auto simp: transition_one_def Let_def)
  obtain y where y: "y \<in> set db" "?fe x y" using rc by (rule rowcount_1_obtain)
  have only: "?fe x z \<longleftrightarrow> row_key z = ledger_key (fst x)" if "z \<in> set db" for z
    using keyed_inj [OF Cons.prems(2) that y(1)] y(2) fenced_key by metis
  then have db1': "db1 = update_where (\<lambda>z. row_key z = ledger_key (fst x)) ?mv db"
    unfolding db1 update_where_def by (simp cong: map_cong)
  have "keyed row_key db1" unfolding db1' by (rule keyed_update [OF Cons.prems(2)]) simp
  from Cons.IH [OF rest this] Cons.prems(3)
  have IH: "db' = update_where (\<lambda>y. row_key y \<in> ledger_key ` fst ` set items) ?mv db1"
    "\<forall>i \<in> set items. \<exists>y \<in> set db1. ?fe i y" by auto
  have "ledger_key (fst x) \<notin> ledger_key ` fst ` set items" using Cons.prems(3) by auto
  then have "db' = update_where (\<lambda>y. row_key y \<in> ledger_key ` fst ` set (x # items)) ?mv db"
    unfolding IH(1) db1' by (intro update_where_twice) auto
  moreover have "\<exists>y \<in> set db. ?fe i y" if i: "i \<in> set items" for i
  proof -
    obtain z where z: "z \<in> set db1" "?fe i z" using bspec [OF IH(2) i] by (rule bexE)
    have "row_key z \<noteq> ledger_key (fst x)"
      using fenced_key [OF z(2)] i \<open>ledger_key (fst x) \<notin> _\<close> by force
    with z(1) have "z \<in> set db" unfolding db1' by (auto simp: in_update_where)
    with z(2) show ?thesis by blast
  qed
  ultimately show ?case using y by auto
qed

lemma transition_many_rows:
  assumes "transition_many items state expected reason req attempt setc contract clock db = Inr db'"
    and "keyed row_key db" "items \<noteq> []"
  obtains now where "ledger_now clock = Inr now"
    "db' = update_where (\<lambda>y. row_key y \<in> ledger_key ` fst ` set items)
      (moved state (isoformat now) reason (map_option Text attempt) (if setc then Some (text_or_null contract) else None)) db"
    "\<forall>x \<in> set items. \<exists>y \<in> set db. fenced (fst x) expected (snd x) (if req then Some (isoformat now) else None) y"
proof -
  obtain now us where "ledger_now clock = Inr now" "distinct (map (ledger_key \<circ> fst) items)"
    "foldE (transition_one state expected reason req attempt setc contract (isoformat now)) db items = Inr (db', us)"
    using assms(1,3) by (auto simp: transition_many_def)
  with fold_transition [OF this(3) assms(2) this(2)] that show thesis by blast
qed

section \<open>Properties\<close>

definition sample_ledger :: "delivery_state \<Rightarrow> ledger" where
  "sample_ledger state = [(new_row sample_record ''token'' (isoformat 0) (isoformat 10))\<lparr>dl_state := state_value state\<rparr>]"

lemma sample_ledger_wf:
  assumes "state \<notin> {BATCH_WRITE_STARTED, BATCH_UNCERTAIN}"
  shows "ledger_wf (sample_ledger state)"
proof -
  have "time_valid 0" "time_valid 10" by (simp_all add: time_valid_def day_us_def)
  then have "row_wf (new_row sample_record ''token'' (isoformat 0) (isoformat 10))"
    by (intro new_row_wf) (simp_all add: claim_token_ok_def)
  with assms show ?thesis by (auto simp: ledger_wf_def sample_ledger_def row_wf_def keyed_def)
qed

text \<open>
  Every ledger this code can reach from an empty one is well formed: one row per transfer
  identity, only known states, a batch attempt id wherever a batch state needs one, and every stored token,
  timestamp, attempt and contract of the shape its reader accepts. So no lookup of such a
  ledger ever raises.
\<close>

theorem ledger_invariant:
  assumes "ledger_wf db" "ledger_step\<^sup>*\<^sup>* db db'"
  shows "ledger_wf db' \<and> (\<forall>r. \<exists>e. ledger_get r db' = Inr e)"
proof -
  have wf: "ledger_wf db'" using assms ledger_steps_wf by blast
  have "\<exists>e. ledger_get r db' = Inr e" for r
  proof (cases "select_one (\<lambda>x. row_key x = ledger_key r) db'")
    case (Some x)
    then have "x \<in> set db'" using wf by (simp add: ledger_wf_select)
    then obtain e where "entry_from_row x = Inr e" using row_wf_entry ledger_wf_row [OF wf] by blast
    with Some show ?thesis by (simp add: ledger_get_def)
  qed (simp add: ledger_get_def)
  with wf show ?thesis by blast
qed

theorem ledger_invariant_witness: "ledger_wf (sample_ledger CLAIMED) \<and> (\<forall>r. \<exists>e. ledger_get r (sample_ledger CLAIMED) = Inr e)"
  by (rule ledger_invariant [where db = "sample_ledger CLAIMED"]) (simp_all add: sample_ledger_wf)



lemma plus_delta_Inr: "plus_delta t d = Inr u \<longleftrightarrow> time_valid (t + d) \<and> u = t + d"
  by (auto simp: plus_delta_def)

lemma claim_Inr:
  "claim r lease clock token db = Inr (db', res) \<longleftrightarrow>
     lease_duration_ok lease \<and> (\<exists>now. ledger_now clock = Inr now \<and> time_valid (now + lease)
       \<and> claim_one now (isoformat (now + lease)) db (r, token) = Inr (db', res))"
proof -
  have "claim r lease clock token db = raise_if (\<not> lease_duration_ok lease) (ValueError ''claim duration is outside supported range'')
      (bindE (ledger_now clock) (\<lambda>now. bindE (plus_delta now lease) (\<lambda>e. claim_one now (isoformat e) db (r, token))))"
    by (auto simp: claim_def claim_many_def MAX_LEDGER_BATCH_ITEMS_def raise_if_def bindE_def split: sum.splits)
  then show ?thesis by (auto simp: plus_delta_Inr)
qed

lemma claim_token_cases:
  assumes "claim r lease clock token db = Inr (db', res)" "ledger_wf db" "cr_claim_token res = Some t"
  obtains now where "ledger_now clock = Inr now" "t = token"
    "\<forall>x \<in> set db. row_key x = ledger_key r \<longrightarrow> dl_state x = state_value CLAIMED
       \<and> (\<exists>e. time_valid e \<and> dl_claim_expires_at x = Text (isoformat e) \<and> e \<le> now)"
    "\<exists>y \<in> set db'. row_key y = ledger_key r \<and> dl_state y = state_value CLAIMED \<and> dl_claim_token y = Text t
       \<and> dl_claim_expires_at y = Text (isoformat (now + lease))"
    "\<forall>x. row_key x \<noteq> ledger_key r \<longrightarrow> (x \<in> set db' \<longleftrightarrow> x \<in> set db)"
proof -
  obtain now where now: "ledger_now clock = Inr now"
    and one: "claim_one now (isoformat (now + lease)) db (r, token) = Inr (db', res)"
    using assms(1) by (auto simp: claim_Inr)
  show thesis
  proof (cases "select_one (\<lambda>x. row_key x = ledger_key r) db")
    case None
    with one have "db' = db @ [new_row r token (isoformat now) (isoformat (now + lease))]" "t = token"
      using assms(3) by (auto simp: claim_one_def)
    with None show thesis by (intro that [OF now]) (auto simp: select_one_None)
  next
    case (Some row)
    then have row: "row \<in> set db" "row_key row = ledger_key r" using assms(2) by (simp_all add: ledger_wf_select)
    have "claim_existing r token now (isoformat (now + lease)) row db = Inr (db', res)"
      using one Some by (simp add: claim_one_def)
    then show thesis
    proof (cases rule: claim_existing_cases)
      case (recovered matches)
      obtain e where e: "parse_expiry (dl_claim_expires_at row) = Inr (Some e)" "e \<le> now" using recovered(5) by blast
      have "time_valid e \<and> dl_claim_expires_at row = Text (isoformat e)"
        using row_wf_expiry [OF ledger_wf_row [OF assms(2) row(1)]] e(1) by auto
      moreover have "x = row" if "x \<in> set db" "row_key x = ledger_key r" for x
        using ledger_wf_unique [OF assms(2) that(1) row(1)] that(2) row(2) by simp
      ultimately have old: "\<forall>x \<in> set db. row_key x = ledger_key r \<longrightarrow> dl_state x = state_value CLAIMED
          \<and> (\<exists>e. time_valid e \<and> dl_claim_expires_at x = Text (isoformat e) \<and> e \<le> now)"
        using recovered(4) e(2) by blast
      obtain z where z: "z \<in> set db" "matches z" using recovered(3) by (rule rowcount_1_obtain)
      let ?f = "\<lambda>x. x\<lparr>dl_claim_token := Text token, dl_claim_expires_at := Text (isoformat (now + lease)),
          dl_updated_at := isoformat now, dl_reason_code := Null\<rparr>"
      have "?f z \<in> set db'" using z by (auto simp: recovered(1) in_update_where)
      moreover have "row_key (?f z) = ledger_key r" "dl_state (?f z) = state_value CLAIMED"
        using recovered(2) [OF z(2)] by (simp_all add: row_key_def)
      ultimately have new: "\<exists>y \<in> set db'. row_key y = ledger_key r \<and> dl_state y = state_value CLAIMED
          \<and> dl_claim_token y = Text token \<and> dl_claim_expires_at y = Text (isoformat (now + lease))"
        by (intro bexI [of _ "?f z"]) simp_all
      have "x \<in> set db' \<longleftrightarrow> x \<in> set db" if x: "row_key x \<noteq> ledger_key r" for x
      proof -
        have "row_key (?f y) = row_key y" for y by (simp add: row_key_def)
        with x recovered(2) show ?thesis unfolding recovered(1) in_update_where by metis
      qed
      with old new recovered(6) assms(3) show thesis by (intro that [OF now]) simp_all
    qed (use assms(3) in simp)
  qed
qed

text \<open>
  C11. A claim token is issued only for a record without a row, or for one whose claim has lapsed at
  the reading of the clock; the record's row then carries exactly that token until now plus
  the lease, and no other row changes. In particular two live claims never coexist.
\<close>

theorem claim_is_exclusive:
  assumes "ledger_wf db" "claim r lease clock token db = Inr (db', res)" "cr_claim_token res = Some t"
  shows "\<exists>now. ledger_now clock = Inr now \<and> t = token
    \<and> (\<forall>x \<in> set db. row_key x = ledger_key r \<longrightarrow> dl_state x = state_value CLAIMED
         \<and> (\<exists>e. time_valid e \<and> dl_claim_expires_at x = Text (isoformat e) \<and> e \<le> now))
    \<and> (\<exists>y \<in> set db'. row_key y = ledger_key r \<and> dl_state y = state_value CLAIMED \<and> dl_claim_token y = Text t
         \<and> dl_claim_expires_at y = Text (isoformat (now + lease)))
    \<and> (\<forall>x. row_key x \<noteq> ledger_key r \<longrightarrow> (x \<in> set db' \<longleftrightarrow> x \<in> set db))"
  using assms(2,1,3) by (rule claim_token_cases) blast

lemma sample_claim:
  "\<exists>db' res. claim sample_record 1 (Aware 5 0) ''token'' [] = Inr (db', res) \<and> cr_claim_token res = Some ''token''"
proof -
  have "time_valid 5" "time_valid 6" by (simp_all add: time_valid_def day_us_def)
  then show ?thesis
    by (simp add: claim_Inr lease_duration_ok_def MAX_CLAIM_DURATION_def sec_us_def ledger_now_def astimezone_utc_def
        claim_one_def select_one_def)
qed

lemma ledger_wf_Nil: "ledger_wf []"
  by (simp add: ledger_wf_def)

theorem claim_is_exclusive_witness:
  "\<exists>db' res. claim sample_record 1 (Aware 5 0) ''token'' [] = Inr (db', res)
     \<and> (\<exists>y \<in> set db'. row_key y = ledger_key sample_record \<and> dl_claim_token y = Text ''token'')"
proof -
  obtain db' res where *: "claim sample_record 1 (Aware 5 0) ''token'' [] = Inr (db', res)"
    "cr_claim_token res = Some ''token''" using sample_claim by blast
  from claim_is_exclusive [OF ledger_wf_Nil *] * show ?thesis by blast
qed

lemma transition_needs_token:
  assumes "ledger_wf db" "x \<in> set db" "row_key x = ledger_key r" "dl_claim_token x \<noteq> Text t"
  shows "transition r state t expected reason req clear setc contract clock db \<noteq> Inr db'"
proof
  assume "transition r state t expected reason req clear setc contract clock db = Inr db'"
  then obtain y where "y \<in> set db" "row_key y = ledger_key r" "dl_claim_token y = Text t"
    using assms(1) by (rule transition_row)
  with ledger_wf_unique [OF assms(1,2)] assms(3,4) show False by metis
qed

lemma transition_many_needs_token:
  assumes "ledger_wf db" "x \<in> set db" "row_key x = ledger_key r" "dl_claim_token x \<noteq> Text t" "(r, t) \<in> set items"
  shows "transition_many items state expected reason req attempt setc contract clock db \<noteq> Inr db'"
proof
  assume tr: "transition_many items state expected reason req attempt setc contract clock db = Inr db'"
  have "keyed row_key db" "items \<noteq> []" using assms(1,5) by (auto simp: ledger_wf_def)
  with tr obtain now where "\<forall>i \<in> set items. \<exists>y \<in> set db.
      fenced (fst i) expected (snd i) (if req then Some (isoformat now) else None) y"
    by (rule transition_many_rows)
  from bspec [OF this assms(5)] obtain y where "y \<in> set db" "row_key y = ledger_key r" "dl_claim_token y = Text t"
    by (auto simp: fenced_def sql_eq_def)
  with ledger_wf_unique [OF assms(1,2)] assms(3,4) show False by metis
qed

text \<open>
  C12. Fencing: whatever state a delivery is in, a worker whose token is not the one its row carries can neither
  start nor finish a write of it, first attempt or replay, alone or in a batch, nor quarantine it. A
  claim and a rearm replace the token of the row (\<open>claim_is_exclusive\<close>, \<open>rearm_token\<close>), so the worker they
  took the delivery from is shut out also while its successor's write is under way.
\<close>

theorem stale_claimant_is_fenced:
  assumes "ledger_wf db" "x \<in> set db" "row_key x = ledger_key r" "dl_claim_token x \<noteq> Text t"
  shows "(\<nexists>d. start_write r t contract c db = Inr d) \<and> (\<nexists>d. start_replay_write r t c db = Inr d)
    \<and> (\<nexists>d. mark_committed r t c db = Inr d) \<and> (\<nexists>d. mark_replay_committed r t c db = Inr d)
    \<and> (\<nexists>d. mark_uncertain r reason t c db = Inr d) \<and> (\<nexists>d. mark_replay_uncertain r reason t c db = Inr d)
    \<and> (\<nexists>d. mark_quarantined r reason t expected c db = Inr d)
    \<and> ((r, t) \<in> set items \<longrightarrow> (\<nexists>d. start_write_many items contract attempt c db = Inr d)
         \<and> (\<nexists>d. mark_committed_many items c db = Inr d) \<and> (\<nexists>d. mark_uncertain_many items reason c db = Inr d)
         \<and> (\<nexists>d. mark_quarantined_many items reason expected c db = Inr d))"
proof -
  note scalar = transition_needs_token [OF assms] and many = transition_many_needs_token [OF assms]
  show ?thesis unfolding ledger_operations using scalar many by auto
qed

lemma rearm_token:
  assumes "rearm_for_retry r expected lease clock token db = Inr (db', res)" "ledger_wf db"
  shows "\<exists>x \<in> set db'. row_key x = ledger_key r \<and> dl_claim_token x = Text token \<and> dl_state x = state_value (rearm_target expected)"
  using assms(1)
proof (rule rearm_cases)
  fix now row matches
  assume *: "\<And>x. matches x \<Longrightarrow> row_key x = ledger_key r \<and> dl_state x = state_value expected" "rowcount matches db = 1"
    and db': "db' = update_where matches (\<lambda>x. x\<lparr>dl_state := state_value (rearm_target expected),
       dl_updated_at := isoformat now, dl_claim_token := Text token,
       dl_claim_expires_at := Text (isoformat (now + lease))\<rparr>) db"
  obtain z where z: "z \<in> set db" "matches z" using *(2) by (rule rowcount_1_obtain)
  let ?z = "z\<lparr>dl_state := state_value (rearm_target expected), dl_updated_at := isoformat now, dl_claim_token := Text token,
       dl_claim_expires_at := Text (isoformat (now + lease))\<rparr>"
  have "?z \<in> set db'" using z unfolding db' by (auto simp: in_update_where)
  moreover have "row_key ?z = ledger_key r" using *(1) [OF z(2)] by (simp add: row_key_def)
  ultimately show ?thesis by (intro bexI [of _ ?z]) simp_all
qed

text \<open>A write under way: its holder may commit it, the worker that lost the claim may not.\<close>

theorem stale_claimant_is_fenced_witness:
  "(\<nexists>d. mark_committed sample_record ''stale'' (Aware 5 0) (sample_ledger WRITE_STARTED) = Inr d)
     \<and> (\<exists>d. mark_committed sample_record ''token'' (Aware 5 0) (sample_ledger WRITE_STARTED) = Inr d)"
proof -
  let ?x = "hd (sample_ledger WRITE_STARTED)"
  have x: "?x \<in> set (sample_ledger WRITE_STARTED)" "row_key ?x = ledger_key sample_record" "dl_claim_token ?x \<noteq> Text ''stale''"
    by (simp_all add: sample_ledger_def row_key_def ledger_key_def new_row_def)
  have "rowcount (fenced sample_record WRITE_STARTED ''token'' None) (sample_ledger WRITE_STARTED) = 1"
    by (simp add: sample_ledger_def rowcount_def fenced_def sql_eq_def row_key_def ledger_key_def new_row_def)
  then have "\<exists>d. mark_committed sample_record ''token'' (Aware 5 0) (sample_ledger WRITE_STARTED) = Inr d"
    by (simp add: mark_committed_def transition_def claim_token_ok_def ledger_now_def astimezone_utc_def Let_def time_valid_def day_us_def)
  then show ?thesis using stale_claimant_is_fenced [OF sample_ledger_wf x] by blast
qed

text \<open>
  The write boundary: \<open>start_write\<close> succeeds only for the holder of an unexpired claim on the very
  content that was claimed, and then moves exactly that row to the write-started state.
\<close>

theorem write_boundary:
  assumes "ledger_wf db" "start_write r token contract clock db = Inr db'"
  shows "\<exists>now x e. ledger_now clock = Inr now \<and> x \<in> set db \<and> row_key x = ledger_key r
    \<and> dl_record_digest x = digest r \<and> dl_plan_digest x = plan_digest r
    \<and> dl_state x = state_value CLAIMED \<and> dl_claim_token x = Text token
    \<and> dl_claim_expires_at x = Text (isoformat e) \<and> now < e
    \<and> db' = update_where (\<lambda>y. row_key y = ledger_key r)
        (\<lambda>y. y\<lparr>dl_state := state_value WRITE_STARTED, dl_updated_at := isoformat now, dl_reason_code := Null,
               dl_batch_attempt_id := Null, dl_contract_id := text_or_null contract\<rparr>) db"
proof -
  obtain now x where *: "ledger_now clock = Inr now" "x \<in> set db" "row_key x = ledger_key r"
    "dl_record_digest x = digest r" "dl_plan_digest x = plan_digest r"
    "dl_state x = state_value CLAIMED" "dl_claim_token x = Text token"
    "True \<longrightarrow> (\<exists>t. dl_claim_expires_at x = Text (isoformat t) \<and> now < t)"
    "db' = update_where (\<lambda>y. row_key y = ledger_key r) (moved WRITE_STARTED (isoformat now) None
       (if True then Some Null else None) (if True then Some (text_or_null contract) else None)) db"
    using assms(2,1) unfolding start_write_def by (rule transition_row)
  moreover have "moved WRITE_STARTED (isoformat now) None (if True then Some Null else None)
      (if True then Some (text_or_null contract) else None)
    = (\<lambda>y. y\<lparr>dl_state := state_value WRITE_STARTED, dl_updated_at := isoformat now, dl_reason_code := Null,
             dl_batch_attempt_id := Null, dl_contract_id := text_or_null contract\<rparr>)"
    by (rule ext) (simp add: moved_def text_or_null_def)
  ultimately show ?thesis by auto
qed

lemma sample_start:
  "\<exists>db'. start_write sample_record ''token'' None (Aware 5 0) (sample_ledger CLAIMED) = Inr db'"
proof -
  have v: "time_valid 5" "time_valid 10" by (simp_all add: time_valid_def day_us_def)
  then have "isoformat 5 < isoformat 10" by (simp add: isoformat_less_iff)
  then have "rowcount (fenced sample_record CLAIMED ''token'' (Some (isoformat 5))) (sample_ledger CLAIMED) = 1"
    by (simp add: sample_ledger_def rowcount_def fenced_def sql_eq_def row_key_def ledger_key_def new_row_def)
  with v show ?thesis
    by (simp add: start_write_def transition_def claim_token_ok_def ledger_now_def astimezone_utc_def Let_def)
qed

theorem write_boundary_witness:
  "\<exists>db' x. start_write sample_record ''token'' None (Aware 5 0) (sample_ledger CLAIMED) = Inr db'
     \<and> x \<in> set (sample_ledger CLAIMED) \<and> dl_claim_token x = Text ''token''"
proof -
  obtain db' where *: "start_write sample_record ''token'' None (Aware 5 0) (sample_ledger CLAIMED) = Inr db'"
    using sample_start by blast
  from write_boundary [OF sample_ledger_wf *] * show ?thesis by blast
qed

subsection \<open>Writes that may have reached the destination\<close>














lemma start_write_many_rows:
  assumes "ledger_wf db" "start_write_many items contract attempt clock db = Inr (db', a)" "items \<noteq> []"
  obtains now where "ledger_now clock = Inr now" "a = attempt" "batch_attempt_ok attempt"
    "length items \<le> MAX_LEDGER_BATCH_ITEMS" "distinct (map (ledger_key \<circ> fst) items)"
    "db' = update_where (\<lambda>y. row_key y \<in> ledger_key ` fst ` set items)
      (moved BATCH_WRITE_STARTED (isoformat now) None (Some (Text attempt)) (Some (text_or_null contract))) db"
    "\<forall>x \<in> set items. \<exists>y \<in> set db. fenced (fst x) CLAIMED (snd x) (Some (isoformat now)) y"
proof -
  have tm: "transition_many items BATCH_WRITE_STARTED CLAIMED None True (Some attempt) True contract clock db = Inr db'"
    and a: "a = attempt" using assms(2) by (auto simp: start_write_many_def)
  have ok: "batch_attempt_ok attempt" "length items \<le> MAX_LEDGER_BATCH_ITEMS" "distinct (map (ledger_key \<circ> fst) items)"
    using tm assms(3) by (auto simp: transition_many_def)
  have "keyed row_key db" using assms(1) by (simp add: ledger_wf_def)
  with tm obtain now where "ledger_now clock = Inr now"
    "db' = update_where (\<lambda>y. row_key y \<in> ledger_key ` fst ` set items)
      (moved BATCH_WRITE_STARTED (isoformat now) None (map_option Text (Some attempt))
         (if True then Some (text_or_null contract) else None)) db"
    "\<forall>x \<in> set items. \<exists>y \<in> set db. fenced (fst x) CLAIMED (snd x) (if True then Some (isoformat now) else None) y"
    using assms(3) by (rule transition_many_rows)
  then show thesis using that [of now] a ok by simp
qed

lemma moved_state [simp]: "dl_state (moved s now reason attempt contract x) = state_value s"
  and moved_attempt [simp]: "dl_batch_attempt_id (moved s now reason (Some c) contract x) = c"
  by (simp_all add: moved_def)

lemma ledger_wf_filter_length:
  assumes "ledger_wf db" "set ks = row_key ` set (filter P db)" "distinct ks"
  shows "length (filter P db) = length ks"
proof -
  have "distinct (map row_key (filter P db))" using assms(1) by (simp add: ledger_wf_def keyed_def distinct_map_filter)
  moreover have "set (map row_key (filter P db)) = set ks" using assms(2) by simp
  ultimately show ?thesis using assms(3) by (metis distinct_card length_map)
qed

lemma mapE_entry_keys: "mapE entry_from_row xs = Inr es \<Longrightarrow> map le_key es = map row_key xs"
  by (induction xs arbitrary: es) (auto simp: entry_from_row_def split: option.splits)

lemma entry_keys_total: "list_all row_wf xs \<Longrightarrow> \<exists>es. mapE entry_from_row xs = Inr es \<and> map le_key es = map row_key xs"
proof (induction xs)
  case (Cons x xs)
  then show ?case using row_wf_entry [of x] mapE_entry_keys [of "x # xs"] by auto
qed simp

lemma batch_read:
  assumes "ledger_wf db" "batch_attempt_ok a" "distinct ks" "length ks \<le> MAX_LEDGER_BATCH_ITEMS"
    and "row_key ` set (filter (\<lambda>x. sql_eq (dl_batch_attempt_id x) (Text a)) db) = set ks"
  shows "\<exists>es. get_batch_attempt a db = Inr es \<and> le_key ` set es = set ks"
proof -
  let ?rows = "filter (\<lambda>x. sql_eq (dl_batch_attempt_id x) (Text a)) db"
  have len: "length ?rows \<le> MAX_LEDGER_BATCH_ITEMS"
    using ledger_wf_filter_length [OF assms(1) assms(5) [symmetric] assms(3)] assms(4) by simp
  have "list_all row_wf (sort_key dl_record_digest ?rows)"
    using assms(1) by (simp add: ledger_wf_def list_all_iff)
  then obtain es where es: "mapE entry_from_row (sort_key dl_record_digest ?rows) = Inr es"
    "map le_key es = map row_key (sort_key dl_record_digest ?rows)" using entry_keys_total by blast
  have "le_key ` set es = row_key ` set ?rows" using arg_cong [OF es(2), of set] by simp
  with es(1) len assms(2,5) show ?thesis by (auto simp: get_batch_attempt_def Let_def)
qed

text \<open>
  An atomic batch write boundary is all or nothing and durable in its membership: when
  \<open>start_write_many\<close> succeeds every item was an unexpired claim held with its own token, all of their
  rows are now batch-write-started under the one attempt id and no other row changed; and reading the
  attempt back gives exactly those deliveries.
\<close>

theorem batch_membership:
  assumes "ledger_wf db" "items \<noteq> []" "start_write_many items contract attempt clock db = Inr (db', a)"
    and "\<forall>x \<in> set db. dl_batch_attempt_id x \<noteq> Text attempt"
  shows "a = attempt
    \<and> (\<forall>i \<in> set items. \<exists>x \<in> set db. row_key x = ledger_key (fst i) \<and> dl_state x = state_value CLAIMED
         \<and> dl_claim_token x = Text (snd i))
    \<and> (\<forall>i \<in> set items. \<exists>y \<in> set db'. row_key y = ledger_key (fst i) \<and> dl_state y = state_value BATCH_WRITE_STARTED
         \<and> dl_batch_attempt_id y = Text attempt)
    \<and> (\<forall>x. row_key x \<notin> ledger_key ` fst ` set items \<longrightarrow> (x \<in> set db' \<longleftrightarrow> x \<in> set db))
    \<and> (\<exists>es. get_batch_attempt attempt db' = Inr es \<and> le_key ` set es = ledger_key ` fst ` set items)"
proof -
  obtain now where *: "a = attempt" "batch_attempt_ok attempt" "length items \<le> MAX_LEDGER_BATCH_ITEMS"
    "distinct (map (ledger_key \<circ> fst) items)"
    "db' = update_where (\<lambda>y. row_key y \<in> ledger_key ` fst ` set items)
      (moved BATCH_WRITE_STARTED (isoformat now) None (Some (Text attempt)) (Some (text_or_null contract))) db"
    "\<forall>x \<in> set items. \<exists>y \<in> set db. fenced (fst x) CLAIMED (snd x) (Some (isoformat now)) y"
    using assms(1,3,2) by (rule start_write_many_rows)
  let ?mv = "moved BATCH_WRITE_STARTED (isoformat now) None (Some (Text attempt)) (Some (text_or_null contract))"
  have wf: "ledger_wf db'"
    using ledger_step_table [OF ls_start_many [OF assms(3)]] table_steps_wf assms(1) by blast
  have old: "\<exists>x \<in> set db. row_key x = ledger_key (fst i) \<and> dl_state x = state_value CLAIMED \<and> dl_claim_token x = Text (snd i)"
    if i: "i \<in> set items" for i
    using bspec [OF *(6) i] by (auto simp: fenced_def sql_eq_def)
  have new: "\<exists>y \<in> set db'. row_key y = ledger_key (fst i) \<and> dl_state y = state_value BATCH_WRITE_STARTED
      \<and> dl_batch_attempt_id y = Text attempt" if i: "i \<in> set items" for i
  proof -
    obtain x where "x \<in> set db" "row_key x = ledger_key (fst i)" using old [OF i] by blast
    then have "?mv x \<in> set db'" using i by (auto simp: *(5) in_update_where)
    then show ?thesis using \<open>row_key x = _\<close> by (intro bexI [of _ "?mv x"]) simp_all
  qed
  let ?P = "\<lambda>x. sql_eq (dl_batch_attempt_id x) (Text attempt)"
  have mem: "row_key ` set (filter ?P db') = ledger_key ` fst ` set items" (is "_ = ?K")
  proof (rule equalityI; rule subsetI)
    fix k assume "k \<in> row_key ` set (filter ?P db')"
    then obtain y where y: "y \<in> set db'" "dl_batch_attempt_id y = Text attempt" "k = row_key y"
      by (auto simp: sql_eq_def)
    from y(1) have "y \<in> set db \<or> row_key y \<in> ?K" unfolding *(5) in_update_where by (metis row_key_moved)
    with y assms(4) show "k \<in> ?K" by metis
  next
    fix k assume "k \<in> ?K"
    then obtain i where "i \<in> set items" "k = ledger_key (fst i)" by (auto simp only: image_iff)
    then show "k \<in> row_key ` set (filter ?P db')" using new [of i] by (auto simp: sql_eq_def image_iff)
  qed
  have "\<exists>es. get_batch_attempt attempt db' = Inr es \<and> le_key ` set es = ledger_key ` fst ` set items"
    using batch_read [OF wf *(2), of "map (ledger_key \<circ> fst) items"] mem *(3,4) by (simp add: image_image)
  moreover have "x \<in> set db' \<longleftrightarrow> x \<in> set db" if "row_key x \<notin> ledger_key ` fst ` set items" for x
    unfolding *(5) in_update_where using that by (metis row_key_moved)
  ultimately show ?thesis
    by (intro conjI ballI allI impI) (rule *(1), erule old, erule new, simp_all)
qed

lemma sample_batch:
  "\<exists>db' a. start_write_many [(sample_record, ''token'')] None (replicate 32 CHR ''a'') (Aware 5 0) (sample_ledger CLAIMED)
     = Inr (db', a)"
proof -
  have v: "time_valid 5" "time_valid 10" by (simp_all add: time_valid_def day_us_def)
  then have "isoformat 5 < isoformat 10" by (simp add: isoformat_less_iff)
  then have "rowcount (fenced sample_record CLAIMED ''token'' (Some (isoformat 5))) (sample_ledger CLAIMED) = 1"
    by (simp add: sample_ledger_def rowcount_def fenced_def sql_eq_def row_key_def ledger_key_def new_row_def)
  with v show ?thesis
    by (simp add: start_write_many_def transition_many_def transition_one_def claim_token_ok_def ledger_now_def
        astimezone_utc_def Let_def MAX_LEDGER_BATCH_ITEMS_def batch_attempt_ok_def lower_hex_def list_all_iff hex_digit_def)
qed

theorem batch_membership_witness:
  "\<exists>db' a es. start_write_many [(sample_record, ''token'')] None (replicate 32 CHR ''a'') (Aware 5 0) (sample_ledger CLAIMED)
       = Inr (db', a)
     \<and> get_batch_attempt (replicate 32 CHR ''a'') db' = Inr es \<and> le_key ` set es = {ledger_key sample_record}"
proof -
  obtain db' a where *: "start_write_many [(sample_record, ''token'')] None (replicate 32 CHR ''a'') (Aware 5 0)
      (sample_ledger CLAIMED) = Inr (db', a)" using sample_batch by blast
  have "\<forall>x \<in> set (sample_ledger CLAIMED). dl_batch_attempt_id x \<noteq> Text (replicate 32 CHR ''a'')"
    by (simp add: sample_ledger_def)
  from batch_membership [OF sample_ledger_wf _ * this] * show ?thesis by auto
qed

text \<open>
  Reusing a transfer identity with different content is detected: the claim raises
  \<open>ReplayDetected\<close>, and because a claim of many records is one transaction, any batch that
  contains such a record issues nothing.
\<close>

theorem replay_is_detected:
  assumes "ledger_wf db" "x \<in> set db" "row_key x = ledger_key r"
    and "dl_record_digest x \<noteq> digest r \<or> dl_plan_digest x \<noteq> plan_digest r"
  shows "claim_one now expires db (r, token)
      = Inl (ReplayDetected ''transfer identity was reused with different authenticated content'')
    \<and> (\<nexists>d res. claim_many [r] lease clock tok db = Inr (d, res))"
proof -
  have "select_one (\<lambda>x. row_key x = ledger_key r) db = Some x" using assms by (simp add: ledger_wf_select)
  then have *: "claim_one now expires db (r, token)
      = Inl (ReplayDetected ''transfer identity was reused with different authenticated content'')" for now expires token
    using assms(4) by (simp add: claim_one_def claim_existing_def)
  have "claim_many [r] lease clock tok db \<noteq> Inr (d, res)" for d res
  proof
    assume "claim_many [r] lease clock tok db = Inr (d, res)"
    then show False by (rule claim_many_cases) (use * in simp_all)
  qed
  with * show ?thesis by blast
qed

theorem replay_is_detected_witness:
  "\<nexists>d res. claim_many [sample_record] 1 (Aware 5 0) (\<lambda>_. ''token'') [(hd (sample_ledger COMMITTED))\<lparr>dl_plan_digest := ''x''\<rparr>] = Inr (d, res)"
proof -
  let ?x = "(hd (sample_ledger COMMITTED))\<lparr>dl_plan_digest := ''x''\<rparr>"
  have "row_wf (hd (sample_ledger COMMITTED))"
    using sample_ledger_wf [of COMMITTED] by (simp add: ledger_wf_def sample_ledger_def)
  then have "ledger_wf [?x]" by (simp add: ledger_wf_def row_wf_def keyed_def)
  moreover have "row_key ?x = ledger_key sample_record"
    by (simp add: sample_ledger_def new_row_def row_key_def ledger_key_def)
  moreover have "plan_digest sample_record = []"
    by (simp add: plan_digest_def sample_first_context sample_context_def)
  ultimately show ?thesis using replay_is_detected [of "[?x]" ?x sample_record] by simp
qed

lemma initialize_again:
  assumes "lf_deliveries f = Some (cs, rows)" "set added_columns \<subseteq> set cs" "''replay_fencing_v1'' \<in> set (lf_migrations f)"
  shows "initialize f = f"
proof -
  have "filter (\<lambda>c. c \<notin> set cs) added_columns = []" using assms(2) by (auto simp: filter_empty_conv)
  with assms(1,3) show ?thesis by (simp add: initialize_def Let_def)
qed

lemma initialize_shape:
  "\<exists>cs rows. lf_deliveries (initialize f) = Some (cs, rows) \<and> set added_columns \<subseteq> set cs
    \<and> ''replay_fencing_v1'' \<in> set (lf_migrations (initialize f))"
  by (cases "lf_deliveries f") (auto simp: initialize_def Let_def)

text \<open>
  Opening an existing ledger applies the replay fencing exactly once: the migration is idempotent,
  loses no row, and leaves no delivery of a not yet fenced ledger in a state that would be
  retried as if no write had started; committed rows are untouched.
\<close>

theorem migration_fences_once:
  "initialize (initialize f) = initialize f
   \<and> (\<exists>cols rows. lf_deliveries (initialize f) = Some (cols, rows)
      \<and> set added_columns \<subseteq> set cols
      \<and> (\<forall>old. map_option snd (lf_deliveries f) = Some old \<longrightarrow>
           map row_key rows = map row_key old
           \<and> (\<forall>x \<in> set old. dl_state x = state_value COMMITTED \<longrightarrow> x \<in> set rows)
           \<and> (''replay_fencing_v1'' \<notin> set (lf_migrations f) \<longrightarrow>
                (\<forall>y \<in> set rows. dl_state y \<notin> {state_value CLAIMED, state_value QUARANTINED}))))"
proof -
  have key: "map row_key (restate a b n db) = map row_key db" for a b n db
    by (auto simp: restate_def update_where_def row_key_def)
  have keep: "x \<in> set (restate a b n db)" if "x \<in> set db" "dl_state x = state_value COMMITTED" "a \<noteq> COMMITTED" for x a b n db
    using that by (auto simp: restate_def in_update_where)
  have gone: "dl_state y \<noteq> state_value a" if "y \<in> set (restate a b False db)" "a \<noteq> b" for y a b db
    using that by (auto simp: restate_def in_update_where)
  have still: "dl_state y \<noteq> state_value c" if "y \<in> set (restate a b n db)" "\<forall>x \<in> set db. dl_state x \<noteq> state_value c" "b \<noteq> c" for y a b c n db
    using that by (auto simp: restate_def in_update_where)
  have 1: "initialize (initialize f) = initialize f" using initialize_shape [of f] initialize_again by metis
  show ?thesis
  proof (cases "lf_deliveries f")
    case None
    then show ?thesis using 1 by (auto simp: initialize_def Let_def)
  next
    case (Some p)
    obtain cs old where p: "p = (cs, old)" by force
    let ?f = "restate QUARANTINED REPLAY_QUARANTINED False (restate CLAIMED REPLAY_CLAIMED False old)"
    let ?b = "restate UNCERTAIN BATCH_UNCERTAIN True (restate WRITE_STARTED BATCH_WRITE_STARTED True ?f)"
    have c: "\<forall>y \<in> set (restate CLAIMED REPLAY_CLAIMED False old). dl_state y \<noteq> state_value CLAIMED"
      by (intro ballI, erule gone, simp)
    have f: "\<forall>y \<in> set ?f. dl_state y \<noteq> state_value CLAIMED" "\<forall>y \<in> set ?f. dl_state y \<noteq> state_value QUARANTINED"
      by (intro ballI, erule still [OF _ c], simp, intro ballI, erule gone, simp)
    have w: "\<forall>y \<in> set (restate WRITE_STARTED BATCH_WRITE_STARTED True ?f). dl_state y \<noteq> state_value s"
      if "s \<in> {CLAIMED, QUARANTINED}" for s
      using that f by (intro ballI) (erule still, auto)
    have b: "\<forall>y \<in> set ?b. dl_state y \<noteq> state_value CLAIMED" "\<forall>y \<in> set ?b. dl_state y \<noteq> state_value QUARANTINED"
      by (intro ballI, erule still [OF _ w], simp, simp)+
    have keys: "map row_key ?f = map row_key old" "map row_key ?b = map row_key old" by (simp_all only: key)
    have com: "x \<in> set ?f \<and> x \<in> set ?b" if "x \<in> set old" "dl_state x = state_value COMMITTED" for x
      using that by (intro conjI keep) simp_all
    obtain R where R: "lf_deliveries (initialize f) = Some (cs @ filter (\<lambda>c. c \<notin> set cs) added_columns, R)"
      "''replay_fencing_v1'' \<in> set (lf_migrations f) \<and> R = old
        \<or> ''replay_fencing_v1'' \<notin> set (lf_migrations f) \<and> (R = ?f \<or> R = ?b)"
      using Some p by (simp add: initialize_def Let_def)
    have "map row_key R = map row_key old" "\<forall>x \<in> set old. dl_state x = state_value COMMITTED \<longrightarrow> x \<in> set R"
      using R(2) keys com by (elim disjE conjE; simp)+
    moreover have "''replay_fencing_v1'' \<notin> set (lf_migrations f) \<longrightarrow>
        (\<forall>y \<in> set R. dl_state y \<notin> {state_value CLAIMED, state_value QUARANTINED})"
      using R(2) f b by (elim disjE conjE) simp_all
    moreover have "set added_columns \<subseteq> set (cs @ filter (\<lambda>c. c \<notin> set cs) added_columns)" by auto
    ultimately show ?thesis using 1 R(1) Some p by simp
  qed
qed

theorem migration_fences_once_witness:
  "\<exists>cols rows. lf_deliveries (initialize \<lparr>lf_deliveries = Some (ledger_columns, sample_ledger CLAIMED), lf_migrations = []\<rparr>)
       = Some (cols, rows)
     \<and> (\<forall>y \<in> set rows. dl_state y \<notin> {state_value CLAIMED, state_value QUARANTINED})"
  using migration_fences_once [of "\<lparr>lf_deliveries = Some (ledger_columns, sample_ledger CLAIMED), lf_migrations = []\<rparr>"]
  by auto

end
