(* ===== verification/Batches.thy ===== *)
theory Batches
  imports Wire
begin

text \<open>
  Shared shapes of the stores' batch methods: lists split into chunks of a statement's parameter
  limit, dictionaries built from a batch, and the translation of exceptions by an \<open>except\<close> clause.
\<close>

section \<open>Chunks and dictionaries\<close>

function chunks :: "nat \<Rightarrow> 'a list \<Rightarrow> 'a list list" where
  "chunks n xs = (if n = 0 \<or> xs = [] then [] else take n xs # chunks n (drop n xs))"
  by auto
termination by (relation "measure (\<lambda>(n, xs). length xs)") auto

declare chunks.simps [simp del]

lemma concat_chunks: "0 < n \<Longrightarrow> concat (chunks n xs) = xs"
proof (induction n xs rule: chunks.induct)
  case (1 n xs)
  then show ?case by (subst chunks.simps) simp
qed

text \<open>\<open>tuple(dict.fromkeys(keys))\<close>: the distinct keys in order of first occurrence.\<close>

definition fromkeys :: "string list \<Rightarrow> string list" where
  "fromkeys ks = map fst (foldl (\<lambda>d k. dict_put k () d) [] ks)"

lemma set_dict_put: "fst ` set (dict_put k v d) = insert k (fst ` set d)"
proof (induction d)
  case (Cons p d)
  then show ?case by (cases p) (simp add: insert_commute)
qed simp

lemma distinct_dict_put: "distinct (map fst d) \<Longrightarrow> distinct (map fst (dict_put k v d))"
proof (induction d)
  case (Cons p d)
  then show ?case using set_dict_put [of k v d] by (cases p) auto
qed simp

lemma map_of_dict_put [simp]: "map_of (dict_put k v d) l = (if l = k then Some v else map_of d l)"
  by (induction d) auto

lemma dict_fold:
  assumes "distinct (map fst d)"
  shows "distinct (map fst (foldl (\<lambda>d x. dict_put (f x) (g x) d) d xs))
    \<and> fst ` set (foldl (\<lambda>d x. dict_put (f x) (g x) d) d xs) = fst ` set d \<union> f ` set xs"
  using assms
proof (induction xs arbitrary: d)
  case (Cons x xs)
  from Cons.IH [OF distinct_dict_put [OF Cons.prems, of "f x" "g x"]] show ?case by (simp add: set_dict_put)
qed simp

lemma fromkeys_facts: "set (fromkeys ks) = set ks" "distinct (fromkeys ks)"
  using dict_fold [of "[]" "\<lambda>k. k" "\<lambda>_. ()" ks] by (simp_all add: fromkeys_def)

section \<open>Loops whose outputs do not depend on the state\<close>

lemma foldE_outputs:
  assumes "foldE f s xs = Inr (s', ys)" "\<And>s x s' y. x \<in> set xs \<Longrightarrow> f s x = Inr (s', y) \<Longrightarrow> y = g x"
  shows "ys = map g xs"
  using assms by (induction xs arbitrary: s ys) fastforce+

lemma foldE_transfer:
  assumes "foldE f s xs = Inr (s', ys)" "\<And>s x s' y. x \<in> set xs \<Longrightarrow> f s x = Inr (s', y) \<Longrightarrow> g s x = Inr (s', h x)"
  shows "foldE g s xs = Inr (s', map h xs)"
  using assms by (induction xs arbitrary: s ys) fastforce+

section \<open>Exception clauses\<close>

definition map_err :: "(err \<Rightarrow> err) \<Rightarrow> 'a result \<Rightarrow> 'a result" where
  "map_err f m = (case m of Inl e \<Rightarrow> Inl (f e) | Inr x \<Rightarrow> Inr x)"

lemma map_err_Inr [simp]: "map_err f m = Inr x \<longleftrightarrow> m = Inr x"
  by (auto simp: map_err_def split: sum.splits)

text \<open>What the decoder's \<open>except\<close> clause turns into a \<open>ProtocolError\<close>.\<close>

definition wire_schema_error :: "string \<Rightarrow> err \<Rightarrow> err" where
  "wire_schema_error msg e = (case e of
     KeyError _ \<Rightarrow> ProtocolError msg | OverflowError _ \<Rightarrow> ProtocolError msg
   | TypeError _ \<Rightarrow> ProtocolError msg | ValueError _ \<Rightarrow> ProtocolError msg | _ \<Rightarrow> e)"

text \<open>\<open>LENGTH(wire_json)\<close>\<close>

definition cell_length :: "cell \<Rightarrow> nat" where
  "cell_length c = (case c of Null \<Rightarrow> 0 | Text s \<Rightarrow> length s | Blob b \<Rightarrow> length b)"

section \<open>Stores filled row by row\<close>

text \<open>
  The contract the stores' insert loops share: putting a valid row succeeds or raises, keeps the
  store well formed, leaves the row held and never loses a row that was held.
\<close>

locale row_store =
  fixes put :: "'db \<Rightarrow> 'row \<Rightarrow> ('db \<times> 'out) result"
    and wf :: "'db \<Rightarrow> bool"
    and valid :: "'row \<Rightarrow> bool"
    and holds :: "'db \<Rightarrow> 'row \<Rightarrow> bool"
  assumes put_wf: "put db x = Inr (db', out) \<Longrightarrow> wf db \<Longrightarrow> valid x \<Longrightarrow> wf db' \<and> holds db' x"
    and put_keeps: "put db x = Inr (db', out) \<Longrightarrow> wf db \<Longrightarrow> valid x \<Longrightarrow> holds db y \<Longrightarrow> holds db' y"
begin

lemma put_all:
  assumes "foldE put db xs = Inr (db', outs)" "wf db" "\<forall>x \<in> set xs. valid x"
  shows "wf db' \<and> (\<forall>x \<in> set xs. holds db' x) \<and> (\<forall>y. holds db y \<longrightarrow> holds db' y)"
  using assms
proof (induction xs arbitrary: db outs)
  case (Cons x xs)
  from Cons.prems(1) obtain db1 out outs1 where one: "put db x = Inr (db1, out)"
    and rest: "foldE put db1 xs = Inr (db', outs1)" by auto
  have s: "wf db1 \<and> holds db1 x" using put_wf [OF one] Cons.prems(2,3) by simp
  have "\<forall>y. holds db y \<longrightarrow> holds db1 y" using put_keeps [OF one] Cons.prems(2,3) by simp
  with Cons.IH [OF rest] s Cons.prems(3) show ?case by simp
qed simp

end

end
