(* ===== verification/Spool.thy ===== *)
theory Spool
  imports Transport Batches
begin

text \<open>
  The sealed spool (\<open>spool.py\<close>): quarantine storage for opaque transport records, one row per record
  digest. A method is one transaction on the table. Statements with a list of digests run in chunks
  of 900 parameters, as in the source. The clock reading of \<open>datetime.now(UTC)\<close> is an argument.

  When stored bytes are not JSON, repeat a key or hold a non-finite constant the source raises
  \<open>ProtocolError\<close> with one of three messages; the model raises the first.
\<close>

section \<open>The spool\<close>

record spool_config =
  sc_limits :: protocol_limits
  sc_allow_unsigned :: bool
  sc_allow_blank :: bool
  sc_max_batch_wire_bytes :: int

record spool_entry =
  se_record_digest :: string
  se_tenant :: string
  se_destination_connector :: string
  se_transfer_id :: string
  se_record_id :: string
  se_plan_digest :: string
  se_reason_code :: string
  se_quarantined_at :: string

record spool_row = spool_entry +
  sr_wire :: cell

type_synonym spool = "spool_row list"

definition MAX_SPOOL_BATCH_ITEMS :: nat where "MAX_SPOOL_BATCH_ITEMS = 10000"

definition SQLITE_DIGEST_CHUNK_SIZE :: nat where "SQLITE_DIGEST_CHUNK_SIZE = 900"

definition SealedSpool :: "protocol_limits \<Rightarrow> bool \<Rightarrow> bool \<Rightarrow> int \<Rightarrow> spool_config result" where
  "SealedSpool limits allow_unsigned allow_blank max_batch =
     raise_if (max_batch \<le> 0) (ValueError ''spool batch wire limit must be a positive integer'') (
     raise_if (max_batch < max_record_wire_bytes limits)
       (ValueError ''spool batch wire limit must admit one protocol-sized record'') (
     Inr \<lparr>sc_limits = limits, sc_allow_unsigned = allow_unsigned, sc_allow_blank = allow_blank,
          sc_max_batch_wire_bytes = max_batch\<rparr>))"

definition decode_spooled_record :: "spool_config \<Rightarrow> bytes \<Rightarrow> transport_record result" where
  "decode_spooled_record cfg wire =
     raise_if (max_record_wire_bytes (sc_limits cfg) < int (length wire))
       (ProtocolError ''spooled transport record exceeds the wire size limit'') (
     case json_decode True wire of
       None \<Rightarrow> Inl (ProtocolError ''spooled transport record is not valid JSON'')
     | Some (JObj payload) \<Rightarrow>
         map_err (wire_schema_error ''spooled transport record violates the wire schema'')
           (from_wire (sc_limits cfg) (sc_allow_unsigned cfg) (sc_allow_blank cfg) payload)
     | Some _ \<Rightarrow> Inl (ProtocolError ''spooled transport record must be a JSON object''))"

definition entry_of :: "transport_record \<Rightarrow> string \<Rightarrow> string \<Rightarrow> spool_entry" where
  "entry_of r reason now =
     \<lparr>se_record_digest = digest r, se_tenant = tenant r, se_destination_connector = destination_connector r,
      se_transfer_id = transfer_id r, se_record_id = btr_record_id r, se_plan_digest = plan_digest r,
      se_reason_code = reason, se_quarantined_at = now\<rparr>"

text \<open>The loop that validates and prepares the batch; the state is the running byte count.\<close>

definition prepare_one :: "spool_config \<Rightarrow> string \<Rightarrow> string \<Rightarrow> int \<Rightarrow> nat \<times> transport_record \<Rightarrow> (int \<times> (spool_entry \<times> bytes)) result" where
  "prepare_one cfg reason now size_so_far x =
     (let (index, r) = x; wire = canonical_wire_bytes r; size' = size_so_far + int (length wire) in
      raise_if (MAX_SPOOL_BATCH_ITEMS \<le> index) (ValueError ''spool batch exceeds the record count limit'') (
      raise_if (max_record_wire_bytes (sc_limits cfg) < int (length wire))
        (ValueError ''record exceeds spool wire size limit'') (
      raise_if (sc_max_batch_wire_bytes cfg < size') (ValueError ''spool batch exceeds the wire byte limit'') (
      bindE (case json_decode False wire of
          Some (JObj payload) \<Rightarrow> from_wire (sc_limits cfg) (sc_allow_unsigned cfg) (sc_allow_blank cfg) payload
        | _ \<Rightarrow> Inl (ValueError ''invalid JSON'')) (\<lambda>parsed.
      raise_if (digest parsed \<noteq> digest r \<or> canonical_wire_bytes parsed \<noteq> wire)
        (IntegrityError ''record failed spool canonical validation'') (
      Inr (size', (entry_of r reason now, wire))))))))"

text \<open>\<open>INSERT ... ON CONFLICT(record_digest) DO UPDATE SET reason_code, quarantined_at\<close>\<close>

definition row_of :: "spool_entry \<times> bytes \<Rightarrow> spool_row" where
  "row_of x = (let e = fst x in
     \<lparr>se_record_digest = se_record_digest e, se_tenant = se_tenant e,
      se_destination_connector = se_destination_connector e, se_transfer_id = se_transfer_id e,
      se_record_id = se_record_id e, se_plan_digest = se_plan_digest e, se_reason_code = se_reason_code e,
      se_quarantined_at = se_quarantined_at e, sr_wire = Blob (snd x)\<rparr>)"

definition upsert :: "spool \<Rightarrow> spool_entry \<times> bytes \<Rightarrow> spool" where
  "upsert sp x =
     (if select_one (\<lambda>y. se_record_digest y = se_record_digest (fst x)) sp = None then sp @ [row_of x]
      else update_where (\<lambda>y. se_record_digest y = se_record_digest (fst x))
        (\<lambda>y. y\<lparr>se_reason_code := se_reason_code (fst x), se_quarantined_at := se_quarantined_at (fst x)\<rparr>) sp)"

definition check_row :: "(string \<times> (spool_entry \<times> bytes)) list \<Rightarrow> string list \<Rightarrow> spool_row \<Rightarrow> (string list \<times> unit) result" where
  "check_row expected found y =
     (let bad = IntegrityError ''sealed spool persistence postcondition failed'' in
      case map_of expected (se_record_digest y) of
        None \<Rightarrow> Inl bad
      | Some (e, wire) \<Rightarrow>
        raise_if (se_record_digest y \<in> set found) bad (
        raise_if (se_tenant y \<noteq> se_tenant e \<or> se_destination_connector y \<noteq> se_destination_connector e
            \<or> se_transfer_id y \<noteq> se_transfer_id e \<or> se_record_id y \<noteq> se_record_id e
            \<or> se_plan_digest y \<noteq> se_plan_digest e \<or> se_reason_code y \<noteq> se_reason_code e
            \<or> se_quarantined_at y \<noteq> se_quarantined_at e \<or> sr_wire y \<noteq> Blob wire) bad (
        Inr (se_record_digest y # found, ()))))"

definition check_chunk ::
    "(string \<times> (spool_entry \<times> bytes)) list \<Rightarrow> spool \<Rightarrow> string list \<Rightarrow> string list \<Rightarrow> (string list \<times> unit list) result" where
  "check_chunk expected sp found chunk =
     foldE (check_row expected) found (filter (\<lambda>y. se_record_digest y \<in> set chunk) sp)"

definition check_persisted :: "(spool_entry \<times> bytes) list \<Rightarrow> spool \<Rightarrow> unit result" where
  "check_persisted prepared sp =
     (let expected = foldl (\<lambda>d x. dict_put (se_record_digest (fst x)) x d) [] prepared in
      bindE (foldE (check_chunk expected sp) [] (chunks SQLITE_DIGEST_CHUNK_SIZE (map fst expected))) (\<lambda>(found, _).
      raise_if (set found \<noteq> set (map fst expected))
        (IntegrityError ''sealed spool persistence postcondition failed'') (Inr ())))"

definition quarantine_many ::
    "spool_config \<Rightarrow> transport_record list \<Rightarrow> string \<Rightarrow> int \<Rightarrow> spool \<Rightarrow> (spool \<times> spool_entry list) result" where
  "quarantine_many cfg records reason now sp =
     raise_if (\<not> machine_id 96 reason) (ValueError ''reason_code must be a short machine-readable identifier'') (
     bindE (foldE (prepare_one cfg reason (isoformat now)) 0 (zip [0..<length records] records)) (\<lambda>(_, prepared).
     if prepared = [] then Inr (sp, []) else
     (let sp' = foldl upsert sp prepared in
      bindE (check_persisted prepared sp') (\<lambda>_. Inr (sp', map fst prepared)))))"

definition quarantine :: "spool_config \<Rightarrow> transport_record \<Rightarrow> string \<Rightarrow> int \<Rightarrow> spool \<Rightarrow> (spool \<times> spool_entry) result" where
  "quarantine cfg r reason now sp =
     bindE (quarantine_many cfg [r] reason now sp) (\<lambda>(sp', es). Inr (sp', hd es))"

definition spool_get :: "spool_config \<Rightarrow> string \<Rightarrow> spool \<Rightarrow> transport_record option result" where
  "spool_get cfg record_digest sp =
     raise_if (\<not> lower_hex 64 record_digest)
       (ValueError ''spool record digest must be a lowercase SHA-256 digest'') (
     case select_one (\<lambda>y. se_record_digest y = record_digest) sp of
       None \<Rightarrow> Inr None
     | Some row \<Rightarrow> (case sr_wire row of
         Blob wire \<Rightarrow>
           raise_if (\<not> (0 < int (length wire) \<and> int (length wire) \<le> max_record_wire_bytes (sc_limits cfg)))
             (IntegrityError ''sealed spool record has an invalid wire size'') (
           case decode_spooled_record cfg wire of
             Inl (ProtocolError _) \<Rightarrow> Inl (IntegrityError ''sealed spool record is not valid canonical wire data'')
           | Inl e \<Rightarrow> Inl e
           | Inr r \<Rightarrow>
             raise_if (digest r \<noteq> record_digest) (IntegrityError ''sealed spool record digest mismatch'') (
             raise_if (canonical_wire_bytes r \<noteq> wire) (IntegrityError ''sealed spool record is not canonical'') (
             Inr (Some r))))
       | _ \<Rightarrow> Inl (IntegrityError ''sealed spool record is not stored as a blob'')))"

definition delete_chunk :: "spool \<Rightarrow> string list \<Rightarrow> (spool \<times> nat) result" where
  "delete_chunk sp chunk =
     Inr (delete_where (\<lambda>y. se_record_digest y \<in> set chunk) sp, rowcount (\<lambda>y. se_record_digest y \<in> set chunk) sp)"

definition remaining_chunk :: "spool \<Rightarrow> string list \<Rightarrow> unit result" where
  "remaining_chunk sp chunk =
     raise_if (select_one (\<lambda>y. se_record_digest y \<in> set chunk) sp \<noteq> None)
       (IntegrityError ''sealed spool removal postcondition failed'') (Inr ())"

definition valid_digest :: "nat \<times> string \<Rightarrow> string result" where
  "valid_digest x =
     raise_if (MAX_SPOOL_BATCH_ITEMS \<le> fst x) (ValueError ''spool batch exceeds the record count limit'') (
     raise_if (\<not> lower_hex 64 (snd x)) (ValueError ''spool record digest must be a lowercase SHA-256 digest'') (
     Inr (snd x)))"

definition remove_many :: "string list \<Rightarrow> spool \<Rightarrow> (spool \<times> nat) result" where
  "remove_many digests sp =
     bindE (mapE valid_digest (zip [0..<length digests] digests)) (\<lambda>ds.
     if ds = [] then Inr (sp, 0) else
     (let cs = chunks SQLITE_DIGEST_CHUNK_SIZE (fromkeys ds) in
      bindE (foldE delete_chunk sp cs) (\<lambda>(sp', counts).
      bindE (mapE (remaining_chunk sp') cs) (\<lambda>_. Inr (sp', sum_list counts)))))"

definition remove_one :: "string \<Rightarrow> spool \<Rightarrow> spool result" where
  "remove_one d sp = bindE (remove_many [d] sp) (\<lambda>(sp', _). Inr sp')"

text \<open>
  \<open>ORDER BY quarantined_at ASC LIMIT ?\<close>; SQLite leaves the order of equal keys open, the model
  keeps the table's.
\<close>

definition list_entries :: "int \<Rightarrow> spool \<Rightarrow> spool_entry list result" where
  "list_entries limit sp =
     raise_if (\<not> (1 \<le> limit \<and> limit \<le> 10000)) (ValueError ''spool limit is outside supported range'') (
     Inr (map spool_entry.truncate (take (nat limit) (sort_key se_quarantined_at sp))))"

section \<open>What preparation and persistence establish\<close>

text \<open>A record that passes the spool's own re-reading of its bytes.\<close>

definition accepted :: "spool_config \<Rightarrow> transport_record \<Rightarrow> bool" where
  "accepted cfg r =
     (int (length (canonical_wire_bytes r)) \<le> max_record_wire_bytes (sc_limits cfg)
      \<and> (\<exists>p. from_wire (sc_limits cfg) (sc_allow_unsigned cfg) (sc_allow_blank cfg) (reread (to_wire r)) = Inr p
            \<and> digest p = digest r \<and> canonical_wire_bytes p = canonical_wire_bytes r))"

lemma transportable_accepted:
  "transportable (sc_allow_unsigned cfg) (sc_allow_blank cfg) r \<Longrightarrow> within_limits (sc_limits cfg) r \<Longrightarrow> accepted cfg r"
  using from_wire_reread by (auto simp: accepted_def within_limits_def)

definition wire_total :: "transport_record list \<Rightarrow> int" where
  "wire_total rs = sum_list (map (\<lambda>r. int (length (canonical_wire_bytes r))) rs)"

lemma wire_total_simps [simp]: "wire_total [] = 0"
  "wire_total (r # rs) = int (length (canonical_wire_bytes r)) + wire_total rs"
  by (simp_all add: wire_total_def)

lemma wire_total_nonneg: "0 \<le> wire_total rs"
  by (induction rs) simp_all

lemma prepare_one_Inr:
  "prepare_one cfg reason now t (i, r) = Inr (t', x) \<longleftrightarrow>
     i < MAX_SPOOL_BATCH_ITEMS \<and> accepted cfg r \<and> t' = t + int (length (canonical_wire_bytes r))
     \<and> t' \<le> sc_max_batch_wire_bytes cfg \<and> x = (entry_of r reason now, canonical_wire_bytes r)"
  by (auto simp: prepare_one_def Let_def canonical_wire_decode accepted_def)

lemma prepare_fold:
  "foldE (prepare_one cfg reason now) t (zip [k..<k + length rs] rs) = Inr (t', ps) \<longleftrightarrow>
     ps = map (\<lambda>r. (entry_of r reason now, canonical_wire_bytes r)) rs \<and> (\<forall>r \<in> set rs. accepted cfg r)
     \<and> t' = t + wire_total rs \<and> (rs = [] \<or> t' \<le> sc_max_batch_wire_bytes cfg \<and> k + length rs \<le> MAX_SPOOL_BATCH_ITEMS)"
proof (induction rs arbitrary: k t ps)
  case (Cons r rs)
  have zip: "zip [k..<k + length (r # rs)] (r # rs) = (k, r) # zip [Suc k..<Suc k + length rs] rs"
    by (simp add: upt_conv_Cons del: upt_Suc)
  have "foldE (prepare_one cfg reason now) t (zip [k..<k + length (r # rs)] (r # rs)) = Inr (t', ps) \<longleftrightarrow>
      (\<exists>ps'. k < MAX_SPOOL_BATCH_ITEMS \<and> accepted cfg r
        \<and> t + int (length (canonical_wire_bytes r)) \<le> sc_max_batch_wire_bytes cfg
        \<and> foldE (prepare_one cfg reason now) (t + int (length (canonical_wire_bytes r))) (zip [Suc k..<Suc k + length rs] rs) = Inr (t', ps')
        \<and> ps = (entry_of r reason now, canonical_wire_bytes r) # ps')"
    unfolding zip by (auto simp: prepare_one_Inr)
  also have "\<dots> \<longleftrightarrow> ps = map (\<lambda>r. (entry_of r reason now, canonical_wire_bytes r)) (r # rs)
      \<and> (\<forall>r \<in> set (r # rs). accepted cfg r) \<and> t' = t + wire_total (r # rs)
      \<and> t' \<le> sc_max_batch_wire_bytes cfg \<and> k + length (r # rs) \<le> MAX_SPOOL_BATCH_ITEMS"
    unfolding Cons.IH using wire_total_nonneg [of rs] by (cases "rs = []") auto
  finally show ?case by simp
qed auto

definition spool_keyed :: "spool \<Rightarrow> bool" where
  "spool_keyed sp = keyed se_record_digest sp"

lemma upsert_keyed: "spool_keyed sp \<Longrightarrow> spool_keyed (upsert sp x)"
  by (auto simp: spool_keyed_def upsert_def select_one_None row_of_def Let_def intro!: keyed_insert keyed_update)

lemma foldl_upsert_keyed: "spool_keyed sp \<Longrightarrow> spool_keyed (foldl upsert sp xs)"
  by (induction xs arbitrary: sp) (simp_all add: upsert_keyed)

definition persisted :: "(string \<times> (spool_entry \<times> bytes)) list \<Rightarrow> spool \<Rightarrow> string \<Rightarrow> bool" where
  "persisted expected sp d =
     (\<exists>y \<in> set sp. \<exists>e wire. se_record_digest y = d \<and> map_of expected d = Some (e, wire) \<and> sr_wire y = Blob wire
        \<and> se_reason_code y = se_reason_code e \<and> se_quarantined_at y = se_quarantined_at e)"

lemma check_row_Inr:
  "check_row expected found y = Inr (found', u) \<Longrightarrow>
     found' = se_record_digest y # found
     \<and> (\<exists>e wire. map_of expected (se_record_digest y) = Some (e, wire) \<and> sr_wire y = Blob wire
          \<and> se_reason_code y = se_reason_code e \<and> se_quarantined_at y = se_quarantined_at e)"
  by (auto simp: check_row_def Let_def split: option.splits)

lemma check_chunk_inv:
  assumes "check_chunk expected sp found chunk = Inr (found', us)" "\<forall>d \<in> set found. persisted expected sp d"
  shows "\<forall>d \<in> set found'. persisted expected sp d"
  using assms(1) unfolding check_chunk_def
proof (rule foldE_inv)
  fix f y f' u
  assume "\<forall>d \<in> set f. persisted expected sp d" "y \<in> set (filter (\<lambda>y. se_record_digest y \<in> set chunk) sp)"
    "check_row expected f y = Inr (f', u)"
  then show "\<forall>d \<in> set f'. persisted expected sp d"
    using check_row_Inr [of expected f y f' u] by (auto simp: persisted_def)
qed (rule assms(2))

lemma check_persisted_Inr:
  assumes "check_persisted prepared sp = Inr u" "x \<in> set prepared"
  shows "persisted (foldl (\<lambda>d x. dict_put (se_record_digest (fst x)) x d) [] prepared) sp (se_record_digest (fst x))"
proof -
  let ?e = "foldl (\<lambda>d x. dict_put (se_record_digest (fst x)) x d) [] prepared"
  obtain found us where f: "foldE (check_chunk ?e sp) [] (chunks SQLITE_DIGEST_CHUNK_SIZE (map fst ?e)) = Inr (found, us)"
    "set found = set (map fst ?e)"
    using assms(1) by (auto simp: check_persisted_def Let_def)
  have all: "\<forall>d \<in> set found. persisted ?e sp d"
    by (rule foldE_inv [OF f(1)]) (auto dest: check_chunk_inv)
  have "se_record_digest (fst x) \<in> fst ` set ?e"
    using dict_fold [of "[]" "\<lambda>x. se_record_digest (fst x)" "\<lambda>x. x" prepared] assms(2) by auto
  then have "se_record_digest (fst x) \<in> set found" unfolding f(2) set_map .
  with all show ?thesis by (rule bspec)
qed

lemma map_of_dict_fold:
  assumes "distinct (map f xs)"
  shows "map_of (foldl (\<lambda>d x. dict_put (f x) x d) d xs) k
    = (case find (\<lambda>x. f x = k) xs of Some x \<Rightarrow> Some x | None \<Rightarrow> map_of d k)"
  using assms
proof (induction xs arbitrary: d)
  case (Cons x xs)
  then have "find (\<lambda>y. f y = f x) xs = None" by (simp add: find_None_iff image_iff) metis
  with Cons show ?case by (auto split: option.splits)
qed simp

lemma find_distinct: "distinct (map f xs) \<Longrightarrow> x \<in> set xs \<Longrightarrow> find (\<lambda>y. f y = f x) xs = Some x"
  by (induction xs) (auto simp: image_iff)

lemma quarantine_many_Inr:
  assumes "quarantine_many cfg rs reason now sp = Inr (sp', es)"
  shows "machine_id 96 reason" "\<forall>r \<in> set rs. accepted cfg r" "es = map (\<lambda>r. entry_of r reason (isoformat now)) rs"
    "sp' = foldl upsert sp (map (\<lambda>r. (entry_of r reason (isoformat now), canonical_wire_bytes r)) rs)"
    "rs = [] \<or> check_persisted (map (\<lambda>r. (entry_of r reason (isoformat now), canonical_wire_bytes r)) rs) sp' = Inr ()"
  using assms prepare_fold [of cfg reason "isoformat now" 0 0 rs]
  by (auto simp: quarantine_many_def Let_def comp_def split: if_splits)

lemma spool_get_accepted:
  assumes "spool_keyed sp" "y \<in> set sp" "se_record_digest y = digest r" "sr_wire y = Blob (canonical_wire_bytes r)"
    and "accepted cfg r"
  shows "\<exists>p. spool_get cfg (digest r) sp = Inr (Some p)
    \<and> from_wire (sc_limits cfg) (sc_allow_unsigned cfg) (sc_allow_blank cfg) (reread (to_wire r)) = Inr p"
proof -
  obtain p where p: "from_wire (sc_limits cfg) (sc_allow_unsigned cfg) (sc_allow_blank cfg) (reread (to_wire r)) = Inr p"
    "digest p = digest r" "canonical_wire_bytes p = canonical_wire_bytes r"
    "int (length (canonical_wire_bytes r)) \<le> max_record_wire_bytes (sc_limits cfg)"
    using assms(5) by (auto simp: accepted_def)
  have sel: "select_one (\<lambda>x. se_record_digest x = digest r) sp = Some y"
    using assms(1-3) by (simp add: spool_keyed_def keyed_select_iff)
  have dec: "decode_spooled_record cfg (canonical_wire_bytes r) = Inr p"
    using p by (simp add: decode_spooled_record_def canonical_wire_decode)
  have "lower_hex 64 (digest r)" by (simp add: digest_def sha256_hex_lower)
  with p sel dec canonical_wire_nonempty [of r] show ?thesis by (simp add: spool_get_def assms(4))
qed

section \<open>Properties\<close>

text \<open>
  Nothing quarantined is lost: when quarantining a batch succeeds, every record of it can be
  read back from the spool under its digest, unchanged, and the entries returned are the records' own
  identifiers with the given reason.
\<close>

theorem quarantine_then_get:
  assumes "spool_keyed sp" "distinct (map digest rs)"
    and "\<forall>r \<in> set rs. transportable (sc_allow_unsigned cfg) (sc_allow_blank cfg) r \<and> within_limits (sc_limits cfg) r"
    and "quarantine_many cfg rs reason now sp = Inr (sp', es)"
  shows "spool_keyed sp' \<and> es = map (\<lambda>r. entry_of r reason (isoformat now)) rs
    \<and> (\<forall>r \<in> set rs. spool_get cfg (digest r) sp' = Inr (Some r))"
proof -
  let ?x = "\<lambda>r. (entry_of r reason (isoformat now), canonical_wire_bytes r)"
  note q = quarantine_many_Inr [OF assms(4)]
  have keyed: "spool_keyed sp'" unfolding q(4) by (rule foldl_upsert_keyed [OF assms(1)])
  have "spool_get cfg (digest r) sp' = Inr (Some r)" if r: "r \<in> set rs" for r
  proof -
    let ?e = "foldl (\<lambda>d x. dict_put (se_record_digest (fst x)) x d) [] (map ?x rs)"
    have dig: "se_record_digest (fst (?x q)) = digest q" for q by (simp add: entry_of_def)
    have "check_persisted (map ?x rs) sp' = Inr ()" using q(5) r by auto
    from check_persisted_Inr [OF this, of "?x r"] r
    have pers: "persisted ?e sp' (digest r)" by (simp add: entry_of_def)
    have dist: "distinct (map (\<lambda>x. se_record_digest (fst x)) (map ?x rs))"
      using assms(2) by (simp add: comp_def entry_of_def)
    have "map_of ?e (digest r) = Some (?x r)"
      using map_of_dict_fold [OF dist, of "[]" "digest r"] find_distinct [OF dist, of "?x r"] r
      by (simp add: entry_of_def)
    with pers obtain y where y: "y \<in> set sp'" "se_record_digest y = digest r" "sr_wire y = Blob (canonical_wire_bytes r)"
      by (auto simp: persisted_def)
    have ok: "accepted cfg r" using q(2) r by blast
    from spool_get_accepted [OF keyed y ok] from_wire_reread assms(3) r show ?thesis by fastforce
  qed
  with keyed q(3) show ?thesis by blast
qed

text \<open>
  The spool is an integrity boundary: whatever its table holds, a lookup that returns a record returns one
  whose digest is the requested one, whose canonical bytes are exactly the stored blob, and
  that satisfies the wire protocol under the spool's policies.
\<close>

theorem spool_get_sound:
  assumes "spool_get cfg d sp = Inr (Some r)"
  shows "digest r = d \<and> transportable (sc_allow_unsigned cfg) (sc_allow_blank cfg) r
    \<and> (\<exists>y \<in> set sp. se_record_digest y = d \<and> sr_wire y = Blob (canonical_wire_bytes r))
    \<and> int (length (canonical_wire_bytes r)) \<le> max_record_wire_bytes (sc_limits cfg)"
proof -
  obtain y wire where y: "select_one (\<lambda>y. se_record_digest y = d) sp = Some y" "sr_wire y = Blob wire"
    "decode_spooled_record cfg wire = Inr r" "digest r = d" "canonical_wire_bytes r = wire"
    "int (length wire) \<le> max_record_wire_bytes (sc_limits cfg)"
    using assms by (auto simp: spool_get_def split: option.splits cell.splits sum.splits err.splits)
  obtain payload where "from_wire (sc_limits cfg) (sc_allow_unsigned cfg) (sc_allow_blank cfg) payload = Inr r"
    using y(3) by (auto simp: decode_spooled_record_def split: option.splits json.splits)
  with y select_one_Some [OF y(1)] from_wire_transportable show ?thesis by blast
qed

subsection \<open>Quarantine succeeds\<close>

definition matches_expected :: "(string \<times> (spool_entry \<times> bytes)) list \<Rightarrow> spool_row \<Rightarrow> bool" where
  "matches_expected expected y =
     (\<exists>x. map_of expected (se_record_digest y) = Some x \<and> y = row_of x)"

lemma check_rows_ok:
  assumes "\<forall>y \<in> set ys. matches_expected expected y" "distinct (map se_record_digest ys)"
    and "set (map se_record_digest ys) \<inter> set found = {}"
  shows "\<exists>us. foldE (check_row expected) found ys = Inr (rev (map se_record_digest ys) @ found, us)"
  using assms
proof (induction ys arbitrary: found)
  case (Cons y ys)
  then obtain e w where "map_of expected (se_record_digest y) = Some (e, w)" "y = row_of (e, w)"
    by (auto simp: matches_expected_def)
  then have one: "check_row expected found y = Inr (se_record_digest y # found, ())"
    using Cons.prems(3) by (auto simp: check_row_def Let_def row_of_def)
  have "\<exists>us. foldE (check_row expected) (se_record_digest y # found) ys
      = Inr (rev (map se_record_digest ys) @ se_record_digest y # found, us)"
    using Cons.prems by (intro Cons.IH) auto
  with one show ?case by auto
qed simp

lemma check_chunks_ok:
  assumes "spool_keyed sp" "\<forall>y \<in> set sp. se_record_digest y \<in> set (concat cs) \<longrightarrow> matches_expected expected y"
    and "distinct (concat cs)" "set (concat cs) \<inter> set found = {}"
  shows "\<exists>found' us. foldE (check_chunk expected sp) found cs = Inr (found', us)
    \<and> set found' = set found \<union> (se_record_digest ` set sp \<inter> set (concat cs))"
  using assms(2-)
proof (induction cs arbitrary: found)
  case (Cons c cs)
  let ?ys = "filter (\<lambda>y. se_record_digest y \<in> set c) sp"
  have "\<exists>us. foldE (check_row expected) found ?ys = Inr (rev (map se_record_digest ?ys) @ found, us)"
    using Cons.prems assms(1)
    by (intro check_rows_ok) (auto simp: spool_keyed_def keyed_def distinct_map_filter)
  then obtain us where one: "check_chunk expected sp found c = Inr (rev (map se_record_digest ?ys) @ found, us)"
    by (auto simp: check_chunk_def)
  let ?f = "rev (map se_record_digest ?ys) @ found"
  have "set (concat cs) \<inter> set ?f = {}" using Cons.prems(2,3) by auto
  then obtain f' us' where "foldE (check_chunk expected sp) ?f cs = Inr (f', us')"
    "set f' = set ?f \<union> (se_record_digest ` set sp \<inter> set (concat cs))"
    using Cons.IH [of ?f] Cons.prems by auto
  with one show ?case by auto
qed simp

text \<open>A spool row that an earlier quarantine of the same record left, or none.\<close>

definition compatible :: "spool \<Rightarrow> spool_entry \<times> bytes \<Rightarrow> bool" where
  "compatible sp x = (\<forall>y \<in> set sp. se_record_digest y = se_record_digest (fst x) \<longrightarrow>
     y\<lparr>se_reason_code := se_reason_code (fst x), se_quarantined_at := se_quarantined_at (fst x)\<rparr> = row_of x)"

lemma row_of_digest [simp]: "se_record_digest (row_of x) = se_record_digest (fst x)"
  by (simp add: row_of_def Let_def)

lemma upsert_in: "compatible sp x \<Longrightarrow> row_of x \<in> set (upsert sp x)"
  by (auto simp: upsert_def compatible_def in_update_where select_one_None)

lemma upsert_other:
  "se_record_digest y \<noteq> se_record_digest (fst x) \<Longrightarrow> y \<in> set (upsert sp x) \<longleftrightarrow> y \<in> set sp"
  by (auto simp: upsert_def in_update_where)

lemma foldl_upsert_other:
  "se_record_digest y \<notin> (\<lambda>x. se_record_digest (fst x)) ` set xs \<Longrightarrow> y \<in> set (foldl upsert sp xs) \<longleftrightarrow> y \<in> set sp"
  by (induction xs arbitrary: sp) (simp_all add: upsert_other)

lemma compatible_upsert:
  assumes "compatible sp w" "se_record_digest (fst w) \<noteq> se_record_digest (fst z)"
  shows "compatible (upsert sp z) w"
  unfolding compatible_def
proof (intro ballI impI)
  fix y assume y: "y \<in> set (upsert sp z)" "se_record_digest y = se_record_digest (fst w)"
  then have "y \<in> set sp" using assms(2) upsert_other [of y z sp] by simp
  with y(2) assms(1) show "y\<lparr>se_reason_code := se_reason_code (fst w), se_quarantined_at := se_quarantined_at (fst w)\<rparr> = row_of w"
    by (simp add: compatible_def)
qed

lemma foldl_upsert_in:
  assumes "\<forall>x \<in> set xs. compatible sp x" "distinct (map (\<lambda>x. se_record_digest (fst x)) xs)" "x \<in> set xs"
  shows "row_of x \<in> set (foldl upsert sp xs)"
  using assms
proof (induction xs arbitrary: sp)
  case (Cons z xs)
  show ?case
  proof (cases "x = z")
    case True
    then have "row_of x \<in> set (upsert sp z)" using Cons.prems by (simp add: upsert_in)
    moreover have "se_record_digest (row_of x) \<notin> (\<lambda>x. se_record_digest (fst x)) ` set xs"
      using Cons.prems(2) True by simp
    ultimately show ?thesis using foldl_upsert_other [of "row_of x" xs "upsert sp z"] by simp
  next
    case False
    have "\<forall>w \<in> set xs. compatible (upsert sp z) w"
    proof
      fix w assume w: "w \<in> set xs"
      then have "se_record_digest (fst w) \<noteq> se_record_digest (fst z)"
        using Cons.prems(2) by (metis (mono_tags, lifting) distinct.simps(2) image_eqI list.set_map list.simps(9))
      with Cons.prems(1) w show "compatible (upsert sp z) w" by (simp add: compatible_upsert)
    qed
    with Cons False show ?thesis by simp
  qed
qed simp

lemma check_persisted_ok:
  assumes "spool_keyed sp" "distinct (map (\<lambda>x. se_record_digest (fst x)) xs)" "\<forall>x \<in> set xs. row_of x \<in> set sp"
  shows "check_persisted xs sp = Inr ()"
proof -
  define e where "e = foldl (\<lambda>d x. dict_put (se_record_digest (fst x)) x d) [] xs"
  have dom: "distinct (map fst e)" "set (map fst e) = (\<lambda>x. se_record_digest (fst x)) ` set xs"
    using dict_fold [of "[]" "\<lambda>x. se_record_digest (fst x)" "\<lambda>x. x" xs] by (auto simp: e_def)
  have cc: "concat (chunks SQLITE_DIGEST_CHUNK_SIZE (map fst e)) = map fst e"
    by (rule concat_chunks) (simp add: SQLITE_DIGEST_CHUNK_SIZE_def)
  have match: "matches_expected e y" if y: "y \<in> set sp" "se_record_digest y \<in> set (map fst e)" for y
  proof -
    obtain x where x: "x \<in> set xs" "se_record_digest y = se_record_digest (fst x)" using y(2) unfolding dom(2) by (rule imageE)
    have "y = row_of x"
      by (rule keyed_inj [OF assms(1) [unfolded spool_keyed_def] y(1) bspec [OF assms(3) x(1)]]) (simp add: x(2))
    moreover have "map_of e (se_record_digest (fst x)) = Some x"
      unfolding e_def map_of_dict_fold [OF assms(2)] find_distinct [OF assms(2) x(1)] by simp
    ultimately show ?thesis by (simp add: matches_expected_def x(2))
  qed
  obtain found us where f: "foldE (check_chunk e sp) [] (chunks SQLITE_DIGEST_CHUNK_SIZE (map fst e)) = Inr (found, us)"
    "set found = set [] \<union> (se_record_digest ` set sp \<inter> set (map fst e))"
    using check_chunks_ok [OF assms(1), of "chunks SQLITE_DIGEST_CHUNK_SIZE (map fst e)" e "[]"] match dom(1)
    unfolding cc by auto
  have "set (map fst e) \<subseteq> se_record_digest ` set sp"
  proof
    fix d assume "d \<in> set (map fst e)"
    then obtain x where "x \<in> set xs" "d = se_record_digest (fst x)" unfolding dom(2) by blast
    then show "d \<in> se_record_digest ` set sp" using assms(3) row_of_digest [of x] by (metis image_eqI)
  qed
  then have "set found = set (map fst e)" unfolding f(2) by (simp only: list.set(1) Un_empty_left Int_absorb1)
  with f(1) show ?thesis by (simp add: check_persisted_def Let_def e_def)
qed

lemma quarantine_ok:
  assumes "spool_keyed sp" "machine_id 96 reason" "distinct (map digest rs)" "length rs \<le> MAX_SPOOL_BATCH_ITEMS"
    and "\<forall>r \<in> set rs. transportable (sc_allow_unsigned cfg) (sc_allow_blank cfg) r \<and> within_limits (sc_limits cfg) r"
    and "wire_total rs \<le> sc_max_batch_wire_bytes cfg"
    and "\<forall>r \<in> set rs. compatible sp (entry_of r reason (isoformat now), canonical_wire_bytes r)"
  shows "\<exists>sp'. quarantine_many cfg rs reason now sp = Inr (sp', map (\<lambda>r. entry_of r reason (isoformat now)) rs)"
proof (cases "rs = []")
  case True
  with assms(2) show ?thesis by (simp add: quarantine_many_def)
next
  case False
  let ?xs = "map (\<lambda>r. (entry_of r reason (isoformat now), canonical_wire_bytes r)) rs"
  have dist: "distinct (map (\<lambda>x. se_record_digest (fst x)) ?xs)" using assms(3) by (simp add: comp_def entry_of_def)
  have prep: "foldE (prepare_one cfg reason (isoformat now)) 0 (zip [0..<length rs] rs) = Inr (wire_total rs, ?xs)"
    using prepare_fold [of cfg reason "isoformat now" 0 0 rs "wire_total rs" ?xs] assms(4-6) transportable_accepted by auto
  have "check_persisted ?xs (foldl upsert sp ?xs) = Inr ()"
    using foldl_upsert_in [OF _ dist] assms(7)
    by (intro check_persisted_ok [OF foldl_upsert_keyed [OF assms(1)] dist]) simp
  with False prep assms(2) show ?thesis by (simp add: quarantine_many_def Let_def comp_def)
qed

text \<open>
  Quarantine of well-formed records does not fail: for a machine-readable reason and a batch of
  distinct transportable records within the limits, on a spool that holds no other record under their
  digests, the batch is stored. In particular neither the canonical re-reading nor the persistence
  postcondition can reject it.
\<close>

theorem quarantine_succeeds:
  assumes "spool_keyed sp" "machine_id 96 reason" "distinct (map digest rs)" "length rs \<le> MAX_SPOOL_BATCH_ITEMS"
    and "\<forall>r \<in> set rs. transportable (sc_allow_unsigned cfg) (sc_allow_blank cfg) r \<and> within_limits (sc_limits cfg) r"
    and "wire_total rs \<le> sc_max_batch_wire_bytes cfg"
    and "\<forall>r \<in> set rs. compatible sp (entry_of r reason (isoformat now), canonical_wire_bytes r)"
  shows "\<exists>sp'. quarantine_many cfg rs reason now sp = Inr (sp', map (\<lambda>r. entry_of r reason (isoformat now)) rs)"
  by (rule quarantine_ok [OF assms])

definition sample_config :: spool_config where
  "sample_config = \<lparr>sc_limits = sample_limits, sc_allow_unsigned = False, sc_allow_blank = False,
     sc_max_batch_wire_bytes = int (length (canonical_wire_bytes sample_record))\<rparr>"

lemma sample_spool_hyps:
  "machine_id 96 ''write_failed''"
  "\<forall>r \<in> set [sample_record]. transportable (sc_allow_unsigned sample_config) (sc_allow_blank sample_config) r
     \<and> within_limits (sc_limits sample_config) r"
  "wire_total [sample_record] \<le> sc_max_batch_wire_bytes sample_config"
  "spool_keyed []" "length [sample_record] \<le> MAX_SPOOL_BATCH_ITEMS"
  by (simp_all add: machine_id_def isalnum_def char_alnum_def Let_def sample_config_def sample_transportable
      sample_within_limits spool_keyed_def MAX_SPOOL_BATCH_ITEMS_def)

theorem quarantine_succeeds_witness:
  "\<exists>sp'. quarantine_many sample_config [sample_record] ''write_failed'' 0 [] =
     Inr (sp', map (\<lambda>r. entry_of r ''write_failed'' (isoformat 0)) [sample_record])"
  by (rule quarantine_succeeds [OF sample_spool_hyps(4,1) _ sample_spool_hyps(5,2,3)]) (simp_all add: compatible_def)

theorem quarantine_then_get_witness:
  "\<exists>sp' es. quarantine_many sample_config [sample_record] ''write_failed'' 0 [] = Inr (sp', es)
     \<and> spool_get sample_config (digest sample_record) sp' = Inr (Some sample_record)"
proof -
  have "\<exists>sp'. quarantine_many sample_config [sample_record] ''write_failed'' 0 [] =
     Inr (sp', map (\<lambda>r. entry_of r ''write_failed'' (isoformat 0)) [sample_record])"
    by (rule quarantine_ok [OF sample_spool_hyps(4,1) _ sample_spool_hyps(5,2,3)]) (simp_all add: compatible_def)
  then obtain sp' es where q: "quarantine_many sample_config [sample_record] ''write_failed'' 0 [] = Inr (sp', es)" by blast
  have "distinct (map digest [sample_record])" by simp
  from quarantine_then_get [OF sample_spool_hyps(4) this sample_spool_hyps(2) q] q show ?thesis by auto
qed

lemma sample_stored:
  "spool_get sample_config (digest sample_record)
     [row_of (entry_of sample_record ''write_failed'' (isoformat 0), canonical_wire_bytes sample_record)]
   = Inr (Some sample_record)"
proof -
  let ?y = "row_of (entry_of sample_record ''write_failed'' (isoformat 0), canonical_wire_bytes sample_record)"
  have "spool_keyed [?y]" "se_record_digest ?y = digest sample_record" "sr_wire ?y = Blob (canonical_wire_bytes sample_record)"
    by (simp_all add: spool_keyed_def keyed_def entry_of_def row_of_def Let_def)
  moreover have "accepted sample_config sample_record" using sample_spool_hyps(2) by (simp add: transportable_accepted)
  moreover have "from_wire (sc_limits sample_config) (sc_allow_unsigned sample_config) (sc_allow_blank sample_config)
      (reread (to_wire sample_record)) = Inr sample_record"
    using sample_spool_hyps(2) by (simp add: from_wire_reread)
  ultimately show ?thesis using spool_get_accepted [of "[?y]" ?y sample_record sample_config] by simp
qed

theorem spool_get_sound_witness:
  "digest sample_record = digest sample_record
    \<and> transportable (sc_allow_unsigned sample_config) (sc_allow_blank sample_config) sample_record
    \<and> (\<exists>y \<in> set [row_of (entry_of sample_record ''write_failed'' (isoformat 0), canonical_wire_bytes sample_record)].
         se_record_digest y = digest sample_record \<and> sr_wire y = Blob (canonical_wire_bytes sample_record))
    \<and> int (length (canonical_wire_bytes sample_record)) \<le> max_record_wire_bytes (sc_limits sample_config)"
  by (rule spool_get_sound [OF sample_stored])

subsection \<open>Removal\<close>

lemma valid_digests:
  "\<forall>d \<in> set ds. lower_hex 64 d \<Longrightarrow> k + length ds \<le> MAX_SPOOL_BATCH_ITEMS \<Longrightarrow>
   mapE valid_digest (zip [k..<k + length ds] ds) = Inr ds"
proof (induction ds arbitrary: k)
  case (Cons d ds)
  have zip: "zip [k..<k + length (d # ds)] (d # ds) = (k, d) # zip [Suc k..<Suc k + length ds] ds"
    by (simp add: upt_conv_Cons del: upt_Suc)
  have "valid_digest (k, d) = Inr d" using Cons.prems by (simp add: valid_digest_def)
  with Cons.IH [of "Suc k"] Cons.prems show ?case unfolding zip by simp
qed simp

lemma delete_fold:
  "\<exists>counts. foldE delete_chunk sp cs = Inr (delete_where (\<lambda>y. se_record_digest y \<in> set (concat cs)) sp, counts)
     \<and> sum_list counts = rowcount (\<lambda>y. se_record_digest y \<in> set (concat cs)) sp"
proof (induction cs arbitrary: sp)
  case Nil
  then show ?case by (simp add: delete_where_def rowcount_def)
next
  case (Cons c cs)
  let ?sp = "delete_where (\<lambda>y. se_record_digest y \<in> set c) sp"
  obtain counts where "foldE delete_chunk ?sp cs = Inr (delete_where (\<lambda>y. se_record_digest y \<in> set (concat cs)) ?sp, counts)"
    "sum_list counts = rowcount (\<lambda>y. se_record_digest y \<in> set (concat cs)) ?sp" using Cons [of ?sp] by blast
  moreover have "delete_where (\<lambda>y. se_record_digest y \<in> set (concat cs)) ?sp
      = delete_where (\<lambda>y. se_record_digest y \<in> set (concat (c # cs))) sp"
    by (auto simp: delete_where_def intro: filter_cong)
  moreover have "rowcount (\<lambda>y. se_record_digest y \<in> set c) sp + rowcount (\<lambda>y. se_record_digest y \<in> set (concat cs)) ?sp
      = rowcount (\<lambda>y. se_record_digest y \<in> set (concat (c # cs))) sp"
    unfolding rowcount_def delete_where_def by (induction sp) auto
  moreover have "delete_chunk sp c = Inr (?sp, rowcount (\<lambda>y. se_record_digest y \<in> set c) sp)" by (simp add: delete_chunk_def)
  ultimately show ?case
    by (intro exI [of _ "rowcount (\<lambda>y. se_record_digest y \<in> set c) sp # counts"]) simp
qed

text \<open>
  Removal is exact and atomic: for at most ten thousand lowercase SHA-256 digests it
  succeeds, deletes exactly the rows under those digests in one step, reports how many there were, and
  afterwards none of them is found.
\<close>

theorem remove_many_exact:
  assumes "\<forall>d \<in> set ds. lower_hex 64 d" "length ds \<le> MAX_SPOOL_BATCH_ITEMS"
  shows "remove_many ds sp = Inr (delete_where (\<lambda>y. se_record_digest y \<in> set ds) sp,
      rowcount (\<lambda>y. se_record_digest y \<in> set ds) sp)
    \<and> (\<forall>d \<in> set ds. spool_get cfg d (delete_where (\<lambda>y. se_record_digest y \<in> set ds) sp) = Inr None)"
proof (cases "ds = []")
  case True
  then show ?thesis by (simp add: remove_many_def delete_where_def rowcount_def)
next
  case False
  let ?cs = "chunks SQLITE_DIGEST_CHUNK_SIZE (fromkeys ds)"
  let ?sp = "delete_where (\<lambda>y. se_record_digest y \<in> set ds) sp"
  have cc: "set (concat ?cs) = set ds"
    using concat_chunks [of SQLITE_DIGEST_CHUNK_SIZE "fromkeys ds"] fromkeys_facts(1) [of ds]
    by (simp add: SQLITE_DIGEST_CHUNK_SIZE_def del: set_concat)
  obtain counts where d: "foldE delete_chunk sp ?cs = Inr (?sp, counts)"
    "sum_list counts = rowcount (\<lambda>y. se_record_digest y \<in> set ds) sp"
    using delete_fold [of sp ?cs] unfolding cc by blast
  have "mapE (remaining_chunk ?sp) ?cs = Inr (map (\<lambda>_. ()) ?cs)"
  proof (rule mapE_Inr_map)
    fix c assume "c \<in> set ?cs"
    then have "set c \<subseteq> set ds" using cc by auto
    then have "select_one (\<lambda>y. se_record_digest y \<in> set c) ?sp = None" by (auto simp: select_one_None)
    then show "remaining_chunk ?sp c = Inr ()" by (simp add: remaining_chunk_def)
  qed
  with d assms False have "remove_many ds sp = Inr (?sp, rowcount (\<lambda>y. se_record_digest y \<in> set ds) sp)"
    using valid_digests [of ds 0] by (simp add: remove_many_def Let_def)
  moreover have "spool_get cfg d ?sp = Inr None" if "d \<in> set ds" for d
  proof -
    have "select_one (\<lambda>y. se_record_digest y = d) ?sp = None" using that by (auto simp: select_one_None)
    with that assms(1) show ?thesis by (simp add: spool_get_def)
  qed
  ultimately show ?thesis by blast
qed

theorem remove_many_exact_witness:
  "remove_many [replicate 64 CHR ''a''] [] = Inr ([], 0)"
  using remove_many_exact [of "[replicate 64 CHR ''a'']" "[]" sample_config]
  by (simp add: lower_hex_def list_all_iff hex_digit_def MAX_SPOOL_BATCH_ITEMS_def delete_where_def rowcount_def)

end
