(* ===== verification/Outbox.thy ===== *)
theory Outbox
  imports Transport Batches
begin

text \<open>
  The source outbox (\<open>outbox.py\<close>): sealed records that wait for acknowledgement, one row per digest
  and per transfer identity. A method is one transaction on the table. A violated UNIQUE constraint
  of an INSERT is the exception \<^const>\<open>SqliteError\<close>. The clock readings are arguments.
\<close>

record outbox_config =
  oc_limits :: protocol_limits
  oc_allow_unsigned :: bool
  oc_allow_blank :: bool
  oc_max_batch_wire_bytes :: int

record outbox_receipt =
  or_record_digest :: string
  or_staged_at :: string
  or_duplicate :: bool

record pending_record =
  pr_record :: transport_record
  pr_wire_bytes :: bytes
  pr_staged_at :: string

record outbox_row =
  ob_record_digest :: string
  ob_tenant :: string
  ob_source_connector :: string
  ob_destination_connector :: string
  ob_transfer_id :: string
  ob_record_id :: string
  ob_plan_digest :: string
  ob_staged_at :: string
  ob_wire :: cell

type_synonym outbox = "outbox_row list"

definition MAX_OUTBOX_BATCH_ITEMS :: nat where "MAX_OUTBOX_BATCH_ITEMS = 10000"

definition SourceOutbox :: "protocol_limits \<Rightarrow> bool \<Rightarrow> bool \<Rightarrow> int \<Rightarrow> outbox_config result" where
  "SourceOutbox limits allow_unsigned allow_blank max_batch =
     raise_if (max_batch \<le> 0) (ValueError ''source outbox batch wire limit must be a positive integer'') (
     raise_if (max_batch < max_record_wire_bytes limits)
       (ValueError ''outbox batch wire limit must admit one protocol-sized record'') (
     Inr \<lparr>oc_limits = limits, oc_allow_unsigned = allow_unsigned, oc_allow_blank = allow_blank,
          oc_max_batch_wire_bytes = max_batch\<rparr>))"

definition ob_identity :: "outbox_row \<Rightarrow> string \<times> string \<times> string \<times> string \<times> string" where
  "ob_identity x = (ob_tenant x, ob_source_connector x, ob_destination_connector x, ob_transfer_id x, ob_record_id x)"

definition source_identity :: "transport_record \<Rightarrow> string \<times> string \<times> string \<times> string \<times> string" where
  "source_identity r = (tenant r, source_connector r, destination_connector r, transfer_id r, btr_record_id r)"

definition read_wire :: "outbox_config \<Rightarrow> bytes \<Rightarrow> transport_record result" where
  "read_wire cfg wire = (case json_decode False wire of
     Some (JObj payload) \<Rightarrow> from_wire (oc_limits cfg) (oc_allow_unsigned cfg) (oc_allow_blank cfg) payload
   | Some _ \<Rightarrow> Inl (AttributeError ''get'')
   | None \<Rightarrow> Inl (ValueError ''invalid JSON''))"

definition outbox_row_of :: "transport_record \<Rightarrow> bytes \<Rightarrow> string \<Rightarrow> string \<Rightarrow> outbox_row" where
  "outbox_row_of r wire d staged_at =
     \<lparr>ob_record_digest = d, ob_tenant = tenant r, ob_source_connector = source_connector r,
      ob_destination_connector = destination_connector r, ob_transfer_id = transfer_id r,
      ob_record_id = btr_record_id r, ob_plan_digest = plan_digest r, ob_staged_at = staged_at, ob_wire = Blob wire\<rparr>"

definition prepare_stage :: "outbox_config \<Rightarrow> transport_record \<Rightarrow> (bytes \<times> string) result" where
  "prepare_stage cfg r =
     (let wire = canonical_wire_bytes r in
      raise_if (max_record_wire_bytes (oc_limits cfg) < int (length wire))
        (ProtocolError ''sealed record exceeds source outbox size limit'') (
      bindE (read_wire cfg wire) (\<lambda>parsed.
      raise_if (digest parsed \<noteq> digest r) (IntegrityError ''sealed source outbox record digest mismatch'') (
      Inr (wire, digest parsed)))))"

definition prepare_next ::
    "outbox_config \<Rightarrow> (nat \<Rightarrow> int) \<Rightarrow> int \<Rightarrow> nat \<times> transport_record \<Rightarrow> (int \<times> outbox_row) result" where
  "prepare_next cfg clock size_so_far x =
     (let (index, r) = x in
      raise_if (MAX_OUTBOX_BATCH_ITEMS \<le> index) (ValueError ''source outbox batch exceeds the record count limit'') (
      bindE (prepare_stage cfg r) (\<lambda>(wire, d).
      let size' = size_so_far + int (length wire) in
      raise_if (oc_max_batch_wire_bytes cfg < size') (ValueError ''source outbox batch exceeds the wire byte limit'') (
      Inr (size', outbox_row_of r wire d (isoformat (clock index)))))))"

text \<open>
  One prepared record: an identical row is a duplicate, a row with the same identity and other
  bytes is a replay, otherwise it is inserted. \<open>new\<close> is the row that would be inserted.
\<close>

definition stage_row :: "outbox \<Rightarrow> outbox_row \<Rightarrow> (outbox \<times> (outbox_receipt \<times> outbox_row)) result" where
  "stage_row db new =
     (case select_one (\<lambda>x. ob_identity x = ob_identity new) db of
        Some old \<Rightarrow>
          (case ob_wire old of
             Blob existing \<Rightarrow>
               raise_if (ob_record_digest old \<noteq> ob_record_digest new \<or> Blob existing \<noteq> ob_wire new)
                 (ReplayDetected ''source outbox transfer identity was reused with different sealed bytes'') (
               raise_if (old \<noteq> new\<lparr>ob_staged_at := ob_staged_at old\<rparr>)
                 (IntegrityError ''sealed source outbox stored metadata does not match sealed record'') (
               Inr (db, \<lparr>or_record_digest = ob_record_digest new, or_staged_at = ob_staged_at old, or_duplicate = True\<rparr>,
                    new\<lparr>ob_staged_at := ob_staged_at old\<rparr>)))
           | _ \<Rightarrow> Inl (IntegrityError ''sealed source outbox wire representation is not binary''))
      | None \<Rightarrow>
          raise_if (select_one (\<lambda>x. ob_record_digest x = ob_record_digest new) db \<noteq> None) SqliteError (
          Inr (db @ [new], \<lparr>or_record_digest = ob_record_digest new, or_staged_at = ob_staged_at new, or_duplicate = False\<rparr>, new)))"

definition stage_postcondition :: "outbox \<Rightarrow> outbox_row \<Rightarrow> unit result" where
  "stage_postcondition db expected =
     raise_if (select_one (\<lambda>x. ob_record_digest x = ob_record_digest expected) db \<noteq> Some expected)
       (IntegrityError ''sealed source outbox write postcondition failed'') (Inr ())"

definition stage_many ::
    "outbox_config \<Rightarrow> transport_record list \<Rightarrow> (nat \<Rightarrow> int) \<Rightarrow> outbox \<Rightarrow> (outbox \<times> outbox_receipt list) result" where
  "stage_many cfg records clock db =
     bindE (foldE (prepare_next cfg clock) 0 (zip [0..<length records] records)) (\<lambda>(_, prepared).
     if prepared = [] then Inr (db, []) else
     bindE (foldE stage_row db prepared) (\<lambda>(db', outs).
     bindE (mapE (stage_postcondition db') (map snd outs)) (\<lambda>_.
     Inr (db', map fst outs))))"

definition stage :: "outbox_config \<Rightarrow> transport_record \<Rightarrow> int \<Rightarrow> outbox \<Rightarrow> (outbox \<times> outbox_receipt) result" where
  "stage cfg r now db = bindE (stage_many cfg [r] (\<lambda>_. now) db) (\<lambda>(db', rs). Inr (db', hd rs))"

text \<open>\<open>ORDER BY staged_at ASC, record_digest ASC\<close>\<close>

definition pending_order :: "outbox \<Rightarrow> outbox" where
  "pending_order db = sort_key ob_staged_at (sort_key ob_record_digest db)"

fun select_pending :: "outbox_config \<Rightarrow> int \<Rightarrow> bool \<Rightarrow> int \<Rightarrow> outbox \<Rightarrow> outbox result" where
  "select_pending cfg budget any size_so_far [] = Inr []"
| "select_pending cfg budget any size_so_far (x # xs) =
     (let n = int (cell_length (ob_wire x)) in
      raise_if (max_record_wire_bytes (oc_limits cfg) < n)
        (IntegrityError ''sealed source outbox record exceeds its wire size limit'') (
      if budget < size_so_far + n then
        raise_if (\<not> any) (ValueError ''next outbox record exceeds the pending wire limit'') (Inr [])
      else bindE (select_pending cfg budget True (size_so_far + n) xs) (\<lambda>ys. Inr (x # ys))))"

definition read_pending :: "outbox_config \<Rightarrow> outbox \<Rightarrow> outbox_row \<Rightarrow> pending_record result" where
  "read_pending cfg db x =
     (case select_one (\<lambda>y. ob_record_digest y = ob_record_digest x) db of
        None \<Rightarrow> Inl (IntegrityError ''sealed source outbox record disappeared while reading'')
      | Some stored \<Rightarrow> (case ob_wire stored of
          Blob wire \<Rightarrow>
            raise_if (length wire \<noteq> cell_length (ob_wire x))
              (IntegrityError ''sealed source outbox wire size changed while reading'') (
            bindE (read_wire cfg wire) (\<lambda>r.
            raise_if (digest r \<noteq> ob_record_digest x) (IntegrityError ''sealed source outbox record digest mismatch'') (
            raise_if (canonical_wire_bytes r \<noteq> wire)
              (IntegrityError ''sealed source outbox wire representation is not canonical'') (
            Inr \<lparr>pr_record = r, pr_wire_bytes = canonical_wire_bytes r, pr_staged_at = ob_staged_at x\<rparr>))))
        | _ \<Rightarrow> Inl (IntegrityError ''sealed source outbox wire representation is not binary'')))"

definition pending :: "outbox_config \<Rightarrow> int \<Rightarrow> int option \<Rightarrow> outbox \<Rightarrow> pending_record list result" where
  "pending cfg limit max_wire_bytes db =
     raise_if (\<not> (1 \<le> limit \<and> limit \<le> 10000)) (ValueError ''outbox limit is outside supported range'') (
     let budget = (case max_wire_bytes of None \<Rightarrow> oc_max_batch_wire_bytes cfg | Some b \<Rightarrow> b) in
     raise_if (\<not> (1 \<le> budget \<and> budget \<le> oc_max_batch_wire_bytes cfg))
       (ValueError ''outbox pending wire limit is outside supported range'') (
     bindE (select_pending cfg budget False 0 (take (nat limit) (pending_order db))) (\<lambda>selected.
     mapE (read_pending cfg db) selected)))"

definition valid_ack :: "nat \<times> string \<Rightarrow> string result" where
  "valid_ack x =
     raise_if (MAX_OUTBOX_BATCH_ITEMS \<le> fst x)
       (ValueError ''source outbox acknowledgement batch exceeds the record count limit'') (
     raise_if (\<not> lower_hex 64 (snd x)) (ValueError ''source outbox record digest must be a lowercase SHA-256 digest'') (
     Inr (snd x)))"

definition ack_digest :: "outbox \<Rightarrow> string \<Rightarrow> (outbox \<times> bool) result" where
  "ack_digest db d =
     Inr (delete_where (\<lambda>x. ob_record_digest x = d) db, rowcount (\<lambda>x. ob_record_digest x = d) db = 1)"

definition ack_many :: "string list \<Rightarrow> outbox \<Rightarrow> (outbox \<times> bool list) result" where
  "ack_many digests db =
     bindE (mapE valid_ack (zip [0..<length digests] digests)) (\<lambda>ds.
     if ds = [] then Inr (db, []) else foldE ack_digest db ds)"

definition ack :: "string \<Rightarrow> outbox \<Rightarrow> (outbox \<times> bool) result" where
  "ack d db = bindE (ack_many [d] db) (\<lambda>(db', rs). Inr (db', hd rs))"

definition depth :: "outbox \<Rightarrow> nat" where
  "depth db = length db"

section \<open>The outbox invariant\<close>

text \<open>The two uniqueness constraints, and every row is the row of a record its bytes hold.\<close>

definition row_sealed :: "outbox_config \<Rightarrow> outbox_row \<Rightarrow> bool" where
  "row_sealed cfg x = (\<exists>r. transportable (oc_allow_unsigned cfg) (oc_allow_blank cfg) r \<and> within_limits (oc_limits cfg) r
     \<and> x = outbox_row_of r (canonical_wire_bytes r) (digest r) (ob_staged_at x))"

definition outbox_wf :: "outbox_config \<Rightarrow> outbox \<Rightarrow> bool" where
  "outbox_wf cfg db = (keyed ob_record_digest db \<and> keyed ob_identity db \<and> list_all (row_sealed cfg) db)"

lemma outbox_row_facts [simp]:
  "ob_record_digest (outbox_row_of r w d t) = d" "ob_identity (outbox_row_of r w d t) = source_identity r"
  "ob_wire (outbox_row_of r w d t) = Blob w" "ob_staged_at (outbox_row_of r w d t) = t"
  by (simp_all add: outbox_row_of_def ob_identity_def source_identity_def)

lemma read_wire_canonical: "read_wire cfg (canonical_wire_bytes r)
    = from_wire (oc_limits cfg) (oc_allow_unsigned cfg) (oc_allow_blank cfg) (reread (to_wire r))"
  by (simp add: read_wire_def canonical_wire_decode)

lemma prepare_next_Inr:
  assumes "prepare_next cfg clock t (i, r) = Inr (t', x)"
  shows "x = outbox_row_of r (canonical_wire_bytes r) (digest r) (isoformat (clock i))"
  using assms by (auto simp: prepare_next_def prepare_stage_def Let_def)

definition new_rows :: "transport_record list \<Rightarrow> (nat \<Rightarrow> int) \<Rightarrow> outbox_row list" where
  "new_rows rs clock = map (\<lambda>(i, r). outbox_row_of r (canonical_wire_bytes r) (digest r) (isoformat (clock i)))
     (zip [0..<length rs] rs)"

lemma prepare_outbox:
  assumes "foldE (prepare_next cfg clock) t (zip [0..<length rs] rs) = Inr (t', ps)"
  shows "ps = new_rows rs clock"
  unfolding new_rows_def by (rule foldE_outputs [OF assms]) (auto dest: prepare_next_Inr)

lemma new_rows_in:
  "x \<in> set (new_rows rs clock) \<Longrightarrow> \<exists>r \<in> set rs. x = outbox_row_of r (canonical_wire_bytes r) (digest r) (ob_staged_at x)"
  by (auto simp: new_rows_def dest: set_zip_rightD)

lemma new_rows_ex: "r \<in> set rs \<Longrightarrow> \<exists>t. outbox_row_of r (canonical_wire_bytes r) (digest r) t \<in> set (new_rows rs clock)"
  by (fastforce simp: new_rows_def in_set_zip in_set_conv_nth)

text \<open>Staging one row: the table keeps every row it had, and holds the staged bytes.\<close>

lemma stage_row_Inr:
  assumes "stage_row db new = Inr (db', receipt, expected)"
  shows "(db' = db \<and> new\<lparr>ob_staged_at := or_staged_at receipt\<rparr> \<in> set db \<and> or_duplicate receipt
       \<or> db' = db @ [new] \<and> or_staged_at receipt = ob_staged_at new \<and> \<not> or_duplicate receipt
         \<and> (\<forall>x \<in> set db. ob_identity x \<noteq> ob_identity new \<and> ob_record_digest x \<noteq> ob_record_digest new))
     \<and> or_record_digest receipt = ob_record_digest new"
  using assms
  by (auto simp: stage_row_def select_one_None split: option.splits cell.splits dest: select_one_Some)

lemma stage_row_wf:
  assumes "stage_row db new = Inr (db', out)" "outbox_wf cfg db" "row_sealed cfg new"
  shows "outbox_wf cfg db' \<and> set db \<subseteq> set db' \<and> (\<exists>t. new\<lparr>ob_staged_at := t\<rparr> \<in> set db')"
proof -
  obtain receipt expected where out: "out = (receipt, expected)" by force
  from stage_row_Inr [OF assms(1) [unfolded out]] show ?thesis
  proof (elim conjE disjE)
    assume "db' = db @ [new]" "\<forall>x \<in> set db. ob_identity x \<noteq> ob_identity new \<and> ob_record_digest x \<noteq> ob_record_digest new"
    moreover have "new\<lparr>ob_staged_at := ob_staged_at new\<rparr> = new" by simp
    ultimately show ?thesis
      using assms(2,3) by (auto simp: outbox_wf_def intro!: keyed_insert exI [of _ "ob_staged_at new"])
  qed (use assms(2) in auto)
qed

interpretation staged: row_store stage_row "\<lambda>db. outbox_wf cfg db \<and> S \<subseteq> set db" "row_sealed cfg"
  "\<lambda>db x. \<exists>t. x\<lparr>ob_staged_at := t\<rparr> \<in> set db" for cfg S
  by unfold_locales (use stage_row_wf in blast)+

lemma stage_fold:
  assumes "foldE stage_row db news = Inr (db', outs)" "outbox_wf cfg db" "\<forall>x \<in> set news. row_sealed cfg x"
  shows "outbox_wf cfg db' \<and> set db \<subseteq> set db' \<and> (\<forall>x \<in> set news. \<exists>t. x\<lparr>ob_staged_at := t\<rparr> \<in> set db')"
  using staged.put_all [OF assms(1), of cfg "set db"] assms(2,3) by simp

lemma stage_many_Inr:
  assumes "stage_many cfg rs clock db = Inr (db', receipts)" "rs \<noteq> []"
  obtains outs t where "foldE (prepare_next cfg clock) 0 (zip [0..<length rs] rs) = Inr (t, new_rows rs clock)"
    "foldE stage_row db (new_rows rs clock) = Inr (db', outs)" "receipts = map fst outs"
proof -
  obtain t ps where p: "foldE (prepare_next cfg clock) 0 (zip [0..<length rs] rs) = Inr (t, ps)"
    using assms(1) by (auto simp: stage_many_def)
  have ps: "ps = new_rows rs clock" by (rule prepare_outbox [OF p])
  moreover have "new_rows rs clock \<noteq> []" using assms(2) by (simp add: new_rows_def)
  ultimately show thesis using assms(1) p that by (auto simp: stage_many_def)
qed

section \<open>Properties\<close>

text \<open>
  Staging is durable and never disturbs what is staged: after a successful batch every earlier
  row is still there unchanged, every record of the batch is held under its identity and digest
  with its exact canonical bytes, there is one receipt per record, and the table still has one row per
  digest and per transfer identity.
\<close>

theorem stage_is_durable:
  assumes "outbox_wf cfg db"
    and "\<forall>r \<in> set rs. transportable (oc_allow_unsigned cfg) (oc_allow_blank cfg) r \<and> within_limits (oc_limits cfg) r"
    and "stage_many cfg rs clock db = Inr (db', receipts)"
  shows "outbox_wf cfg db' \<and> set db \<subseteq> set db' \<and> length receipts = length rs
    \<and> (\<forall>r \<in> set rs. \<exists>x \<in> set db'. ob_identity x = source_identity r \<and> ob_record_digest x = digest r
         \<and> ob_wire x = Blob (canonical_wire_bytes r))"
proof (cases "rs = []")
  case True
  with assms show ?thesis by (simp add: stage_many_def)
next
  case False
  from assms(3) False obtain outs t where
    fold: "foldE stage_row db (new_rows rs clock) = Inr (db', outs)" and r: "receipts = map fst outs"
    by (rule stage_many_Inr)
  have "\<forall>x \<in> set (new_rows rs clock). row_sealed cfg x"
    using new_rows_in assms(2) unfolding row_sealed_def by blast
  note s = stage_fold [OF fold assms(1) this]
  have "length receipts = length rs" using foldE_length [OF fold] r by (simp add: new_rows_def)
  moreover have "\<exists>x \<in> set db'. ob_identity x = source_identity r \<and> ob_record_digest x = digest r
      \<and> ob_wire x = Blob (canonical_wire_bytes r)" if r: "r \<in> set rs" for r
  proof -
    obtain t where "outbox_row_of r (canonical_wire_bytes r) (digest r) t \<in> set (new_rows rs clock)"
      using new_rows_ex [OF r] by blast
    with s obtain u where "(outbox_row_of r (canonical_wire_bytes r) (digest r) t)\<lparr>ob_staged_at := u\<rparr> \<in> set db'" by blast
    then show ?thesis by (rule bexI [rotated]) (simp add: outbox_row_of_def ob_identity_def source_identity_def)
  qed
  ultimately show ?thesis using s by blast
qed

subsection \<open>Staging again\<close>

lemma prepare_next_clock:
  "prepare_next cfg clock t x = Inr (t', y) \<Longrightarrow> prepare_next cfg clock2 t x = Inr (t', case x of (i, r) \<Rightarrow>
     outbox_row_of r (canonical_wire_bytes r) (digest r) (isoformat (clock2 i)))"
  by (cases x) (auto simp: prepare_next_def prepare_stage_def Let_def)

lemma stage_row_present:
  assumes "outbox_wf cfg db" "new\<lparr>ob_staged_at := t\<rparr> \<in> set db" "ob_wire new = Blob w"
  shows "stage_row db new = Inr (db, \<lparr>or_record_digest = ob_record_digest new, or_staged_at = t, or_duplicate = True\<rparr>,
      new\<lparr>ob_staged_at := t\<rparr>)"
proof -
  have "ob_identity (new\<lparr>ob_staged_at := t\<rparr>) = ob_identity new" by (simp add: ob_identity_def)
  then have "select_one (\<lambda>x. ob_identity x = ob_identity new) db = Some (new\<lparr>ob_staged_at := t\<rparr>)"
    using assms(1,2) by (simp add: outbox_wf_def keyed_select_iff)
  with assms(3) show ?thesis by (simp add: stage_row_def)
qed

lemma restage_fold:
  assumes "outbox_wf cfg db" "\<forall>x \<in> set news. \<exists>t w. x\<lparr>ob_staged_at := t\<rparr> \<in> set db \<and> ob_wire x = Blob w"
  shows "\<exists>outs. foldE stage_row db news = Inr (db, outs) \<and> (\<forall>out \<in> set outs. or_duplicate (fst out) \<and> snd out \<in> set db)
    \<and> map (\<lambda>out. or_record_digest (fst out)) outs = map ob_record_digest news"
  using assms(2)
proof (induction news)
  case (Cons x news)
  then obtain t w where t: "x\<lparr>ob_staged_at := t\<rparr> \<in> set db" "ob_wire x = Blob w" by auto
  from Cons obtain outs where "foldE stage_row db news = Inr (db, outs)"
    "\<forall>out \<in> set outs. or_duplicate (fst out) \<and> snd out \<in> set db"
    "map (\<lambda>out. or_record_digest (fst out)) outs = map ob_record_digest news" by auto
  with stage_row_present [OF assms(1) t] t(1) show ?case by auto
qed simp

lemma postcondition_present: "outbox_wf cfg db \<Longrightarrow> x \<in> set db \<Longrightarrow> stage_postcondition db x = Inr ()"
  by (simp add: stage_postcondition_def outbox_wf_def keyed_select_iff)

text \<open>
  Retrying is idempotent: staging the same sealed records again, at any later time, succeeds, changes
  nothing, and reports each of them as a duplicate under its digest.
\<close>

theorem restage_is_idempotent:
  assumes "outbox_wf cfg db"
    and "\<forall>r \<in> set rs. transportable (oc_allow_unsigned cfg) (oc_allow_blank cfg) r \<and> within_limits (oc_limits cfg) r"
    and "stage_many cfg rs clock db = Inr (db', receipts)"
  shows "\<exists>again. stage_many cfg rs clock2 db' = Inr (db', again) \<and> list_all or_duplicate again
    \<and> map or_record_digest again = map digest rs"
proof (cases "rs = []")
  case True
  with assms(3) show ?thesis by (simp add: stage_many_def)
next
  case False
  from assms(3) False obtain outs t where
    prep: "foldE (prepare_next cfg clock) 0 (zip [0..<length rs] rs) = Inr (t, new_rows rs clock)" and
    fold: "foldE stage_row db (new_rows rs clock) = Inr (db', outs)"
    by (rule stage_many_Inr)
  have prep2: "foldE (prepare_next cfg clock2) 0 (zip [0..<length rs] rs) = Inr (t, new_rows rs clock2)"
    unfolding new_rows_def by (rule foldE_transfer [OF prep]) (rule prepare_next_clock)
  have sealed: "\<forall>x \<in> set (new_rows rs clock). row_sealed cfg x"
    using new_rows_in assms(2) unfolding row_sealed_def by blast
  note s = stage_fold [OF fold assms(1) sealed]
  have "\<exists>u w. x\<lparr>ob_staged_at := u\<rparr> \<in> set db' \<and> ob_wire x = Blob w" if x: "x \<in> set (new_rows rs clock2)" for x
  proof -
    obtain r where r: "r \<in> set rs" "x = outbox_row_of r (canonical_wire_bytes r) (digest r) (ob_staged_at x)"
      using new_rows_in [OF x] by blast
    obtain t where "outbox_row_of r (canonical_wire_bytes r) (digest r) t \<in> set (new_rows rs clock)"
      using new_rows_ex [OF r(1)] by blast
    with s obtain u where "(outbox_row_of r (canonical_wire_bytes r) (digest r) t)\<lparr>ob_staged_at := u\<rparr> \<in> set db'" by blast
    moreover have "(outbox_row_of r (canonical_wire_bytes r) (digest r) t)\<lparr>ob_staged_at := u\<rparr> = x\<lparr>ob_staged_at := u\<rparr>"
      by (subst r(2)) (simp add: outbox_row_of_def)
    ultimately show ?thesis using r(2) by (metis outbox_row_facts(3))
  qed
  with s restage_fold [of cfg db' "new_rows rs clock2"] obtain outs2 where o: "foldE stage_row db' (new_rows rs clock2) = Inr (db', outs2)"
    "\<forall>out \<in> set outs2. or_duplicate (fst out) \<and> snd out \<in> set db'"
    "map (\<lambda>out. or_record_digest (fst out)) outs2 = map ob_record_digest (new_rows rs clock2)" by blast
  have "mapE (stage_postcondition db') (map snd outs2) = Inr (map (\<lambda>_. ()) (map snd outs2))"
    using o(2) s postcondition_present by (intro mapE_Inr_map) auto
  moreover have "new_rows rs clock2 \<noteq> []" using False by (simp add: new_rows_def)
  moreover have "map ob_record_digest (new_rows rs clock2) = map digest rs"
    by (rule nth_equalityI) (simp_all add: new_rows_def)
  ultimately show ?thesis
    using prep2 o by (intro exI [of _ "map fst outs2"]) (auto simp: stage_many_def list_all_iff comp_def)
qed

text \<open>
  A transfer identity is bound to its first sealed bytes: staging a record whose identity is
  present with other bytes raises \<open>ReplayDetected\<close>, so resealing a transfer cannot replace it.
\<close>

theorem stage_detects_replay:
  assumes "outbox_wf cfg db" "x \<in> set db" "ob_identity x = source_identity r" "ob_wire x \<noteq> Blob (canonical_wire_bytes r)"
  shows "stage_row db (outbox_row_of r (canonical_wire_bytes r) (digest r) t)
      = Inl (ReplayDetected ''source outbox transfer identity was reused with different sealed bytes'')
    \<and> (\<nexists>db' receipts. stage_many cfg [r] clock db = Inr (db', receipts))"
proof -
  obtain q where "x = outbox_row_of q (canonical_wire_bytes q) (digest q) (ob_staged_at x)"
    using assms(1,2) by (auto simp: outbox_wf_def list_all_iff row_sealed_def)
  then obtain w where w: "ob_wire x = Blob w" by (metis outbox_row_facts(3))
  have "select_one (\<lambda>x. ob_identity x = source_identity r) db = Some x"
    using assms by (simp add: outbox_wf_def keyed_select_iff)
  then have 1: "stage_row db (outbox_row_of r (canonical_wire_bytes r) (digest r) t)
      = Inl (ReplayDetected ''source outbox transfer identity was reused with different sealed bytes'')" for t
    using w assms(4) by (simp add: stage_row_def)
  have "stage_many cfg [r] clock db \<noteq> Inr (db', receipts)" for db' receipts
  proof
    assume "stage_many cfg [r] clock db = Inr (db', receipts)"
    then obtain outs t where "foldE stage_row db (new_rows [r] clock) = Inr (db', outs)" by (rule stage_many_Inr) simp
    with 1 show False by (simp add: new_rows_def)
  qed
  with 1 show ?thesis by blast
qed

subsection \<open>Draining\<close>

definition wire_sum :: "outbox \<Rightarrow> int" where
  "wire_sum xs = sum_list (map (\<lambda>x. int (cell_length (ob_wire x))) xs)"

lemma select_pending_prefix:
  assumes "select_pending cfg budget any t xs = Inr ys" "t \<le> budget"
  shows "\<exists>n \<le> length xs. ys = take n xs \<and> t + wire_sum ys \<le> budget"
  using assms
proof (induction xs arbitrary: any t ys)
  case (Cons x xs)
  let ?n = "int (cell_length (ob_wire x))"
  show ?case
  proof (cases "budget < t + ?n")
    case True
    with Cons.prems have "ys = []" by (auto simp: Let_def)
    with Cons.prems(2) show ?thesis by (intro exI [of _ 0]) (simp add: wire_sum_def)
  next
    case False
    with Cons.prems(1) obtain zs where z: "select_pending cfg budget True (t + ?n) xs = Inr zs" "ys = x # zs"
      by (auto simp: Let_def)
    then obtain n where "n \<le> length xs" "zs = take n xs" "t + ?n + wire_sum zs \<le> budget"
      using Cons.IH [OF z(1)] False by auto
    with z(2) show ?thesis by (intro exI [of _ "Suc n"]) (simp add: wire_sum_def)
  qed
qed (auto simp: wire_sum_def)

lemma select_pending_total:
  assumes "\<forall>x \<in> set xs. int (cell_length (ob_wire x)) \<le> max_record_wire_bytes (oc_limits cfg)"
    and "any \<or> xs = [] \<or> t + int (cell_length (ob_wire (hd xs))) \<le> budget"
  shows "\<exists>ys. select_pending cfg budget any t xs = Inr ys \<and> (\<not> any \<and> xs \<noteq> [] \<longrightarrow> ys \<noteq> [])"
  using assms
proof (induction xs arbitrary: any t)
  case (Cons x xs)
  from Cons.IH [of True "t + int (cell_length (ob_wire x))"] Cons.prems
  obtain ys where "select_pending cfg budget True (t + int (cell_length (ob_wire x))) xs = Inr ys" by auto
  with Cons.prems show ?case by (auto simp: Let_def)
qed simp

definition pending_row :: "pending_record \<Rightarrow> outbox_row" where
  "pending_row p = outbox_row_of (pr_record p) (pr_wire_bytes p) (digest (pr_record p)) (pr_staged_at p)"

lemma read_pending_sealed:
  assumes "outbox_wf cfg db" "x \<in> set db"
  shows "\<exists>p. read_pending cfg db x = Inr p \<and> pending_row p = x \<and> pr_wire_bytes p = canonical_wire_bytes (pr_record p)
    \<and> transportable (oc_allow_unsigned cfg) (oc_allow_blank cfg) (pr_record p)"
proof -
  obtain r where r: "transportable (oc_allow_unsigned cfg) (oc_allow_blank cfg) r" "within_limits (oc_limits cfg) r"
    "x = outbox_row_of r (canonical_wire_bytes r) (digest r) (ob_staged_at x)"
    using assms by (auto simp: outbox_wf_def list_all_iff row_sealed_def)
  have sel: "select_one (\<lambda>y. ob_record_digest y = ob_record_digest x) db = Some x"
    using assms by (simp add: outbox_wf_def keyed_select_iff)
  have x: "ob_wire x = Blob (canonical_wire_bytes r)" "ob_record_digest x = digest r"
    using r(3) by (metis outbox_row_facts(3), metis outbox_row_facts(1))
  have "read_wire cfg (canonical_wire_bytes r) = Inr r" using r(1,2) by (simp add: read_wire_canonical from_wire_reread)
  with sel x have "read_pending cfg db x = Inr \<lparr>pr_record = r, pr_wire_bytes = canonical_wire_bytes r, pr_staged_at = ob_staged_at x\<rparr>"
    by (simp add: read_pending_def cell_length_def)
  with r(1,3) show ?thesis by (intro exI conjI) (assumption, simp_all add: pending_row_def)
qed

lemma read_pending_all:
  assumes "outbox_wf cfg db" "set xs \<subseteq> set db"
  shows "\<exists>ps. mapE (read_pending cfg db) xs = Inr ps \<and> map pending_row ps = xs
    \<and> (\<forall>p \<in> set ps. pr_wire_bytes p = canonical_wire_bytes (pr_record p)
         \<and> transportable (oc_allow_unsigned cfg) (oc_allow_blank cfg) (pr_record p))"
  using assms(2)
proof (induction xs)
  case (Cons x xs)
  then obtain p where "read_pending cfg db x = Inr p" "pending_row p = x"
    "pr_wire_bytes p = canonical_wire_bytes (pr_record p)" "transportable (oc_allow_unsigned cfg) (oc_allow_blank cfg) (pr_record p)"
    using read_pending_sealed [OF assms(1), of x] by auto
  with Cons show ?case by auto
qed simp

lemma set_pending_order [simp]: "set (pending_order db) = set db" "length (pending_order db) = length db"
  by (simp_all add: pending_order_def)

lemma sealed_size:
  assumes "outbox_wf cfg db" "x \<in> set db"
  shows "int (cell_length (ob_wire x)) \<le> max_record_wire_bytes (oc_limits cfg)"
proof -
  obtain r where "within_limits (oc_limits cfg) r" "x = outbox_row_of r (canonical_wire_bytes r) (digest r) (ob_staged_at x)"
    using assms by (auto simp: outbox_wf_def list_all_iff row_sealed_def)
  moreover from this(2) have "ob_wire x = Blob (canonical_wire_bytes r)" by (metis outbox_row_facts(3))
  ultimately show ?thesis by (simp add: cell_length_def within_limits_def)
qed

text \<open>
  C34. The outbox drains in order: \<open>pending\<close> on a well-formed outbox returns the records of a prefix of the
  queue ordered by staging time and then digest, with exactly the staged bytes, at most
  \<open>limit\<close> of them and within the byte budget; under the store's own budget it never raises and, while
  anything is staged, it returns something.
\<close>

theorem pending_drains_in_order:
  assumes "outbox_wf cfg db" "SourceOutbox limits u b max_batch = Inr cfg" "1 \<le> limit" "limit \<le> 10000"
  shows "(\<exists>out. pending cfg limit None db = Inr out \<and> (db \<noteq> [] \<longrightarrow> out \<noteq> []))
    \<and> (\<forall>budget out. pending cfg limit budget db = Inr out \<longrightarrow>
         (\<exists>n. int n \<le> limit \<and> map pending_row out = take n (pending_order db)
            \<and> wire_sum (map pending_row out) \<le> oc_max_batch_wire_bytes cfg
            \<and> (\<forall>k. budget = Some k \<longrightarrow> wire_sum (map pending_row out) \<le> k)
            \<and> (\<forall>p \<in> set out. pr_wire_bytes p = canonical_wire_bytes (pr_record p)
                 \<and> transportable u b (pr_record p))))"
proof -
  have cfg: "oc_limits cfg = limits" "oc_max_batch_wire_bytes cfg = max_batch" "1 \<le> max_batch" "max_record_wire_bytes limits \<le> max_batch"
    "oc_allow_unsigned cfg = u" "oc_allow_blank cfg = b"
    using assms(2) by (auto simp: SourceOutbox_def)
  let ?rows = "take (nat limit) (pending_order db)"
  have sub: "set ?rows \<subseteq> set db" using set_take_subset [of "nat limit" "pending_order db"] by simp
  have fits: "\<forall>x \<in> set ?rows. int (cell_length (ob_wire x)) \<le> max_record_wire_bytes (oc_limits cfg)"
    using sealed_size [OF assms(1)] sub by blast
  have first: "?rows = [] \<or> 0 + int (cell_length (ob_wire (hd ?rows))) \<le> max_batch"
    using fits cfg by (cases ?rows) (auto simp: le_trans)
  obtain ys where ys: "select_pending cfg max_batch False 0 ?rows = Inr ys" "?rows \<noteq> [] \<longrightarrow> ys \<noteq> []"
    using select_pending_total [OF fits, of False 0 max_batch] first by auto
  obtain n where n: "n \<le> length ?rows" "ys = take n ?rows"
    using select_pending_prefix [OF ys(1)] cfg(3) by auto
  have "set ys \<subseteq> set db" using sub n(2) set_take_subset [of n ?rows] by blast
  then obtain ps where ps: "mapE (read_pending cfg db) ys = Inr ps" "map pending_row ps = ys"
    using read_pending_all [OF assms(1)] by blast
  have "pending_order db = [] \<longleftrightarrow> db = []" by (metis length_0_conv set_pending_order(2))
  with assms(3) have "?rows = [] \<longleftrightarrow> db = []" by simp
  then have 1: "\<exists>out. pending cfg limit None db = Inr out \<and> (db \<noteq> [] \<longrightarrow> out \<noteq> [])"
    using assms(3,4) cfg ys ps by (intro exI [of _ ps]) (auto simp: pending_def)
  have 2: "\<exists>n. int n \<le> limit \<and> map pending_row out = take n (pending_order db)
      \<and> wire_sum (map pending_row out) \<le> oc_max_batch_wire_bytes cfg
      \<and> (\<forall>k. budget = Some k \<longrightarrow> wire_sum (map pending_row out) \<le> k)
      \<and> (\<forall>p \<in> set out. pr_wire_bytes p = canonical_wire_bytes (pr_record p) \<and> transportable u b (pr_record p))"
    if out: "pending cfg limit budget db = Inr out" for budget out
  proof -
    define k where "k = (case budget of None \<Rightarrow> oc_max_batch_wire_bytes cfg | Some b \<Rightarrow> b)"
    obtain xs where xs: "select_pending cfg k False 0 ?rows = Inr xs" "mapE (read_pending cfg db) xs = Inr out"
      "1 \<le> k" "k \<le> oc_max_batch_wire_bytes cfg"
      using out by (auto simp: pending_def k_def Let_def)
    obtain m where m: "m \<le> length ?rows" "xs = take m ?rows" "wire_sum xs \<le> k"
      using select_pending_prefix [OF xs(1)] xs(3) by auto
    have "set xs \<subseteq> set db" using sub m(2) set_take_subset [of m ?rows] by blast
    then obtain ps where "mapE (read_pending cfg db) xs = Inr ps" "map pending_row ps = xs"
      "\<forall>p \<in> set ps. pr_wire_bytes p = canonical_wire_bytes (pr_record p) \<and> transportable u b (pr_record p)"
      using read_pending_all [OF assms(1)] cfg(5,6) by blast
    moreover have "xs = take (min m (nat limit)) (pending_order db)" by (simp add: m(2))
    moreover have "int (min m (nat limit)) \<le> limit" using assms(3) by linarith
    moreover have "\<forall>b. budget = Some b \<longrightarrow> wire_sum xs \<le> b" using m(3) by (auto simp: k_def)
    ultimately show ?thesis using xs(2,4) m(3) by (intro exI [of _ "min m (nat limit)"]) auto
  qed
  from 1 2 show ?thesis by blast
qed

subsection \<open>Acknowledgement\<close>

lemma valid_acks:
  "\<forall>d \<in> set ds. lower_hex 64 d \<Longrightarrow> k + length ds \<le> MAX_OUTBOX_BATCH_ITEMS \<Longrightarrow>
   mapE valid_ack (zip [k..<k + length ds] ds) = Inr ds"
proof (induction ds arbitrary: k)
  case (Cons d ds)
  have "[k..<k + length (d # ds)] = k # [Suc k..<Suc k + length ds]" by (simp add: upt_rec)
  with Cons.prems Cons.IH [of "Suc k"] show ?case by (simp add: valid_ack_def raise_if_def)
qed simp

lemma rowcount_digest:
  assumes "keyed ob_record_digest db"
  shows "rowcount (\<lambda>x. ob_record_digest x = d) db = 1 \<longleftrightarrow> d \<in> ob_record_digest ` set db"
proof
  assume "rowcount (\<lambda>x. ob_record_digest x = d) db = 1"
  then show "d \<in> ob_record_digest ` set db" using rowcount_pos [of "\<lambda>x. ob_record_digest x = d" db] by auto
next
  assume "d \<in> ob_record_digest ` set db"
  then obtain x where "x \<in> set db" "ob_record_digest x = d" by auto
  then show "rowcount (\<lambda>x. ob_record_digest x = d) db = 1" by (intro rowcount_1_keyed [OF assms]) auto
qed

lemma ack_fold:
  assumes "keyed ob_record_digest db"
  shows "\<exists>flags. foldE ack_digest db ds = Inr (delete_where (\<lambda>x. ob_record_digest x \<in> set ds) db, flags)
    \<and> (\<forall>i < length ds. flags ! i \<longleftrightarrow> ds ! i \<in> ob_record_digest ` set db \<and> ds ! i \<notin> set (take i ds))"
  using assms
proof (induction ds arbitrary: db)
  case (Cons d ds)
  let ?db = "delete_where (\<lambda>x. ob_record_digest x = d) db"
  from Cons.IH [OF keyed_delete [OF Cons.prems]] obtain flags where f:
    "foldE ack_digest ?db ds = Inr (delete_where (\<lambda>x. ob_record_digest x \<in> set ds) ?db, flags)"
    "\<forall>i < length ds. flags ! i \<longleftrightarrow> ds ! i \<in> ob_record_digest ` set ?db \<and> ds ! i \<notin> set (take i ds)" by blast
  have "delete_where (\<lambda>x. ob_record_digest x \<in> set ds) ?db = delete_where (\<lambda>x. ob_record_digest x \<in> set (d # ds)) db"
    by (auto simp: delete_where_def intro: filter_cong)
  moreover have "ack_digest db d = Inr (?db, d \<in> ob_record_digest ` set db)"
    unfolding ack_digest_def rowcount_digest [OF Cons.prems] by (rule refl)
  moreover have "(d # ds) ! i \<in> ob_record_digest ` set db \<and> (d # ds) ! i \<notin> set (take i (d # ds)) \<longleftrightarrow>
      ((d \<in> ob_record_digest ` set db) # flags) ! i" if "i < length (d # ds)" for i
    using f(2) that by (cases i) auto
  ultimately show ?case using f(1)
    by (intro exI [of _ "(d \<in> ob_record_digest ` set db) # flags"]) simp
qed (simp add: delete_where_def)

text \<open>
  Acknowledgement removes exactly what it names: for at most ten thousand lowercase SHA-256
  digests it deletes the rows under those digests and no other, and the flag of each digest says whether its
  record was still pending when its turn came, so a repeated digest reports its removal once.
\<close>

theorem ack_many_exact:
  assumes "outbox_wf cfg db" "\<forall>d \<in> set ds. lower_hex 64 d" "length ds \<le> MAX_OUTBOX_BATCH_ITEMS"
  shows "\<exists>flags. ack_many ds db = Inr (delete_where (\<lambda>x. ob_record_digest x \<in> set ds) db, flags)
    \<and> length flags = length ds
    \<and> (\<forall>i < length ds. flags ! i \<longleftrightarrow> ds ! i \<in> ob_record_digest ` set db \<and> ds ! i \<notin> set (take i ds))
    \<and> outbox_wf cfg (delete_where (\<lambda>x. ob_record_digest x \<in> set ds) db)"
proof -
  from assms(1) have "keyed ob_record_digest db" by (simp add: outbox_wf_def)
  from ack_fold [OF this, of ds] obtain flags where f:
    "foldE ack_digest db ds = Inr (delete_where (\<lambda>x. ob_record_digest x \<in> set ds) db, flags)"
    "\<forall>i < length ds. flags ! i \<longleftrightarrow> ds ! i \<in> ob_record_digest ` set db \<and> ds ! i \<notin> set (take i ds)" by blast
  have "ack_many ds db = foldE ack_digest db ds"
    using valid_acks [OF assms(2), of 0] assms(3) by (auto simp: ack_many_def)
  moreover have "outbox_wf cfg (delete_where (\<lambda>x. ob_record_digest x \<in> set ds) db)"
    using assms(1) by (auto simp: outbox_wf_def keyed_delete list_all_iff)
  ultimately show ?thesis using f foldE_length [OF f(1)] by auto
qed

section \<open>Witnesses\<close>

definition sample_outbox :: outbox_config where
  "sample_outbox = \<lparr>oc_limits = sample_limits, oc_allow_unsigned = False, oc_allow_blank = False,
     oc_max_batch_wire_bytes = max_record_wire_bytes sample_limits\<rparr>"

definition sample_outbox_row :: outbox_row where
  "sample_outbox_row = outbox_row_of sample_record (canonical_wire_bytes sample_record) (digest sample_record) (isoformat 0)"

lemma sample_outbox_row_sealed: "row_sealed sample_outbox sample_outbox_row"
  by (auto simp: row_sealed_def sample_outbox_def sample_outbox_row_def sample_transportable sample_within_limits
      intro!: exI [of _ sample_record])

lemma sample_outbox_wf: "outbox_wf sample_outbox []" "outbox_wf sample_outbox [sample_outbox_row]"
  using sample_outbox_row_sealed by (simp_all add: outbox_wf_def keyed_Cons)

lemma sample_outbox_hyps:
  "\<forall>r \<in> set [sample_record]. transportable (oc_allow_unsigned sample_outbox) (oc_allow_blank sample_outbox) r
     \<and> within_limits (oc_limits sample_outbox) r"
  by (simp add: sample_outbox_def sample_transportable sample_within_limits)

lemma sample_outbox_created:
  "SourceOutbox sample_limits False False (max_record_wire_bytes sample_limits) = Inr sample_outbox"
  using canonical_wire_nonempty [of sample_record]
  by (simp add: SourceOutbox_def sample_outbox_def sample_limits_def)

lemma prepare_stage_ok:
  assumes "transportable (oc_allow_unsigned cfg) (oc_allow_blank cfg) r" "within_limits (oc_limits cfg) r"
  shows "prepare_stage cfg r = Inr (canonical_wire_bytes r, digest r)"
proof -
  have "read_wire cfg (canonical_wire_bytes r) = Inr r" using assms by (simp add: read_wire_canonical from_wire_reread)
  with assms(2) show ?thesis by (simp add: prepare_stage_def within_limits_def)
qed

lemma sample_staged:
  "stage_many sample_outbox [sample_record] (\<lambda>_. 0) [] = Inr ([sample_outbox_row],
     [\<lparr>or_record_digest = digest sample_record, or_staged_at = isoformat 0, or_duplicate = False\<rparr>])"
proof -
  have "prepare_stage sample_outbox sample_record = Inr (canonical_wire_bytes sample_record, digest sample_record)"
    using sample_outbox_hyps by (intro prepare_stage_ok) simp_all
  then have "prepare_next sample_outbox (\<lambda>_. 0) 0 (0, sample_record)
      = Inr (int (length (canonical_wire_bytes sample_record)), sample_outbox_row)"
    using sample_within_limits by (simp add: prepare_next_def sample_outbox_row_def MAX_OUTBOX_BATCH_ITEMS_def
        sample_outbox_def within_limits_def Let_def raise_if_def)
  moreover have "stage_row [] sample_outbox_row = Inr ([sample_outbox_row],
      \<lparr>or_record_digest = digest sample_record, or_staged_at = isoformat 0, or_duplicate = False\<rparr>, sample_outbox_row)"
    by (simp add: stage_row_def select_one_def raise_if_def) (simp add: sample_outbox_row_def)
  ultimately show ?thesis
    by (simp add: stage_many_def stage_postcondition_def select_one_def)
qed

theorem stage_is_durable_witness:
  "\<exists>x \<in> set [sample_outbox_row]. ob_identity x = source_identity sample_record
     \<and> ob_wire x = Blob (canonical_wire_bytes sample_record)"
  using stage_is_durable [OF sample_outbox_wf(1) sample_outbox_hyps sample_staged] by simp

theorem restage_is_idempotent_witness:
  "\<exists>again. stage_many sample_outbox [sample_record] (\<lambda>_. 7) [sample_outbox_row] = Inr ([sample_outbox_row], again)
     \<and> list_all or_duplicate again"
  using restage_is_idempotent [OF sample_outbox_wf(1) sample_outbox_hyps sample_staged, of "\<lambda>_. 7"] by blast

theorem stage_detects_replay_witness:
  "\<nexists>db' receipts. stage_many sample_outbox [resealed_record] (\<lambda>_. 7) [sample_outbox_row] = Inr (db', receipts)"
proof -
  have "ob_identity sample_outbox_row = source_identity resealed_record"
    by (simp add: sample_outbox_row_def source_identity_def resealed_record_def tenant_def source_connector_def
        destination_connector_def transfer_id_def first_context_def)
  moreover have "ob_wire sample_outbox_row \<noteq> Blob (canonical_wire_bytes resealed_record)"
    using resealed_bytes by (simp add: sample_outbox_row_def)
  ultimately show ?thesis
    using stage_detects_replay [OF sample_outbox_wf(2), of sample_outbox_row resealed_record "[]" "\<lambda>_. 7"] by simp
qed

theorem pending_drains_in_order_witness:
  "\<exists>out. pending sample_outbox 1 None [sample_outbox_row] = Inr out \<and> out \<noteq> []"
  using pending_drains_in_order [OF sample_outbox_wf(2) sample_outbox_created, of 1] by simp

theorem ack_many_exact_witness:
  "\<exists>flags. ack_many [digest sample_record] [sample_outbox_row] = Inr ([], flags) \<and> flags ! 0"
proof -
  have "lower_hex 64 (digest sample_record)" by (simp add: digest_def sha256_hex_lower)
  then show ?thesis
    using ack_many_exact [OF sample_outbox_wf(2), of "[digest sample_record]"]
    by (auto simp: MAX_OUTBOX_BATCH_ITEMS_def delete_where_def sample_outbox_row_def)
qed

end
