(* ===== verification/Relay.thy ===== *)
theory Relay
  imports Signing Batches
begin

text \<open>
  The sealed relay queue (\<open>relay.py\<close>): routing policy, the queue and dead-letter tables, enqueue,
  lease, acknowledgement and release. A method is one transaction on the two tables; the clock readings
  and the lease ids drawn from \<open>secrets\<close> are arguments. The text columns of the tables hold text, the nullable
  lease columns and the blob column are cells.
\<close>

section \<open>The policy\<close>

record route_binding =
  rb_tenant :: string
  rb_source_connector :: string
  rb_destination_connector :: string
  rb_allowed_plan_digests :: "string set"
  rb_allowed_source_key_ids :: "string set"

definition route_allows :: "route_binding \<Rightarrow> transport_record \<Rightarrow> bool" where
  "route_allows b r =
     (tenant r = rb_tenant b \<and> source_connector r = rb_source_connector b
      \<and> destination_connector r = rb_destination_connector b
      \<and> (rb_allowed_plan_digests b = {} \<or> plan_digest r \<in> rb_allowed_plan_digests b)
      \<and> (rb_allowed_source_key_ids b = {} \<or>
          (case btr_authentication r of None \<Rightarrow> False | Some a \<Rightarrow> auth_key_id a \<in> rb_allowed_source_key_ids b)))"

record relay_policy =
  rp_routes :: "route_binding list"
  rp_require_expiry :: bool
  rp_max_lifetime :: "int option"
  rp_source_trust_store :: "trust_store option"
  rp_allow_unsigned :: bool
  rp_allow_blank :: bool

text \<open>\<open>_verification_session\<close>: the registry as the session sees it, with the session, or nothing.\<close>

definition policy_session :: "nat \<Rightarrow> relay_policy \<Rightarrow> (trust_store \<times> verification_session) option" where
  "policy_session thread pol = map_option (enter_session thread) (rp_source_trust_store pol)"

text \<open>
  \<open>_validate\<close>. \<open>t1\<close> is the time \<open>verify_record\<close> uses and \<open>t2\<close> the one \<open>validate_time\<close> uses: the caller's
  \<open>now\<close> for both, or two readings of the system clock.
\<close>

definition policy_validate ::
    "(bytes \<Rightarrow> bytes \<Rightarrow> bytes \<Rightarrow> bool) \<Rightarrow> nat \<Rightarrow> relay_policy \<Rightarrow> (trust_store \<times> verification_session) option \<Rightarrow>
     transport_record \<Rightarrow> py_datetime \<Rightarrow> py_datetime \<Rightarrow> unit result" where
  "policy_validate ed25519_ok thread pol session r t1 t2 =
     raise_if (protocol_version r = 3 \<and> ctx_recipient_key_id (first_context r) = [] \<and> \<not> rp_allow_blank pol)
       (PolicyViolation ''v3 transport record has no authenticated recipient key id'') (
     bindE (if protocol_version r = 2
        then raise_if (\<not> rp_allow_unsigned pol)
          (PolicyViolation ''unsigned v2 transport record is not allowed by relay policy'') (Inr ())
        else (case rp_source_trust_store pol of
            None \<Rightarrow> Inl (PolicyViolation ''relay policy has no trusted source key registry'')
          | Some st \<Rightarrow>
              bindE (case session of
                  None \<Rightarrow> fst (verify_record ed25519_ok thread r t1 st)
                | Some (st', s) \<Rightarrow> session_verify ed25519_ok thread s r t1 st') (\<lambda>_. Inr ()))) (\<lambda>_.
     raise_if (\<not> list_ex (\<lambda>b. route_allows b r) (rp_routes pol))
       (PolicyViolation ''sealed record route is not authorized'') (
     bindE (validate_time (first_context r) t2) (\<lambda>_.
     raise_if (rp_require_expiry pol \<and> ctx_expires_at (first_context r) = None)
       (PolicyViolation ''sealed record has no authenticated expiry'') (
     raise_if (case (ctx_issued_at (first_context r), ctx_expires_at (first_context r), rp_max_lifetime pol) of
         (Some i, Some e, Some m) \<Rightarrow> m < e - i | _ \<Rightarrow> False)
       (PolicyViolation ''sealed record lifetime exceeds relay policy'') (Inr ()))))))"

definition validate :: "(bytes \<Rightarrow> bytes \<Rightarrow> bytes \<Rightarrow> bool) \<Rightarrow> nat \<Rightarrow> relay_policy \<Rightarrow> transport_record \<Rightarrow>
    py_datetime \<Rightarrow> py_datetime \<Rightarrow> unit result" where
  "validate ed25519_ok thread pol r t1 t2 = policy_validate ed25519_ok thread pol None r t1 t2"

section \<open>The queue\<close>

record relay_receipt =
  rr_record_digest :: string
  rr_tenant :: string
  rr_destination_connector :: string
  rr_transfer_id :: string
  rr_record_id :: string
  rr_plan_digest :: string
  rr_accepted_at :: string
  rr_duplicate :: bool

record leased_record =
  lr_record :: transport_record
  lr_lease_owner :: string
  lr_lease_expires_at :: string
  lr_lease_id :: string

record relay_row =
  rq_record_digest :: string
  rq_tenant :: string
  rq_source_connector :: string
  rq_destination_connector :: string
  rq_transfer_id :: string
  rq_record_id :: string
  rq_plan_digest :: string
  rq_received_at :: string
  rq_wire :: cell
  rq_lease_owner :: cell
  rq_lease_id :: cell
  rq_lease_expires_at :: cell

record relay_dead_letter =
  rd_record_digest :: string
  rd_tenant :: string
  rd_source_connector :: string
  rd_destination_connector :: string
  rd_transfer_id :: string
  rd_record_id :: string
  rd_plan_digest :: string
  rd_reason_code :: string
  rd_dead_lettered_at :: string

record dead_row = relay_dead_letter +
  rd_received_at :: string
  rd_wire :: cell

record relay =
  rl_queue :: "relay_row list"
  rl_dead :: "dead_row list"

record relay_config =
  rc_policy :: relay_policy
  rc_limits :: protocol_limits
  rc_max_batch_wire_bytes :: int

definition MAX_LEASE_DURATION :: int where "MAX_LEASE_DURATION = 3600 * 1000000"
definition MAX_DEAD_LETTERS_PER_LEASE :: nat where "MAX_DEAD_LETTERS_PER_LEASE = 1000"
definition MAX_RELAY_BATCH_ITEMS :: nat where "MAX_RELAY_BATCH_ITEMS = 10000"
definition DEAD_LETTER_INVALID_WIRE :: string where "DEAD_LETTER_INVALID_WIRE = ''relay_wire_invalid''"
definition DEAD_LETTER_SOURCE_AUTH :: string where "DEAD_LETTER_SOURCE_AUTH = ''relay_source_authentication_failed''"
definition DEAD_LETTER_EXPIRED :: string where "DEAD_LETTER_EXPIRED = ''relay_transfer_expired''"
definition DEAD_LETTER_POLICY :: string where "DEAD_LETTER_POLICY = ''relay_policy_rejected''"
definition DEAD_LETTER_DIGEST :: string where "DEAD_LETTER_DIGEST = ''relay_digest_mismatch''"

definition SealedRelayQueue :: "relay_policy \<Rightarrow> protocol_limits \<Rightarrow> int \<Rightarrow> relay_config result" where
  "SealedRelayQueue pol limits max_batch =
     raise_if (max_batch \<le> 0) (ValueError ''relay batch wire limit must be a positive integer'') (
     raise_if (max_batch < max_record_wire_bytes limits)
       (ValueError ''relay batch wire limit must admit one protocol-sized record'') (
     Inr \<lparr>rc_policy = pol, rc_limits = limits, rc_max_batch_wire_bytes = max_batch\<rparr>))"

definition decode_queued_record :: "relay_config \<Rightarrow> bytes \<Rightarrow> transport_record result" where
  "decode_queued_record cfg wire =
     raise_if (max_record_wire_bytes (rc_limits cfg) < int (length wire))
       (ProtocolError ''queued transport record exceeds the wire size limit'') (
     case json_decode True wire of
       None \<Rightarrow> Inl (ProtocolError ''queued transport record is not valid JSON'')
     | Some (JObj payload) \<Rightarrow>
         map_err (wire_schema_error ''queued transport record violates the wire schema'')
           (from_wire (rc_limits cfg) (rp_allow_unsigned (rc_policy cfg)) (rp_allow_blank (rc_policy cfg)) payload)
     | Some _ \<Rightarrow> Inl (ProtocolError ''queued transport record must be a JSON object''))"

subsection \<open>Enqueue\<close>

definition rq_identity :: "relay_row \<Rightarrow> string \<times> string \<times> string \<times> string" where
  "rq_identity x = (rq_tenant x, rq_destination_connector x, rq_transfer_id x, rq_record_id x)"

definition rd_identity :: "dead_row \<Rightarrow> string \<times> string \<times> string \<times> string" where
  "rd_identity x = (rd_tenant x, rd_destination_connector x, rd_transfer_id x, rd_record_id x)"

definition relay_identity :: "transport_record \<Rightarrow> string \<times> string \<times> string \<times> string" where
  "relay_identity r = (tenant r, destination_connector r, transfer_id r, btr_record_id r)"

definition relay_row_of :: "transport_record \<Rightarrow> bytes \<Rightarrow> string \<Rightarrow> string \<Rightarrow> relay_row" where
  "relay_row_of r wire d accepted_at =
     \<lparr>rq_record_digest = d, rq_tenant = tenant r, rq_source_connector = source_connector r,
      rq_destination_connector = destination_connector r, rq_transfer_id = transfer_id r,
      rq_record_id = btr_record_id r, rq_plan_digest = plan_digest r, rq_received_at = accepted_at,
      rq_wire = Blob wire, rq_lease_owner = Null, rq_lease_id = Null, rq_lease_expires_at = Null\<rparr>"

definition receipt_of :: "relay_row \<Rightarrow> bool \<Rightarrow> relay_receipt" where
  "receipt_of x duplicate =
     \<lparr>rr_record_digest = rq_record_digest x, rr_tenant = rq_tenant x,
      rr_destination_connector = rq_destination_connector x, rr_transfer_id = rq_transfer_id x,
      rr_record_id = rq_record_id x, rr_plan_digest = rq_plan_digest x, rr_accepted_at = rq_received_at x,
      rr_duplicate = duplicate\<rparr>"

definition prepare_enqueue :: "relay_config \<Rightarrow> transport_record \<Rightarrow> (transport_record \<times> bytes \<times> string) result" where
  "prepare_enqueue cfg r =
     (let wire = canonical_wire_bytes r in
      raise_if (max_record_wire_bytes (rc_limits cfg) < int (length wire))
        (PolicyViolation ''sealed record exceeds relay queue size limit'') (Inr (r, wire, digest r)))"

definition prepare_relay_item ::
    "relay_config \<Rightarrow> int \<Rightarrow> nat \<times> transport_record \<Rightarrow> (int \<times> (transport_record \<times> bytes \<times> string)) result" where
  "prepare_relay_item cfg size_so_far x =
     (let (index, r) = x in
      raise_if (MAX_RELAY_BATCH_ITEMS \<le> index) (ValueError ''relay enqueue batch exceeds the record count limit'') (
      bindE (prepare_enqueue cfg r) (\<lambda>p.
      let size' = size_so_far + int (length (fst (snd p))) in
      raise_if (rc_max_batch_wire_bytes cfg < size') (ValueError ''relay enqueue batch exceeds the wire byte limit'') (
      Inr (size', p)))))"

text \<open>Three readings of the clock per record: for the signature, for the expiry and for the receipt.\<close>

type_synonym relay_clock = "nat \<Rightarrow> int \<times> int \<times> int"

definition authorize ::
    "(bytes \<Rightarrow> bytes \<Rightarrow> bytes \<Rightarrow> bool) \<Rightarrow> nat \<Rightarrow> relay_config \<Rightarrow> relay_clock \<Rightarrow>
     nat \<times> (transport_record \<times> bytes \<times> string) \<Rightarrow> relay_row result" where
  "authorize ed25519_ok thread cfg clock x =
     (case x of (index, r, wire, d) \<Rightarrow> (case clock index of (t1, t2, t3) \<Rightarrow>
      bindE (policy_validate ed25519_ok thread (rc_policy cfg) (policy_session thread (rc_policy cfg)) r (Aware t1 0) (Aware t2 0)) (\<lambda>_.
      Inr (relay_row_of r wire d (isoformat t3)))))"

definition enqueue_row :: "relay \<Rightarrow> relay_row \<Rightarrow> (relay \<times> (relay_receipt \<times> relay_row)) result" where
  "enqueue_row rl new =
     (case select_one (\<lambda>x. rq_identity x = rq_identity new) (rl_queue rl) of
        Some old \<Rightarrow>
          raise_if (rq_record_digest old \<noteq> rq_record_digest new)
            (ReplayDetected ''relay transfer identity was reused with different authenticated content'') (
          case rq_wire old of
             Blob existing \<Rightarrow>
               (let expected = new\<lparr>rq_received_at := rq_received_at old, rq_lease_owner := rq_lease_owner old,
                      rq_lease_id := rq_lease_id old, rq_lease_expires_at := rq_lease_expires_at old\<rparr> in
                raise_if (old \<noteq> expected)
                  (IntegrityError ''relay queue stored metadata does not match authenticated record'') (
                Inr (rl, receipt_of expected True, expected)))
           | _ \<Rightarrow> Inl (IntegrityError ''relay queue wire representation is not binary''))
      | None \<Rightarrow>
          raise_if (select_one (\<lambda>d. rd_identity d = rq_identity new) (rl_dead rl) \<noteq> None)
            (ReplayDetected ''relay transfer identity is permanently dead-lettered'') (
          raise_if (select_one (\<lambda>x. rq_record_digest x = rq_record_digest new) (rl_queue rl) \<noteq> None) SqliteError (
          Inr (rl\<lparr>rl_queue := rl_queue rl @ [new]\<rparr>, receipt_of new False, new))))"

definition queue_postcondition :: "relay \<Rightarrow> relay_row \<Rightarrow> unit result" where
  "queue_postcondition rl expected =
     raise_if (select_one (\<lambda>x. rq_record_digest x = rq_record_digest expected) (rl_queue rl) \<noteq> Some expected)
       (IntegrityError ''relay queue write postcondition failed'') (Inr ())"

definition enqueue_prepared :: "relay_row list \<Rightarrow> relay \<Rightarrow> (relay \<times> relay_receipt list) result" where
  "enqueue_prepared prepared rl =
     bindE (foldE enqueue_row rl prepared) (\<lambda>(rl', outs).
     bindE (mapE (queue_postcondition rl') (map snd outs)) (\<lambda>_.
     Inr (rl', map fst outs)))"

definition enqueue_many ::
    "(bytes \<Rightarrow> bytes \<Rightarrow> bytes \<Rightarrow> bool) \<Rightarrow> nat \<Rightarrow> relay_config \<Rightarrow> transport_record list \<Rightarrow> relay_clock \<Rightarrow> relay \<Rightarrow>
     (relay \<times> relay_receipt list) result" where
  "enqueue_many ed25519_ok thread cfg records clock rl =
     bindE (foldE (prepare_relay_item cfg) 0 (zip [0..<length records] records)) (\<lambda>(_, prepared).
     if prepared = [] then Inr (rl, []) else
     bindE (mapE (authorize ed25519_ok thread cfg clock) (zip [0..<length prepared] prepared)) (\<lambda>authorized.
     enqueue_prepared authorized rl))"

definition enqueue ::
    "(bytes \<Rightarrow> bytes \<Rightarrow> bytes \<Rightarrow> bool) \<Rightarrow> nat \<Rightarrow> relay_config \<Rightarrow> transport_record \<Rightarrow> int \<times> int \<times> int \<Rightarrow> relay \<Rightarrow>
     (relay \<times> relay_receipt) result" where
  "enqueue ed25519_ok thread cfg r now rl =
     bindE (enqueue_many ed25519_ok thread cfg [r] (\<lambda>_. now) rl) (\<lambda>(rl', rs). Inr (rl', hd rs))"

subsection \<open>Lease\<close>

record lease_scan =
  ls_leased :: "leased_record list"
  ls_updates :: "(string \<times> string) list"
  ls_oversized :: "relay_row list"
  ls_decoded :: "(relay_row \<times> bytes \<times> string) list"
  ls_consumed :: int
  ls_dead_letters :: nat
  ls_budget_blocked :: bool

text \<open>A leasing worker's request; \<open>lq_token n\<close> is the lease id drawn for the \<open>n\<close>-th leased record.\<close>

record lease_request =
  lq_destination :: string
  lq_owner :: string
  lq_limit :: nat
  lq_budget :: int
  lq_now :: int
  lq_expires :: int
  lq_token :: "nat \<Rightarrow> string"

definition lease_available :: "string \<Rightarrow> string \<Rightarrow> relay_row \<Rightarrow> bool" where
  "lease_available destination now x =
     (rq_destination_connector x = destination
      \<and> (rq_lease_expires_at x = Null \<or> \<not> sql_gt (rq_lease_expires_at x) (Text now)))"

definition lease_order :: "relay_row list \<Rightarrow> relay_row list" where
  "lease_order xs = sort_key rq_received_at (sort_key rq_record_digest xs)"

text \<open>The \<open>except\<close> clauses around decoding and validation; other exceptions propagate.\<close>

definition failure_code :: "err \<Rightarrow> string option" where
  "failure_code e = (case e of
     TransferExpired _ \<Rightarrow> Some DEAD_LETTER_EXPIRED
   | PolicyViolation _ \<Rightarrow> Some DEAD_LETTER_POLICY
   | IntegrityError _ \<Rightarrow> Some DEAD_LETTER_SOURCE_AUTH
   | ProtocolError _ \<Rightarrow> Some DEAD_LETTER_INVALID_WIRE
   | _ \<Rightarrow> None)"

definition inspect ::
    "(bytes \<Rightarrow> bytes \<Rightarrow> bytes \<Rightarrow> bool) \<Rightarrow> nat \<Rightarrow> relay_config \<Rightarrow> int \<Rightarrow> bytes \<Rightarrow> (string + transport_record) result" where
  "inspect ed25519_ok thread cfg now wire =
     (case bindE (decode_queued_record cfg wire) (\<lambda>r.
        bindE (policy_validate ed25519_ok thread (rc_policy cfg) (policy_session thread (rc_policy cfg)) r (Aware now 0) (Aware now 0)) (\<lambda>_.
        Inr r)) of
        Inr r \<Rightarrow> Inr (Inr r)
      | Inl e \<Rightarrow> (case failure_code e of Some code \<Rightarrow> Inr (Inl code) | None \<Rightarrow> Inl e))"

text \<open>
  One iteration of the scan over the selected rows. The flag of the result says whether the loop goes on;
  \<open>divert\<close> is the branch that records a dead letter or, at the bound, breaks.
\<close>

definition divert :: "relay_row \<Rightarrow> bytes \<Rightarrow> string \<Rightarrow> lease_scan \<Rightarrow> lease_scan \<times> bool" where
  "divert x wire code st =
     (if MAX_DEAD_LETTERS_PER_LEASE \<le> ls_dead_letters st then (st, False)
      else (st\<lparr>ls_decoded := ls_decoded st @ [(x, wire, code)], ls_dead_letters := ls_dead_letters st + 1\<rparr>, True))"

definition grant :: "lease_request \<Rightarrow> relay_row \<Rightarrow> transport_record \<Rightarrow> lease_scan \<Rightarrow> lease_scan" where
  "grant q x r st =
     (let lease_id = lq_token q (length (ls_leased st)) in
      st\<lparr>ls_updates := ls_updates st @ [(lease_id, rq_record_digest x)],
         ls_leased := ls_leased st @ [\<lparr>lr_record = r, lr_lease_owner = lq_owner q,
           lr_lease_expires_at = isoformat (lq_expires q), lr_lease_id = lease_id\<rparr>]\<rparr>)"

definition scan_row ::
    "(bytes \<Rightarrow> bytes \<Rightarrow> bytes \<Rightarrow> bool) \<Rightarrow> nat \<Rightarrow> relay_config \<Rightarrow> lease_request \<Rightarrow> relay \<Rightarrow> lease_scan \<Rightarrow> relay_row \<Rightarrow>
     (lease_scan \<times> bool) result" where
  "scan_row ed25519_ok thread cfg q rl st x =
     (let size = int (cell_length (rq_wire x)) in
      if lq_limit q \<le> length (ls_leased st) then Inr (st, False)
      else if max_record_wire_bytes (rc_limits cfg) < size then
        Inr (if MAX_DEAD_LETTERS_PER_LEASE \<le> ls_dead_letters st then (st, False)
          else (st\<lparr>ls_oversized := ls_oversized st @ [x], ls_dead_letters := ls_dead_letters st + 1\<rparr>, True))
      else if lq_budget q < ls_consumed st + size then Inr (st\<lparr>ls_budget_blocked := True\<rparr>, False)
      else (let st' = st\<lparr>ls_consumed := ls_consumed st + size\<rparr> in
        case select_one (\<lambda>y. rq_record_digest y = rq_record_digest x) (rl_queue rl) of
          None \<Rightarrow> Inl (IntegrityError ''relay queue record disappeared while being leased'')
        | Some stored \<Rightarrow> (case rq_wire stored of
            Blob wire \<Rightarrow>
              raise_if (length wire \<noteq> cell_length (rq_wire x))
                (IntegrityError ''relay queue wire size changed while being leased'') (
              bindE (inspect ed25519_ok thread cfg (lq_now q) wire) (\<lambda>found. case found of
                Inl code \<Rightarrow> Inr (divert x wire code st')
              | Inr r \<Rightarrow> Inr (if digest r \<noteq> rq_record_digest x then divert x wire DEAD_LETTER_DIGEST st'
                             else (grant q x r st', True))))
          | _ \<Rightarrow> Inr (divert x [] DEAD_LETTER_INVALID_WIRE st'))))"

fun scan_rows ::
    "(bytes \<Rightarrow> bytes \<Rightarrow> bytes \<Rightarrow> bool) \<Rightarrow> nat \<Rightarrow> relay_config \<Rightarrow> lease_request \<Rightarrow> relay \<Rightarrow> lease_scan \<Rightarrow> relay_row list \<Rightarrow>
     lease_scan result" where
  "scan_rows ed25519_ok thread cfg q rl st [] = Inr st"
| "scan_rows ed25519_ok thread cfg q rl st (x # xs) =
     bindE (scan_row ed25519_ok thread cfg q rl st x) (\<lambda>(st', continue).
     if continue then scan_rows ed25519_ok thread cfg q rl st' xs else Inr st')"

definition dead_row_of :: "relay_row \<Rightarrow> bytes \<Rightarrow> string \<Rightarrow> string \<Rightarrow> dead_row" where
  "dead_row_of x wire reason now =
     \<lparr>rd_record_digest = rq_record_digest x, rd_tenant = rq_tenant x, rd_source_connector = rq_source_connector x,
      rd_destination_connector = rq_destination_connector x, rd_transfer_id = rq_transfer_id x,
      rd_record_id = rq_record_id x, rd_plan_digest = rq_plan_digest x, rd_reason_code = reason,
      rd_dead_lettered_at = now, rd_received_at = rq_received_at x, rd_wire = Blob wire\<rparr>"

definition prepare_dead_letter_postcondition :: "relay \<Rightarrow> dead_row \<Rightarrow> dead_row result" where
  "prepare_dead_letter_postcondition rl attempted =
     (case select_one (\<lambda>d. rd_record_digest d = rd_record_digest attempted) (rl_dead rl) of
        None \<Rightarrow> Inr attempted
      | Some existing \<Rightarrow>
          (let expected = attempted\<lparr>rd_dead_lettered_at := rd_dead_lettered_at existing\<rparr> in
           raise_if (existing \<noteq> expected)
             (IntegrityError ''relay dead-letter conflict does not match expected record'') (Inr expected)))"

definition dead_letter :: "int \<Rightarrow> relay \<Rightarrow> relay_row \<times> bytes \<times> string \<Rightarrow> (relay \<times> dead_row) result" where
  "dead_letter now rl dead =
     (case dead of (x, wire, reason) \<Rightarrow>
      let attempted = dead_row_of x wire reason (isoformat now) in
      bindE (prepare_dead_letter_postcondition rl attempted) (\<lambda>post.
      Inr (\<lparr>rl_queue = delete_where (\<lambda>y. rq_record_digest y = rq_record_digest x) (rl_queue rl),
            rl_dead = (if select_one (\<lambda>d. rd_record_digest d = rq_record_digest x) (rl_dead rl) = None
              then rl_dead rl @ [attempted] else rl_dead rl)\<rparr>, post)))"

definition dead_letter_oversized :: "int \<Rightarrow> relay \<Rightarrow> relay_row \<Rightarrow> (relay \<times> dead_row) result" where
  "dead_letter_oversized now rl x = dead_letter now rl (x, [], DEAD_LETTER_INVALID_WIRE)"

definition dead_letter_postcondition :: "relay \<Rightarrow> dead_row \<Rightarrow> unit result" where
  "dead_letter_postcondition rl expected =
     raise_if (select_one (\<lambda>d. rd_record_digest d = rd_record_digest expected) (rl_dead rl) \<noteq> Some expected
         \<or> select_one (\<lambda>x. rq_record_digest x = rd_record_digest expected) (rl_queue rl) \<noteq> None)
       (IntegrityError ''relay dead-letter transition postcondition failed'') (Inr ())"

definition lease_update :: "lease_request \<Rightarrow> relay \<Rightarrow> string \<times> string \<Rightarrow> (relay \<times> nat) result" where
  "lease_update q rl u =
     (case u of (lease_id, d) \<Rightarrow>
      Inr (rl\<lparr>rl_queue := update_where (\<lambda>x. rq_record_digest x = d)
              (\<lambda>x. x\<lparr>rq_lease_owner := Text (lq_owner q), rq_lease_id := Text lease_id,
                     rq_lease_expires_at := Text (isoformat (lq_expires q))\<rparr>) (rl_queue rl)\<rparr>,
           rowcount (\<lambda>x. rq_record_digest x = d) (rl_queue rl)))"

definition empty_scan :: lease_scan where
  "empty_scan = \<lparr>ls_leased = [], ls_updates = [], ls_oversized = [], ls_decoded = [], ls_consumed = 0,
     ls_dead_letters = 0, ls_budget_blocked = False\<rparr>"

definition lease_commit :: "lease_request \<Rightarrow> lease_scan \<Rightarrow> relay \<Rightarrow> relay result" where
  "lease_commit q st rl =
     bindE (foldE (dead_letter_oversized (lq_now q)) rl (ls_oversized st)) (\<lambda>(rl1, posts1).
     bindE (foldE (dead_letter (lq_now q)) rl1 (ls_decoded st)) (\<lambda>(rl2, posts2).
     bindE (foldE (lease_update q) rl2 (ls_updates st)) (\<lambda>(rl3, counts).
     raise_if (ls_updates st \<noteq> [] \<and> sum_list counts \<noteq> length (ls_updates st))
       (IntegrityError ''relay lease batch changed while being fenced'') (
     bindE (mapE (dead_letter_postcondition rl3) (posts1 @ posts2)) (\<lambda>_. Inr rl3)))))"

definition lease_transaction ::
    "(bytes \<Rightarrow> bytes \<Rightarrow> bytes \<Rightarrow> bool) \<Rightarrow> nat \<Rightarrow> relay_config \<Rightarrow> lease_request \<Rightarrow> relay \<Rightarrow> (relay \<times> lease_scan) result" where
  "lease_transaction ed25519_ok thread cfg q rl =
     bindE (scan_rows ed25519_ok thread cfg q rl empty_scan
       (take (lq_limit q + MAX_DEAD_LETTERS_PER_LEASE)
          (lease_order (filter (lease_available (lq_destination q) (isoformat (lq_now q))) (rl_queue rl))))) (\<lambda>st.
     bindE (lease_commit q st rl) (\<lambda>rl'. Inr (rl', st)))"

text \<open>
  An exception before \<open>COMMIT\<close> rolls back. The one raised after it, when the byte budget stopped the scan
  before anything was leased, leaves the transaction committed.
\<close>

definition lease ::
    "(bytes \<Rightarrow> bytes \<Rightarrow> bytes \<Rightarrow> bool) \<Rightarrow> nat \<Rightarrow> relay_config \<Rightarrow> string \<Rightarrow> string \<Rightarrow> int \<Rightarrow> int \<Rightarrow> int option \<Rightarrow>
     int \<Rightarrow> (nat \<Rightarrow> string) \<Rightarrow> relay \<Rightarrow> relay \<times> leased_record list result" where
  "lease ed25519_ok thread cfg destination owner limit lease_for max_wire_bytes now token rl =
     (let budget = (case max_wire_bytes of None \<Rightarrow> rc_max_batch_wire_bytes cfg | Some b \<Rightarrow> b) in
      case (raise_if (owner = [] \<or> 128 < length owner) (ValueError ''lease owner is invalid'') (
        raise_if (\<not> (1 \<le> limit \<and> limit \<le> 10000)) (ValueError ''lease limit is outside supported range'') (
        raise_if (lease_for \<le> 0 \<or> MAX_LEASE_DURATION < lease_for) (ValueError ''lease duration is outside supported range'') (
        raise_if (\<not> (1 \<le> budget \<and> budget \<le> rc_max_batch_wire_bytes cfg))
          (ValueError ''relay lease wire limit is outside supported range'') (
        bindE (add_delta now lease_for) (\<lambda>expires.
        lease_transaction ed25519_ok thread cfg
          \<lparr>lq_destination = destination, lq_owner = owner, lq_limit = nat limit, lq_budget = budget,
           lq_now = now, lq_expires = expires, lq_token = token\<rparr> rl)))))) of
        Inl e \<Rightarrow> (rl, Inl e)
      | Inr (rl', st) \<Rightarrow>
          (rl', if ls_budget_blocked st \<and> ls_leased st = []
                then Inl (ValueError ''next relay record exceeds the lease wire limit'')
                else Inr (ls_leased st)))"

subsection \<open>Acknowledgement and release\<close>

definition owns_lease :: "string \<Rightarrow> string \<Rightarrow> string \<Rightarrow> string \<Rightarrow> relay_row \<Rightarrow> bool" where
  "owns_lease d owner lease_id now x =
     (rq_record_digest x = d \<and> sql_eq (rq_lease_owner x) (Text owner) \<and> sql_eq (rq_lease_id x) (Text lease_id)
      \<and> sql_gt (rq_lease_expires_at x) (Text now))"

definition valid_relay_ack :: "nat \<times> string \<times> string \<Rightarrow> (string \<times> string) result" where
  "valid_relay_ack x =
     (case x of (index, d, lease_id) \<Rightarrow>
      raise_if (MAX_RELAY_BATCH_ITEMS \<le> index)
        (ValueError ''relay acknowledgement batch exceeds the record count limit'') (
      raise_if (\<not> lower_hex 64 d)
        (ValueError ''relay acknowledgement digest must be a lowercase SHA-256 digest'') (
      raise_if (lease_id = [] \<or> 128 < length lease_id \<or> \<not> isprintable lease_id) (ValueError ''lease id is invalid'') (
      Inr (d, lease_id)))))"

definition ack_row :: "string \<Rightarrow> string \<Rightarrow> relay_row list \<Rightarrow> string \<times> string \<Rightarrow> (relay_row list \<times> nat) result" where
  "ack_row owner now xs a =
     (case a of (d, lease_id) \<Rightarrow>
      Inr (delete_where (owns_lease d owner lease_id now) xs, rowcount (owns_lease d owner lease_id now) xs))"

definition relay_ack_many :: "(string \<times> string) list \<Rightarrow> string \<Rightarrow> int \<Rightarrow> relay \<Rightarrow> relay result" where
  "relay_ack_many acks owner now rl =
     raise_if (owner = [] \<or> 128 < length owner \<or> \<not> isprintable owner) (ValueError ''lease owner is invalid'') (
     bindE (mapE valid_relay_ack (zip [0..<length acks] acks)) (\<lambda>batch.
     if batch = [] then Inr rl else
     bindE (foldE (ack_row owner (isoformat now)) (rl_queue rl) batch) (\<lambda>(queue, counts).
     raise_if (sum_list counts \<noteq> length batch)
       (IntegrityError ''relay acknowledgement does not own the active lease'') (
     Inr (rl\<lparr>rl_queue := queue\<rparr>)))))"

definition relay_ack :: "string \<Rightarrow> string \<Rightarrow> string \<Rightarrow> int \<Rightarrow> relay \<Rightarrow> relay result" where
  "relay_ack d owner lease_id now rl = relay_ack_many [(d, lease_id)] owner now rl"

definition release :: "string \<Rightarrow> string \<Rightarrow> string \<Rightarrow> int \<Rightarrow> relay \<Rightarrow> relay result" where
  "release d owner lease_id now rl =
     raise_if (lease_id = [] \<or> 128 < length lease_id) (ValueError ''lease id is invalid'') (
     let own = owns_lease d owner lease_id (isoformat now) in
     raise_if (rowcount own (rl_queue rl) \<noteq> 1) (IntegrityError ''relay release does not own the active lease'') (
     Inr (rl\<lparr>rl_queue := update_where own
       (\<lambda>x. x\<lparr>rq_lease_owner := Null, rq_lease_id := Null, rq_lease_expires_at := Null\<rparr>) (rl_queue rl)\<rparr>)))"

definition relay_depth :: "string option \<Rightarrow> relay \<Rightarrow> nat" where
  "relay_depth destination rl = (case destination of
     None \<Rightarrow> length (rl_queue rl)
   | Some d \<Rightarrow> rowcount (\<lambda>x. rq_destination_connector x = d) (rl_queue rl))"

definition dead_letter_depth :: "string option \<Rightarrow> relay \<Rightarrow> nat" where
  "dead_letter_depth destination rl = (case destination of
     None \<Rightarrow> length (rl_dead rl)
   | Some d \<Rightarrow> rowcount (\<lambda>x. rd_destination_connector x = d) (rl_dead rl))"

definition list_dead_letters :: "int \<Rightarrow> relay \<Rightarrow> relay_dead_letter list result" where
  "list_dead_letters limit rl =
     raise_if (\<not> (1 \<le> limit \<and> limit \<le> 10000)) (ValueError ''dead-letter limit is outside supported range'') (
     Inr (map relay_dead_letter.truncate (take (nat limit) (sort_key rd_dead_lettered_at (sort_key rd_record_digest (rl_dead rl))))))"

end
