(* ===== verification/RelaySafety.thy ===== *)
theory RelaySafety
  imports Relay
begin

text \<open>
  What the relay queue guarantees: no transfer identity is queued twice or both queued and
  dead-lettered, dead letters are permanent, a running lease shuts out every other worker, only the holder of
  a running lease can acknowledge, leased records are authentic and authorized, and leasing makes progress.
\<close>

section \<open>Rows\<close>

lemma relay_row_facts [simp]:
  "rq_record_digest (relay_row_of r w d t) = d" "rq_identity (relay_row_of r w d t) = relay_identity r"
  "rq_wire (relay_row_of r w d t) = Blob w" "rq_destination_connector (relay_row_of r w d t) = destination_connector r"
  by (simp_all add: relay_row_of_def rq_identity_def relay_identity_def)

lemma dead_row_facts [simp]:
  "rd_record_digest (dead_row_of x w c t) = rq_record_digest x" "rd_identity (dead_row_of x w c t) = rq_identity x"
  by (simp_all add: dead_row_of_def rd_identity_def rq_identity_def)

text \<open>What a lease cannot change of a row.\<close>

definition sealed_part :: "relay_row \<Rightarrow> relay_row" where
  "sealed_part x = x\<lparr>rq_received_at := [], rq_lease_owner := Null, rq_lease_id := Null, rq_lease_expires_at := Null\<rparr>"

lemma sealed_part_eq:
  assumes "sealed_part x = sealed_part y"
  shows "rq_record_digest x = rq_record_digest y" "rq_identity x = rq_identity y" "rq_wire x = rq_wire y"
    "rq_destination_connector x = rq_destination_connector y"
  using assms by (cases x; cases y; simp add: sealed_part_def rq_identity_def)+

definition relay_wf :: "relay \<Rightarrow> bool" where
  "relay_wf rl = (keyed rq_record_digest (rl_queue rl) \<and> keyed rd_record_digest (rl_dead rl)
     \<and> distinct (map rq_identity (rl_queue rl) @ map rd_identity (rl_dead rl)))"

lemma relay_wf_keyed:
  assumes "relay_wf rl"
  shows "keyed rq_record_digest (rl_queue rl)" "keyed rq_identity (rl_queue rl)" "keyed rd_identity (rl_dead rl)"
  using assms by (auto simp: relay_wf_def keyed_def)

section \<open>Enqueue\<close>

lemma enqueue_row_Inr:
  assumes "enqueue_row rl new = Inr (rl', receipt, expected)"
  shows "(rl' = rl \<and> expected \<in> set (rl_queue rl) \<and> rr_duplicate receipt
       \<or> rl' = rl\<lparr>rl_queue := rl_queue rl @ [new]\<rparr> \<and> expected = new \<and> \<not> rr_duplicate receipt
         \<and> (\<forall>x \<in> set (rl_queue rl). rq_identity x \<noteq> rq_identity new \<and> rq_record_digest x \<noteq> rq_record_digest new)
         \<and> (\<forall>d \<in> set (rl_dead rl). rd_identity d \<noteq> rq_identity new))
     \<and> sealed_part expected = sealed_part new \<and> receipt = receipt_of expected (rr_duplicate receipt)"
proof (cases "select_one (\<lambda>x. rq_identity x = rq_identity new) (rl_queue rl)")
  case None
  with assms show ?thesis by (auto simp: enqueue_row_def select_one_None receipt_of_def)
next
  case (Some old)
  let ?e = "new\<lparr>rq_received_at := rq_received_at old, rq_lease_owner := rq_lease_owner old,
    rq_lease_id := rq_lease_id old, rq_lease_expires_at := rq_lease_expires_at old\<rparr>"
  from assms Some have *: "rl' = rl" "expected = ?e" "old = ?e" "receipt = receipt_of ?e True"
    by (auto simp: enqueue_row_def Let_def split: cell.splits)
  have "sealed_part ?e = sealed_part new" by (simp add: sealed_part_def)
  moreover have "rr_duplicate receipt" by (simp add: *(4) receipt_of_def)
  moreover have "expected \<in> set (rl_queue rl)" using select_one_Some [OF Some] *(2,3) by metis
  ultimately show ?thesis using * by (metis (full_types))
qed

lemma relay_wf_enqueue:
  assumes "relay_wf rl" "\<forall>x \<in> set (rl_queue rl). rq_identity x \<noteq> rq_identity new \<and> rq_record_digest x \<noteq> rq_record_digest new"
    "\<forall>d \<in> set (rl_dead rl). rd_identity d \<noteq> rq_identity new"
  shows "relay_wf (rl\<lparr>rl_queue := rl_queue rl @ [new]\<rparr>)"
  using assms by (auto simp: relay_wf_def keyed_def image_iff)

definition holds_sealed :: "relay \<Rightarrow> relay_row \<Rightarrow> bool" where
  "holds_sealed rl x = (\<exists>y \<in> set (rl_queue rl). sealed_part y = sealed_part x)"

lemma enqueue_row_step:
  assumes "enqueue_row rl new = Inr (rl', out)" "relay_wf rl"
  shows "relay_wf rl' \<and> holds_sealed rl' new \<and> rl_dead rl' = rl_dead rl \<and> set (rl_queue rl) \<subseteq> set (rl_queue rl')"
proof -
  obtain receipt expected where out: "out = (receipt, expected)" by force
  from enqueue_row_Inr [OF assms(1) [unfolded out]] assms(2) show ?thesis
    by (auto simp: holds_sealed_def intro: relay_wf_enqueue)
qed

interpretation enqueued: row_store enqueue_row
  "\<lambda>rl. relay_wf rl \<and> rl_dead rl = D \<and> Q \<subseteq> set (rl_queue rl)" "\<lambda>_. True" holds_sealed for D Q
proof unfold_locales
  fix rl x rl' out
  assume "enqueue_row rl x = Inr (rl', out)" "relay_wf rl \<and> rl_dead rl = D \<and> Q \<subseteq> set (rl_queue rl)"
  then have "relay_wf rl' \<and> holds_sealed rl' x \<and> rl_dead rl' = D \<and> set (rl_queue rl) \<subseteq> set (rl_queue rl')" "Q \<subseteq> set (rl_queue rl)"
    using enqueue_row_step by auto
  then show "(relay_wf rl' \<and> rl_dead rl' = D \<and> Q \<subseteq> set (rl_queue rl')) \<and> holds_sealed rl' x"
    and "holds_sealed rl y \<Longrightarrow> holds_sealed rl' y" for y
    by (auto simp: holds_sealed_def)
qed

lemma prepare_relay_Inr:
  assumes "foldE (prepare_relay_item cfg) t (zip [0..<length rs] rs) = Inr (t', ps)"
  shows "ps = map (\<lambda>r. (r, canonical_wire_bytes r, digest r)) rs"
proof -
  have "ps = map (\<lambda>x. (snd x, canonical_wire_bytes (snd x), digest (snd x))) (zip [0..<length rs] rs)"
    by (rule foldE_outputs [OF assms]) (auto simp: prepare_relay_item_def prepare_enqueue_def Let_def)
  then show ?thesis by (intro nth_equalityI) simp_all
qed

lemma authorize_Inr:
  assumes "authorize ok thread cfg clock (i, r, w, d) = Inr x"
  shows "policy_validate ok thread (rc_policy cfg) (policy_session thread (rc_policy cfg)) r
      (Aware (fst (clock i)) 0) (Aware (fst (snd (clock i))) 0) = Inr ()
    \<and> x = relay_row_of r w d (isoformat (snd (snd (clock i))))"
  using assms by (auto simp: authorize_def split: prod.splits)

lemma enqueue_many_Inr:
  assumes "enqueue_many ok thread cfg rs clock rl = Inr (rl', receipts)" "rs \<noteq> []"
  obtains rows outs where "foldE enqueue_row rl rows = Inr (rl', outs)" "receipts = map fst outs"
    "length rows = length rs"
    "\<forall>i < length rs. authorize ok thread cfg clock (i, rs ! i, canonical_wire_bytes (rs ! i), digest (rs ! i)) = Inr (rows ! i)"
proof -
  obtain t ps where p: "foldE (prepare_relay_item cfg) 0 (zip [0..<length rs] rs) = Inr (t, ps)"
    using assms(1) by (auto simp: enqueue_many_def)
  have ps: "ps = map (\<lambda>r. (r, canonical_wire_bytes r, digest r)) rs" by (rule prepare_relay_Inr [OF p])
  with assms p obtain rows where rows: "mapE (authorize ok thread cfg clock) (zip [0..<length rs] ps) = Inr rows"
    "enqueue_prepared rows rl = Inr (rl', receipts)"
    by (auto simp: enqueue_many_def)
  from rows(2) obtain outs where "foldE enqueue_row rl rows = Inr (rl', outs)" "receipts = map fst outs"
    by (auto simp: enqueue_prepared_def)
  moreover have "length rows = length rs" using mapE_length [OF rows(1)] ps by simp
  moreover have "authorize ok thread cfg clock (i, rs ! i, canonical_wire_bytes (rs ! i), digest (rs ! i)) = Inr (rows ! i)"
    if "i < length rs" for i
    using mapE_nth [OF rows(1), of i] that by (simp add: ps)
  ultimately show thesis using that by blast
qed

text \<open>
  Nothing enters the relay unauthorized, and nothing accepted is lost: after a successful enqueue
  every record of the batch passed the policy under an open verification session and is held under its
  identity and digest with its canonical bytes; every row that was queued still is, unchanged; no identity of the batch
  is dead-lettered, and the dead letters are the same.
\<close>

theorem enqueue_admits_authorized:
  assumes "relay_wf rl" "enqueue_many ok thread cfg rs clock rl = Inr (rl', receipts)"
  shows "relay_wf rl' \<and> length receipts = length rs \<and> rl_dead rl' = rl_dead rl \<and> set (rl_queue rl) \<subseteq> set (rl_queue rl')
    \<and> (\<forall>i < length rs. policy_validate ok thread (rc_policy cfg) (policy_session thread (rc_policy cfg)) (rs ! i)
          (Aware (fst (clock i)) 0) (Aware (fst (snd (clock i))) 0) = Inr ()
        \<and> (\<exists>x \<in> set (rl_queue rl'). rq_record_digest x = digest (rs ! i) \<and> rq_identity x = relay_identity (rs ! i)
             \<and> rq_wire x = Blob (canonical_wire_bytes (rs ! i)))
        \<and> relay_identity (rs ! i) \<notin> rd_identity ` set (rl_dead rl'))"
proof (cases "rs = []")
  case True
  with assms show ?thesis by (simp add: enqueue_many_def)
next
  case False
  from assms(2) False obtain rows outs where fold: "foldE enqueue_row rl rows = Inr (rl', outs)" and
    r: "receipts = map fst outs" "length rows = length rs" and
    auth: "\<forall>i < length rs. authorize ok thread cfg clock (i, rs ! i, canonical_wire_bytes (rs ! i), digest (rs ! i)) = Inr (rows ! i)"
    by (rule enqueue_many_Inr)
  have s: "relay_wf rl'" "rl_dead rl' = rl_dead rl" "set (rl_queue rl) \<subseteq> set (rl_queue rl')" "\<forall>x \<in> set rows. holds_sealed rl' x"
    using enqueued.put_all [OF fold, of "rl_dead rl" "set (rl_queue rl)"] assms(1) by auto
  have "\<exists>x \<in> set (rl_queue rl'). rq_record_digest x = digest (rs ! i) \<and> rq_identity x = relay_identity (rs ! i)
      \<and> rq_wire x = Blob (canonical_wire_bytes (rs ! i))" if i: "i < length rs" for i
  proof -
    have "rows ! i = relay_row_of (rs ! i) (canonical_wire_bytes (rs ! i)) (digest (rs ! i)) (isoformat (snd (snd (clock i))))"
      using auth i authorize_Inr by blast
    moreover have "rows ! i \<in> set rows" using i r(2) by simp
    ultimately obtain y where y: "y \<in> set (rl_queue rl')"
      "sealed_part y = sealed_part (relay_row_of (rs ! i) (canonical_wire_bytes (rs ! i)) (digest (rs ! i)) (isoformat (snd (snd (clock i)))))"
      using s(4) unfolding holds_sealed_def by metis
    show ?thesis using y(1) sealed_part_eq(1-3) [OF y(2)] by (intro bexI [of _ y]) simp_all
  qed
  moreover from this s(1) have "relay_identity (rs ! i) \<notin> rd_identity ` set (rl_dead rl')" if "i < length rs" for i
    using that by (force simp: relay_wf_def)
  moreover have "length receipts = length rs" using foldE_length [OF fold] r by simp
  ultimately show ?thesis using s auth authorize_Inr by blast
qed

section \<open>Lease\<close>

subsection \<open>The scan\<close>

lemma scan_row_cases:
  assumes "scan_row ok thread cfg q rl st x = Inr (st', c)" "keyed rq_record_digest (rl_queue rl)" "x \<in> set (rl_queue rl)"
    "ls_consumed st \<le> lq_budget q"
  obtains (stop) k b where "\<not> c" "st' = st\<lparr>ls_consumed := k, ls_budget_blocked := b\<rparr>" "ls_consumed st \<le> k" "k \<le> lq_budget q"
  | (oversized) "c" "st' = st\<lparr>ls_oversized := ls_oversized st @ [x], ls_dead_letters := ls_dead_letters st + 1\<rparr>"
  | (diverted) k wire code where "c" "ls_consumed st \<le> k" "k \<le> lq_budget q"
      "st' = st\<lparr>ls_consumed := k, ls_decoded := ls_decoded st @ [(x, wire, code)], ls_dead_letters := ls_dead_letters st + 1\<rparr>"
  | (granted) r wire where "c" "rq_wire x = Blob wire" "inspect ok thread cfg (lq_now q) wire = Inr (Inr r)"
      "digest r = rq_record_digest x" "ls_consumed st + int (length wire) \<le> lq_budget q" "length (ls_leased st) < lq_limit q"
      "st' = grant q x r (st\<lparr>ls_consumed := ls_consumed st + int (length wire)\<rparr>)"
proof -
  let ?n = "int (cell_length (rq_wire x))"
  have sel: "select_one (\<lambda>y. rq_record_digest y = rq_record_digest x) (rl_queue rl) = Some x"
    using assms(2,3) by (simp add: keyed_select_iff)
  consider "lq_limit q \<le> length (ls_leased st)" | "length (ls_leased st) < lq_limit q" "max_record_wire_bytes (rc_limits cfg) < ?n"
    | "length (ls_leased st) < lq_limit q" "\<not> max_record_wire_bytes (rc_limits cfg) < ?n" "lq_budget q < ls_consumed st + ?n"
    | (read) "length (ls_leased st) < lq_limit q" "\<not> max_record_wire_bytes (rc_limits cfg) < ?n" "ls_consumed st + ?n \<le> lq_budget q"
    by linarith
  then show thesis
  proof cases
    case 1
    with assms(1,4) show thesis by (intro stop [where k = "ls_consumed st" and b = "ls_budget_blocked st"]) (auto simp: scan_row_def Let_def)
  next
    case 2
    show thesis
    proof (cases "MAX_DEAD_LETTERS_PER_LEASE \<le> ls_dead_letters st")
      case True
      with 2 assms(1,4) show thesis
        by (intro stop [where k = "ls_consumed st" and b = "ls_budget_blocked st"]) (auto simp: scan_row_def Let_def)
    next
      case False
      with 2 assms(1) show thesis by (intro oversized) (auto simp: scan_row_def Let_def)
    qed
  next
    case 3
    with assms(1,4) show thesis by (intro stop [where k = "ls_consumed st" and b = True]) (auto simp: scan_row_def Let_def)
  next
    case read
    let ?st = "st\<lparr>ls_consumed := ls_consumed st + ?n\<rparr>"
    have div: thesis if "(st', c) = divert x wire code ?st" for wire code
    proof (cases "MAX_DEAD_LETTERS_PER_LEASE \<le> ls_dead_letters st")
      case True
      with that read(3) show thesis
        by (intro stop [where k = "ls_consumed st + ?n" and b = "ls_budget_blocked st"]) (auto simp: divert_def)
    next
      case False
      with that read(3) show thesis by (intro diverted [where k = "ls_consumed st + ?n" and wire = wire and code = code]) (auto simp: divert_def)
    qed
    show thesis
    proof (cases "rq_wire x")
      case (Blob wire)
      obtain found where found1: "inspect ok thread cfg (lq_now q) wire = Inr found"
        using assms(1) read sel Blob
        by (cases "inspect ok thread cfg (lq_now q) wire") (auto simp: scan_row_def Let_def)
      have found2: "(st', c) = (case found of Inl code \<Rightarrow> divert x wire code ?st
          | Inr r \<Rightarrow> if digest r \<noteq> rq_record_digest x then divert x wire DEAD_LETTER_DIGEST ?st else (grant q x r ?st, True))"
        using assms(1) read sel Blob found1 by (cases found) (simp_all add: scan_row_def Let_def raise_if_def cell_length_def split: if_splits)
      note found = found1 found2
      show thesis
      proof (cases found)
        case (Inl code)
        with found(2) div show thesis by simp
      next
        case (Inr r)
        show thesis
        proof (cases "digest r = rq_record_digest x")
          case True
          with found Inr Blob read show thesis by (intro granted [where wire = wire and r = r]) (auto simp: cell_length_def)
        next
          case False
          with found(2) Inr div show thesis by simp
        qed
      qed
    qed (use assms(1) read sel in \<open>auto simp: scan_row_def Let_def intro!: div [OF sym]\<close>)
  qed
qed

definition touched :: "lease_scan \<Rightarrow> string list" where
  "touched st = map rq_record_digest (ls_oversized st) @ map (\<lambda>x. rq_record_digest (fst x)) (ls_decoded st) @ map snd (ls_updates st)"

text \<open>The row a lease was granted for, with the lease and the update that fences it.\<close>

definition granted_for ::
    "(bytes \<Rightarrow> bytes \<Rightarrow> bytes \<Rightarrow> bool) \<Rightarrow> nat \<Rightarrow> relay_config \<Rightarrow> lease_request \<Rightarrow> relay_row \<Rightarrow> leased_record \<times> string \<times> string \<Rightarrow> bool" where
  "granted_for ok thread cfg q x lu = (case lu of (l, lease_id, d) \<Rightarrow>
     d = rq_record_digest x \<and> digest (lr_record l) = d
     \<and> (\<exists>wire. rq_wire x = Blob wire \<and> inspect ok thread cfg (lq_now q) wire = Inr (Inr (lr_record l)))
     \<and> lr_lease_owner l = lq_owner q \<and> lr_lease_id l = lease_id \<and> lr_lease_expires_at l = isoformat (lq_expires q))"

definition wire_sizes :: "relay_row list \<Rightarrow> int" where
  "wire_sizes xs = sum_list (map (\<lambda>x. int (cell_length (rq_wire x))) xs)"

definition scan_inv ::
    "(bytes \<Rightarrow> bytes \<Rightarrow> bytes \<Rightarrow> bool) \<Rightarrow> nat \<Rightarrow> relay_config \<Rightarrow> lease_request \<Rightarrow> relay_row set \<Rightarrow> lease_scan \<Rightarrow> bool" where
  "scan_inv ok thread cfg q X st =
     (distinct (touched st) \<and> set (ls_oversized st) \<subseteq> X \<and> fst ` set (ls_decoded st) \<subseteq> X
      \<and> length (ls_leased st) \<le> lq_limit q \<and> length (ls_leased st) = length (ls_updates st) \<and> ls_consumed st \<le> lq_budget q
      \<and> (\<exists>xs. set xs \<subseteq> X \<and> list_all2 (granted_for ok thread cfg q) xs (zip (ls_leased st) (ls_updates st))
           \<and> wire_sizes xs \<le> ls_consumed st))"

lemma scan_inv_touched: "scan_inv ok thread cfg q X st \<Longrightarrow> set (touched st) \<subseteq> rq_record_digest ` X"
proof -
  assume inv: "scan_inv ok thread cfg q X st"
  then obtain xs where xs: "set xs \<subseteq> X" "list_all2 (granted_for ok thread cfg q) xs (zip (ls_leased st) (ls_updates st))"
    by (auto simp: scan_inv_def)
  from xs(2) have "map rq_record_digest xs = map snd (map snd (zip (ls_leased st) (ls_updates st)))"
    by (induction rule: list_all2_induct) (auto simp: granted_for_def split: prod.splits)
  also have "map snd (zip (ls_leased st) (ls_updates st)) = ls_updates st" using inv by (simp add: scan_inv_def)
  finally have "snd ` set (ls_updates st) = rq_record_digest ` set xs" by (metis list.set_map)
  moreover have "set (ls_oversized st) \<subseteq> X" "fst ` set (ls_decoded st) \<subseteq> X" using inv by (simp_all add: scan_inv_def)
  ultimately show ?thesis using xs(1) by (auto simp: touched_def)
qed

lemma scan_row_inv:
  assumes "scan_row ok thread cfg q rl st x = Inr (st', c)" "keyed rq_record_digest (rl_queue rl)"
    "x \<in> set (rl_queue rl)" "scan_inv ok thread cfg q X st" "x \<in> X" "rq_record_digest x \<notin> set (touched st)"
  shows "scan_inv ok thread cfg q X st' \<and> set (touched st') \<subseteq> insert (rq_record_digest x) (set (touched st))"
proof -
  have inv: "distinct (touched st)" "set (ls_oversized st) \<subseteq> X" "fst ` set (ls_decoded st) \<subseteq> X"
    "length (ls_leased st) \<le> lq_limit q" "length (ls_leased st) = length (ls_updates st)" "ls_consumed st \<le> lq_budget q"
    using assms(4) by (simp_all add: scan_inv_def)
  obtain xs where xs: "set xs \<subseteq> X" "list_all2 (granted_for ok thread cfg q) xs (zip (ls_leased st) (ls_updates st))"
    "wire_sizes xs \<le> ls_consumed st" using assms(4) by (auto simp: scan_inv_def)
  from assms(1-3) inv(6) show ?thesis
  proof (cases rule: scan_row_cases)
    case (stop k b)
    with inv xs show ?thesis by (auto simp: scan_inv_def touched_def intro!: exI [of _ xs])
  next
    case oversized
    with inv xs assms(5,6) show ?thesis by (auto simp: scan_inv_def touched_def intro!: exI [of _ xs])
  next
    case (diverted k wire code)
    with inv xs assms(5,6) show ?thesis by (auto simp: scan_inv_def touched_def intro!: exI [of _ xs])
  next
    case (granted r wire)
    let ?l = "\<lparr>lr_record = r, lr_lease_owner = lq_owner q, lr_lease_expires_at = isoformat (lq_expires q),
      lr_lease_id = lq_token q (length (ls_leased st))\<rparr>"
    have st': "ls_leased st' = ls_leased st @ [?l]" "ls_updates st' = ls_updates st @ [(lr_lease_id ?l, rq_record_digest x)]"
      "ls_oversized st' = ls_oversized st" "ls_decoded st' = ls_decoded st" "ls_consumed st' = ls_consumed st + int (length wire)"
      using granted(7) by (simp_all add: grant_def Let_def)
    have "granted_for ok thread cfg q x (?l, lr_lease_id ?l, rq_record_digest x)"
      using granted by (simp add: granted_for_def)
    then have "list_all2 (granted_for ok thread cfg q) (xs @ [x]) (zip (ls_leased st') (ls_updates st'))"
      unfolding st' zip_append [OF inv(5)] using xs(2) by (intro list_all2_appendI) simp_all
    moreover have "wire_sizes (xs @ [x]) \<le> ls_consumed st'"
      using xs(3) granted(2) st'(5) by (simp add: wire_sizes_def cell_length_def)
    ultimately have "\<exists>xs. set xs \<subseteq> X \<and> list_all2 (granted_for ok thread cfg q) xs (zip (ls_leased st') (ls_updates st'))
        \<and> wire_sizes xs \<le> ls_consumed st'"
      using xs(1) assms(5) by (intro exI [of _ "xs @ [x]"]) simp
    moreover have "distinct (touched st')" "set (touched st') \<subseteq> insert (rq_record_digest x) (set (touched st))"
      using inv(1) assms(6) by (auto simp: touched_def st')
    ultimately show ?thesis using inv granted(5,6) by (simp add: scan_inv_def st')
  qed
qed

lemma disjoint_insert_sub: "A \<subseteq> insert d T \<Longrightarrow> d \<notin> B \<Longrightarrow> T \<inter> B = {} \<Longrightarrow> A \<inter> B = {}"
  by blast

lemma scan_rows_inv:
  assumes "scan_rows ok thread cfg q rl st xs = Inr st'" "keyed rq_record_digest (rl_queue rl)" "scan_inv ok thread cfg q X st"
    "set xs \<subseteq> X" "X \<subseteq> set (rl_queue rl)" "distinct (map rq_record_digest xs)" "set (touched st) \<inter> rq_record_digest ` set xs = {}"
  shows "scan_inv ok thread cfg q X st'"
  using assms
proof (induction xs arbitrary: st)
  case (Cons x xs)
  from Cons.prems(1) obtain st1 c where one: "scan_row ok thread cfg q rl st x = Inr (st1, c)"
    and rest: "if c then scan_rows ok thread cfg q rl st1 xs = Inr st' else st1 = st'" by (auto split: if_splits)
  have s: "scan_inv ok thread cfg q X st1 \<and> set (touched st1) \<subseteq> insert (rq_record_digest x) (set (touched st))"
    using Cons.prems by (intro scan_row_inv [OF one]) auto
  show ?case
  proof (cases c)
    case True
    with rest have eq: "scan_rows ok thread cfg q rl st1 xs = Inr st'" by simp
    have disj: "set (touched st1) \<inter> rq_record_digest ` set xs = {}"
    proof -
      have "rq_record_digest x \<notin> rq_record_digest ` set xs" "set (touched st) \<inter> rq_record_digest ` set xs = {}"
        using Cons.prems(6,7) by auto
      then show ?thesis by (rule disjoint_insert_sub [OF conjunct2 [OF s]])
    qed
    show ?thesis
      by (rule Cons.IH [OF eq Cons.prems(2) conjunct1 [OF s] _ Cons.prems(5) _ disj]) (use Cons.prems(4,6) in simp_all)
  next
    case False
    with rest s show ?thesis by simp
  qed
qed simp

subsection \<open>The commit\<close>

lemma delete_digest_identity:
  assumes "keyed rq_record_digest xs" "keyed rq_identity xs" "x \<in> set xs"
  shows "rq_identity x \<notin> rq_identity ` set (delete_where (\<lambda>y. rq_record_digest y = rq_record_digest x) xs)"
  using assms by (auto dest: keyed_inj [of rq_identity])

lemma dead_letter_step:
  assumes "dead_letter now rl (x, w, c) = Inr (rl', post)" "relay_wf rl" "x \<in> set (rl_queue rl)"
  shows "relay_wf rl'" "rl_queue rl' = delete_where (\<lambda>y. rq_record_digest y = rq_record_digest x) (rl_queue rl)"
    "set (rl_dead rl) \<subseteq> set (rl_dead rl')"
proof -
  let ?q = "delete_where (\<lambda>y. rq_record_digest y = rq_record_digest x) (rl_queue rl)"
  have rl': "rl' = \<lparr>rl_queue = ?q, rl_dead = (if select_one (\<lambda>d. rd_record_digest d = rq_record_digest x) (rl_dead rl) = None
      then rl_dead rl @ [dead_row_of x w c (isoformat now)] else rl_dead rl)\<rparr>"
    using assms(1) by (auto simp: dead_letter_def Let_def)
  then show "rl_queue rl' = ?q" "set (rl_dead rl) \<subseteq> set (rl_dead rl')" by auto
  have k: "keyed rq_record_digest (rl_queue rl)" "keyed rq_identity (rl_queue rl)" by (rule relay_wf_keyed [OF assms(2)])+
  have q: "keyed rq_record_digest ?q" "keyed rq_identity ?q" by (intro keyed_delete k)+
  have d: "keyed rd_record_digest (rl_dead rl)" "keyed rd_identity (rl_dead rl)"
    "rq_identity ` set (rl_queue rl) \<inter> rd_identity ` set (rl_dead rl) = {}"
    using assms(2) by (auto simp: relay_wf_def keyed_def)
  have "rq_identity ` set ?q \<subseteq> rq_identity ` set (rl_queue rl)" by auto
  then have sep: "rq_identity ` set ?q \<inter> rd_identity ` set (rl_dead rl) = {}" using d(3) by blast
  have x: "rq_identity x \<notin> rd_identity ` set (rl_dead rl)" using d(3) assms(3) by blast
  show "relay_wf rl'"
  proof (cases "select_one (\<lambda>d. rd_record_digest d = rq_record_digest x) (rl_dead rl) = None")
    case True
    then have "rq_record_digest x \<notin> rd_record_digest ` set (rl_dead rl)" by (auto simp: select_one_None)
    with True rl' q d(1,2) sep x delete_digest_identity [OF k assms(3)] show ?thesis
      by (simp add: relay_wf_def keyed_def)
  next
    case False
    with rl' q d(1,2) sep show ?thesis by (simp add: relay_wf_def keyed_def)
  qed
qed

lemma delete_where_twice: "delete_where P (delete_where Q xs) = delete_where (\<lambda>x. P x \<or> Q x) xs"
  by (auto simp: delete_where_def intro: filter_cong)

lemma dead_fold:
  assumes "foldE (dead_letter now) rl ds = Inr (rl', posts)" "relay_wf rl" "fst ` set ds \<subseteq> set (rl_queue rl)"
    "distinct (map (\<lambda>x. rq_record_digest (fst x)) ds)"
  shows "relay_wf rl' \<and> rl_queue rl' = delete_where (\<lambda>y. rq_record_digest y \<in> (\<lambda>x. rq_record_digest (fst x)) ` set ds) (rl_queue rl)
    \<and> set (rl_dead rl) \<subseteq> set (rl_dead rl')"
  using assms
proof (induction ds arbitrary: rl posts)
  case Nil
  then show ?case by (simp add: delete_where_def)
next
  case (Cons d ds)
  obtain x w c where d: "d = (x, w, c)" by (cases d)
  from Cons.prems(1) obtain rl1 post posts1 where one: "dead_letter now rl (x, w, c) = Inr (rl1, post)"
    and rest: "foldE (dead_letter now) rl1 ds = Inr (rl', posts1)" by (auto simp: d)
  have x: "x \<in> set (rl_queue rl)" using Cons.prems(3) d by simp
  note s = dead_letter_step [OF one Cons.prems(2) x]
  have "fst ` set ds \<subseteq> set (rl_queue rl1)"
  proof
    fix y assume "y \<in> fst ` set ds"
    then obtain z where z: "z \<in> set ds" "y = fst z" by blast
    then have "y \<in> set (rl_queue rl)" using Cons.prems(3) by auto
    moreover have "rq_record_digest (fst z) \<noteq> rq_record_digest x"
    proof
      assume "rq_record_digest (fst z) = rq_record_digest x"
      then have "rq_record_digest x \<in> (\<lambda>x. rq_record_digest (fst x)) ` set ds" using z(1) by (intro image_eqI [of _ _ z]) simp_all
      with Cons.prems(4) d show False by simp
    qed
    ultimately show "y \<in> set (rl_queue rl1)" using z(2) by (simp add: s(2))
  qed
  with Cons.IH [OF rest s(1)] Cons.prems(4) s(2,3) show ?case
    by (simp add: d delete_where_twice disj_commute) blast
qed

definition fence :: "lease_request \<Rightarrow> (string \<times> string) list \<Rightarrow> relay_row \<Rightarrow> relay_row" where
  "fence q us x = (case map_of (map prod.swap us) (rq_record_digest x) of
     None \<Rightarrow> x
   | Some lease_id \<Rightarrow> x\<lparr>rq_lease_owner := Text (lq_owner q), rq_lease_id := Text lease_id,
       rq_lease_expires_at := Text (isoformat (lq_expires q))\<rparr>)"

lemma fence_keeps [simp]:
  "rq_record_digest (fence q us x) = rq_record_digest x" "rq_identity (fence q us x) = rq_identity x"
  "rq_wire (fence q us x) = rq_wire x" "sealed_part (fence q us x) = sealed_part x"
  by (auto simp: fence_def rq_identity_def sealed_part_def split: option.splits)

lemma update_fold:
  assumes "foldE (lease_update q) rl us = Inr (rl', counts)" "distinct (map snd us)"
  shows "rl' = rl\<lparr>rl_queue := map (fence q us) (rl_queue rl)\<rparr>"
  using assms
proof (induction us arbitrary: rl counts)
  case Nil
  have "fence q [] = (\<lambda>x. x)" by (auto simp: fence_def)
  with Nil show ?case by simp
next
  case (Cons u us)
  obtain lease_id d where u: "u = (lease_id, d)" by force
  from Cons.prems(1) obtain rl1 n counts1 where one: "lease_update q rl (lease_id, d) = Inr (rl1, n)"
    and rest: "foldE (lease_update q) rl1 us = Inr (rl', counts1)" by (auto simp: u)
  have "map_of (map prod.swap us) d = None" using Cons.prems(2) u by (auto simp: map_of_eq_None_iff image_iff)
  then have "map (fence q us) (rl_queue rl1) = map (fence q (u # us)) (rl_queue rl)"
    using one by (auto simp: lease_update_def update_where_def fence_def u split: option.splits)
  moreover have "rl1\<lparr>rl_queue := xs\<rparr> = rl\<lparr>rl_queue := xs\<rparr>" for xs using one by (auto simp: lease_update_def)
  ultimately show ?case using Cons.IH [OF rest] Cons.prems(2) by simp
qed

lemma relay_wf_map:
  assumes "\<And>x. rq_record_digest (f x) = rq_record_digest x" "\<And>x. rq_identity (f x) = rq_identity x"
  shows "relay_wf (rl\<lparr>rl_queue := map f (rl_queue rl)\<rparr>) = relay_wf rl"
  by (simp add: relay_wf_def keyed_def comp_def assms)

definition diverted :: "lease_scan \<Rightarrow> string set" where
  "diverted st = rq_record_digest ` (set (ls_oversized st) \<union> fst ` set (ls_decoded st))"

lemma lease_commit_Inr:
  assumes "lease_commit q st rl = Inr rl'" "relay_wf rl" "distinct (touched st)"
    "set (ls_oversized st) \<union> fst ` set (ls_decoded st) \<subseteq> set (rl_queue rl)"
  shows "relay_wf rl'" "set (rl_dead rl) \<subseteq> set (rl_dead rl')"
    "rl_queue rl' = map (fence q (ls_updates st)) (delete_where (\<lambda>y. rq_record_digest y \<in> diverted st) (rl_queue rl))"
proof -
  let ?ds = "map (\<lambda>x. (x, [], DEAD_LETTER_INVALID_WIRE)) (ls_oversized st) @ ls_decoded st"
  have over: "foldE (dead_letter_oversized now) r xs = foldE (dead_letter now) r (map (\<lambda>x. (x, [], DEAD_LETTER_INVALID_WIRE)) xs)"
    for now r xs by (induction xs arbitrary: r) (auto simp: dead_letter_oversized_def)
  obtain rl1 posts1 rl2 posts2 counts where f: "foldE (dead_letter_oversized (lq_now q)) rl (ls_oversized st) = Inr (rl1, posts1)"
    "foldE (dead_letter (lq_now q)) rl1 (ls_decoded st) = Inr (rl2, posts2)"
    "foldE (lease_update q) rl2 (ls_updates st) = Inr (rl', counts)"
    using assms(1) by (auto simp: lease_commit_def)
  have "foldE (dead_letter (lq_now q)) rl ?ds = Inr (rl2, posts1 @ posts2)"
    using f(1,2) by (simp add: foldE_append over)
  moreover have "fst ` set ?ds \<subseteq> set (rl_queue rl)" using assms(4) by auto
  moreover have "distinct (map (\<lambda>x. rq_record_digest (fst x)) ?ds)" using assms(3) by (auto simp: touched_def comp_def)
  ultimately have s: "relay_wf rl2" "set (rl_dead rl) \<subseteq> set (rl_dead rl2)"
    "rl_queue rl2 = delete_where (\<lambda>y. rq_record_digest y \<in> (\<lambda>x. rq_record_digest (fst x)) ` set ?ds) (rl_queue rl)"
    using dead_fold [OF _ assms(2)] by blast+
  have ds: "(\<lambda>x. rq_record_digest (fst x)) ` set ?ds = diverted st" by (simp add: diverted_def image_Un image_image)
  have rl': "rl' = rl2\<lparr>rl_queue := map (fence q (ls_updates st)) (rl_queue rl2)\<rparr>"
    using assms(3) by (intro update_fold [OF f(3)]) (simp add: touched_def)
  show "relay_wf rl'" unfolding rl' using s(1) by (simp add: relay_wf_map)
  from s ds rl' show "set (rl_dead rl) \<subseteq> set (rl_dead rl')"
    "rl_queue rl' = map (fence q (ls_updates st)) (delete_where (\<lambda>y. rq_record_digest y \<in> diverted st) (rl_queue rl))"
    by simp_all
qed

subsection \<open>A lease as a whole\<close>

definition available_rows :: "lease_request \<Rightarrow> relay \<Rightarrow> relay_row set" where
  "available_rows q rl = {x \<in> set (rl_queue rl). lease_available (lq_destination q) (isoformat (lq_now q)) x}"

lemma lease_order_set [simp]: "set (lease_order xs) = set xs"
  by (simp add: lease_order_def)

lemma lease_order_keyed:
  assumes "keyed key xs" shows "keyed key (lease_order xs)"
proof -
  have "mset (lease_order xs) = mset xs" by (simp add: lease_order_def)
  then have "mset (map key (lease_order xs)) = mset (map key xs)" by simp
  with assms show ?thesis unfolding keyed_def by (metis mset_eq_imp_distinct_iff)
qed

lemma scan_available:
  assumes "scan_rows ok thread cfg q rl empty_scan (take (lq_limit q + MAX_DEAD_LETTERS_PER_LEASE)
      (lease_order (filter (lease_available (lq_destination q) (isoformat (lq_now q))) (rl_queue rl)))) = Inr st"
    "relay_wf rl" "0 \<le> lq_budget q"
  shows "scan_inv ok thread cfg q (available_rows q rl) st"
proof -
  let ?xs = "take (lq_limit q + MAX_DEAD_LETTERS_PER_LEASE)
    (lease_order (filter (lease_available (lq_destination q) (isoformat (lq_now q))) (rl_queue rl)))"
  have "keyed rq_record_digest (lease_order (filter (lease_available (lq_destination q) (isoformat (lq_now q))) (rl_queue rl)))"
    using relay_wf_keyed(1) [OF assms(2)] by (intro lease_order_keyed) (simp add: keyed_def distinct_map_filter)
  then have dist: "distinct (map rq_record_digest ?xs)" by (simp add: keyed_def take_map [symmetric])
  have sub: "set ?xs \<subseteq> available_rows q rl" using set_take_subset by (fastforce simp: available_rows_def)
  have "scan_inv ok thread cfg q (available_rows q rl) empty_scan"
    using assms(3) by (simp add: scan_inv_def empty_scan_def touched_def wire_sizes_def)
  then show ?thesis
    by (rule scan_rows_inv [OF assms(1) relay_wf_keyed(1) [OF assms(2)] _ sub _ dist])
      (auto simp: available_rows_def empty_scan_def touched_def)
qed

lemma lease_transaction_Inr:
  assumes "lease_transaction ok thread cfg q rl = Inr (rl', st)" "relay_wf rl" "0 \<le> lq_budget q"
  shows "scan_inv ok thread cfg q (available_rows q rl) st" "lease_commit q st rl = Inr rl'"
  using assms scan_available [of ok thread cfg q rl st] by (auto simp: lease_transaction_def)

lemma lease_transaction_step:
  assumes "lease_transaction ok thread cfg q rl = Inr (rl', st)" "relay_wf rl" "0 \<le> lq_budget q"
  shows "relay_wf rl'" "set (rl_dead rl) \<subseteq> set (rl_dead rl')"
    "rl_queue rl' = map (fence q (ls_updates st)) (delete_where (\<lambda>y. rq_record_digest y \<in> diverted st) (rl_queue rl))"
    "set (touched st) \<subseteq> rq_record_digest ` available_rows q rl"
proof -
  note inv = lease_transaction_Inr [OF assms]
  show "set (touched st) \<subseteq> rq_record_digest ` available_rows q rl" by (rule scan_inv_touched [OF inv(1)])
  have "distinct (touched st)" "set (ls_oversized st) \<union> fst ` set (ls_decoded st) \<subseteq> set (rl_queue rl)"
    using inv(1) by (auto simp: scan_inv_def available_rows_def)
  from lease_commit_Inr [OF inv(2) assms(2) this]
  show "relay_wf rl'" "set (rl_dead rl) \<subseteq> set (rl_dead rl')"
    "rl_queue rl' = map (fence q (ls_updates st)) (delete_where (\<lambda>y. rq_record_digest y \<in> diverted st) (rl_queue rl))" .
qed

text \<open>The call and the request it makes.\<close>

lemma lease_cases:
  assumes "lease ok thread cfg destination owner limit lease_for budget now token rl = (rl', res)"
  obtains (raised) e where "rl' = rl" "res = Inl e"
  | (committed) q st where "lease_transaction ok thread cfg q rl = Inr (rl', st)"
      "q = \<lparr>lq_destination = destination, lq_owner = owner, lq_limit = nat limit,
        lq_budget = (case budget of None \<Rightarrow> rc_max_batch_wire_bytes cfg | Some b \<Rightarrow> b), lq_now = now,
        lq_expires = now + lease_for, lq_token = token\<rparr>"
      "1 \<le> limit" "limit \<le> 10000" "0 < lease_for" "lease_for \<le> MAX_LEASE_DURATION" "time_valid (now + lease_for)"
      "1 \<le> lq_budget q" "lq_budget q \<le> rc_max_batch_wire_bytes cfg"
      "res = Inr (ls_leased st) \<or> ls_budget_blocked st \<and> ls_leased st = [] \<and> res = Inl (ValueError ''next relay record exceeds the lease wire limit'')"
proof -
  define b where "b = (case budget of None \<Rightarrow> rc_max_batch_wire_bytes cfg | Some b \<Rightarrow> b)"
  define q where "q = \<lparr>lq_destination = destination, lq_owner = owner, lq_limit = nat limit, lq_budget = b, lq_now = now,
    lq_expires = now + lease_for, lq_token = token\<rparr>"
  define m where "m = raise_if (owner = [] \<or> 128 < length owner) (ValueError ''lease owner is invalid'') (
        raise_if (\<not> (1 \<le> limit \<and> limit \<le> 10000)) (ValueError ''lease limit is outside supported range'') (
        raise_if (lease_for \<le> 0 \<or> MAX_LEASE_DURATION < lease_for) (ValueError ''lease duration is outside supported range'') (
        raise_if (\<not> (1 \<le> b \<and> b \<le> rc_max_batch_wire_bytes cfg))
          (ValueError ''relay lease wire limit is outside supported range'') (
        bindE (add_delta now lease_for) (\<lambda>expires. lease_transaction ok thread cfg (q\<lparr>lq_expires := expires\<rparr>) rl)))))"
  have l: "(rl', res) = (case m of Inl e \<Rightarrow> (rl, Inl e) | Inr (rl', st) \<Rightarrow>
      (rl', if ls_budget_blocked st \<and> ls_leased st = [] then Inl (ValueError ''next relay record exceeds the lease wire limit'')
        else Inr (ls_leased st)))"
    using assms by (simp add: lease_def m_def b_def q_def Let_def)
  show thesis
  proof (cases m)
    case (Inl e)
    with l raised show thesis by simp
  next
    case (Inr z)
    then obtain rl1 st where z: "m = Inr (rl1, st)" by (cases z) simp
    then have "1 \<le> limit" "limit \<le> 10000" "0 < lease_for" "lease_for \<le> MAX_LEASE_DURATION" "time_valid (now + lease_for)"
      "1 \<le> lq_budget q" "lq_budget q \<le> rc_max_batch_wire_bytes cfg" "lease_transaction ok thread cfg q rl = Inr (rl1, st)"
      by (auto simp: m_def add_delta_def q_def split: if_splits)
    moreover have "rl1 = rl'" "res = Inr (ls_leased st) \<or> ls_budget_blocked st \<and> ls_leased st = []
        \<and> res = Inl (ValueError ''next relay record exceeds the lease wire limit'')"
      using l z by (auto split: if_splits)
    ultimately show thesis by (intro committed [where q = q and st = st]) (auto simp: q_def b_def)
  qed
qed

lemma inspect_Inr:
  assumes "inspect ok thread cfg now wire = Inr (Inr r)"
  shows "decode_queued_record cfg wire = Inr r
    \<and> policy_validate ok thread (rc_policy cfg) (policy_session thread (rc_policy cfg)) r (Aware now 0) (Aware now 0) = Inr ()"
  using assms by (auto simp: inspect_def split: sum.splits option.splits)

text \<open>
  A leased record is authentic, authorized and fenced: every record a lease returns was read from the
  bytes of a queued row of that destination whose lease was free or over, has the row's digest, passed the policy
  at the time of the lease, and its row now carries the owner, the fresh lease id and the expiry of the lease.
  No row is leased twice in a call, and the call stays within the record limit and the byte budget.
\<close>

theorem leased_records_are_valid:
  assumes "relay_wf rl" "lease ok thread cfg destination owner limit lease_for budget now token rl = (rl', Inr out)"
  shows "int (length out) \<le> limit \<and> distinct (map (\<lambda>l. digest (lr_record l)) out)
    \<and> (\<exists>xs. wire_sizes xs \<le> (case budget of None \<Rightarrow> rc_max_batch_wire_bytes cfg | Some b \<Rightarrow> b)
      \<and> list_all2 (\<lambda>x l. x \<in> set (rl_queue rl) \<and> lease_available destination (isoformat now) x
           \<and> rq_record_digest x = digest (lr_record l)
           \<and> (\<exists>wire. rq_wire x = Blob wire \<and> decode_queued_record cfg wire = Inr (lr_record l))
           \<and> policy_validate ok thread (rc_policy cfg) (policy_session thread (rc_policy cfg)) (lr_record l) (Aware now 0) (Aware now 0) = Inr ()
           \<and> lr_lease_owner l = owner \<and> lr_lease_expires_at l = isoformat (now + lease_for)
           \<and> x\<lparr>rq_lease_owner := Text owner, rq_lease_id := Text (lr_lease_id l),
               rq_lease_expires_at := Text (isoformat (now + lease_for))\<rparr> \<in> set (rl_queue rl')) xs out)"
  using assms(2)
proof (cases rule: lease_cases)
  case (committed q st)
  have b: "0 \<le> lq_budget q" using committed(8) by simp
  note inv = lease_transaction_Inr(1) [OF committed(1) assms(1) b] and step = lease_transaction_step [OF committed(1) assms(1) b]
  have out: "out = ls_leased st" using committed(10) by simp
  from inv obtain xs where xs: "set xs \<subseteq> available_rows q rl" "wire_sizes xs \<le> lq_budget q"
    "list_all2 (granted_for ok thread cfg q) xs (zip (ls_leased st) (ls_updates st))"
    by (auto simp: scan_inv_def)
  have i: "length (ls_leased st) = length (ls_updates st)" "length (ls_leased st) \<le> nat limit" "distinct (touched st)"
    using inv committed(2) by (simp_all add: scan_inv_def)
  have g: "granted_for ok thread cfg q (xs ! k) (out ! k, ls_updates st ! k)" if "k < length out" for k
    using list_all2_nthD2 [OF xs(3), of k] that i out by simp
  have len: "length xs = length out" using list_all2_lengthD [OF xs(3)] i out by simp
  have dist: "distinct (map snd (ls_updates st))" "diverted st \<inter> set (map snd (ls_updates st)) = {}"
    using i(3) by (auto simp: touched_def diverted_def)
  have "digest (lr_record (out ! k)) = snd (ls_updates st ! k)" if "k < length out" for k
    using g [OF that] by (auto simp: granted_for_def split: prod.splits)
  then have "map (\<lambda>l. digest (lr_record l)) out = map snd (ls_updates st)"
    using i(1) out by (simp add: list_eq_iff_nth_eq)
  moreover have "list_all2 (\<lambda>x l. x \<in> set (rl_queue rl) \<and> lease_available destination (isoformat now) x
       \<and> rq_record_digest x = digest (lr_record l)
       \<and> (\<exists>wire. rq_wire x = Blob wire \<and> decode_queued_record cfg wire = Inr (lr_record l))
       \<and> policy_validate ok thread (rc_policy cfg) (policy_session thread (rc_policy cfg)) (lr_record l) (Aware now 0) (Aware now 0) = Inr ()
       \<and> lr_lease_owner l = owner \<and> lr_lease_expires_at l = isoformat (now + lease_for)
       \<and> x\<lparr>rq_lease_owner := Text owner, rq_lease_id := Text (lr_lease_id l),
           rq_lease_expires_at := Text (isoformat (now + lease_for))\<rparr> \<in> set (rl_queue rl')) xs out"
  proof (rule list_all2_all_nthI [OF len])
    fix k assume k: "k < length xs"
    obtain lease_id d where u: "ls_updates st ! k = (lease_id, d)" by force
    from g [of k] k len u obtain wire where w: "rq_wire (xs ! k) = Blob wire" "d = rq_record_digest (xs ! k)"
      "inspect ok thread cfg now wire = Inr (Inr (lr_record (out ! k)))" "digest (lr_record (out ! k)) = d"
      "lr_lease_owner (out ! k) = owner" "lr_lease_id (out ! k) = lease_id" "lr_lease_expires_at (out ! k) = isoformat (now + lease_for)"
      using committed(2) by (auto simp: granted_for_def)
    have x: "xs ! k \<in> set (rl_queue rl)" "lease_available destination (isoformat now) (xs ! k)"
      using xs(1) k committed(2) nth_mem by (auto simp: available_rows_def)
    have in_u: "(lease_id, d) \<in> set (ls_updates st)" using u k len i(1) out nth_mem by metis
    then have "map_of (map prod.swap (ls_updates st)) d = Some lease_id"
      using dist(1) by (intro map_of_is_SomeI) (auto simp: comp_def)
    then have f: "fence q (ls_updates st) (xs ! k) = (xs ! k)\<lparr>rq_lease_owner := Text owner, rq_lease_id := Text lease_id,
        rq_lease_expires_at := Text (isoformat (now + lease_for))\<rparr>"
      using w(2) committed(2) by (simp add: fence_def)
    have "d \<notin> diverted st" using dist(2) in_u by force
    with x(1) w(2) have "fence q (ls_updates st) (xs ! k) \<in> set (rl_queue rl')" unfolding step(3) by simp
    with x w f inspect_Inr [OF w(3)] show "xs ! k \<in> set (rl_queue rl) \<and> lease_available destination (isoformat now) (xs ! k)
       \<and> rq_record_digest (xs ! k) = digest (lr_record (out ! k))
       \<and> (\<exists>wire. rq_wire (xs ! k) = Blob wire \<and> decode_queued_record cfg wire = Inr (lr_record (out ! k)))
       \<and> policy_validate ok thread (rc_policy cfg) (policy_session thread (rc_policy cfg)) (lr_record (out ! k)) (Aware now 0) (Aware now 0) = Inr ()
       \<and> lr_lease_owner (out ! k) = owner \<and> lr_lease_expires_at (out ! k) = isoformat (now + lease_for)
       \<and> (xs ! k)\<lparr>rq_lease_owner := Text owner, rq_lease_id := Text (lr_lease_id (out ! k)),
           rq_lease_expires_at := Text (isoformat (now + lease_for))\<rparr> \<in> set (rl_queue rl')" by auto
  qed
  moreover have "int (length out) \<le> limit" using i(2) out committed(3) by simp
  ultimately show ?thesis using dist(1) xs(2) committed(2) by auto
qed simp

section \<open>Acknowledgement\<close>

lemma owns_lease_digest:
  "owns_lease d owner lease_id now x \<Longrightarrow> rq_record_digest x = d"
  by (simp add: owns_lease_def)

lemma owns_lease_iff:
  "owns_lease d owner lease_id now x \<longleftrightarrow> rq_record_digest x = d \<and> rq_lease_owner x = Text owner
     \<and> rq_lease_id x = Text lease_id \<and> sql_gt (rq_lease_expires_at x) (Text now)"
  by (auto simp: owns_lease_def sql_eq_def)

lemma owned_delete:
  assumes "keyed rq_record_digest xs" "x \<in> set xs" "owns_lease d owner lease_id now x"
  shows "rowcount (owns_lease d owner lease_id now) xs = 1"
    "delete_where (owns_lease d owner lease_id now) xs = delete_where (\<lambda>y. rq_record_digest y = d) xs"
proof -
  have d: "rq_record_digest x = d" using assms(3) by (rule owns_lease_digest)
  show "rowcount (owns_lease d owner lease_id now) xs = 1"
    by (rule rowcount_1_keyed [OF assms(1,2)]) (use assms(3) d owns_lease_digest in auto)
  have "owns_lease d owner lease_id now y \<longleftrightarrow> rq_record_digest y = d" if "y \<in> set xs" for y
    using keyed_inj [OF assms(1,2) that] assms(3) d owns_lease_digest by metis
  then show "delete_where (owns_lease d owner lease_id now) xs = delete_where (\<lambda>y. rq_record_digest y = d) xs"
    unfolding delete_where_def by (intro filter_cong) simp_all
qed

text \<open>The rows of a batch of acknowledgements are all owned exactly when the counts add up.\<close>

definition all_owned :: "string \<Rightarrow> string \<Rightarrow> relay_row list \<Rightarrow> (string \<times> string) list \<Rightarrow> bool" where
  "all_owned owner now xs batch = (distinct (map fst batch)
     \<and> (\<forall>(d, lease_id) \<in> set batch. \<exists>x \<in> set xs. owns_lease d owner lease_id now x))"

lemma all_owned_Cons:
  assumes "x \<in> set xs" "owns_lease d owner lease_id now x"
  shows "all_owned owner now xs ((d, lease_id) # batch) \<longleftrightarrow>
    all_owned owner now (delete_where (\<lambda>y. rq_record_digest y = d) xs) batch"
proof -
  have e: "(\<exists>y \<in> set (delete_where (\<lambda>y. rq_record_digest y = d) xs). owns_lease d' owner i now y) \<longleftrightarrow>
      d' \<noteq> d \<and> (\<exists>y \<in> set xs. owns_lease d' owner i now y)" for d' i
    by (force dest: owns_lease_digest)
  have "\<exists>y \<in> set xs. owns_lease d owner lease_id now y" using assms by blast
  then show ?thesis unfolding all_owned_def e by (auto simp: image_iff)
qed

lemma ack_rows:
  assumes "keyed rq_record_digest xs"
  shows "\<exists>ys counts. foldE (ack_row owner now) xs batch = Inr (ys, counts) \<and> sum_list counts \<le> length batch
    \<and> (sum_list counts = length batch \<longleftrightarrow> all_owned owner now xs batch)
    \<and> (sum_list counts = length batch \<longrightarrow> ys = delete_where (\<lambda>x. rq_record_digest x \<in> fst ` set batch) xs)"
  using assms
proof (induction batch arbitrary: xs)
  case Nil
  then show ?case by (simp add: all_owned_def delete_where_def)
next
  case (Cons a batch)
  obtain d lease_id where a: "a = (d, lease_id)" by force
  let ?own = "owns_lease d owner lease_id now"
  from Cons.IH [OF keyed_delete [OF Cons.prems]] obtain ys counts where ih:
    "foldE (ack_row owner now) (delete_where ?own xs) batch = Inr (ys, counts)" "sum_list counts \<le> length batch"
    "sum_list counts = length batch \<longleftrightarrow> all_owned owner now (delete_where ?own xs) batch"
    "sum_list counts = length batch \<longrightarrow> ys = delete_where (\<lambda>x. rq_record_digest x \<in> fst ` set batch) (delete_where ?own xs)"
    by metis
  have f: "foldE (ack_row owner now) xs (a # batch) = Inr (ys, rowcount ?own xs # counts)"
    using ih(1) by (simp add: ack_row_def a)
  show ?case
  proof (cases "\<exists>x \<in> set xs. ?own x")
    case True
    then obtain x where x: "x \<in> set xs" "?own x" by blast
    note o = owned_delete [OF Cons.prems x]
    with f ih all_owned_Cons [OF x, of batch] show ?thesis
      by (intro exI [of _ ys] exI [of _ "rowcount ?own xs # counts"]) (auto simp: a delete_where_twice disj_commute)
  next
    case False
    then have "rowcount ?own xs = 0" using rowcount_pos [of ?own xs] by auto
    moreover have "\<not> all_owned owner now xs (a # batch)" using False by (auto simp: all_owned_def a)
    ultimately show ?thesis using f ih(2) by (intro exI [of _ ys] exI [of _ "rowcount ?own xs # counts"]) simp
  qed
qed

lemma valid_relay_acks:
  "mapE valid_relay_ack (zip [k..<k + length acks] acks) = Inr batch \<longleftrightarrow>
     batch = acks \<and> (acks \<noteq> [] \<longrightarrow> k + length acks \<le> MAX_RELAY_BATCH_ITEMS)
     \<and> (\<forall>(d, lease_id) \<in> set acks. lower_hex 64 d \<and> lease_id \<noteq> [] \<and> length lease_id \<le> 128 \<and> isprintable lease_id)"
proof (induction acks arbitrary: k batch)
  case (Cons a acks)
  obtain d lease_id where a: "a = (d, lease_id)" by force
  have zip: "zip [k..<k + length (a # acks)] (a # acks) = (k, a) # zip [Suc k..<Suc k + length acks] acks" by (simp add: upt_rec)
  have "mapE valid_relay_ack (zip [k..<k + length (a # acks)] (a # acks)) = Inr batch \<longleftrightarrow>
      (k < MAX_RELAY_BATCH_ITEMS \<and> lower_hex 64 d \<and> lease_id \<noteq> [] \<and> length lease_id \<le> 128 \<and> isprintable lease_id)
      \<and> (\<exists>rest. mapE valid_relay_ack (zip [Suc k..<Suc k + length acks] acks) = Inr rest \<and> batch = a # rest)"
    unfolding zip by (auto simp: valid_relay_ack_def a)
  then show ?case unfolding Cons.IH by (cases "acks = []") (auto simp: a)
qed auto

text \<open>
  An acknowledgement is exact: a batch succeeds precisely when its arguments are within the
  bounds and each of its distinct digests is queued under a lease of this owner with the presented
  lease id that has not run out; it then deletes exactly those rows. Otherwise it raises and nothing changes.
\<close>

theorem relay_ack_iff:
  assumes "relay_wf rl"
  shows "relay_ack_many acks owner now rl = Inr rl' \<longleftrightarrow>
    owner \<noteq> [] \<and> length owner \<le> 128 \<and> isprintable owner \<and> length acks \<le> MAX_RELAY_BATCH_ITEMS
    \<and> (\<forall>(d, lease_id) \<in> set acks. lower_hex 64 d \<and> lease_id \<noteq> [] \<and> length lease_id \<le> 128 \<and> isprintable lease_id)
    \<and> distinct (map fst acks)
    \<and> (\<forall>(d, lease_id) \<in> set acks. \<exists>x \<in> set (rl_queue rl). rq_record_digest x = d \<and> rq_lease_owner x = Text owner
         \<and> rq_lease_id x = Text lease_id \<and> sql_gt (rq_lease_expires_at x) (Text (isoformat now)))
    \<and> rl' = rl\<lparr>rl_queue := delete_where (\<lambda>x. rq_record_digest x \<in> fst ` set acks) (rl_queue rl)\<rparr>"
proof -
  obtain ys counts where f: "foldE (ack_row owner (isoformat now)) (rl_queue rl) acks = Inr (ys, counts)"
    "sum_list counts = length acks \<longleftrightarrow> all_owned owner (isoformat now) (rl_queue rl) acks"
    "sum_list counts = length acks \<longrightarrow> ys = delete_where (\<lambda>x. rq_record_digest x \<in> fst ` set acks) (rl_queue rl)"
    using ack_rows [OF relay_wf_keyed(1) [OF assms], of owner "isoformat now" acks] by blast
  have own: "all_owned owner (isoformat now) (rl_queue rl) acks \<longleftrightarrow> distinct (map fst acks)
    \<and> (\<forall>(d, lease_id) \<in> set acks. \<exists>x \<in> set (rl_queue rl). rq_record_digest x = d \<and> rq_lease_owner x = Text owner
         \<and> rq_lease_id x = Text lease_id \<and> sql_gt (rq_lease_expires_at x) (Text (isoformat now)))"
    unfolding all_owned_def owns_lease_iff by (rule refl)
  have v: "mapE valid_relay_ack (zip [0..<length acks] acks) = Inr batch \<longleftrightarrow>
     batch = acks \<and> length acks \<le> MAX_RELAY_BATCH_ITEMS
     \<and> (\<forall>(d, lease_id) \<in> set acks. lower_hex 64 d \<and> lease_id \<noteq> [] \<and> length lease_id \<le> 128 \<and> isprintable lease_id)" for batch
    using valid_relay_acks [of 0 acks batch] by auto
  have empty: "rl\<lparr>rl_queue := delete_where (\<lambda>x. False) (rl_queue rl)\<rparr> = rl" by (simp add: delete_where_def)
  show ?thesis
  proof (cases "acks = []")
    case True
    with empty show ?thesis by (auto simp: relay_ack_many_def not_less)
  next
    case False
    have main: "relay_ack_many acks owner now rl = Inr rl' \<longleftrightarrow> owner \<noteq> [] \<and> length owner \<le> 128 \<and> isprintable owner
        \<and> mapE valid_relay_ack (zip [0..<length acks] acks) = Inr acks
        \<and> sum_list counts = length acks \<and> rl' = rl\<lparr>rl_queue := ys\<rparr>"
      using False f(1) v by (auto simp: relay_ack_many_def not_less)
    show ?thesis
    proof (cases "sum_list counts = length acks")
      case True
      with f(2,3) own have "ys = delete_where (\<lambda>x. rq_record_digest x \<in> fst ` set acks) (rl_queue rl)"
        "all_owned owner (isoformat now) (rl_queue rl) acks" by blast+
      with True show ?thesis unfolding main v [of acks] own by blast
    next
      case False
      with f(2) have "\<not> all_owned owner (isoformat now) (rl_queue rl) acks" by blast
      with False show ?thesis unfolding main own by blast
    qed
  qed
qed

section \<open>Sequences of operations\<close>

text \<open>
  The calls workers make on the queue, one transaction each, in any order. A call that raises before its
  commit leaves the tables as they were.
\<close>

datatype relay_op =
    Enqueue "transport_record list" relay_clock
  | Lease string string int int "int option" int "nat \<Rightarrow> string"
  | Ack "(string \<times> string) list" string int
  | Release string string string int

definition committed :: "relay \<Rightarrow> relay result \<Rightarrow> relay" where
  "committed rl m = (case m of Inl _ \<Rightarrow> rl | Inr rl' \<Rightarrow> rl')"

fun relay_apply :: "(bytes \<Rightarrow> bytes \<Rightarrow> bytes \<Rightarrow> bool) \<Rightarrow> nat \<Rightarrow> relay_config \<Rightarrow> relay \<Rightarrow> relay_op \<Rightarrow> relay" where
  "relay_apply ok thread cfg rl (Enqueue rs clock) =
     committed rl (bindE (enqueue_many ok thread cfg rs clock rl) (\<lambda>(rl', _). Inr rl'))"
| "relay_apply ok thread cfg rl (Lease destination owner limit lease_for budget now token) =
     fst (lease ok thread cfg destination owner limit lease_for budget now token rl)"
| "relay_apply ok thread cfg rl (Ack acks owner now) = committed rl (relay_ack_many acks owner now rl)"
| "relay_apply ok thread cfg rl (Release d owner lease_id now) = committed rl (release d owner lease_id now rl)"

lemma committed_cases:
  obtains (raised) e where "m = Inl e" "committed rl m = rl" | (ok) rl' where "m = Inr rl'" "committed rl m = rl'"
  by (cases m) (auto simp: committed_def)

lemma enqueue_step:
  assumes "relay_wf rl" "enqueue_many ok thread cfg rs clock rl = Inr (rl', receipts)"
  shows "relay_wf rl' \<and> rl_dead rl' = rl_dead rl \<and> set (rl_queue rl) \<subseteq> set (rl_queue rl')"
proof (cases "rs = []")
  case True
  with assms show ?thesis by (simp add: enqueue_many_def)
next
  case False
  from assms(2) False obtain rows outs where "foldE enqueue_row rl rows = Inr (rl', outs)" by (rule enqueue_many_Inr)
  from enqueued.put_all [OF this, of "rl_dead rl" "set (rl_queue rl)"] assms(1) show ?thesis by simp
qed

lemma relay_wf_subset:
  assumes "relay_wf rl" shows "relay_wf (rl\<lparr>rl_queue := delete_where P (rl_queue rl)\<rparr>)"
  using assms by (auto simp: relay_wf_def keyed_delete keyed_def delete_where_def distinct_map_filter)

lemma ack_step:
  assumes "relay_wf rl" "relay_ack_many acks owner now rl = Inr rl'"
  shows "relay_wf rl' \<and> rl_dead rl' = rl_dead rl
    \<and> (\<forall>x \<in> set (rl_queue rl). x \<notin> set (rl_queue rl') \<longrightarrow>
         (\<exists>lease_id. (rq_record_digest x, lease_id) \<in> set acks \<and> rq_lease_id x = Text lease_id))"
proof (cases "acks = []")
  case True
  with assms show ?thesis by (auto simp: relay_ack_many_def)
next
  case False
  from assms(2) False obtain batch queue counts where b: "mapE valid_relay_ack (zip [0..<length acks] acks) = Inr batch"
    "foldE (ack_row owner (isoformat now)) (rl_queue rl) batch = Inr (queue, counts)" "sum_list counts = length batch"
    "rl' = rl\<lparr>rl_queue := queue\<rparr>"
    by (auto simp: relay_ack_many_def split: if_splits dest: mapE_length)
  have batch: "batch = acks" using valid_relay_acks [of 0 acks batch] b(1) by simp
  from ack_rows [OF relay_wf_keyed(1) [OF assms(1)], of owner "isoformat now" batch] b(2,3)
  have q: "queue = delete_where (\<lambda>x. rq_record_digest x \<in> fst ` set acks) (rl_queue rl)"
    "all_owned owner (isoformat now) (rl_queue rl) acks" by (auto simp: batch)
  have "\<exists>lease_id. (rq_record_digest x, lease_id) \<in> set acks \<and> rq_lease_id x = Text lease_id"
    if x: "x \<in> set (rl_queue rl)" "x \<notin> set queue" for x
  proof -
    from x q(1) obtain lease_id where l: "(rq_record_digest x, lease_id) \<in> set acks" by auto
    with q(2) obtain y where "y \<in> set (rl_queue rl)" "owns_lease (rq_record_digest x) owner lease_id (isoformat now) y"
      by (auto simp: all_owned_def)
    then have "y = x" "rq_lease_id y = Text lease_id"
      using keyed_inj [OF relay_wf_keyed(1) [OF assms(1)]] x(1) by (auto simp: owns_lease_iff)
    with l show ?thesis by blast
  qed
  with b(4) q(1) assms(1) show ?thesis by (simp add: relay_wf_subset)
qed

lemma release_step:
  assumes "relay_wf rl" "release d owner lease_id now rl = Inr rl'"
  shows "relay_wf rl' \<and> rl_dead rl' = rl_dead rl
    \<and> (\<forall>x \<in> set (rl_queue rl). x \<notin> set (rl_queue rl') \<longrightarrow> rq_record_digest x = d \<and> rq_lease_id x = Text lease_id)"
proof -
  let ?own = "owns_lease d owner lease_id (isoformat now)"
  have rl': "rl' = rl\<lparr>rl_queue := update_where ?own
      (\<lambda>x. x\<lparr>rq_lease_owner := Null, rq_lease_id := Null, rq_lease_expires_at := Null\<rparr>) (rl_queue rl)\<rparr>"
    using assms(2) by (auto simp: release_def Let_def)
  have "relay_wf rl'" unfolding rl' update_where_def
    by (subst relay_wf_map) (simp_all add: rq_identity_def assms(1))
  moreover have "rq_record_digest x = d \<and> rq_lease_id x = Text lease_id"
    if "x \<in> set (rl_queue rl)" "x \<notin> set (rl_queue rl')" for x
    using that by (auto simp: rl' in_update_where owns_lease_iff)
  ultimately show ?thesis by (simp add: rl')
qed

lemma lease_step:
  assumes "relay_wf rl" "lease ok thread cfg destination owner limit lease_for budget now token rl = (rl', res)"
  shows "relay_wf rl' \<and> set (rl_dead rl) \<subseteq> set (rl_dead rl')
    \<and> (\<forall>x \<in> set (rl_queue rl). x \<notin> set (rl_queue rl') \<longrightarrow> lease_available destination (isoformat now) x)"
  using assms(2)
proof (cases rule: lease_cases)
  case (committed q st)
  have b: "0 \<le> lq_budget q" using committed(8) by simp
  note step = lease_transaction_step [OF committed(1) assms(1) b]
  have "lease_available destination (isoformat now) x" if x: "x \<in> set (rl_queue rl)" "x \<notin> set (rl_queue rl')" for x
  proof (rule ccontr)
    assume "\<not> lease_available destination (isoformat now) x"
    then have "x \<notin> available_rows q rl" using committed(2) by (simp add: available_rows_def)
    then have "rq_record_digest x \<notin> rq_record_digest ` available_rows q rl"
      using x(1) keyed_inj [OF relay_wf_keyed(1) [OF assms(1)]] by (auto simp: available_rows_def)
    then have t: "rq_record_digest x \<notin> set (touched st)" using step(4) by blast
    then have "rq_record_digest x \<notin> diverted st" "rq_record_digest x \<notin> snd ` set (ls_updates st)"
      by (auto simp: touched_def diverted_def)
    moreover from this(2) have "map_of (map prod.swap (ls_updates st)) (rq_record_digest x) = None"
      by (force simp: map_of_eq_None_iff)
    then have "fence q (ls_updates st) x = x" by (simp add: fence_def)
    ultimately have "x \<in> set (rl_queue rl')" using x(1) unfolding step(3) by (auto intro!: image_eqI [of x _ x])
    with x(2) show False by simp
  qed
  with step show ?thesis by blast
qed (use assms(1) in auto)

lemma relay_apply_step:
  assumes "relay_wf rl"
  shows "relay_wf (relay_apply ok thread cfg rl op) \<and> set (rl_dead rl) \<subseteq> set (rl_dead (relay_apply ok thread cfg rl op))"
proof (cases op)
  case (Enqueue rs clock)
  show ?thesis unfolding Enqueue relay_apply.simps
    by (rule committed_cases [of "bindE (enqueue_many ok thread cfg rs clock rl) (\<lambda>(rl', _). Inr rl')" rl])
      (use assms enqueue_step in auto)
next
  case (Lease destination owner limit lease_for budget now token)
  then show ?thesis using lease_step [OF assms] by (cases "lease ok thread cfg destination owner limit lease_for budget now token rl") auto
next
  case (Ack acks owner now)
  show ?thesis unfolding Ack relay_apply.simps
    by (rule committed_cases [of "relay_ack_many acks owner now rl" rl]) (use assms ack_step in auto)
next
  case (Release d owner lease_id now)
  show ?thesis unfolding Release relay_apply.simps
    by (rule committed_cases [of "release d owner lease_id now rl" rl]) (use assms release_step in auto)
qed

text \<open>
  Whatever sequence of calls workers make, the queue keeps one row per digest and per transfer
  identity, no identity is both queued and dead-lettered or dead-lettered twice, and a dead letter is never
  removed or changed.
\<close>

theorem relay_invariant:
  assumes "relay_wf rl"
  shows "relay_wf (foldl (relay_apply ok thread cfg) rl ops)
    \<and> set (rl_dead rl) \<subseteq> set (rl_dead (foldl (relay_apply ok thread cfg) rl ops))"
  using assms
proof (induction ops arbitrary: rl)
  case (Cons op ops)
  from Cons.IH [of "relay_apply ok thread cfg rl op"] relay_apply_step [OF Cons.prems, of ok thread cfg op] show ?case by auto
qed simp

text \<open>The time a call reads, and whether it presents a lease id for a digest.\<close>

fun before :: "int \<Rightarrow> relay_op \<Rightarrow> bool" where
  "before e (Enqueue rs clock) = True"
| "before e (Lease destination owner limit lease_for budget now token) = (time_valid now \<and> now < e)"
| "before e (Ack acks owner now) = (time_valid now \<and> now < e)"
| "before e (Release d owner lease_id now) = (time_valid now \<and> now < e)"

fun presents :: "relay_op \<Rightarrow> string \<Rightarrow> string \<Rightarrow> bool" where
  "presents (Ack acks owner now) d i = ((d, i) \<in> set acks)"
| "presents (Release d' owner i' now) d i = (d' = d \<and> i' = i)"
| "presents _ d i = False"

lemma running_lease_kept:
  assumes "relay_wf rl" "x \<in> set (rl_queue rl)" "rq_lease_id x = Text i" "rq_lease_expires_at x = Text (isoformat e)" "time_valid e"
    "before e op" "\<not> presents op (rq_record_digest x) i"
  shows "x \<in> set (rl_queue (relay_apply ok thread cfg rl op))"
proof (cases op)
  case (Enqueue rs clock)
  show ?thesis
  proof (cases "enqueue_many ok thread cfg rs clock rl")
    case (Inr z)
    obtain rl' receipts where z: "z = (rl', receipts)" by force
    with enqueue_step [OF assms(1) Inr [unfolded z]] Inr assms(2) Enqueue show ?thesis by (auto simp: committed_def)
  qed (use assms(2) Enqueue in \<open>simp add: committed_def\<close>)
next
  case (Lease destination owner limit lease_for budget now token)
  with assms(6) have "time_valid now" "now < e" by auto
  then have "isoformat now < isoformat e" using assms(5) by (simp add: isoformat_less_iff)
  then have "\<not> lease_available destination (isoformat now) x" using assms(4) by (simp add: lease_available_def)
  moreover obtain rl' res where l: "lease ok thread cfg destination owner limit lease_for budget now token rl = (rl', res)" by force
  ultimately show ?thesis using lease_step [OF assms(1) l] assms(2) Lease by auto
next
  case (Ack acks owner now)
  show ?thesis
  proof (cases "relay_ack_many acks owner now rl")
    case (Inr rl')
    from ack_step [OF assms(1) Inr] assms(2,3,7) Inr Ack show ?thesis by (auto simp: committed_def)
  qed (use assms(2) Ack in \<open>simp add: committed_def\<close>)
next
  case (Release d owner lease_id now)
  show ?thesis
  proof (cases "release d owner lease_id now rl")
    case (Inr rl')
    from release_step [OF assms(1) Inr] assms(2,3,7) Inr Release show ?thesis by (auto simp: committed_def)
  qed (use assms(2) Release in \<open>simp add: committed_def\<close>)
qed

text \<open>
  C35. A running lease is exclusive: as long as its time has not come, no sequence of enqueues, leases,
  acknowledgements and releases by any workers that does not present this record's lease id leases the
  record again, removes it or changes anything of its row.
\<close>

theorem running_lease_is_exclusive:
  assumes "relay_wf rl" "x \<in> set (rl_queue rl)" "rq_lease_id x = Text i" "rq_lease_expires_at x = Text (isoformat e)" "time_valid e"
    and "\<forall>op \<in> set ops. before e op \<and> \<not> presents op (rq_record_digest x) i"
  shows "x \<in> set (rl_queue (foldl (relay_apply ok thread cfg) rl ops))"
  using assms(1,2,6)
proof (induction ops arbitrary: rl)
  case (Cons op ops)
  then have "x \<in> set (rl_queue (relay_apply ok thread cfg rl op))"
    using running_lease_kept [OF _ _ assms(3-5)] by simp
  with Cons relay_apply_step [of rl ok thread cfg op] show ?case by simp
qed simp

end
