(* ===== verification/RelayLiveness.thy ===== *)
theory RelayLiveness
  imports RelaySafety
begin

text \<open>
  Leasing makes progress: on a queue whose rows are the rows of accepted records, a lease with the queue's own
  byte budget runs through its commit, and leases or dead-letters at least one record as long as one is available.
\<close>

section \<open>The exceptions of validation are the ones the lease handles\<close>

lemma verify_locked_handled:
  assumes "verify_record_locked ok r (Aware now 0) st = Inl e" "time_valid now"
  shows "failure_code e \<noteq> None"
  using assms
  by (auto simp: verify_record_locked_def verify_ed25519_def source_authentication_bytes_def key_utc_def astimezone_utc_def
      failure_code_def raise_if_def bindE_def split: option.splits if_splits sum.splits)

lemma validate_time_handled:
  assumes "validate_time c (Aware now 0) = Inl e" "time_valid now"
  shows "failure_code e \<noteq> None"
  using assms by (auto simp: validate_time_def utc_def astimezone_utc_def failure_code_def raise_if_def split: option.splits if_splits)

lemma session_verify_own:
  "policy_session thread pol = Some (st, s) \<Longrightarrow> session_verify ok thread s r t st = verify_record_locked ok r t st"
  by (auto simp: policy_session_def enter_session_def session_verify_def raise_if_def)

lemma policy_validate_handled:
  assumes "policy_validate ok thread pol (policy_session thread pol) r (Aware now 0) (Aware now 0) = Inl e" "time_valid now"
  shows "failure_code e \<noteq> None"
proof -
  have key: "failure_code e' \<noteq> None" if "rp_source_trust_store pol = Some st"
    "(case policy_session thread pol of None \<Rightarrow> fst (verify_record ok thread r (Aware now 0) st)
       | Some (st', s) \<Rightarrow> session_verify ok thread s r (Aware now 0) st') = Inl e'" for st e'
  proof -
    obtain st' s where "enter_session thread st = (st', s)" by force
    then have "policy_session thread pol = Some (st', s)" using that(1) by (simp add: policy_session_def)
    with that(2) session_verify_own verify_locked_handled [OF _ assms(2)] show ?thesis by auto
  qed
  have time: "failure_code e' \<noteq> None" if "validate_time (first_context r) (Aware now 0) = Inl e'" for e'
    using validate_time_handled [OF that assms(2)] .
  show ?thesis
  proof (cases "rp_source_trust_store pol")
    case None
    with assms(1) time show ?thesis
      by (auto simp: policy_validate_def raise_if_def result_simps failure_code_def split: if_splits)
  next
    case (Some st)
    with assms(1) time key [OF Some] show ?thesis
      by (auto simp: policy_validate_def raise_if_def result_simps failure_code_def split: if_splits)
  qed
qed

section \<open>Rows of accepted records\<close>

definition queued_sealed :: "relay_config \<Rightarrow> relay_row \<Rightarrow> bool" where
  "queued_sealed cfg x = (\<exists>r. transportable (rp_allow_unsigned (rc_policy cfg)) (rp_allow_blank (rc_policy cfg)) r
     \<and> within_limits (rc_limits cfg) r \<and> rq_wire x = Blob (canonical_wire_bytes r) \<and> rq_record_digest x = digest r)"

lemma queued_decodes:
  assumes "transportable (rp_allow_unsigned (rc_policy cfg)) (rp_allow_blank (rc_policy cfg)) r" "within_limits (rc_limits cfg) r"
  shows "decode_queued_record cfg (canonical_wire_bytes r) = Inr r"
  using assms(2) from_wire_reread [OF assms] by (simp add: decode_queued_record_def canonical_wire_decode within_limits_def)

lemma inspect_total:
  assumes "queued_sealed cfg x" "time_valid now"
  obtains wire found where "rq_wire x = Blob wire" "inspect ok thread cfg now wire = Inr found"
    "int (length wire) \<le> max_record_wire_bytes (rc_limits cfg)"
proof -
  obtain r where r: "transportable (rp_allow_unsigned (rc_policy cfg)) (rp_allow_blank (rc_policy cfg)) r" "within_limits (rc_limits cfg) r"
    "rq_wire x = Blob (canonical_wire_bytes r)" using assms(1) by (auto simp: queued_sealed_def)
  have "\<exists>found. inspect ok thread cfg now (canonical_wire_bytes r) = Inr found"
  proof (cases "policy_validate ok thread (rc_policy cfg) (policy_session thread (rc_policy cfg)) r (Aware now 0) (Aware now 0)")
    case (Inl e)
    with policy_validate_handled [OF Inl assms(2)] queued_decodes [OF r(1,2)] show ?thesis
      by (auto simp: inspect_def split: option.splits)
  qed (simp add: inspect_def queued_decodes [OF r(1,2)])
  with r(2,3) that show thesis by (auto simp: within_limits_def)
qed

lemma scan_row_total:
  assumes "keyed rq_record_digest (rl_queue rl)" "x \<in> set (rl_queue rl)" "queued_sealed cfg x" "time_valid (lq_now q)"
  shows "\<exists>st' c. scan_row ok thread cfg q rl st x = Inr (st', c)"
proof -
  obtain wire found where w: "rq_wire x = Blob wire" "inspect ok thread cfg (lq_now q) wire = Inr found"
    using inspect_total [OF assms(3,4)] by blast
  have "select_one (\<lambda>y. rq_record_digest y = rq_record_digest x) (rl_queue rl) = Some x"
    using assms(1,2) by (simp add: keyed_select_iff)
  with w show ?thesis by (cases found) (auto simp: scan_row_def Let_def cell_length_def raise_if_def split: prod.splits)
qed

lemma scan_rows_total:
  assumes "keyed rq_record_digest (rl_queue rl)" "set xs \<subseteq> set (rl_queue rl)" "\<forall>x \<in> set xs. queued_sealed cfg x" "time_valid (lq_now q)"
  shows "\<exists>st'. scan_rows ok thread cfg q rl st xs = Inr st'"
  using assms(2,3)
proof (induction xs arbitrary: st)
  case (Cons x xs)
  obtain st1 c where "scan_row ok thread cfg q rl st x = Inr (st1, c)"
    using scan_row_total [OF assms(1) _ _ assms(4), of x cfg ok thread st] Cons.prems by auto
  with Cons.IH [of st1] Cons.prems show ?case by (cases c) auto
qed simp

text \<open>What the scan has found only grows, and the first row always counts.\<close>

definition found_some :: "lease_scan \<Rightarrow> bool" where
  "found_some st = (ls_leased st \<noteq> [] \<or> ls_oversized st \<noteq> [] \<or> ls_decoded st \<noteq> [])"

lemma scan_row_grows:
  assumes "scan_row ok thread cfg q rl st x = Inr (st', c)" "keyed rq_record_digest (rl_queue rl)" "x \<in> set (rl_queue rl)"
    "ls_consumed st \<le> lq_budget q"
  shows "ls_consumed st' \<le> lq_budget q \<and> (found_some st \<longrightarrow> found_some st') \<and> (c \<longrightarrow> found_some st')"
  using assms(4) by (cases rule: scan_row_cases [OF assms]) (auto simp: found_some_def grant_def Let_def)

lemma scan_rows_grows:
  assumes "scan_rows ok thread cfg q rl st xs = Inr st'" "keyed rq_record_digest (rl_queue rl)" "set xs \<subseteq> set (rl_queue rl)"
    "ls_consumed st \<le> lq_budget q" "found_some st"
  shows "found_some st'"
  using assms(1,3-5)
proof (induction xs arbitrary: st)
  case (Cons x xs)
  from Cons.prems(1) obtain st1 c where one: "scan_row ok thread cfg q rl st x = Inr (st1, c)"
    and rest: "if c then scan_rows ok thread cfg q rl st1 xs = Inr st' else st1 = st'" by (auto split: if_splits)
  from scan_row_grows [OF one assms(2)] Cons.prems rest Cons.IH [of st1] show ?case by (cases c) auto
qed simp

lemma scan_finds:
  assumes "scan_rows ok thread cfg q rl empty_scan (x # xs) = Inr st'" "keyed rq_record_digest (rl_queue rl)"
    "set (x # xs) \<subseteq> set (rl_queue rl)" "queued_sealed cfg x" "time_valid (lq_now q)"
    "max_record_wire_bytes (rc_limits cfg) \<le> lq_budget q" "0 \<le> lq_budget q" "0 < lq_limit q"
  shows "found_some st'"
proof -
  from assms(1) obtain st1 c where one: "scan_row ok thread cfg q rl empty_scan x = Inr (st1, c)"
    and rest: "if c then scan_rows ok thread cfg q rl st1 xs = Inr st' else st1 = st'" by (auto split: if_splits)
  obtain wire found where w: "rq_wire x = Blob wire" "inspect ok thread cfg (lq_now q) wire = Inr found"
    "int (length wire) \<le> max_record_wire_bytes (rc_limits cfg)" using inspect_total [OF assms(4,5)] by blast
  have "select_one (\<lambda>y. rq_record_digest y = rq_record_digest x) (rl_queue rl) = Some x"
    using assms(2,3) by (simp add: keyed_select_iff)
  with one w assms(6,8) have c: "c"
    by (cases found) (auto simp: scan_row_def Let_def cell_length_def empty_scan_def divert_def MAX_DEAD_LETTERS_PER_LEASE_def split: if_splits)
  have "ls_consumed empty_scan \<le> lq_budget q" using assms(7) by (simp add: empty_scan_def)
  then have "found_some st1" "ls_consumed st1 \<le> lq_budget q"
    using scan_row_grows [OF one assms(2)] assms(3) c by auto
  with rest c scan_rows_grows [OF _ assms(2), of ok thread cfg q st1 xs st'] assms(3) show ?thesis by auto
qed

section \<open>The commit goes through\<close>

lemma dead_fold_total:
  assumes "relay_wf rl" "fst ` set ds \<subseteq> set (rl_queue rl)" "distinct (map (\<lambda>x. rq_record_digest (fst x)) ds)"
    "(\<lambda>x. rq_record_digest (fst x)) ` set ds \<inter> rd_record_digest ` set (rl_dead rl) = {}"
  shows "\<exists>rl'. foldE (dead_letter now) rl ds = Inr (rl', map (\<lambda>(x, w, c). dead_row_of x w c (isoformat now)) ds)
    \<and> rl_dead rl' = rl_dead rl @ map (\<lambda>(x, w, c). dead_row_of x w c (isoformat now)) ds"
  using assms
proof (induction ds arbitrary: rl)
  case (Cons d ds)
  obtain x w c where d: "d = (x, w, c)" by (cases d)
  let ?row = "dead_row_of x w c (isoformat now)"
  have fresh: "select_one (\<lambda>y. rd_record_digest y = rq_record_digest x) (rl_dead rl) = None"
  proof -
    have "rq_record_digest x \<notin> rd_record_digest ` set (rl_dead rl)" using Cons.prems(4) d by simp
    then show ?thesis unfolding select_one_None by (intro ballI notI) (drule imageI [of _ _ rd_record_digest], simp)
  qed
  define rl1 where "rl1 = \<lparr>rl_queue = delete_where (\<lambda>y. rq_record_digest y = rq_record_digest x) (rl_queue rl), rl_dead = rl_dead rl @ [?row]\<rparr>"
  have one: "dead_letter now rl (x, w, c) = Inr (rl1, ?row)"
    using fresh by (simp add: dead_letter_def prepare_dead_letter_postcondition_def Let_def rl1_def)
  have x: "x \<in> set (rl_queue rl)" using Cons.prems(2) d by simp
  have new: "rq_record_digest x \<notin> (\<lambda>x. rq_record_digest (fst x)) ` set ds" using Cons.prems(3) d by simp
  have "relay_wf rl1" by (rule dead_letter_step(1) [OF one Cons.prems(1) x])
  moreover have "fst ` set ds \<subseteq> set (rl_queue rl1)"
    using Cons.prems(2) new d unfolding rl1_def by (force simp: image_subset_iff)
  moreover have "distinct (map (\<lambda>x. rq_record_digest (fst x)) ds)" using Cons.prems(3) by simp
  moreover have "(\<lambda>x. rq_record_digest (fst x)) ` set ds \<inter> rd_record_digest ` set (rl_dead rl1) = {}"
    using Cons.prems(4) new by (auto simp: rl1_def)
  ultimately obtain rl' where "foldE (dead_letter now) rl1 ds = Inr (rl', map (\<lambda>(x, w, c). dead_row_of x w c (isoformat now)) ds)"
    "rl_dead rl' = rl_dead rl1 @ map (\<lambda>(x, w, c). dead_row_of x w c (isoformat now)) ds" using Cons.IH by blast
  with one show ?case by (simp add: d rl1_def)
qed simp

lemma delete_digest_image:
  "rq_record_digest ` set (delete_where (\<lambda>y. rq_record_digest y \<in> D) xs) = rq_record_digest ` set xs - D"
  by auto

lemma update_fold_total:
  assumes "keyed rq_record_digest (rl_queue rl)" "snd ` set us \<subseteq> rq_record_digest ` set (rl_queue rl)"
  shows "\<exists>rl' counts. foldE (lease_update q) rl us = Inr (rl', counts) \<and> sum_list counts = length us"
  using assms
proof (induction us arbitrary: rl)
  case (Cons u us)
  obtain lease_id d where u: "u = (lease_id, d)" by force
  let ?f = "\<lambda>x. x\<lparr>rq_lease_owner := Text (lq_owner q), rq_lease_id := Text lease_id, rq_lease_expires_at := Text (isoformat (lq_expires q))\<rparr>"
  let ?rl = "rl\<lparr>rl_queue := update_where (\<lambda>x. rq_record_digest x = d) ?f (rl_queue rl)\<rparr>"
  obtain x where "x \<in> set (rl_queue rl)" "rq_record_digest x = d" using Cons.prems(2) u by auto
  then have "rowcount (\<lambda>x. rq_record_digest x = d) (rl_queue rl) = 1" by (intro rowcount_1_keyed [OF Cons.prems(1)]) auto
  then have "lease_update q rl u = Inr (?rl, 1)" by (simp add: lease_update_def u)
  moreover have "keyed rq_record_digest (rl_queue ?rl)" using Cons.prems(1) by (simp add: keyed_update)
  moreover have "map rq_record_digest (rl_queue ?rl) = map rq_record_digest (rl_queue rl)" by (simp add: update_where_def)
  then have "rq_record_digest ` set (rl_queue ?rl) = rq_record_digest ` set (rl_queue rl)" by (metis list.set_map)
  then have "snd ` set us \<subseteq> rq_record_digest ` set (rl_queue ?rl)" using Cons.prems(2) by simp
  ultimately show ?case using Cons.IH [of ?rl] by auto
qed simp

lemma lease_commit_total:
  assumes "relay_wf rl" "scan_inv ok thread cfg q (available_rows q rl) st"
    "rq_record_digest ` set (rl_queue rl) \<inter> rd_record_digest ` set (rl_dead rl) = {}"
  shows "\<exists>rl'. lease_commit q st rl = Inr rl'
    \<and> length (rl_dead rl') = length (rl_dead rl) + length (ls_oversized st) + length (ls_decoded st)"
proof -
  let ?item = "\<lambda>x. (x, [], DEAD_LETTER_INVALID_WIRE)"
  let ?ds = "map ?item (ls_oversized st) @ ls_decoded st"
  let ?rows = "map (\<lambda>(x, w, c). dead_row_of x w c (isoformat (lq_now q)))"
  have over: "foldE (dead_letter_oversized now) r xs = foldE (dead_letter now) r (map ?item xs)"
    for now r xs by (induction xs arbitrary: r) (auto simp: dead_letter_oversized_def)
  have inv: "distinct (touched st)" "set (ls_oversized st) \<union> fst ` set (ls_decoded st) \<subseteq> set (rl_queue rl)"
    using assms(2) by (auto simp: scan_inv_def available_rows_def)
  have ds: "fst ` set ?ds \<subseteq> set (rl_queue rl)" "distinct (map (\<lambda>x. rq_record_digest (fst x)) ?ds)"
    using inv by (auto simp: touched_def comp_def)
  then have "(\<lambda>x. rq_record_digest (fst x)) ` set ?ds \<inter> rd_record_digest ` set (rl_dead rl) = {}" using assms(3) by blast
  with dead_fold_total [OF assms(1) ds] obtain rl2 where d: "foldE (dead_letter (lq_now q)) rl ?ds = Inr (rl2, ?rows ?ds)"
    "rl_dead rl2 = rl_dead rl @ ?rows ?ds" by blast
  from d(1) obtain rl1 posts1 posts2 where f: "foldE (dead_letter_oversized (lq_now q)) rl (ls_oversized st) = Inr (rl1, posts1)"
    "foldE (dead_letter (lq_now q)) rl1 (ls_decoded st) = Inr (rl2, posts2)" "posts1 @ posts2 = ?rows ?ds"
    by (auto simp: foldE_append over)
  note s = dead_fold [OF d(1) assms(1) ds]
  have q2: "rl_queue rl2 = delete_where (\<lambda>y. rq_record_digest y \<in> (\<lambda>x. rq_record_digest (fst x)) ` set ?ds) (rl_queue rl)"
    and wf2: "relay_wf rl2" using s by blast+
  have sep: "snd ` set (ls_updates st) \<inter> (\<lambda>x. rq_record_digest (fst x)) ` set ?ds = {}"
  proof -
    have "(\<lambda>x. rq_record_digest (fst x)) ` set ?ds
        = rq_record_digest ` set (ls_oversized st) \<union> (\<lambda>x. rq_record_digest (fst x)) ` set (ls_decoded st)"
      by (simp add: image_Un image_image)
    moreover from inv(1) have "(rq_record_digest ` set (ls_oversized st) \<union> (\<lambda>x. rq_record_digest (fst x)) ` set (ls_decoded st))
        \<inter> snd ` set (ls_updates st) = {}" by (simp add: touched_def Int_Un_distrib Int_Un_distrib2)
    ultimately show ?thesis by (simp only: Int_commute)
  qed
  have "snd ` set (ls_updates st) \<subseteq> rq_record_digest ` set (rl_queue rl)"
    using scan_inv_touched [OF assms(2)] by (auto simp: touched_def available_rows_def)
  with sep have "snd ` set (ls_updates st) \<subseteq> rq_record_digest ` set (rl_queue rl2)" unfolding q2 delete_digest_image by blast
  from update_fold_total [OF relay_wf_keyed(1) [OF wf2] this, of q] obtain rl3 counts where
    u: "foldE (lease_update q) rl2 (ls_updates st) = Inr (rl3, counts)" "sum_list counts = length (ls_updates st)" by blast
  have rl3: "rl3 = rl2\<lparr>rl_queue := map (fence q (ls_updates st)) (rl_queue rl2)\<rparr>"
    using inv(1) by (intro update_fold [OF u(1)]) (simp add: touched_def)
  have "dead_letter_postcondition rl3 p = Inr ()" if p: "p \<in> set (?rows ?ds)" for p
  proof -
    have "p \<in> set (rl_dead rl3)" using p d(2) by (simp add: rl3)
    then have "select_one (\<lambda>d. rd_record_digest d = rd_record_digest p) (rl_dead rl3) = Some p"
      using wf2 by (simp add: rl3 relay_wf_def keyed_select_iff)
    moreover have "rd_record_digest p \<in> (\<lambda>x. rq_record_digest (fst x)) ` set ?ds" using p by force
    then have "rd_record_digest p \<notin> rq_record_digest ` set (rl_queue rl2)" unfolding q2 delete_digest_image by blast
    then have "select_one (\<lambda>x. rq_record_digest x = rd_record_digest p) (rl_queue rl3) = None"
      by (auto simp: select_one_None rl3 image_iff)
    ultimately show ?thesis by (simp add: dead_letter_postcondition_def)
  qed
  then have "mapE (dead_letter_postcondition rl3) (posts1 @ posts2) = Inr (map (\<lambda>_. ()) (posts1 @ posts2))"
    unfolding f(3) by (rule mapE_Inr_map)
  then have "lease_commit q st rl = Inr rl3" using f u by (simp add: lease_commit_def)
  moreover have "length (rl_dead rl3) = length (rl_dead rl) + length (ls_oversized st) + length (ls_decoded st)"
    by (simp add: rl3 d(2))
  ultimately show ?thesis by blast
qed

text \<open>
  C36. Leasing makes progress: on a well-formed queue of rows of accepted records none of which shares its digest
  with a dead letter, a lease with valid arguments and the queue's own byte budget never raises anything but the byte budget
  error, and as long as a record of the destination is available it leases a record or moves one to the dead letters.
\<close>

theorem lease_makes_progress:
  assumes "SealedRelayQueue pol limits max_batch = Inr cfg" "relay_wf rl" "\<forall>x \<in> set (rl_queue rl). queued_sealed cfg x"
    and "rq_record_digest ` set (rl_queue rl) \<inter> rd_record_digest ` set (rl_dead rl) = {}"
    and "owner \<noteq> []" "length owner \<le> 128" "1 \<le> limit" "limit \<le> 10000" "0 < lease_for" "lease_for \<le> MAX_LEASE_DURATION"
    and "time_valid now" "time_valid (now + lease_for)"
    and "lease ok thread cfg destination owner limit lease_for None now token rl = (rl', res)"
  shows "(case res of Inl e \<Rightarrow> e = ValueError ''next relay record exceeds the lease wire limit'' | Inr _ \<Rightarrow> True)
    \<and> ((\<exists>x \<in> set (rl_queue rl). lease_available destination (isoformat now) x) \<longrightarrow>
         (\<exists>l out. res = Inr (l # out)) \<or> length (rl_dead rl) < length (rl_dead rl'))"
proof -
  have cfg: "rc_max_batch_wire_bytes cfg = max_batch" "rc_limits cfg = limits" "0 < max_batch" "max_record_wire_bytes limits \<le> max_batch"
    using assms(1) by (auto simp: SealedRelayQueue_def)
  define q where "q = \<lparr>lq_destination = destination, lq_owner = owner, lq_limit = nat limit, lq_budget = max_batch, lq_now = now,
    lq_expires = now + lease_for, lq_token = token\<rparr>"
  define xs where "xs = take (lq_limit q + MAX_DEAD_LETTERS_PER_LEASE)
    (lease_order (filter (lease_available destination (isoformat now)) (rl_queue rl)))"
  have sub: "set xs \<subseteq> set (rl_queue rl)" unfolding xs_def using set_take_subset by fastforce
  have k: "keyed rq_record_digest (rl_queue rl)" by (rule relay_wf_keyed(1) [OF assms(2)])
  have "\<forall>x \<in> set xs. queued_sealed cfg x" "time_valid (lq_now q)" using assms(3,11) sub by (auto simp: q_def)
  from scan_rows_total [OF k sub this] obtain st where scan: "scan_rows ok thread cfg q rl empty_scan xs = Inr st" by blast
  have xs_q: "xs = take (lq_limit q + MAX_DEAD_LETTERS_PER_LEASE)
      (lease_order (filter (lease_available (lq_destination q) (isoformat (lq_now q))) (rl_queue rl)))"
    by (simp add: xs_def q_def)
  have b: "0 \<le> lq_budget q" using cfg by (simp add: q_def)
  have inv: "scan_inv ok thread cfg q (available_rows q rl) st"
    by (rule scan_available [OF scan [unfolded xs_q] assms(2) b])
  from lease_commit_total [OF assms(2) inv assms(4)] obtain rl1 where c: "lease_commit q st rl = Inr rl1"
    "length (rl_dead rl1) = length (rl_dead rl) + length (ls_oversized st) + length (ls_decoded st)" by blast
  have "lease_transaction ok thread cfg q rl = Inr (rl1, st)"
    using scan c(1) by (simp add: lease_transaction_def xs_q)
  then have res: "rl' = rl1" "res = (if ls_budget_blocked st \<and> ls_leased st = []
      then Inl (ValueError ''next relay record exceeds the lease wire limit'') else Inr (ls_leased st))"
    using assms(5-13) cfg by (auto simp: lease_def q_def Let_def add_delta_def raise_if_def)
  have "found_some st" if "\<exists>x \<in> set (rl_queue rl). lease_available destination (isoformat now) x"
  proof -
    have "lease_order (filter (lease_available destination (isoformat now)) (rl_queue rl)) \<noteq> []"
      using that by (metis filter_empty_conv lease_order_set set_empty)
    then have "xs \<noteq> []" using assms(7) by (simp add: xs_def q_def)
    then obtain y ys where "xs = y # ys" by (cases xs) auto
    with scan sub assms(3,7,11) cfg show ?thesis
      by (intro scan_finds [of ok thread cfg q rl y ys st, OF _ k]) (auto simp: q_def)
  qed
  then show ?thesis using res c(2) by (cases "ls_leased st") (auto simp: found_some_def)
qed

section \<open>Witnesses\<close>

definition sample_relay_policy :: relay_policy where
  "sample_relay_policy = \<lparr>rp_routes = [\<lparr>rb_tenant = ''acme'', rb_source_connector = ''crm'', rb_destination_connector = ''erp'',
       rb_allowed_plan_digests = {}, rb_allowed_source_key_ids = {}\<rparr>],
     rp_require_expiry = True, rp_max_lifetime = Some 1000000, rp_source_trust_store = Some (sample_store ACTIVE),
     rp_allow_unsigned = False, rp_allow_blank = False\<rparr>"

definition sample_relay_limits :: protocol_limits where
  "sample_relay_limits = ProtocolLimits\<lparr>max_record_wire_bytes := int (length (canonical_wire_bytes sample_signed))\<rparr>"

definition sample_relay_config :: relay_config where
  "sample_relay_config = \<lparr>rc_policy = sample_relay_policy, rc_limits = sample_relay_limits,
     rc_max_batch_wire_bytes = max_record_wire_bytes sample_relay_limits\<rparr>"

definition sample_relay_row :: relay_row where
  "sample_relay_row = relay_row_of sample_signed (canonical_wire_bytes sample_signed) (digest sample_signed) (isoformat 0)"

definition sample_relay :: relay where
  "sample_relay = \<lparr>rl_queue = [sample_relay_row], rl_dead = []\<rparr>"

lemma sample_signed_transportable: "transportable False False sample_signed"
  using sample_context_wf
  by (simp add: transportable_def object_wf_def record_wf_def protocol_version_def sample_signed_context)
    (simp add: sample_signed_def sample_record_def field_wf_def envelope_wf_def authentication_wf_def agrees_def
      sample_authentication_def sha256_hex_lower sample_context_def)

lemma sample_signed_limits: "within_limits sample_relay_limits sample_signed"
  by (simp add: within_limits_def sample_relay_limits_def ProtocolLimits_def) (simp add: sample_signed_def sample_record_def)

lemma sample_relay_created:
  "SealedRelayQueue sample_relay_policy sample_relay_limits (max_record_wire_bytes sample_relay_limits) = Inr sample_relay_config"
  using canonical_wire_nonempty [of sample_signed]
  by (simp add: SealedRelayQueue_def sample_relay_config_def sample_relay_limits_def)

lemma sample_relay_wf: "relay_wf \<lparr>rl_queue = [], rl_dead = []\<rparr>" "relay_wf sample_relay"
  by (simp_all add: relay_wf_def sample_relay_def keyed_def)

lemma sample_relay_sealed: "\<forall>x \<in> set (rl_queue sample_relay). queued_sealed sample_relay_config x"
  using sample_signed_transportable sample_signed_limits
  by (auto simp: queued_sealed_def sample_relay_def sample_relay_row_def sample_relay_config_def sample_relay_policy_def)

lemma sample_relay_valid:
  "policy_validate (\<lambda>_ _ _. True) 0 sample_relay_policy (policy_session 0 sample_relay_policy) sample_signed (Aware 0 0) (Aware 0 0) = Inr ()"
proof -
  have "session_verify (\<lambda>_ _ _. True) 0 \<lparr>vs_active = True, vs_owner = 0\<rparr> sample_signed (Aware 0 0)
      ((sample_store ACTIVE)\<lparr>ts_verification_depth := ts_verification_depth (sample_store ACTIVE) + 1\<rparr>) = Inr (sample_key ACTIVE)"
    by (simp add: session_verify_def sample_verified)
  then show ?thesis
    by (simp add: policy_validate_def policy_session_def enter_session_def sample_relay_policy_def protocol_version_def
        sample_signed_context sample_context_def route_allows_def tenant_def source_connector_def destination_connector_def
        validate_time_def utc_def astimezone_utc_def time_valid_def day_us_def raise_if_def)
qed

lemma sample_relay_enqueued:
  "enqueue_many (\<lambda>_ _ _. True) 0 sample_relay_config [sample_signed] (\<lambda>_. (0, 0, 0)) \<lparr>rl_queue = [], rl_dead = []\<rparr>
     = Inr (sample_relay, [receipt_of sample_relay_row False])"
proof -
  have "prepare_relay_item sample_relay_config 0 (0, sample_signed)
      = Inr (int (length (canonical_wire_bytes sample_signed)), (sample_signed, canonical_wire_bytes sample_signed, digest sample_signed))"
    by (simp add: prepare_relay_item_def prepare_enqueue_def sample_relay_config_def sample_relay_limits_def
        MAX_RELAY_BATCH_ITEMS_def Let_def raise_if_def)
  moreover have "authorize (\<lambda>_ _ _. True) 0 sample_relay_config (\<lambda>_. (0, 0, 0))
      (0, sample_signed, canonical_wire_bytes sample_signed, digest sample_signed) = Inr sample_relay_row"
    using sample_relay_valid by (simp add: authorize_def sample_relay_config_def sample_relay_row_def)
  moreover have "enqueue_prepared [sample_relay_row] \<lparr>rl_queue = [], rl_dead = []\<rparr> = Inr (sample_relay, [receipt_of sample_relay_row False])"
    by (simp add: enqueue_prepared_def enqueue_row_def select_one_def queue_postcondition_def sample_relay_def raise_if_def)
  ultimately show ?thesis by (simp add: enqueue_many_def)
qed

theorem enqueue_admits_authorized_witness:
  "\<exists>x \<in> set (rl_queue sample_relay). rq_record_digest x = digest sample_signed
     \<and> rq_wire x = Blob (canonical_wire_bytes sample_signed)"
  using enqueue_admits_authorized [OF sample_relay_wf(1) sample_relay_enqueued] by auto

theorem relay_invariant_witness:
  "relay_wf (foldl (relay_apply (\<lambda>_ _ _. True) 0 sample_relay_config) sample_relay
     [Lease ''erp'' ''w'' 1 60000000 None 0 (\<lambda>_. ''id''), Ack [(digest sample_signed, ''id'')] ''w'' 1])"
  using relay_invariant [OF sample_relay_wf(2)] by blast

definition sample_leased_row :: relay_row where
  "sample_leased_row = sample_relay_row\<lparr>rq_lease_owner := Text ''w'', rq_lease_id := Text ''id'',
     rq_lease_expires_at := Text (isoformat 60000000)\<rparr>"

lemma sample_leased:
  "lease (\<lambda>_ _ _. True) 0 sample_relay_config ''erp'' ''w'' 1 60000000 None 0 (\<lambda>_. ''id'') sample_relay
     = (\<lparr>rl_queue = [sample_leased_row], rl_dead = []\<rparr>,
        Inr [\<lparr>lr_record = sample_signed, lr_lease_owner = ''w'', lr_lease_expires_at = isoformat 60000000, lr_lease_id = ''id''\<rparr>])"
proof -
  define q where "q = \<lparr>lq_destination = ''erp'', lq_owner = ''w'', lq_limit = 1, lq_budget = max_record_wire_bytes sample_relay_limits,
    lq_now = 0, lq_expires = 60000000, lq_token = (\<lambda>_. ''id'')\<rparr>"
  have decode: "decode_queued_record sample_relay_config (canonical_wire_bytes sample_signed) = Inr sample_signed"
    using sample_signed_transportable sample_signed_limits
    by (intro queued_decodes) (simp_all add: sample_relay_config_def sample_relay_policy_def)
  have "inspect (\<lambda>_ _ _. True) 0 sample_relay_config 0 (canonical_wire_bytes sample_signed) = Inr (Inr sample_signed)"
    using sample_relay_valid by (simp add: inspect_def decode) (simp add: sample_relay_config_def)
  then have scan: "scan_row (\<lambda>_ _ _. True) 0 sample_relay_config q sample_relay empty_scan sample_relay_row
      = Inr (grant q sample_relay_row sample_signed (empty_scan\<lparr>ls_consumed := int (length (canonical_wire_bytes sample_signed))\<rparr>), True)"
    by (simp add: scan_row_def Let_def select_one_def sample_relay_def sample_relay_row_def cell_length_def
        sample_relay_config_def sample_relay_limits_def q_def empty_scan_def raise_if_def)
  have order: "take (Suc MAX_DEAD_LETTERS_PER_LEASE) (lease_order (filter (lease_available ''erp'' (isoformat 0)) (rl_queue sample_relay))) = [sample_relay_row]"
    by (simp add: sample_relay_def lease_available_def lease_order_def)
      (simp add: sample_relay_row_def relay_row_of_def destination_connector_def sample_signed_context sample_context_def)
  have trans: "lease_transaction (\<lambda>_ _ _. True) 0 sample_relay_config q sample_relay
      = Inr (\<lparr>rl_queue = [sample_leased_row], rl_dead = []\<rparr>,
          grant q sample_relay_row sample_signed (empty_scan\<lparr>ls_consumed := int (length (canonical_wire_bytes sample_signed))\<rparr>))"
    using scan order
    by (simp add: lease_transaction_def q_def lease_commit_def grant_def empty_scan_def lease_update_def sample_relay_def
        update_where_def rowcount_def Let_def sample_leased_row_def)
  have "time_valid 60000000" by (simp add: time_valid_def day_us_def)
  moreover have "1 \<le> length (canonical_wire_bytes sample_signed)"
    using canonical_wire_nonempty [of sample_signed] by (cases "canonical_wire_bytes sample_signed") simp_all
  ultimately show ?thesis using trans
    by (simp add: lease_def add_delta_def MAX_LEASE_DURATION_def q_def sample_relay_config_def sample_relay_limits_def
        raise_if_def Let_def grant_def empty_scan_def)
qed

theorem leased_records_are_valid_witness:
  "\<exists>xs. list_all2 (\<lambda>x l. x \<in> set (rl_queue sample_relay) \<and> rq_record_digest x = digest (lr_record l)) xs
     [\<lparr>lr_record = sample_signed, lr_lease_owner = ''w'', lr_lease_expires_at = isoformat 60000000, lr_lease_id = ''id''\<rparr>]"
  using leased_records_are_valid [OF sample_relay_wf(2) sample_leased] by (auto simp: list_all2_Cons2)

theorem relay_ack_iff_witness:
  "relay_ack_many [(digest sample_signed, ''id'')] ''w'' 1 \<lparr>rl_queue = [sample_leased_row], rl_dead = []\<rparr>
     = Inr \<lparr>rl_queue = [], rl_dead = []\<rparr>"
proof (subst relay_ack_iff)
  have "isoformat 1 < isoformat 60000000" by (simp add: isoformat_less_iff time_valid_def day_us_def)
  moreover have "lower_hex 64 (digest sample_signed)" by (simp add: digest_def sha256_hex_lower)
  moreover have "rq_record_digest sample_leased_row = digest sample_signed"
    by (simp add: sample_leased_row_def sample_relay_row_def)
  moreover have "isprintable ''id''" "isprintable ''w''" by (simp_all add: isprintable_def char_printable_def)
  ultimately show "''w'' \<noteq> [] \<and> length ''w'' \<le> 128 \<and> isprintable ''w'' \<and> length [(digest sample_signed, ''id'')] \<le> MAX_RELAY_BATCH_ITEMS
    \<and> (\<forall>(d, lease_id) \<in> set [(digest sample_signed, ''id'')]. lower_hex 64 d \<and> lease_id \<noteq> [] \<and> length lease_id \<le> 128 \<and> isprintable lease_id)
    \<and> distinct (map fst [(digest sample_signed, ''id'')])
    \<and> (\<forall>(d, lease_id) \<in> set [(digest sample_signed, ''id'')]. \<exists>x \<in> set (rl_queue \<lparr>rl_queue = [sample_leased_row], rl_dead = []\<rparr>).
         rq_record_digest x = d \<and> rq_lease_owner x = Text ''w''
         \<and> rq_lease_id x = Text lease_id \<and> sql_gt (rq_lease_expires_at x) (Text (isoformat 1)))
    \<and> \<lparr>rl_queue = [], rl_dead = []\<rparr> = \<lparr>rl_queue = [sample_leased_row], rl_dead = []\<rparr>\<lparr>rl_queue :=
         delete_where (\<lambda>x. rq_record_digest x \<in> fst ` set [(digest sample_signed, ''id'')]) (rl_queue \<lparr>rl_queue = [sample_leased_row], rl_dead = []\<rparr>)\<rparr>"
    by (simp add: MAX_RELAY_BATCH_ITEMS_def delete_where_def) (simp add: sample_leased_row_def)
qed (simp add: relay_wf_def keyed_def)

theorem running_lease_is_exclusive_witness:
  "sample_leased_row \<in> set (rl_queue (foldl (relay_apply (\<lambda>_ _ _. True) 0 sample_relay_config)
     \<lparr>rl_queue = [sample_leased_row], rl_dead = []\<rparr>
     [Lease ''erp'' ''other'' 1 60000000 None 1 (\<lambda>_. ''id2''), Ack [(digest sample_signed, ''id2'')] ''other'' 2]))"
proof (rule running_lease_is_exclusive [where i = "''id''" and e = 60000000])
  show "relay_wf \<lparr>rl_queue = [sample_leased_row], rl_dead = []\<rparr>" by (simp add: relay_wf_def keyed_def)
qed (simp_all add: sample_leased_row_def time_valid_def day_us_def)

theorem lease_makes_progress_witness:
  "\<exists>rl' res. lease (\<lambda>_ _ _. True) 0 sample_relay_config ''erp'' ''w'' 1 60000000 None 0 (\<lambda>_. ''id'') sample_relay = (rl', res)
     \<and> ((\<exists>l out. res = Inr (l # out)) \<or> length (rl_dead sample_relay) < length (rl_dead rl'))"
proof -
  obtain rl' res where l: "lease (\<lambda>_ _ _. True) 0 sample_relay_config ''erp'' ''w'' 1 60000000 None 0 (\<lambda>_. ''id'') sample_relay = (rl', res)"
    by force
  have "sample_relay_row \<in> set (rl_queue sample_relay)" by (simp add: sample_relay_def)
  moreover have "lease_available ''erp'' (isoformat 0) sample_relay_row"
    by (simp add: lease_available_def sample_relay_row_def relay_row_of_def destination_connector_def sample_signed_context sample_context_def)
  moreover have "time_valid 0" "time_valid (0 + 60000000)" by (simp_all add: time_valid_def day_us_def)
  moreover have "rq_record_digest ` set (rl_queue sample_relay) \<inter> rd_record_digest ` set (rl_dead sample_relay) = {}"
    by (simp add: sample_relay_def)
  ultimately show ?thesis
    using lease_makes_progress [OF sample_relay_created sample_relay_wf(2) sample_relay_sealed _ _ _ _ _ _ _ _ _ l] l
    by (auto simp: MAX_LEASE_DURATION_def)
qed

end
