(* ===== verification/Schema.thy ===== *)
theory Schema
  imports Transport
begin

text \<open>
  Schemas and mapping plans (\<open>models/types.py\<close>, \<open>models/schema.py\<close>, \<open>models/mapping.py\<close>), the connector
  contract (\<open>connectors/base.py\<close>), the run-time type test (\<open>connectors/inference.py\<close>) and the stages of the
  registered transforms (\<open>transforms.py\<close>). A record is what its constructor stores; the constructor itself
  is a function that validates its arguments.
\<close>

section \<open>Types\<close>

datatype data_type = DT_UNKNOWN | DT_STRING | DT_INTEGER | DT_DECIMAL | DT_BOOLEAN | DT_DATE | DT_DATETIME
  | DT_UUID | DT_BINARY | DT_JSON

fun data_type_value :: "data_type \<Rightarrow> string" where
  "data_type_value DT_UNKNOWN = ''unknown''"
| "data_type_value DT_STRING = ''string''"
| "data_type_value DT_INTEGER = ''integer''"
| "data_type_value DT_DECIMAL = ''decimal''"
| "data_type_value DT_BOOLEAN = ''boolean''"
| "data_type_value DT_DATE = ''date''"
| "data_type_value DT_DATETIME = ''datetime''"
| "data_type_value DT_UUID = ''uuid''"
| "data_type_value DT_BINARY = ''binary''"
| "data_type_value DT_JSON = ''json''"

datatype sensitivity = PUBLIC | INTERNAL | PERSONAL | CONFIDENTIAL | SECRET | OPAQUE

fun sensitivity_value :: "sensitivity \<Rightarrow> string" where
  "sensitivity_value PUBLIC = ''public''"
| "sensitivity_value INTERNAL = ''internal''"
| "sensitivity_value PERSONAL = ''personal''"
| "sensitivity_value CONFIDENTIAL = ''confidential''"
| "sensitivity_value SECRET = ''secret''"
| "sensitivity_value OPAQUE = ''opaque''"

fun sensitivity_rank :: "sensitivity \<Rightarrow> nat" where
  "sensitivity_rank PUBLIC = 0"
| "sensitivity_rank INTERNAL = 1"
| "sensitivity_rank PERSONAL = 2"
| "sensitivity_rank CONFIDENTIAL = 3"
| "sensitivity_rank SECRET = 4"
| "sensitivity_rank OPAQUE = 5"

definition sensitivity_route_safe :: "sensitivity \<Rightarrow> sensitivity \<Rightarrow> bool" where
  "sensitivity_route_safe source target = (sensitivity_rank source \<le> sensitivity_rank target)"

datatype field_role = VALUE | PRIMARY_KEY | FOREIGN_KEY | NATURAL_KEY | CREDENTIAL

fun field_role_value :: "field_role \<Rightarrow> string" where
  "field_role_value VALUE = ''value''"
| "field_role_value PRIMARY_KEY = ''primary_key''"
| "field_role_value FOREIGN_KEY = ''foreign_key''"
| "field_role_value NATURAL_KEY = ''natural_key''"
| "field_role_value CREDENTIAL = ''credential''"

definition runtime_type_satisfies :: "data_type \<Rightarrow> data_type \<Rightarrow> bool" where
  "runtime_type_satisfies actual target =
     (if target = DT_UNKNOWN then True else actual = target \<or> (actual = DT_INTEGER \<and> target = DT_DECIMAL))"

definition automatic_copy_type_safe :: "data_type \<Rightarrow> data_type \<Rightarrow> bool" where
  "automatic_copy_type_safe source target = (source \<noteq> DT_UNKNOWN \<and> runtime_type_satisfies source target)"

text \<open>
  Python values as far as the sources tell them apart. A float is its JSON text, which is one of the three constants
  of \<open>json\<close> when it is not finite; a decimal is its sign, coefficient and exponent; a dict or list is the JSON value
  it was decoded from.
\<close>

datatype py_decimal = Decimal bool nat int | NonFinite

datatype py_value = PNone | PBool bool | PDatetime py_datetime | PDate int | PInt int | PFloat string
  | PDecimal py_decimal | PBytes bytes | PJson json | PUuid string | PStr string | POther

definition non_finite :: "py_value \<Rightarrow> bool" where
  "non_finite v = (case v of PFloat f \<Rightarrow> f \<in> set constants | PDecimal d \<Rightarrow> d = NonFinite | _ \<Rightarrow> False)"

fun runtime_type :: "py_value \<Rightarrow> data_type" where
  "runtime_type (PBool _) = DT_BOOLEAN"
| "runtime_type (PDatetime _) = DT_DATETIME"
| "runtime_type (PDate _) = DT_DATE"
| "runtime_type (PInt _) = DT_INTEGER"
| "runtime_type (PFloat _) = DT_DECIMAL"
| "runtime_type (PDecimal _) = DT_DECIMAL"
| "runtime_type (PBytes _) = DT_BINARY"
| "runtime_type (PJson _) = DT_JSON"
| "runtime_type (PUuid _) = DT_UUID"
| "runtime_type (PStr _) = DT_STRING"
| "runtime_type _ = DT_UNKNOWN"

definition value_satisfies_type :: "py_value \<Rightarrow> data_type \<Rightarrow> bool" where
  "value_satisfies_type v target =
     (if non_finite v then False else runtime_type_satisfies (runtime_type v) target)"

section \<open>Schemas\<close>

definition required_text :: "string \<Rightarrow> string \<Rightarrow> 'a result \<Rightarrow> 'a result" where
  "required_text v label k =
     raise_if (strip v = []) (ValueError (label @ '' must be a non-empty string'')) (
     raise_if (CHR 0x00 \<in> set v) (ValueError (label @ '' must not contain NUL'')) k)"

record field_descriptor =
  fd_id :: string
  fd_name :: string
  fd_data_type :: data_type
  fd_nullable :: bool
  fd_sensitivity :: sensitivity
  fd_role :: field_role
  fd_description :: "string option"
  fd_aliases :: "string list"
  fd_container :: "string option"
  fd_destination_generated :: bool

fun required_texts :: "string \<Rightarrow> string list \<Rightarrow> 'a result \<Rightarrow> 'a result" where
  "required_texts label [] k = k"
| "required_texts label (a # as) k = required_text a label (required_texts label as k)"

definition FieldDescriptor :: "field_descriptor \<Rightarrow> field_descriptor result" where
  "FieldDescriptor f =
     required_text (fd_id f) ''field id'' (
     required_text (fd_name f) ''field name'' (
     raise_if (\<not> distinct (fd_aliases f))
       (ValueError (''field '' @ py_repr (JStr (fd_id f)) @ '' contains duplicate aliases'')) (
     required_texts ''field alias'' (fd_aliases f) (
     raise_if (case fd_description f of None \<Rightarrow> False | Some d \<Rightarrow> CHR 0x00 \<in> set d)
       (ValueError ''field description must not contain NUL'') (
     case fd_container f of None \<Rightarrow> Inr f | Some c \<Rightarrow> required_text c ''field container'' (Inr f))))))"

definition opt_str :: "string option \<Rightarrow> json" where
  "opt_str s = (case s of None \<Rightarrow> JNull | Some t \<Rightarrow> JStr t)"

definition field_canonical_dict :: "field_descriptor \<Rightarrow> json" where
  "field_canonical_dict f = JObj (
     [(''id'', JStr (fd_id f)), (''name'', JStr (fd_name f)), (''data_type'', JStr (data_type_value (fd_data_type f))),
      (''nullable'', JBool (fd_nullable f)), (''sensitivity'', JStr (sensitivity_value (fd_sensitivity f))),
      (''role'', JStr (field_role_value (fd_role f))), (''description'', opt_str (fd_description f)),
      (''aliases'', JArr (map JStr (fd_aliases f))), (''container'', opt_str (fd_container f))]
     @ (if fd_destination_generated f then [(''destination_generated'', JBool True)] else []))"

record lookup_key_descriptor =
  lk_name :: string
  lk_data_type :: data_type

definition lookup_canonical_dict :: "lookup_key_descriptor \<Rightarrow> json" where
  "lookup_canonical_dict k = JObj [(''name'', JStr (lk_name k)), (''data_type'', JStr (data_type_value (lk_data_type k)))]"

record relation_descriptor =
  rl_source_field_id :: string
  rl_target_container :: string
  rl_target_field :: string
  rl_name :: "string option"
  rl_target_schema :: "string option"
  rl_lookup_keys :: "lookup_key_descriptor list"

text \<open>
  The lookup keys are values of their own class, checked when they were made; a bare string in their place, which the
  source turns into a key of unknown type, is outside the type here and read by \<open>lookup_key_from\<close>.
\<close>

definition RelationDescriptor :: "relation_descriptor \<Rightarrow> relation_descriptor result" where
  "RelationDescriptor r =
     required_text (rl_source_field_id r) ''relation source field id'' (
     required_text (rl_target_container r) ''relation target container'' (
     required_text (rl_target_field r) ''relation target field'' (
     raise_if (\<not> distinct (map lk_name (rl_lookup_keys r))) (ValueError ''relation contains duplicate lookup keys'') (Inr r))))"

definition lookup_key :: "string \<Rightarrow> relation_descriptor \<Rightarrow> lookup_key_descriptor option" where
  "lookup_key name r = find (\<lambda>k. lk_name k = name) (rl_lookup_keys r)"

definition relation_canonical_dict :: "relation_descriptor \<Rightarrow> json" where
  "relation_canonical_dict r = JObj
     [(''source_field_id'', JStr (rl_source_field_id r)), (''target_container'', JStr (rl_target_container r)),
      (''target_field'', JStr (rl_target_field r)), (''name'', opt_str (rl_name r)),
      (''target_schema'', opt_str (rl_target_schema r)), (''lookup_keys'', JArr (map lookup_canonical_dict (rl_lookup_keys r)))]"

record schema_descriptor =
  sd_id :: string
  sd_fields :: "field_descriptor list"
  sd_relations :: "relation_descriptor list"
  sd_metadata :: "(string \<times> string) list"

fun check_relations :: "string list \<Rightarrow> string list \<Rightarrow> relation_descriptor list \<Rightarrow> unit result" where
  "check_relations ids seen [] = Inr ()"
| "check_relations ids seen (r # rs) =
     raise_if (rl_source_field_id r \<notin> set ids) (ValueError ''relation references an unknown source field'') (
     raise_if (rl_source_field_id r \<in> set seen) (ValueError ''schema contains multiple relations for one source field'') (
     check_relations ids (rl_source_field_id r # seen) rs))"

definition SchemaDescriptor :: "schema_descriptor \<Rightarrow> schema_descriptor result" where
  "SchemaDescriptor s =
     required_text (sd_id s) ''schema id'' (
     raise_if (\<not> distinct (map fd_id (sd_fields s))) (ValueError ''schema contains duplicate field ids'') (
     bindE (check_relations (map fd_id (sd_fields s)) [] (sd_relations s)) (\<lambda>_. Inr s)))"

definition by_id :: "schema_descriptor \<Rightarrow> string \<Rightarrow> field_descriptor option" where
  "by_id s i = map_of (rev (map (\<lambda>f. (fd_id f, f)) (sd_fields s))) i"

definition relation_for_source_field :: "string \<Rightarrow> schema_descriptor \<Rightarrow> relation_descriptor option" where
  "relation_for_source_field i s = find (\<lambda>r. rl_source_field_id r = i) (sd_relations s)"

definition schema_canonical_dict :: "bool \<Rightarrow> schema_descriptor \<Rightarrow> json" where
  "schema_canonical_dict structural s = JObj (
     [(''fields'', JArr (map field_canonical_dict (sd_fields s))),
      (''relations'', JArr (map relation_canonical_dict (sd_relations s)))]
     @ (if structural then []
        else [(''id'', JStr (sd_id s)), (''metadata'', JObj (map (\<lambda>(k, v). (k, JStr v)) (sd_metadata s)))]))"

definition schema_digest :: "bool \<Rightarrow> schema_descriptor \<Rightarrow> string" where
  "schema_digest structural s = sha256_hex (json_encode (schema_canonical_dict structural s))"

definition fingerprint :: "schema_descriptor \<Rightarrow> string" where
  "fingerprint s = schema_digest False s"

definition structural_fingerprint :: "schema_descriptor \<Rightarrow> string" where
  "structural_fingerprint s = schema_digest True s"

section \<open>Mapping plans\<close>

record mapping_rule =
  mr_source_field_id :: string
  mr_target_field_id :: string
  mr_transform :: string
  mr_parameters :: "(string \<times> string) list"

definition rule_text :: "string \<Rightarrow> string \<Rightarrow> 'a result \<Rightarrow> 'a result" where
  "rule_text v label k = raise_if (strip v = [] \<or> CHR 0x00 \<in> set v)
     (ValueError (label @ '' must be a non-empty string without NUL'')) k"

definition MappingRule :: "mapping_rule \<Rightarrow> mapping_rule result" where
  "MappingRule r =
     rule_text (mr_source_field_id r) ''source field id'' (
     rule_text (mr_target_field_id r) ''target field id'' (
     rule_text (mr_transform r) ''transform'' (Inr r)))"

definition rule_canonical_dict :: "mapping_rule \<Rightarrow> json" where
  "rule_canonical_dict r = JObj
     [(''source_field_id'', JStr (mr_source_field_id r)), (''target_field_id'', JStr (mr_target_field_id r)),
      (''transform'', JStr (mr_transform r)), (''parameters'', JObj (map (\<lambda>(k, v). (k, JStr v)) (sort_key fst (mr_parameters r))))]"

text \<open>\<open>mp_created_at\<close> is the stored time, which the constructor has moved to UTC.\<close>

record mapping_plan =
  mp_id :: string
  mp_source_schema_id :: string
  mp_target_schema_id :: string
  mp_source_fingerprint :: string
  mp_target_fingerprint :: string
  mp_rules :: "mapping_rule list"
  mp_version :: int
  mp_created_at :: int

definition MappingPlan :: "mapping_plan \<Rightarrow> py_datetime \<Rightarrow> mapping_plan result" where
  "MappingPlan p created_at =
     raise_if (mp_id p = [] \<or> mp_source_schema_id p = [] \<or> mp_target_schema_id p = [])
       (ValueError ''plan and schema ids must be non-empty'') (
     raise_if (mp_version p < 1) (ValueError ''plan version must be at least 1'') (
     case created_at of
       Naive _ \<Rightarrow> Inl (ValueError ''plan created_at must be timezone-aware'')
     | Aware t off \<Rightarrow> bindE (astimezone_utc t off) (\<lambda>u. Inr (p\<lparr>mp_created_at := u\<rparr>))))"

definition plan_canonical_dict :: "mapping_plan \<Rightarrow> json" where
  "plan_canonical_dict p = JObj
     [(''id'', JStr (mp_id p)), (''source_schema_id'', JStr (mp_source_schema_id p)),
      (''target_schema_id'', JStr (mp_target_schema_id p)), (''source_fingerprint'', JStr (mp_source_fingerprint p)),
      (''target_fingerprint'', JStr (mp_target_fingerprint p)), (''rules'', JArr (map rule_canonical_dict (mp_rules p))),
      (''version'', JInt (mp_version p)), (''created_at'', JStr (isoformat (mp_created_at p)))]"

definition mapping_plan_digest :: "mapping_plan \<Rightarrow> string" where
  "mapping_plan_digest p = sha256_hex (json_encode (plan_canonical_dict p))"

section \<open>Transforms\<close>

datatype transform_stage = SOURCE | DESTINATION | TRANSPORT

definition TRANSFORM_SPECS :: "(string \<times> transform_stage) list" where
  "TRANSFORM_SPECS = [(''copy'', SOURCE), (''trim'', SOURCE), (''parse_integer'', SOURCE), (''parse_decimal'', SOURCE),
     (''parse_datetime'', SOURCE), (''opaque_forward'', TRANSPORT), (''lookup_foreign_key'', DESTINATION)]"

definition transform_stage_of :: "string \<Rightarrow> transform_stage result" where
  "transform_stage_of name = (case map_of TRANSFORM_SPECS name of
     None \<Rightarrow> Inl (PolymorphError (''unknown transform: '' @ name)) | Some s \<Rightarrow> Inr s)"

section \<open>The connector contract\<close>

record atomic_batch_capabilities =
  ab_max_records :: int
  ab_max_wire_bytes :: int
  ab_per_item_idempotency :: bool

definition AtomicBatchCapabilities :: "atomic_batch_capabilities \<Rightarrow> atomic_batch_capabilities result" where
  "AtomicBatchCapabilities c =
     raise_if (ab_max_records c \<le> 0) (ValueError ''atomic batch max_records must be a positive integer'') (
     raise_if (ab_max_wire_bytes c \<le> 0) (ValueError ''atomic batch max_wire_bytes must be a positive integer'') (Inr c))"

record connector_capabilities =
  cc_read_schema :: bool
  cc_read_records :: bool
  cc_write_records :: bool
  cc_transactional_write :: bool
  cc_supports_idempotency :: bool
  cc_idempotency_contract_id :: "string option"
  cc_atomic_batch_write :: "atomic_batch_capabilities option"

definition ConnectorCapabilities :: "connector_capabilities \<Rightarrow> connector_capabilities result" where
  "ConnectorCapabilities c =
     (if cc_supports_idempotency c then
        raise_if (case cc_idempotency_contract_id c of None \<Rightarrow> True
            | Some i \<Rightarrow> i = [] \<or> 128 < length i \<or> \<not> isprintable i \<or> i \<noteq> strip i)
          (ValueError ''idempotent connectors require a bounded printable idempotency contract id'') (Inr c)
      else raise_if (cc_idempotency_contract_id c \<noteq> None)
          (ValueError ''idempotency contract id requires the connector to support idempotency'') (Inr c))"

record delivery_context =
  dc_transfer_id :: string
  dc_record_id :: string
  dc_record_digest :: string
  dc_idempotency_key :: string

record batch_write_item =
  bw_values :: "(string \<times> py_value) list"
  bw_context :: delivery_context
  bw_wire_bytes :: int

end
