(* ===== verification/Effects.thy ===== *)
theory Effects
  imports Schema Ledger Spool
begin

text \<open>
  The world a destination runtime acts on and the effects it may have there. The world holds the two durable
  stores, the log of what the destination connector was asked to write, and a tape: every effect consumes one
  cell of it, which fixes the clock, the random tokens, what the connector answers and whether the operation
  fails. Theorems quantify over all tapes, so they hold for every behaviour of clock, connector and disk.

  An action returns a value or raises, and threads the world through both. \<open>Killed\<close> is the end of the process
  (or an exception outside \<open>Exception\<close>), which no handler of the source catches.
\<close>

section \<open>Receipts\<close>

datatype delivery_status = DELIVERED | DUPLICATE | QUARANTINED_STATUS | AMBIGUOUS_STATUS

fun status_value :: "delivery_status \<Rightarrow> string" where
  "status_value DELIVERED = ''delivered''"
| "status_value DUPLICATE = ''duplicate''"
| "status_value QUARANTINED_STATUS = ''quarantined''"
| "status_value AMBIGUOUS_STATUS = ''ambiguous''"

datatype audit_write_status = AUDIT_DISABLED | AUDIT_RECORDED | AUDIT_APPEND_FAILED

datatype event_write_status = EVENT_DISABLED | EVENT_RECORDED | EVENT_APPEND_FAILED

record delivery_receipt =
  rc_status :: delivery_status
  rc_tenant :: string
  rc_destination_connector :: string
  rc_transfer_id :: string
  rc_record_id :: string
  rc_record_digest :: string
  rc_plan_digest :: string
  rc_completed_at :: string
  rc_reason_code :: "string option"
  rc_retry_safe :: bool
  rc_audit_recorded :: bool
  rc_audit_status :: audit_write_status
  rc_event_recorded :: bool
  rc_event_status :: event_write_status
  rc_run_id :: "string option"
  rc_correlation_id :: "string option"
  rc_batch_attempt_id :: "string option"

datatype exn = Exn err | DeliveryBatchInterrupted "delivery_receipt list" | Killed

text \<open>\<open>except Exception\<close> and \<open>except IntegrityError\<close>\<close>

definition is_exception :: "exn \<Rightarrow> bool" where
  "is_exception e = (e \<noteq> Killed)"

definition is_integrity :: "exn \<Rightarrow> bool" where
  "is_integrity e = (case e of Exn (IntegrityError _) \<Rightarrow> True | _ \<Rightarrow> False)"

section \<open>The connector's side\<close>

datatype write_outcome = NOT_COMMITTED | UNKNOWN | PARTIAL

text \<open>
  What a call of the connector's writer does: return (\<open>None\<close> when the value is no \<open>int\<close>), raise a
  \<open>ConnectorWriteError\<close>, raise something else, or take the process down.
\<close>

datatype write_response = Acknowledged "int option" | WriteError write_outcome | WriteRaises | WriteKills

text \<open>Only \<open>NOT_COMMITTED\<close> is a proof that nothing was written.\<close>

definition may_have_committed :: "write_response \<Rightarrow> bool" where
  "may_have_committed r = (r \<noteq> WriteError NOT_COMMITTED)"

text \<open>One call of \<open>write_records\<close> or \<open>write_batch\<close>, with the idempotency contract it was issued under.\<close>

record write_event =
  we_records :: "transport_record list"
  we_items :: "batch_write_item list"
  we_contract :: "string option"
  we_response :: write_response

section \<open>World and tape\<close>

text \<open>
  A transaction of a store runs, fails with an exception of SQLite, or is cut off with the process; in the
  last two cases the flag tells whether it had been committed.
\<close>

datatype fault = NoFault | Fails bool | Dies bool

datatype sink_outcome = Accepted | Refused | SinkKills

record event =
  ev_now :: int
  ev_clock :: py_datetime
  ev_fault :: fault
  ev_token :: "nat \<Rightarrow> string"
  ev_attempt :: string
  ev_capabilities :: "connector_capabilities result"
  ev_response :: write_response
  ev_resolved :: "py_value option result"
  ev_sink :: sink_outcome

record world =
  w_ledger :: ledger
  w_spool :: spool
  w_writes :: "write_event list"
  w_tape :: "nat \<Rightarrow> event"
  w_pos :: nat

type_synonym 'a act = "world \<Rightarrow> (exn + 'a) \<times> world"

definition ret :: "'a \<Rightarrow> 'a act" where
  "ret x w = (Inr x, w)"

definition throw :: "exn \<Rightarrow> 'a act" where
  "throw e w = (Inl e, w)"

definition bindA :: "'a act \<Rightarrow> ('a \<Rightarrow> 'b act) \<Rightarrow> 'b act" where
  "bindA m f w = (case m w of (Inl e, w') \<Rightarrow> (Inl e, w') | (Inr x, w') \<Rightarrow> f x w')"

text \<open>\<open>tryA m ok h\<close> is \<open>try: m ... except: h ... else: ok\<close>.\<close>

definition tryA :: "'a act \<Rightarrow> ('a \<Rightarrow> 'b act) \<Rightarrow> (exn \<Rightarrow> 'b act) \<Rightarrow> 'b act" where
  "tryA m ok h w = (case m w of (Inl e, w') \<Rightarrow> h e w' | (Inr x, w') \<Rightarrow> ok x w')"

text \<open>\<open>except C: h\<close> for a class of exceptions; others pass.\<close>

definition on :: "(exn \<Rightarrow> bool) \<Rightarrow> 'a act \<Rightarrow> exn \<Rightarrow> 'a act" where
  "on C h e = (if C e then h else throw e)"

definition tick :: "event act" where
  "tick w = (Inr (w_tape w (w_pos w)), w\<lparr>w_pos := Suc (w_pos w)\<rparr>)"

definition lift_result :: "'a result \<Rightarrow> 'a act" where
  "lift_result r = (case r of Inl e \<Rightarrow> throw (Exn e) | Inr x \<Rightarrow> ret x)"

definition raise_unless :: "bool \<Rightarrow> err \<Rightarrow> 'a act \<Rightarrow> 'a act" where
  "raise_unless c e m = (if c then m else throw (Exn e))"

text \<open>Run an action and keep its exception as a value, for loops that remember what they had completed.\<close>

definition attemptA :: "'a act \<Rightarrow> (exn + 'a) act" where
  "attemptA m w = (case m w of (r, w') \<Rightarrow> (Inr r, w'))"

fun mapA :: "('a \<Rightarrow> 'b act) \<Rightarrow> 'a list \<Rightarrow> 'b list act" where
  "mapA f [] = ret []"
| "mapA f (x # xs) = bindA (f x) (\<lambda>y. bindA (mapA f xs) (\<lambda>ys. ret (y # ys)))"

definition transact :: "(world \<Rightarrow> 's) \<Rightarrow> ('s \<Rightarrow> world \<Rightarrow> world) \<Rightarrow> (event \<Rightarrow> 's \<Rightarrow> ('s \<times> 'a) result) \<Rightarrow> 'a act" where
  "transact get put f w =
     (let ev = w_tape w (w_pos w); w1 = w\<lparr>w_pos := Suc (w_pos w)\<rparr>;
          applied = (\<lambda>done. case f ev (get w) of Inr (s, _) \<Rightarrow> (if done then put s w1 else w1) | Inl _ \<Rightarrow> w1)
      in case ev_fault ev of
           NoFault \<Rightarrow> (case f ev (get w) of Inl e \<Rightarrow> (Inl (Exn e), w1) | Inr (s, x) \<Rightarrow> (Inr x, put s w1))
         | Fails done \<Rightarrow> (Inl (Exn SqliteError), applied done)
         | Dies done \<Rightarrow> (Inl Killed, applied done))"

definition on_ledger :: "(event \<Rightarrow> ledger \<Rightarrow> (ledger \<times> 'a) result) \<Rightarrow> 'a act" where
  "on_ledger f = transact w_ledger (\<lambda>db w. w\<lparr>w_ledger := db\<rparr>) f"

definition on_spool :: "(event \<Rightarrow> spool \<Rightarrow> (spool \<times> 'a) result) \<Rightarrow> 'a act" where
  "on_spool f = transact w_spool (\<lambda>sp w. w\<lparr>w_spool := sp\<rparr>) f"

text \<open>A statement with no result, and one that only reads.\<close>

definition no_result :: "'s result \<Rightarrow> ('s \<times> unit) result" where
  "no_result r = bindE r (\<lambda>s. Inr (s, ()))"

definition reads :: "('s \<Rightarrow> 'a result) \<Rightarrow> event \<Rightarrow> 's \<Rightarrow> ('s \<times> 'a) result" where
  "reads f ev s = bindE (f s) (\<lambda>x. Inr (s, x))"

text \<open>A call of the connector's writer. It is logged before its outcome is seen.\<close>

definition write_call :: "transport_record list \<Rightarrow> batch_write_item list \<Rightarrow> string option \<Rightarrow> write_response act" where
  "write_call rs items contract w =
     (let response = ev_response (w_tape w (w_pos w))
      in (if response = WriteKills then Inl Killed else Inr response,
          w\<lparr>w_pos := Suc (w_pos w),
            w_writes := w_writes w @ [\<lparr>we_records = rs, we_items = items, we_contract = contract, we_response = response\<rparr>]\<rparr>))"

definition read_capabilities :: "connector_capabilities act" where
  "read_capabilities = bindA tick (\<lambda>ev. lift_result (ev_capabilities ev))"

section \<open>A Hoare logic for actions\<close>

text \<open>
  \<open>triple P m Q E\<close>: started in a world with \<open>P\<close>, the action ends with \<open>Q\<close> of its value or with \<open>E\<close> of its exception.
\<close>

definition triple :: "(world \<Rightarrow> bool) \<Rightarrow> 'a act \<Rightarrow> ('a \<Rightarrow> world \<Rightarrow> bool) \<Rightarrow> (exn \<Rightarrow> world \<Rightarrow> bool) \<Rightarrow> bool" where
  "triple P m Q E = (\<forall>w. P w \<longrightarrow> (case m w of (Inr x, w') \<Rightarrow> Q x w' | (Inl e, w') \<Rightarrow> E e w'))"

lemma tripleI: "(\<And>w. P w \<Longrightarrow> case m w of (Inr x, w') \<Rightarrow> Q x w' | (Inl e, w') \<Rightarrow> E e w') \<Longrightarrow> triple P m Q E"
  by (simp add: triple_def)

lemma tripleD: "triple P m Q E \<Longrightarrow> P w \<Longrightarrow> m w = (Inr x, w') \<Longrightarrow> Q x w'"
  by (fastforce simp: triple_def)

lemma tripleD_exn: "triple P m Q E \<Longrightarrow> P w \<Longrightarrow> m w = (Inl e, w') \<Longrightarrow> E e w'"
  by (fastforce simp: triple_def)

lemma triple_pre: "triple P' m Q E \<Longrightarrow> (\<And>w. P w \<Longrightarrow> P' w) \<Longrightarrow> triple P m Q E"
  by (simp add: triple_def)

lemma triple_post:
  assumes "triple P m Q' E'" "\<And>x w. Q' x w \<Longrightarrow> Q x w" "\<And>e w. E' e w \<Longrightarrow> E e w"
  shows "triple P m Q E"
  unfolding triple_def
proof (intro allI impI)
  fix w assume "P w"
  then show "case m w of (Inl e, w') \<Rightarrow> E e w' | (Inr x, w') \<Rightarrow> Q x w'"
    using assms by (cases "m w"; cases "fst (m w)") (auto simp: triple_def split: sum.splits dest: spec [of _ w])
qed

lemma triple_ret: "(\<And>w. P w \<Longrightarrow> Q x w) \<Longrightarrow> triple P (ret x) Q E"
  by (simp add: triple_def ret_def)

lemma triple_throw: "(\<And>w. P w \<Longrightarrow> E e w) \<Longrightarrow> triple P (throw e) Q E"
  by (simp add: triple_def throw_def)

lemma triple_bind:
  assumes "triple P m R E" "\<And>x. triple (R x) (f x) Q E"
  shows "triple P (bindA m f) Q E"
proof (rule tripleI)
  fix w assume "P w"
  then show "case bindA m f w of (Inl e, w') \<Rightarrow> E e w' | (Inr x, w') \<Rightarrow> Q x w'"
    using assms unfolding triple_def bindA_def by (fastforce split: prod.splits sum.splits)
qed

lemma triple_try:
  assumes "triple P m R S" "\<And>x. triple (R x) (f x) Q E" "\<And>e. triple (S e) (h e) Q E"
  shows "triple P (tryA m f h) Q E"
proof (rule tripleI)
  fix w assume "P w"
  then show "case tryA m f h w of (Inl e, w') \<Rightarrow> E e w' | (Inr x, w') \<Rightarrow> Q x w'"
    using assms unfolding triple_def tryA_def by (fastforce split: prod.splits sum.splits)
qed

lemma triple_attempt:
  assumes "triple P m (\<lambda>x. Q (Inr x)) (\<lambda>e. Q (Inl e))"
  shows "triple P (attemptA m) Q E"
proof (rule tripleI)
  fix w assume "P w"
  then show "case attemptA m w of (Inl e, w') \<Rightarrow> E e w' | (Inr x, w') \<Rightarrow> Q x w'"
    using assms unfolding triple_def attemptA_def by (fastforce split: prod.splits sum.splits)
qed

lemma triple_on:
  assumes "C e \<Longrightarrow> triple P h Q E" "\<And>w. \<not> C e \<Longrightarrow> P w \<Longrightarrow> E e w"
  shows "triple P (on C h e) Q E"
  using assms by (auto simp: on_def intro: triple_throw)

lemma triple_if: "(c \<Longrightarrow> triple P m Q E) \<Longrightarrow> (\<not> c \<Longrightarrow> triple P m' Q E) \<Longrightarrow> triple P (if c then m else m') Q E"
  by simp

lemma triple_raise_unless:
  "(c \<Longrightarrow> triple P m Q E) \<Longrightarrow> (\<And>w. \<not> c \<Longrightarrow> P w \<Longrightarrow> E (Exn e) w) \<Longrightarrow> triple P (raise_unless c e m) Q E"
  by (auto simp: raise_unless_def intro: triple_throw)

lemma triple_lift:
  "(\<And>x w. r = Inr x \<Longrightarrow> P w \<Longrightarrow> Q x w) \<Longrightarrow> (\<And>e w. r = Inl e \<Longrightarrow> P w \<Longrightarrow> E (Exn e) w) \<Longrightarrow> triple P (lift_result r) Q E"
  by (cases r) (auto simp: lift_result_def intro: triple_ret triple_throw)

lemma triple_map:
  assumes "\<And>x. x \<in> set xs \<Longrightarrow> triple I (f x) (\<lambda>_. I) E"
  shows "triple I (mapA f xs) (\<lambda>_. I) E"
  using assms by (induction xs) (auto intro!: triple_ret triple_bind)

lemma triple_map_all:
  assumes "\<And>x. x \<in> set xs \<Longrightarrow> triple I (f x) (\<lambda>y w. I w \<and> R x y) E"
  shows "triple I (mapA f xs) (\<lambda>ys w. I w \<and> list_all2 R xs ys) E"
  using assms
proof (induction xs)
  case (Cons x xs)
  have step: "triple I (f x) (\<lambda>y w. I w \<and> R x y) E" using Cons.prems by simp
  have rest: "triple I (mapA f xs) (\<lambda>ys w. I w \<and> list_all2 R xs ys) E" using Cons by simp
  show ?case
    unfolding mapA.simps
  proof (rule triple_bind [OF step])
    fix y
    show "triple (\<lambda>w. I w \<and> R x y) (bindA (mapA f xs) (\<lambda>ys. ret (y # ys)))
        (\<lambda>ys w. I w \<and> list_all2 R (x # xs) ys) E"
    proof (cases "R x y")
      case True
      then show ?thesis
        by (intro triple_bind [OF triple_pre [OF rest]] triple_ret) auto
    qed (simp add: triple_def)
  qed
qed (simp add: triple_ret)

end
