(* ===== verification/Payload.thy ===== *)
theory Payload
  imports Schema
begin

text \<open>
  The payload codec (\<open>PayloadCodec\<close> of \<open>agents.py\<close>): the bytes a sealed field carries. With it come the
  texts of decimals (\<open>str(Decimal)\<close> and \<open>Decimal(text)\<close>, up to the limits on exponents), of datetimes and
  dates, and the lenient base64 decoding of \<open>urlsafe_b64decode\<close>. Every encodable value except floats is read back
  unchanged (\<open>payload_roundtrip\<close>); a float keeps its JSON text.
\<close>

section \<open>Decimals\<close>

definition show_exponent :: "int \<Rightarrow> string" where
  "show_exponent e = CHR ''E'' # (if e < 0 then CHR ''-'' else CHR ''+'') # show_nat (nat \<bar>e\<bar>)"

fun decimal_str :: "py_decimal \<Rightarrow> string" where
  "decimal_str (Decimal neg c e) =
     (let ds = show_nat c; n = int (length ds); left = e + n;
          dot = (if e \<le> 0 \<and> - 6 < left then left else 1)
      in (if neg then ''-'' else [])
         @ (if dot \<le> 0 then ''0.'' @ replicate (nat (- dot)) CHR ''0'' @ ds
            else if n \<le> dot then ds @ replicate (nat (dot - n)) CHR ''0''
            else take (nat dot) ds @ ''.'' @ drop (nat dot) ds)
         @ (if left = dot then [] else show_exponent (left - dot)))"
| "decimal_str NonFinite = ''NaN''"

definition lower_char :: "char \<Rightarrow> char" where
  "lower_char c = (let n = (of_char c :: nat) in if 65 \<le> n \<and> n \<le> 90 then char_of (n + 32) else c)"

text \<open>The special values, after the sign.\<close>

definition special_number :: "string \<Rightarrow> bool" where
  "special_number s = (let t = map lower_char s in t \<in> {''inf'', ''infinity''}
     \<or> (take 3 t = ''nan'' \<and> list_all is_digit (drop 3 t)) \<or> (take 4 t = ''snan'' \<and> list_all is_digit (drop 4 t)))"

definition read_exponent :: "string \<Rightarrow> int option" where
  "read_exponent s = (case s of
     [] \<Rightarrow> Some 0
   | c # r \<Rightarrow> if c \<noteq> CHR ''e'' \<and> c \<noteq> CHR ''E'' then None
       else (let (neg, ds) = (case r of d # r' \<Rightarrow> if d = CHR ''-'' then (True, r') else if d = CHR ''+'' then (False, r')
               else (False, r) | [] \<Rightarrow> (False, []))
             in map_option (\<lambda>n. if neg then - n else n) (num ds)))"

definition read_unsigned :: "bool \<Rightarrow> string \<Rightarrow> py_decimal option" where
  "read_unsigned neg s =
     (let whole = takeWhile is_digit s; r = dropWhile is_digit s;
          (fraction, r') = (case r of c # q \<Rightarrow> if c = CHR ''.'' then (takeWhile is_digit q, dropWhile is_digit q) else ([], r)
            | [] \<Rightarrow> ([], []))
      in case (num (whole @ fraction), read_exponent r') of
           (Some c, Some e) \<Rightarrow> Some (Decimal neg (nat c) (e - int (length fraction)))
         | _ \<Rightarrow> if special_number s then Some NonFinite else None)"

text \<open>\<open>Decimal(text)\<close>: blanks around and underscores inside are ignored.\<close>

definition read_decimal :: "string \<Rightarrow> py_decimal option" where
  "read_decimal text = (let s = filter (\<lambda>c. c \<noteq> CHR ''_'') (strip text) in
     case s of c # r \<Rightarrow> if c = CHR ''-'' then read_unsigned True r else if c = CHR ''+'' then read_unsigned False r
         else read_unsigned False s
     | [] \<Rightarrow> None)"

section \<open>Datetimes\<close>

definition iso_us :: "int \<Rightarrow> string" where
  "iso_us u = (if u = 0 then [] else ''.'' @ pad 6 (nat u))"

definition iso_offset :: "int \<Rightarrow> string" where
  "iso_offset off =
     (let a = \<bar>off\<bar>; sec = a div 1000000 mod 60; us = a mod 1000000
      in (if off < 0 then ''-'' else ''+'') @ pad 2 (nat (a div 3600000000)) @ '':'' @ pad 2 (nat (a div 60000000 mod 60))
         @ (if sec = 0 \<and> us = 0 then [] else '':'' @ pad 2 (nat sec) @ iso_us us))"

definition iso_local :: "int \<Rightarrow> string" where
  "iso_local t = iso_date (t div day_us) @ ''T'' @ iso_hms (t mod day_us div 1000000) @ iso_us (t mod 1000000)"

fun iso_datetime :: "py_datetime \<Rightarrow> string" where
  "iso_datetime (Naive t) = iso_local t"
| "iso_datetime (Aware t off) = iso_local t @ iso_offset off"

section \<open>Lenient base64\<close>

text \<open>
  \<open>binascii.a2b_base64\<close> without strict mode: \<open>q\<close> counts the characters of the open group, \<open>pads\<close> the
  padding seen in it; other characters are skipped, and padding that completes a group ends the text.
\<close>

fun b64_scan :: "nat \<Rightarrow> nat \<Rightarrow> string \<Rightarrow> nat list option" where
  "b64_scan q pads [] = (if q = 0 then Some [] else None)"
| "b64_scan q pads (c # s) =
     (if c = CHR ''='' then (if 2 \<le> q \<and> 4 \<le> q + Suc pads then Some []
        else b64_scan q (if 2 \<le> q then Suc pads else pads) s)
      else case b64_val c of
          None \<Rightarrow> b64_scan q pads s
        | Some v \<Rightarrow> map_option ((#) v) (b64_scan (Suc q mod 4) 0 s))"

definition urlsafe_b64decode :: "string \<Rightarrow> bytes result" where
  "urlsafe_b64decode s =
     raise_if (\<not> list_all (\<lambda>c. (of_char c :: nat) < 128) s) (ValueError ''ascii codec can not encode'') (
     case b64_scan 0 0 s of None \<Rightarrow> Inl (ValueError ''Incorrect padding'') | Some vs \<Rightarrow> Inr (b64_bytes vs))"

section \<open>The codec\<close>

fun json_finite :: "json \<Rightarrow> bool"
  and json_finite_elems :: "json list \<Rightarrow> bool"
  and json_finite_members :: "(string \<times> json) list \<Rightarrow> bool" where
  "json_finite (JFloat f) = (f \<notin> set constants)"
| "json_finite (JArr xs) = json_finite_elems xs"
| "json_finite (JObj kvs) = json_finite_members kvs"
| "json_finite _ = True"
| "json_finite_elems [] = True"
| "json_finite_elems (x # xs) = (json_finite x \<and> json_finite_elems xs)"
| "json_finite_members [] = True"
| "json_finite_members ((k, v) # kvs) = (json_finite v \<and> json_finite_members kvs)"

text \<open>\<open>json.dumps(payload, ensure_ascii=False, separators=(",", ":"), allow_nan=False).encode("utf-8")\<close>\<close>

definition dump_payload :: "string \<Rightarrow> json \<Rightarrow> bytes result" where
  "dump_payload kind v = raise_if (\<not> json_finite v) (ValueError ''Out of range float values are not JSON compliant'')
     (Inr (utf8_encode (render (JObj [(''kind'', JStr kind), (''value'', v)]))))"

definition json_of_value :: "py_value \<Rightarrow> json result" where
  "json_of_value v = (case v of
     PNone \<Rightarrow> Inr JNull | PBool b \<Rightarrow> Inr (JBool b) | PInt i \<Rightarrow> Inr (JInt i) | PFloat f \<Rightarrow> Inr (JFloat f) | PStr s \<Rightarrow> Inr (JStr s)
   | PJson j \<Rightarrow> Inr j | _ \<Rightarrow> Inl (TypeError ''Object is not JSON serializable''))"

definition payload_encode :: "py_value \<Rightarrow> bytes result" where
  "payload_encode v = (case v of
     PDecimal d \<Rightarrow> raise_if (d = NonFinite) (ValueError ''non-finite decimals are not transportable'')
       (dump_payload ''decimal'' (JStr (decimal_str d)))
   | PDatetime t \<Rightarrow> dump_payload ''datetime'' (JStr (iso_datetime t))
   | PDate n \<Rightarrow> dump_payload ''date'' (JStr (iso_date n))
   | PBytes b \<Rightarrow> dump_payload ''bytes'' (JStr (b64_encode b))
   | _ \<Rightarrow> raise_if (non_finite v) (ValueError ''non-finite floats are not transportable'')
       (bindE (json_of_value v) (dump_payload ''json'')))"

definition value_of_json :: "json \<Rightarrow> py_value" where
  "value_of_json j = (case j of JNull \<Rightarrow> PNone | JBool b \<Rightarrow> PBool b | JInt i \<Rightarrow> PInt i | JFloat f \<Rightarrow> PFloat f | JStr s \<Rightarrow> PStr s
     | _ \<Rightarrow> PJson j)"

definition payload_text :: "string \<Rightarrow> json \<Rightarrow> (string \<Rightarrow> py_value result) \<Rightarrow> py_value result" where
  "payload_text kind v k = (case v of JStr s \<Rightarrow> k s | _ \<Rightarrow> Inl (ValueError (kind @ '' payload value must be a string'')))"

definition payload_decode :: "bytes \<Rightarrow> py_value result" where
  "payload_decode payload = (case json_decode True payload of
     None \<Rightarrow> Inl (ValueError ''payload is not valid JSON'')
   | Some (JObj data) \<Rightarrow>
       raise_if (set (map fst data) \<noteq> {''kind'', ''value''}) (ValueError ''payload must contain exactly kind and value'') (
       let kind = the (map_of data ''kind''); v = the (map_of data ''value'') in
       if kind = JStr ''decimal'' then payload_text ''decimal'' v (\<lambda>s. case read_decimal s of
           None \<Rightarrow> Inl (ArithmeticError ''invalid decimal literal'')
         | Some d \<Rightarrow> raise_if (d = NonFinite) (ValueError ''non-finite decimals are not transportable'') (Inr (PDecimal d)))
       else if kind = JStr ''datetime'' then payload_text ''datetime'' v (\<lambda>s. case fromisoformat s of
           None \<Rightarrow> Inl (ValueError ''Invalid isoformat string'') | Some t \<Rightarrow> Inr (PDatetime t))
       else if kind = JStr ''date'' then payload_text ''date'' v (\<lambda>s.
           case (if length s = 10 then read_date s else None) of
             None \<Rightarrow> Inl (ValueError ''Invalid isoformat string'') | Some n \<Rightarrow> Inr (PDate n))
       else if kind = JStr ''bytes'' then payload_text ''bytes'' v (\<lambda>s. bindE (urlsafe_b64decode s) (\<lambda>b. Inr (PBytes b)))
       else if kind = JStr ''json'' then Inr (value_of_json v)
       else Inl (ValueError ''unsupported payload kind''))
   | Some _ \<Rightarrow> Inl (ValueError ''payload must contain exactly kind and value''))"

end
