(* ===== verification/Envelopes.thy ===== *)
theory Envelopes
  imports Signing Payload
begin

text \<open>
  Recipient keys (\<open>recipient_key_id\<close> of \<open>recipient_auth.py\<close>) and the sealing and opening of one field
  (\<open>crypto.py\<close>). The primitives of the package \<open>cryptography\<close> are arguments, collected in \<open>primitives\<close>:
  \<open>x25519_exchange\<close> and \<open>chacha_open\<close> are \<open>None\<close> where the library raises.
\<close>

record primitives =
  ed25519_ok :: "bytes \<Rightarrow> bytes \<Rightarrow> bytes \<Rightarrow> bool"
  x25519_public :: "bytes \<Rightarrow> bytes"
  x25519_exchange :: "bytes \<Rightarrow> bytes \<Rightarrow> bytes option"
  hkdf_sha256 :: "bytes \<Rightarrow> bytes \<Rightarrow> bytes"
  chacha_open :: "bytes \<Rightarrow> bytes \<Rightarrow> bytes \<Rightarrow> bytes \<Rightarrow> bytes option"
  chacha_seal :: "bytes \<Rightarrow> bytes \<Rightarrow> bytes \<Rightarrow> bytes \<Rightarrow> bytes"

section \<open>Recipient keys\<close>

definition validate_recipient_public_key :: "primitives \<Rightarrow> bytes \<Rightarrow> unit result" where
  "validate_recipient_public_key pr raw =
     raise_if (length raw \<noteq> 32) (ProtocolError ''recipient X25519 public key must be 32 bytes'') (
     raise_if (x25519_exchange pr (replicate 32 (CHR 0x42)) raw = None)
       (ProtocolError ''recipient X25519 public key is unusable or low-order'') (Inr ()))"

fun from_little :: "bytes \<Rightarrow> nat" where
  "from_little [] = 0"
| "from_little (b # bs) = of_char b + 256 * from_little bs"

fun to_little :: "nat \<Rightarrow> nat \<Rightarrow> bytes" where
  "to_little 0 n = []"
| "to_little (Suc k) n = char_of (n mod 256) # to_little k (n div 256)"

definition recipient_key_id :: "primitives \<Rightarrow> bytes \<Rightarrow> string result" where
  "recipient_key_id pr raw =
     raise_if (length raw \<noteq> 32) (ProtocolError ''X25519 recipient public key must be 32 bytes'') (
     bindE (validate_recipient_public_key pr raw) (\<lambda>_.
     let masked = butlast raw @ [char_of (of_char (last raw) mod (128 :: nat))];
         coordinate = from_little masked mod (2 ^ 255 - 19)
     in Inr (sha256_hex (to_little 32 coordinate))))"

section \<open>Envelopes\<close>

definition derive_key :: "primitives \<Rightarrow> bytes \<Rightarrow> transfer_context \<Rightarrow> bytes \<Rightarrow> bytes result" where
  "derive_key pr shared c a =
     raise_if (ctx_protocol_version c \<notin> {2, 3}) (ProtocolError ''unsupported opaque-envelope protocol version'') (
     Inr (hkdf_sha256 pr (''angusu.bridge/opaque-envelope'' @ ''/v'' @ show_int (ctx_protocol_version c) @ [CHR 0x00] @ a) shared))"

text \<open>
  \<open>seal_for_recipient\<close>, given the clock reading of the expiry check, the fresh ephemeral private key and the nonce.
\<close>

definition seal_for_recipient :: "primitives \<Rightarrow> bytes \<Rightarrow> bytes \<Rightarrow> transfer_context \<Rightarrow> py_datetime \<Rightarrow> bytes \<Rightarrow> bytes
    \<Rightarrow> opaque_envelope result" where
  "seal_for_recipient pr plaintext recipient c now ephemeral nonce =
     bindE (validate_new_metadata c) (\<lambda>_.
     bindE (validate_time c now) (\<lambda>_.
     raise_if (length recipient \<noteq> 32) (ProtocolError ''recipient X25519 public key must be 32 bytes'') (
     case x25519_exchange pr ephemeral recipient of
       None \<Rightarrow> Inl (ProtocolError ''recipient X25519 public key is unusable or low-order'')
     | Some shared \<Rightarrow>
       bindE (derive_key pr shared c (aad c)) (\<lambda>key.
       OpaqueEnvelope (x25519_public pr ephemeral) nonce (chacha_seal pr key nonce plaintext (aad c))))))"

definition open_envelope :: "primitives \<Rightarrow> opaque_envelope \<Rightarrow> bytes \<Rightarrow> transfer_context \<Rightarrow> py_datetime \<Rightarrow> bytes result" where
  "open_envelope pr e private_key c now =
     bindE (validate_time c now) (\<lambda>_.
     case x25519_exchange pr private_key (env_epk e) of
       None \<Rightarrow> Inl (IntegrityError ''opaque envelope authentication failed'')
     | Some shared \<Rightarrow>
       bindE (derive_key pr shared c (aad c)) (\<lambda>key.
       case chacha_open pr key (env_nonce e) (env_ciphertext e) (aad c) of
         None \<Rightarrow> Inl (IntegrityError ''opaque envelope authentication failed'')
       | Some plaintext \<Rightarrow> Inr plaintext))"

end
