(* ===== verification/Destination.thy ===== *)
theory Destination
  imports Effects Envelopes
begin

text \<open>
  The destination's trust boundary: the agent that authorizes and opens a transport record (\<open>agents.py\<close>). The
  agent caches the identifiers of its own keys; the model recomputes them.
\<close>

section \<open>The agent\<close>

record destination_agent =
  da_private_key :: bytes
  da_expected_tenant :: "string option"
  da_expected_connector_id :: "string option"
  da_allowed_plan_digests :: "string list option"
  da_source_trust_store :: "trust_store option"
  da_allow_legacy_unsigned :: bool
  da_additional_private_keys :: "bytes list"
  da_allow_legacy_blank :: bool

definition recipient_private_key :: "primitives \<Rightarrow> destination_agent \<Rightarrow> transport_record \<Rightarrow> bytes result" where
  "recipient_private_key pr ag r =
     (let wanted = ctx_recipient_key_id (first_context r) in
      if wanted = [] then Inr (da_private_key ag) else
      (let private_keys = da_private_key ag # da_additional_private_keys ag in
       bindE (mapE (recipient_key_id pr) (map (x25519_public pr) private_keys)) (\<lambda>ids.
       let matches = filter (\<lambda>(k, i). i = wanted) (zip private_keys ids) in
       raise_if (length matches \<noteq> 1) (IntegrityError ''transport record targets an unavailable recipient key'') (
       Inr (fst (hd matches))))))"

text \<open>The checks of \<open>_authorize_record\<close>, at the clock reading \<open>now\<close> of the signature check.\<close>

definition authorize_record_at :: "primitives \<Rightarrow> destination_agent \<Rightarrow> transport_record \<Rightarrow> int \<Rightarrow> bytes result" where
  "authorize_record_at pr ag r now =
     raise_if (protocol_version r = 3 \<and> ctx_recipient_key_id (first_context r) = [] \<and> \<not> da_allow_legacy_blank ag)
       (IntegrityError ''v3 transport record has no authenticated recipient key id'') (
     bindE (if protocol_version r = 2 then
              raise_if (\<not> da_allow_legacy_unsigned ag) (IntegrityError ''unsigned v2 transport record is not allowed'') (Inr ())
            else (case da_source_trust_store ag of
                None \<Rightarrow> Inl (IntegrityError ''destination has no trusted source key registry'')
              | Some st \<Rightarrow> bindE (fst (verify_record (ed25519_ok pr) 0 r (Aware now 0) st)) (\<lambda>_. Inr ()))) (\<lambda>_.
     raise_if (case da_expected_tenant ag of None \<Rightarrow> False | Some t \<Rightarrow> tenant r \<noteq> t)
       (IntegrityError ''transport tenant is not authorized for this destination agent'') (
     raise_if (case da_expected_connector_id ag of None \<Rightarrow> False | Some c \<Rightarrow> destination_connector r \<noteq> c)
       (IntegrityError ''transport is addressed to a different destination connector'') (
     bindE (recipient_private_key pr ag r) (\<lambda>private_key.
     raise_if (case da_allowed_plan_digests ag of None \<Rightarrow> False | Some ps \<Rightarrow> plan_digest r \<notin> set ps)
       (IntegrityError ''transport mapping plan is not authorized'') (
     Inr private_key))))))"

definition authorize_record :: "primitives \<Rightarrow> destination_agent \<Rightarrow> transport_record \<Rightarrow> bytes act" where
  "authorize_record pr ag r = bindA tick (\<lambda>ev. lift_result (authorize_record_at pr ag r (ev_now ev)))"

definition open_field :: "primitives \<Rightarrow> bytes \<Rightarrow> sealed_field \<Rightarrow> (string \<times> py_value) act" where
  "open_field pr private_key f = bindA tick (\<lambda>ev.
     bindA (lift_result (open_envelope pr (sf_envelope f) private_key (sf_context f) (Aware (ev_now ev) 0))) (\<lambda>plaintext.
     bindA (lift_result (payload_decode plaintext)) (\<lambda>v. ret (sf_target_field_id f, v))))"

definition open_authorized_record :: "primitives \<Rightarrow> transport_record \<Rightarrow> bytes \<Rightarrow> (string \<times> py_value) list act" where
  "open_authorized_record pr r private_key =
     bindA (mapA (open_field pr private_key) (btr_fields r)) (\<lambda>kvs. ret (foldl (\<lambda>d (k, v). dict_put k v d) [] kvs))"

definition open_record :: "primitives \<Rightarrow> destination_agent \<Rightarrow> transport_record \<Rightarrow> (string \<times> py_value) list act" where
  "open_record pr ag r = bindA (authorize_record pr ag r) (open_authorized_record pr r)"

section \<open>A world in which everything works\<close>

definition sample_capabilities :: connector_capabilities where
  "sample_capabilities = \<lparr>cc_read_schema = True, cc_read_records = False, cc_write_records = True, cc_transactional_write = False,
     cc_supports_idempotency = False, cc_idempotency_contract_id = None, cc_atomic_batch_write = None\<rparr>"

text \<open>Everything works, at one instant.\<close>

definition good_event :: event where
  "good_event = \<lparr>ev_now = 0, ev_clock = Aware 0 0, ev_fault = NoFault, ev_token = (\<lambda>_. ''token''), ev_attempt = replicate 32 CHR ''0'',
     ev_capabilities = Inr sample_capabilities, ev_response = Acknowledged (Some 1), ev_resolved = Inr None, ev_sink = Accepted\<rparr>"

definition sample_world :: world where
  "sample_world = \<lparr>w_ledger = [], w_spool = [], w_writes = [], w_tape = (\<lambda>_. good_event), w_pos = 0\<rparr>"

end
