(* ===== verification/AuditStore.thy ===== *)
theory AuditStore
  imports Signing
begin

text \<open>
  The audit log (\<open>audit.py\<close>): bounded events, their hash chain in the table \<open>audit_events\<close>, the usage row the
  triggers keep, appending, verification and the summary. The table is the list of its rows in the order of its
  primary key, which is the order of the chain. Cells have the types the log writes. Ed25519 is a parameter:
  \<open>al_signer\<close> signs, \<open>ed25519_ok\<close> verifies. The JSONL export renders the rows that verification yields and
  is not modelled; neither are the connection and the file permissions.
\<close>

section \<open>Events\<close>

record audit_event =
  ae_event_type :: string
  ae_actor :: string
  ae_status :: string
  ae_tenant :: string
  ae_connector_id :: string
  ae_transfer_id :: string
  ae_record_id :: string
  ae_record_digest :: string
  ae_plan_digest :: string
  ae_reason_code :: "string option"
  ae_timestamp :: "py_datetime option"
  ae_batch_attempt_id :: "string option"

definition hex_digest :: "string \<Rightarrow> bool" where
  "hex_digest s = (length s = 64 \<and> list_all (\<lambda>c. c \<in> set ''0123456789abcdefABCDEF'') s)"

definition bounded_metadata :: "nat \<Rightarrow> string \<Rightarrow> bool" where
  "bounded_metadata n s = (s \<noteq> [] \<and> length s \<le> n \<and> isprintable s)"

text \<open>A loop over labelled values that raises at the first one that fails its test.\<close>

fun require_all :: "('a \<Rightarrow> bool) \<Rightarrow> string \<Rightarrow> (string \<times> 'a) list \<Rightarrow> 'b result \<Rightarrow> 'b result" where
  "require_all ok message [] k = k"
| "require_all ok message ((label, v) # vs) k =
     raise_if (\<not> ok v) (ValueError (''audit '' @ label @ message)) (require_all ok message vs k)"

definition audit_timestamp :: "audit_event \<Rightarrow> int \<Rightarrow> int result" where
  "audit_timestamp e now = (case ae_timestamp e of
     None \<Rightarrow> Inr now | Some (Naive t) \<Rightarrow> Inr t | Some (Aware t off) \<Rightarrow> astimezone_utc t off)"

definition str_or_null :: "string option \<Rightarrow> json" where
  "str_or_null s = (case s of None \<Rightarrow> JNull | Some t \<Rightarrow> JStr t)"

text \<open>\<open>AuditEvent.canonical_dict\<close>; \<open>now\<close> is the clock an event without a timestamp reads.\<close>

definition audit_canonical_dict :: "audit_event \<Rightarrow> int \<Rightarrow> (string \<times> json) list result" where
  "audit_canonical_dict e now =
     require_all (machine_id 64) '' must be a short machine-readable identifier''
       [(''event_type'', ae_event_type e), (''status'', ae_status e)] (
     require_all (\<lambda>(n, v). bounded_metadata n v) '' must be bounded printable metadata''
       [(''actor'', (128, ae_actor e)), (''tenant'', (128, ae_tenant e)), (''connector_id'', (128, ae_connector_id e)),
        (''transfer_id'', (256, ae_transfer_id e)), (''record_id'', (256, ae_record_id e))] (
     require_all hex_digest '' must be a SHA-256 hex digest''
       [(''record_digest'', ae_record_digest e), (''plan_digest'', ae_plan_digest e)] (
     bindE (audit_timestamp e now) (\<lambda>timestamp.
     raise_if (case ae_reason_code e of None \<Rightarrow> False | Some c \<Rightarrow> \<not> machine_id 96 c)
       (ValueError ''audit reason_code must be machine-readable'') (
     raise_if (case ae_batch_attempt_id e of None \<Rightarrow> False | Some b \<Rightarrow> \<not> lower_hex 32 b)
       (ValueError ''audit batch_attempt_id must be a lowercase 128-bit identifier'') (
     Inr ([(''actor'', JStr (ae_actor e)), (''connector_id'', JStr (ae_connector_id e)),
       (''event_type'', JStr (ae_event_type e)), (''plan_digest'', JStr (ae_plan_digest e)),
       (''reason_code'', str_or_null (ae_reason_code e)), (''record_digest'', JStr (ae_record_digest e)),
       (''record_id'', JStr (ae_record_id e)), (''status'', JStr (ae_status e)), (''tenant'', JStr (ae_tenant e)),
       (''timestamp'', JStr (isoformat timestamp)), (''transfer_id'', JStr (ae_transfer_id e))]
       @ (case ae_batch_attempt_id e of None \<Rightarrow> [] | Some b \<Rightarrow> [(''batch_attempt_id'', JStr b)]))))))))"

section \<open>The store\<close>

record audit_row =
  ar_sequence :: int
  ar_event_json :: string
  ar_previous_hash :: string
  ar_event_hash :: string
  ar_signature :: "bytes option"

text \<open>\<open>ad_usage\<close> is the row of \<open>audit_usage\<close>, \<open>ad_last\<close> what \<open>AUTOINCREMENT\<close> remembers.\<close>

record audit_db =
  ad_rows :: "audit_row list"
  ad_usage :: "(int \<times> int) option"
  ad_last :: int

record audit_log =
  al_signer :: "(bytes \<Rightarrow> bytes) option"
  al_max_events :: int
  al_max_logical_bytes :: int
  al_read_only :: bool

record audit_record =
  au_sequence :: int
  au_event :: "(string \<times> json) list"
  au_previous_hash :: string
  au_event_hash :: string
  au_signature :: "bytes option"

definition MAX_AUDIT_BATCH_EVENTS :: nat where "MAX_AUDIT_BATCH_EVENTS = 10000"
definition MAX_AUDIT_EVENT_BYTES :: nat where "MAX_AUDIT_EVENT_BYTES = 16 * 1024"
definition MAX_AUDIT_BATCH_BYTES :: nat where "MAX_AUDIT_BATCH_BYTES = 64 * 1024 * 1024"

text \<open>The checks of the constructor, and the tables it creates; \<open>None\<close> is a missing file.\<close>

definition AuditLog :: "(bytes \<Rightarrow> bytes) option \<Rightarrow> bool \<Rightarrow> int \<Rightarrow> int \<Rightarrow> audit_log result" where
  "AuditLog signer create max_events max_logical_bytes =
     raise_if (max_events \<le> 0) (ValueError ''audit max_events must be a positive integer'') (
     raise_if (max_logical_bytes \<le> 0) (ValueError ''audit max_logical_bytes must be a positive integer'') (
     Inr \<lparr>al_signer = signer, al_max_events = max_events, al_max_logical_bytes = max_logical_bytes, al_read_only = \<not> create\<rparr>))"

text \<open>SQLite's \<open>LENGTH\<close> of a text stops at its first NUL.\<close>

definition text_length :: "string \<Rightarrow> int" where
  "text_length s = int (length (takeWhile (\<lambda>c. c \<noteq> CHR 0x00) s))"

definition row_bytes :: "audit_row \<Rightarrow> int" where
  "row_bytes x = int (length (utf8_encode (ar_event_json x))) + text_length (ar_previous_hash x) + text_length (ar_event_hash x)
     + (case ar_signature x of None \<Rightarrow> 0 | Some s \<Rightarrow> int (length s))"

definition audit_initialize :: "audit_db option \<Rightarrow> audit_db" where
  "audit_initialize file = (case file of
     None \<Rightarrow> \<lparr>ad_rows = [], ad_usage = Some (0, 0), ad_last = 0\<rparr>
   | Some db \<Rightarrow> (case ad_usage db of
       Some _ \<Rightarrow> db
     | None \<Rightarrow> db\<lparr>ad_usage := Some (int (length (ad_rows db)), sum_list (map row_bytes (ad_rows db)))\<rparr>))"

text \<open>\<open>INSERT INTO audit_events\<close> with its constraints and the trigger \<open>audit_usage_after_insert\<close>.\<close>

definition tail_sequence :: "audit_row list \<Rightarrow> int" where
  "tail_sequence rows = (if rows = [] then 0 else ar_sequence (last rows))"

definition insert_event :: "string \<Rightarrow> string \<Rightarrow> string \<Rightarrow> bytes option \<Rightarrow> audit_db \<Rightarrow> audit_db result" where
  "insert_event event_json previous_hash event_hash signature db =
     raise_if (event_hash \<in> ar_event_hash ` set (ad_rows db)) SqliteError (
     let n = max (ad_last db) (tail_sequence (ad_rows db)) + 1;
         x = \<lparr>ar_sequence = n, ar_event_json = event_json, ar_previous_hash = previous_hash, ar_event_hash = event_hash,
              ar_signature = signature\<rparr>
     in Inr (db\<lparr>ad_rows := ad_rows db @ [x], ad_last := n,
          ad_usage := map_option (\<lambda>(c, b). (c + 1, b + row_bytes x)) (ad_usage db)\<rparr>))"

section \<open>The hash chain\<close>

definition genesis :: string where
  "genesis = replicate 64 CHR ''0''"

definition hash_encoded :: "string \<Rightarrow> bytes \<Rightarrow> string" where
  "hash_encoded previous_hash encoded = sha256_hex (previous_hash @ [CHR 0x00] @ encoded)"

definition audit_hash :: "string \<Rightarrow> json \<Rightarrow> string" where
  "audit_hash previous_hash event = hash_encoded previous_hash (json_encode event)"

text \<open>\<open>str.encode("ascii")\<close>\<close>

definition ascii :: "string \<Rightarrow> bool" where
  "ascii s = list_all (\<lambda>c. (of_char c :: nat) < 128) s"

text \<open>\<open>bytes.fromhex\<close> of lowercase hexadecimal text.\<close>

fun fromhex :: "string \<Rightarrow> bytes" where
  "fromhex (a # b # r) = (let v = (\<lambda>c. length (takeWhile (\<lambda>d. d \<noteq> c) ''0123456789abcdef''))
     in char_of (16 * v a + v b) # fromhex r)"
| "fromhex _ = []"

section \<open>Appending\<close>

text \<open>The first loop of \<open>append_many\<close>; the \<open>n\<close>-th event reads the clock \<open>clock n\<close>.\<close>

type_synonym prepared_event = "(string \<times> json) list \<times> string"

fun prepare_events :: "(nat \<Rightarrow> int) \<Rightarrow> nat \<Rightarrow> nat \<Rightarrow> audit_event list \<Rightarrow> prepared_event list result" where
  "prepare_events clock n size_so_far [] = Inr []"
| "prepare_events clock n size_so_far (e # es) =
     raise_if (MAX_AUDIT_BATCH_EVENTS \<le> n) (ValueError ''audit batch exceeds the event count limit'') (
     bindE (audit_canonical_dict e (clock n)) (\<lambda>payload.
     let encoded = json_dumps (JObj payload); size' = length (utf8_encode encoded) in
     raise_if (MAX_AUDIT_EVENT_BYTES < size') (ValueError ''audit event exceeds the encoded size limit'') (
     raise_if (MAX_AUDIT_BATCH_BYTES < size_so_far + size') (ValueError ''audit batch exceeds the encoded size limit'') (
     bindE (prepare_events clock (Suc n) (size_so_far + size') es) (\<lambda>ps. Inr ((payload, encoded) # ps))))))"

text \<open>The insert loop; it also builds the rows the postcondition expects.\<close>

fun insert_events :: "audit_log \<Rightarrow> int \<Rightarrow> string \<Rightarrow> prepared_event list \<Rightarrow> audit_db \<Rightarrow> (audit_db \<times> audit_row list) result" where
  "insert_events cfg n previous_hash [] db = Inr (db, [])"
| "insert_events cfg n previous_hash ((payload, encoded) # ps) db =
     raise_if (\<not> ascii previous_hash) (ValueError ''ascii codec cannot encode the previous hash'') (
     let event_hash = hash_encoded previous_hash (utf8_encode encoded);
         signature = map_option (\<lambda>sign. sign (fromhex event_hash)) (al_signer cfg) in
     bindE (insert_event encoded previous_hash event_hash signature db) (\<lambda>db1.
     bindE (insert_events cfg (n + 1) event_hash ps db1) (\<lambda>(db2, xs).
     Inr (db2, \<lparr>ar_sequence = n, ar_event_json = encoded, ar_previous_hash = previous_hash, ar_event_hash = event_hash,
            ar_signature = signature\<rparr> # xs))))"

definition audit_record_of :: "prepared_event \<Rightarrow> audit_row \<Rightarrow> audit_record" where
  "audit_record_of p x = \<lparr>au_sequence = ar_sequence x, au_event = fst p, au_previous_hash = ar_previous_hash x,
     au_event_hash = ar_event_hash x, au_signature = ar_signature x\<rparr>"

definition added_bytes :: "audit_log \<Rightarrow> prepared_event list \<Rightarrow> int" where
  "added_bytes cfg ps = sum_list (map (\<lambda>(_, encoded). int (length (utf8_encode encoded)) + 128
     + (if al_signer cfg \<noteq> None then 64 else 0)) ps)"

text \<open>The transaction; the result is the table it commits.\<close>

definition append_prepared :: "audit_log \<Rightarrow> prepared_event list \<Rightarrow> audit_db \<Rightarrow> (audit_db \<times> audit_record list) result" where
  "append_prepared cfg ps db = (case ad_usage db of
     None \<Rightarrow> Inl (IntegrityError ''audit usage metadata is missing'')
   | Some (held, logical) \<Rightarrow>
     let initial = tail_sequence (ad_rows db); additional = added_bytes cfg ps;
         previous_hash = (if ad_rows db = [] then genesis else ar_event_hash (last (ad_rows db))) in
     raise_if (held \<noteq> initial) (IntegrityError ''audit usage metadata does not match the hash-chain tail'') (
     raise_if (al_max_events cfg < held + int (length ps))
       (IntegrityError ''audit event quota reached; archive before retrying'') (
     raise_if (al_max_logical_bytes cfg < logical + additional)
       (IntegrityError ''audit byte quota reached; archive before retrying'') (
     bindE (insert_events cfg (initial + 1) previous_hash ps db) (\<lambda>(db', expected).
     raise_if (filter (\<lambda>x. initial < ar_sequence x) (ad_rows db') \<noteq> expected)
       (IntegrityError ''audit append postcondition failed'') (
     raise_if (ad_usage db' \<noteq> Some (initial + int (length ps), logical + additional))
       (IntegrityError ''audit usage metadata postcondition failed'') (
     Inr (db', map2 audit_record_of ps expected))))))))"

definition append_many :: "audit_log \<Rightarrow> (nat \<Rightarrow> int) \<Rightarrow> audit_event list \<Rightarrow> audit_db \<Rightarrow> (audit_db \<times> audit_record list) result" where
  "append_many cfg clock es db =
     raise_if (al_read_only cfg) (IntegrityError ''cannot append to a read-only audit store'') (
     bindE (prepare_events clock 0 0 es) (\<lambda>ps.
     if ps = [] then Inr (db, []) else append_prepared cfg ps db))"

definition audit_append :: "audit_log \<Rightarrow> int \<Rightarrow> audit_event \<Rightarrow> audit_db \<Rightarrow> (audit_db \<times> audit_record) result" where
  "audit_append cfg now e db = bindE (append_many cfg (\<lambda>_. now) [e] db) (\<lambda>(db', xs). Inr (db', hd xs))"

section \<open>Verification and summary\<close>

definition check_signature :: "(bytes \<Rightarrow> bytes \<Rightarrow> bytes \<Rightarrow> bool) \<Rightarrow> bytes option \<Rightarrow> string \<Rightarrow> bytes option \<Rightarrow> unit result" where
  "check_signature ed25519_ok key expected_hash signature = (case key of
     None \<Rightarrow> Inr ()
   | Some k \<Rightarrow> (case signature of
       None \<Rightarrow> Inl (IntegrityError ''signed audit verification found an unsigned event'')
     | Some s \<Rightarrow> verify_ed25519 ed25519_ok k (fromhex expected_hash) s))"

text \<open>\<open>_verified_rows\<close>: the rows with their parsed events, or the first defect.\<close>

fun verified_rows :: "(bytes \<Rightarrow> bytes \<Rightarrow> bytes \<Rightarrow> bool) \<Rightarrow> bytes option \<Rightarrow> string \<Rightarrow> int \<Rightarrow> audit_row list \<Rightarrow>
    (audit_row \<times> (string \<times> json) list) list result" where
  "verified_rows ok key previous_hash n [] = Inr []"
| "verified_rows ok key previous_hash n (x # xs) =
     raise_if (ar_sequence x \<noteq> n) (IntegrityError ''audit sequence contains a gap'') (
     case json_loads False (ar_event_json x) of
       None \<Rightarrow> Inl (IntegrityError ''audit event JSON is invalid'')
     | Some (JObj event) \<Rightarrow>
         raise_if (ar_previous_hash x \<noteq> previous_hash) (IntegrityError ''audit hash chain is broken'') (
         let expected = audit_hash previous_hash (JObj event) in
         raise_if (ar_event_hash x \<noteq> expected) (IntegrityError ''audit event hash mismatch'') (
         bindE (check_signature ok key expected (ar_signature x)) (\<lambda>_.
         bindE (verified_rows ok key expected (n + 1) xs) (\<lambda>ys. Inr ((x, event) # ys)))))
     | Some _ \<Rightarrow> Inl (IntegrityError ''audit event JSON is not an object''))"

definition audit_verify :: "(bytes \<Rightarrow> bytes \<Rightarrow> bytes \<Rightarrow> bool) \<Rightarrow> bytes option \<Rightarrow> audit_db \<Rightarrow> nat result" where
  "audit_verify ok key db = bindE (verified_rows ok key genesis 1 (ad_rows db)) (\<lambda>ys. Inr (length ys))"

text \<open>A \<open>Counter\<close> as an association list.\<close>

fun count_up :: "string \<Rightarrow> (string \<times> nat) list \<Rightarrow> (string \<times> nat) list" where
  "count_up k [] = [(k, 1)]"
| "count_up k ((l, n) # c) = (if k = l then (l, Suc n) # c else (l, n) # count_up k c)"

record audit_summary =
  su_events :: nat
  su_event_types :: "(string \<times> nat) list"
  su_statuses :: "(string \<times> nat) list"
  su_reasons :: "(string \<times> nat) list"
  su_signed :: nat
  su_unsigned :: nat
  su_verified :: bool
  su_first :: "string option"
  su_last :: "string option"

text \<open>One iteration of the loop of \<open>summary\<close>. \<open>first_timestamp or timestamp\<close> also replaces an empty text.\<close>

definition summary_step :: "audit_summary \<Rightarrow> audit_row \<times> (string \<times> json) list \<Rightarrow> audit_summary" where
  "summary_step s = (\<lambda>(x, event).
     s\<lparr>su_events := Suc (su_events s),
       su_event_types := count_up (py_str (get_default (JStr ''unknown'') ''event_type'' event)) (su_event_types s),
       su_statuses := count_up (py_str (get_default (JStr ''unknown'') ''status'' event)) (su_statuses s),
       su_reasons := (let reason = get_default JNull ''reason_code'' event in
         if reason = JNull then su_reasons s else count_up (py_str reason) (su_reasons s)),
       su_first := (case get_default JNull ''timestamp'' event of
         JStr t \<Rightarrow> if su_first s = None \<or> su_first s = Some [] then Some t else su_first s | _ \<Rightarrow> su_first s),
       su_last := (case get_default JNull ''timestamp'' event of JStr t \<Rightarrow> Some t | _ \<Rightarrow> su_last s),
       su_signed := (if ar_signature x = None then su_signed s else Suc (su_signed s))\<rparr>)"

definition audit_summary_of :: "(bytes \<Rightarrow> bytes \<Rightarrow> bytes \<Rightarrow> bool) \<Rightarrow> bytes option \<Rightarrow> audit_db \<Rightarrow> audit_summary result" where
  "audit_summary_of ok key db = bindE (verified_rows ok key genesis 1 (ad_rows db)) (\<lambda>ys.
     let s = foldl summary_step \<lparr>su_events = 0, su_event_types = [], su_statuses = [], su_reasons = [], su_signed = 0,
           su_unsigned = 0, su_verified = (key \<noteq> None), su_first = None, su_last = None\<rparr> ys
     in Inr (s\<lparr>su_event_types := sort_key fst (su_event_types s), su_statuses := sort_key fst (su_statuses s),
          su_reasons := sort_key fst (su_reasons s),
          su_unsigned := su_events s - su_signed s\<rparr>))"

section \<open>What a verified chain is\<close>

definition row_event :: "audit_row \<Rightarrow> (string \<times> json) list" where
  "row_event x = (case json_loads False (ar_event_json x) of Some (JObj event) \<Rightarrow> event | _ \<Rightarrow> [])"

definition signature_ok :: "(bytes \<Rightarrow> bytes \<Rightarrow> bytes \<Rightarrow> bool) \<Rightarrow> bytes option \<Rightarrow> audit_row \<Rightarrow> bool" where
  "signature_ok ok key x = (case key of None \<Rightarrow> True
     | Some k \<Rightarrow> (\<exists>s. ar_signature x = Some s \<and> length k = 32 \<and> length s = 64 \<and> ok k (fromhex (ar_event_hash x)) s))"

definition row_ok :: "(bytes \<Rightarrow> bytes \<Rightarrow> bytes \<Rightarrow> bool) \<Rightarrow> bytes option \<Rightarrow> string \<Rightarrow> int \<Rightarrow> audit_row \<Rightarrow> bool" where
  "row_ok ok key previous_hash n x =
     (ar_sequence x = n \<and> ar_previous_hash x = previous_hash \<and> json_loads False (ar_event_json x) = Some (JObj (row_event x))
      \<and> ar_event_hash x = audit_hash previous_hash (JObj (row_event x)) \<and> signature_ok ok key x)"

fun chain :: "(bytes \<Rightarrow> bytes \<Rightarrow> bytes \<Rightarrow> bool) \<Rightarrow> bytes option \<Rightarrow> string \<Rightarrow> int \<Rightarrow> audit_row list \<Rightarrow> bool" where
  "chain ok key previous_hash n [] = True"
| "chain ok key previous_hash n (x # xs) = (row_ok ok key previous_hash n x \<and> chain ok key (ar_event_hash x) (n + 1) xs)"

definition tail_hash :: "string \<Rightarrow> audit_row list \<Rightarrow> string" where
  "tail_hash previous_hash xs = (if xs = [] then previous_hash else ar_event_hash (last xs))"

lemma check_signature_iff:
  "ar_event_hash x = h \<Longrightarrow> check_signature ok key h (ar_signature x) = Inr () \<longleftrightarrow> signature_ok ok key x"
  by (auto simp: check_signature_def signature_ok_def verify_ed25519_def split: option.splits)

lemma verified_rows_iff:
  "verified_rows ok key previous_hash n xs = Inr ys \<longleftrightarrow> chain ok key previous_hash n xs \<and> ys = map (\<lambda>x. (x, row_event x)) xs"
proof (induction xs arbitrary: previous_hash n ys)
  case (Cons x xs)
  consider event where "json_loads False (ar_event_json x) = Some (JObj event)"
    | "\<nexists>event. json_loads False (ar_event_json x) = Some (JObj event)" by blast
  then show ?case
  proof cases
    case (1 event)
    then have "row_event x = event" by (simp add: row_event_def)
    with 1 show ?thesis
      using Cons.IH check_signature_iff [of x "audit_hash previous_hash (JObj event)" ok key] by (auto simp: row_ok_def Let_def)
  next
    case 2
    then have "\<not> row_ok ok key previous_hash n x" by (auto simp: row_ok_def)
    moreover have "verified_rows ok key previous_hash n (x # xs) \<noteq> Inr ys"
      using 2 by (auto split: option.splits json.splits)
    ultimately show ?thesis by simp
  qed
qed auto

lemma verify_chain: "audit_verify ok key db = Inr n \<longleftrightarrow> chain ok key genesis 1 (ad_rows db) \<and> n = length (ad_rows db)"
  by (auto simp: audit_verify_def verified_rows_iff)

lemma chain_append:
  "chain ok key h n (xs @ ys) \<longleftrightarrow> chain ok key h n xs \<and> chain ok key (tail_hash h xs) (n + int (length xs)) ys"
  by (induction xs arbitrary: h n) (auto simp: tail_hash_def algebra_simps)

lemma chain_nth:
  "chain ok key h n xs \<longleftrightarrow> (\<forall>i < length xs. row_ok ok key (if i = 0 then h else ar_event_hash (xs ! (i - 1))) (n + int i) (xs ! i))"
proof (induction xs arbitrary: h n)
  case (Cons x xs)
  have prev: "(x # xs) ! i = (if i = 0 then x else xs ! (i - 1))" for i by (cases i) simp_all
  show ?case unfolding chain.simps Cons.IH length_Cons All_less_Suc2 prev by (simp add: algebra_simps cong: if_cong)
qed simp

lemma chain_sequences: "chain ok key h n xs \<Longrightarrow> map ar_sequence xs = map (\<lambda>i. n + int i) [0..<length xs]"
  by (rule nth_equalityI) (auto simp: chain_nth row_ok_def)

lemma chain_tail: "chain ok key h 1 xs \<Longrightarrow> tail_sequence xs = int (length xs)"
  by (cases xs rule: rev_cases) (auto simp: tail_sequence_def chain_append row_ok_def)

end
