(* ===== verification/Runtime.thy ===== *)
theory Runtime
  imports Destination Capabilities AuditStore
begin

text \<open>
  The destination runtime (\<open>runtime.py\<close>): single deliveries, atomic batches and replays. A runtime authorizes a
  record, claims it in the ledger, opens it, checks it against the destination's contract, crosses the write
  boundary, calls the connector and settles ledger and spool. Its configuration is the record \<open>runtime\<close>; its effects
  are actions on the \<open>world\<close>.

  Of the audit log and the event stream the model keeps what the runtime sees of them: whether an append
  succeeded (the tape), the events it would have appended and the correlation ids.
\<close>

section \<open>Configuration\<close>

record runtime =
  rt_primitives :: primitives
  rt_connector_id :: string
  rt_agent :: destination_agent
  rt_has_write_batch :: bool
  rt_has_resolver :: bool
  rt_spool :: spool_config
  rt_plan :: mapping_plan
  rt_target_schema :: schema_descriptor
  rt_authorizer :: "capability_authorizer option"
  rt_audit :: bool
  rt_events :: "string option"
  rt_actor_id :: string
  rt_claim_lease :: int
  rt_plan_digest :: string
  rt_mapped_target_fields :: "field_descriptor list"

text \<open>\<open>__post_init__\<close>: \<open>rt\<close> holds the arguments; the result is the runtime with its derived fields.\<close>

definition DestinationRuntime :: "runtime \<Rightarrow> runtime act" where
  "DestinationRuntime rt =
     raise_unless (rt_actor_id rt \<noteq> [] \<and> length (rt_actor_id rt) \<le> 128 \<and> isprintable (rt_actor_id rt))
       (ValueError ''destination runtime actor id must be bounded printable metadata'') (
     raise_unless (0 < rt_claim_lease rt \<and> rt_claim_lease rt \<le> MAX_CLAIM_DURATION)
       (ValueError ''claim duration is outside supported range'') (
     bindA read_capabilities (\<lambda>caps.
     raise_unless (cc_write_records caps) (ValueError ''destination connector does not advertise write capability'') (
     bindA read_capabilities (\<lambda>caps'.
     raise_unless (cc_atomic_batch_write caps' = None \<or> rt_has_write_batch rt)
       (ValueError ''destination connector advertises atomic batching without a writer'') (
     raise_unless (da_expected_connector_id (rt_agent rt) \<in> {None, Some (rt_connector_id rt)})
       (ValueError ''destination agent and runtime connector ids differ'') (
     raise_unless (mp_target_schema_id (rt_plan rt) = sd_id (rt_target_schema rt))
       (ValueError ''runtime plan and target schema ids differ'') (
     raise_unless (mp_target_fingerprint (rt_plan rt) = fingerprint (rt_target_schema rt))
       (ValueError ''runtime plan target fingerprint does not match target schema'') (
     let target_ids = map mr_target_field_id (mp_rules (rt_plan rt)); fields = by_id (rt_target_schema rt);
         d = mapping_plan_digest (rt_plan rt) in
     raise_unless (target_ids \<noteq> []) (ValueError ''runtime mapping plan has no target fields'') (
     raise_unless (distinct target_ids) (ValueError ''runtime mapping plan targets a field more than once'') (
     raise_unless (list_all (\<lambda>i. fields i \<noteq> None) target_ids)
       (ValueError ''runtime mapping plan references an unknown target field'') (
     raise_unless (list_all (\<lambda>f. fd_id f \<in> set target_ids \<or> fd_nullable f \<or> fd_destination_generated f)
         (sd_fields (rt_target_schema rt)))
       (ValueError ''runtime mapping plan omits a required target field'') (
     raise_unless (case da_allowed_plan_digests (rt_agent rt) of None \<Rightarrow> True | Some ps \<Rightarrow> d \<in> set ps)
       (ValueError ''runtime plan is not authorized by destination agent'') (
     ret (rt\<lparr>rt_agent := (rt_agent rt)\<lparr>da_expected_connector_id := Some (rt_connector_id rt),
              da_allowed_plan_digests := Some [d]\<rparr>,
            rt_plan_digest := d,
            rt_mapped_target_fields := map (the \<circ> fields) target_ids\<rparr>)))))))))))))))"

definition idempotency_key :: "transport_record \<Rightarrow> string" where
  "idempotency_key r = (let sep = [CHR 0x00] in sha256_hex (utf8_encode (
     ''angusu.bridge.delivery/v1'' @ sep @ tenant r @ sep @ destination_connector r @ sep @ transfer_id r @ sep
     @ btr_record_id r @ sep @ digest r)))"

definition scalar_idempotency_contract_id :: "connector_capabilities \<Rightarrow> string option" where
  "scalar_idempotency_contract_id caps = (if \<not> cc_supports_idempotency caps then None else cc_idempotency_contract_id caps)"

definition batch_idempotency_contract_id :: "connector_capabilities \<Rightarrow> string option" where
  "batch_idempotency_contract_id caps = (case cc_atomic_batch_write caps of
     None \<Rightarrow> None
   | Some b \<Rightarrow> if \<not> cc_supports_idempotency caps \<or> \<not> ab_per_item_idempotency b then None
       else cc_idempotency_contract_id caps)"

definition authorize_capability :: "runtime \<Rightarrow> capability_operation \<Rightarrow> transport_record \<Rightarrow> unit act" where
  "authorize_capability rt operation r = (case rt_authorizer rt of
     None \<Rightarrow> ret ()
   | Some a \<Rightarrow> bindA tick (\<lambda>ev. lift_result (authorizer_authorize (ed25519_ok (rt_primitives rt)) a operation
       (tenant r) (rt_connector_id rt) (Some (plan_digest r)) (ev_now ev))))"

section \<open>Receipts\<close>

record receipt_request =
  rr_record :: transport_record
  rr_status :: delivery_status
  rr_reason_code :: "string option"
  rr_retry_safe :: "bool option"
  rr_event_type :: string
  rr_batch_attempt_id :: "string option"

definition request :: "transport_record \<Rightarrow> delivery_status \<Rightarrow> string option \<Rightarrow> bool option \<Rightarrow> string \<Rightarrow> string option \<Rightarrow> receipt_request" where
  "request r status reason retry event_type attempt =
     \<lparr>rr_record = r, rr_status = status, rr_reason_code = reason, rr_retry_safe = retry, rr_event_type = event_type,
      rr_batch_attempt_id = attempt\<rparr>"

text \<open>
  The event a request is recorded as, and whether \<open>canonical_dict\<close> accepts it. That does not depend on the clock:
  the timestamp is either missing or the current UTC time.
\<close>

definition audit_event_of :: "runtime \<Rightarrow> receipt_request \<Rightarrow> audit_event" where
  "audit_event_of rt q = \<lparr>ae_event_type = rr_event_type q, ae_actor = rt_actor_id rt, ae_status = status_value (rr_status q),
     ae_tenant = tenant (rr_record q), ae_connector_id = destination_connector (rr_record q),
     ae_transfer_id = transfer_id (rr_record q), ae_record_id = btr_record_id (rr_record q),
     ae_record_digest = digest (rr_record q), ae_plan_digest = plan_digest (rr_record q), ae_reason_code = rr_reason_code q,
     ae_timestamp = None, ae_batch_attempt_id = rr_batch_attempt_id q\<rparr>"

definition audit_event_valid :: "runtime \<Rightarrow> receipt_request \<Rightarrow> bool" where
  "audit_event_valid rt q = (\<not> isl (audit_canonical_dict (audit_event_of rt q) 0))"

definition correlation_id :: "string \<Rightarrow> string \<Rightarrow> string result" where
  "correlation_id run_id key =
     raise_if (key = [] \<or> 1024 < length key \<or> \<not> isprintable key)
       (ValueError ''correlation key must be bounded printable text'') (
     Inr (take 32 (sha256_hex (fromhex run_id @ [CHR 0x00] @ utf8_encode key))))"

text \<open>An append to the audit log or the event stream: whether it was recorded.\<close>

definition append_sink :: "bool act" where
  "append_sink = bindA tick (\<lambda>ev. case ev_sink ev of
     Accepted \<Rightarrow> ret True | Refused \<Rightarrow> ret False | SinkKills \<Rightarrow> throw Killed)"

definition audit_one :: "runtime \<Rightarrow> receipt_request \<Rightarrow> audit_write_status act" where
  "audit_one rt q =
     (if \<not> rt_audit rt then ret AUDIT_DISABLED
      else if \<not> audit_event_valid rt q then ret AUDIT_APPEND_FAILED
      else bindA append_sink (\<lambda>ok. ret (if ok then AUDIT_RECORDED else AUDIT_APPEND_FAILED)))"

definition emit_one :: "runtime \<Rightarrow> receipt_request \<Rightarrow> (event_write_status \<times> string option) act" where
  "emit_one rt q = (case rt_events rt of
     None \<Rightarrow> ret (EVENT_DISABLED, None)
   | Some run_id \<Rightarrow> (case correlation_id run_id (''record:'' @ digest (rr_record q)) of
       Inl _ \<Rightarrow> ret (EVENT_APPEND_FAILED, None)
     | Inr c \<Rightarrow> bindA append_sink (\<lambda>ok. ret (if ok then EVENT_RECORDED else EVENT_APPEND_FAILED, Some c))))"

definition receipt_for :: "runtime \<Rightarrow> receipt_request \<Rightarrow> string \<Rightarrow> audit_write_status \<Rightarrow> event_write_status \<Rightarrow> string option \<Rightarrow>
    delivery_receipt" where
  "receipt_for rt q completed_at audit_status event_status correlation =
     \<lparr>rc_status = rr_status q, rc_tenant = tenant (rr_record q), rc_destination_connector = destination_connector (rr_record q),
      rc_transfer_id = transfer_id (rr_record q), rc_record_id = btr_record_id (rr_record q),
      rc_record_digest = digest (rr_record q), rc_plan_digest = plan_digest (rr_record q), rc_completed_at = completed_at,
      rc_reason_code = rr_reason_code q, rc_retry_safe = (case rr_retry_safe q of None \<Rightarrow> False | Some b \<Rightarrow> b),
      rc_audit_recorded = (audit_status = AUDIT_RECORDED), rc_audit_status = audit_status,
      rc_event_recorded = (event_status = EVENT_RECORDED), rc_event_status = event_status,
      rc_run_id = rt_events rt, rc_correlation_id = correlation, rc_batch_attempt_id = rr_batch_attempt_id q\<rparr>"

definition receipt :: "runtime \<Rightarrow> receipt_request \<Rightarrow> delivery_receipt act" where
  "receipt rt q =
     bindA (audit_one rt q) (\<lambda>audit_status.
     bindA (emit_one rt q) (\<lambda>(event_status, correlation).
     bindA tick (\<lambda>ev. ret (receipt_for rt q (isoformat (ev_now ev)) audit_status event_status correlation))))"

text \<open>The batch of audit events: invalid ones are left out, the others are appended in one transaction.\<close>

definition audit_many :: "runtime \<Rightarrow> receipt_request list \<Rightarrow> audit_write_status list act" where
  "audit_many rt qs =
     (if \<not> rt_audit rt then ret (map (\<lambda>_. AUDIT_DISABLED) qs)
      else if filter (audit_event_valid rt) qs = [] then ret (map (\<lambda>_. AUDIT_APPEND_FAILED) qs)
      else bindA append_sink (\<lambda>ok. ret (map (\<lambda>q. if audit_event_valid rt q \<and> ok then AUDIT_RECORDED else AUDIT_APPEND_FAILED) qs)))"

text \<open>\<open>len(statuses) != 1 or ... or None in batch_attempt_ids\<close>\<close>

definition mixed_outcomes :: "receipt_request list \<Rightarrow> bool" where
  "mixed_outcomes qs =
     (length (remdups (map rr_status qs)) \<noteq> 1 \<or> length (remdups (map rr_reason_code qs)) \<noteq> 1
      \<or> set (map rr_event_type qs) \<noteq> {''delivery''} \<or> length (remdups (map rr_batch_attempt_id qs)) \<noteq> 1
      \<or> None \<in> set (map rr_batch_attempt_id qs))"

definition emit_many :: "runtime \<Rightarrow> bool \<Rightarrow> receipt_request list \<Rightarrow> (event_write_status \<times> string option list) act" where
  "emit_many rt batch_event qs = (case rt_events rt of
     None \<Rightarrow> ret (EVENT_DISABLED, map (\<lambda>_. None) qs)
   | Some run_id \<Rightarrow> (case mapE (\<lambda>q. correlation_id run_id (''record:'' @ digest (rr_record q))) qs of
       Inl _ \<Rightarrow> ret (EVENT_APPEND_FAILED, map (\<lambda>_. None) qs)
     | Inr cs \<Rightarrow>
         if batch_event \<and> (mixed_outcomes qs
             \<or> isl (correlation_id run_id (''delivery-batch:'' @ the (rr_batch_attempt_id (hd qs)))))
         then ret (EVENT_APPEND_FAILED, map Some cs)
         else bindA append_sink (\<lambda>ok. ret (if ok then EVENT_RECORDED else EVENT_APPEND_FAILED, map Some cs))))"

definition receipts_many :: "runtime \<Rightarrow> bool \<Rightarrow> receipt_request list \<Rightarrow> delivery_receipt list act" where
  "receipts_many rt batch_event qs =
     (if qs = [] then ret [] else
      bindA (audit_many rt qs) (\<lambda>audits.
      bindA (emit_many rt batch_event qs) (\<lambda>(event_status, correlations).
      bindA tick (\<lambda>ev. ret (map (\<lambda>(q, c, a). receipt_for rt q (isoformat (ev_now ev)) a event_status c)
        (zip qs (zip correlations audits)))))))"

section \<open>Checks before the write\<close>

text \<open>One rule of the destination transforms; the state is the record's values.\<close>

definition apply_destination_rule :: "runtime \<Rightarrow> mapping_rule \<Rightarrow> (string \<times> py_value) list \<Rightarrow> (string \<times> py_value) list act" where
  "apply_destination_rule rt rule values =
     bindA (lift_result (transform_stage_of (mr_transform rule))) (\<lambda>stage.
     if stage \<noteq> DESTINATION then ret values else
     raise_unless (mr_transform rule = ''lookup_foreign_key'') (IntegrityError ''unsupported destination transform'') (
     raise_unless (rt_has_resolver rt) (PolicyViolation ''destination connector cannot resolve foreign keys'') (
     case (relation_for_source_field (mr_target_field_id rule) (rt_target_schema rt), map_of (mr_parameters rule) ''match_column'') of
       (Some relation, Some column) \<Rightarrow> (case lookup_key column relation of
           None \<Rightarrow> throw (Exn (IntegrityError ''foreign-key mapping is missing match_column''))
         | Some key \<Rightarrow>
           (let v = (case map_of values (mr_target_field_id rule) of None \<Rightarrow> PNone | Some v \<Rightarrow> v) in
            if v = PNone then ret values else
            raise_unless (value_satisfies_type v (lk_data_type key))
              (PolicyViolation ''foreign-key input violates lookup-column type'') (
            bindA tick (\<lambda>ev. bindA (lift_result (ev_resolved ev)) (\<lambda>resolved.
            case resolved of
              None \<Rightarrow> throw (Exn (PolicyViolation ''non-null foreign-key lookup input did not resolve''))
            | Some v' \<Rightarrow> ret (dict_put (mr_target_field_id rule) v' values))))))
     | _ \<Rightarrow> throw (Exn (IntegrityError ''foreign-key mapping is missing match_column'')))))"

fun apply_rules :: "runtime \<Rightarrow> mapping_rule list \<Rightarrow> (string \<times> py_value) list \<Rightarrow> (string \<times> py_value) list act" where
  "apply_rules rt [] values = ret values"
| "apply_rules rt (rule # rules) values = bindA (apply_destination_rule rt rule values) (apply_rules rt rules)"

definition apply_destination_transforms :: "runtime \<Rightarrow> (string \<times> py_value) list \<Rightarrow> (string \<times> py_value) list act" where
  "apply_destination_transforms rt values = apply_rules rt (mp_rules (rt_plan rt)) values"

definition record_uses_runtime_plan :: "runtime \<Rightarrow> transport_record \<Rightarrow> bool" where
  "record_uses_runtime_plan rt r = (plan_id r = mp_id (rt_plan rt) \<and> plan_digest r = rt_plan_digest rt)"

definition payload_has_exact_mapped_fields :: "runtime \<Rightarrow> (string \<times> py_value) list \<Rightarrow> bool" where
  "payload_has_exact_mapped_fields rt values = (set (map fst values) = set (map fd_id (rt_mapped_target_fields rt)))"

definition field_satisfied :: "(string \<times> py_value) list \<Rightarrow> field_descriptor \<Rightarrow> bool" where
  "field_satisfied values target = (case map_of values (fd_id target) of
     None \<Rightarrow> False
   | Some v \<Rightarrow> if v = PNone then fd_nullable target else value_satisfies_type v (fd_data_type target))"

definition payload_satisfies_target_contract :: "runtime \<Rightarrow> (string \<times> py_value) list \<Rightarrow> bool" where
  "payload_satisfies_target_contract rt values =
     (payload_has_exact_mapped_fields rt values \<and> list_all (field_satisfied values) (rt_mapped_target_fields rt))"

definition spool_quarantine :: "runtime \<Rightarrow> transport_record \<Rightarrow> string \<Rightarrow> spool_entry act" where
  "spool_quarantine rt r reason = on_spool (\<lambda>ev sp. quarantine (rt_spool rt) r reason (ev_now ev) sp)"

definition spool_quarantine_many :: "runtime \<Rightarrow> transport_record list \<Rightarrow> string \<Rightarrow> spool_entry list act" where
  "spool_quarantine_many rt rs reason = on_spool (\<lambda>ev sp. quarantine_many (rt_spool rt) rs reason (ev_now ev) sp)"

text \<open>\<open>spool.remove\<close> with its exceptions caught: whether the cleanup failed.\<close>

definition cleanup :: "string list \<Rightarrow> bool act" where
  "cleanup ds = tryA (on_spool (\<lambda>ev sp. remove_many ds sp)) (\<lambda>_. ret False) (on is_exception (ret True))"

definition cleanup_reason :: "bool \<Rightarrow> string option" where
  "cleanup_reason failed = (if failed then Some ''sealed_spool_cleanup_failed'' else None)"

definition quarantine_before_write :: "runtime \<Rightarrow> transport_record \<Rightarrow> string \<Rightarrow> string \<Rightarrow> string \<Rightarrow> delivery_state \<Rightarrow> string option \<Rightarrow>
    bool option \<Rightarrow> delivery_receipt act" where
  "quarantine_before_write rt r reason token event_type expected attempt retry =
     bindA (spool_quarantine rt r reason) (\<lambda>_.
     tryA (on_ledger (\<lambda>ev db. no_result (mark_quarantined r reason token expected (ev_clock ev) db)))
       (\<lambda>_. receipt rt (request r QUARANTINED_STATUS (Some reason) retry event_type attempt))
       (on is_integrity (
          bindA (tryA (on_ledger (reads (ledger_get r))) ret (on is_exception (ret None))) (\<lambda>current.
          case current of
            Some entry \<Rightarrow>
              if le_state entry = COMMITTED then
                bindA (cleanup [digest r]) (\<lambda>failed.
                receipt rt (request r DUPLICATE (cleanup_reason failed) (Some False) event_type (le_batch_attempt_id entry)))
              else receipt rt (request r AMBIGUOUS_STATUS (Some ''delivery_claim_lost'') (Some False) event_type attempt)
          | None \<Rightarrow> receipt rt (request r AMBIGUOUS_STATUS (Some ''delivery_claim_lost'') (Some False) event_type attempt)))))"

definition context_for :: "transport_record \<Rightarrow> delivery_context" where
  "context_for r = \<lparr>dc_transfer_id = transfer_id r, dc_record_id = btr_record_id r, dc_record_digest = digest r,
     dc_idempotency_key = idempotency_key r\<rparr>"

text \<open>\<open>self.connector.capabilities != authorized_capabilities\<close>, where a failure to read them counts as a change.\<close>

definition capability_changed :: "connector_capabilities \<Rightarrow> bool act" where
  "capability_changed authorized = tryA read_capabilities (\<lambda>caps. ret (caps \<noteq> authorized)) (on is_exception (ret True))"

section \<open>One record\<close>

text \<open>The parameters of \<open>_deliver_claimed\<close> that its branches share.\<close>

record attempt =
  at_record :: transport_record
  at_token :: string
  at_event_type :: string
  at_replay :: bool
  at_batch :: "string option"
  at_history :: "string option"
  at_capabilities :: connector_capabilities

definition claimed_state :: "attempt \<Rightarrow> delivery_state" where
  "claimed_state a = (if at_replay a then REPLAY_CLAIMED else CLAIMED)"

definition write_started_state :: "attempt \<Rightarrow> delivery_state" where
  "write_started_state a = (if at_replay a then REPLAY_WRITE_STARTED else WRITE_STARTED)"

definition at_contract :: "attempt \<Rightarrow> string option" where
  "at_contract a = scalar_idempotency_contract_id (at_capabilities a)"

definition write_retry_safe :: "attempt \<Rightarrow> bool" where
  "write_retry_safe a =
     (if at_replay a then at_history a \<noteq> None \<and> at_history a = at_contract a
        \<and> (at_batch a = None \<or> batch_idempotency_contract_id (at_capabilities a) \<noteq> None)
      else at_contract a \<noteq> None)"

definition attempt_receipt :: "runtime \<Rightarrow> attempt \<Rightarrow> delivery_status \<Rightarrow> string option \<Rightarrow> bool option \<Rightarrow> delivery_receipt act" where
  "attempt_receipt rt a status reason retry = receipt rt (request (at_record a) status reason retry (at_event_type a) (at_batch a))"

definition attempt_quarantine :: "runtime \<Rightarrow> attempt \<Rightarrow> string \<Rightarrow> bool \<Rightarrow> delivery_receipt act" where
  "attempt_quarantine rt a reason retry =
     quarantine_before_write rt (at_record a) reason (at_token a) (at_event_type a) (claimed_state a) (at_batch a) (Some retry)"

text \<open>The fenced transition that is the write boundary.\<close>

definition start_attempt :: "attempt \<Rightarrow> unit act" where
  "start_attempt a = on_ledger (\<lambda>ev db. no_result (
     if at_replay a then start_replay_write (at_record a) (at_token a) (ev_clock ev) db
     else start_write (at_record a) (at_token a) (at_contract a) (ev_clock ev) db))"

text \<open>A write the connector proves not to have happened, and one of unknown outcome.\<close>

definition settle_not_committed :: "runtime \<Rightarrow> attempt \<Rightarrow> delivery_receipt act" where
  "settle_not_committed rt a =
     bindA (spool_quarantine rt (at_record a) ''write_not_committed'') (\<lambda>_.
     bindA (on_ledger (\<lambda>ev db. no_result (mark_quarantined (at_record a) ''write_not_committed'' (at_token a)
       (write_started_state a) (ev_clock ev) db))) (\<lambda>_.
     attempt_receipt rt a QUARANTINED_STATUS (Some ''write_not_committed'')
       (Some (if at_replay a then write_retry_safe a else True))))"

definition settle_unknown :: "runtime \<Rightarrow> attempt \<Rightarrow> delivery_receipt act" where
  "settle_unknown rt a =
     bindA (spool_quarantine rt (at_record a) ''write_outcome_unknown'') (\<lambda>_.
     bindA (on_ledger (\<lambda>ev db. no_result (
       if at_replay a then mark_replay_uncertain (at_record a) ''write_outcome_unknown'' (at_token a) (ev_clock ev) db
       else mark_uncertain (at_record a) ''write_outcome_unknown'' (at_token a) (ev_clock ev) db))) (\<lambda>_.
     attempt_receipt rt a QUARANTINED_STATUS (Some ''write_outcome_unknown'') (Some (write_retry_safe a))))"

definition settle_committed :: "runtime \<Rightarrow> attempt \<Rightarrow> delivery_receipt act" where
  "settle_committed rt a =
     tryA (on_ledger (\<lambda>ev db. no_result (
         if at_replay a then mark_replay_committed (at_record a) (at_token a) (ev_clock ev) db
         else mark_committed (at_record a) (at_token a) (ev_clock ev) db)))
       (\<lambda>_. bindA (cleanup [digest (at_record a)]) (\<lambda>failed.
          attempt_receipt rt a DELIVERED (cleanup_reason failed) (if failed then Some False else None)))
       (on is_exception (
          bindA (spool_quarantine rt (at_record a) ''delivery_outcome_record_failed'') (\<lambda>_.
          attempt_receipt rt a AMBIGUOUS_STATUS (Some ''delivery_outcome_record_failed'') (Some (write_retry_safe a)))))"

definition write_claimed :: "runtime \<Rightarrow> attempt \<Rightarrow> (string \<times> py_value) list \<Rightarrow> delivery_receipt act" where
  "write_claimed rt a values =
     tryA (start_attempt a)
       (\<lambda>_. bindA (write_call [at_record a] [\<lparr>bw_values = values, bw_context = context_for (at_record a),
              bw_wire_bytes = int (length (canonical_wire_bytes (at_record a)))\<rparr>] (at_contract a)) (\<lambda>response.
          case response of
            Acknowledged n \<Rightarrow> if n = Some 1 then settle_committed rt a else settle_unknown rt a
          | WriteError NOT_COMMITTED \<Rightarrow> settle_not_committed rt a
          | _ \<Rightarrow> settle_unknown rt a))
       (on is_integrity (attempt_receipt rt a AMBIGUOUS_STATUS (Some ''delivery_claim_lost'') (Some False)))"

definition check_and_write :: "runtime \<Rightarrow> attempt \<Rightarrow> (string \<times> py_value) list \<Rightarrow> delivery_receipt act" where
  "check_and_write rt a values =
     (if \<not> payload_satisfies_target_contract rt values
      then attempt_quarantine rt a ''destination_contract_failed'' (write_retry_safe a)
      else bindA (capability_changed (at_capabilities a)) (\<lambda>changed.
        if changed
        then attempt_quarantine rt a
          (if at_replay a then ''replay_capability_changed'' else ''destination_capability_changed'') (\<not> at_replay a)
        else write_claimed rt a values))"

text \<open>\<open>_deliver_claimed\<close>; \<open>key\<close> is the private key when the caller has authorized the record already.\<close>

definition deliver_claimed :: "runtime \<Rightarrow> attempt \<Rightarrow> bytes option \<Rightarrow> delivery_receipt act" where
  "deliver_claimed rt a key =
     tryA (case key of
         None \<Rightarrow> open_record (rt_primitives rt) (rt_agent rt) (at_record a)
       | Some k \<Rightarrow> open_authorized_record (rt_primitives rt) (at_record a) k)
       (\<lambda>values.
          if \<not> record_uses_runtime_plan rt (at_record a) \<or> \<not> payload_has_exact_mapped_fields rt values
          then attempt_quarantine rt a ''destination_contract_failed'' (write_retry_safe a)
          else tryA (apply_destination_transforms rt values) (check_and_write rt a)
            (on is_exception (attempt_quarantine rt a ''destination_resolution_failed'' (write_retry_safe a))))
       (on is_exception (attempt_quarantine rt a ''transport_verification_failed'' (write_retry_safe a)))"

definition ambiguous_reason :: "delivery_state \<Rightarrow> string" where
  "ambiguous_reason state =
     (if state \<in> {WRITE_STARTED, BATCH_WRITE_STARTED, REPLAY_WRITE_STARTED}
      then ''previous_write_started_ambiguous'' else ''previous_delivery_ambiguous'')"

text \<open>What a claim leads to: a receipt at once, or the token to proceed with.\<close>

definition dispose :: "runtime \<Rightarrow> transport_record \<Rightarrow> string \<Rightarrow> claim_result \<Rightarrow> (delivery_receipt + string) act" where
  "dispose rt r unfenced c =
     (case cr_disposition c of
        ALREADY_COMMITTED \<Rightarrow> bindA (receipt rt (request r DUPLICATE None None ''delivery'' (cr_batch_attempt_id c))) (\<lambda>x. ret (Inl x))
      | IN_PROGRESS \<Rightarrow> bindA (receipt rt (request r AMBIGUOUS_STATUS (Some ''delivery_claim_in_progress'') (Some False)
          ''delivery'' (cr_batch_attempt_id c))) (\<lambda>x. ret (Inl x))
      | AMBIGUOUS \<Rightarrow>
          bindA (spool_quarantine rt r (ambiguous_reason (cr_state c))) (\<lambda>_.
          bindA (receipt rt (request r AMBIGUOUS_STATUS (Some (ambiguous_reason (cr_state c))) (Some False)
            ''delivery'' (cr_batch_attempt_id c))) (\<lambda>x. ret (Inl x)))
      | _ \<Rightarrow> (case cr_claim_token c of
          None \<Rightarrow> throw (Exn (IntegrityError unfenced)) | Some token \<Rightarrow> ret (Inr token)))"

definition deliver_with_capabilities :: "runtime \<Rightarrow> connector_capabilities \<Rightarrow> transport_record \<Rightarrow> delivery_receipt act" where
  "deliver_with_capabilities rt caps r =
     raise_unless (cc_write_records caps) (PolicyViolation ''destination connector no longer advertises write capability'') (
     bindA (authorize_record (rt_primitives rt) (rt_agent rt) r) (\<lambda>key.
     bindA (authorize_capability rt WRITE_RECORDS r) (\<lambda>_.
     bindA (on_ledger (\<lambda>ev db. claim r (rt_claim_lease rt) (ev_clock ev) (ev_token ev 0) db)) (\<lambda>c.
     bindA (dispose rt r ''delivery ledger issued an unfenced claim'' c) (\<lambda>d. case d of
       Inl x \<Rightarrow> ret x
     | Inr token \<Rightarrow> deliver_claimed rt \<lparr>at_record = r, at_token = token, at_event_type = ''delivery'', at_replay = False,
         at_batch = None, at_history = None, at_capabilities = caps\<rparr> (Some key))))))"

definition deliver :: "runtime \<Rightarrow> transport_record \<Rightarrow> delivery_receipt act" where
  "deliver rt r = bindA read_capabilities (\<lambda>caps. deliver_with_capabilities rt caps r)"

section \<open>Atomic batches\<close>

text \<open>
  A batch works on positions: \<open>receipts\<close> has one place per record, and \<open>prepared\<close> holds the position, record, token
  and item of every record that is ready to be written.
\<close>

type_synonym prepared = "nat \<times> transport_record \<times> string \<times> batch_write_item"

text \<open>
  One record of the preparation loop: its receipt when it is quarantined, or its item.
\<close>

definition prepare_claimed :: "runtime \<Rightarrow> transport_record \<Rightarrow> string \<Rightarrow> bytes \<Rightarrow> (delivery_receipt + batch_write_item) act" where
  "prepare_claimed rt r token key =
     (let reject = (\<lambda>reason. bindA (quarantine_before_write rt r reason token ''delivery'' CLAIMED None None) (\<lambda>x. ret (Inl x))) in
      tryA (open_authorized_record (rt_primitives rt) r key)
        (\<lambda>values.
           if \<not> record_uses_runtime_plan rt r \<or> \<not> payload_has_exact_mapped_fields rt values
           then reject ''destination_contract_failed''
           else tryA (apply_destination_transforms rt values)
             (\<lambda>values'.
                if \<not> payload_satisfies_target_contract rt values' then reject ''destination_contract_failed''
                else ret (Inr \<lparr>bw_values = values', bw_context = context_for r,
                       bw_wire_bytes = int (length (canonical_wire_bytes r))\<rparr>))
             (on is_exception (reject ''destination_resolution_failed'')))
        (on is_exception (reject ''transport_verification_failed'')))"

text \<open>A loop that fills places of the receipts and stops at the first exception, which it keeps.\<close>

type_synonym progress = "delivery_receipt option list \<times> prepared list \<times> exn option"

fun prepare_batch :: "runtime \<Rightarrow> (nat \<times> transport_record \<times> string \<times> bytes) list \<Rightarrow> delivery_receipt option list \<Rightarrow>
    prepared list \<Rightarrow> progress act" where
  "prepare_batch rt [] receipts ready = ret (receipts, ready, None)"
| "prepare_batch rt ((i, r, token, key) # claimed) receipts ready =
     bindA (attemptA (prepare_claimed rt r token key)) (\<lambda>res. case res of
       Inl e \<Rightarrow> ret (receipts, ready, Some e)
     | Inr (Inl x) \<Rightarrow> prepare_batch rt claimed (receipts[i := Some x]) ready
     | Inr (Inr bw) \<Rightarrow> prepare_batch rt claimed receipts (ready @ [(i, r, token, bw)]))"

fun quarantine_changed :: "runtime \<Rightarrow> prepared list \<Rightarrow> delivery_receipt option list \<Rightarrow>
    (delivery_receipt option list \<times> exn option) act" where
  "quarantine_changed rt [] receipts = ret (receipts, None)"
| "quarantine_changed rt ((i, r, token, _) # ready) receipts =
     bindA (attemptA (quarantine_before_write rt r ''atomic_batch_capability_changed'' token ''delivery'' CLAIMED None (Some True)))
       (\<lambda>res. case res of
          Inl e \<Rightarrow> ret (receipts, Some e)
        | Inr x \<Rightarrow> quarantine_changed rt ready (receipts[i := Some x]))"

fun claim_lost :: "runtime \<Rightarrow> prepared list \<Rightarrow> delivery_receipt option list \<Rightarrow> (delivery_receipt option list \<times> exn option) act" where
  "claim_lost rt [] receipts = ret (receipts, None)"
| "claim_lost rt ((i, r, _, _) # ready) receipts =
     bindA (attemptA (receipt rt (request r AMBIGUOUS_STATUS (Some ''delivery_claim_lost'') (Some False) ''delivery'' None)))
       (\<lambda>res. case res of
          Inl e \<Rightarrow> ret (receipts, Some e)
        | Inr x \<Rightarrow> claim_lost rt ready (receipts[i := Some x]))"

definition place :: "prepared list \<Rightarrow> delivery_receipt list \<Rightarrow> delivery_receipt option list \<Rightarrow> delivery_receipt option list" where
  "place ready xs receipts = foldl (\<lambda>rs (i, x). rs[i := Some x]) receipts (zip (map fst ready) xs)"

definition prepared_record :: "prepared \<Rightarrow> transport_record" where
  "prepared_record p = fst (snd p)"

definition transitions :: "prepared list \<Rightarrow> (transport_record \<times> string) list" where
  "transitions ready = map (\<lambda>(_, r, token, _). (r, token)) ready"

definition batch_requests :: "prepared list \<Rightarrow> delivery_status \<Rightarrow> string option \<Rightarrow> bool option \<Rightarrow> string \<Rightarrow> receipt_request list" where
  "batch_requests ready status reason retry attempt =
     map (\<lambda>p. request (prepared_record p) status reason retry ''delivery'' (Some attempt)) ready"

text \<open>The outcome of \<open>write_batch\<close>: \<open>None\<close> when the whole batch is acknowledged.\<close>

definition batch_outcome :: "nat \<Rightarrow> write_response \<Rightarrow> write_outcome option" where
  "batch_outcome n response = (case response of
     Acknowledged m \<Rightarrow> if m = Some (int n) then None else Some UNKNOWN
   | WriteError outcome \<Rightarrow> Some outcome
   | _ \<Rightarrow> Some UNKNOWN)"

definition settle_batch :: "runtime \<Rightarrow> connector_capabilities \<Rightarrow> prepared list \<Rightarrow> string \<Rightarrow> write_outcome option \<Rightarrow> delivery_receipt list act" where
  "settle_batch rt caps ready attempt outcome =
     (let rs = map prepared_record ready; ts = transitions ready in
      case outcome of
        Some NOT_COMMITTED \<Rightarrow>
          bindA (spool_quarantine_many rt rs ''write_not_committed'') (\<lambda>_.
          bindA (on_ledger (\<lambda>ev db. no_result (mark_quarantined_many ts ''write_not_committed'' BATCH_WRITE_STARTED (ev_clock ev) db))) (\<lambda>_.
          receipts_many rt True (batch_requests ready QUARANTINED_STATUS (Some ''write_not_committed'') (Some True) attempt)))
      | Some _ \<Rightarrow>
          bindA (spool_quarantine_many rt rs ''atomic_batch_write_outcome_unknown'') (\<lambda>_.
          bindA (on_ledger (\<lambda>ev db. no_result (mark_uncertain_many ts ''atomic_batch_write_outcome_unknown'' (ev_clock ev) db))) (\<lambda>_.
          receipts_many rt True (batch_requests ready QUARANTINED_STATUS (Some ''atomic_batch_write_outcome_unknown'')
            (Some (batch_idempotency_contract_id caps \<noteq> None)) attempt)))
      | None \<Rightarrow>
          tryA (on_ledger (\<lambda>ev db. no_result (mark_committed_many ts (ev_clock ev) db)))
            (\<lambda>_. bindA (cleanup (map digest rs)) (\<lambda>failed.
               receipts_many rt True (batch_requests ready DELIVERED (cleanup_reason failed) (if failed then Some False else None) attempt)))
            (on is_exception (
               bindA (tryA (spool_quarantine_many rt rs ''delivery_outcome_record_failed'') (\<lambda>_. ret ()) (on is_exception (ret ()))) (\<lambda>_.
               receipts_many rt True (batch_requests ready AMBIGUOUS_STATUS (Some ''delivery_outcome_record_failed'') (Some False) attempt)))))"

definition write_batch :: "runtime \<Rightarrow> connector_capabilities \<Rightarrow> prepared list \<Rightarrow> string \<Rightarrow> delivery_receipt list act" where
  "write_batch rt caps ready attempt =
     bindA (write_call (map prepared_record ready) (map (\<lambda>(_, _, _, bw). bw) ready) (batch_idempotency_contract_id caps)) (\<lambda>response.
     settle_batch rt caps ready attempt (batch_outcome (length ready) response))"

text \<open>Exceptions become values, so that the receipts placed so far are kept.\<close>

definition execute_atomic_batch :: "runtime \<Rightarrow> connector_capabilities \<Rightarrow> prepared list \<Rightarrow> delivery_receipt option list \<Rightarrow>
    (delivery_receipt option list \<times> exn option) act" where
  "execute_atomic_batch rt caps ready receipts =
     (if ready = [] then ret (receipts, None) else
      bindA (attemptA (capability_changed caps)) (\<lambda>changed. case changed of
        Inl e \<Rightarrow> ret (receipts, Some e)
      | Inr True \<Rightarrow> quarantine_changed rt ready receipts
      | Inr False \<Rightarrow>
          bindA (attemptA (on_ledger (\<lambda>ev db. start_write_many (transitions ready) (batch_idempotency_contract_id caps)
            (ev_attempt ev) (ev_clock ev) db))) (\<lambda>started. case started of
            Inl e \<Rightarrow> if is_integrity e then claim_lost rt ready receipts else ret (receipts, Some e)
          | Inr attempt \<Rightarrow>
              bindA (attemptA (write_batch rt caps ready attempt)) (\<lambda>res. case res of
                Inl e \<Rightarrow> ret (receipts, Some e)
              | Inr xs \<Rightarrow> ret (place ready xs receipts, None)))))"

definition completed :: "delivery_receipt option list \<Rightarrow> delivery_receipt list" where
  "completed receipts = map the (filter (\<lambda>x. x \<noteq> None) receipts)"

text \<open>The end of \<open>_deliver_atomic_batch\<close>: every place filled, or the exception with the receipts completed so far.\<close>

definition finish_batch :: "delivery_receipt option list \<Rightarrow> exn option \<Rightarrow> delivery_receipt list act" where
  "finish_batch receipts failure =
     (let failure' = (case failure of
            Some e \<Rightarrow> Some e
          | None \<Rightarrow> if None \<in> set receipts
              then Some (Exn (IntegrityError ''delivery batch did not produce one receipt per record'')) else None)
      in case failure' of
           None \<Rightarrow> ret (completed receipts)
         | Some (DeliveryBatchInterrupted xs) \<Rightarrow> throw (DeliveryBatchInterrupted xs)
         | Some e \<Rightarrow> if is_exception e \<and> completed receipts \<noteq> [] then throw (DeliveryBatchInterrupted (completed receipts))
             else throw e)"

definition dispose_batch :: "runtime \<Rightarrow> (transport_record \<times> claim_result) list \<Rightarrow> (delivery_receipt + string) list act" where
  "dispose_batch rt claims = mapA (\<lambda>(r, c). dispose rt r ''delivery ledger issued an unfenced batch claim'' c) claims"

definition claimed_of :: "transport_record list \<Rightarrow> bytes list \<Rightarrow> (delivery_receipt + string) list \<Rightarrow>
    (nat \<times> transport_record \<times> string \<times> bytes) list" where
  "claimed_of rs keys ds = concat (map (\<lambda>(i, r, k, d). case d of Inl _ \<Rightarrow> [] | Inr token \<Rightarrow> [(i, r, token, k)])
     (zip [0..<length rs] (zip rs (zip keys ds))))"

definition deliver_atomic_batch :: "runtime \<Rightarrow> connector_capabilities \<Rightarrow> transport_record list \<Rightarrow> delivery_receipt list act" where
  "deliver_atomic_batch rt caps rs =
     bindA (mapA (authorize_record (rt_primitives rt) (rt_agent rt)) rs) (\<lambda>keys.
     bindA (mapA (authorize_capability rt WRITE_RECORDS) rs) (\<lambda>_.
     bindA (on_ledger (\<lambda>ev db. claim_many rs (rt_claim_lease rt) (ev_clock ev) (ev_token ev) db)) (\<lambda>claims.
     bindA (dispose_batch rt (zip rs claims)) (\<lambda>ds.
     bindA (prepare_batch rt (claimed_of rs keys ds) (map (\<lambda>d. case d of Inl x \<Rightarrow> Some x | Inr _ \<Rightarrow> None) ds) [])
       (\<lambda>(receipts, ready, failure). case failure of
          Some e \<Rightarrow> finish_batch receipts (Some e)
        | None \<Rightarrow> bindA (execute_atomic_batch rt caps ready receipts) (\<lambda>(receipts', failure'). finish_batch receipts' failure'))))))"

section \<open>Batches of any size\<close>

definition MAX_EVENT_BATCH_EVENTS :: nat where "MAX_EVENT_BATCH_EVENTS = 10000"

text \<open>The intake loop; \<open>size_so_far\<close> counts wire bytes.\<close>

fun admit :: "runtime \<Rightarrow> nat \<Rightarrow> int \<Rightarrow> transport_record list \<Rightarrow> unit result" where
  "admit rt n size_so_far [] = Inr ()"
| "admit rt n size_so_far (r # rs) =
     raise_if (10000 \<le> n) (ValueError ''delivery batch exceeds the record count limit'') (
     let size' = size_so_far + int (length (canonical_wire_bytes r)) in
     raise_if (sc_max_batch_wire_bytes (rt_spool rt) < size') (ValueError ''delivery batch exceeds the runtime wire byte limit'') (
     admit rt (Suc n) size' rs))"

definition record_scope :: "transport_record \<Rightarrow> string \<times> string \<times> string \<times> string" where
  "record_scope r = (tenant r, destination_connector r, transfer_id r, plan_digest r)"

text \<open>
  The splitting loop. \<open>cur\<close> is the open chunk, from which its byte count, identities and scope are read off; the
  source keeps them in variables.
\<close>

definition would_overflow :: "int \<Rightarrow> int \<Rightarrow> transport_record list \<Rightarrow> transport_record \<Rightarrow> bool" where
  "would_overflow max_records max_bytes cur r =
     (cur \<noteq> [] \<and> (max_records \<le> int (length cur)
        \<or> max_bytes < wire_total cur + int (length (canonical_wire_bytes r))
        \<or> record_scope r \<noteq> record_scope (hd cur) \<or> ledger_key r \<in> set (map ledger_key cur)))"

fun split_batch :: "int \<Rightarrow> int \<Rightarrow> transport_record list list \<Rightarrow> transport_record list \<Rightarrow> transport_record list \<Rightarrow>
    transport_record list list" where
  "split_batch max_records max_bytes done cur [] = (if cur = [] then done else done @ [cur])"
| "split_batch max_records max_bytes done cur (r # rs) =
     (let full = would_overflow max_records max_bytes cur r;
          done1 = (if full then done @ [cur] else done); cur1 = (if full then [] else cur)
      in if max_bytes < int (length (canonical_wire_bytes r))
         then split_batch max_records max_bytes ((if cur1 = [] then done1 else done1 @ [cur1]) @ [[r]]) [] rs
         else split_batch max_records max_bytes done1 (cur1 @ [r]) rs)"

definition maximum_chunk_records :: "runtime \<Rightarrow> atomic_batch_capabilities \<Rightarrow> int" where
  "maximum_chunk_records rt b = min (ab_max_records b) (min (int MAX_LEDGER_BATCH_ITEMS) (min (int MAX_SPOOL_BATCH_ITEMS)
     (if rt_events rt \<noteq> None then int MAX_EVENT_BATCH_EVENTS - 1 else int MAX_EVENT_BATCH_EVENTS)))"

definition maximum_chunk_wire_bytes :: "runtime \<Rightarrow> atomic_batch_capabilities \<Rightarrow> int" where
  "maximum_chunk_wire_bytes rt b = min (ab_max_wire_bytes b) (sc_max_batch_wire_bytes (rt_spool rt))"

fun deliver_scalars :: "runtime \<Rightarrow> connector_capabilities \<Rightarrow> delivery_receipt list \<Rightarrow> transport_record list \<Rightarrow> delivery_receipt list act" where
  "deliver_scalars rt caps done [] = ret done"
| "deliver_scalars rt caps done (r # rs) =
     tryA (deliver_with_capabilities rt caps r) (\<lambda>x. deliver_scalars rt caps (done @ [x]) rs)
       (\<lambda>e. if is_exception e \<and> done \<noteq> [] then throw (DeliveryBatchInterrupted done) else throw e)"

definition deliver_chunk :: "runtime \<Rightarrow> connector_capabilities \<Rightarrow> transport_record list \<Rightarrow> delivery_receipt list act" where
  "deliver_chunk rt caps chunk =
     (if length chunk = 1 then bindA (deliver_with_capabilities rt caps (hd chunk)) (\<lambda>x. ret [x])
      else deliver_atomic_batch rt caps chunk)"

fun deliver_chunks :: "runtime \<Rightarrow> connector_capabilities \<Rightarrow> delivery_receipt list \<Rightarrow> transport_record list list \<Rightarrow> delivery_receipt list act" where
  "deliver_chunks rt caps done [] = ret done"
| "deliver_chunks rt caps done (c # cs) =
     tryA (deliver_chunk rt caps c) (\<lambda>xs. deliver_chunks rt caps (done @ xs) cs)
       (\<lambda>e. case e of
          DeliveryBatchInterrupted xs \<Rightarrow>
            if done @ xs \<noteq> [] then throw (DeliveryBatchInterrupted (done @ xs)) else throw e
        | _ \<Rightarrow> if is_exception e \<and> done \<noteq> [] then throw (DeliveryBatchInterrupted done) else throw e)"

definition deliver_many :: "runtime \<Rightarrow> transport_record list \<Rightarrow> delivery_receipt list act" where
  "deliver_many rt rs =
     bindA read_capabilities (\<lambda>caps.
     raise_unless (cc_write_records caps) (PolicyViolation ''destination connector no longer advertises write capability'') (
     bindA (lift_result (admit rt 0 0 rs)) (\<lambda>_.
     if rs = [] then ret [] else
     case cc_atomic_batch_write caps of
       Some b \<Rightarrow>
         if rt_has_write_batch rt
         then deliver_chunks rt caps [] (split_batch (maximum_chunk_records rt b) (maximum_chunk_wire_bytes rt b) [] [] rs)
         else deliver_scalars rt caps [] rs
     | None \<Rightarrow> deliver_scalars rt caps [] rs)))"

section \<open>Replay\<close>

definition ambiguous_write_states :: "delivery_state set" where
  "ambiguous_write_states = {UNCERTAIN, WRITE_STARTED, BATCH_UNCERTAIN, BATCH_WRITE_STARTED}"

definition guarded_replay_states :: "delivery_state set" where
  "guarded_replay_states = {REPLAY_CLAIMED, REPLAY_WRITE_STARTED, REPLAY_UNCERTAIN, REPLAY_QUARANTINED}"

text \<open>Whether the history of an entry lets its write be repeated without force.\<close>

definition replay_is_idempotent :: "connector_capabilities \<Rightarrow> ledger_entry \<Rightarrow> bool" where
  "replay_is_idempotent caps entry =
     (le_contract_id entry \<noteq> None \<and> le_contract_id entry = scalar_idempotency_contract_id caps
      \<and> (\<not> (le_state entry \<in> {BATCH_UNCERTAIN, BATCH_WRITE_STARTED} \<or> le_batch_attempt_id entry \<noteq> None)
          \<or> batch_idempotency_contract_id caps \<noteq> None))"

definition replay :: "runtime \<Rightarrow> string \<Rightarrow> bool \<Rightarrow> delivery_receipt act" where
  "replay rt record_digest force_uncertain =
     bindA read_capabilities (\<lambda>caps.
     raise_unless (cc_write_records caps) (PolicyViolation ''destination connector no longer advertises write capability'') (
     bindA (on_spool (reads (spool_get (rt_spool rt) record_digest))) (\<lambda>found. case found of
       None \<Rightarrow> throw (Exn (KeyError ''sealed quarantine record does not exist''))
     | Some r \<Rightarrow>
       bindA (authorize_capability rt REPLAY r) (\<lambda>_.
       bindA (on_ledger (reads (ledger_get r))) (\<lambda>held. case held of
         None \<Rightarrow> throw (Exn (IntegrityError ''quarantine record has no delivery ledger entry''))
       | Some entry \<Rightarrow>
         (let requires_force = (force_uncertain \<and> le_state entry \<in> ambiguous_write_states \<union> guarded_replay_states \<union> {CLAIMED});
              event_type = (if requires_force then ''force_replay'' else ''replay'')
          in if le_state entry = COMMITTED then
               bindA (cleanup [record_digest]) (\<lambda>failed.
               receipt rt (request r DUPLICATE (cleanup_reason failed) (Some False) event_type (le_batch_attempt_id entry)))
             else
               raise_unless (\<not> (le_state entry \<in> ambiguous_write_states \<union> guarded_replay_states
                   \<and> \<not> replay_is_idempotent caps entry \<and> \<not> force_uncertain))
                 (PolicyViolation ''uncertain write cannot be replayed without destination idempotency'') (
               raise_unless (\<not> (le_state entry = CLAIMED \<and> \<not> force_uncertain))
                 (PolicyViolation ''ambiguous claimed delivery requires explicit recovery'') (
               bindA (if requires_force then
                        raise_unless (rt_authorizer rt \<noteq> None)
                          (PolicyViolation ''forced uncertain replay requires an explicit capability authorizer'')
                          (authorize_capability rt FORCE_UNCERTAIN_REPLAY r)
                      else ret ()) (\<lambda>_.
               bindA (on_ledger (\<lambda>ev db. rearm_for_retry r (le_state entry) (rt_claim_lease rt) (ev_clock ev) (ev_token ev 0) db)) (\<lambda>c.
               case cr_claim_token c of
                 None \<Rightarrow> throw (Exn (IntegrityError ''delivery ledger issued an unfenced retry claim''))
               | Some token \<Rightarrow> deliver_claimed rt \<lparr>at_record = r, at_token = token, at_event_type = event_type,
                   at_replay = (cr_state c = REPLAY_CLAIMED), at_batch = cr_batch_attempt_id c,
                   at_history = le_contract_id entry, at_capabilities = caps\<rparr> None))))))))))"

end
