(* ===== verification/RuntimeSafety.thy ===== *)
theory RuntimeSafety
  imports Runtime
begin

text \<open>
  What the runtime guarantees about the destination: whatever crashes, failing transactions, expired claims,
  connector answers and replays happen, all writes of one transfer identity that may have committed were issued
  under one idempotency contract, and without such a contract there is at most one.
\<close>

section \<open>Actions that leave ledger, destination and tape alone\<close>

definition calm :: "'a act \<Rightarrow> bool" where
  "calm m = (\<forall>w. w_ledger (snd (m w)) = w_ledger w \<and> w_writes (snd (m w)) = w_writes w \<and> w_tape (snd (m w)) = w_tape w)"

named_theorems calm_intros \<open>actions without effect on the ledger, the destination and the tape\<close>

lemma calm_keeps:
  assumes "calm m" "\<And>w w' :: world. w_ledger w' = w_ledger w \<Longrightarrow> w_writes w' = w_writes w \<Longrightarrow> I w \<Longrightarrow> I w'"
  shows "triple I m (\<lambda>_. I) (\<lambda>_. I)"
proof (rule tripleI)
  fix w assume "I w"
  then have "I (snd (m w))" using assms(2) [of "snd (m w)" w] assms(1) by (simp add: calm_def)
  then show "case m w of (Inl e, w') \<Rightarrow> I w' | (Inr x, w') \<Rightarrow> I w'" by (cases "m w"; cases "fst (m w)") auto
qed

lemma calm_keeps_tape:
  assumes "calm m"
  shows "triple (\<lambda>w. w_writes w = ws \<and> w_tape w = T) m (\<lambda>_ w. w_writes w = ws \<and> w_tape w = T) (\<lambda>_ w. w_writes w = ws \<and> w_tape w = T)"
proof (rule tripleI)
  fix w :: world assume "w_writes w = ws \<and> w_tape w = T"
  then have "w_writes (snd (m w)) = ws \<and> w_tape (snd (m w)) = T" using assms by (simp add: calm_def)
  then show "case m w of (Inl e, w') \<Rightarrow> w_writes w' = ws \<and> w_tape w' = T | (Inr x, w') \<Rightarrow> w_writes w' = ws \<and> w_tape w' = T"
    by (cases "m w"; cases "fst (m w)") auto
qed

lemma calm_ret [calm_intros]: "calm (ret x)"
  by (simp add: calm_def ret_def)

lemma calm_throw [calm_intros]: "calm (throw e)"
  by (simp add: calm_def throw_def)

lemma calm_tick [calm_intros]: "calm tick"
  by (simp add: calm_def tick_def)

lemma calm_lift [calm_intros]: "calm (lift_result r)"
  by (cases r) (simp_all add: lift_result_def calm_ret calm_throw)

lemma calm_bind [calm_intros]: "calm m \<Longrightarrow> (\<And>x. calm (f x)) \<Longrightarrow> calm (bindA m f)"
  unfolding calm_def bindA_def
  apply (rule allI)
  subgoal for w by (cases "m w"; cases "fst (m w)") (auto dest: spec [of _ w])
  done

lemma calm_try [calm_intros]: "calm m \<Longrightarrow> (\<And>x. calm (f x)) \<Longrightarrow> (\<And>e. calm (h e)) \<Longrightarrow> calm (tryA m f h)"
  unfolding calm_def tryA_def
  apply (rule allI)
  subgoal for w by (cases "m w"; cases "fst (m w)") (auto dest: spec [of _ w])
  done

lemma calm_on [calm_intros]: "calm h \<Longrightarrow> calm (on C h e)"
  by (simp add: on_def calm_throw)

lemma calm_raise_unless [calm_intros]: "calm m \<Longrightarrow> calm (raise_unless c e m)"
  by (simp add: raise_unless_def calm_throw)

lemma calm_if [calm_intros]: "calm m \<Longrightarrow> calm m' \<Longrightarrow> calm (if c then m else m')"
  by simp

lemma calm_option [calm_intros]: "calm a \<Longrightarrow> (\<And>x. calm (b x)) \<Longrightarrow> calm (case v of None \<Rightarrow> a | Some x \<Rightarrow> b x)"
  by (cases v) simp_all

lemma calm_sum [calm_intros]: "(\<And>x. calm (a x)) \<Longrightarrow> (\<And>x. calm (b x)) \<Longrightarrow> calm (case v of Inl x \<Rightarrow> a x | Inr x \<Rightarrow> b x)"
  by (cases v) simp_all

lemma calm_prod [calm_intros]: "(\<And>x y. calm (b x y)) \<Longrightarrow> calm (case v of (x, y) \<Rightarrow> b x y)"
  by (cases v) simp

lemma calm_map [calm_intros]: "(\<And>x. calm (f x)) \<Longrightarrow> calm (mapA f xs)"
  by (induction xs) (auto intro: calm_intros)

lemma calm_spool [calm_intros]: "calm (on_spool f)"
  by (auto simp: calm_def on_spool_def transact_def Let_def split: fault.splits sum.splits prod.splits)

lemma calm_reads [calm_intros]: "calm (on_ledger (reads f))"
  by (auto simp: calm_def on_ledger_def transact_def Let_def reads_def bindE_def split: fault.splits sum.splits prod.splits)

lemma calm_attempt [calm_intros]: "calm m \<Longrightarrow> calm (attemptA m)"
  by (simp add: calm_def attemptA_def case_prod_beta)

lemmas calm_definitions = read_capabilities_def authorize_record_def open_field_def open_authorized_record_def open_record_def
  authorize_capability_def append_sink_def audit_one_def emit_one_def receipt_def audit_many_def emit_many_def receipts_many_def
  spool_quarantine_def spool_quarantine_many_def cleanup_def capability_changed_def apply_destination_transforms_def
  attempt_receipt_def

lemma calm_sink [calm_intros]: "calm append_sink"
  unfolding append_sink_def by (intro calm_intros) (auto split: sink_outcome.splits intro: calm_intros)

lemma calm_capabilities [calm_intros]: "calm read_capabilities" "calm (capability_changed caps)"
  unfolding capability_changed_def read_capabilities_def by (intro calm_intros)+

lemma calm_agent [calm_intros]:
  "calm (authorize_record pr ag r)" "calm (open_authorized_record pr r k)" "calm (open_record pr ag r)"
  unfolding authorize_record_def open_authorized_record_def open_record_def open_field_def by (intro calm_intros)+

lemma calm_authorize [calm_intros]: "calm (authorize_capability rt operation r)"
  unfolding authorize_capability_def by (intro calm_intros)

lemma calm_receipt [calm_intros]: "calm (receipt rt q)"
  unfolding receipt_def audit_one_def emit_one_def by (intro calm_intros)

lemma calm_receipts [calm_intros]: "calm (receipts_many rt b qs)"
  unfolding receipts_many_def audit_many_def emit_many_def by (intro calm_intros)

lemma calm_stores [calm_intros]:
  "calm (spool_quarantine rt r reason)" "calm (spool_quarantine_many rt rs reason)" "calm (cleanup ds)"
  "calm (attempt_receipt rt a status reason' retry)"
  unfolding spool_quarantine_def spool_quarantine_many_def cleanup_def attempt_receipt_def by (intro calm_intros)+

lemma calm_rule [calm_intros]: "calm (apply_destination_rule rt rule values)"
  unfolding apply_destination_rule_def Let_def by (intro calm_intros)

lemma calm_transforms [calm_intros]: "calm (apply_destination_transforms rt values)"
proof -
  have "calm (apply_rules rt rules vs)" for rules vs
    by (induction rules arbitrary: vs) (auto intro: calm_intros)
  then show ?thesis by (simp add: apply_destination_transforms_def)
qed

lemma calm_dispose [calm_intros]: "calm (dispose rt r message c)"
  unfolding dispose_def by (cases "cr_disposition c") (auto intro!: calm_intros split: option.split)

section \<open>One contract per identity\<close>

text \<open>The writes of an identity that may have reached the destination.\<close>

definition writes_of :: "identity \<Rightarrow> write_event list \<Rightarrow> write_event list" where
  "writes_of k ws = filter (\<lambda>e. may_have_committed (we_response e) \<and> k \<in> ledger_key ` set (we_records e)) ws"

text \<open>A row that cannot be claimed or rearmed for an ordinary write any more.\<close>

definition crossed :: "delivery_row \<Rightarrow> bool" where
  "crossed x = (dl_state x \<notin> {state_value CLAIMED, state_value QUARANTINED})"

definition settled :: "write_event list \<Rightarrow> delivery_row \<Rightarrow> bool" where
  "settled ws x = (crossed x \<and> (\<forall>e \<in> set (writes_of (row_key x) ws). text_or_null (we_contract e) = dl_contract_id x)
     \<and> (length (writes_of (row_key x) ws) \<le> 1 \<or> dl_contract_id x \<noteq> Null))"

definition once :: "ledger \<Rightarrow> write_event list \<Rightarrow> bool" where
  "once db ws = (keyed row_key db \<and> (\<forall>k. writes_of k ws \<noteq> [] \<longrightarrow> (\<exists>x \<in> set db. row_key x = k \<and> settled ws x)))"

definition row_keep :: "write_event list \<Rightarrow> delivery_row \<Rightarrow> delivery_row \<Rightarrow> bool" where
  "row_keep ws x y = (row_key y = row_key x
     \<and> (writes_of (row_key x) ws = [] \<or> \<not> crossed x \<or> crossed y \<and> dl_contract_id y = dl_contract_id x))"

definition ledger_keep :: "write_event list \<Rightarrow> ledger \<Rightarrow> ledger \<Rightarrow> bool" where
  "ledger_keep ws db db' = ((keyed row_key db \<longrightarrow> keyed row_key db') \<and> (\<forall>x \<in> set db. \<exists>y \<in> set db'. row_keep ws x y))"

lemma row_keep_refl [simp]: "row_keep ws x x"
  by (simp add: row_keep_def)

lemma ledger_keep_refl [simp]: "ledger_keep ws db db"
  unfolding ledger_keep_def using row_keep_refl by blast

lemma row_keep_trans: "row_keep ws x y \<Longrightarrow> row_keep ws y z \<Longrightarrow> row_keep ws x z"
  by (auto simp: row_keep_def)

lemma ledger_keep_trans: "ledger_keep ws a b \<Longrightarrow> ledger_keep ws b c \<Longrightarrow> ledger_keep ws a c"
  unfolding ledger_keep_def by (meson row_keep_trans)

lemma once_keep:
  assumes "once db ws" "ledger_keep ws db db'"
  shows "once db' ws"
  unfolding once_def
proof (intro conjI allI impI)
  show "keyed row_key db'" using assms by (simp add: once_def ledger_keep_def)
next
  fix k assume k: "writes_of k ws \<noteq> []"
  then obtain x where x: "x \<in> set db" "row_key x = k" "settled ws x" using assms(1) unfolding once_def by blast
  then obtain y where y: "y \<in> set db'" "row_keep ws x y" using assms(2) by (auto simp: ledger_keep_def)
  have "row_key y = k" "settled ws y" using x(2,3) y(2) k by (auto simp: row_keep_def settled_def)
  with y(1) show "\<exists>x \<in> set db'. row_key x = k \<and> settled ws x" by blast
qed

lemma keep_update:
  assumes "\<And>x. x \<in> set db \<Longrightarrow> P x \<Longrightarrow> row_keep ws x (f x)"
  shows "ledger_keep ws db (update_where P f db)"
proof -
  have keys: "map row_key (update_where P f db) = map row_key db"
    using assms by (simp add: update_where_def row_keep_def)
  have "\<exists>y \<in> set (update_where P f db). row_keep ws x y" if "x \<in> set db" for x
    using that assms [OF that] row_keep_refl [of ws x] unfolding Bex_def in_update_where by (cases "P x") blast+
  with keys show ?thesis by (simp add: ledger_keep_def keyed_def)
qed

lemma keep_insert: "row_key r \<notin> row_key ` set db \<Longrightarrow> ledger_keep ws db (db @ [r])"
  unfolding ledger_keep_def using keyed_insert [of row_key db r] by (metis in_set_conv_decomp row_keep_refl append_assoc append_Cons)

subsection \<open>The ledger's operations\<close>

lemma transition_shape:
  assumes "transition r state token expected reason unexpired clear set_contract contract clock db = Inr db'"
  obtains now u where "rowcount (fenced r expected token u) db = 1"
    "db' = update_where (fenced r expected token u) (moved state now reason (if clear then Some Null else None)
       (if set_contract then Some (text_or_null contract) else None)) db"
  using assms by (auto simp: transition_def Let_def)

definition harmless :: "delivery_state \<Rightarrow> delivery_state \<Rightarrow> bool \<Rightarrow> bool" where
  "harmless expected state set_contract =
     (expected \<in> {CLAIMED, QUARANTINED} \<or> \<not> set_contract \<and> state \<notin> {CLAIMED, QUARANTINED})"

lemma moved_contract [simp]: "dl_contract_id (moved s now reason attempt None x) = dl_contract_id x"
  "dl_contract_id (moved s now reason attempt (Some c) x) = c"
  by (simp_all add: moved_def)

lemma moved_keep:
  assumes "fenced r expected token u x" "harmless expected state set_contract \<or> writes_of (ledger_key r) ws = []"
  shows "row_keep ws x (moved state now reason attempt (if set_contract then Some c else None) x)"
  using assms by (auto simp: row_keep_def harmless_def crossed_def fenced_def)

lemma transition_keep:
  assumes "transition r state token expected reason unexpired clear set_contract contract clock db = Inr db'"
    and "harmless expected state set_contract \<or> writes_of (ledger_key r) ws = []"
  shows "ledger_keep ws db db'"
proof -
  from assms(1) obtain now u where "db' = update_where (fenced r expected token u) (moved state now reason
      (if clear then Some Null else None) (if set_contract then Some (text_or_null contract) else None)) db"
    by (rule transition_shape)
  then show ?thesis using moved_keep [OF _ assms(2)] by (auto intro: keep_update)
qed

lemma transition_many_keep:
  assumes "transition_many items state expected reason unexpired attempt set_contract contract clock db = Inr db'"
    and "harmless expected state set_contract \<or> (\<forall>x \<in> set items. writes_of (ledger_key (fst x)) ws = [])"
  shows "ledger_keep ws db db'"
proof (cases "items = []")
  case False
  with assms(1) obtain now us where
    "foldE (transition_one state expected reason unexpired attempt set_contract contract now) db items = Inr (db', us)"
    by (auto simp: transition_many_def)
  then show ?thesis
  proof (rule foldE_inv [where I = "ledger_keep ws db"])
    fix a x a' y
    assume a: "ledger_keep ws db a" "x \<in> set items"
      "transition_one state expected reason unexpired attempt set_contract contract now a x = Inr (a', y)"
    let ?P = "fenced (fst x) expected (snd x) (if unexpired then Some now else None)"
    have "a' = update_where ?P (moved state now reason (map_option Text attempt)
        (if set_contract then Some (text_or_null contract) else None)) a"
      using a(3) by (simp add: transition_one_def Let_def)
    moreover have "harmless expected state set_contract \<or> writes_of (ledger_key (fst x)) ws = []"
      using assms(2) a(2) by blast
    ultimately have "ledger_keep ws a a'" using moved_keep [where r = "fst x"] by (simp only: keep_update)
    with a(1) show "ledger_keep ws db a'" by (rule ledger_keep_trans)
  qed simp
qed (use assms(1) in \<open>simp add: transition_many_def\<close>)

lemma claim_one_keep:
  assumes "claim_one now expires db (r, token) = Inr (db', res)"
  shows "ledger_keep ws db db'"
proof (cases "select_one (\<lambda>x. row_key x = ledger_key r) db")
  case None
  then have "row_key (new_row r token (isoformat now) expires) \<notin> row_key ` set db"
    by (auto simp: select_one_None new_row_def row_key_def ledger_key_def)
  moreover have "db' = db @ [new_row r token (isoformat now) expires]" using assms None by (simp add: claim_one_def)
  ultimately show ?thesis by (simp add: keep_insert)
next
  case (Some row)
  then have "claim_existing r token now expires row db = Inr (db', res)" using assms by (simp add: claim_one_def)
  then show ?thesis
    by (rule claim_existing_cases) (auto simp: row_keep_def crossed_def row_key_def intro!: keep_update)
qed

lemma claim_many_keep:
  assumes "claim_many rs lease clock tok db = Inr (db', res)"
  shows "ledger_keep ws db db'"
proof (cases "rs = []")
  case False
  with assms obtain now expiry where "foldE (claim_one now (isoformat expiry)) db (zip rs (map tok [0..<length rs])) = Inr (db', res)"
    by (auto simp: claim_many_def)
  then show ?thesis
    by (rule foldE_inv [where I = "ledger_keep ws db"]) (auto intro: ledger_keep_trans claim_one_keep)
qed (use assms in \<open>simp add: claim_many_def\<close>)

lemma claim_keep: "claim r lease clock tok db = Inr (db', res) \<Longrightarrow> ledger_keep ws db db'"
  unfolding claim_def using claim_many_keep by fastforce

lemma rearm_keep:
  assumes "rearm_for_retry r expected lease clock token db = Inr (db', res)"
  shows "ledger_keep ws db db'"
  using assms by (rule rearm_cases) (auto simp: row_keep_def crossed_def row_key_def rearm_target_def intro!: keep_update)

lemmas transition_operations = start_write_def start_replay_write_def mark_committed_def mark_replay_committed_def
  mark_uncertain_def mark_replay_uncertain_def

lemma operation_keep:
  "start_write r token contract clock db = Inr db' \<Longrightarrow> ledger_keep ws db db'"
  "start_replay_write r token clock db = Inr db' \<Longrightarrow> ledger_keep ws db db'"
  "mark_committed r token clock db = Inr db' \<Longrightarrow> ledger_keep ws db db'"
  "mark_replay_committed r token clock db = Inr db' \<Longrightarrow> ledger_keep ws db db'"
  "mark_uncertain r reason token clock db = Inr db' \<Longrightarrow> ledger_keep ws db db'"
  "mark_replay_uncertain r reason token clock db = Inr db' \<Longrightarrow> ledger_keep ws db db'"
  unfolding transition_operations by (rule transition_keep, assumption, simp add: harmless_def)+

lemma operation_many_keep:
  "start_write_many items contract attempt clock db = Inr (db', a) \<Longrightarrow> ledger_keep ws db db'"
  "mark_committed_many items clock db = Inr db' \<Longrightarrow> ledger_keep ws db db'"
  "mark_uncertain_many items reason clock db = Inr db' \<Longrightarrow> ledger_keep ws db db'"
  unfolding start_write_many_def mark_committed_many_def mark_uncertain_many_def
  by (auto intro: transition_many_keep simp: harmless_def)

lemma quarantine_keep:
  assumes "mark_quarantined r reason token expected clock db = Inr db'"
    and "expected \<noteq> WRITE_STARTED \<or> writes_of (ledger_key r) ws = []"
  shows "ledger_keep ws db db'"
  using assms unfolding mark_quarantined_def raise_if_Inr
  by (elim conjE, elim transition_keep) (auto simp: harmless_def)

lemma quarantine_many_keep:
  assumes "mark_quarantined_many items reason expected clock db = Inr db'"
    and "\<forall>x \<in> set items. writes_of (ledger_key (fst x)) ws = []"
  shows "ledger_keep ws db db'"
  using assms(1) unfolding mark_quarantined_many_def raise_if_Inr
  by (elim conjE, elim transition_many_keep) (use assms(2) in simp)

section \<open>The invariant of the world\<close>

definition guarded :: "world \<Rightarrow> bool" where
  "guarded w = once (w_ledger w) (w_writes w)"

definition free :: "identity set \<Rightarrow> world \<Rightarrow> bool" where
  "free ks w = (guarded w \<and> (\<forall>k \<in> ks. writes_of k (w_writes w) = []))"

text \<open>
  The identities are past the write boundary under contract \<open>c\<close>; they have not been written before, or \<open>c\<close> is a
  contract under which a repetition is allowed.
\<close>

definition armed :: "bool \<Rightarrow> string option \<Rightarrow> identity set \<Rightarrow> world \<Rightarrow> bool" where
  "armed fresh c ks w = (guarded w \<and> (\<forall>k \<in> ks. (fresh \<or> c = None \<longrightarrow> writes_of k (w_writes w) = [])
     \<and> (\<exists>x \<in> set (w_ledger w). row_key x = k \<and> crossed x \<and> dl_contract_id x = text_or_null c)))"

abbreviation keeps :: "(world \<Rightarrow> bool) \<Rightarrow> 'a act \<Rightarrow> bool" where
  "keeps I m \<equiv> triple I m (\<lambda>_. I) (\<lambda>_. I)"

text \<open>
  An assertion about the ledger and the write log alone: every calm action keeps it, and what it implies of the
  invariant is left when the action raises.
\<close>

locale ledger_assertion =
  fixes I :: "world \<Rightarrow> bool"
  assumes stable: "w_ledger w' = w_ledger w \<Longrightarrow> w_writes w' = w_writes w \<Longrightarrow> I w \<Longrightarrow> I w'"
    and safe: "I w \<Longrightarrow> guarded w"
begin

lemma calm: "calm m \<Longrightarrow> keeps I m"
  by (erule calm_keeps) (rule stable)

lemma calm_safe: "calm m \<Longrightarrow> triple I m (\<lambda>_. I) (\<lambda>_. guarded)"
  by (rule triple_post [OF calm]) (auto intro: safe)

lemma weaken: "keeps guarded m \<Longrightarrow> triple I m (\<lambda>_. guarded) (\<lambda>_. guarded)"
  by (erule triple_pre) (rule safe)

lemma calm_weaken: "calm m \<Longrightarrow> triple I m (\<lambda>_. guarded) (\<lambda>_. guarded)"
  by (rule triple_post [OF calm]) (auto intro: safe)

end

interpretation guarded: ledger_assertion guarded
  by unfold_locales (simp_all add: guarded_def)

interpretation free: ledger_assertion "free ks" for ks
  by unfold_locales (simp_all add: free_def guarded_def)

lemmas calm_guarded = guarded.calm
lemmas calm_free = free.calm

lemma triple_on_ledger:
  assumes "\<And>w ev db' x. P w \<Longrightarrow> f ev (w_ledger w) = Inr (db', x) \<Longrightarrow> Q x (w\<lparr>w_pos := Suc (w_pos w), w_ledger := db'\<rparr>)"
    and "\<And>w ev db' x e. P w \<Longrightarrow> f ev (w_ledger w) = Inr (db', x) \<Longrightarrow> E e (w\<lparr>w_pos := Suc (w_pos w), w_ledger := db'\<rparr>)"
    and "\<And>w e. P w \<Longrightarrow> E e (w\<lparr>w_pos := Suc (w_pos w)\<rparr>)"
  shows "triple P (on_ledger f) Q E"
  by (rule tripleI)
    (auto simp: on_ledger_def transact_def Let_def split: fault.splits sum.splits prod.splits intro: assms)

lemma keeps_ledger:
  assumes "\<And>ev db db' x ws. f ev db = Inr (db', x) \<Longrightarrow> ledger_keep ws db db'"
  shows "keeps guarded (on_ledger f)"
  by (rule triple_on_ledger) (auto simp: guarded_def intro: once_keep assms)

lemma free_ledger:
  assumes "\<And>ev db db' x ws. (\<forall>k \<in> ks. writes_of k ws = []) \<Longrightarrow> f ev db = Inr (db', x) \<Longrightarrow> ledger_keep ws db db'"
  shows "keeps (free ks) (on_ledger f)"
  by (rule triple_on_ledger) (auto simp: free_def guarded_def intro: once_keep assms)

lemma no_result_Inr [simp]: "no_result r = Inr (db, x) \<longleftrightarrow> r = Inr db"
  by (auto simp: no_result_def)

subsection \<open>Crossing the boundary and writing\<close>

lemma keyed_row: "keyed row_key db \<Longrightarrow> x \<in> set db \<Longrightarrow> y \<in> set db \<Longrightarrow> row_key x = row_key y \<Longrightarrow> x = y"
  by (rule keyed_inj)

lemma uncrossed_free:
  assumes "once db ws" "x \<in> set db" "\<not> crossed x"
  shows "writes_of (row_key x) ws = []"
proof (rule ccontr)
  assume "writes_of (row_key x) ws \<noteq> []"
  then obtain y where "y \<in> set db" "row_key y = row_key x" "settled ws y" using assms(1) unfolding once_def by blast
  then show False using keyed_row [of db x y] assms by (auto simp: once_def settled_def)
qed

lemma writes_of_append:
  "writes_of k (ws @ [e]) = writes_of k ws @ (if may_have_committed (we_response e) \<and> k \<in> ledger_key ` set (we_records e) then [e] else [])"
  by (simp add: writes_of_def)

lemma armed_write:
  assumes "armed fresh (we_contract e) (ledger_key ` set (we_records e)) w"
  shows "once (w_ledger w) (w_writes w @ [e])"
  unfolding once_def
proof (intro conjI allI impI)
  show keyed: "keyed row_key (w_ledger w)" using assms by (simp add: armed_def guarded_def once_def)
  fix k assume k: "writes_of k (w_writes w @ [e]) \<noteq> []"
  let ?hit = "may_have_committed (we_response e) \<and> k \<in> ledger_key ` set (we_records e)"
  have g: "once (w_ledger w) (w_writes w)" using assms by (simp add: armed_def guarded_def)
  show "\<exists>x \<in> set (w_ledger w). row_key x = k \<and> settled (w_writes w @ [e]) x"
  proof (cases ?hit)
    case True
    then obtain x where x: "x \<in> set (w_ledger w)" "row_key x = k" "crossed x" "dl_contract_id x = text_or_null (we_contract e)"
      "we_contract e = None \<longrightarrow> writes_of k (w_writes w) = []"
      using assms unfolding armed_def by blast
    have "settled (w_writes w @ [e]) x"
    proof (cases "writes_of k (w_writes w) = []")
      case True
      with x show ?thesis by (simp add: settled_def writes_of_append)
    next
      case False
      then obtain y where "y \<in> set (w_ledger w)" "row_key y = k" "settled (w_writes w) y" using g unfolding once_def by blast
      with x keyed have "settled (w_writes w) x" using keyed_row [of "w_ledger w" x y] by simp
      with x False show ?thesis by (auto simp: settled_def writes_of_append text_or_null_def split: option.splits)
    qed
    with x show ?thesis by blast
  next
    case False
    then have same: "writes_of k (w_writes w @ [e]) = writes_of k (w_writes w)" unfolding writes_of_append by simp
    then obtain x where "x \<in> set (w_ledger w)" "row_key x = k" "settled (w_writes w) x" using k g unfolding once_def by metis
    then show ?thesis using same by (auto simp: settled_def)
  qed
qed

lemma triple_write_call:
  "triple (armed fresh c (ledger_key ` set rs)) (write_call rs items c)
     (\<lambda>response w. guarded w \<and> (response = WriteError NOT_COMMITTED \<longrightarrow> fresh \<longrightarrow> free (ledger_key ` set rs) w)) (\<lambda>_. guarded)"
proof (rule tripleI)
  fix w assume a: "armed fresh c (ledger_key ` set rs) w"
  let ?e = "\<lparr>we_records = rs, we_items = items, we_contract = c, we_response = ev_response (w_tape w (w_pos w))\<rparr>"
  have "once (w_ledger w) (w_writes w @ [?e])" using armed_write [of fresh ?e w] a by simp
  moreover have "writes_of k (w_writes w @ [?e]) = []"
    if "ev_response (w_tape w (w_pos w)) = WriteError NOT_COMMITTED" fresh "k \<in> ledger_key ` set rs" for k
    using that a unfolding armed_def by (auto simp: writes_of_append may_have_committed_def)
  ultimately show "case write_call rs items c w of (Inl e, w') \<Rightarrow> guarded w'
      | (Inr response, w') \<Rightarrow> guarded w' \<and> (response = WriteError NOT_COMMITTED \<longrightarrow> fresh \<longrightarrow> free (ledger_key ` set rs) w')"
    by (auto simp: write_call_def Let_def guarded_def free_def)
qed

text \<open>An ordinary write starts from a claimed row, hence for an identity that was never written.\<close>

lemma fenced_member:
  assumes "rowcount (fenced r expected token u) db = 1"
  obtains x where "x \<in> set db" "fenced r expected token u x" "row_key x = ledger_key r" "dl_state x = state_value expected"
  using assms by (elim rowcount_1_obtain) (auto simp: fenced_def)

lemma in_update_where_hit: "x \<in> set db \<Longrightarrow> P x \<Longrightarrow> f x \<in> set (update_where P f db)"
  by (auto simp: update_where_def)

lemma start_write_arms:
  assumes "start_write r token c clock db = Inr db'" "once db ws"
  shows "writes_of (ledger_key r) ws = []"
    "\<exists>y \<in> set db'. row_key y = ledger_key r \<and> crossed y \<and> dl_contract_id y = text_or_null c"
proof -
  from assms(1) obtain now u where t: "rowcount (fenced r CLAIMED token u) db = 1"
    "db' = update_where (fenced r CLAIMED token u) (moved WRITE_STARTED now None (Some Null) (Some (text_or_null c))) db"
    unfolding start_write_def by (elim transition_shape) simp
  obtain x where x: "x \<in> set db" "fenced r CLAIMED token u x" "row_key x = ledger_key r" "dl_state x = state_value CLAIMED"
    using t(1) by (rule fenced_member)
  show "writes_of (ledger_key r) ws = []" using uncrossed_free [OF assms(2) x(1)] x(3,4) by (simp add: crossed_def)
  have "moved WRITE_STARTED now None (Some Null) (Some (text_or_null c)) x \<in> set db'"
    unfolding t(2) using x(1,2) by (rule in_update_where_hit)
  then show "\<exists>y \<in> set db'. row_key y = ledger_key r \<and> crossed y \<and> dl_contract_id y = text_or_null c"
    by (rule bexI [rotated]) (simp add: x crossed_def)
qed

lemma start_replay_arms:
  assumes "start_replay_write r token clock db = Inr db'" "keyed row_key db"
    and "x \<in> set db" "row_key x = ledger_key r" "dl_contract_id x = text_or_null c"
  shows "\<exists>y \<in> set db'. row_key y = ledger_key r \<and> crossed y \<and> dl_contract_id y = text_or_null c"
proof -
  from assms(1) obtain now u where t: "rowcount (fenced r REPLAY_CLAIMED token u) db = 1"
    "db' = update_where (fenced r REPLAY_CLAIMED token u) (moved REPLAY_WRITE_STARTED now None None None) db"
    unfolding start_replay_write_def by (elim transition_shape) simp
  obtain y where y: "y \<in> set db" "fenced r REPLAY_CLAIMED token u y" "row_key y = ledger_key r"
    using t(1) by (rule fenced_member)
  have "y = x" using keyed_row [OF assms(2) y(1) assms(3)] y(3) assms(4) by simp
  moreover have "moved REPLAY_WRITE_STARTED now None None None y \<in> set db'"
    unfolding t(2) using y(1,2) by (rule in_update_where_hit)
  ultimately show ?thesis using assms(4,5) by (intro bexI [of _ "moved REPLAY_WRITE_STARTED now None None None y"]) (simp_all add: crossed_def)
qed

text \<open>A replayed attempt comes with a row under the contract it is repeated under.\<close>

definition entitled :: "attempt \<Rightarrow> world \<Rightarrow> bool" where
  "entitled a w = (guarded w \<and> (at_replay a \<longrightarrow> at_contract a \<noteq> None \<and>
     (\<exists>x \<in> set (w_ledger w). row_key x = ledger_key (at_record a) \<and> dl_contract_id x = text_or_null (at_contract a))))"

interpretation entitled: ledger_assertion "entitled a" for a
  by unfold_locales (simp_all add: entitled_def guarded_def)

lemma start_attempt_arms:
  "triple (entitled a) (start_attempt a) (\<lambda>_. armed (\<not> at_replay a) (at_contract a) {ledger_key (at_record a)}) (\<lambda>_. guarded)"
  unfolding start_attempt_def
proof (rule triple_on_ledger)
  fix w ev db' x
  assume w: "entitled a w" and s: "no_result (if at_replay a then start_replay_write (at_record a) (at_token a) (ev_clock ev) (w_ledger w)
      else start_write (at_record a) (at_token a) (at_contract a) (ev_clock ev) (w_ledger w)) = Inr (db', x)"
  have g: "once (w_ledger w) (w_writes w)" using w by (simp add: entitled_def guarded_def)
  have keep: "ledger_keep (w_writes w) (w_ledger w) db'" using s by (auto split: if_splits dest: operation_keep(1,2))
  then have g': "once db' (w_writes w)" using once_keep [OF g] by simp
  then show "guarded (w\<lparr>w_pos := Suc (w_pos w), w_ledger := db'\<rparr>)" by (simp add: guarded_def)
  show "armed (\<not> at_replay a) (at_contract a) {ledger_key (at_record a)} (w\<lparr>w_pos := Suc (w_pos w), w_ledger := db'\<rparr>)"
  proof (cases "at_replay a")
    case True
    then obtain y where y: "at_contract a \<noteq> None" "y \<in> set (w_ledger w)" "row_key y = ledger_key (at_record a)"
      "dl_contract_id y = text_or_null (at_contract a)" using w by (auto simp: entitled_def)
    have "start_replay_write (at_record a) (at_token a) (ev_clock ev) (w_ledger w) = Inr db'" using s True by simp
    moreover have "keyed row_key (w_ledger w)" using g by (simp add: once_def)
    ultimately show ?thesis using start_replay_arms [OF _ _ y(2-4)] g' True y(1) by (auto simp: armed_def guarded_def)
  next
    case False
    then have "start_write (at_record a) (at_token a) (at_contract a) (ev_clock ev) (w_ledger w) = Inr db'" using s by simp
    from start_write_arms [OF this g] g' False show ?thesis by (simp add: armed_def guarded_def)
  qed
qed (simp_all add: entitled_def guarded_def)

section \<open>Single deliveries\<close>

lemma keeps_quarantine_before_write:
  assumes "expected \<noteq> WRITE_STARTED"
  shows "keeps guarded (quarantine_before_write rt r reason token event_type expected attempt retry)"
proof -
  have mark: "keeps guarded (on_ledger (\<lambda>ev db. no_result (mark_quarantined r reason token expected (ev_clock ev) db)))"
    using assms by (intro keeps_ledger) (auto intro: quarantine_keep)
  have rest: "keeps guarded (on is_integrity m e)" if "calm m" for m :: "delivery_receipt act" and e
    using that by (intro triple_on calm_guarded) auto
  show ?thesis
    unfolding quarantine_before_write_def
    by (intro triple_bind [OF calm_guarded] triple_try [OF mark] rest calm_guarded calm_intros)
qed

lemma keeps_attempt_quarantine: "keeps guarded (attempt_quarantine rt a reason retry)"
  unfolding attempt_quarantine_def by (rule keeps_quarantine_before_write) (simp add: claimed_state_def)

lemma keeps_settle_unknown: "keeps guarded (settle_unknown rt a)"
proof -
  have mark: "keeps guarded (on_ledger (\<lambda>ev db. no_result (
       if at_replay a then mark_replay_uncertain (at_record a) ''write_outcome_unknown'' (at_token a) (ev_clock ev) db
       else mark_uncertain (at_record a) ''write_outcome_unknown'' (at_token a) (ev_clock ev) db)))"
    by (intro keeps_ledger) (auto split: if_splits intro: operation_keep)
  show ?thesis
    unfolding settle_unknown_def
    by (intro triple_bind [OF calm_guarded [OF calm_stores(1)]] triple_bind [OF mark] calm_guarded calm_intros)
qed

lemma keeps_settle_committed: "keeps guarded (settle_committed rt a)"
proof -
  have mark: "keeps guarded (on_ledger (\<lambda>ev db. no_result (
       if at_replay a then mark_replay_committed (at_record a) (at_token a) (ev_clock ev) db
       else mark_committed (at_record a) (at_token a) (ev_clock ev) db)))"
    by (intro keeps_ledger) (auto split: if_splits intro: operation_keep)
  show ?thesis
    unfolding settle_committed_def by (intro triple_try [OF mark] triple_on calm_guarded calm_intros) auto
qed

lemma settle_not_committed_guarded:
  "triple (\<lambda>w. guarded w \<and> (\<not> at_replay a \<longrightarrow> free {ledger_key (at_record a)} w)) (settle_not_committed rt a) (\<lambda>_. guarded) (\<lambda>_. guarded)"
  (is "triple ?P _ _ _")
proof -
  have "keeps ?P (spool_quarantine rt r reason)" for r reason
    by (rule calm_keeps) (auto simp: free_def guarded_def intro: calm_intros)
  then have spool: "triple ?P (spool_quarantine rt r reason) (\<lambda>_. ?P) (\<lambda>_. guarded)" for r reason
    by (rule triple_post) auto
  have mark: "triple ?P (on_ledger (\<lambda>ev db. no_result (mark_quarantined (at_record a) ''write_not_committed'' (at_token a)
       (write_started_state a) (ev_clock ev) db))) (\<lambda>_. guarded) (\<lambda>_. guarded)"
    by (rule triple_on_ledger) (auto simp: guarded_def free_def write_started_state_def split: if_splits
        intro: once_keep quarantine_keep)
  show ?thesis
    unfolding settle_not_committed_def
    by (intro triple_bind [OF spool] triple_bind [OF mark] calm_guarded calm_intros)
qed

lemma write_claimed_guarded: "triple (entitled a) (write_claimed rt a vs) (\<lambda>_. guarded) (\<lambda>_. guarded)"
proof -
  let ?k = "{ledger_key (at_record a)}"
  have call: "triple (armed (\<not> at_replay a) (at_contract a) ?k) (write_call [at_record a] items (at_contract a))
     (\<lambda>response w. guarded w \<and> (response = WriteError NOT_COMMITTED \<longrightarrow> \<not> at_replay a \<longrightarrow> free ?k w)) (\<lambda>_. guarded)" for items
    using triple_write_call [of "\<not> at_replay a" "at_contract a" "[at_record a]"] by simp
  have settle: "triple (\<lambda>w. guarded w \<and> (response = WriteError NOT_COMMITTED \<longrightarrow> \<not> at_replay a \<longrightarrow> free ?k w))
     (case response of Acknowledged n \<Rightarrow> if n = Some 1 then settle_committed rt a else settle_unknown rt a
        | WriteError NOT_COMMITTED \<Rightarrow> settle_not_committed rt a | _ \<Rightarrow> settle_unknown rt a) (\<lambda>_. guarded) (\<lambda>_. guarded)" for response
  proof (cases "response = WriteError NOT_COMMITTED")
    case True
    then show ?thesis using settle_not_committed_guarded [of a rt] by simp
  next
    case False
    have "keeps guarded (case response of Acknowledged n \<Rightarrow> if n = Some 1 then settle_committed rt a else settle_unknown rt a
        | WriteError NOT_COMMITTED \<Rightarrow> settle_not_committed rt a | _ \<Rightarrow> settle_unknown rt a)"
      using False by (auto split: write_response.split write_outcome.split intro: keeps_settle_committed keeps_settle_unknown)
    then show ?thesis by (rule triple_pre) auto
  qed
  show ?thesis
    unfolding write_claimed_def
    by (intro triple_try [OF start_attempt_arms] triple_bind [OF call] settle triple_on calm_guarded calm_intros) auto
qed

lemma check_and_write_guarded: "triple (entitled a) (check_and_write rt a vs) (\<lambda>_. guarded) (\<lambda>_. guarded)"
proof -
  have read: "triple (entitled a) (capability_changed caps) (\<lambda>_. entitled a) (\<lambda>_. guarded)" for caps
    by (intro entitled.calm_safe calm_intros)
  show ?thesis
    unfolding check_and_write_def
    by (intro triple_if triple_bind [OF read] entitled.weaken [OF keeps_attempt_quarantine] write_claimed_guarded)
qed

lemma deliver_claimed_guarded: "triple (entitled a) (deliver_claimed rt a key) (\<lambda>_. guarded) (\<lambda>_. guarded)"
proof -
  have calm: "calm (case key of None \<Rightarrow> open_record (rt_primitives rt) (rt_agent rt) (at_record a)
       | Some k \<Rightarrow> open_authorized_record (rt_primitives rt) (at_record a) k)"
    by (intro calm_intros)
  have reject: "triple (entitled a) (on is_exception (attempt_quarantine rt a reason retry) e) (\<lambda>_. guarded) (\<lambda>_. guarded)" for reason retry e
    by (intro triple_on entitled.weaken [OF keeps_attempt_quarantine] entitled.safe)
  show ?thesis
    unfolding deliver_claimed_def
    by (intro triple_try [OF entitled.calm [OF calm]] triple_if entitled.weaken [OF keeps_attempt_quarantine]
        triple_try [OF entitled.calm [OF calm_transforms]] check_and_write_guarded reject)
qed

lemma entitled_fresh: "guarded w \<Longrightarrow> \<not> at_replay a \<Longrightarrow> entitled a w"
  by (simp add: entitled_def)

lemma deliver_with_capabilities_guarded: "keeps guarded (deliver_with_capabilities rt caps r)"
proof -
  have claim: "keeps guarded (on_ledger (\<lambda>ev db. claim r (rt_claim_lease rt) (ev_clock ev) (ev_token ev 0) db))"
    by (rule keeps_ledger) (rule claim_keep)
  have go: "triple guarded (deliver_claimed rt a key) (\<lambda>_. guarded) (\<lambda>_. guarded)" if "\<not> at_replay a" for a key
    by (rule triple_pre [OF deliver_claimed_guarded]) (simp add: entitled_fresh that)
  have next_step: "keeps guarded (case d of Inl x \<Rightarrow> ret x | Inr token \<Rightarrow> deliver_claimed rt \<lparr>at_record = r, at_token = token,
      at_event_type = ''delivery'', at_replay = False, at_batch = None, at_history = None, at_capabilities = caps\<rparr> (Some key))" for d key
    by (cases d) (simp_all add: go calm_guarded calm_ret)
  show ?thesis
    unfolding deliver_with_capabilities_def
    by (intro triple_raise_unless triple_bind [OF claim] triple_bind [OF calm_guarded [OF calm_agent(1)]]
        triple_bind [OF calm_guarded [OF calm_authorize]] triple_bind [OF calm_guarded [OF calm_dispose]] next_step)
qed

lemma deliver_guarded: "keeps guarded (deliver rt r)"
  unfolding deliver_def
  by (intro triple_bind [OF calm_guarded [OF calm_capabilities(1)]] deliver_with_capabilities_guarded)

section \<open>Batches\<close>

lemma prepare_claimed_guarded: "keeps guarded (prepare_claimed rt r token key)"
proof -
  have reject: "keeps guarded (bindA (quarantine_before_write rt r reason token ''delivery'' CLAIMED None None) (\<lambda>x. ret (Inl x)))"
    for reason
    by (intro triple_bind [OF keeps_quarantine_before_write] calm_guarded calm_intros) simp
  have on_reject: "keeps guarded (on is_exception (bindA (quarantine_before_write rt r reason token ''delivery'' CLAIMED None None) (\<lambda>x. ret (Inl x))) e)"
    for reason e
    by (intro triple_on reject)
  show ?thesis
    unfolding prepare_claimed_def Let_def
    by (intro triple_try [OF calm_guarded [OF calm_agent(2)]] triple_if reject on_reject
        triple_try [OF calm_guarded [OF calm_transforms]] calm_guarded calm_intros)
qed

lemma prepare_batch_guarded: "keeps guarded (prepare_batch rt claimed receipts ready)"
proof (induction rt claimed receipts ready rule: prepare_batch.induct)
  case (2 rt i r token key claimed receipts ready)
  have step: "keeps guarded (attemptA (prepare_claimed rt r token key))"
    by (rule triple_attempt) (rule prepare_claimed_guarded)
  have "keeps guarded (case res of Inl e \<Rightarrow> ret (receipts, ready, Some e)
     | Inr (Inl x) \<Rightarrow> prepare_batch rt claimed (receipts[i := Some x]) ready
     | Inr (Inr bw) \<Rightarrow> prepare_batch rt claimed receipts (ready @ [(i, r, token, bw)]))" for res
    using 2 by (auto split: sum.split intro!: calm_guarded calm_intros)
  then show ?case unfolding prepare_batch.simps by (intro triple_bind [OF step])
qed (simp add: calm_guarded calm_ret)

lemma quarantine_changed_guarded: "keeps guarded (quarantine_changed rt ready receipts)"
proof (induction rt ready receipts rule: quarantine_changed.induct)
  case (2 rt i r token bw ready receipts)
  have step: "keeps guarded (attemptA (quarantine_before_write rt r ''atomic_batch_capability_changed'' token ''delivery'' CLAIMED None (Some True)))"
    by (rule triple_attempt) (simp add: keeps_quarantine_before_write)
  have "keeps guarded (case res of Inl e \<Rightarrow> ret (receipts, Some e) | Inr x \<Rightarrow> quarantine_changed rt ready (receipts[i := Some x]))" for res
    using 2 by (auto split: sum.split intro!: calm_guarded calm_intros)
  then show ?case unfolding quarantine_changed.simps by (intro triple_bind [OF step])
qed (simp add: calm_guarded calm_ret)

lemma calm_claim_lost [calm_intros]: "calm (claim_lost rt ready receipts)"
  by (induction rt ready receipts rule: claim_lost.induct) (auto split: sum.split intro!: calm_intros)

lemma start_many_arms:
  assumes "start_write_many items c attempt clock db = Inr (db', a)" "once db ws" "x \<in> set items"
  shows "writes_of (ledger_key (fst x)) ws = []"
    "\<exists>y \<in> set db'. row_key y = ledger_key (fst x) \<and> crossed y \<and> dl_contract_id y = text_or_null c"
proof -
  have tm: "transition_many items BATCH_WRITE_STARTED CLAIMED None True (Some attempt) True c clock db = Inr db'"
    using assms(1) by (auto simp: start_write_many_def)
  have keyed: "keyed row_key db" using assms(2) by (simp add: once_def)
  have "items \<noteq> []" using assms(3) by auto
  with tm keyed obtain now where
    t: "db' = update_where (\<lambda>y. row_key y \<in> ledger_key ` fst ` set items)
      (moved BATCH_WRITE_STARTED (isoformat now) None (map_option Text (Some attempt)) (if True then Some (text_or_null c) else None)) db"
    "\<forall>x \<in> set items. \<exists>y \<in> set db. fenced (fst x) CLAIMED (snd x) (if True then Some (isoformat now) else None) y"
    by (rule transition_many_rows)
  obtain y where y: "y \<in> set db" "row_key y = ledger_key (fst x)" "dl_state y = state_value CLAIMED"
    using bspec [OF t(2) assms(3)] by (auto simp: fenced_def)
  show "writes_of (ledger_key (fst x)) ws = []" using uncrossed_free [OF assms(2) y(1)] y(2,3) by (simp add: crossed_def)
  have "row_key y \<in> ledger_key ` fst ` set items" unfolding y(2) using assms(3) by simp
  with y(1) have "moved BATCH_WRITE_STARTED (isoformat now) None (map_option Text (Some attempt)) (if True then Some (text_or_null c) else None) y \<in> set db'"
    unfolding t(1) by (rule in_update_where_hit)
  then show "\<exists>y \<in> set db'. row_key y = ledger_key (fst x) \<and> crossed y \<and> dl_contract_id y = text_or_null c"
    by (rule bexI [rotated]) (simp add: y crossed_def)
qed

lemma transitions_records: "fst ` set (transitions ready) = set (map prepared_record ready)"
  by (force simp: transitions_def prepared_record_def)

lemma transitions_record: "x \<in> set (transitions ready) \<Longrightarrow> fst x \<in> set (map prepared_record ready)"
  using transitions_records [of ready] by force

lemma start_batch_arms:
  "triple guarded (on_ledger (\<lambda>ev db. start_write_many (transitions ready) c (ev_attempt ev) (ev_clock ev) db))
     (\<lambda>_. armed True c (ledger_key ` set (map prepared_record ready))) (\<lambda>_. guarded)"
proof (rule triple_on_ledger)
  fix w ev db' x
  assume g: "guarded w" and s: "start_write_many (transitions ready) c (ev_attempt ev) (ev_clock ev) (w_ledger w) = Inr (db', x)"
  have o: "once (w_ledger w) (w_writes w)" using g by (simp add: guarded_def)
  have g': "once db' (w_writes w)" using once_keep [OF o operation_many_keep(1) [OF s]] .
  then show "guarded (w\<lparr>w_pos := Suc (w_pos w), w_ledger := db'\<rparr>)" by (simp add: guarded_def)
  have "writes_of k (w_writes w) = [] \<and> (\<exists>y \<in> set db'. row_key y = k \<and> crossed y \<and> dl_contract_id y = text_or_null c)"
    if k: "k \<in> ledger_key ` set (map prepared_record ready)" for k
  proof -
    obtain t where t: "t \<in> set (transitions ready)" "k = ledger_key (fst t)"
      using k unfolding transitions_records [symmetric] by blast
    with start_many_arms [OF s o t(1)] show ?thesis by simp
  qed
  then show "armed True c (ledger_key ` set (map prepared_record ready)) (w\<lparr>w_pos := Suc (w_pos w), w_ledger := db'\<rparr>)"
    using g' unfolding armed_def guarded_def by simp
qed (simp_all add: guarded_def)

lemma settle_batch_guarded:
  "triple (\<lambda>w. guarded w \<and> (outcome = Some NOT_COMMITTED \<longrightarrow> free (ledger_key ` set (map prepared_record ready)) w))
     (settle_batch rt caps ready attempt outcome) (\<lambda>_. guarded) (\<lambda>_. guarded)"
proof (cases "outcome = Some NOT_COMMITTED")
  case True
  let ?ks = "ledger_key ` set (map prepared_record ready)"
  have mark: "keeps (free ?ks) (on_ledger (\<lambda>ev db. no_result (mark_quarantined_many (transitions ready) reason expected (ev_clock ev) db)))" for reason expected
    using transitions_record by (intro free_ledger) (force elim: quarantine_many_keep)
  have "keeps (free ?ks) (settle_batch rt caps ready attempt (Some NOT_COMMITTED))"
    unfolding settle_batch_def Let_def option.case write_outcome.case
    by (intro triple_bind [OF calm_free [OF calm_stores(2)]] triple_bind [OF mark] calm_free calm_intros)
  then have "triple (free ?ks) (settle_batch rt caps ready attempt (Some NOT_COMMITTED)) (\<lambda>_. guarded) (\<lambda>_. guarded)"
    by (rule triple_post) (auto simp: free_def)
  then show ?thesis unfolding True by (rule triple_pre) simp
next
  case False
  have commit: "keeps guarded (on_ledger (\<lambda>ev db. no_result (mark_committed_many (transitions ready) (ev_clock ev) db)))"
    by (rule keeps_ledger) (auto intro: operation_many_keep)
  have uncertain: "keeps guarded (on_ledger (\<lambda>ev db. no_result (mark_uncertain_many (transitions ready) reason (ev_clock ev) db)))" for reason
    by (rule keeps_ledger) (auto intro: operation_many_keep)
  have unknown: "keeps guarded (bindA (spool_quarantine_many rt (map prepared_record ready) reason) (\<lambda>_.
      bindA (on_ledger (\<lambda>ev db. no_result (mark_uncertain_many (transitions ready) reason (ev_clock ev) db))) (\<lambda>_. receipts_many rt True qs)))" for reason qs
    by (intro triple_bind [OF calm_guarded [OF calm_stores(2)]] triple_bind [OF uncertain] calm_guarded calm_intros)
  have "keeps guarded (settle_batch rt caps ready attempt outcome)"
  proof (cases outcome)
    case None
    show ?thesis unfolding settle_batch_def Let_def None option.case
      by (intro triple_try [OF commit] triple_on calm_guarded calm_intros)
  next
    case (Some o')
    with False show ?thesis using unknown by (cases o') (simp_all add: settle_batch_def Let_def)
  qed
  then show ?thesis by (rule triple_pre) simp
qed

lemma write_batch_guarded:
  "triple (armed True (batch_idempotency_contract_id caps) (ledger_key ` set (map prepared_record ready)))
     (write_batch rt caps ready attempt) (\<lambda>_. guarded) (\<lambda>_. guarded)"
  unfolding write_batch_def
proof (rule triple_bind [OF triple_write_call])
  fix response
  have "batch_outcome (length ready) response = Some NOT_COMMITTED \<longleftrightarrow> response = WriteError NOT_COMMITTED"
    by (auto simp: batch_outcome_def split: write_response.splits)
  then show "triple (\<lambda>w. guarded w \<and> (response = WriteError NOT_COMMITTED \<longrightarrow> True \<longrightarrow> free (ledger_key ` set (map prepared_record ready)) w))
      (settle_batch rt caps ready attempt (batch_outcome (length ready) response)) (\<lambda>_. guarded) (\<lambda>_. guarded)"
    by (intro triple_pre [OF settle_batch_guarded]) simp
qed

lemma execute_guarded: "keeps guarded (execute_atomic_batch rt caps ready receipts)"
proof -
  have changed: "keeps guarded (attemptA (capability_changed caps))" by (intro calm_guarded calm_intros)
  let ?armed = "armed True (batch_idempotency_contract_id caps) (ledger_key ` set (map prepared_record ready))"
  have start: "triple guarded (attemptA (on_ledger (\<lambda>ev db. start_write_many (transitions ready) (batch_idempotency_contract_id caps)
      (ev_attempt ev) (ev_clock ev) db))) (\<lambda>res. case res of Inl _ \<Rightarrow> guarded | Inr _ \<Rightarrow> ?armed) (\<lambda>_. guarded)"
    by (rule triple_attempt) (simp only: sum.case start_batch_arms)
  have batch: "triple ?armed (attemptA (write_batch rt caps ready attempt)) (\<lambda>_. guarded) (\<lambda>_. guarded)" for attempt
    by (rule triple_attempt) (rule write_batch_guarded)
  have written: "triple ?armed (bindA (attemptA (write_batch rt caps ready attempt)) (\<lambda>res. case res of
      Inl e \<Rightarrow> ret (receipts, Some e) | Inr xs \<Rightarrow> ret (place ready xs receipts, None))) (\<lambda>_. guarded) (\<lambda>_. guarded)" for attempt
    by (intro triple_bind [OF batch] calm_guarded calm_intros)
  have go: "keeps guarded (bindA (attemptA (on_ledger (\<lambda>ev db. start_write_many (transitions ready) (batch_idempotency_contract_id caps)
      (ev_attempt ev) (ev_clock ev) db))) (\<lambda>started. case started of
        Inl e \<Rightarrow> if is_integrity e then claim_lost rt ready receipts else ret (receipts, Some e)
      | Inr attempt \<Rightarrow> bindA (attemptA (write_batch rt caps ready attempt)) (\<lambda>res. case res of
          Inl e \<Rightarrow> ret (receipts, Some e) | Inr xs \<Rightarrow> ret (place ready xs receipts, None))))"
  proof (rule triple_bind [OF start])
    fix started :: "exn + string"
    show "triple (case started of Inl _ \<Rightarrow> guarded | Inr _ \<Rightarrow> ?armed) (case started of
        Inl e \<Rightarrow> if is_integrity e then claim_lost rt ready receipts else ret (receipts, Some e)
      | Inr attempt \<Rightarrow> bindA (attemptA (write_batch rt caps ready attempt)) (\<lambda>res. case res of
          Inl e \<Rightarrow> ret (receipts, Some e) | Inr xs \<Rightarrow> ret (place ready xs receipts, None))) (\<lambda>_. guarded) (\<lambda>_. guarded)"
    proof (cases started)
      case (Inr a)
      then show ?thesis by (simp only: sum.case written)
    qed (simp add: calm_guarded calm_ret calm_claim_lost)
  qed
  have branch: "keeps guarded (case changed of Inl e \<Rightarrow> ret (receipts, Some e) | Inr True \<Rightarrow> m | Inr False \<Rightarrow> m')"
    if "keeps guarded m" "keeps guarded m'" for changed m m'
    using that by (auto split: sum.split bool.split intro: calm_guarded calm_ret)
  show ?thesis
    unfolding execute_atomic_batch_def
    by (intro triple_if triple_bind [OF changed] branch quarantine_changed_guarded go calm_guarded calm_ret)
qed

lemma calm_finish [calm_intros]: "calm (finish_batch receipts failure)"
  unfolding finish_batch_def Let_def by (auto split: option.split exn.split intro: calm_intros)

lemma deliver_atomic_batch_guarded: "keeps guarded (deliver_atomic_batch rt caps rs)"
proof -
  have claim: "keeps guarded (on_ledger (\<lambda>ev db. claim_many rs (rt_claim_lease rt) (ev_clock ev) (ev_token ev) db))"
    by (rule keeps_ledger) (rule claim_many_keep)
  have exec: "keeps guarded (bindA (execute_atomic_batch rt caps ready receipts) (\<lambda>(receipts', failure'). finish_batch receipts' failure'))"
    for ready receipts
    by (intro triple_bind [OF execute_guarded] calm_guarded calm_intros)
  have finish: "keeps guarded (case p of (receipts, ready, failure) \<Rightarrow> case failure of
      Some e \<Rightarrow> finish_batch receipts (Some e)
    | None \<Rightarrow> bindA (execute_atomic_batch rt caps ready receipts) (\<lambda>(receipts', failure'). finish_batch receipts' failure'))" for p
    by (cases p) (auto split: option.split intro: exec calm_guarded calm_intros)
  show ?thesis
    unfolding deliver_atomic_batch_def dispose_batch_def
    by (intro triple_bind [OF claim] triple_bind [OF prepare_batch_guarded] finish triple_bind [OF calm_guarded] calm_intros)
qed

lemma deliver_chunk_guarded: "keeps guarded (deliver_chunk rt caps chunk)"
  unfolding deliver_chunk_def
  by (intro triple_if triple_bind [OF deliver_with_capabilities_guarded] deliver_atomic_batch_guarded calm_guarded calm_intros)

lemma deliver_chunks_guarded: "keeps guarded (deliver_chunks rt caps done cs)"
proof (induction cs arbitrary: "done")
  case (Cons c cs)
  have "keeps guarded (case e of DeliveryBatchInterrupted xs \<Rightarrow>
       if done @ xs \<noteq> [] then throw (DeliveryBatchInterrupted (done @ xs)) else throw e
     | _ \<Rightarrow> if is_exception e \<and> done \<noteq> [] then throw (DeliveryBatchInterrupted done) else (throw e :: delivery_receipt list act))" for e
    by (auto split: exn.split intro: calm_guarded calm_throw)
  with Cons show ?case unfolding deliver_chunks.simps by (intro triple_try [OF deliver_chunk_guarded])
qed (simp add: calm_guarded calm_ret)

lemma deliver_scalars_guarded: "keeps guarded (deliver_scalars rt caps done rs)"
proof (induction rs arbitrary: "done")
  case (Cons r rs)
  then show ?case unfolding deliver_scalars.simps
    by (intro triple_try [OF deliver_with_capabilities_guarded Cons] triple_if calm_guarded calm_throw)
qed (simp add: calm_guarded calm_ret)

lemma deliver_many_guarded: "keeps guarded (deliver_many rt rs)"
proof -
  have read: "keeps guarded read_capabilities" by (intro calm_guarded calm_intros)
  have admit: "keeps guarded (lift_result (admit rt 0 0 rs))" by (intro calm_guarded calm_intros)
  show ?thesis
    unfolding deliver_many_def
    by (intro triple_bind [OF read] triple_raise_unless triple_bind [OF admit] triple_if)
      (auto split: option.split intro!: deliver_chunks_guarded deliver_scalars_guarded calm_guarded calm_intros)
qed

section \<open>Replays\<close>

text \<open>What \<open>replay\<close> knows of the row it read: nothing moves it before the row is rearmed.\<close>

definition known :: "transport_record \<Rightarrow> ledger_entry \<Rightarrow> world \<Rightarrow> bool" where
  "known r entry w = (guarded w \<and> (\<exists>x \<in> set (w_ledger w). row_key x = ledger_key r
     \<and> dl_contract_id x = text_or_null (le_contract_id entry)))"

interpretation known: ledger_assertion "known r entry" for r entry
  by unfold_locales (simp_all add: known_def guarded_def)

lemma ledger_get_row:
  assumes "ledger_get r db = Inr (Some entry)"
  obtains x where "x \<in> set db" "row_key x = ledger_key r" "dl_contract_id x = text_or_null (le_contract_id entry)"
    "dl_state x = state_value (le_state entry)"
proof -
  obtain x where x: "select_one (\<lambda>x. row_key x = ledger_key r) db = Some x" "entry_from_row x = Inr entry"
    using assms by (auto simp: ledger_get_def split: option.splits)
  have "dl_contract_id x = text_or_null (le_contract_id entry)" "dl_state x = state_value (le_state entry)"
    using x(2) by (auto simp: entry_from_row_def contract_from_row_def text_or_null_def parse_state_Some split: option.splits cell.splits)
  then show thesis using select_one_Some [OF x(1)] that [of x] by blast
qed

lemma ledger_get_known:
  "triple guarded (on_ledger (reads (ledger_get r))) (\<lambda>held. case held of None \<Rightarrow> guarded | Some entry \<Rightarrow> known r entry) (\<lambda>_. guarded)"
proof (rule triple_on_ledger)
  fix w ev db' held
  assume g: "guarded w" and "reads (ledger_get r) ev (w_ledger w) = Inr (db', held)"
  then have db: "db' = w_ledger w" "ledger_get r (w_ledger w) = Inr held" by (auto simp: reads_def)
  then show "guarded (w\<lparr>w_pos := Suc (w_pos w), w_ledger := db'\<rparr>)" using g by (simp add: guarded_def)
  show "(case held of None \<Rightarrow> guarded | Some entry \<Rightarrow> known r entry) (w\<lparr>w_pos := Suc (w_pos w), w_ledger := db'\<rparr>)"
    using db g by (auto simp: known_def guarded_def split: option.split elim: ledger_get_row)
qed (simp_all add: guarded_def)

lemma rearm_entitles:
  assumes "rearm_for_retry r expected lease clock token db = Inr (db', c)" "keyed row_key db"
    and "x \<in> set db" "row_key x = ledger_key r"
  shows "cr_state c = rearm_target expected" "\<exists>y \<in> set db'. row_key y = ledger_key r \<and> dl_contract_id y = dl_contract_id x"
proof -
  obtain now matches where m: "db' = update_where matches (\<lambda>x. x\<lparr>dl_state := state_value (rearm_target expected),
       dl_updated_at := isoformat now, dl_claim_token := Text token, dl_claim_expires_at := Text (isoformat (now + lease))\<rparr>) db"
    "cr_state c = rearm_target expected"
    using assms(1) by (rule rearm_cases)
  show "cr_state c = rearm_target expected" by (rule m(2))
  have "x \<in> set db' \<or> x\<lparr>dl_state := state_value (rearm_target expected),
       dl_updated_at := isoformat now, dl_claim_token := Text token, dl_claim_expires_at := Text (isoformat (now + lease))\<rparr> \<in> set db'"
    unfolding m(1) using assms(3) by (cases "matches x") (auto simp: in_update_where)
  then show "\<exists>y \<in> set db'. row_key y = ledger_key r \<and> dl_contract_id y = dl_contract_id x"
    using assms(4) by (auto simp: row_key_def intro: rev_bexI)
qed

text \<open>The replay of an entry that passed the guards, from the rearmed claim on.\<close>

lemma rearmed_delivery_guarded:
  assumes "le_state entry = QUARANTINED \<or> (\<exists>k. le_contract_id entry = Some k \<and> scalar_idempotency_contract_id caps = Some k)"
  shows "triple (known r entry)
    (bindA (on_ledger (\<lambda>ev db. rearm_for_retry r (le_state entry) lease (ev_clock ev) (ev_token ev 0) db)) (\<lambda>c.
       case cr_claim_token c of
         None \<Rightarrow> throw (Exn (IntegrityError message))
       | Some token \<Rightarrow> deliver_claimed rt \<lparr>at_record = r, at_token = token, at_event_type = event_type,
           at_replay = (cr_state c = REPLAY_CLAIMED), at_batch = cr_batch_attempt_id c,
           at_history = le_contract_id entry, at_capabilities = caps\<rparr> None)) (\<lambda>_. guarded) (\<lambda>_. guarded)"
proof (rule triple_bind)
  let ?R = "\<lambda>c w. guarded w \<and> (cr_state c = REPLAY_CLAIMED \<longrightarrow> scalar_idempotency_contract_id caps \<noteq> None \<and>
    (\<exists>x \<in> set (w_ledger w). row_key x = ledger_key r \<and> dl_contract_id x = text_or_null (scalar_idempotency_contract_id caps)))"
  show "triple (known r entry) (on_ledger (\<lambda>ev db. rearm_for_retry r (le_state entry) lease (ev_clock ev) (ev_token ev 0) db)) ?R (\<lambda>_. guarded)"
  proof (rule triple_on_ledger)
    fix w ev db' c
    assume k: "known r entry w" and s: "rearm_for_retry r (le_state entry) lease (ev_clock ev) (ev_token ev 0) (w_ledger w) = Inr (db', c)"
    have o: "once (w_ledger w) (w_writes w)" using k by (simp add: known_def guarded_def)
    then have o': "once db' (w_writes w)" using rearm_keep [OF s] by (rule once_keep)
    then show "guarded (w\<lparr>w_pos := Suc (w_pos w), w_ledger := db'\<rparr>)" by (simp add: guarded_def)
    obtain x where x: "x \<in> set (w_ledger w)" "row_key x = ledger_key r" "dl_contract_id x = text_or_null (le_contract_id entry)"
      using k by (auto simp: known_def)
    have "keyed row_key (w_ledger w)" using o by (simp add: once_def)
    from rearm_entitles [OF s this x(1,2)] x(3) assms o'
    show "?R c (w\<lparr>w_pos := Suc (w_pos w), w_ledger := db'\<rparr>)" by (auto simp: guarded_def rearm_target_def split: if_splits)
  qed (simp_all add: known_def guarded_def)
  fix c
  show "triple (?R c) (case cr_claim_token c of None \<Rightarrow> throw (Exn (IntegrityError message))
       | Some token \<Rightarrow> deliver_claimed rt \<lparr>at_record = r, at_token = token, at_event_type = event_type,
           at_replay = (cr_state c = REPLAY_CLAIMED), at_batch = cr_batch_attempt_id c,
           at_history = le_contract_id entry, at_capabilities = caps\<rparr> None) (\<lambda>_. guarded) (\<lambda>_. guarded)"
    by (cases "cr_claim_token c") (auto intro!: triple_throw triple_pre [OF deliver_claimed_guarded]
        simp: entitled_def at_contract_def)
qed

lemma replay_guarded: "keeps guarded (replay rt d False)"
proof -
  have read: "keeps guarded read_capabilities" by (intro calm_guarded calm_intros)
  have spool: "keeps guarded (on_spool (reads (spool_get (rt_spool rt) d)))" by (intro calm_guarded calm_intros)
  have authorize: "keeps guarded (authorize_capability rt REPLAY r)" for r by (intro calm_guarded calm_intros)
  have noop: "triple (known r entry) (ret ()) (\<lambda>_. known r entry) (\<lambda>_. guarded)" for r entry
    by (simp add: triple_ret)
  have passed: "le_state entry = QUARANTINED \<or> (\<exists>k. le_contract_id entry = Some k \<and> scalar_idempotency_contract_id caps = Some k)"
    if "le_state entry \<noteq> COMMITTED" "\<not> (le_state entry \<in> ambiguous_write_states \<union> guarded_replay_states
        \<and> \<not> replay_is_idempotent caps entry)" "le_state entry \<noteq> CLAIMED" for entry caps
    using that by (cases "le_state entry") (auto simp: ambiguous_write_states_def guarded_replay_states_def replay_is_idempotent_def)
  show ?thesis
    unfolding replay_def Let_def
    apply (rule triple_bind [OF read], rule triple_raise_unless)
     apply (rule triple_bind [OF spool])
    subgoal for caps found
      apply (cases found)
       apply (simp add: triple_throw)
      apply (simp only: option.case)
      apply (rule triple_bind [OF authorize], rule triple_bind [OF ledger_get_known])
      subgoal for r u held
        apply (cases held)
         apply (simp add: triple_throw)
        apply (simp only: option.case)
        apply (rule triple_if)
         apply (rule known.calm_weaken, intro calm_intros)
        apply (rule triple_raise_unless, rule triple_raise_unless)
          apply (simp only: simp_thms if_False)
          apply (rule triple_bind [OF noop], rule rearmed_delivery_guarded, rule passed)
            apply (simp_all add: known.safe)
        done
      done
    apply assumption
    done
qed

section \<open>Any sequence of calls\<close>

text \<open>
  The calls that do not override the guards, by any number of runtimes with any configuration, one after the
  other on the same stores. A call may have been cut off anywhere.
\<close>

inductive runtime_step :: "world \<Rightarrow> world \<Rightarrow> bool" where
  rs_deliver: "runtime_step w (snd (deliver rt r w))"
| rs_deliver_many: "runtime_step w (snd (deliver_many rt rs w))"
| rs_replay: "runtime_step w (snd (replay rt d False w))"

lemma keeps_snd: "keeps I m \<Longrightarrow> I w \<Longrightarrow> I (snd (m w))"
  by (cases "m w"; cases "fst (m w)") (auto simp: triple_def split: sum.splits dest: spec [of _ w])

lemma runtime_step_guarded: "runtime_step w w' \<Longrightarrow> guarded w \<Longrightarrow> guarded w'"
  by (induction rule: runtime_step.induct)
    (blast intro: keeps_snd [OF deliver_guarded] keeps_snd [OF deliver_many_guarded] keeps_snd [OF replay_guarded])+

lemma runtime_steps_guarded: "runtime_step\<^sup>*\<^sup>* w w' \<Longrightarrow> guarded w \<Longrightarrow> guarded w'"
  by (induction rule: rtranclp_induct) (blast dest: runtime_step_guarded)+

lemma text_or_null_None [simp]: "text_or_null None = Null" and text_or_null_Some [simp]: "text_or_null (Some c) = Text c"
  by (simp_all add: text_or_null_def)

lemma settled_contract:
  assumes "settled ws x" "\<not> length (writes_of (row_key x) ws) \<le> 1"
  shows "\<exists>c. \<forall>e \<in> set (writes_of (row_key x) ws). we_contract e = Some c"
proof -
  have all: "\<forall>e \<in> set (writes_of (row_key x) ws). text_or_null (we_contract e) = dl_contract_id x" "dl_contract_id x \<noteq> Null"
    using assms by (simp_all add: settled_def)
  have "writes_of (row_key x) ws \<noteq> []" using assms(2) by auto
  then obtain e where "e \<in> set (writes_of (row_key x) ws)" using list.set_sel(1) by blast
  with all obtain c where c: "dl_contract_id x = Text c" by (metis option.exhaust text_or_null_None text_or_null_Some)
  have "we_contract d = Some c" if "d \<in> set (writes_of (row_key x) ws)" for d
    using bspec [OF all(1) that] c by (cases "we_contract d") simp_all
  then show ?thesis by blast
qed

text \<open>
  C1. Starting from an empty ledger, after any sequence of deliveries, batch deliveries and unforced replays, with
  any crashes, failed or half-reported transactions, clock readings and connector answers, every transfer identity was
  written to the destination at most once, or all of its writes that may have committed were issued under one and the same
  idempotency contract. (A write counts unless the connector proved that it did not commit.)
\<close>

theorem one_contract_per_identity:
  assumes "runtime_step\<^sup>*\<^sup>* w0 w" "w_ledger w0 = []" "w_writes w0 = []"
  shows "length (writes_of k (w_writes w)) \<le> 1
    \<or> (\<exists>c. \<forall>e \<in> set (writes_of k (w_writes w)). we_contract e = Some c)"
proof -
  have "guarded w0" using assms(2,3) by (simp add: guarded_def once_def writes_of_def keyed_def)
  with assms(1) have once: "once (w_ledger w) (w_writes w)" using runtime_steps_guarded by (auto simp: guarded_def)
  show ?thesis
  proof (cases "writes_of k (w_writes w) = []")
    case False
    then obtain x where "row_key x = k" "settled (w_writes w) x" using once unfolding once_def by blast
    then show ?thesis using settled_contract [of "w_writes w" x] by blast
  qed simp
qed

end
