(* ===== verification/RuntimeReceipts.thy ===== *)
theory RuntimeReceipts
  imports RuntimeSafety
begin

text \<open>
  What the receipts of the runtime say: a receipt is about the record it was asked to deliver, \<open>DELIVERED\<close> means that the
  values the record holds were written, acknowledged and committed in the ledger, \<open>DUPLICATE\<close> means nothing was written, and a receipt that calls a retry safe
  is right. Batches return one receipt per record, in order.
\<close>

section \<open>Receipts and the write log\<close>

abbreviation anything :: "exn \<Rightarrow> world \<Rightarrow> bool" where
  "anything \<equiv> \<lambda>_ _. True"

definition logged :: "(nat \<Rightarrow> event) \<Rightarrow> write_event list \<Rightarrow> world \<Rightarrow> bool" where
  "logged T ws w = (w_writes w = ws \<and> w_tape w = T)"

definition held_in :: "delivery_state \<Rightarrow> transport_record \<Rightarrow> ledger \<Rightarrow> bool" where
  "held_in state r db = (\<exists>x \<in> set db. row_key x = ledger_key r \<and> dl_record_digest x = digest r \<and> dl_state x = state_value state)"

text \<open>
  What a record holds for the destination: the fields opened with the private key that the agent authorizes for the
  record at a reading of the clock, and the destination's transforms applied to them. Clock readings and the answers
  of the foreign-key resolver come from the tape.
\<close>

definition opened_in :: "(nat \<Rightarrow> event) \<Rightarrow> runtime \<Rightarrow> transport_record \<Rightarrow> (string \<times> py_value) list \<Rightarrow> world \<Rightarrow> bool" where
  "opened_in T rt r opened w = (\<exists>n key w0. authorize_record_at (rt_primitives rt) (rt_agent rt) r (ev_now (T n)) = Inr key
     \<and> w_tape w0 = T \<and> open_authorized_record (rt_primitives rt) r key w0 = (Inr opened, w))"

definition holds_values :: "(nat \<Rightarrow> event) \<Rightarrow> runtime \<Rightarrow> transport_record \<Rightarrow> (string \<times> py_value) list \<Rightarrow> bool" where
  "holds_values T rt r vs = (\<exists>opened w w'. opened_in T rt r opened w
     \<and> record_uses_runtime_plan rt r \<and> payload_has_exact_mapped_fields rt opened
     \<and> apply_destination_transforms rt opened w = (Inr vs, w') \<and> payload_satisfies_target_contract rt vs)"

definition acknowledged :: "(nat \<Rightarrow> event) \<Rightarrow> runtime \<Rightarrow> transport_record \<Rightarrow> write_event \<Rightarrow> bool" where
  "acknowledged T rt r e = (\<exists>vs. holds_values T rt r vs \<and> we_records e = [r]
     \<and> we_items e = [\<lparr>bw_values = vs, bw_context = context_for r, bw_wire_bytes = int (length (canonical_wire_bytes r))\<rparr>]
     \<and> we_response e = Acknowledged (Some 1))"

definition truthful :: "(nat \<Rightarrow> event) \<Rightarrow> runtime \<Rightarrow> transport_record \<Rightarrow> write_event list \<Rightarrow> delivery_receipt \<Rightarrow> world \<Rightarrow> bool" where
  "truthful T rt r ws rc w = (rc_record_digest rc = digest r \<and> (\<exists>es. w_writes w = ws @ es \<and> length es \<le> 1
     \<and> (rc_status rc = DELIVERED \<longrightarrow> (\<exists>e. es = [e] \<and> acknowledged T rt r e) \<and> held_in COMMITTED r (w_ledger w))
     \<and> (rc_status rc = DUPLICATE \<longrightarrow> es = [])
     \<and> (rc_retry_safe rc \<longrightarrow> (\<forall>e \<in> set es. may_have_committed (we_response e) \<longrightarrow> we_contract e \<noteq> None))))"

lemma triple_true: "triple P m (\<lambda>_ _. True) (\<lambda>_ _. True)"
  by (auto simp: triple_def split: prod.splits sum.splits)

lemma triple_conj: "triple P m Q E \<Longrightarrow> triple P m Q' E' \<Longrightarrow> triple P m (\<lambda>x w. Q x w \<and> Q' x w) (\<lambda>e w. E e w \<and> E' e w)"
  unfolding triple_def by (fastforce split: prod.splits sum.splits)

lemma receipt_value: "triple P (receipt rt q) (\<lambda>rc _. \<exists>t a e c. rc = receipt_for rt q t a e c) anything"
proof -
  have last: "triple (\<lambda>_. True) (case p of (s, c) \<Rightarrow> bindA tick (\<lambda>ev. ret (receipt_for rt q (isoformat (ev_now ev)) a s c)))
      (\<lambda>rc _. \<exists>t a e c. rc = receipt_for rt q t a e c) anything" for p a
    by (cases p) (auto intro!: triple_bind [OF triple_true] triple_ret)
  show ?thesis unfolding receipt_def by (intro triple_bind [OF triple_true] last)
qed

lemma receipt_triple:
  assumes stable: "\<And>w w' :: world. w_ledger w' = w_ledger w \<Longrightarrow> w_writes w' = w_writes w \<Longrightarrow> P w \<Longrightarrow> P w'"
    and post: "\<And>w rc. P w \<Longrightarrow> rc_record_digest rc = digest (rr_record q) \<Longrightarrow> rc_status rc = rr_status q \<Longrightarrow>
      rc_retry_safe rc = (rr_retry_safe q = Some True) \<Longrightarrow> Q rc w"
  shows "triple P (receipt rt q) Q anything"
proof (rule triple_post [OF triple_conj [OF calm_keeps [OF calm_receipt stable] receipt_value]])
  fix rc w
  assume "P w \<and> (\<exists>t a e c. rc = receipt_for rt q t a e c)"
  then show "Q rc w" by (intro post) (auto simp: receipt_for_def split: option.splits)
qed auto

lemma request_sel [simp]:
  "rr_record (request r s reason retry ty at) = r" "rr_status (request r s reason retry ty at) = s"
  "rr_retry_safe (request r s reason retry ty at) = retry"
  by (simp_all add: request_def)

lemma calm_logged: "calm m \<Longrightarrow> keeps (logged T ws) m"
  unfolding logged_def by (rule calm_keeps_tape)

lemma silent_ledger: "keeps (logged T ws) (on_ledger f)"
  by (rule triple_on_ledger) (simp_all add: logged_def)

lemma triple_anything: "triple P m Q E \<Longrightarrow> triple P m Q anything"
  by (erule triple_post) simp_all

lemmas logged_calm = triple_anything [OF calm_logged]
lemmas logged_ledger = triple_anything [OF silent_ledger]

text \<open>Before anything is written every receipt but \<open>DELIVERED\<close> is truthful.\<close>

lemma unwritten_receipt:
  assumes "rr_record q = r" "rr_status q \<noteq> DELIVERED"
  shows "triple (logged T ws) (receipt rt q) (truthful T rt r ws) anything"
  by (rule triple_pre [where P' = "\<lambda>w. w_writes w = ws"], rule receipt_triple) (use assms in \<open>auto simp: logged_def truthful_def\<close>)

lemma quarantine_before_write_truthful:
  "triple (logged T ws) (quarantine_before_write rt r reason token event_type expected attempt retry) (truthful T rt r ws) anything"
proof -
  have get: "triple (logged T ws) (tryA (on_ledger (reads (ledger_get r))) ret (on is_exception (ret None))) (\<lambda>_. logged T ws) anything"
    by (intro logged_calm calm_intros)
  have lost: "triple (logged T ws) (receipt rt (request r AMBIGUOUS_STATUS (Some ''delivery_claim_lost'') (Some False) event_type attempt))
      (truthful T rt r ws) anything"
    by (rule unwritten_receipt) simp_all
  have reconcile: "triple (logged T ws) (case current of
      Some entry \<Rightarrow>
        if le_state entry = COMMITTED then bindA (cleanup [digest r]) (\<lambda>failed.
          receipt rt (request r DUPLICATE (cleanup_reason failed) (Some False) event_type (le_batch_attempt_id entry)))
        else receipt rt (request r AMBIGUOUS_STATUS (Some ''delivery_claim_lost'') (Some False) event_type attempt)
    | None \<Rightarrow> receipt rt (request r AMBIGUOUS_STATUS (Some ''delivery_claim_lost'') (Some False) event_type attempt))
      (truthful T rt r ws) anything" for current
    by (cases current) (auto intro!: lost triple_bind [OF logged_calm [OF calm_stores(3)]] unwritten_receipt)
  show ?thesis
    unfolding quarantine_before_write_def
    by (rule triple_bind [OF logged_calm [OF calm_stores(1)]], rule triple_try [OF silent_ledger])
      (auto intro!: unwritten_receipt triple_on triple_bind [OF get] reconcile)
qed

lemma attempt_quarantine_truthful: "triple (logged T ws) (attempt_quarantine rt a reason retry) (truthful T rt (at_record a) ws) anything"
  unfolding attempt_quarantine_def by (rule quarantine_before_write_truthful)

text \<open>After a write the retry flag must respect its outcome and contract.\<close>

lemma written_receipt:
  assumes "s \<notin> {DELIVERED, DUPLICATE}" "retry \<Longrightarrow> may_have_committed (we_response e) \<Longrightarrow> we_contract e \<noteq> None"
  shows "triple (logged T (ws @ [e])) (attempt_receipt rt a s reason (Some retry)) (truthful T rt (at_record a) ws) anything"
  unfolding attempt_receipt_def
  by (rule triple_pre [where P' = "\<lambda>w. w_writes w = ws @ [e]"], rule receipt_triple) (use assms in \<open>auto simp: logged_def truthful_def\<close>)

lemma settle_not_committed_truthful:
  assumes "we_response e = WriteError NOT_COMMITTED"
  shows "triple (logged T (ws @ [e])) (settle_not_committed rt a) (truthful T rt (at_record a) ws) anything"
  unfolding settle_not_committed_def
  by (intro triple_bind [OF logged_calm [OF calm_stores(1)]] triple_bind [OF logged_ledger] written_receipt)
    (simp_all add: assms may_have_committed_def)

lemma write_retry_safe_contract: "write_retry_safe a \<Longrightarrow> at_contract a \<noteq> None"
  by (auto simp: write_retry_safe_def split: if_splits)

lemma settle_unknown_truthful:
  assumes "we_contract e = at_contract a"
  shows "triple (logged T (ws @ [e])) (settle_unknown rt a) (truthful T rt (at_record a) ws) anything"
  unfolding settle_unknown_def
  by (intro triple_bind [OF logged_calm [OF calm_stores(1)]] triple_bind [OF logged_ledger] written_receipt)
    (simp_all add: assms write_retry_safe_contract)

lemma committed_row:
  assumes "(if at_replay a then mark_replay_committed (at_record a) (at_token a) clock db
      else mark_committed (at_record a) (at_token a) clock db) = Inr db'"
  shows "held_in COMMITTED (at_record a) db'"
proof -
  obtain expected where "transition (at_record a) COMMITTED (at_token a) expected None False False False None clock db = Inr db'"
    using assms by (auto simp: mark_replay_committed_def mark_committed_def split: if_splits)
  then obtain now u where t: "rowcount (fenced (at_record a) expected (at_token a) u) db = 1"
    "db' = update_where (fenced (at_record a) expected (at_token a) u) (moved COMMITTED now None None None) db"
    by (elim transition_shape) simp
  obtain x where x: "x \<in> set db" "fenced (at_record a) expected (at_token a) u x" using t(1) by (rule fenced_member)
  then have "moved COMMITTED now None None None x \<in> set db'" unfolding t(2) by (rule in_update_where_hit)
  then show ?thesis
    unfolding held_in_def using x(2) by (intro bexI [of _ "moved COMMITTED now None None None x"]) (auto simp: fenced_def moved_def row_key_def)
qed

lemma settle_committed_truthful:
  assumes "acknowledged T rt (at_record a) e" "we_contract e = at_contract a"
  shows "triple (logged T (ws @ [e])) (settle_committed rt a) (truthful T rt (at_record a) ws) anything"
proof -
  let ?done = "\<lambda>w. w_writes w = ws @ [e] \<and> held_in COMMITTED (at_record a) (w_ledger w)"
  have mark: "triple (logged T (ws @ [e])) (on_ledger (\<lambda>ev db. no_result (
         if at_replay a then mark_replay_committed (at_record a) (at_token a) (ev_clock ev) db
         else mark_committed (at_record a) (at_token a) (ev_clock ev) db))) (\<lambda>_. ?done) (\<lambda>_. logged T (ws @ [e]))"
    by (rule triple_on_ledger) (auto simp: logged_def simp del: if_split dest: committed_row)
  have clean: "triple ?done (cleanup ds) (\<lambda>_. ?done) anything" for ds
    by (rule triple_anything, rule calm_keeps) (auto intro: calm_intros)
  have delivered: "triple ?done (attempt_receipt rt a DELIVERED reason retry) (truthful T rt (at_record a) ws) anything"
    if "retry \<noteq> Some True" for reason retry
    unfolding attempt_receipt_def by (rule receipt_triple) (use assms(1) that in \<open>auto simp: truthful_def\<close>)
  have failed: "triple (logged T (ws @ [e])) (bindA (spool_quarantine rt r reason) (\<lambda>_.
      attempt_receipt rt a AMBIGUOUS_STATUS reason' (Some (write_retry_safe a)))) (truthful T rt (at_record a) ws) anything" for r reason reason'
    by (intro triple_bind [OF logged_calm [OF calm_stores(1)]] written_receipt) (simp_all add: assms(2) write_retry_safe_contract)
  show ?thesis
    unfolding settle_committed_def
    by (intro triple_try [OF mark] triple_bind [OF clean] delivered triple_on failed) auto
qed

section \<open>Single deliveries\<close>

lemma write_call_logs:
  "triple (logged T ws) (write_call rs items c)
     (\<lambda>response. logged T (ws @ [\<lparr>we_records = rs, we_items = items, we_contract = c, we_response = response\<rparr>])) anything"
  by (rule tripleI) (auto simp: write_call_def Let_def logged_def)

lemma write_claimed_truthful:
  assumes "holds_values T rt (at_record a) vs"
  shows "triple (logged T ws) (write_claimed rt a vs) (truthful T rt (at_record a) ws) anything"
proof -
  let ?item = "\<lparr>bw_values = vs, bw_context = context_for (at_record a), bw_wire_bytes = int (length (canonical_wire_bytes (at_record a)))\<rparr>"
  let ?e = "\<lambda>response. \<lparr>we_records = [at_record a], we_items = [?item], we_contract = at_contract a, we_response = response\<rparr>"
  have settle: "triple (logged T (ws @ [?e response])) (case response of
        Acknowledged n \<Rightarrow> if n = Some 1 then settle_committed rt a else settle_unknown rt a
      | WriteError NOT_COMMITTED \<Rightarrow> settle_not_committed rt a | _ \<Rightarrow> settle_unknown rt a) (truthful T rt (at_record a) ws) anything" for response
    using assms by (auto split: write_response.split write_outcome.split simp: acknowledged_def
        intro!: settle_committed_truthful settle_unknown_truthful settle_not_committed_truthful)
  have lost: "triple (logged T ws) (attempt_receipt rt a AMBIGUOUS_STATUS reason (Some False)) (truthful T rt (at_record a) ws) anything" for reason
    unfolding attempt_receipt_def by (rule unwritten_receipt) simp_all
  show ?thesis
    unfolding write_claimed_def start_attempt_def
    by (rule triple_try [OF silent_ledger]) (auto intro!: triple_bind [OF write_call_logs] settle triple_on lost)
qed

lemma triple_fact: "(A \<Longrightarrow> triple P m Q E) \<Longrightarrow> triple (\<lambda>w. P w \<and> A) m Q E"
  by (auto simp: triple_def)

abbreviation authorized_key :: "(nat \<Rightarrow> event) \<Rightarrow> runtime \<Rightarrow> transport_record \<Rightarrow> bytes \<Rightarrow> bool" where
  "authorized_key T rt r key \<equiv> \<exists>n. authorize_record_at (rt_primitives rt) (rt_agent rt) r (ev_now (T n)) = Inr key"

lemma authorize_record_key:
  "triple (logged T ws) (authorize_record (rt_primitives rt) (rt_agent rt) r) (\<lambda>key w. logged T ws w \<and> authorized_key T rt r key)
     (\<lambda>_. logged T ws)"
  by (rule tripleI) (auto simp: authorize_record_def bindA_def tick_def lift_result_def ret_def throw_def logged_def split: sum.splits)

lemma open_authorized_opens:
  assumes "authorized_key T rt r key"
  shows "triple (logged T ws) (open_authorized_record (rt_primitives rt) r key) (\<lambda>vs w. logged T ws w \<and> opened_in T rt r vs w) (\<lambda>_. logged T ws)"
proof -
  have "triple (logged T ws) (open_authorized_record (rt_primitives rt) r key) (\<lambda>vs. opened_in T rt r vs) anything"
    using assms by (intro tripleI) (auto simp: logged_def opened_in_def split: prod.splits sum.splits)
  from triple_conj [OF calm_logged [OF calm_agent(2)] this] show ?thesis by (rule triple_post) simp_all
qed

lemma opening_opens:
  assumes "\<And>k. key = Some k \<Longrightarrow> authorized_key T rt r k"
  shows "triple (logged T ws) (case key of None \<Rightarrow> open_record (rt_primitives rt) (rt_agent rt) r
      | Some k \<Rightarrow> open_authorized_record (rt_primitives rt) r k) (\<lambda>vs w. logged T ws w \<and> opened_in T rt r vs w) (\<lambda>_. logged T ws)"
proof (cases key)
  case None
  have "triple (logged T ws) (open_record (rt_primitives rt) (rt_agent rt) r) (\<lambda>vs w. logged T ws w \<and> opened_in T rt r vs w) (\<lambda>_. logged T ws)"
    unfolding open_record_def by (rule triple_bind [OF authorize_record_key], rule triple_fact, rule open_authorized_opens)
  with None show ?thesis by simp
qed (use open_authorized_opens assms in auto)

lemma transforms_hold:
  assumes "record_uses_runtime_plan rt r" "payload_has_exact_mapped_fields rt opened"
  shows "triple (\<lambda>w. logged T ws w \<and> opened_in T rt r opened w) (apply_destination_transforms rt opened)
    (\<lambda>vs w. logged T ws w \<and> (payload_satisfies_target_contract rt vs \<longrightarrow> holds_values T rt r vs)) (\<lambda>_. logged T ws)"
proof -
  have "triple (opened_in T rt r opened) (apply_destination_transforms rt opened)
      (\<lambda>vs _. payload_satisfies_target_contract rt vs \<longrightarrow> holds_values T rt r vs) anything"
    using assms by (intro tripleI) (auto simp: holds_values_def split: prod.splits sum.splits)
  from triple_conj [OF triple_pre [OF calm_logged [OF calm_transforms]] triple_pre [OF this],
      where P = "\<lambda>w. logged T ws w \<and> opened_in T rt r opened w"]
  show ?thesis by (rule triple_post) simp_all
qed

lemma deliver_claimed_truthful:
  assumes "\<And>k. key = Some k \<Longrightarrow> authorized_key T rt (at_record a) k"
  shows "triple (logged T ws) (deliver_claimed rt a key) (truthful T rt (at_record a) ws) anything"
proof -
  have check: "triple (logged T ws) (check_and_write rt a vs) (truthful T rt (at_record a) ws) anything"
    if "payload_satisfies_target_contract rt vs \<longrightarrow> holds_values T rt (at_record a) vs" for vs
    using that unfolding check_and_write_def
    by (auto intro!: attempt_quarantine_truthful triple_bind [OF logged_calm [OF calm_capabilities(2)]] write_claimed_truthful)
  have reject: "triple (logged T ws) (on is_exception (attempt_quarantine rt a reason retry) e) (truthful T rt (at_record a) ws) anything"
    for reason retry e
    by (intro triple_on attempt_quarantine_truthful) simp
  have quarantined: "triple (\<lambda>w. logged T ws w \<and> opened_in T rt (at_record a) vs w) (attempt_quarantine rt a reason retry)
      (truthful T rt (at_record a) ws) anything" for vs reason retry
    by (rule triple_pre [OF attempt_quarantine_truthful]) simp
  have opened: "triple (\<lambda>w. logged T ws w \<and> opened_in T rt (at_record a) vs w)
      (tryA (apply_destination_transforms rt vs) (check_and_write rt a)
         (on is_exception (attempt_quarantine rt a reason retry))) (truthful T rt (at_record a) ws) anything"
    if "\<not> (\<not> record_uses_runtime_plan rt (at_record a) \<or> \<not> payload_has_exact_mapped_fields rt vs)" for vs reason retry
    by (rule triple_try [OF transforms_hold]) (use that in \<open>auto intro: triple_fact check reject\<close>)
  show ?thesis
    unfolding deliver_claimed_def
    by (intro triple_try [OF opening_opens [OF assms]] triple_if quarantined opened reject)
qed

lemma dispose_truthful:
  "triple (logged T ws) (dispose rt r message c) (\<lambda>d w. case d of Inl rc \<Rightarrow> truthful T rt r ws rc w | Inr _ \<Rightarrow> logged T ws w) anything"
proof -
  have now: "triple (logged T ws) (bindA (receipt rt q) (\<lambda>x. ret (Inl x)))
      (\<lambda>d w. case d of Inl rc \<Rightarrow> truthful T rt r ws rc w | Inr (_ :: string) \<Rightarrow> logged T ws w) anything"
    if "rr_record q = r" "rr_status q \<noteq> DELIVERED" for q
    by (rule triple_bind [OF unwritten_receipt [OF that]], rule triple_ret) simp
  show ?thesis
    unfolding dispose_def
    by (cases "cr_disposition c") (auto split: option.split intro!: now triple_bind [OF logged_calm [OF calm_stores(1)]] triple_throw triple_ret)
qed

lemma deliver_with_capabilities_truthful: "triple (logged T ws) (deliver_with_capabilities rt caps r) (truthful T rt r ws) anything"
proof -
  have go: "triple (\<lambda>w. case d of Inl rc \<Rightarrow> truthful T rt r ws rc w | Inr _ \<Rightarrow> logged T ws w)
     (case d of Inl x \<Rightarrow> ret x | Inr token \<Rightarrow> deliver_claimed rt \<lparr>at_record = r, at_token = token, at_event_type = ''delivery'',
        at_replay = False, at_batch = None, at_history = None, at_capabilities = caps\<rparr> (Some key)) (truthful T rt r ws) anything"
    if "authorized_key T rt r key" for d key
    using deliver_claimed_truthful [where key = "Some key" and a = "\<lparr>at_record = r, at_token = projr d, at_event_type = ''delivery'',
        at_replay = False, at_batch = None, at_history = None, at_capabilities = caps\<rparr>"] that
    by (cases d) (auto intro: triple_ret)
  show ?thesis
    unfolding deliver_with_capabilities_def
    by (intro triple_raise_unless triple_bind [OF triple_anything [OF authorize_record_key]] triple_fact
        triple_bind [OF logged_calm [OF calm_authorize]]
        triple_bind [OF logged_ledger] triple_bind [OF dispose_truthful] go) simp_all
qed

lemma deliver_truthful: "triple (logged T ws) (deliver rt r) (truthful T rt r ws) anything"
  unfolding deliver_def by (intro triple_bind [OF logged_calm [OF calm_capabilities(1)]] deliver_with_capabilities_truthful)

section \<open>Replays\<close>

lemma spool_get_digest: "spool_get cfg d sp = Inr (Some r) \<Longrightarrow> digest r = d"
  by (auto simp: spool_get_def split: option.splits cell.splits sum.splits err.splits)

lemma triple_on_spool:
  assumes "\<And>w ev sp' x. P w \<Longrightarrow> f ev (w_spool w) = Inr (sp', x) \<Longrightarrow> Q x (w\<lparr>w_pos := Suc (w_pos w), w_spool := sp'\<rparr>)"
  shows "triple P (on_spool f) Q anything"
  by (rule tripleI) (auto simp: on_spool_def transact_def Let_def split: fault.splits sum.splits prod.splits intro: assms)

lemma read_capabilities_logged:
  "triple (\<lambda>w. logged T ws w \<and> w_spool w = sp) read_capabilities (\<lambda>_ w. logged T ws w \<and> w_spool w = sp) anything"
  by (rule tripleI) (auto simp: read_capabilities_def bindA_def tick_def lift_result_def ret_def throw_def logged_def split: sum.splits)

lemma spool_get_logged:
  "triple (\<lambda>w. logged T ws w \<and> w_spool w = sp) (on_spool (reads (spool_get cfg d)))
     (\<lambda>found w. logged T ws w \<and> (\<forall>r. found = Some r \<longrightarrow> digest r = d \<and> spool_get cfg d sp = Inr (Some r))) anything"
  by (rule triple_on_spool) (auto simp: logged_def reads_def dest: spool_get_digest)

lemma replay_truthful:
  "triple (\<lambda>w. logged T ws w \<and> w_spool w = sp) (replay rt d force)
     (\<lambda>rc w. \<exists>r. (digest r = d \<and> spool_get (rt_spool rt) d sp = Inr (Some r)) \<and> truthful T rt r ws rc w) anything"
proof -
  have wrap: "triple (logged T ws) m (\<lambda>rc w. \<exists>r. A r \<and> truthful T rt r ws rc w) anything"
    if "triple (logged T ws) m (truthful T rt r ws) anything" "A r" for m r and A :: "transport_record \<Rightarrow> bool"
    by (rule triple_post [OF that(1)]) (use that(2) in auto)
  have force: "triple (logged T ws) (if c then raise_unless b e (authorize_capability rt op r) else ret ()) (\<lambda>_. logged T ws) anything" for c b e op r
    by (intro logged_calm calm_intros)
  have rearmed: "triple (logged T ws) (bindA (on_ledger f) (\<lambda>c. case cr_claim_token c of None \<Rightarrow> throw x
      | Some token \<Rightarrow> deliver_claimed rt (a c token) None)) (truthful T rt r ws) anything"
    if "\<And>c token. at_record (a c token) = r" for f x a r
  proof (rule triple_bind [OF logged_ledger])
    fix c
    show "triple (logged T ws) (case cr_claim_token c of None \<Rightarrow> throw x | Some token \<Rightarrow> deliver_claimed rt (a c token) None) (truthful T rt r ws) anything"
      using that deliver_claimed_truthful [where key = None and a = "a c _"] by (cases "cr_claim_token c") (auto intro: triple_throw)
  qed
  show ?thesis
    unfolding replay_def Let_def
    apply (rule triple_bind [OF read_capabilities_logged], rule triple_raise_unless)
     apply (rule triple_bind [OF spool_get_logged])
    subgoal for caps found
      apply (cases found)
       apply (simp add: triple_throw)
      apply (simp only: option.case option.inject)
      apply (rule triple_fact)
      apply (rule triple_bind [OF logged_calm [OF calm_authorize]], rule triple_bind [OF logged_calm [OF calm_reads]])
      subgoal for r u held
        apply (cases held)
         apply (simp add: triple_throw)
        apply (simp only: option.case)
        apply (rule wrap)
         apply (rule triple_if)
          apply (rule triple_bind [OF logged_calm [OF calm_stores(3)]], rule unwritten_receipt, simp, simp)
         apply (rule triple_raise_unless, rule triple_raise_unless)
           apply (rule triple_bind [OF force], rule rearmed)
           apply simp_all
        done
      done
    apply simp
    done
qed

section \<open>Properties of single receipts\<close>

text \<open>What \<open>DELIVERED\<close> promises of a record, between the worlds before and after the call.\<close>

definition delivery_made :: "runtime \<Rightarrow> transport_record \<Rightarrow> world \<Rightarrow> world \<Rightarrow> bool" where
  "delivery_made rt r w w' = (\<exists>e vs. w_writes w' = w_writes w @ [e] \<and> we_records e = [r]
     \<and> we_items e = [\<lparr>bw_values = vs, bw_context = context_for r, bw_wire_bytes = int (length (canonical_wire_bytes r))\<rparr>]
     \<and> holds_values (w_tape w) rt r vs \<and> we_response e = Acknowledged (Some 1) \<and> held_in COMMITTED r (w_ledger w'))"

lemma truthful_delivery:
  "truthful T rt r ws rc w' \<Longrightarrow> rc_status rc = DELIVERED \<Longrightarrow> T = w_tape w \<Longrightarrow> ws = w_writes w \<Longrightarrow> delivery_made rt r w w'"
  unfolding truthful_def acknowledged_def delivery_made_def by blast

text \<open>
  C5. A delivery or a replay that is reported as \<open>DELIVERED\<close> called the destination exactly once, with that record, its
  delivery context and the values that the record holds: its fields opened with the key the agent authorizes for
  it and put through the destination's transforms, which satisfy the target contract. The
  destination acknowledged exactly one record and the ledger holds the record as committed. For a replay the
  record is the one the spool held under the requested digest.
\<close>

theorem delivered_is_committed:
  assumes "rc_status rc = DELIVERED"
  shows "(deliver rt r w = (Inr rc, w') \<longrightarrow> delivery_made rt r w w')
    \<and> (replay rt d force w = (Inr rc, w') \<longrightarrow>
        (\<exists>x. digest x = d \<and> spool_get (rt_spool rt) d (w_spool w) = Inr (Some x) \<and> delivery_made rt x w w'))"
proof (intro conjI impI)
  assume "deliver rt r w = (Inr rc, w')"
  from tripleD [OF deliver_truthful _ this, of "w_tape w" "w_writes w"] have "truthful (w_tape w) rt r (w_writes w) rc w'"
    by (simp add: logged_def)
  then show "delivery_made rt r w w'" using assms by (rule truthful_delivery) simp_all
next
  assume "replay rt d force w = (Inr rc, w')"
  from tripleD [OF replay_truthful _ this, of "w_tape w" "w_writes w" "w_spool w"]
  obtain x where "digest x = d" "spool_get (rt_spool rt) d (w_spool w) = Inr (Some x)" "truthful (w_tape w) rt x (w_writes w) rc w'"
    by (auto simp: logged_def)
  then show "\<exists>x. digest x = d \<and> spool_get (rt_spool rt) d (w_spool w) = Inr (Some x) \<and> delivery_made rt x w w'"
    using truthful_delivery [OF _ assms refl refl] by blast
qed

text \<open>
  C3. Receipts are honest about retries, for deliveries and for replays, forced or not: at most one write was
  issued, \<open>DUPLICATE\<close> means none was, and when the receipt says that a retry is safe, a write that was
  issued provably did not commit or was made under an idempotency contract.
\<close>

theorem receipts_are_honest:
  assumes "deliver rt r w = (Inr rc, w') \<or> replay rt d force w = (Inr rc, w')"
  shows "\<exists>es. w_writes w' = w_writes w @ es \<and> length es \<le> 1 \<and> (rc_status rc = DUPLICATE \<longrightarrow> es = [])
    \<and> (rc_retry_safe rc \<longrightarrow> (\<forall>e \<in> set es. we_response e = WriteError NOT_COMMITTED \<or> we_contract e \<noteq> None))"
proof -
  have "\<exists>r'. truthful (w_tape w) rt r' (w_writes w) rc w'"
    using assms tripleD [OF deliver_truthful, of "w_tape w" "w_writes w" w rt r rc w']
      tripleD [OF replay_truthful, of "w_tape w" "w_writes w" w "w_spool w" rt d force rc w']
    by (auto simp: logged_def)
  then show ?thesis unfolding truthful_def may_have_committed_def by blast
qed

section \<open>When a replay may write\<close>

definition force_authorized :: "runtime \<Rightarrow> transport_record \<Rightarrow> bool" where
  "force_authorized rt r = (\<exists>a now. rt_authorizer rt = Some a \<and> authorizer_authorize (ed25519_ok (rt_primitives rt)) a
     FORCE_UNCERTAIN_REPLAY (tenant r) (rt_connector_id rt) (Some (plan_digest r)) now = Inr ())"

definition replay_allowed :: "runtime \<Rightarrow> string \<Rightarrow> bool \<Rightarrow> world \<Rightarrow> bool" where
  "replay_allowed rt d force w = (\<exists>r entry caps. spool_get (rt_spool rt) d (w_spool w) = Inr (Some r)
     \<and> ledger_get r (w_ledger w) = Inr (Some entry) \<and> ev_capabilities (w_tape w (w_pos w)) = Inr caps
     \<and> le_state entry \<noteq> COMMITTED \<and> (le_state entry = QUARANTINED \<or> replay_is_idempotent caps entry \<or> force \<and> force_authorized rt r))"

definition untouched :: "world \<Rightarrow> world \<Rightarrow> bool" where
  "untouched w0 w = (w_writes w = w_writes w0 \<and> w_ledger w = w_ledger w0 \<and> w_spool w = w_spool w0)"

abbreviation silent :: "world \<Rightarrow> world \<Rightarrow> bool" where
  "silent w0 \<equiv> \<lambda>w. w_writes w = w_writes w0"

lemma read_capabilities_untouched:
  "triple (\<lambda>w. w = w0) read_capabilities (\<lambda>caps w. ev_capabilities (w_tape w0 (w_pos w0)) = Inr caps \<and> untouched w0 w) (\<lambda>_. silent w0)"
  by (rule tripleI) (auto simp: read_capabilities_def bindA_def tick_def lift_result_def ret_def throw_def untouched_def split: sum.splits)

lemma spool_get_untouched:
  "triple (untouched w0) (on_spool (reads (spool_get cfg d)))
     (\<lambda>found w. untouched w0 w \<and> spool_get cfg d (w_spool w0) = Inr found) (\<lambda>_. silent w0)"
  by (rule tripleI) (auto simp: on_spool_def transact_def reads_def Let_def untouched_def split: fault.splits sum.splits prod.splits)

lemma ledger_get_untouched:
  "triple (untouched w0) (on_ledger (reads (ledger_get r)))
     (\<lambda>held w. untouched w0 w \<and> ledger_get r (w_ledger w0) = Inr held) (\<lambda>_. silent w0)"
  by (rule triple_on_ledger) (auto simp: reads_def untouched_def)

lemma authorize_untouched:
  "triple (untouched w0) (authorize_capability rt operation r) (\<lambda>_ w. untouched w0 w \<and>
     (\<forall>a. rt_authorizer rt = Some a \<longrightarrow> (\<exists>now. authorizer_authorize (ed25519_ok (rt_primitives rt)) a operation (tenant r)
        (rt_connector_id rt) (Some (plan_digest r)) now = Inr ()))) (\<lambda>_. silent w0)"
  by (rule tripleI)
    (auto simp: authorize_capability_def bindA_def tick_def lift_result_def ret_def throw_def untouched_def split: option.splits sum.splits)

lemma calm_silent: "calm m \<Longrightarrow> triple (untouched w0) m (\<lambda>_ w. w_writes w = w_writes w0 \<or> A) (\<lambda>_ w. w_writes w = w_writes w0 \<or> A)"
  by (rule triple_pre [OF triple_post [OF calm_keeps [where I = "silent w0"]]]) (auto simp: untouched_def)

lemma force_untouched:
  "triple (untouched w0)
     (if c then raise_unless (rt_authorizer rt \<noteq> None) e (authorize_capability rt FORCE_UNCERTAIN_REPLAY r) else ret ())
     (\<lambda>_ w. untouched w0 w \<and> (c \<longrightarrow> force_authorized rt r)) (\<lambda>_. silent w0)"
proof (cases c)
  case True
  have "triple (untouched w0) (raise_unless (rt_authorizer rt \<noteq> None) e (authorize_capability rt FORCE_UNCERTAIN_REPLAY r))
      (\<lambda>_ w. untouched w0 w \<and> force_authorized rt r) (\<lambda>_. silent w0)"
    by (rule triple_raise_unless, rule triple_post [OF authorize_untouched]) (auto simp: force_authorized_def untouched_def)
  with True show ?thesis by simp
qed (simp add: triple_ret)

lemma triple_trivial: "A \<Longrightarrow> triple P m (\<lambda>_ w. B w \<or> A) (\<lambda>_ w. C w \<or> A)"
  by (auto simp: triple_def split: prod.splits sum.splits)

lemma entry_writable:
  assumes "\<not> (le_state entry \<in> ambiguous_write_states \<union> guarded_replay_states \<and> \<not> replay_is_idempotent caps entry \<and> \<not> force)"
    and "\<not> (le_state entry = CLAIMED \<and> \<not> force)" "le_state entry \<noteq> COMMITTED"
    and "force \<and> le_state entry \<in> ambiguous_write_states \<union> guarded_replay_states \<union> {CLAIMED} \<Longrightarrow> authorized"
  shows "le_state entry = QUARANTINED \<or> replay_is_idempotent caps entry \<or> force \<and> authorized"
  using assms by (cases "le_state entry") (auto simp: ambiguous_write_states_def guarded_replay_states_def)

lemma replay_allowed_triple:
  "triple (\<lambda>w. w = w0) (replay rt d force) (\<lambda>_ w. w_writes w = w_writes w0 \<or> replay_allowed rt d force w0)
     (\<lambda>_ w. w_writes w = w_writes w0 \<or> replay_allowed rt d force w0)"
proof -
  let ?A = "replay_allowed rt d force w0"
  have e: "triple P m Q (\<lambda>_. silent w0) \<Longrightarrow> triple P m Q (\<lambda>_ w. w_writes w = w_writes w0 \<or> ?A)" for P and m :: "'x act" and Q
    by (erule triple_post) auto
  show ?thesis
    unfolding replay_def Let_def
    apply (rule triple_bind [OF e [OF read_capabilities_untouched]])
    subgoal for caps
      apply (rule triple_raise_unless)
       apply (rule triple_pre [where P' = "\<lambda>w. untouched w0 w \<and> ev_capabilities (w_tape w0 (w_pos w0)) = Inr caps", OF triple_fact])
        apply (rule triple_bind [OF e [OF spool_get_untouched]])
      subgoal for found
        apply (rule triple_fact)
        apply (cases found)
         apply (simp only: option.case, rule calm_silent, rule calm_throw)
        apply (simp only: option.case)
        apply (rule triple_bind [OF e [OF authorize_untouched]])
        apply (rule triple_fact)
        apply (rule triple_bind [OF e [OF ledger_get_untouched]])
        subgoal for r u held
          apply (rule triple_fact)
          apply (cases held)
           apply (simp only: option.case, rule calm_silent, rule calm_throw)
          apply (simp only: option.case)
          apply (rule triple_if)
           apply (rule calm_silent, intro calm_intros)
          apply (rule triple_raise_unless, rule triple_raise_unless)
            apply (rule triple_bind [OF e [OF force_untouched]])
            apply (rule triple_fact)
            apply (rule triple_trivial)
          subgoal for entry
            using entry_writable [of entry caps force "force_authorized rt r"] unfolding replay_allowed_def by blast
           apply (simp_all add: untouched_def)
          done
        done
       apply (auto simp: untouched_def)
      done
    done
qed

text \<open>
  C4. A replay calls the destination only for a sealed record that the spool holds and the ledger knows, and only
  when its delivery is quarantined before any write, or its recorded idempotency contract is the one the
  connector still has (and covers batches where a batch wrote it), or the caller forces it with a grant for forced
  replays. In every other case (committed, claimed, uncertain, interrupted) nothing is written.
\<close>

theorem replay_writes_only_when_allowed:
  assumes "w_writes (snd (replay rt d force w)) \<noteq> w_writes w"
  shows "\<exists>r entry caps. spool_get (rt_spool rt) d (w_spool w) = Inr (Some r) \<and> ledger_get r (w_ledger w) = Inr (Some entry)
    \<and> ev_capabilities (w_tape w (w_pos w)) = Inr caps \<and> le_state entry \<noteq> COMMITTED
    \<and> (le_state entry = QUARANTINED \<or> replay_is_idempotent caps entry \<or> force \<and> force_authorized rt r)"
proof -
  have "replay_allowed rt d force w"
    using replay_allowed_triple [of w rt d force] assms by (cases "replay rt d force w"; cases "fst (replay rt d force w)")
      (auto simp: triple_def dest: spec [of _ w])
  then show ?thesis unfolding replay_allowed_def .
qed

end
