(* ===== verification/RuntimeBatches.thy ===== *)
theory RuntimeBatches
  imports RuntimeReceipts
begin

text \<open>
  Batch deliveries: how the records are split into atomic batches, and that the receipts come back one per
  record in the order of the records.
\<close>

section \<open>Splitting\<close>

text \<open>What one atomic batch may look like.\<close>

definition chunk_ok :: "int \<Rightarrow> int \<Rightarrow> transport_record list \<Rightarrow> bool" where
  "chunk_ok max_records max_bytes c =
     (c \<noteq> [] \<and> (length c = 1 \<or> int (length c) \<le> max_records \<and> wire_total c \<le> max_bytes)
      \<and> distinct (map ledger_key c) \<and> (\<forall>r \<in> set c. record_scope r = record_scope (hd c)))"

lemma wire_total_append [simp]: "wire_total (xs @ ys) = wire_total xs + wire_total ys"
  by (simp add: wire_total_def)

lemma chunk_ok_single: "chunk_ok max_records max_bytes [r]"
  by (simp add: chunk_ok_def)

lemma chunk_ok_snoc:
  assumes "cur = [] \<or> chunk_ok max_records max_bytes cur" "\<not> would_overflow max_records max_bytes cur r"
  shows "chunk_ok max_records max_bytes (cur @ [r])"
proof (cases "cur = []")
  case False
  then have cur: "distinct (map ledger_key cur)" "\<forall>x \<in> set cur. record_scope x = record_scope (hd cur)"
    using assms(1) unfolding chunk_ok_def by blast+
  have fits: "int (length (cur @ [r])) \<le> max_records" "wire_total (cur @ [r]) \<le> max_bytes"
    "record_scope r = record_scope (hd cur)" "ledger_key r \<notin> set (map ledger_key cur)"
    using False assms(2) by (simp_all add: would_overflow_def not_less not_le)
  have "hd (cur @ [r]) = hd cur" using False by simp
  then have "\<forall>x \<in> set (cur @ [r]). record_scope x = record_scope (hd (cur @ [r]))" using cur(2) fits(3) by (simp only: set_append) auto
  moreover have "distinct (map ledger_key (cur @ [r]))" using cur(1) fits(4) by simp
  ultimately show ?thesis using fits(1,2) unfolding chunk_ok_def by blast
qed (simp add: chunk_ok_single)

lemma split_batch_ok:
  assumes "\<forall>c \<in> set done. chunk_ok max_records max_bytes c" "cur = [] \<or> chunk_ok max_records max_bytes cur"
  shows "concat (split_batch max_records max_bytes done cur rs) = concat done @ cur @ rs
    \<and> (\<forall>c \<in> set (split_batch max_records max_bytes done cur rs). chunk_ok max_records max_bytes c)"
  using assms
proof (induction rs arbitrary: "done" cur)
  case (Cons r rs)
  let ?full = "would_overflow max_records max_bytes cur r"
  let ?done = "if ?full then done @ [cur] else done" and ?cur = "if ?full then [] else cur"
  have cur: "?full \<Longrightarrow> chunk_ok max_records max_bytes cur" using Cons.prems(2) by (auto simp: would_overflow_def)
  have d: "\<forall>c \<in> set ?done. chunk_ok max_records max_bytes c" "?cur = [] \<or> chunk_ok max_records max_bytes ?cur"
    using Cons.prems cur by auto
  show ?case
  proof (cases "max_bytes < int (length (canonical_wire_bytes r))")
    case True
    have "\<forall>c \<in> set ((if ?cur = [] then ?done else ?done @ [?cur]) @ [[r]]). chunk_ok max_records max_bytes c"
      using d chunk_ok_single by (auto split: if_splits)
    from Cons.IH [OF this, of "[]"] show ?thesis using True by (auto simp: Let_def)
  next
    case False
    have "chunk_ok max_records max_bytes (?cur @ [r])" using chunk_ok_snoc [OF Cons.prems(2)] chunk_ok_single by auto
    with Cons.IH [OF d(1), of "?cur @ [r]"] False show ?thesis by (auto simp: Let_def)
  qed
qed auto

text \<open>
  C14. Splitting a batch: the chunks, put together, are the records in their order; no chunk is empty; every chunk
  is one record or stays within the limits on records and wire bytes; no chunk repeats a transfer identity; and all
  records of a chunk share tenant, destination, transfer and plan.
\<close>

theorem split_batch_partitions:
  "concat (split_batch max_records max_bytes [] [] rs) = rs
   \<and> (\<forall>c \<in> set (split_batch max_records max_bytes [] [] rs). c \<noteq> []
        \<and> (length c = 1 \<or> int (length c) \<le> max_records \<and> wire_total c \<le> max_bytes)
        \<and> distinct (map ledger_key c) \<and> (\<forall>r \<in> set c. record_scope r = record_scope (hd c)))"
proof -
  have "concat (split_batch max_records max_bytes [] [] rs) = rs
      \<and> (\<forall>c \<in> set (split_batch max_records max_bytes [] [] rs). chunk_ok max_records max_bytes c)"
    using split_batch_ok [of "[]" max_records max_bytes "[]" rs] by simp
  then show ?thesis unfolding chunk_ok_def .
qed

section \<open>Receipts in order\<close>

text \<open>Places filled so far carry the digest of the record at that place.\<close>

definition about :: "transport_record list \<Rightarrow> delivery_receipt option list \<Rightarrow> bool" where
  "about rs receipts = list_all2 (\<lambda>r x. \<forall>rc. x = Some rc \<longrightarrow> rc_record_digest rc = digest r) rs receipts"

definition placed :: "transport_record list \<Rightarrow> nat \<times> transport_record \<times> 'b \<Rightarrow> bool" where
  "placed rs p = (fst p < length rs \<and> rs ! fst p = fst (snd p))"

lemma triple_vacuous: "(\<And>w. \<not> P w) \<Longrightarrow> triple P m Q E"
  by (simp add: triple_def)

lemma about_update:
  assumes "about rs receipts" "i < length rs" "rs ! i = r" "rc_record_digest x = digest r"
  shows "about rs (receipts[i := Some x])"
  using assms by (auto simp: about_def list_all2_conv_all_nth nth_list_update)

lemma receipt_digest: "triple P (receipt rt q) (\<lambda>rc _. rc_record_digest rc = digest (rr_record q)) anything"
  by (rule triple_post [OF receipt_value]) (auto simp: receipt_for_def)

lemma quarantine_before_write_digest:
  "triple P (quarantine_before_write rt r reason token event_type expected attempt retry) (\<lambda>rc _. rc_record_digest rc = digest r) anything"
proof -
  have one: "triple P (quarantine_before_write rt r reason token event_type expected attempt retry) (\<lambda>rc w. rc_record_digest rc = digest r) anything"
    if "P = logged T ws" for T ws P
    unfolding that by (rule triple_post [OF quarantine_before_write_truthful]) (auto simp: truthful_def)
  show ?thesis using one [OF refl] by (auto simp: triple_def logged_def)
qed

lemma dispose_digest:
  "triple P (dispose rt r message c) (\<lambda>d _. \<forall>rc. d = Inl rc \<longrightarrow> rc_record_digest rc = digest r) anything"
proof -
  have one: "triple (logged T ws) (dispose rt r message c) (\<lambda>d _. \<forall>rc. d = Inl rc \<longrightarrow> rc_record_digest rc = digest r) anything" for T ws
    by (rule triple_post [OF dispose_truthful]) (auto simp: truthful_def split: sum.splits)
  show ?thesis using one by (auto simp: triple_def logged_def)
qed

lemma prepare_claimed_digest:
  "triple P (prepare_claimed rt r token key) (\<lambda>d _. \<forall>rc. d = Inl rc \<longrightarrow> rc_record_digest rc = digest r) anything"
proof -
  have reject: "triple Q (bindA (quarantine_before_write rt r reason token ''delivery'' CLAIMED None None) (\<lambda>x. ret (Inl x)))
      (\<lambda>d _. \<forall>rc. d = Inl rc \<longrightarrow> rc_record_digest rc = digest r) anything" for reason Q
    by (rule triple_bind [OF quarantine_before_write_digest]) (simp add: triple_ret)
  show ?thesis
    unfolding prepare_claimed_def Let_def
    by (intro triple_try [OF triple_true] triple_if reject triple_on triple_ret) simp_all
qed

lemma prepare_batch_about:
  assumes "about rs receipts" "\<forall>p \<in> set claimed. placed rs p" "\<forall>p \<in> set ready. placed rs p"
  shows "triple P (prepare_batch rt claimed receipts ready)
    (\<lambda>(receipts', ready', _) _. about rs receipts' \<and> (\<forall>p \<in> set ready'. placed rs p)) anything"
  using assms
proof (induction rt claimed receipts ready arbitrary: P rule: prepare_batch.induct)
  case (2 rt i r token key claimed receipts ready)
  have i: "i < length rs" "rs ! i = r" using 2(4) by (simp_all add: placed_def)
  let ?Q = "\<lambda>(receipts', ready', _) _. about rs receipts' \<and> (\<forall>p \<in> set ready'. placed rs p)"
  have "triple (\<lambda>_. \<forall>rc. res = Inr (Inl rc) \<longrightarrow> rc_record_digest rc = digest r) (case res of
       Inl e \<Rightarrow> ret (receipts, ready, Some e)
     | Inr (Inl x) \<Rightarrow> prepare_batch rt claimed (receipts[i := Some x]) ready
     | Inr (Inr bw) \<Rightarrow> prepare_batch rt claimed receipts (ready @ [(i, r, token, bw)])) ?Q anything" for res
  proof (cases res)
    case (Inl e)
    then show ?thesis using 2(3,5) by (simp add: triple_ret)
  next
    case (Inr d)
    show ?thesis
    proof (cases d)
      case (Inl x)
      have "triple Q (prepare_batch rt claimed (receipts[i := Some x]) ready) ?Q anything" if "rc_record_digest x = digest r" for Q
        using 2(4,5) about_update [OF 2(3) i that] by (intro 2(1)) simp_all
      then show ?thesis unfolding Inr Inl by (auto simp: triple_def)
    next
      case (Inr bw)
      have "triple Q (prepare_batch rt claimed receipts (ready @ [(i, r, token, bw)])) ?Q anything" for Q
        using 2(3-5) i by (intro 2(2)) (auto simp: placed_def)
      then show ?thesis unfolding \<open>res = Inr d\<close> Inr by simp
    qed
  qed
  moreover have "triple P (attemptA (prepare_claimed rt r token key))
      (\<lambda>res _. \<forall>rc. res = Inr (Inl rc) \<longrightarrow> rc_record_digest rc = digest r) anything"
    by (rule triple_attempt, rule triple_post [OF prepare_claimed_digest]) auto
  ultimately show ?case unfolding prepare_batch.simps by (rule triple_bind [rotated])
qed (simp add: triple_ret)

lemma quarantine_changed_about:
  assumes "about rs receipts" "\<forall>p \<in> set ready. placed rs p"
  shows "triple P (quarantine_changed rt ready receipts) (\<lambda>(receipts', _) _. about rs receipts') anything"
  using assms
proof (induction rt ready receipts arbitrary: P rule: quarantine_changed.induct)
  case (2 rt i r token bw ready receipts)
  have i: "i < length rs" "rs ! i = r" using 2(3) by (simp_all add: placed_def)
  have "triple (\<lambda>_. \<forall>rc. res = Inr rc \<longrightarrow> rc_record_digest rc = digest r)
      (case res of Inl e \<Rightarrow> ret (receipts, Some e) | Inr x \<Rightarrow> quarantine_changed rt ready (receipts[i := Some x]))
      (\<lambda>(receipts', _) _. about rs receipts') anything" for res
  proof (cases res)
    case (Inr x)
    have "triple Q (quarantine_changed rt ready (receipts[i := Some x])) (\<lambda>(receipts', _) _. about rs receipts') anything"
      if "rc_record_digest x = digest r" for Q
      using 2(3) about_update [OF 2(2) i that] by (intro 2(1)) simp_all
    then show ?thesis unfolding Inr by (auto simp: triple_def)
  qed (use 2(2) in \<open>simp add: triple_ret\<close>)
  moreover have "triple P (attemptA (quarantine_before_write rt r ''atomic_batch_capability_changed'' token ''delivery'' CLAIMED None (Some True)))
      (\<lambda>res _. \<forall>rc. res = Inr rc \<longrightarrow> rc_record_digest rc = digest r) anything"
    by (rule triple_attempt, rule triple_post [OF quarantine_before_write_digest]) auto
  ultimately show ?case unfolding quarantine_changed.simps by (rule triple_bind [rotated])
qed (simp add: triple_ret)

lemma claim_lost_about:
  assumes "about rs receipts" "\<forall>p \<in> set ready. placed rs p"
  shows "triple P (claim_lost rt ready receipts) (\<lambda>(receipts', _) _. about rs receipts') anything"
  using assms
proof (induction rt ready receipts arbitrary: P rule: claim_lost.induct)
  case (2 rt i r token bw ready receipts)
  have i: "i < length rs" "rs ! i = r" using 2(3) by (simp_all add: placed_def)
  have "triple (\<lambda>_. \<forall>rc. res = Inr rc \<longrightarrow> rc_record_digest rc = digest r)
      (case res of Inl e \<Rightarrow> ret (receipts, Some e) | Inr x \<Rightarrow> claim_lost rt ready (receipts[i := Some x]))
      (\<lambda>(receipts', _) _. about rs receipts') anything" for res
  proof (cases res)
    case (Inr x)
    have "triple Q (claim_lost rt ready (receipts[i := Some x])) (\<lambda>(receipts', _) _. about rs receipts') anything"
      if "rc_record_digest x = digest r" for Q
      using 2(3) about_update [OF 2(2) i that] by (intro 2(1)) simp_all
    then show ?thesis unfolding Inr by (auto simp: triple_def)
  qed (use 2(2) in \<open>simp add: triple_ret\<close>)
  moreover have "triple P (attemptA (receipt rt (request r AMBIGUOUS_STATUS (Some ''delivery_claim_lost'') (Some False) ''delivery'' None)))
      (\<lambda>res _. \<forall>rc. res = Inr rc \<longrightarrow> rc_record_digest rc = digest r) anything"
    by (rule triple_attempt, rule triple_post [OF receipt_digest]) auto
  ultimately show ?case unfolding claim_lost.simps by (rule triple_bind [rotated])
qed (simp add: triple_ret)

subsection \<open>The receipts of a written batch\<close>

lemma audit_many_length: "triple P (audit_many rt qs) (\<lambda>xs _. length xs = length qs) anything"
  unfolding audit_many_def by (intro triple_if triple_bind [OF triple_true] triple_ret) simp_all

lemma emit_many_length: "triple P (emit_many rt b qs) (\<lambda>(_, cs) _. length cs = length qs) anything"
proof -
  have "triple P (case v of Inl e \<Rightarrow> ret (EVENT_APPEND_FAILED, map (\<lambda>_. None) qs) | Inr cs \<Rightarrow>
      if x cs then ret (EVENT_APPEND_FAILED, map Some cs)
      else bindA append_sink (\<lambda>ok. ret (if ok then EVENT_RECORDED else EVENT_APPEND_FAILED, map Some cs)))
      (\<lambda>(_, cs) _. length cs = length qs) anything" if "\<And>cs. v = Inr cs \<Longrightarrow> length cs = length qs" for v :: "string list result" and x
    using that by (cases v) (auto intro!: triple_ret triple_bind [OF triple_true])
  then show ?thesis unfolding emit_many_def
    by (cases "rt_events rt") (auto simp: mapE_length intro!: triple_ret)
qed

lemma receipts_many_digests: "triple P (receipts_many rt b qs) (\<lambda>xs _. map rc_record_digest xs = map (digest \<circ> rr_record) qs) anything"
proof -
  have last: "triple (\<lambda>_. length (snd p) = length qs) (case p of (s, cs) \<Rightarrow> bindA tick (\<lambda>ev. ret (map (\<lambda>(q, c, a).
       receipt_for rt q (isoformat (ev_now ev)) a s c) (zip qs (zip cs audits)))))
      (\<lambda>xs _. map rc_record_digest xs = map (digest \<circ> rr_record) qs) anything" if "length audits = length qs" for p audits
  proof (cases "length (snd p) = length qs")
    case True
    have "map rc_record_digest (map (\<lambda>(q, c, a). receipt_for rt q t a s c) (zip qs (zip (snd p) audits))) = map (digest \<circ> rr_record) qs" for t s
      using True that by (intro nth_equalityI) (simp_all add: receipt_for_def)
    then show ?thesis by (cases p) (auto intro!: triple_bind [OF triple_true] triple_ret)
  qed (simp add: triple_def)
  have mid: "triple (\<lambda>_. length audits = length qs) (bindA (emit_many rt b qs) (\<lambda>(s, cs). bindA tick (\<lambda>ev. ret (map (\<lambda>(q, c, a).
       receipt_for rt q (isoformat (ev_now ev)) a s c) (zip qs (zip cs audits))))))
      (\<lambda>xs _. map rc_record_digest xs = map (digest \<circ> rr_record) qs) anything" for audits
  proof (cases "length audits = length qs")
    case True
    have emit: "triple Q (emit_many rt b qs) (\<lambda>p _. length (snd p) = length qs) anything" for Q
      by (rule triple_post [OF emit_many_length]) auto
    show ?thesis by (rule triple_bind [OF emit last [OF True]])
  qed (simp add: triple_def)
  show ?thesis unfolding receipts_many_def by (intro triple_if triple_bind [OF audit_many_length mid] triple_ret) simp
qed

lemma batch_requests_digests: "map (digest \<circ> rr_record) (batch_requests ready s reason retry attempt) = map (digest \<circ> prepared_record) ready"
  by (simp add: batch_requests_def)

lemma settle_batch_digests:
  "triple P (settle_batch rt caps ready attempt outcome) (\<lambda>xs _. map rc_record_digest xs = map (digest \<circ> prepared_record) ready) anything"
proof -
  have rc: "triple Q (receipts_many rt b (batch_requests ready s reason retry attempt))
      (\<lambda>xs _. map rc_record_digest xs = map (digest \<circ> prepared_record) ready) anything" for Q b s reason retry
    using receipts_many_digests [of Q rt b "batch_requests ready s reason retry attempt"] by (simp only: batch_requests_digests)
  show ?thesis
  proof (cases outcome)
    case None
    show ?thesis unfolding settle_batch_def Let_def None option.case
      by (intro triple_try [OF triple_true] triple_bind [OF triple_true] rc triple_on) simp_all
  next
    case (Some o')
    show ?thesis unfolding settle_batch_def Let_def Some option.case
      by (cases o') (auto intro!: triple_bind [OF triple_true] rc)
  qed
qed

lemma write_batch_digests:
  "triple P (write_batch rt caps ready attempt) (\<lambda>xs _. map rc_record_digest xs = map (digest \<circ> prepared_record) ready) anything"
  unfolding write_batch_def by (intro triple_bind [OF triple_true] settle_batch_digests)

lemma place_about:
  assumes "about rs receipts" "\<forall>p \<in> set ready. placed rs p" "map rc_record_digest xs = map (digest \<circ> prepared_record) ready"
  shows "about rs (place ready xs receipts)"
  using assms
proof (induction ready arbitrary: receipts xs)
  case (Cons p ready)
  obtain x ys where xs: "xs = x # ys" "rc_record_digest x = digest (prepared_record p)" using Cons.prems(3) by (cases xs) auto
  have "about rs (receipts[fst p := Some x])"
    using Cons.prems(1,2) xs(2) by (intro about_update) (auto simp: placed_def prepared_record_def)
  from Cons.IH [OF this] Cons.prems(2,3) show ?case by (simp add: xs(1) place_def)
qed (simp add: place_def)

lemma execute_about:
  assumes "about rs receipts" "\<forall>p \<in> set ready. placed rs p"
  shows "triple P (execute_atomic_batch rt caps ready receipts) (\<lambda>(receipts', _) _. about rs receipts') anything"
proof -
  have written: "triple Q (bindA (attemptA (write_batch rt caps ready attempt)) (\<lambda>res. case res of
      Inl e \<Rightarrow> ret (receipts, Some e) | Inr xs \<Rightarrow> ret (place ready xs receipts, None))) (\<lambda>(receipts', _) _. about rs receipts') anything"
    for Q attempt
  proof (rule triple_bind)
    show "triple Q (attemptA (write_batch rt caps ready attempt))
        (\<lambda>res _. \<forall>xs. res = Inr xs \<longrightarrow> map rc_record_digest xs = map (digest \<circ> prepared_record) ready) anything"
      by (rule triple_attempt, rule triple_post [OF write_batch_digests]) auto
    show "triple (\<lambda>_. \<forall>xs. res = Inr xs \<longrightarrow> map rc_record_digest xs = map (digest \<circ> prepared_record) ready) (case res of
      Inl e \<Rightarrow> ret (receipts, Some e) | Inr xs \<Rightarrow> ret (place ready xs receipts, None)) (\<lambda>(receipts', _) _. about rs receipts') anything" for res
      using assms place_about [OF assms] by (cases res) (auto intro!: triple_ret)
  qed
  have started: "triple Q (case s of Inl e \<Rightarrow> if is_integrity e then claim_lost rt ready receipts else ret (receipts, Some e)
      | Inr attempt \<Rightarrow> bindA (attemptA (write_batch rt caps ready attempt)) (\<lambda>res. case res of
          Inl e \<Rightarrow> ret (receipts, Some e) | Inr xs \<Rightarrow> ret (place ready xs receipts, None))) (\<lambda>(receipts', _) _. about rs receipts') anything" for Q s
    using written claim_lost_about [OF assms] assms(1) by (cases s) (auto intro: triple_ret)
  have branch: "triple Q (case c of Inl e \<Rightarrow> ret (receipts, Some e) | Inr True \<Rightarrow> quarantine_changed rt ready receipts | Inr False \<Rightarrow> m)
      (\<lambda>(receipts', _) _. about rs receipts') anything"
    if "triple Q m (\<lambda>(receipts', _) _. about rs receipts') anything" for Q c m
    using that quarantine_changed_about [OF assms] assms(1) by (auto split: sum.split bool.split intro: triple_ret)
  show ?thesis
    unfolding execute_atomic_batch_def
    by (intro triple_if triple_bind [OF triple_true] branch started triple_ret) (simp_all add: assms(1))
qed

lemma finish_about:
  assumes "about rs receipts"
  shows "triple P (finish_batch receipts failure) (\<lambda>xs _. map rc_record_digest xs = map digest rs) anything"
proof -
  have full: "map rc_record_digest (completed receipts) = map digest rs" if "None \<notin> set receipts"
  proof -
    have kept: "completed receipts = map the receipts" unfolding completed_def using that by (subst filter_True) (metis, rule refl)
    have len: "length receipts = length rs" using assms by (simp add: about_def list_all2_lengthD)
    have "rc_record_digest (the (receipts ! i)) = digest (rs ! i)" if i: "i < length receipts" for i
    proof -
      have "receipts ! i \<noteq> None" using nth_mem [OF i] \<open>None \<notin> set receipts\<close> by metis
      then obtain rc where "receipts ! i = Some rc" by blast
      with list_all2_nthD2 [OF assms [unfolded about_def] i] show ?thesis by simp
    qed
    then show ?thesis unfolding kept by (intro nth_equalityI) (simp_all add: len)
  qed
  show ?thesis
  proof (cases "failure = None \<and> None \<notin> set receipts")
    case True
    then have "finish_batch receipts failure = ret (completed receipts)" by (simp add: finish_batch_def)
    with True full show ?thesis by (simp add: triple_ret)
  qed (auto simp: finish_batch_def Let_def split: option.split exn.split intro!: triple_throw)
qed

lemma claimed_of_placed: "p \<in> set (claimed_of rs keys ds) \<Longrightarrow> placed rs p"
  by (auto simp: claimed_of_def placed_def in_set_zip split: sum.splits)

lemma dispose_batch_about:
  assumes "length cs = length rs"
  shows "triple P (dispose_batch rt (zip rs cs))
    (\<lambda>ds _. about rs (map (\<lambda>d. case d of Inl x \<Rightarrow> Some x | Inr _ \<Rightarrow> None) ds)) anything"
proof -
  have "triple (\<lambda>_. True) (dispose_batch rt (zip rs cs))
      (\<lambda>ds _. True \<and> list_all2 (\<lambda>x d. \<forall>rc. d = Inl rc \<longrightarrow> rc_record_digest rc = digest (fst x)) (zip rs cs) ds) anything"
    unfolding dispose_batch_def by (rule triple_map_all) (auto intro: triple_post [OF dispose_digest])
  then show ?thesis
  proof (rule triple_pre [OF triple_post])
    fix ds :: "(delivery_receipt + string) list" and w
    assume "True \<and> list_all2 (\<lambda>x d. \<forall>rc. d = Inl rc \<longrightarrow> rc_record_digest rc = digest (fst x)) (zip rs cs) ds"
    then show "about rs (map (\<lambda>d. case d of Inl x \<Rightarrow> Some x | Inr _ \<Rightarrow> None) ds)"
      using assms by (auto simp: about_def list_all2_conv_all_nth split: sum.splits)
  qed simp_all
qed

lemma claim_many_length: "claim_many rs lease clock tok db = Inr (db', cs) \<Longrightarrow> length cs = length rs"
  by (auto simp: claim_many_def split: if_splits dest: foldE_length)

lemma deliver_atomic_batch_digests:
  "triple P (deliver_atomic_batch rt caps rs) (\<lambda>xs _. map rc_record_digest xs = map digest rs) anything"
proof -
  have claim: "triple Q (on_ledger (\<lambda>ev db. claim_many rs (rt_claim_lease rt) (ev_clock ev) (ev_token ev) db)) (\<lambda>cs _. length cs = length rs) anything" for Q
    by (rule triple_on_ledger) (auto dest: claim_many_length)
  have finish: "triple (\<lambda>_. about rs receipts \<and> (\<forall>p \<in> set ready. placed rs p)) (case failure of
      Some e \<Rightarrow> finish_batch receipts (Some e)
    | None \<Rightarrow> bindA (execute_atomic_batch rt caps ready receipts) (\<lambda>(receipts', failure'). finish_batch receipts' failure'))
     (\<lambda>xs _. map rc_record_digest xs = map digest rs) anything" for receipts ready failure
  proof (cases "about rs receipts \<and> (\<forall>p \<in> set ready. placed rs p)")
    case True
    have "triple Q (bindA (execute_atomic_batch rt caps ready receipts) (\<lambda>(receipts', failure'). finish_batch receipts' failure'))
        (\<lambda>xs _. map rc_record_digest xs = map digest rs) anything" for Q
    proof (rule triple_bind)
      show "triple Q (execute_atomic_batch rt caps ready receipts) (\<lambda>p _. about rs (fst p)) anything"
        by (rule triple_post [OF execute_about]) (use True in auto)
      fix p :: "delivery_receipt option list \<times> exn option"
      show "triple (\<lambda>_. about rs (fst p)) (case p of (receipts', failure') \<Rightarrow> finish_batch receipts' failure')
          (\<lambda>xs _. map rc_record_digest xs = map digest rs) anything"
        using finish_about [of rs "fst p" _ "snd p"] by (cases p; cases "about rs (fst p)") (auto simp: triple_def)
    qed
    with True finish_about [of rs receipts] show ?thesis by (cases failure) simp_all
  qed (auto intro: triple_vacuous)
  have prepare: "triple (\<lambda>_. about rs (map (\<lambda>d. case d of Inl x \<Rightarrow> Some x | Inr _ \<Rightarrow> None) ds))
     (bindA (prepare_batch rt (claimed_of rs keys ds) (map (\<lambda>d. case d of Inl x \<Rightarrow> Some x | Inr _ \<Rightarrow> None) ds) [])
       (\<lambda>(receipts, ready, failure). case failure of
          Some e \<Rightarrow> finish_batch receipts (Some e)
        | None \<Rightarrow> bindA (execute_atomic_batch rt caps ready receipts) (\<lambda>(receipts', failure'). finish_batch receipts' failure')))
     (\<lambda>xs _. map rc_record_digest xs = map digest rs) anything" for ds keys
  proof (cases "about rs (map (\<lambda>d. case d of Inl x \<Rightarrow> Some x | Inr _ \<Rightarrow> None) ds)")
    case True
    have all: "\<forall>p \<in> set (claimed_of rs keys ds). placed rs p" using claimed_of_placed by blast
    show ?thesis
      by (rule triple_bind [OF prepare_batch_about [OF True all]]) (auto split: prod.split intro: finish)
  qed (auto intro: triple_vacuous)
  have dispose: "triple (\<lambda>_. length cs = length rs) (dispose_batch rt (zip rs cs))
      (\<lambda>ds _. about rs (map (\<lambda>d. case d of Inl x \<Rightarrow> Some x | Inr _ \<Rightarrow> None) ds)) anything" for cs
    using dispose_batch_about [of cs rs] by (auto simp: triple_def)
  show ?thesis
    unfolding deliver_atomic_batch_def
    by (rule triple_bind [OF triple_true], rule triple_bind [OF triple_true], rule triple_bind [OF claim],
        rule triple_bind [OF dispose], rule prepare)
qed

subsection \<open>Any batch\<close>

lemma deliver_digest: "triple P (deliver_with_capabilities rt caps r) (\<lambda>rc _. rc_record_digest rc = digest r) anything"
proof -
  have one: "triple (logged T ws) (deliver_with_capabilities rt caps r) (\<lambda>rc _. rc_record_digest rc = digest r) anything" for T ws
    by (rule triple_post [OF deliver_with_capabilities_truthful]) (auto simp: truthful_def)
  show ?thesis using one by (auto simp: triple_def logged_def)
qed

lemma deliver_scalars_digests:
  "triple P (deliver_scalars rt caps done rs) (\<lambda>xs _. map rc_record_digest xs = map rc_record_digest done @ map digest rs) anything"
proof (induction rs arbitrary: "done" P)
  case (Cons r rs)
  have "triple (\<lambda>_. rc_record_digest x = digest r) (deliver_scalars rt caps (done @ [x]) rs)
      (\<lambda>xs _. map rc_record_digest xs = map rc_record_digest done @ map digest (r # rs)) anything" for x
    using Cons [of _ "done @ [x]"] by (cases "rc_record_digest x = digest r") (auto simp: triple_def)
  then show ?case unfolding deliver_scalars.simps
    by (intro triple_try [OF deliver_digest] triple_if triple_throw) simp_all
qed (simp add: triple_ret)

lemma deliver_chunk_digests: "triple P (deliver_chunk rt caps c) (\<lambda>xs _. map rc_record_digest xs = map digest c) anything"
proof (cases "length c = 1")
  case True
  then obtain r where r: "c = [r]" by (cases c) auto
  have "triple P (bindA (deliver_with_capabilities rt caps r) (\<lambda>x. ret [x])) (\<lambda>xs _. map rc_record_digest xs = [digest r]) anything"
    by (rule triple_bind [OF deliver_digest]) (rule triple_ret, simp)
  then show ?thesis by (simp add: deliver_chunk_def r)
next
  case False
  then show ?thesis using deliver_atomic_batch_digests [of P rt caps c] by (simp add: deliver_chunk_def)
qed

lemma deliver_chunks_digests:
  "triple P (deliver_chunks rt caps done cs) (\<lambda>xs _. map rc_record_digest xs = map rc_record_digest done @ map digest (concat cs)) anything"
proof (induction cs arbitrary: "done" P)
  case (Cons c cs)
  have step: "triple (\<lambda>_. map rc_record_digest xs = map digest c) (deliver_chunks rt caps (done @ xs) cs)
      (\<lambda>xs _. map rc_record_digest xs = map rc_record_digest done @ map digest (concat (c # cs))) anything" for xs
    using Cons [of _ "done @ xs"] by (cases "map rc_record_digest xs = map digest c") (auto simp: triple_def)
  have fail: "triple Q (case e of DeliveryBatchInterrupted xs \<Rightarrow>
       if done @ xs \<noteq> [] then throw (DeliveryBatchInterrupted (done @ xs)) else throw e
     | _ \<Rightarrow> if is_exception e \<and> done \<noteq> [] then throw (DeliveryBatchInterrupted done) else (throw e :: delivery_receipt list act)) R anything" for e Q R
    by (auto split: exn.split intro!: triple_throw)
  show ?case unfolding deliver_chunks.simps by (intro triple_try [OF deliver_chunk_digests] step fail)
qed (simp add: triple_ret)

text \<open>
  A batch delivery that returns gives exactly one receipt per record, in the order of the records, whatever
  mixture of chunks, single deliveries, duplicates, quarantines and lost claims it went through.
\<close>

theorem deliver_many_receipts_in_order:
  assumes "deliver_many rt rs w = (Inr receipts, w')"
  shows "map rc_record_digest receipts = map digest rs"
proof -
  have parts: "concat (split_batch m n [] [] rs) = rs" for m n
    using conjunct1 [OF split_batch_ok [of "[]" m n "[]" rs]] by simp
  have chunks: "triple P (deliver_chunks rt caps [] (split_batch m n [] [] rs)) (\<lambda>xs _. map rc_record_digest xs = map digest rs) anything" for P caps m n
    using deliver_chunks_digests [of P rt caps "[]" "split_batch m n [] [] rs"] by (simp only: parts list.map append_Nil)
  have scalars: "triple P (deliver_scalars rt caps [] rs) (\<lambda>xs _. map rc_record_digest xs = map digest rs) anything" for P caps
    using deliver_scalars_digests [of P rt caps "[]" rs] by simp
  have body: "triple P (case cc_atomic_batch_write caps of
       Some b \<Rightarrow> if rt_has_write_batch rt
         then deliver_chunks rt caps [] (split_batch (maximum_chunk_records rt b) (maximum_chunk_wire_bytes rt b) [] [] rs)
         else deliver_scalars rt caps [] rs
     | None \<Rightarrow> deliver_scalars rt caps [] rs) (\<lambda>xs _. map rc_record_digest xs = map digest rs) anything" for P caps
  proof (cases "cc_atomic_batch_write caps")
    case (Some b)
    show ?thesis unfolding Some option.case by (intro triple_if chunks scalars)
  qed (simp only: option.case scalars)
  have "triple (\<lambda>_. True) (deliver_many rt rs) (\<lambda>xs _. map rc_record_digest xs = map digest rs) anything"
    unfolding deliver_many_def
    by (intro triple_bind [OF triple_true] triple_raise_unless triple_if body triple_ret) simp_all
  from tripleD [OF this _ assms] show ?thesis by simp
qed

end
