(* ===== verification/PayloadProofs.thy ===== *)
theory PayloadProofs
  imports Payload
begin

text \<open>Every value the codec can encode, floats aside, is read back as it was.\<close>

section \<open>Base64\<close>

lemma b64_scan_chars:
  assumes "list_all (\<lambda>v. v < 64) vs" "q < 4"
  shows "b64_scan q p (map b64_char vs @ r) = map_option ((@) vs) (b64_scan ((q + length vs) mod 4) (if vs = [] then p else 0) r)"
  using assms
proof (induction vs arbitrary: q p)
  case Nil
  then show ?case by (simp add: option.map_ident)
next
  case (Cons v vs)
  have "b64_char v \<noteq> CHR ''=''" "b64_val (b64_char v) = Some v" using b64_char_facts [of v] Cons.prems(1) by simp_all
  moreover have "(Suc q mod 4 + length vs) mod 4 = (q + length (v # vs)) mod 4" by (simp add: mod_simps)
  ultimately show ?case using Cons.IH [of "Suc q mod 4" 0] Cons.prems
    by (simp add: option.map_comp comp_def del: b64_scan.simps(1))
qed

lemma urlsafe_roundtrip: "urlsafe_b64decode (b64_encode bs) = Inr bs"
proof -
  let ?vs = "sextets (map of_char bs)"
  have small: "list_all (\<lambda>v. v < 64) ?vs" by (rule sextets_less) (simp add: list_all_iff)
  have "b64_scan 0 0 (b64_encode bs) = Some ?vs"
    using length_sextets_mod [of "map of_char bs"]
    b64_scan_chars [OF small, of 0 0 "[]"]
    by (elim disjE conjE) (simp_all add: b64_encode_sextets b64_scan_chars [OF small] numeral_2_eq_2)
  moreover have "list_all (\<lambda>c. (of_char c :: nat) < 128) (b64_encode bs)"
    using b64_encode_ascii by (auto simp: list_all_iff)
  ultimately show ?thesis by (simp add: urlsafe_b64decode_def b64_bytes_sextets)
qed

section \<open>Datetimes\<close>

lemma read_tail_us:
  assumes "0 \<le> u" "u < 1000000" "z = [] \<or> hd z \<noteq> CHR ''.''"
  shows "read_tail (iso_us u @ z) = Some (u, z)"
proof (cases "u = 0")
  case True
  with assms(3) show ?thesis by (cases z) (simp_all add: read_tail_def iso_us_def)
next
  case False
  have "num (pad 6 (nat u)) = Some u" using assms by (simp add: num_pad_int)
  with False show ?thesis by (simp add: read_tail_def iso_us_def)
qed

definition offset_ok :: "int \<Rightarrow> bool" where
  "offset_ok off = (\<bar>off\<bar> < day_us \<and> off mod 60000000 = 0)"

lemma read_offset_iso:
  assumes "offset_ok off"
  shows "read_offset (iso_offset off) = Some off"
proof -
  define a where "a = \<bar>off\<bar>"
  have a: "0 \<le> a" "a < day_us" "a mod 60000000 = 0"
    using assms by (auto simp: offset_ok_def a_def abs_if mod_eq_0_iff_dvd)
  then obtain k where k: "a = 60000000 * k" by (auto simp: mod_eq_0_iff_dvd)
  have kb: "0 \<le> k" "k < 1440" using a by (simp_all add: k day_us_def)
  have parts: "a div 1000000 mod 60 = 0" "a mod 1000000 = 0" "a div 60000000 mod 60 = k mod 60" "a div 3600000000 = k div 60"
    unfolding k by (auto simp: zdiv_zmult2_eq)
  have h: "0 \<le> k div 60" "k div 60 < 24" "0 \<le> k mod 60" "k mod 60 < 60" using kb by simp_all
  have shape: "iso_offset off = (if off < 0 then ''-'' else ''+'') @ pad 2 (nat (k div 60)) @ '':'' @ pad 2 (nat (k mod 60))"
    by (simp add: iso_offset_def a_def [symmetric] parts Let_def)
  have nums: "num (pad 2 (nat (k div 60))) = Some (k div 60)" "num (pad 2 (nat (k mod 60))) = Some (k mod 60)"
    using h by (simp_all add: num_pad_int)
  have "3600 * (k div 60) + 60 * (k mod 60) = 60 * k" using mult_div_mod_eq [of 60 k] by linarith
  then have "(if off < 0 then - 1 else 1) * (3600 * (k div 60) + 60 * (k mod 60)) * 1000000 = off" (is "?value = off")
    using k by (simp add: a_def abs_if split: if_splits)
  have "iso_offset off \<noteq> ''Z''" "length (iso_offset off) = 6" "iso_offset off ! 3 = CHR '':''"
    "hd (iso_offset off) = (if off < 0 then CHR ''-'' else CHR ''+'')"
    "take 2 (drop 1 (iso_offset off)) = pad 2 (nat (k div 60))" "drop 4 (iso_offset off) = pad 2 (nat (k mod 60))"
    unfolding shape by (simp_all add: nth_append)
  then have "read_offset (iso_offset off) = Some ((if off < 0 then - 1 else 1) * (3600 * (k div 60) + 60 * (k mod 60)) * 1000000)"
    using h nums by (simp add: read_offset_def)
  with \<open>?value = off\<close> show ?thesis by (simp only:)
qed

lemma hd_iso_offset: "iso_offset off \<noteq> [] \<and> hd (iso_offset off) \<noteq> CHR ''.''"
  by (simp add: iso_offset_def Let_def)

lemma fromisoformat_local:
  assumes "time_valid t" "z = [] \<or> hd z \<noteq> CHR ''.''"
  shows "fromisoformat (iso_local t @ z) = (if z = [] then Some (Naive t) else map_option (Aware t) (read_offset z))"
proof -
  let ?n = "t div day_us" and ?s = "t mod day_us div 1000000" and ?u = "t mod 1000000"
  have n: "0 \<le> ?n" "?n < 3652059" using assms(1) by (auto simp: time_valid_def day_us_def)
  have s: "0 \<le> ?s" "?s < 86400" by (auto simp: day_us_def)
  have parts: "take 10 (iso_local t @ z) = iso_date ?n" "take 8 (drop 11 (iso_local t @ z)) = iso_hms ?s"
    "drop 19 (iso_local t @ z) = iso_us ?u @ z"
    by (simp_all add: iso_local_def)
  have len: "\<not> length (iso_local t @ z) < 19" by (simp add: iso_local_def)
  have "t mod day_us mod 1000000 = ?u" by (simp add: day_us_def mod_mod_cancel)
  moreover have "t = ?n * day_us + t mod day_us" "t mod day_us = ?s * 1000000 + t mod day_us mod 1000000" by simp_all
  ultimately have "?n * day_us + ?s * 1000000 + ?u = t" by linarith
  moreover have "?u < 1000000" "0 \<le> ?u" by simp_all
  ultimately show ?thesis
    unfolding fromisoformat_def parts using len assms(2)
    by (simp add: read_date_iso [OF n] read_hms_iso [OF s] read_tail_us)
qed

fun datetime_ok :: "py_datetime \<Rightarrow> bool" where
  "datetime_ok (Naive t) = time_valid t"
| "datetime_ok (Aware t off) = (time_valid t \<and> offset_ok off)"

lemma fromisoformat_datetime: "datetime_ok d \<Longrightarrow> fromisoformat (iso_datetime d) = Some d"
  using fromisoformat_local [of _ "[]"] fromisoformat_local [OF _ disjI2] hd_iso_offset read_offset_iso by (cases d) auto

section \<open>Decimals\<close>

declare decimal_str.simps [simp del]

lemma is_digit_zero: "is_digit (CHR ''0'')"
  by (simp add: is_digit_def)

lemma digits_before:
  assumes "list_all is_digit ds" "r = [] \<or> \<not> is_digit (hd r)"
  shows "takeWhile is_digit (ds @ r) = ds" "dropWhile is_digit (ds @ r) = r"
proof -
  have "takeWhile is_digit r = []" "dropWhile is_digit r = r" using assms(2) by (cases r; auto)+
  with assms(1) show "takeWhile is_digit (ds @ r) = ds" "dropWhile is_digit (ds @ r) = r"
    by (auto simp: list_all_iff takeWhile_append2 dropWhile_append2)
qed

lemma num_zeros: "num (replicate k CHR ''0'' @ show_nat c) = Some (int c)"
proof -
  have "num_acc 0 (replicate k CHR ''0'' @ s) = num_acc 0 s" for s by (induction k) (simp_all add: digit_val_def)
  then show ?thesis using num_acc_show_nat [of c] show_nat_digits [of c] by (simp add: num_def)
qed

lemma read_exponent_show: "read_exponent (show_exponent e) = Some e"
proof -
  have "num (show_nat n) = Some (int n)" for n using num_zeros [of 0] by simp
  then show ?thesis by (simp add: read_exponent_def show_exponent_def)
qed

lemma read_unsigned_text:
  assumes "list_all is_digit w" "list_all is_digit f" "num (w @ f) = Some (int c)"
    and z: "read_exponent z = Some e" "z = [] \<or> \<not> is_digit (hd z) \<and> hd z \<noteq> CHR ''.''"
  shows "read_unsigned neg (w @ (if f = [] then [] else ''.'' @ f) @ z) = Some (Decimal neg c (e - int (length f)))"
proof (cases "f = []")
  case True
  have "takeWhile is_digit (w @ z) = w" "dropWhile is_digit (w @ z) = z" using digits_before [OF assms(1), of z] z(2) by auto
  note split = this
  have "read_unsigned neg (w @ z) = Some (Decimal neg c e)"
    unfolding read_unsigned_def split Let_def using assms(3) True z by (cases z) auto
  with True show ?thesis by simp
next
  case False
  have dot: "\<not> is_digit (CHR ''.'')" by (simp add: is_digit_def)
  then have "takeWhile is_digit (w @ CHR ''.'' # f @ z) = w" "dropWhile is_digit (w @ CHR ''.'' # f @ z) = CHR ''.'' # f @ z"
    using digits_before [OF assms(1), of "CHR ''.'' # f @ z"] by auto
  moreover have "takeWhile is_digit (f @ z) = f" "dropWhile is_digit (f @ z) = z" using digits_before [OF assms(2), of z] z(2) by auto
  ultimately show ?thesis using False assms(3) z(1) by (simp add: read_unsigned_def Let_def)
qed

text \<open>The text without its sign: digits, digits after the point, and the exponent.\<close>

lemma decimal_shape:
  obtains w f z e' where "decimal_str (Decimal neg c e) = (if neg then ''-'' else []) @ w @ (if f = [] then [] else ''.'' @ f) @ z"
    "list_all is_digit w" "w \<noteq> []" "list_all is_digit f" "num (w @ f) = Some (int c)"
    "e = e' - int (length f)" "z = [] \<and> e' = 0 \<or> z = show_exponent e'"
proof -
  let ?ds = "show_nat c"
  define n left dot where d: "n = int (length ?ds)" "left = e + n" "dot = (if e \<le> 0 \<and> - 6 < left then left else 1)"
  have ds: "list_all is_digit ?ds" "?ds \<noteq> []" using show_nat_digits by blast+
  have n: "1 \<le> n" using ds(2) by (cases ?ds) (simp_all add: d)
  define z where "z = (if left = dot then [] else show_exponent (left - dot))"
  have z: "z = [] \<and> left - dot = 0 \<or> z = show_exponent (left - dot)" by (simp add: z_def)
  have str: "decimal_str (Decimal neg c e) = (if neg then ''-'' else []) @ (if dot \<le> 0 then ''0.'' @ replicate (nat (- dot)) CHR ''0'' @ ?ds
      else if n \<le> dot then ?ds @ replicate (nat (dot - n)) CHR ''0'' else take (nat dot) ?ds @ ''.'' @ drop (nat dot) ?ds) @ z"
    by (simp add: decimal_str.simps Let_def d z_def)
  show thesis
  proof (cases "dot \<le> 0")
    case True
    let ?f = "replicate (nat (- dot)) CHR ''0'' @ ?ds"
    have "''0'' @ ?f = replicate (Suc (nat (- dot))) CHR ''0'' @ ?ds" by simp
    then have "num (''0'' @ ?f) = Some (int c)" using num_zeros by metis
    moreover have "e = left - dot - int (length ?f)" using True d by simp
    moreover have "decimal_str (Decimal neg c e) = (if neg then ''-'' else []) @ ''0'' @ (if ?f = [] then [] else ''.'' @ ?f) @ z"
      using True ds(2) by (simp add: str)
    moreover have "list_all is_digit ?f" "list_all is_digit ''0''" using ds(1) by (simp_all add: list_all_iff is_digit_zero) (auto simp: is_digit_zero)
    ultimately show thesis using z by (intro that [of "''0''" ?f z "left - dot"]) simp_all
  next
    case False
    show thesis
    proof (cases "n \<le> dot")
      case True
      have eq: "dot = n" "e = left - dot" using True n False by (auto simp: d split: if_splits)
      have "decimal_str (Decimal neg c e) = (if neg then ''-'' else []) @ ?ds @ (if [] = [] then [] else ''.'' @ []) @ z"
        using False True eq(1) by (simp add: str)
      moreover have "num (?ds @ []) = Some (int c)" using num_zeros [of 0] by simp
      moreover have "e = left - dot - int (length [])" using eq(2) by simp
      ultimately show thesis using ds z by (intro that [of ?ds "[]" z "left - dot"]) simp_all
    next
      case no: False
      let ?w = "take (nat dot) ?ds" and ?f = "drop (nat dot) ?ds"
      have "length ?f = nat (n - dot)" using False no by (simp add: d(1) nat_diff_distrib)
      then have len: "int (length ?f) = n - dot" using no by simp
      then have "?f \<noteq> []" "?w \<noteq> []" using False no ds(2) by auto
      moreover have "num (?w @ ?f) = Some (int c)" using num_zeros [of 0] by simp
      moreover have "list_all is_digit ?w" "list_all is_digit ?f"
        using ds(1) set_take_subset set_drop_subset by (fastforce simp: list_all_iff)+
      moreover have "e = left - dot - int (length ?f)" using len d(2) by simp
      moreover have "decimal_str (Decimal neg c e) = (if neg then ''-'' else []) @ ?w @ (if ?f = [] then [] else ''.'' @ ?f) @ z"
        using False no \<open>?f \<noteq> []\<close> by (simp add: str)
      ultimately show thesis using z by (intro that [of ?w ?f z "left - dot"]) assumption+
    qed
  qed
qed

definition plain_char :: "char \<Rightarrow> bool" where
  "plain_char c = (\<not> char_space c \<and> c \<noteq> CHR ''_'')"

lemma plain_digit: "is_digit c \<Longrightarrow> plain_char c"
  by (auto simp: plain_char_def is_digit_def char_space_def)

lemma dropWhile_none: "\<forall>c \<in> set s. \<not> P c \<Longrightarrow> dropWhile P s = s"
  by (cases s) simp_all

lemma plain_text: "list_all plain_char s \<Longrightarrow> filter (\<lambda>c. c \<noteq> CHR ''_'') (strip s) = s"
proof -
  assume p: "list_all plain_char s"
  then have *: "\<forall>c \<in> set s. \<not> char_space c" by (simp add: list_all_iff plain_char_def)
  then have "dropWhile char_space (rev s) = rev s" by (intro dropWhile_none) simp
  then have "strip s = s" using dropWhile_none [OF *] by (simp add: strip_def)
  with p show ?thesis by (simp add: list_all_iff plain_char_def)
qed

lemma plain_exponent: "list_all plain_char (show_exponent e)"
proof -
  have "list_all plain_char (show_nat n)" for n using show_nat_digits [of n] plain_digit by (auto simp: list_all_iff)
  moreover have "plain_char (CHR ''E'')" "plain_char (CHR ''+'')" "plain_char (CHR ''-'')"
    by (simp_all add: plain_char_def char_space_def)
  ultimately show ?thesis by (simp add: show_exponent_def)
qed

lemma decimal_roundtrip: "read_decimal (decimal_str (Decimal neg c e)) = Some (Decimal neg c e)"
proof -
  obtain w f z e' where s: "decimal_str (Decimal neg c e) = (if neg then ''-'' else []) @ w @ (if f = [] then [] else ''.'' @ f) @ z"
    and w: "list_all is_digit w" "w \<noteq> []" "list_all is_digit f" "num (w @ f) = Some (int c)"
    and e: "e = e' - int (length f)" "z = [] \<and> e' = 0 \<or> z = show_exponent e'" by (rule decimal_shape)
  have ze: "read_exponent z = Some e'" using e(2) read_exponent_show by (auto simp: read_exponent_def)
  have zh: "z = [] \<or> \<not> is_digit (hd z) \<and> hd z \<noteq> CHR ''.''" using e(2) by (auto simp: show_exponent_def is_digit_def)
  let ?u = "w @ (if f = [] then [] else ''.'' @ f) @ z"
  note un = read_unsigned_text [OF w(1,3,4) ze zh]
  obtain a q where a: "?u = a # q" "is_digit a" using w(1,2) by (cases w) auto
  then have a': "a \<noteq> CHR ''-''" "a \<noteq> CHR ''+''" by (auto simp: is_digit_def)
  have "plain_char (CHR ''.'')" "plain_char (CHR ''-'')" by (simp_all add: plain_char_def char_space_def)
  moreover have "list_all plain_char z" using e(2) plain_exponent by auto
  ultimately have "list_all plain_char (decimal_str (Decimal neg c e))"
    using w(1,3) plain_digit unfolding s by (auto simp: list_all_iff)
  then have shape: "filter (\<lambda>c. c \<noteq> CHR ''_'') (strip (decimal_str (Decimal neg c e))) = (if neg then ''-'' else []) @ ?u"
    using plain_text s by metis
  show ?thesis
  proof (cases neg)
    case True
    with shape un e(1) show ?thesis by (simp add: read_decimal_def)
  next
    case False
    then have "filter (\<lambda>c. c \<noteq> CHR ''_'') (strip (decimal_str (Decimal neg c e))) = a # q" using shape a(1) by simp
    then have "read_decimal (decimal_str (Decimal neg c e)) = read_unsigned False (a # q)"
      using a' by (simp add: read_decimal_def)
    with un False a(1) e(1) show ?thesis by simp
  qed
qed

section \<open>The codec\<close>

fun payload_ok :: "py_value \<Rightarrow> bool" where
  "payload_ok (PDatetime d) = datetime_ok d"
| "payload_ok (PDate n) = (0 \<le> n \<and> n < 3652059)"
| "payload_ok (PFloat _) = False"
| "payload_ok (PDecimal d) = (d \<noteq> NonFinite)"
| "payload_ok (PJson j) = (readable j \<and> (case j of JArr _ \<Rightarrow> True | JObj _ \<Rightarrow> True | _ \<Rightarrow> False))"
| "payload_ok (PUuid _) = False"
| "payload_ok POther = False"
| "payload_ok _ = True"

lemma readable_finite:
  "readable j \<Longrightarrow> json_finite j"
  "readable_elems xs \<Longrightarrow> json_finite_elems xs"
  "readable_members kvs \<Longrightarrow> json_finite_members kvs"
  by (induction j and xs and kvs rule: readable_readable_elems_readable_members.induct) simp_all

lemma decode_dumped:
  assumes "readable j"
  shows "\<exists>b. dump_payload kind j = Inr b \<and> json_decode True b = Some (JObj [(''kind'', JStr kind), (''value'', j)])"
proof -
  have "readable (JObj [(''kind'', JStr kind), (''value'', j)])" using assms by simp
  then show ?thesis using assms
    by (simp add: dump_payload_def json_decode_def utf8_roundtrip json_roundtrip readable_finite del: render.simps)
qed

lemma members_kind_value:
  "set (map fst [(''kind'', k), (''value'', v)]) = {''kind'', ''value''}"
  "map_of [(''kind'', k), (''value'', v)] ''kind'' = Some k"
  "map_of [(''kind'', k), (''value'', v)] ''value'' = Some v"
  by auto

lemmas decode_simps = payload_decode_def members_kind_value payload_text_def Let_def

lemma decode_encoded:
  assumes "payload_ok v"
  shows "\<exists>b. payload_encode v = Inr b \<and> payload_decode b = Inr v"
proof (cases v)
  case (PDatetime d)
  with assms show ?thesis using decode_dumped [of "JStr (iso_datetime d)" "''datetime''"] fromisoformat_datetime [of d]
    by (auto simp: payload_encode_def decode_simps)
next
  case (PDate n)
  with assms show ?thesis using decode_dumped [of "JStr (iso_date n)" "''date''"] read_date_iso [of n]
    by (auto simp: payload_encode_def decode_simps)
next
  case (PDecimal d)
  with assms obtain g c e where d: "d = Decimal g c e" by (cases d) auto
  with PDecimal show ?thesis using decode_dumped [of "JStr (decimal_str d)" "''decimal''"] decimal_roundtrip [of g c e]
    by (auto simp: payload_encode_def decode_simps)
next
  case (PBytes b)
  then show ?thesis using decode_dumped [of "JStr (b64_encode b)" "''bytes''"] urlsafe_roundtrip [of b]
    by (auto simp: payload_encode_def decode_simps)
next
  case (PJson j)
  with assms show ?thesis using decode_dumped [of j "''json''"]
    by (auto simp: payload_encode_def non_finite_def json_of_value_def decode_simps value_of_json_def split: json.splits)
next
  case (PInt i)
  then show ?thesis using decode_dumped [of "JInt i" "''json''"]
    by (auto simp: payload_encode_def non_finite_def json_of_value_def decode_simps value_of_json_def)
next
  case (PStr s)
  then show ?thesis using decode_dumped [of "JStr s" "''json''"]
    by (auto simp: payload_encode_def non_finite_def json_of_value_def decode_simps value_of_json_def)
next
  case (PBool b)
  then show ?thesis using decode_dumped [of "JBool b" "''json''"]
    by (auto simp: payload_encode_def non_finite_def json_of_value_def decode_simps value_of_json_def)
next
  case PNone
  then show ?thesis using decode_dumped [of JNull "''json''"]
    by (auto simp: payload_encode_def non_finite_def json_of_value_def decode_simps value_of_json_def)
qed (use assms in simp_all)

text \<open>Every value the codec accepts is read back as it was, floats aside: texts, numbers, decimals with their
  exponents, datetimes with their offsets, dates, bytes and JSON documents.\<close>

theorem payload_roundtrip:
  assumes "payload_ok v"
  shows "\<exists>b. payload_encode v = Inr b \<and> payload_decode b = Inr v"
  using assms by (rule decode_encoded)

theorem payload_roundtrip_witness:
  "\<exists>b. payload_encode (PDecimal (Decimal True 12345 (- 2))) = Inr b
       \<and> payload_decode b = Inr (PDecimal (Decimal True 12345 (- 2)))"
  by (rule payload_roundtrip) simp

end
