(* ===== verification/RuntimeSamples.thy ===== *)
theory RuntimeSamples
  imports RuntimeBatches PayloadProofs
begin

text \<open>
  Concrete runtimes, tapes and worlds on which the properties of the runtime apply: a delivery that succeeds, and a
  replay of a quarantined record that writes.
\<close>

section \<open>A small deployment\<close>

definition legacy_context :: transfer_context where
  "legacy_context = sample_context\<lparr>ctx_protocol_version := 2, ctx_recipient_key_id := []\<rparr>"

definition legacy_record :: transport_record where
  "legacy_record = \<lparr>btr_record_id = ''r1'',
     btr_fields = [\<lparr>sf_target_field_id = ''name'', sf_context = legacy_context,
       sf_envelope = \<lparr>env_epk = replicate 32 CHR ''k'', env_nonce = replicate 12 CHR ''n'',
         env_ciphertext = replicate 16 CHR ''c''\<rparr>\<rparr>],
     btr_authentication = None, btr_allow_blank = False\<rparr>"

definition ada_payload :: bytes where
  "ada_payload = (case payload_encode (PStr ''Ada'') of Inr b \<Rightarrow> b | Inl _ \<Rightarrow> [])"

lemma ada_payload_decode: "payload_decode ada_payload = Inr (PStr ''Ada'')"
  using decode_encoded [of "PStr ''Ada''"] by (auto simp: ada_payload_def)

definition open_primitives :: primitives where
  "open_primitives = \<lparr>ed25519_ok = (\<lambda>_ _ _. True), x25519_public = (\<lambda>k. k), x25519_exchange = (\<lambda>_ _. Some ''shared''),
     hkdf_sha256 = (\<lambda>_ s. s), chacha_open = (\<lambda>_ _ _ _. Some ada_payload), chacha_seal = (\<lambda>_ _ m _. m)\<rparr>"

definition name_field :: field_descriptor where
  "name_field = \<lparr>fd_id = ''name'', fd_name = ''name'', fd_data_type = DT_STRING, fd_nullable = False, fd_sensitivity = INTERNAL,
     fd_role = VALUE, fd_description = None, fd_aliases = [], fd_container = None, fd_destination_generated = False\<rparr>"

definition legacy_config :: spool_config where
  "legacy_config = \<lparr>sc_limits = ProtocolLimits\<lparr>max_record_wire_bytes := int (length (canonical_wire_bytes legacy_record))\<rparr>,
     sc_allow_unsigned = True, sc_allow_blank = False, sc_max_batch_wire_bytes = int (length (canonical_wire_bytes legacy_record))\<rparr>"

definition sample_runtime :: runtime where
  "sample_runtime = \<lparr>rt_primitives = open_primitives, rt_connector_id = ''erp'',
     rt_agent = \<lparr>da_private_key = ''private'', da_expected_tenant = Some ''acme'', da_expected_connector_id = Some ''erp'',
       da_allowed_plan_digests = Some [[]], da_source_trust_store = None, da_allow_legacy_unsigned = True,
       da_additional_private_keys = [], da_allow_legacy_blank = False\<rparr>,
     rt_has_write_batch = False, rt_has_resolver = False, rt_spool = legacy_config,
     rt_plan = \<lparr>mp_id = ''p'', mp_source_schema_id = ''s'', mp_target_schema_id = ''t'', mp_source_fingerprint = [],
       mp_target_fingerprint = [], mp_rules = [\<lparr>mr_source_field_id = ''name'', mr_target_field_id = ''name'',
         mr_transform = ''copy'', mr_parameters = []\<rparr>], mp_version = 1, mp_created_at = 0\<rparr>,
     rt_target_schema = \<lparr>sd_id = ''t'', sd_fields = [name_field], sd_relations = [], sd_metadata = []\<rparr>,
     rt_authorizer = None, rt_audit = False, rt_events = None, rt_actor_id = ''runtime'', rt_claim_lease = 10,
     rt_plan_digest = [], rt_mapped_target_fields = [name_field]\<rparr>"

lemma legacy_first [simp]: "first_context legacy_record = legacy_context"
  by (simp add: first_context_def legacy_record_def)

lemma legacy_attributes [simp]:
  "protocol_version legacy_record = 2" "tenant legacy_record = ''acme''" "destination_connector legacy_record = ''erp''"
  "plan_digest legacy_record = []" "plan_id legacy_record = ''p''" "transfer_id legacy_record = ''t1''"
  "ctx_recipient_key_id legacy_context = []" "btr_record_id legacy_record = ''r1''"
  by (simp_all add: protocol_version_def tenant_def destination_connector_def plan_digest_def plan_id_def transfer_id_def
      legacy_context_def sample_context_def) (simp add: legacy_record_def)

lemma legacy_transportable: "transportable True False legacy_record"
  using sample_context_wf
  by (simp add: transportable_def object_wf_def record_wf_def)
    (simp add: legacy_record_def legacy_context_def context_wf_def field_wf_def envelope_wf_def authentication_wf_def agrees_def
      lower_hex_def hex_digit_def list_all_iff sample_context_def)

lemma legacy_within: "within_limits (sc_limits legacy_config) legacy_record"
  by (simp add: within_limits_def legacy_config_def ProtocolLimits_def) (simp add: legacy_record_def)

section \<open>Evaluating actions\<close>

lemmas run_simps = bindA_def tryA_def ret_def throw_def tick_def lift_result_def raise_unless_def transact_def on_ledger_def on_spool_def
  no_result_def reads_def Let_def

definition sample_row :: "delivery_state \<Rightarrow> delivery_row" where
  "sample_row state = (new_row legacy_record ''token'' (isoformat 0) (isoformat 10))\<lparr>dl_state := state_value state\<rparr>"

lemma valid_times [simp]: "time_valid 0" "time_valid 10"
  by (simp_all add: time_valid_def day_us_def)

lemma iso_order: "isoformat 0 < isoformat 10"
  by (simp add: isoformat_less_iff)

lemma sample_authorize: "authorize_record_at open_primitives (rt_agent sample_runtime) legacy_record 0 = Inr ''private''"
  by (simp add: authorize_record_at_def sample_runtime_def recipient_private_key_def Let_def)

lemma sample_open_field:
  "open_envelope open_primitives (sf_envelope f) ''private'' legacy_context (Aware 0 0) = Inr ada_payload"
  by (simp add: open_envelope_def validate_time_def legacy_context_def sample_context_def open_primitives_def derive_key_def
      utc_def astimezone_utc_def)

lemma sample_claim_row:
  "claim legacy_record 10 (Aware 0 0) ''token'' [] = Inr ([sample_row CLAIMED],
     \<lparr>cr_disposition = NEW, cr_state = CLAIMED, cr_record_digest = digest legacy_record, cr_claim_token = Some ''token'',
      cr_claim_expires_at = Some (isoformat 10), cr_batch_attempt_id = None\<rparr>)"
  by (simp add: claim_def claim_many_def lease_duration_ok_def MAX_CLAIM_DURATION_def sec_us_def MAX_LEDGER_BATCH_ITEMS_def
      ledger_now_def astimezone_utc_def plus_delta_def claim_one_def select_one_def sample_row_def new_row_def)

text \<open>One fenced transition on a table that holds only this record.\<close>

lemma single_transition:
  assumes "fenced legacy_record expected ''token'' (if unexpired then Some (isoformat 0) else None) x"
    and "case contract of None \<Rightarrow> True | Some c \<Rightarrow> contract_id_ok c"
  shows "transition legacy_record state ''token'' expected reason unexpired clear setc contract (Aware 0 0) [x]
    = Inr [moved state (isoformat 0) reason (if clear then Some Null else None) (if setc then Some (text_or_null contract) else None) x]"
  using assms by (simp add: transition_def claim_token_ok_def ledger_now_def astimezone_utc_def Let_def rowcount_def update_where_def
      split: option.splits)

lemma sample_row_fenced:
  "fenced legacy_record state ''token'' (if unexpired then Some (isoformat 0) else None) (sample_row state)"
  by (simp add: sample_row_def fenced_def sql_eq_def row_key_def ledger_key_def new_row_def iso_order)

lemma moved_fenced:
  "fenced legacy_record state ''token'' None (moved state now reason at c (sample_row s))"
  by (simp add: sample_row_def fenced_def sql_eq_def row_key_def ledger_key_def new_row_def moved_def)

definition written_row :: "delivery_state \<Rightarrow> delivery_row" where
  "written_row s = moved WRITE_STARTED (isoformat 0) None (Some Null) (Some Null) (sample_row s)"

definition committed_row_of :: "delivery_state \<Rightarrow> delivery_row" where
  "committed_row_of s = moved COMMITTED (isoformat 0) None None None (written_row s)"

lemma sample_start_write: "start_write legacy_record ''token'' None (Aware 0 0) [sample_row CLAIMED] = Inr [written_row CLAIMED]"
  unfolding start_write_def written_row_def by (subst single_transition [OF sample_row_fenced]) simp_all

lemma sample_mark_committed: "mark_committed legacy_record ''token'' (Aware 0 0) [written_row CLAIMED] = Inr [committed_row_of CLAIMED]"
  unfolding mark_committed_def committed_row_of_def
  by (subst single_transition) (simp_all add: written_row_def moved_fenced)

lemma sample_values: "payload_satisfies_target_contract sample_runtime [(''name'', PStr ''Ada'')]"
  "payload_has_exact_mapped_fields sample_runtime [(''name'', PStr ''Ada'')]"
  "record_uses_runtime_plan sample_runtime legacy_record"
  by (simp_all add: payload_satisfies_target_contract_def payload_has_exact_mapped_fields_def sample_runtime_def name_field_def
      field_satisfied_def value_satisfies_type_def non_finite_def runtime_type_satisfies_def record_uses_runtime_plan_def)

text \<open>A world of the deployment: everything but the tape, on which every event is good.\<close>

definition at_world :: "ledger \<Rightarrow> spool \<Rightarrow> write_event list \<Rightarrow> nat \<Rightarrow> world" where
  "at_world db sp ws n = \<lparr>w_ledger = db, w_spool = sp, w_writes = ws, w_tape = (\<lambda>_. good_event), w_pos = n\<rparr>"

lemma at_world_ledger:
  "f good_event db = Inr (db', x) \<Longrightarrow> on_ledger f (at_world db sp ws n) = (Inr x, at_world db' sp ws (Suc n))"
  by (simp add: run_simps at_world_def good_event_def)

lemma at_world_spool:
  "f good_event sp = Inr (sp', x) \<Longrightarrow> on_spool f (at_world db sp ws n) = (Inr x, at_world db sp' ws (Suc n))"
  by (simp add: run_simps at_world_def good_event_def)

lemma at_world_tick: "tick (at_world db sp ws n) = (Inr good_event, at_world db sp ws (Suc n))"
  by (simp add: tick_def at_world_def)

lemma at_world_capabilities: "read_capabilities (at_world db sp ws n) = (Inr sample_capabilities, at_world db sp ws (Suc n))"
  by (simp add: read_capabilities_def bindA_def at_world_tick lift_result_def ret_def)
    (simp add: good_event_def ret_def)

lemma bindA_ok: "m w = (Inr x, w') \<Longrightarrow> bindA m f w = f x w'"
  by (simp add: bindA_def)

lemma tryA_ok: "m w = (Inr x, w') \<Longrightarrow> tryA m f h w = f x w'"
  by (simp add: tryA_def)

lemma sample_open:
  "open_authorized_record open_primitives legacy_record ''private'' (at_world db sp ws n)
     = (Inr [(''name'', PStr ''Ada'')], at_world db sp ws (Suc n))"
proof -
  have "btr_fields legacy_record = [\<lparr>sf_target_field_id = ''name'', sf_context = legacy_context,
       sf_envelope = \<lparr>env_epk = replicate 32 CHR ''k'', env_nonce = replicate 12 CHR ''n'', env_ciphertext = replicate 16 CHR ''c''\<rparr>\<rparr>]"
    by (simp add: legacy_record_def)
  moreover have "ev_now good_event = 0" by (simp add: good_event_def)
  ultimately show ?thesis
    using sample_open_field [of "\<lparr>sf_target_field_id = ''name'', sf_context = legacy_context,
       sf_envelope = \<lparr>env_epk = replicate 32 CHR ''k'', env_nonce = replicate 12 CHR ''n'', env_ciphertext = replicate 16 CHR ''c''\<rparr>\<rparr>"]
    by (simp add: open_authorized_record_def open_field_def bindA_def at_world_tick lift_result_def)
      (simp add: ada_payload_decode ret_def bindA_def)
qed

lemma runtime_sel [simp]:
  "rt_primitives sample_runtime = open_primitives" "rt_authorizer sample_runtime = None" "rt_audit sample_runtime = False"
  "rt_events sample_runtime = None" "rt_claim_lease sample_runtime = 10" "rt_spool sample_runtime = legacy_config"
  "mp_rules (rt_plan sample_runtime) = [\<lparr>mr_source_field_id = ''name'', mr_target_field_id = ''name'', mr_transform = ''copy'', mr_parameters = []\<rparr>]"
  by (simp_all add: sample_runtime_def)

lemma event_sel [simp]: "ev_now good_event = 0" "ev_clock good_event = Aware 0 0" "ev_token good_event i = ''token''"
  by (simp_all add: good_event_def)

lemma capabilities_sel [simp]: "cc_write_records sample_capabilities" "scalar_idempotency_contract_id sample_capabilities = None"
  "cc_atomic_batch_write sample_capabilities = None"
  by (simp_all add: sample_capabilities_def scalar_idempotency_contract_id_def)

lemma at_world_authorize:
  "authorize_record open_primitives (rt_agent sample_runtime) legacy_record (at_world db sp ws n) = (Inr ''private'', at_world db sp ws (Suc n))"
  by (simp add: authorize_record_def bindA_def at_world_tick sample_authorize lift_result_def ret_def)

lemma at_world_grant: "authorize_capability sample_runtime operation r w = (Inr (), w)"
  by (simp add: authorize_capability_def ret_def)

lemma at_world_transforms: "apply_destination_transforms sample_runtime vs w = (Inr vs, w)"
  by (simp add: apply_destination_transforms_def apply_destination_rule_def transform_stage_of_def TRANSFORM_SPECS_def
      lift_result_def bindA_def ret_def)

lemma at_world_unchanged: "capability_changed sample_capabilities (at_world db sp ws n) = (Inr False, at_world db sp ws (Suc n))"
  by (simp add: capability_changed_def tryA_def at_world_capabilities ret_def)

definition cleaned :: "spool \<Rightarrow> spool" where
  "cleaned sp = delete_where (\<lambda>y. se_record_digest y \<in> set [digest legacy_record]) sp"

lemma at_world_cleanup: "cleanup [digest legacy_record] (at_world db sp ws n) = (Inr False, at_world db (cleaned sp) ws (Suc n))"
proof -
  have "select_one (\<lambda>y. se_record_digest y = digest legacy_record) (cleaned sp) = None"
    by (simp add: select_one_None cleaned_def)
  then have "remove_many [digest legacy_record] sp = Inr (cleaned sp, rowcount (\<lambda>y. se_record_digest y = digest legacy_record) sp)"
    by (simp add: remove_many_def valid_digest_def digest_hex MAX_SPOOL_BATCH_ITEMS_def fromkeys_def chunks.simps
        SQLITE_DIGEST_CHUNK_SIZE_def Let_def delete_chunk_def remaining_chunk_def cleaned_def)
  then have "on_spool (\<lambda>ev sp. remove_many [digest legacy_record] sp) (at_world db sp ws n)
      = (Inr (rowcount (\<lambda>y. se_record_digest y = digest legacy_record) sp), at_world db (cleaned sp) ws (Suc n))"
    by (rule at_world_spool)
  then show ?thesis by (simp add: cleanup_def tryA_def ret_def)
qed

lemma at_world_receipt:
  "receipt sample_runtime q (at_world db sp ws n)
     = (Inr (receipt_for sample_runtime q (isoformat 0) AUDIT_DISABLED EVENT_DISABLED None), at_world db sp ws (Suc n))"
  by (simp add: receipt_def audit_one_def emit_one_def bindA_def at_world_tick ret_def)

lemma at_world_write:
  "write_call rs items c (at_world db sp ws n) = (Inr (Acknowledged (Some 1)),
     at_world db sp (ws @ [\<lparr>we_records = rs, we_items = items, we_contract = c, we_response = Acknowledged (Some 1)\<rparr>]) (Suc n))"
  by (simp add: write_call_def at_world_def good_event_def Let_def)

definition sample_attempt :: attempt where
  "sample_attempt = \<lparr>at_record = legacy_record, at_token = ''token'', at_event_type = ''delivery'', at_replay = False, at_batch = None,
     at_history = None, at_capabilities = sample_capabilities\<rparr>"

definition sample_write :: write_event where
  "sample_write = \<lparr>we_records = [legacy_record], we_items = [\<lparr>bw_values = [(''name'', PStr ''Ada'')], bw_context = context_for legacy_record,
      bw_wire_bytes = int (length (canonical_wire_bytes legacy_record))\<rparr>], we_contract = None, we_response = Acknowledged (Some 1)\<rparr>"

definition sample_receipt :: "string \<Rightarrow> delivery_receipt" where
  "sample_receipt event_type = receipt_for sample_runtime (request legacy_record DELIVERED None None event_type None) (isoformat 0)
     AUDIT_DISABLED EVENT_DISABLED None"

lemma attempt_sel [simp]: "at_record sample_attempt = legacy_record" "at_token sample_attempt = ''token''" "\<not> at_replay sample_attempt"
  "at_contract sample_attempt = None" "at_capabilities sample_attempt = sample_capabilities"
  by (simp_all add: sample_attempt_def at_contract_def)

lemma sample_settle:
  "settle_committed sample_runtime (sample_attempt\<lparr>at_event_type := ty\<rparr>) (at_world [written_row CLAIMED] sp ws n)
     = (Inr (sample_receipt ty), at_world [committed_row_of CLAIMED] (cleaned sp) ws (n + 3))"
proof -
  have "on_ledger (\<lambda>ev db. no_result (mark_committed legacy_record ''token'' (ev_clock ev) db)) (at_world [written_row CLAIMED] sp ws n)
      = (Inr (), at_world [committed_row_of CLAIMED] sp ws (Suc n))"
    by (rule at_world_ledger) (simp add: sample_mark_committed)
  then show ?thesis
    by (simp add: settle_committed_def tryA_def bindA_def at_world_cleanup attempt_receipt_def at_world_receipt cleanup_reason_def
        sample_receipt_def numeral_eq_Suc) (simp add: sample_attempt_def)
qed

lemma sample_check_and_write:
  "check_and_write sample_runtime (sample_attempt\<lparr>at_event_type := ty\<rparr>) [(''name'', PStr ''Ada'')] (at_world [sample_row CLAIMED] sp ws n)
     = (Inr (sample_receipt ty), at_world [committed_row_of CLAIMED] (cleaned sp) (ws @ [sample_write]) (n + 6))"
proof -
  have "on_ledger (\<lambda>ev db. no_result (start_write legacy_record ''token'' None (ev_clock ev) db)) (at_world [sample_row CLAIMED] sp ws k)
      = (Inr (), at_world [written_row CLAIMED] sp ws (Suc k))" for k
    by (rule at_world_ledger) (simp add: sample_start_write)
  then have "start_attempt (sample_attempt\<lparr>at_event_type := ty\<rparr>) (at_world [sample_row CLAIMED] sp ws k)
      = (Inr (), at_world [written_row CLAIMED] sp ws (Suc k))" for k
    by (simp add: start_attempt_def) (simp add: at_contract_def)
  then show ?thesis
    using sample_settle [of ty sp "ws @ [sample_write]" "Suc (Suc (Suc n))"]
    by (simp add: check_and_write_def sample_values bindA_def at_world_unchanged write_claimed_def tryA_def at_world_write sample_write_def
        at_contract_def numeral_eq_Suc)
qed

lemma sample_deliver_claimed:
  "deliver_claimed sample_runtime (sample_attempt\<lparr>at_event_type := ty\<rparr>) (Some ''private'') (at_world [sample_row CLAIMED] sp ws n)
     = (Inr (sample_receipt ty), at_world [committed_row_of CLAIMED] (cleaned sp) (ws @ [sample_write]) (n + 7))"
  using sample_check_and_write [of ty sp ws "Suc n"]
  by (simp add: deliver_claimed_def tryA_def sample_open sample_values at_world_transforms numeral_eq_Suc)

lemma sample_deliver_with:
  "deliver_with_capabilities sample_runtime sample_capabilities legacy_record (at_world [] [] [] n)
     = (Inr (sample_receipt ''delivery''), at_world [committed_row_of CLAIMED] [] [sample_write] (n + 9))"
proof -
  have claim: "on_ledger (\<lambda>ev db. claim legacy_record 10 (ev_clock ev) (ev_token ev 0) db) (at_world [] [] [] k) = (Inr
     \<lparr>cr_disposition = NEW, cr_state = CLAIMED, cr_record_digest = digest legacy_record, cr_claim_token = Some ''token'',
      cr_claim_expires_at = Some (isoformat 10), cr_batch_attempt_id = None\<rparr>, at_world [sample_row CLAIMED] [] [] (Suc k))" for k
    by (rule at_world_ledger) (simp add: sample_claim_row)
  have a: "\<lparr>at_record = legacy_record, at_token = ''token'', at_event_type = ''delivery'', at_replay = False, at_batch = None,
     at_history = None, at_capabilities = sample_capabilities\<rparr> = sample_attempt\<lparr>at_event_type := ''delivery''\<rparr>"
    by (simp add: sample_attempt_def)
  have "cleaned [] = []" by (simp add: cleaned_def delete_where_def)
  then show ?thesis
    using sample_deliver_claimed [of "''delivery''" "[]" "[]" "Suc (Suc n)"]
    by (simp add: bindA_def deliver_with_capabilities_def raise_unless_def at_world_authorize
        at_world_grant claim dispose_def ret_def a numeral_eq_Suc)
qed

lemma sample_world_at: "sample_world = at_world [] [] [] 0"
  by (simp add: sample_world_def at_world_def)

lemma sample_deliver:
  "deliver sample_runtime legacy_record sample_world = (Inr (sample_receipt ''delivery''), at_world [committed_row_of CLAIMED] [] [sample_write] 10)"
  by (simp add: sample_world_at deliver_def bindA_def at_world_capabilities sample_deliver_with)

lemma sample_deliver_many:
  "deliver_many sample_runtime [legacy_record] sample_world
     = (Inr [sample_receipt ''delivery''], at_world [committed_row_of CLAIMED] [] [sample_write] 10)"
proof -
  have "admit sample_runtime 0 0 [legacy_record] = Inr ()" by (simp add: legacy_config_def Let_def)
  then show ?thesis
    by (simp add: sample_world_at deliver_many_def bindA_def at_world_capabilities raise_unless_def lift_result_def ret_def tryA_def
        sample_deliver_with)
qed

lemma at_world_writes [simp]: "w_writes (at_world db sp ws n) = ws" "w_ledger (at_world db sp ws n) = db"
  by (simp_all add: at_world_def)

lemma sample_status [simp]: "rc_status (sample_receipt ty) = DELIVERED"
  by (simp add: sample_receipt_def receipt_for_def request_def)

section \<open>A replay that writes\<close>

definition sample_spool :: spool where
  "sample_spool = [row_of (entry_of legacy_record ''write_not_committed'' (isoformat 0), canonical_wire_bytes legacy_record)]"

lemma sample_spool_get: "spool_get legacy_config (digest legacy_record) sample_spool = Inr (Some legacy_record)"
proof -
  let ?y = "row_of (entry_of legacy_record ''write_not_committed'' (isoformat 0), canonical_wire_bytes legacy_record)"
  have cfg: "sc_allow_unsigned legacy_config" "\<not> sc_allow_blank legacy_config" by (simp_all add: legacy_config_def)
  have "spool_keyed [?y]" "se_record_digest ?y = digest legacy_record" "sr_wire ?y = Blob (canonical_wire_bytes legacy_record)"
    by (simp_all add: spool_keyed_def keyed_def row_of_def entry_of_def Let_def)
  moreover have "accepted legacy_config legacy_record"
    using legacy_transportable legacy_within cfg by (intro transportable_accepted) simp_all
  moreover have "from_wire (sc_limits legacy_config) (sc_allow_unsigned legacy_config) (sc_allow_blank legacy_config)
      (reread (to_wire legacy_record)) = Inr legacy_record"
    using legacy_transportable legacy_within cfg by (intro from_wire_reread) simp_all
  ultimately show ?thesis using spool_get_accepted [of "[?y]" ?y legacy_record legacy_config] by (simp add: sample_spool_def)
qed

definition sample_entry :: ledger_entry where
  "sample_entry = \<lparr>le_key = ledger_key legacy_record, le_record_digest = digest legacy_record, le_plan_digest = plan_digest legacy_record,
     le_state = QUARANTINED, le_created_at = isoformat 0, le_updated_at = isoformat 0, le_reason_code = Null, le_claim_token = Text ''token'',
     le_claim_expires_at = Text (isoformat 10), le_batch_attempt_id = None, le_contract_id = None\<rparr>"

lemma sample_ledger_get: "ledger_get legacy_record [sample_row QUARANTINED] = Inr (Some sample_entry)"
  by (simp add: ledger_get_def select_one_def sample_row_def row_key_def ledger_key_def new_row_def entry_from_row_def
      attempt_from_row_def contract_from_row_def sample_entry_def)

lemma sample_rearm:
  "rearm_for_retry legacy_record QUARANTINED 10 (Aware 0 0) ''token'' [sample_row QUARANTINED] = Inr ([sample_row CLAIMED],
     \<lparr>cr_disposition = RECOVERED, cr_state = CLAIMED, cr_record_digest = digest legacy_record, cr_claim_token = Some ''token'',
      cr_claim_expires_at = Some (isoformat 10), cr_batch_attempt_id = None\<rparr>)"
  by (simp add: rearm_for_retry_def lease_duration_ok_def MAX_CLAIM_DURATION_def sec_us_def ledger_now_def astimezone_utc_def
      plus_delta_def Let_def select_one_def sample_row_def row_key_def ledger_key_def new_row_def attempt_from_row_def contract_from_row_def
      rowcount_def update_where_def sql_is_def rearm_target_def)

lemma sample_replay:
  "replay sample_runtime (digest legacy_record) False (at_world [sample_row QUARANTINED] sample_spool [] 0)
     = (Inr (sample_receipt ''replay''), at_world [committed_row_of CLAIMED] (cleaned sample_spool) [sample_write] 12)"
proof -
  have spool: "on_spool (reads (spool_get legacy_config (digest legacy_record))) (at_world db sample_spool [] n)
      = (Inr (Some legacy_record), at_world db sample_spool [] (Suc n))" for db n
    by (rule at_world_spool) (simp add: reads_def sample_spool_get)
  have get: "on_ledger (reads (ledger_get legacy_record)) (at_world [sample_row QUARANTINED] sp [] n)
      = (Inr (Some sample_entry), at_world [sample_row QUARANTINED] sp [] (Suc n))" for sp n
    by (rule at_world_ledger) (simp add: reads_def sample_ledger_get)
  have rearm: "on_ledger (\<lambda>ev db. rearm_for_retry legacy_record QUARANTINED 10 (ev_clock ev) (ev_token ev 0) db)
      (at_world [sample_row QUARANTINED] sp [] n) = (Inr
     \<lparr>cr_disposition = RECOVERED, cr_state = CLAIMED, cr_record_digest = digest legacy_record, cr_claim_token = Some ''token'',
      cr_claim_expires_at = Some (isoformat 10), cr_batch_attempt_id = None\<rparr>, at_world [sample_row CLAIMED] sp [] (Suc n))" for sp n
    by (rule at_world_ledger) (simp add: sample_rearm)
  have entry: "le_state sample_entry = QUARANTINED" "le_contract_id sample_entry = None" by (simp_all add: sample_entry_def)
  have a: "\<lparr>at_record = legacy_record, at_token = ''token'', at_event_type = ''replay'', at_replay = False, at_batch = None,
     at_history = None, at_capabilities = sample_capabilities\<rparr> = sample_attempt\<lparr>at_event_type := ''replay''\<rparr>"
    by (simp add: sample_attempt_def)
  have opened: "open_record open_primitives (rt_agent sample_runtime) legacy_record (at_world db sp ws n)
      = (Inr [(''name'', PStr ''Ada'')], at_world db sp ws (Suc (Suc n)))" for db sp ws n
    by (simp add: open_record_def bindA_def at_world_authorize sample_open)
  have claimed: "deliver_claimed sample_runtime (sample_attempt\<lparr>at_event_type := ''replay''\<rparr>) None (at_world [sample_row CLAIMED] sp [] n)
      = (Inr (sample_receipt ''replay''), at_world [committed_row_of CLAIMED] (cleaned sp) [sample_write] (n + 8))" for sp n
    using sample_check_and_write [of "''replay''" sp "[]" "Suc (Suc n)"]
    by (simp add: deliver_claimed_def tryA_def opened sample_values at_world_transforms numeral_eq_Suc)
  show ?thesis
    by (simp add: replay_def Let_def bindA_def at_world_capabilities raise_unless_def spool at_world_grant get entry
        ambiguous_write_states_def guarded_replay_states_def ret_def rearm a claimed numeral_eq_Suc)
qed

section \<open>The properties at these inputs\<close>

theorem one_contract_per_identity_witness:
  "length (writes_of (ledger_key legacy_record) (w_writes (snd (deliver sample_runtime legacy_record sample_world)))) \<le> 1
    \<or> (\<exists>c. \<forall>e \<in> set (writes_of (ledger_key legacy_record) (w_writes (snd (deliver sample_runtime legacy_record sample_world)))).
         we_contract e = Some c)"
  using one_contract_per_identity [where k = "ledger_key legacy_record", OF r_into_rtranclp [of runtime_step, OF
      rs_deliver [of sample_world sample_runtime legacy_record]]]
  by (simp add: sample_world_def)

text \<open>A delivery, and the replay of a record the spool held.\<close>

theorem delivered_is_committed_witness:
  "(\<exists>vs. holds_values (\<lambda>_. good_event) sample_runtime legacy_record vs \<and> map bw_values (we_items sample_write) = [vs])
   \<and> (\<exists>x. digest x = digest legacy_record \<and> spool_get legacy_config (digest legacy_record) sample_spool = Inr (Some x)
        \<and> we_records sample_write = [x])"
proof -
  have ok: "rc_status (sample_receipt ty) = DELIVERED" for ty by (simp add: sample_receipt_def receipt_for_def)
  note made = delivered_is_committed [OF ok, THEN conjunct1, THEN mp] delivered_is_committed [OF ok, THEN conjunct2, THEN mp]
  have "\<exists>vs. holds_values (\<lambda>_. good_event) sample_runtime legacy_record vs \<and> map bw_values (we_items sample_write) = [vs]"
    using made(1) [OF sample_deliver] by (auto simp: delivery_made_def sample_world_def)
  moreover have "\<exists>x. digest x = digest legacy_record \<and> spool_get legacy_config (digest legacy_record) sample_spool = Inr (Some x)
      \<and> we_records sample_write = [x]"
    using made(2) [OF sample_replay] by (auto simp: delivery_made_def at_world_def)
  ultimately show ?thesis by blast
qed

theorem receipts_are_honest_witness:
  "\<exists>es. [sample_write] = es \<and> length es \<le> 1"
  using receipts_are_honest [OF disjI1 [OF sample_deliver]] by (simp add: sample_world_def)

theorem replay_writes_only_when_allowed_witness:
  "spool_get (rt_spool sample_runtime) (digest legacy_record) sample_spool = Inr (Some legacy_record)
   \<and> ledger_get legacy_record [sample_row QUARANTINED] = Inr (Some sample_entry) \<and> le_state sample_entry \<noteq> COMMITTED"
proof -
  have "w_writes (snd (replay sample_runtime (digest legacy_record) False (at_world [sample_row QUARANTINED] sample_spool [] 0)))
      \<noteq> w_writes (at_world [sample_row QUARANTINED] sample_spool [] 0)"
    unfolding sample_replay by simp
  from replay_writes_only_when_allowed [OF this] sample_spool_get sample_ledger_get
  show ?thesis by (auto simp: at_world_def)
qed

theorem split_batch_partitions_witness:
  "concat (split_batch 1 0 [] [] [legacy_record, legacy_record]) = [legacy_record, legacy_record]"
  using split_batch_partitions [of 1 0 "[legacy_record, legacy_record]"] by blast

theorem deliver_many_receipts_in_order_witness:
  "map rc_record_digest [sample_receipt ''delivery''] = [digest legacy_record]"
  using deliver_many_receipts_in_order [OF sample_deliver_many] by simp

end
