(* ===== verification/AuditChain.thy ===== *)
theory AuditChain
  imports AuditStore
begin

text \<open>
  What the hash chain of the audit log guarantees: verification accepts exactly the linked tables, appending extends
  a verified chain by the events it was given, an external checkpoint (the length and the last hash) fixes the whole
  history, and the summary counts what a plain count over the verified events would.
\<close>

section \<open>Verification\<close>

text \<open>
  The log verifies with count \<open>n\<close> exactly when it has \<open>n\<close> rows, numbered from one without gaps, each of them
  parses to an object, names the hash of the row before it (64 zeros for the first), carries the hash of that
  predecessor and its own canonical event, and, with a trusted key, a signature of that key over its hash.
\<close>

theorem verify_iff:
  "audit_verify ok key db = Inr n \<longleftrightarrow> n = length (ad_rows db) \<and> (\<forall>i < length (ad_rows db).
     let x = ad_rows db ! i; previous = (if i = 0 then replicate 64 CHR ''0'' else ar_event_hash (ad_rows db ! (i - 1)))
     in ar_sequence x = 1 + int i \<and> ar_previous_hash x = previous
        \<and> (\<exists>event. json_loads False (ar_event_json x) = Some (JObj event)
             \<and> ar_event_hash x = sha256_hex (previous @ [CHR 0x00] @ json_encode (JObj event)))
        \<and> (case key of None \<Rightarrow> True | Some k \<Rightarrow> \<exists>s. ar_signature x = Some s \<and> length k = 32 \<and> length s = 64
             \<and> ok k (fromhex (ar_event_hash x)) s))"
proof -
  have "row_ok ok key h k x \<longleftrightarrow> ar_sequence x = k \<and> ar_previous_hash x = h
      \<and> (\<exists>event. json_loads False (ar_event_json x) = Some (JObj event)
           \<and> ar_event_hash x = sha256_hex (h @ [CHR 0x00] @ json_encode (JObj event)))
      \<and> (case key of None \<Rightarrow> True | Some k \<Rightarrow> \<exists>s. ar_signature x = Some s \<and> length k = 32 \<and> length s = 64
           \<and> ok k (fromhex (ar_event_hash x)) s)" for h k x
    unfolding row_ok_def audit_hash_def hash_encoded_def signature_ok_def
    by (auto simp: row_event_def)
  then show ?thesis by (auto simp: verify_chain chain_nth genesis_def Let_def)
qed

section \<open>Appending\<close>

lemma canon_atoms: "(\<forall>(k, v) \<in> set kvs. canon v = v) \<Longrightarrow> canon_members kvs = kvs"
  unfolding canon_members_map by (rule map_idI) auto

lemma canon_idem [simp]:
  "canon (canon j) = canon j"
  "canon_elems (canon_elems xs) = canon_elems xs"
  "canon_members (canon_members kvs) = canon_members kvs"
proof (induction j and xs and kvs rule: canon_canon_elems_canon_members.induct)
  case (2 kvs)
  then have "\<forall>(k, v) \<in> set (canon_members kvs). canon v = v"
    by (auto simp: canon_members_map)
  then have "canon_members (sort_key fst (canon_members kvs)) = sort_key fst (canon_members kvs)"
    by (intro canon_atoms) simp
  then show ?case by (simp add: sort_key_id_if_sorted)
qed simp_all

lemma canonical_dict_readable:
  "audit_canonical_dict e now = Inr d \<Longrightarrow> readable (JObj d)"
  by (auto simp: audit_canonical_dict_def str_or_null_def split: option.splits if_splits)

text \<open>The signer of the log and the key a verifier trusts belong together.\<close>

definition signer_matches :: "(bytes \<Rightarrow> bytes \<Rightarrow> bytes \<Rightarrow> bool) \<Rightarrow> bytes option \<Rightarrow> audit_log \<Rightarrow> bool" where
  "signer_matches ok key cfg = (case key of None \<Rightarrow> True
     | Some k \<Rightarrow> length k = 32 \<and> (\<exists>sign. al_signer cfg = Some sign \<and> (\<forall>m. length (sign m) = 64 \<and> ok k m (sign m))))"

definition prepared_ok :: "prepared_event \<Rightarrow> bool" where
  "prepared_ok p = (readable (JObj (fst p)) \<and> snd p = json_dumps (JObj (fst p)))"

lemma json_dumps_canon [simp]: "json_dumps (canon j) = json_dumps j" "json_encode (canon j) = json_encode j"
  by (simp_all add: json_encode_def json_dumps_def)

lemma expected_row_ok:
  assumes "prepared_ok p" "signer_matches ok key cfg"
    and x: "x = \<lparr>ar_sequence = n, ar_event_json = snd p, ar_previous_hash = h,
        ar_event_hash = hash_encoded h (utf8_encode (snd p)),
        ar_signature = map_option (\<lambda>sign. sign (fromhex (hash_encoded h (utf8_encode (snd p))))) (al_signer cfg)\<rparr>"
  shows "row_ok ok key h n x" "JObj (row_event x) = canon (JObj (fst p))"
proof -
  have "json_loads False (snd p) = Some (canon (JObj (fst p)))"
    using assms(1) json_roundtrip [OF readable_canon(1), of "JObj (fst p)" False]
    by (simp add: prepared_ok_def json_dumps_def)
  then show e: "JObj (row_event x) = canon (JObj (fst p))" by (simp add: row_event_def x)
  with \<open>json_loads False (snd p) = _\<close> have loads: "json_loads False (ar_event_json x) = Some (JObj (row_event x))" by (simp add: x)
  have "audit_hash h (JObj (row_event x)) = hash_encoded h (utf8_encode (snd p))"
    using assms(1) unfolding e audit_hash_def prepared_ok_def by (simp add: json_encode_def del: canon.simps)
  moreover have "signature_ok ok key x"
    using assms(2) by (auto simp: signature_ok_def signer_matches_def x split: option.splits)
  ultimately show "row_ok ok key h n x" using loads by (simp add: row_ok_def x)
qed

lemma insert_events_chain:
  assumes "insert_events cfg n h ps db = Inr (db', xs)" "list_all prepared_ok ps" "signer_matches ok key cfg"
  shows "chain ok key h n xs \<and> map (\<lambda>x. JObj (row_event x)) xs = map (\<lambda>p. canon (JObj (fst p))) ps"
  using assms(1,2)
proof (induction ps arbitrary: n h db xs)
  case (Cons p ps)
  obtain d encoded where p: "p = (d, encoded)" by (cases p)
  from Cons.prems(1) obtain db1 x xs' where
    x: "x = \<lparr>ar_sequence = n, ar_event_json = snd p, ar_previous_hash = h,
        ar_event_hash = hash_encoded h (utf8_encode (snd p)),
        ar_signature = map_option (\<lambda>sign. sign (fromhex (hash_encoded h (utf8_encode (snd p))))) (al_signer cfg)\<rparr>"
    and rest: "insert_events cfg (n + 1) (ar_event_hash x) ps db1 = Inr (db', xs')" and xs: "xs = x # xs'"
    by (auto simp: p Let_def)
  have "chain ok key (ar_event_hash x) (n + 1) xs' \<and> map (\<lambda>x. JObj (row_event x)) xs' = map (\<lambda>p. canon (JObj (fst p))) ps"
    using Cons.IH [OF rest] Cons.prems(2) by simp
  with expected_row_ok [OF _ assms(3) x] Cons.prems(2) show ?case by (simp add: xs)
qed simp

lemma insert_event_row:
  "insert_event j h h' s db = Inr db1 \<Longrightarrow> \<exists>x. ad_rows db1 = ad_rows db @ [x] \<and> tail_sequence (ad_rows db) < ar_sequence x"
  by (auto simp: insert_event_def Let_def)

lemma insert_events_rows:
  assumes "insert_events cfg n h ps db = Inr (db', xs)"
  shows "\<exists>ys. ad_rows db' = ad_rows db @ ys \<and> (\<forall>y \<in> set ys. tail_sequence (ad_rows db) < ar_sequence y) \<and> length xs = length ps"
  using assms
proof (induction ps arbitrary: n h db xs)
  case (Cons p ps)
  obtain d encoded where p: "p = (d, encoded)" by (cases p)
  from Cons.prems obtain db1 h' s xs' where ins1: "insert_event encoded h h' s db = Inr db1"
    and rest: "insert_events cfg (n + 1) h' ps db1 = Inr (db', xs')" and xs: "length xs = Suc (length xs')"
    by (auto simp: p Let_def)
  from insert_event_row [OF ins1] obtain x where
    ins: "ad_rows db1 = ad_rows db @ [x]" "tail_sequence (ad_rows db) < ar_sequence x" by blast
  from Cons.IH [OF rest] obtain ys where ys: "ad_rows db' = ad_rows db1 @ ys"
      "\<forall>y \<in> set ys. tail_sequence (ad_rows db1) < ar_sequence y" "length xs' = length ps" by blast
  have "tail_sequence (ad_rows db1) = ar_sequence x" by (simp add: ins tail_sequence_def)
  with ys ins xs show ?case by (intro exI [of _ "x # ys"]) auto
qed simp

lemma prepare_events_ok:
  "prepare_events clock n t es = Inr ps \<Longrightarrow> list_all prepared_ok ps \<and> length ps = length es
     \<and> (\<forall>i < length es. audit_canonical_dict (es ! i) (clock (n + i)) = Inr (fst (ps ! i)))"
proof (induction es arbitrary: n t ps)
  case (Cons e es)
  then obtain d ps' t' where d: "audit_canonical_dict e (clock n) = Inr d" and ps: "ps = (d, json_dumps (JObj d)) # ps'"
    and rest: "prepare_events clock (Suc n) t' es = Inr ps'" by (auto simp: Let_def)
  from Cons.IH [OF rest] d ps canonical_dict_readable [OF d] show ?case
    by (auto simp: prepared_ok_def nth_Cons split: nat.splits)
qed simp

lemma append_prepared_extends:
  assumes "append_prepared cfg ps db = Inr (db', recs)" "list_all prepared_ok ps" "chain ok key genesis 1 (ad_rows db)"
    "signer_matches ok key cfg"
  obtains xs where "ad_rows db' = ad_rows db @ xs" "chain ok key genesis 1 (ad_rows db')"
    "map (\<lambda>x. JObj (row_event x)) xs = map (\<lambda>p. canon (JObj (fst p))) ps" "recs = map2 audit_record_of ps xs"
    "length xs = length ps" "int (length (ad_rows db')) \<le> al_max_events cfg"
proof -
  let ?n = "tail_sequence (ad_rows db)"
  have n: "?n = int (length (ad_rows db))" using chain_tail assms(3) by blast
  from assms(1) obtain xs where ins: "insert_events cfg (?n + 1) (tail_hash genesis (ad_rows db)) ps db = Inr (db', xs)"
    and post: "filter (\<lambda>x. ?n < ar_sequence x) (ad_rows db') = xs" and recs: "recs = map2 audit_record_of ps xs"
    and quota: "?n + int (length ps) \<le> al_max_events cfg"
    by (auto simp: append_prepared_def Let_def tail_hash_def split: option.splits prod.splits)
  from insert_events_rows [OF ins] obtain ys where
    rows: "ad_rows db' = ad_rows db @ ys" "\<forall>y \<in> set ys. ?n < ar_sequence y" "length xs = length ps" by blast
  have "ar_sequence x \<le> ?n" if "x \<in> set (ad_rows db)" for x
    using assms(3) that unfolding n chain_nth row_ok_def by (auto simp: in_set_conv_nth)
  then have "filter (\<lambda>x. ?n < ar_sequence x) (ad_rows db) = []" by (simp add: filter_empty_conv not_less)
  with rows(1,2) post have "ys = xs" by simp
  moreover have "chain ok key (tail_hash genesis (ad_rows db)) (?n + 1) xs"
    "map (\<lambda>x. JObj (row_event x)) xs = map (\<lambda>p. canon (JObj (fst p))) ps"
    using insert_events_chain [OF ins assms(2,4)] by simp_all
  ultimately show thesis using that [of xs] rows assms(3) recs quota n by (simp add: chain_append add.commute)
qed

text \<open>
  C38. Appending a batch to a log that verifies, with the trusted key of its signer or without one, gives a log that
  verifies with as many more events: the old rows stay as they are, the new ones hold the canonical form of the given
  events in their order, one record is returned per event, and the event quota is kept.
\<close>

theorem append_extends_chain:
  assumes "append_many cfg clock es db = Inr (db', recs)" "audit_verify ok key db = Inr n" "signer_matches ok key cfg"
  shows "audit_verify ok key db' = Inr (n + length es) \<and> take n (ad_rows db') = ad_rows db \<and> length recs = length es
    \<and> (\<forall>i < length es. \<exists>d. audit_canonical_dict (es ! i) (clock i) = Inr d \<and> au_event (recs ! i) = d
         \<and> JObj (row_event (ad_rows db' ! (n + i))) = canon (JObj d))
    \<and> (es = [] \<or> int (n + length es) \<le> al_max_events cfg)"
proof -
  have c: "chain ok key genesis 1 (ad_rows db)" and n: "n = length (ad_rows db)" using assms(2) by (simp_all add: verify_chain)
  from assms(1) obtain ps where ps: "prepare_events clock 0 0 es = Inr ps"
    and app: "if ps = [] then Inr (db, []) = Inr (db', recs) else append_prepared cfg ps db = Inr (db', recs)"
    by (auto simp: append_many_def split: if_splits)
  have ok: "list_all prepared_ok ps" "length ps = length es"
    "\<forall>i < length es. audit_canonical_dict (es ! i) (clock i) = Inr (fst (ps ! i))"
    using prepare_events_ok [OF ps] by simp_all
  show ?thesis
  proof (cases "ps = []")
    case True
    with app ok assms(2) show ?thesis by (simp add: n)
  next
    case False
    with app have "append_prepared cfg ps db = Inr (db', recs)" by simp
    from append_prepared_extends [OF this ok(1) c assms(3)] obtain xs where
      xs: "ad_rows db' = ad_rows db @ xs" "chain ok key genesis 1 (ad_rows db')"
        "map (\<lambda>x. JObj (row_event x)) xs = map (\<lambda>p. canon (JObj (fst p))) ps" "recs = map2 audit_record_of ps xs"
        "length xs = length ps" "int (length (ad_rows db')) \<le> al_max_events cfg" .
    have "JObj (row_event (xs ! i)) = canon (JObj (fst (ps ! i)))" if "i < length ps" for i
      using arg_cong [OF xs(3), of "\<lambda>l. l ! i"] that xs(5) by simp
    with xs ok(2,3) show ?thesis by (auto simp: verify_chain n nth_append audit_record_of_def)
  qed
qed

section \<open>Checkpoints\<close>

text \<open>The bytes whose hash a row of a verified log carries.\<close>

definition chain_input :: "audit_row \<Rightarrow> bytes" where
  "chain_input x = ar_previous_hash x @ [CHR 0x00] @ json_encode (JObj (row_event x))"

definition event_text :: "audit_row \<Rightarrow> string" where
  "event_text x = json_dumps (JObj (row_event x))"

lemma row_ok_hash: "row_ok ok key h n x \<Longrightarrow> ar_event_hash x = sha256_hex (chain_input x) \<and> ar_previous_hash x = h"
  by (simp add: row_ok_def audit_hash_def hash_encoded_def chain_input_def)

lemma json_encode_text: "json_encode (JObj (row_event x)) = json_encode (JObj (row_event y)) \<Longrightarrow> event_text x = event_text y"
  unfolding json_encode_def event_text_def by (metis utf8_roundtrip option.inject)

lemma tail_hash_length: "chain ok key genesis 1 xs \<Longrightarrow> length (tail_hash genesis xs) = 64"
proof (cases xs rule: rev_cases)
  case (snoc ys y)
  assume "chain ok key genesis 1 xs"
  with snoc have "ar_event_hash y = sha256_hex (chain_input y)" using row_ok_hash by (auto simp: chain_append)
  then show ?thesis using sha256_hex_lower [of "chain_input y"] by (simp add: snoc tail_hash_def lower_hex_def)
qed (simp add: tail_hash_def genesis_def)

lemma chain_input_inject:
  assumes "chain_input x = chain_input y" "length (ar_previous_hash x) = length (ar_previous_hash y)"
  shows "ar_previous_hash x = ar_previous_hash y" "event_text x = event_text y"
  using assms by (auto simp: chain_input_def intro: json_encode_text)

lemma same_tail_same_chain:
  assumes "chain ok1 key1 genesis 1 xs" "chain ok2 key2 genesis 1 ys" "length xs = length ys"
    "tail_hash genesis xs = tail_hash genesis ys"
    and "\<forall>i < length xs. sha256_hex (chain_input (xs ! i)) = sha256_hex (chain_input (ys ! i)) \<longrightarrow> chain_input (xs ! i) = chain_input (ys ! i)"
  shows "map event_text xs = map event_text ys"
  using assms
proof (induction xs arbitrary: ys rule: rev_induct)
  case (snoc x xs)
  from snoc.prems(3) obtain zs y where ys: "ys = zs @ [y]" "length zs = length xs" by (cases ys rule: rev_cases) auto
  have cx: "chain ok1 key1 genesis 1 xs" "row_ok ok1 key1 (tail_hash genesis xs) (1 + int (length xs)) x"
    using snoc.prems(1) by (simp_all add: chain_append)
  have cy: "chain ok2 key2 genesis 1 zs" "row_ok ok2 key2 (tail_hash genesis zs) (1 + int (length zs)) y"
    using snoc.prems(2) by (simp_all add: ys(1) chain_append)
  have "sha256_hex (chain_input x) = sha256_hex (chain_input y)"
    using snoc.prems(4) row_ok_hash [OF cx(2)] row_ok_hash [OF cy(2)] by (simp add: ys(1) tail_hash_def)
  with snoc.prems(5) ys have input: "chain_input x = chain_input y"
    by (auto simp: nth_append dest: spec [of _ "length xs"])
  have len: "length (ar_previous_hash x) = length (ar_previous_hash y)"
    using row_ok_hash [OF cx(2)] row_ok_hash [OF cy(2)] tail_hash_length [OF cx(1)] tail_hash_length [OF cy(1)] by simp
  note eq = chain_input_inject [OF input len]
  have "tail_hash genesis xs = tail_hash genesis zs"
    using eq(1) row_ok_hash [OF cx(2)] row_ok_hash [OF cy(2)] by simp
  moreover have "\<forall>i < length xs. sha256_hex (chain_input (xs ! i)) = sha256_hex (chain_input (zs ! i)) \<longrightarrow> chain_input (xs ! i) = chain_input (zs ! i)"
  proof (intro allI impI)
    fix i assume "i < length xs" "sha256_hex (chain_input (xs ! i)) = sha256_hex (chain_input (zs ! i))"
    with snoc.prems(5) [rule_format, of i] ys show "chain_input (xs ! i) = chain_input (zs ! i)" by (simp add: nth_append)
  qed
  ultimately have "map event_text xs = map event_text zs" using snoc.IH [OF cx(1) cy(1)] ys(2) by simp
  with eq(2) show ?case by (simp add: ys(1))
qed simp

text \<open>
  C39. The number of events and the last hash, kept outside the log, fix its whole history: two logs that verify with
  the same number of events and end in the same hash hold the same events in the same order, unless at some position
  their rows hash different bytes to the same SHA-256 digest.
\<close>

theorem checkpoint_determines_log:
  assumes "audit_verify ok1 key1 db1 = Inr n" "audit_verify ok2 key2 db2 = Inr n"
    "map ar_event_hash (drop (n - 1) (ad_rows db1)) = map ar_event_hash (drop (n - 1) (ad_rows db2))"
  shows "map event_text (ad_rows db1) = map event_text (ad_rows db2)
    \<or> (\<exists>i < n. chain_input (ad_rows db1 ! i) \<noteq> chain_input (ad_rows db2 ! i)
         \<and> sha256_hex (chain_input (ad_rows db1 ! i)) = sha256_hex (chain_input (ad_rows db2 ! i)))"
proof -
  let ?xs = "ad_rows db1" and ?ys = "ad_rows db2"
  have c: "chain ok1 key1 genesis 1 ?xs" "chain ok2 key2 genesis 1 ?ys" and n: "length ?xs = n" "length ?ys = n"
    using assms(1,2) by (simp_all add: verify_chain)
  have last: "map ar_event_hash (drop (n - 1) zs) = (if n = 0 then [] else [ar_event_hash (last zs)])" if "length zs = n" for zs :: "audit_row list"
    using that by (cases zs rule: rev_cases) auto
  have "tail_hash genesis ?xs = tail_hash genesis ?ys"
    using assms(3) last [OF n(1)] last [OF n(2)] n by (auto simp: tail_hash_def split: if_splits)
  then show ?thesis using same_tail_same_chain [OF c] n by auto
qed

text \<open>Deleting a suffix leaves a log that verifies: this is why the checkpoint has to be kept elsewhere.\<close>

lemma prefix_verifies:
  "audit_verify ok key db = Inr n \<Longrightarrow> m \<le> n \<Longrightarrow> audit_verify ok key (db\<lparr>ad_rows := take m (ad_rows db)\<rparr>) = Inr m"
  using chain_append [of ok key genesis 1 "take m (ad_rows db)" "drop m (ad_rows db)"] by (simp add: verify_chain)

section \<open>The summary\<close>

text \<open>The reference: how often a label occurs, \<open>None\<close> when it does not.\<close>

definition tally :: "('a \<Rightarrow> string option) \<Rightarrow> 'a list \<Rightarrow> string \<Rightarrow> nat option" where
  "tally f xs k = (let n = length (filter (\<lambda>x. f x = Some k) xs) in if n = 0 then None else Some n)"

definition label_of :: "string \<Rightarrow> audit_row \<Rightarrow> string option" where
  "label_of field x = Some (py_str (get_default (JStr ''unknown'') field (row_event x)))"

definition reason_of :: "audit_row \<Rightarrow> string option" where
  "reason_of x = (case get_default JNull ''reason_code'' (row_event x) of JNull \<Rightarrow> None | j \<Rightarrow> Some (py_str j))"

definition counts :: "('a \<Rightarrow> string option) \<Rightarrow> 'a list \<Rightarrow> (string \<times> nat) list \<Rightarrow> bool" where
  "counts f xs c = (distinct (map fst c) \<and> map_of c = tally f xs)"

lemma keys_count_up: "set (map fst (count_up k c)) = insert k (set (map fst c))"
  by (induction k c rule: count_up.induct) auto

lemma map_of_count_up: "map_of (count_up k c) = (map_of c)(k \<mapsto> (case map_of c k of None \<Rightarrow> 1 | Some n \<Rightarrow> Suc n))"
  by (induction c) (auto simp: fun_eq_iff)

lemma distinct_count_up: "distinct (map fst c) \<Longrightarrow> distinct (map fst (count_up k c))"
proof (induction c)
  case (Cons p c)
  then show ?case using keys_count_up [of k c] by (cases p) auto
qed simp

lemma tally_snoc:
  "tally f (xs @ [x]) = (case f x of None \<Rightarrow> tally f xs
     | Some k \<Rightarrow> (tally f xs)(k \<mapsto> (case tally f xs k of None \<Rightarrow> 1 | Some n \<Rightarrow> Suc n)))"
  by (auto simp: tally_def fun_eq_iff Let_def split: option.splits)

lemma counts_snoc:
  "counts f xs c \<Longrightarrow> counts f (xs @ [x]) (case f x of None \<Rightarrow> c | Some k \<Rightarrow> count_up k c)"
  by (simp add: counts_def tally_snoc map_of_count_up distinct_count_up split: option.splits)

lemma counts_sorted: "counts f xs c \<Longrightarrow> counts f xs (sort_key fst c)"
proof -
  assume c: "counts f xs c"
  have "mset (map fst (sort_key fst c)) = mset (map fst c)" by simp
  then have "distinct (map fst (sort_key fst c))" using c mset_eq_imp_distinct_iff unfolding counts_def by blast
  with c show ?thesis by (simp add: counts_def map_of_sort_key)
qed

definition summarises :: "audit_row list \<Rightarrow> audit_summary \<Rightarrow> bool" where
  "summarises xs s = (su_events s = length xs \<and> counts (label_of ''event_type'') xs (su_event_types s)
     \<and> counts (label_of ''status'') xs (su_statuses s) \<and> counts reason_of xs (su_reasons s)
     \<and> su_signed s = length (filter (\<lambda>x. ar_signature x \<noteq> None) xs))"

lemma summary_step_summarises:
  assumes "summarises xs s"
  shows "summarises (xs @ [x]) (summary_step s (x, row_event x))"
proof -
  have r: "counts reason_of (xs @ [x]) (let reason = get_default JNull ''reason_code'' (row_event x)
      in if reason = JNull then su_reasons s else count_up (py_str reason) (su_reasons s))"
    using counts_snoc [of reason_of xs "su_reasons s" x] assms
    by (simp add: summarises_def reason_of_def Let_def split: json.splits)
  show ?thesis
    using assms r counts_snoc [of "label_of ''event_type''" xs "su_event_types s" x]
      counts_snoc [of "label_of ''status''" xs "su_statuses s" x]
    by (simp add: summarises_def summary_step_def label_of_def)
qed

lemma summary_loop:
  "summarises ws s \<Longrightarrow> summarises (ws @ xs) (foldl summary_step s (map (\<lambda>x. (x, row_event x)) xs))"
proof (induction xs arbitrary: ws s)
  case (Cons x xs)
  from Cons.IH [OF summary_step_summarises [OF Cons.prems]] show ?case by simp
qed simp

lemma summary_summarises:
  assumes "audit_summary_of ok key db = Inr s"
  shows "audit_verify ok key db = Inr (su_events s)" "summarises (ad_rows db) s"
    "sorted (map fst (su_event_types s))" "su_unsigned s = su_events s - su_signed s"
proof -
  let ?s0 = "\<lparr>su_events = 0, su_event_types = [], su_statuses = [], su_reasons = [], su_signed = 0, su_unsigned = 0,
    su_verified = (key \<noteq> None), su_first = None, su_last = None\<rparr>"
  have "summarises [] ?s0" by (simp add: summarises_def counts_def tally_def fun_eq_iff)
  from summary_loop [OF this, of "ad_rows db"]
  have loop: "summarises (ad_rows db) (foldl summary_step ?s0 (map (\<lambda>x. (x, row_event x)) (ad_rows db)))" by simp
  from assms have c: "chain ok key genesis 1 (ad_rows db)"
    and s: "s = (let s = foldl summary_step ?s0 (map (\<lambda>x. (x, row_event x)) (ad_rows db)) in
        s\<lparr>su_event_types := sort_key fst (su_event_types s), su_statuses := sort_key fst (su_statuses s),
          su_reasons := sort_key fst (su_reasons s), su_unsigned := su_events s - su_signed s\<rparr>)"
    by (auto simp: audit_summary_of_def verified_rows_iff Let_def)
  show "summarises (ad_rows db) s" using loop by (simp add: s Let_def summarises_def counts_sorted)
  with c show "audit_verify ok key db = Inr (su_events s)" by (simp add: verify_chain summarises_def)
  show "sorted (map fst (su_event_types s))" "su_unsigned s = su_events s - su_signed s" by (simp_all add: s Let_def)
qed

text \<open>
  The streaming summary agrees with plain counts over the log it verified: every event type, status and reason is
  listed with the number of rows that carry it and no other is listed, types come sorted, and signed and unsigned
  rows add up to the number of verified events.
\<close>

theorem summary_counts:
  assumes "audit_summary_of ok key db = Inr s"
  shows "audit_verify ok key db = Inr (su_events s) \<and> map_of (su_event_types s) = tally (label_of ''event_type'') (ad_rows db)
    \<and> map_of (su_statuses s) = tally (label_of ''status'') (ad_rows db) \<and> map_of (su_reasons s) = tally reason_of (ad_rows db)
    \<and> sorted (map fst (su_event_types s)) \<and> distinct (map fst (su_event_types s))
    \<and> su_signed s = length (filter (\<lambda>x. ar_signature x \<noteq> None) (ad_rows db)) \<and> su_signed s + su_unsigned s = su_events s"
  using summary_summarises [OF assms] by (simp add: summarises_def counts_def)

section \<open>The properties at concrete logs\<close>

definition sample_audit_event :: audit_event where
  "sample_audit_event = \<lparr>ae_event_type = ''delivery'', ae_actor = ''runtime'', ae_status = ''delivered'', ae_tenant = ''acme'',
     ae_connector_id = ''erp'', ae_transfer_id = ''t1'', ae_record_id = ''r1'', ae_record_digest = replicate 64 CHR ''a'',
     ae_plan_digest = replicate 64 CHR ''b'', ae_reason_code = None, ae_timestamp = None, ae_batch_attempt_id = None\<rparr>"

definition sample_log :: audit_log where
  "sample_log = \<lparr>al_signer = Some (\<lambda>_. replicate 64 CHR ''s''), al_max_events = 1, al_max_logical_bytes = 100000, al_read_only = False\<rparr>"

text \<open>A log with one empty event, and the same event with a blank in its text.\<close>

definition blank_log :: "string \<Rightarrow> audit_db" where
  "blank_log text = \<lparr>ad_rows = [\<lparr>ar_sequence = 1, ar_event_json = text, ar_previous_hash = genesis,
     ar_event_hash = audit_hash genesis (JObj []), ar_signature = None\<rparr>], ad_usage = Some (1, 130), ad_last = 1\<rparr>"

lemma blank_loads: "json_loads False ''{}'' = Some (JObj [])" "json_loads False ''{ }'' = Some (JObj [])"
  by (simp_all add: json_loads_def skip_ws_def numeral_eq_Suc)

lemma blank_log_verifies: "audit_verify ok None (blank_log ''{}'') = Inr 1" "audit_verify ok None (blank_log ''{ }'') = Inr 1"
  using blank_loads by (simp_all add: verify_chain blank_log_def row_ok_def row_event_def signature_ok_def)

theorem verify_iff_witness: "ar_sequence (ad_rows (blank_log ''{}'') ! 0) = 1 \<and> ar_previous_hash (ad_rows (blank_log ''{}'') ! 0) = replicate 64 CHR ''0''"
  using verify_iff [of "\<lambda>_ _ _. True" None "blank_log ''{}''" 1] blank_log_verifies(1) [of "\<lambda>_ _ _. True"]
  by (simp add: blank_log_def Let_def)

theorem checkpoint_determines_log_witness:
  "map event_text (ad_rows (blank_log ''{}'')) = map event_text (ad_rows (blank_log ''{ }''))"
proof -
  have "chain_input (ad_rows (blank_log ''{}'') ! i) = chain_input (ad_rows (blank_log ''{ }'') ! i)" if "i < 1" for i
    using that blank_loads by (simp add: blank_log_def chain_input_def row_event_def)
  then show ?thesis
    using checkpoint_determines_log [OF blank_log_verifies(1) [of "\<lambda>_ _ _. True"] blank_log_verifies(2) [of "\<lambda>_ _ _. True"]]
    by (auto simp: blank_log_def)
qed

lemma blank_summary:
  "\<exists>s. audit_summary_of (\<lambda>_ _ _. True) None (blank_log ''{}'') = Inr s"
  using blank_log_verifies(1) [of "\<lambda>_ _ _. True"] by (auto simp: audit_summary_of_def audit_verify_def verified_rows_iff Let_def)

theorem summary_counts_witness:
  "\<exists>s. audit_summary_of (\<lambda>_ _ _. True) None (blank_log ''{}'') = Inr s \<and> su_signed s = 0 \<and> su_signed s + su_unsigned s = su_events s"
proof -
  obtain s where s: "audit_summary_of (\<lambda>_ _ _. True) None (blank_log ''{}'') = Inr s" using blank_summary by blast
  from summary_counts [OF s] s show ?thesis by (auto simp: blank_log_def)
qed

definition sample_dict :: "(string \<times> json) list" where
  "sample_dict = [(''actor'', JStr ''runtime''), (''connector_id'', JStr ''erp''), (''event_type'', JStr ''delivery''),
     (''plan_digest'', JStr (replicate 64 CHR ''b'')), (''reason_code'', JNull), (''record_digest'', JStr (replicate 64 CHR ''a'')),
     (''record_id'', JStr ''r1''), (''status'', JStr ''delivered''), (''tenant'', JStr ''acme''),
     (''timestamp'', JStr (isoformat 0)), (''transfer_id'', JStr ''t1'')]"

lemma sample_fields:
  "machine_id 64 ''delivery''" "machine_id 64 ''delivered''" "bounded_metadata 128 ''acme''" "bounded_metadata 128 ''erp''"
  "bounded_metadata 128 ''runtime''" "bounded_metadata 256 ''r1''" "bounded_metadata 256 ''t1''"
  by code_simp+

lemma sample_canonical: "audit_canonical_dict sample_audit_event 0 = Inr sample_dict"
  using sample_fields by (simp add: audit_canonical_dict_def sample_audit_event_def sample_dict_def hex_digest_def list_all_iff
      audit_timestamp_def str_or_null_def)

lemma sample_dict_size: "length (utf8_encode (json_dumps (JObj sample_dict))) \<le> 600"
  by code_simp

lemma text_length_hash [simp]: "text_length genesis = 64" "text_length (sha256_hex m) = 64"
proof -
  have "\<not> hex_digit (CHR 0x00)" by (simp add: hex_digit_def)
  then have "\<forall>c \<in> set (sha256_hex m). c \<noteq> CHR 0x00"
    using sha256_hex_lower [of m] unfolding lower_hex_def list_all_iff by metis
  then have "takeWhile (\<lambda>c. c \<noteq> CHR 0x00) (sha256_hex m) = sha256_hex m" by (simp add: takeWhile_eq_all_conv)
  then show "text_length (sha256_hex m) = 64" using sha256_hex_lower [of m] by (simp only: text_length_def lower_hex_def)
qed (simp add: text_length_def genesis_def takeWhile_replicate)

lemma sample_append: "\<exists>db' recs. append_many sample_log (\<lambda>_. 0) [sample_audit_event] (audit_initialize None) = Inr (db', recs)"
proof -
  have p: "prepare_events (\<lambda>_. 0) 0 0 [sample_audit_event] = Inr [(sample_dict, json_dumps (JObj sample_dict))]"
    using sample_dict_size
    by (simp add: sample_canonical MAX_AUDIT_BATCH_EVENTS_def MAX_AUDIT_EVENT_BYTES_def MAX_AUDIT_BATCH_BYTES_def Let_def)
  have "ascii genesis" by (simp add: ascii_def genesis_def list_all_iff)
  then show ?thesis using sample_dict_size p
    by (simp add: append_many_def append_prepared_def sample_log_def audit_initialize_def tail_sequence_def added_bytes_def
        insert_event_def Let_def hash_encoded_def row_bytes_def del: prepare_events.simps)
qed

theorem append_extends_chain_witness:
  "\<exists>db' recs. append_many sample_log (\<lambda>_. 0) [sample_audit_event] (audit_initialize None) = Inr (db', recs)
     \<and> audit_verify (\<lambda>_ _ _. True) (Some (replicate 32 CHR ''k'')) db' = Inr 1"
proof -
  obtain db' recs where app: "append_many sample_log (\<lambda>_. 0) [sample_audit_event] (audit_initialize None) = Inr (db', recs)"
    using sample_append by blast
  have "audit_verify (\<lambda>_ _ _. True) (Some (replicate 32 CHR ''k'')) (audit_initialize None) = Inr 0"
    "signer_matches (\<lambda>_ _ _. True) (Some (replicate 32 CHR ''k'')) sample_log"
    by (simp_all add: verify_chain audit_initialize_def signer_matches_def sample_log_def)
  from append_extends_chain [OF app this] app show ?thesis by auto
qed

end
