(* ===== verification/Policy.thy ===== *)
theory Policy
  imports Schema
begin

text \<open>
  Which field may flow where (\<open>policy.py\<close>, \<open>FieldPolicy\<close> of \<open>models/types.py\<close>) and the validation of a mapping plan
  against two schemas (\<open>validation.py\<close>). The report of the validator is equivalent to a declarative reading of the
  plan, \<open>plan_sound\<close>, from which the information-flow guarantees follow.
\<close>

section \<open>Routes\<close>

record field_policy =
  fp_sensitivity :: sensitivity
  fp_transformable :: bool

definition for_sensitivity :: "sensitivity \<Rightarrow> field_policy" where
  "for_sensitivity s = \<lparr>fp_sensitivity = s, fp_transformable = (s \<notin> {SECRET, OPAQUE})\<rparr>"

definition validate_route :: "field_descriptor \<Rightarrow> field_descriptor \<Rightarrow> string \<Rightarrow> unit result" where
  "validate_route source target transform =
     (let source_policy = for_sensitivity (fd_sensitivity source); target_policy = for_sensitivity (fd_sensitivity target) in
     raise_if (\<not> sensitivity_route_safe (fd_sensitivity source) (fd_sensitivity target))
       (PolicyViolation ''route would downgrade destination sensitivity'') (
     raise_if (fd_sensitivity source \<in> {SECRET, OPAQUE} \<and> transform \<notin> {''copy'', ''opaque_forward''})
       (PolicyViolation ''secret or opaque fields cannot be transformed'') (
     raise_if (transform \<notin> {''copy'', ''opaque_forward''} \<and> \<not> fp_transformable source_policy)
       (PolicyViolation ''source policy forbids transformation'') (
     raise_if (fd_sensitivity source = OPAQUE \<and> transform \<noteq> ''opaque_forward'')
       (PolicyViolation ''opaque fields require opaque_forward'') (
     raise_if (fp_sensitivity target_policy = OPAQUE \<and> transform \<noteq> ''opaque_forward'')
       (PolicyViolation ''opaque destinations require opaque_forward'') (Inr ()))))))"

definition is_known_transform :: "string \<Rightarrow> bool" where
  "is_known_transform name = (name \<in> set (map fst TRANSFORM_SPECS))"

section \<open>Reports\<close>

datatype validation_severity = SEV_INFO | SEV_REVIEW | SEV_BLOCKING

record validation_finding =
  vf_severity :: validation_severity
  vf_code :: string
  vf_message :: string
  vf_source_field_id :: "string option"
  vf_target_field_id :: "string option"

definition valid :: "validation_finding list \<Rightarrow> bool" where
  "valid findings = (\<not> list_ex (\<lambda>f. vf_severity f = SEV_BLOCKING) findings)"

definition requires_review :: "validation_finding list \<Rightarrow> bool" where
  "requires_review findings = list_ex (\<lambda>f. vf_severity f = SEV_REVIEW) findings"

definition raise_if_invalid :: "validation_finding list \<Rightarrow> unit result" where
  "raise_if_invalid findings =
     (if valid findings then Inr ()
      else Inl (PolicyViolation (''mapping plan validation failed: ''
        @ join '', '' (map vf_code (filter (\<lambda>f. vf_severity f = SEV_BLOCKING) findings)))))"

section \<open>The validator\<close>

definition finding :: "validation_severity \<Rightarrow> string \<Rightarrow> string \<Rightarrow> string option \<Rightarrow> string option \<Rightarrow> validation_finding" where
  "finding severity code message source target = \<lparr>vf_severity = severity, vf_code = code, vf_message = message,
     vf_source_field_id = source, vf_target_field_id = target\<rparr>"

definition header_findings :: "mapping_plan \<Rightarrow> schema_descriptor \<Rightarrow> schema_descriptor \<Rightarrow> validation_finding list" where
  "header_findings plan source_schema target_schema =
     (if mp_source_schema_id plan \<noteq> sd_id source_schema
      then [finding SEV_BLOCKING ''source_schema_id_mismatch'' ''plan source schema id does not match the supplied schema'' None None]
      else [])
     @ (if mp_target_schema_id plan \<noteq> sd_id target_schema
      then [finding SEV_BLOCKING ''target_schema_id_mismatch'' ''plan target schema id does not match the supplied schema'' None None]
      else [])
     @ (if mp_source_fingerprint plan \<noteq> fingerprint source_schema
      then [finding SEV_BLOCKING ''source_schema_drift'' ''source schema fingerprint differs from the approved plan'' None None]
      else [])
     @ (if mp_target_fingerprint plan \<noteq> fingerprint target_schema
      then [finding SEV_BLOCKING ''target_schema_drift'' ''target schema fingerprint differs from the approved plan'' None None]
      else [])"

text \<open>The findings on a rule's types: those of a copy, and those of a foreign-key lookup.\<close>

definition copy_findings :: "field_descriptor \<Rightarrow> field_descriptor \<Rightarrow> validation_finding list" where
  "copy_findings source target =
     (if fd_data_type source = DT_UNKNOWN
      then [finding SEV_REVIEW ''source_type_unknown'' ''non-coercing transform lacks a declared source type''
        (Some (fd_id source)) (Some (fd_id target))]
      else if \<not> runtime_type_satisfies (fd_data_type source) (fd_data_type target)
      then [finding SEV_BLOCKING ''type_mismatch'' ''non-coercing transform cannot satisfy the destination runtime type contract''
        (Some (fd_id source)) (Some (fd_id target))]
      else [])"

definition rule_lookup :: "schema_descriptor \<Rightarrow> field_descriptor \<Rightarrow> mapping_rule \<Rightarrow> lookup_key_descriptor option" where
  "rule_lookup target_schema target rule =
     (case (relation_for_source_field (fd_id target) target_schema, map_of (mr_parameters rule) ''match_column'') of
        (Some relation, Some match_column) \<Rightarrow> lookup_key match_column relation
      | _ \<Rightarrow> None)"

definition lookup_findings ::
    "schema_descriptor \<Rightarrow> field_descriptor \<Rightarrow> field_descriptor \<Rightarrow> mapping_rule \<Rightarrow> validation_finding list" where
  "lookup_findings target_schema source target rule =
     (let key = rule_lookup target_schema target rule;
          lookup_contract_valid = (set (map fst (mr_parameters rule)) = {''match_column''} \<and> key \<noteq> None
            \<and> fd_role source = NATURAL_KEY \<and> fd_role target = FOREIGN_KEY)
      in if \<not> lookup_contract_valid
         then [finding SEV_BLOCKING ''foreign_key_lookup_contract_invalid''
           ''foreign-key lookup lacks an exact single-column relation and declared unique lookup key''
           (Some (fd_id source)) (Some (fd_id target))]
         else if DT_UNKNOWN \<in> {fd_data_type source, lk_data_type (the key)}
         then [finding SEV_REVIEW ''foreign_key_lookup_type_unknown''
           ''foreign-key lookup requires review because its type contract is incomplete''
           (Some (fd_id source)) (Some (fd_id target))]
         else if \<not> automatic_copy_type_safe (fd_data_type source) (lk_data_type (the key))
         then [finding SEV_BLOCKING ''foreign_key_lookup_type_mismatch''
           ''source type cannot satisfy the selected foreign-key lookup column contract''
           (Some (fd_id source)) (Some (fd_id target))]
         else [])"

definition route_findings ::
    "schema_descriptor \<Rightarrow> field_descriptor \<Rightarrow> field_descriptor \<Rightarrow> mapping_rule \<Rightarrow> validation_finding list" where
  "route_findings target_schema source target rule =
     (if \<not> is_known_transform (mr_transform rule)
      then [finding SEV_BLOCKING ''unknown_transform'' ''mapping rule references an unregistered transform''
        (Some (fd_id source)) (Some (fd_id target))]
      else case validate_route source target (mr_transform rule) of
        Inl e \<Rightarrow> [finding SEV_BLOCKING ''policy_violation'' (case e of PolicyViolation m \<Rightarrow> m | _ \<Rightarrow> [])
          (Some (fd_id source)) (Some (fd_id target))]
      | Inr _ \<Rightarrow>
        (if fd_nullable source \<and> \<not> fd_nullable target
         then [finding SEV_REVIEW ''nullable_source_to_required_target''
           ''source schema permits null but the destination field is required'' (Some (fd_id source)) (Some (fd_id target))]
         else [])
        @ (if mr_transform rule \<in> {''copy'', ''opaque_forward''} then copy_findings source target
           else if mr_transform rule = ''lookup_foreign_key'' then lookup_findings target_schema source target rule
           else []))"

text \<open>One turn of the loop over the rules: the findings, and the targets written so far.\<close>

definition rule_findings :: "schema_descriptor \<Rightarrow> schema_descriptor \<Rightarrow> string list \<Rightarrow> mapping_rule
    \<Rightarrow> validation_finding list \<times> string list" where
  "rule_findings source_schema target_schema targeted rule =
     (case by_id source_schema (mr_source_field_id rule) of
        None \<Rightarrow> ([finding SEV_BLOCKING ''unknown_source_field'' ''mapping rule references a source field that does not exist''
          (Some (mr_source_field_id rule)) (Some (mr_target_field_id rule))], targeted)
      | Some source \<Rightarrow> (case by_id target_schema (mr_target_field_id rule) of
          None \<Rightarrow> ([finding SEV_BLOCKING ''unknown_target_field'' ''mapping rule references a target field that does not exist''
            (Some (mr_source_field_id rule)) (Some (mr_target_field_id rule))], targeted)
        | Some target \<Rightarrow>
            if fd_id target \<in> set targeted
            then ([finding SEV_BLOCKING ''duplicate_target'' ''multiple rules write the same target field''
              (Some (fd_id source)) (Some (fd_id target))], targeted)
            else (route_findings target_schema source target rule, fd_id target # targeted)))"

fun rules_findings :: "schema_descriptor \<Rightarrow> schema_descriptor \<Rightarrow> string list \<Rightarrow> mapping_rule list
    \<Rightarrow> validation_finding list \<times> string list" where
  "rules_findings source_schema target_schema targeted [] = ([], targeted)"
| "rules_findings source_schema target_schema targeted (rule # rules) =
     (let (found, targeted') = rule_findings source_schema target_schema targeted rule;
          (rest, final) = rules_findings source_schema target_schema targeted' rules
      in (found @ rest, final))"

definition required_findings :: "schema_descriptor \<Rightarrow> string list \<Rightarrow> validation_finding list" where
  "required_findings target_schema targeted =
     map (\<lambda>f. finding SEV_BLOCKING ''required_target_unmapped'' ''non-nullable target field is not supplied by this plan''
         None (Some (fd_id f)))
       (filter (\<lambda>f. \<not> (fd_id f \<in> set targeted \<or> fd_nullable f \<or> fd_destination_generated f)) (sd_fields target_schema))"

definition validate_plan :: "mapping_plan \<Rightarrow> schema_descriptor \<Rightarrow> schema_descriptor \<Rightarrow> validation_finding list" where
  "validate_plan plan source_schema target_schema =
     (let (found, targeted) = rules_findings source_schema target_schema [] (mp_rules plan)
      in header_findings plan source_schema target_schema @ found @ required_findings target_schema targeted)"

section \<open>What a valid plan is\<close>

text \<open>Keys of \<open>by_id\<close> are the identifiers of the fields they lead to.\<close>

lemma by_id_Some: "by_id s i = Some f \<Longrightarrow> fd_id f = i \<and> f \<in> set (sd_fields s)"
  by (auto simp: by_id_def dest!: map_of_SomeD)

text \<open>A rule whose types fit: a copy into a type the source's type satisfies, or a lookup through a declared key.\<close>

definition types_fit :: "schema_descriptor \<Rightarrow> field_descriptor \<Rightarrow> field_descriptor \<Rightarrow> mapping_rule \<Rightarrow> bool" where
  "types_fit target_schema source target rule =
     (if mr_transform rule \<in> {''copy'', ''opaque_forward''}
      then fd_data_type source = DT_UNKNOWN \<or> runtime_type_satisfies (fd_data_type source) (fd_data_type target)
      else if mr_transform rule = ''lookup_foreign_key''
      then set (map fst (mr_parameters rule)) = {''match_column''} \<and> fd_role source = NATURAL_KEY \<and> fd_role target = FOREIGN_KEY
        \<and> (case rule_lookup target_schema target rule of
             None \<Rightarrow> False
           | Some key \<Rightarrow> DT_UNKNOWN \<in> {fd_data_type source, lk_data_type key}
               \<or> runtime_type_satisfies (fd_data_type source) (lk_data_type key))
      else True)"

definition rule_sound :: "schema_descriptor \<Rightarrow> schema_descriptor \<Rightarrow> mapping_rule \<Rightarrow> bool" where
  "rule_sound source_schema target_schema rule =
     (case (by_id source_schema (mr_source_field_id rule), by_id target_schema (mr_target_field_id rule)) of
        (Some source, Some target) \<Rightarrow> is_known_transform (mr_transform rule)
          \<and> validate_route source target (mr_transform rule) = Inr () \<and> types_fit target_schema source target rule
      | _ \<Rightarrow> False)"

definition plan_sound :: "mapping_plan \<Rightarrow> schema_descriptor \<Rightarrow> schema_descriptor \<Rightarrow> bool" where
  "plan_sound plan source_schema target_schema =
     (mp_source_schema_id plan = sd_id source_schema \<and> mp_target_schema_id plan = sd_id target_schema
      \<and> mp_source_fingerprint plan = fingerprint source_schema \<and> mp_target_fingerprint plan = fingerprint target_schema
      \<and> list_all (rule_sound source_schema target_schema) (mp_rules plan)
      \<and> distinct (map mr_target_field_id (mp_rules plan))
      \<and> list_all (\<lambda>f. fd_nullable f \<or> fd_destination_generated f \<or> fd_id f \<in> set (map mr_target_field_id (mp_rules plan)))
          (sd_fields target_schema))"

section \<open>The validator decides it\<close>

lemma valid_simps [simp]:
  "valid []" "valid (f @ g) = (valid f \<and> valid g)" "valid (x # f) = (vf_severity x \<noteq> SEV_BLOCKING \<and> valid f)"
  "vf_severity (finding severity code message i j) = severity" "vf_code (finding severity code message i j) = code"
  by (auto simp: valid_def finding_def)

lemma header_valid:
  "valid (header_findings plan ss ts) \<longleftrightarrow> mp_source_schema_id plan = sd_id ss \<and> mp_target_schema_id plan = sd_id ts
     \<and> mp_source_fingerprint plan = fingerprint ss \<and> mp_target_fingerprint plan = fingerprint ts"
  by (simp add: header_findings_def)

lemma automatic_copy_known: "a \<noteq> DT_UNKNOWN \<Longrightarrow> automatic_copy_type_safe a b = runtime_type_satisfies a b"
  by (simp add: automatic_copy_type_safe_def)

lemma copy_valid:
  "valid (copy_findings s t) \<longleftrightarrow> fd_data_type s = DT_UNKNOWN \<or> runtime_type_satisfies (fd_data_type s) (fd_data_type t)"
  by (simp add: copy_findings_def)

lemma lookup_valid:
  "valid (lookup_findings ts s t r) \<longleftrightarrow>
     set (map fst (mr_parameters r)) = {''match_column''} \<and> fd_role s = NATURAL_KEY \<and> fd_role t = FOREIGN_KEY
     \<and> (case rule_lookup ts t r of None \<Rightarrow> False
        | Some key \<Rightarrow> DT_UNKNOWN \<in> {fd_data_type s, lk_data_type key} \<or> runtime_type_satisfies (fd_data_type s) (lk_data_type key))"
proof (cases "rule_lookup ts t r")
  case None
  then show ?thesis by (simp add: lookup_findings_def)
next
  case (Some key)
  have branches: "valid (if \<not> (a \<and> b \<and> c \<and> d) then [x] else if u then [y] else if \<not> t then [z] else [])
      = (a \<and> b \<and> c \<and> d \<and> (u \<or> t))"
    if "vf_severity x = SEV_BLOCKING" "vf_severity y \<noteq> SEV_BLOCKING" "vf_severity z = SEV_BLOCKING"
    for a b c d u t and x y z :: validation_finding
    using that by (cases a; cases b; cases c; cases d; cases u; cases t) simp_all
  have safe: "(DT_UNKNOWN \<in> {a, b} \<or> automatic_copy_type_safe a b) = (DT_UNKNOWN \<in> {a, b} \<or> runtime_type_satisfies a b)" for a b
    by (auto simp: automatic_copy_type_safe_def)
  show ?thesis
    unfolding lookup_findings_def Let_def Some
    by (subst branches) (simp_all only: valid_simps option.sel option.case option.distinct safe simp_thms validation_severity.distinct)
qed

lemma route_valid:
  "valid (route_findings ts s t r) \<longleftrightarrow> is_known_transform (mr_transform r)
     \<and> validate_route s t (mr_transform r) = Inr () \<and> types_fit ts s t r"
proof (cases "validate_route s t (mr_transform r)")
  case (Inl e)
  then show ?thesis by (simp add: route_findings_def)
next
  case (Inr u)
  have "valid (if b then x else y) = (if b then valid x else valid y)" for b x y by simp
  with Inr show ?thesis
    unfolding route_findings_def types_fit_def Inr by (simp split del: if_split) (simp add: copy_valid lookup_valid)
qed

lemma rule_valid:
  assumes "rule_findings ss ts targeted r = (found, targeted')"
  shows "(valid found \<longleftrightarrow> rule_sound ss ts r \<and> mr_target_field_id r \<notin> set targeted)
    \<and> (valid found \<longrightarrow> targeted' = mr_target_field_id r # targeted)"
proof (cases "by_id ss (mr_source_field_id r)")
  case None
  with assms show ?thesis by (auto simp: rule_findings_def rule_sound_def)
next
  case (Some source)
  note source = Some
  show ?thesis
  proof (cases "by_id ts (mr_target_field_id r)")
    case None
    with assms source show ?thesis by (auto simp: rule_findings_def rule_sound_def)
  next
    case (Some target)
    with by_id_Some have "fd_id target = mr_target_field_id r" by blast
    with assms source Some show ?thesis by (auto simp: rule_findings_def rule_sound_def route_valid split: if_splits)
  qed
qed

lemma rules_valid:
  assumes "rules_findings ss ts targeted rs = (found, targeted')"
  shows "(valid found \<longleftrightarrow> list_all (rule_sound ss ts) rs \<and> distinct (map mr_target_field_id rs)
      \<and> set (map mr_target_field_id rs) \<inter> set targeted = {})
    \<and> (valid found \<longrightarrow> set targeted' = set (map mr_target_field_id rs) \<union> set targeted)"
  using assms
proof (induction rs arbitrary: targeted found)
  case (Cons r rs)
  obtain f1 t1 where r: "rule_findings ss ts targeted r = (f1, t1)" by force
  obtain f2 where rs: "rules_findings ss ts t1 rs = (f2, targeted')" and found: "found = f1 @ f2"
    using Cons.prems r by (auto split: prod.splits)
  show ?case
  proof (cases "valid f1")
    case True
    with rule_valid [OF r] have "t1 = mr_target_field_id r # targeted" "rule_sound ss ts r" "mr_target_field_id r \<notin> set targeted"
      by simp_all
    with Cons.IH [OF rs] True show ?thesis unfolding found by auto
  next
    case False
    with rule_valid [OF r] show ?thesis unfolding found by auto
  qed
qed simp

lemma required_valid:
  "valid (required_findings ts targeted) \<longleftrightarrow>
     list_all (\<lambda>f. fd_nullable f \<or> fd_destination_generated f \<or> fd_id f \<in> set targeted) (sd_fields ts)"
  by (auto simp: required_findings_def valid_def list_ex_iff list_all_iff finding_def)

lemma report_valid: "valid (validate_plan plan source_schema target_schema) \<longleftrightarrow> plan_sound plan source_schema target_schema"
proof -
  obtain found targeted where r: "rules_findings source_schema target_schema [] (mp_rules plan) = (found, targeted)" by force
  show ?thesis
    using rules_valid [OF r] by (auto simp: validate_plan_def r plan_sound_def header_valid required_valid)
qed

text \<open>C8. The validator accepts a plan, with no blocking finding, exactly when the plan was made for the two schemas as they
  are, every rule leads from an existing field to an existing field by a known transform over a permitted route with
  fitting types, no target is written twice, and every required target is supplied or generated by the destination.\<close>

theorem validator_decides_soundness:
  "raise_if_invalid (validate_plan plan source_schema target_schema) = Inr () \<longleftrightarrow> plan_sound plan source_schema target_schema"
  using report_valid by (simp add: raise_if_invalid_def)

end
