(* ===== verification/Transforms.thy ===== *)
theory Transforms
  imports Payload
begin

text \<open>
  The transforms that run at the source (\<open>transforms.py\<close>), with what they use of Python: \<open>str\<close> of a value,
  \<open>str.replace\<close>, and the integer value of a float. The format language of \<open>datetime.strptime\<close> is the argument
  \<open>strptime\<close>, which is \<open>None\<close> where the call raises \<open>ValueError\<close>.
\<close>

section \<open>Text of a value\<close>

definition repr_byte :: "char \<Rightarrow> char \<Rightarrow> string" where
  "repr_byte q c =
     (if c = q \<or> c = CHR 0x5C then [CHR 0x5C, c]
      else if c = CHR 0x09 then [CHR 0x5C, CHR ''t'']
      else if c = CHR 0x0A then [CHR 0x5C, CHR ''n'']
      else if c = CHR 0x0D then [CHR 0x5C, CHR ''r'']
      else if 32 \<le> (of_char c :: nat) \<and> (of_char c :: nat) < 127 then [c]
      else [CHR 0x5C, CHR ''x''] @ hex2 (of_char c))"

definition repr_bytes :: "bytes \<Rightarrow> string" where
  "repr_bytes b = (let q = (if CHR 0x27 \<in> set b \<and> CHR 0x22 \<notin> set b then CHR 0x22 else CHR 0x27)
     in CHR ''b'' # [q] @ concat (map (repr_byte q) b) @ [q])"

definition float_text :: "string \<Rightarrow> string" where
  "float_text f = (if f = ''Infinity'' then ''inf'' else if f = ''-Infinity'' then ''-inf'' else if f = ''NaN'' then ''nan'' else f)"

text \<open>\<open>str(value)\<close>; an object of a class the sources do not name prints as \<open><object>\<close>.\<close>

fun value_text :: "py_value \<Rightarrow> string" where
  "value_text PNone = ''None''"
| "value_text (PBool b) = (if b then ''True'' else ''False'')"
| "value_text (PDatetime d) = (let s = iso_datetime d in take 10 s @ '' '' @ drop 11 s)"
| "value_text (PDate n) = iso_date n"
| "value_text (PInt i) = show_int i"
| "value_text (PFloat f) = float_text f"
| "value_text (PDecimal d) = decimal_str d"
| "value_text (PBytes b) = repr_bytes b"
| "value_text (PJson j) = py_repr j"
| "value_text (PUuid u) = u"
| "value_text (PStr s) = s"
| "value_text POther = ''<object>''"

section \<open>Replacing text\<close>

function replace_found :: "string \<Rightarrow> string \<Rightarrow> string \<Rightarrow> string" where
  "replace_found old new s =
     (if old = [] then s
      else if starts_with old s then new @ replace_found old new (drop (length old) s)
      else case s of [] \<Rightarrow> [] | c # r \<Rightarrow> c # replace_found old new r)"
  by pat_completeness auto
termination
proof (relation "measure (\<lambda>(old, new, s). length s)")
  show "((old, new, drop (length old) s), old, new, s) \<in> measure (\<lambda>(old, new, s). length s)"
    if "old \<noteq> []" "starts_with old s" for old new s
    using that by (cases s; cases old) auto
qed simp_all

declare replace_found.simps [simp del]

definition py_replace :: "string \<Rightarrow> string \<Rightarrow> string \<Rightarrow> string" where
  "py_replace s old new = (if old = [] then new @ concat (map (\<lambda>c. c # new) s) else replace_found old new s)"

section \<open>Integers\<close>

fun bit_length :: "nat \<Rightarrow> nat" where
  "bit_length n = (if n = 0 then 0 else Suc (bit_length (n div 2)))"

declare bit_length.simps [simp del]

text \<open>The double nearest to an integer, ties to even.\<close>

definition nearest_double :: "nat \<Rightarrow> nat" where
  "nearest_double n =
     (if n < 2 ^ 53 then n
      else let k = bit_length n - 53; q = n div 2 ^ k; r = n mod 2 ^ k
           in (if 2 ^ k < 2 * r \<or> (2 ^ k = 2 * r \<and> odd q) then Suc q else q) * 2 ^ k)"

text \<open>A decimal's value when it is an integer, and \<open>int(value)\<close> of a finite float with \<open>is_integer()\<close>.\<close>

definition integral_coefficient :: "nat \<Rightarrow> int \<Rightarrow> nat option" where
  "integral_coefficient c e =
     (if 0 \<le> e then Some (c * 10 ^ nat e) else if 10 ^ nat (- e) dvd c then Some (c div 10 ^ nat (- e)) else None)"

definition signed_nat :: "bool \<Rightarrow> nat \<Rightarrow> int" where
  "signed_nat neg n = (if neg then - int n else int n)"

definition decimal_integer :: "py_decimal \<Rightarrow> int option" where
  "decimal_integer d = (case d of NonFinite \<Rightarrow> None | Decimal neg c e \<Rightarrow> map_option (signed_nat neg) (integral_coefficient c e))"

definition float_integer :: "string \<Rightarrow> int option" where
  "float_integer f = (case read_decimal f of
     Some (Decimal neg c e) \<Rightarrow> map_option (\<lambda>n. signed_nat neg (nearest_double n)) (integral_coefficient c e)
   | _ \<Rightarrow> None)"

section \<open>The transforms\<close>

type_synonym parameters = "(string \<times> string) list"

definition trim :: "py_value \<Rightarrow> py_value" where
  "trim v = (case v of PStr s \<Rightarrow> PStr (strip s) | _ \<Rightarrow> v)"

definition MAX_INT_DIGITS :: nat where "MAX_INT_DIGITS = 4300"

definition integer_text :: "string \<Rightarrow> py_value result" where
  "integer_text text =
     (let (neg, ds) = (case text of c # r \<Rightarrow> if c = CHR ''-'' then (True, r) else if c = CHR ''+'' then (False, r) else (False, text)
        | [] \<Rightarrow> (False, []))
      in raise_if (ds = [] \<or> \<not> list_all is_digit ds) (PolymorphError ''integer parsing failed'') (
         raise_if (MAX_INT_DIGITS < length ds) (ValueError ''Exceeds the limit for integer string conversion'') (
         case num ds of None \<Rightarrow> Inl (PolymorphError ''integer parsing failed'') | Some n \<Rightarrow> Inr (PInt (if neg then - n else n)))))"

definition parse_integer :: "py_value \<Rightarrow> py_value result" where
  "parse_integer v = (case v of
     PNone \<Rightarrow> Inr PNone
   | PBool _ \<Rightarrow> Inl (PolymorphError ''integer parsing rejected a boolean'')
   | PInt i \<Rightarrow> Inr (PInt i)
   | PDecimal d \<Rightarrow> (case decimal_integer d of None \<Rightarrow> Inl (PolymorphError ''integer parsing failed'') | Some i \<Rightarrow> Inr (PInt i))
   | PFloat f \<Rightarrow>
       raise_if (f \<in> set constants) (PolymorphError ''integer parsing failed'') (
       case float_integer f of None \<Rightarrow> Inl (PolymorphError ''integer parsing failed'') | Some i \<Rightarrow> Inr (PInt i))
   | PStr s \<Rightarrow> if s = [] then Inr PNone else integer_text (strip s)
   | _ \<Rightarrow> Inl (PolymorphError ''integer parsing failed''))"

definition param :: "parameters \<Rightarrow> string \<Rightarrow> string \<Rightarrow> string" where
  "param ps k d = (case map_of ps k of None \<Rightarrow> d | Some v \<Rightarrow> v)"

definition parse_decimal :: "parameters \<Rightarrow> py_value \<Rightarrow> py_value result" where
  "parse_decimal ps v =
     (if v = PNone \<or> v = PStr [] then Inr PNone
      else case v of PDecimal d \<Rightarrow> Inr v
      | _ \<Rightarrow>
        (let t = strip (value_text v);
             decimal_sep = param ps ''decimal_separator'' ''.'';
             thousands_sep = param ps ''thousands_separator'' '','';
             t1 = (if thousands_sep \<noteq> [] then py_replace t thousands_sep [] else t);
             t2 = (if decimal_sep \<noteq> ''.'' then py_replace t1 decimal_sep ''.'' else t1)
         in case read_decimal t2 of
              None \<Rightarrow> Inl (PolymorphError ''decimal parsing failed'')
            | Some d \<Rightarrow> Inr (PDecimal d)))"

definition parse_datetime :: "(string \<Rightarrow> string \<Rightarrow> py_datetime option) \<Rightarrow> parameters \<Rightarrow> py_value \<Rightarrow> py_value result" where
  "parse_datetime strptime ps v =
     (if v = PNone \<or> v = PStr [] then Inr PNone
      else case v of PDatetime d \<Rightarrow> Inr v
      | _ \<Rightarrow>
        (let fmt = param ps ''format'' [] in
         case (if fmt \<noteq> [] then strptime (value_text v) fmt else fromisoformat (value_text v)) of
           None \<Rightarrow> Inl (ValueError ''Invalid isoformat string'')
         | Some d \<Rightarrow> Inr (PDatetime d)))"

definition apply_transform :: "(string \<Rightarrow> string \<Rightarrow> py_datetime option) \<Rightarrow> string \<Rightarrow> py_value \<Rightarrow> parameters \<Rightarrow> py_value result" where
  "apply_transform strptime name v ps = (case map_of TRANSFORM_SPECS name of
     None \<Rightarrow> Inl (PolymorphError (''unknown transform: '' @ name))
   | Some stage \<Rightarrow>
       raise_if (stage \<noteq> SOURCE) (PolymorphError (''transform '' @ name @ '' cannot execute at the source stage'')) (
       if name = ''copy'' then Inr v
       else if name = ''trim'' then Inr (trim v)
       else if name = ''parse_integer'' then parse_integer v
       else if name = ''parse_decimal'' then parse_decimal ps v
       else parse_datetime strptime ps v))"

section \<open>What they promise\<close>

text \<open>The type a parsing transform promises, \<open>None\<close> for the others.\<close>

definition result_type :: "string \<Rightarrow> data_type option" where
  "result_type name = map_of [(''parse_integer'', DT_INTEGER), (''parse_decimal'', DT_DECIMAL), (''parse_datetime'', DT_DATETIME)] name"

lemma parse_integer_type: "parse_integer v = Inr w \<Longrightarrow> w = PNone \<or> runtime_type w = DT_INTEGER"
  by (auto simp: parse_integer_def integer_text_def Let_def split: py_value.splits option.splits if_splits list.splits prod.splits)

lemma parse_decimal_type: "parse_decimal ps v = Inr w \<Longrightarrow> w = PNone \<or> runtime_type w = DT_DECIMAL"
  by (auto simp: parse_decimal_def Let_def split: py_value.splits option.splits if_splits)

lemma parse_datetime_type: "parse_datetime strptime ps v = Inr w \<Longrightarrow> w = PNone \<or> runtime_type w = DT_DATETIME"
  by (auto simp: parse_datetime_def Let_def split: py_value.splits option.splits if_splits)

end
