(* ===== verification/RecipientTrust.thy ===== *)
theory RecipientTrust
  imports Envelopes
begin

text \<open>
  Certificates of rotating recipient keys and the store that pins the destination's identity
  (\<open>recipient_auth.py\<close>). The store keeps one current certificate, the history of the keys it has accepted, and,
  when it is given a path, the same head in a file. An operation runs under the store's lock and, with a path, under
  the file's lock, so it is one step on the pair of store and file; other processes may replace the file between
  steps. A file is what the code can see of it: nothing, something that is not a plain file (a link, a reparse point,
  a directory), or a plain file with its fingerprint (device, inode, size and times, here one number) and bytes.
\<close>

definition MAX_STATE_BYTES :: nat where "MAX_STATE_BYTES = 64 * 1024"
definition MAX_BINDING_BYTES :: nat where "MAX_BINDING_BYTES = 256"
definition MAX_GENERATION :: int where "MAX_GENERATION = 2 ^ 63 - 1"
definition MAX_USED_KEY_IDS :: nat where "MAX_USED_KEY_IDS = 512"

section \<open>Certificates\<close>

definition recipient_utc :: "py_datetime \<Rightarrow> string \<Rightarrow> int result" where
  "recipient_utc v label = (case v of
     Naive _ \<Rightarrow> Inl (ValueError (''recipient key '' @ label @ '' must be timezone-aware''))
   | Aware t off \<Rightarrow> astimezone_utc t off)"

definition control_char :: "char \<Rightarrow> bool" where
  "control_char c = (let n = (of_char c :: nat) in n < 32 \<or> n = 127)"

definition binding :: "string \<Rightarrow> string \<Rightarrow> unit result" where
  "binding v label =
     raise_if (v = [] \<or> MAX_BINDING_BYTES < length (utf8_encode v))
       (ValueError (''recipient key '' @ label @ '' must contain 1 to 256 bytes'')) (
     raise_if (list_ex control_char v) (ValueError (''recipient key '' @ label @ '' contains a control character'')) (Inr ()))"

definition check_key_id :: "string \<Rightarrow> string \<Rightarrow> unit result" where
  "check_key_id v label = raise_if (\<not> lower_hex 64 v) (ProtocolError (label @ '' must be a lowercase SHA-256 digest'')) (Inr ())"

definition unb64 :: "json \<Rightarrow> nat \<Rightarrow> string \<Rightarrow> bytes result" where
  "unb64 v expected label = (case v of
     JStr s \<Rightarrow>
       raise_if ((expected + 2) div 3 * 4 + 4 < length s)
         (ProtocolError (''recipient key certificate '' @ label @ '' exceeds its size limit'')) (
       case (if ascii s then b64_decode s else None) of
         None \<Rightarrow> Inl (ProtocolError (''recipient key certificate '' @ label @ '' is not valid base64url''))
       | Some decoded \<Rightarrow>
           raise_if (length decoded \<noteq> expected)
             (ProtocolError (''recipient key certificate '' @ label @ '' has an invalid length'')) (Inr decoded))
   | _ \<Rightarrow> Inl (ProtocolError (''recipient key certificate '' @ label @ '' must be a string'')))"

definition parse_certificate_time :: "json \<Rightarrow> string \<Rightarrow> py_datetime result" where
  "parse_certificate_time v label = (case v of
     JStr s \<Rightarrow> (case fromisoformat s of
         None \<Rightarrow> Inl (ProtocolError (''recipient key certificate '' @ label @ '' is invalid''))
       | Some parsed \<Rightarrow> (case recipient_utc parsed label of
           Inl e \<Rightarrow> Inl (ProtocolError (''recipient key certificate '' @ label @ '' is invalid''))
         | Inr t \<Rightarrow> Inr (Aware t 0)))
   | _ \<Rightarrow> Inl (ProtocolError (''recipient key certificate '' @ label @ '' must be a timestamp'')))"

record key_certificate =
  kc_tenant :: string
  kc_destination_connector :: string
  kc_public_key :: bytes
  kc_generation :: int
  kc_previous_key_id :: "string option"
  kc_issued_at :: int
  kc_not_before :: int
  kc_not_after :: int
  kc_identity_key_id :: string
  kc_signature :: bytes
  kc_algorithm :: string
  kc_key_id :: string

text \<open>
  \<open>RecipientKeyCertificate(...)\<close>: the three datetimes are given apart; the fields \<open>kc_issued_at\<close>,
  \<open>kc_not_before\<close>, \<open>kc_not_after\<close> and \<open>kc_key_id\<close> of the argument are what the constructor computes.
\<close>

definition RecipientKeyCertificate ::
    "primitives \<Rightarrow> key_certificate \<Rightarrow> py_datetime \<Rightarrow> py_datetime \<Rightarrow> py_datetime \<Rightarrow> key_certificate result" where
  "RecipientKeyCertificate pr c issued_at not_before not_after =
     bindE (binding (kc_tenant c) ''tenant'') (\<lambda>_.
     bindE (binding (kc_destination_connector c) ''destination connector'') (\<lambda>_.
     bindE (recipient_key_id pr (kc_public_key c)) (\<lambda>key_id.
     raise_if (\<not> (1 \<le> kc_generation c \<and> kc_generation c \<le> MAX_GENERATION))
       (ProtocolError ''recipient key generation is invalid'') (
     raise_if (kc_generation c = 1 \<and> kc_previous_key_id c \<noteq> None)
       (ProtocolError ''initial recipient key certificate cannot have a predecessor'') (
     raise_if (1 < kc_generation c \<and> kc_previous_key_id c = None)
       (ProtocolError ''rotated recipient key certificate requires a predecessor'') (
     bindE (case kc_previous_key_id c of None \<Rightarrow> Inr ()
       | Some p \<Rightarrow> bindE (check_key_id p ''recipient predecessor key id'') (\<lambda>_.
           raise_if (p = key_id) (ProtocolError ''recipient key rotation must change the public key'') (Inr ()))) (\<lambda>_.
     bindE (recipient_utc issued_at ''issuance time'') (\<lambda>issued.
     bindE (recipient_utc not_before ''not-before time'') (\<lambda>nb.
     bindE (recipient_utc not_after ''expiry time'') (\<lambda>na.
     raise_if (na \<le> nb) (ProtocolError ''recipient key certificate validity interval is empty or inverted'') (
     raise_if (na < issued) (ProtocolError ''recipient key certificate was issued after its expiry'') (
     bindE (check_key_id (kc_identity_key_id c) ''recipient identity key id'') (\<lambda>_.
     raise_if (kc_algorithm c \<noteq> ''ed25519'')
       (ProtocolError ''recipient key certificate signature algorithm is unsupported'') (
     raise_if (length (kc_signature c) \<noteq> 64) (ProtocolError ''recipient key certificate signature must be 64 bytes'') (
     Inr (c\<lparr>kc_issued_at := issued, kc_not_before := nb, kc_not_after := na, kc_key_id := key_id\<rparr>))))))))))))))))"

definition unsigned_wire :: "key_certificate \<Rightarrow> (string \<times> json) list" where
  "unsigned_wire c =
     [(''algorithm'', JStr (kc_algorithm c)),
      (''destination_connector'', JStr (kc_destination_connector c)),
      (''generation'', JInt (kc_generation c)),
      (''identity_key_id'', JStr (kc_identity_key_id c)),
      (''issued_at'', JStr (isoformat (kc_issued_at c))),
      (''key_id'', JStr (kc_key_id c)),
      (''not_after'', JStr (isoformat (kc_not_after c))),
      (''not_before'', JStr (isoformat (kc_not_before c))),
      (''previous_key_id'', opt_str (kc_previous_key_id c)),
      (''public_key'', JStr (b64_encode (kc_public_key c))),
      (''tenant'', JStr (kc_tenant c))]"

definition certificate_signing_bytes :: "key_certificate \<Rightarrow> bytes" where
  "certificate_signing_bytes c =
     ''angusu.bridge/recipient-key-certificate/v1'' @ [CHR 0x00] @ json_encode (JObj (unsigned_wire c))"

definition certificate_to_wire :: "key_certificate \<Rightarrow> (string \<times> json) list" where
  "certificate_to_wire c =
     [(''format'', JStr ''angusu.bridge/recipient-key-certificate''), (''version'', JInt 1)]
     @ unsigned_wire c @ [(''signature'', JStr (b64_encode (kc_signature c)))]"

text \<open>The identity signs: \<open>public_key\<close> and \<open>sign\<close> are its \<open>public_bytes\<close> and \<open>sign\<close>.\<close>

definition issue_certificate :: "primitives \<Rightarrow> bytes \<Rightarrow> (bytes \<Rightarrow> bytes) \<Rightarrow> key_certificate
    \<Rightarrow> py_datetime \<Rightarrow> py_datetime \<Rightarrow> py_datetime \<Rightarrow> key_certificate result" where
  "issue_certificate pr public_key sign c issued_at not_before not_after =
     bindE (signing_key_id public_key) (\<lambda>identity.
     bindE (RecipientKeyCertificate pr (c\<lparr>kc_identity_key_id := identity, kc_signature := replicate 64 CHR 0x00,
         kc_algorithm := ''ed25519''\<rparr>) issued_at not_before not_after) (\<lambda>d.
     RecipientKeyCertificate pr (d\<lparr>kc_signature := sign (certificate_signing_bytes d)\<rparr>)
       (Aware (kc_issued_at d) 0) (Aware (kc_not_before d) 0) (Aware (kc_not_after d) 0)))"

definition text_item :: "(string \<times> json) list \<Rightarrow> string \<Rightarrow> string result" where
  "text_item payload label = (case map_of payload label of Some (JStr s) \<Rightarrow> Inr s
     | _ \<Rightarrow> Inl (ProtocolError (''recipient key certificate '' @ label @ '' must be a string'')))"

definition certificate_fields :: "string list" where
  "certificate_fields = [''algorithm'', ''destination_connector'', ''format'', ''generation'', ''identity_key_id'', ''issued_at'',
     ''key_id'', ''not_after'', ''not_before'', ''previous_key_id'', ''public_key'', ''signature'', ''tenant'', ''version'']"

text \<open>\<open>except (OverflowError, ValueError)\<close> around the constructor.\<close>

definition field_validation :: "'a result \<Rightarrow> 'a result" where
  "field_validation r = (case r of
     Inl (ValueError _) \<Rightarrow> Inl (ProtocolError ''recipient key certificate field validation failed'')
   | Inl (OverflowError _) \<Rightarrow> Inl (ProtocolError ''recipient key certificate field validation failed'')
   | _ \<Rightarrow> r)"

definition certificate_from_wire :: "primitives \<Rightarrow> json \<Rightarrow> key_certificate result" where
  "certificate_from_wire pr wire = (case wire of
     JObj payload \<Rightarrow>
       raise_if (set (map fst payload) \<noteq> set certificate_fields)
         (ProtocolError ''recipient key certificate has unexpected or missing fields'') (
       raise_if (map_of payload ''format'' \<noteq> Some (JStr ''angusu.bridge/recipient-key-certificate'')
           \<or> map_of payload ''version'' \<noteq> Some (JInt 1))
         (ProtocolError ''recipient key certificate format is unsupported'') (
       bindE (case map_of payload ''generation'' of Some (JInt g) \<Rightarrow> Inr g
         | _ \<Rightarrow> Inl (ProtocolError ''recipient key generation is invalid'')) (\<lambda>generation.
       bindE (case map_of payload ''previous_key_id'' of Some JNull \<Rightarrow> Inr None | Some (JStr s) \<Rightarrow> Inr (Some s)
         | _ \<Rightarrow> Inl (ProtocolError ''recipient predecessor key id must be a string or null'')) (\<lambda>previous.
       bindE (unb64 (the (map_of payload ''public_key'')) 32 ''public key'') (\<lambda>public_key.
       bindE (text_item payload ''tenant'') (\<lambda>tnt.
       bindE (text_item payload ''destination_connector'') (\<lambda>destination.
       bindE (text_item payload ''identity_key_id'') (\<lambda>identity.
       bindE (text_item payload ''algorithm'') (\<lambda>algorithm.
       bindE (text_item payload ''key_id'') (\<lambda>key_id.
       bindE (field_validation (
         bindE (parse_certificate_time (the (map_of payload ''issued_at'')) ''issuance time'') (\<lambda>issued.
         bindE (parse_certificate_time (the (map_of payload ''not_before'')) ''not-before time'') (\<lambda>nb.
         bindE (parse_certificate_time (the (map_of payload ''not_after'')) ''expiry time'') (\<lambda>na.
         bindE (unb64 (the (map_of payload ''signature'')) 64 ''signature'') (\<lambda>signature.
         RecipientKeyCertificate pr \<lparr>kc_tenant = tnt, kc_destination_connector = destination, kc_public_key = public_key,
           kc_generation = generation, kc_previous_key_id = previous, kc_issued_at = 0, kc_not_before = 0, kc_not_after = 0,
           kc_identity_key_id = identity, kc_signature = signature, kc_algorithm = algorithm, kc_key_id = []\<rparr>
           issued nb na)))))) (\<lambda>certificate.
       raise_if (key_id \<noteq> kc_key_id certificate)
         (ProtocolError ''recipient key certificate key id does not match its public key'') (Inr certificate))))))))))))
   | _ \<Rightarrow> Inl (ProtocolError ''recipient key certificate must be an object''))"

text \<open>
  \<open>raw.decode("utf-8-sig")\<close> and \<open>json.loads\<close> with a hook that refuses duplicate keys. The decoder also refuses the
  constants of JSON's non-finite floats, which the code refuses one step later, as fields of a wrong type.
\<close>

definition decode_utf8_sig :: "bytes \<Rightarrow> json option" where
  "decode_utf8_sig raw = json_decode True (if starts_with [CHR 0xEF, CHR 0xBB, CHR 0xBF] raw then drop 3 raw else raw)"

definition certificate_from_json :: "primitives \<Rightarrow> bytes \<Rightarrow> key_certificate result" where
  "certificate_from_json pr encoded =
     raise_if (MAX_STATE_BYTES < length encoded) (ProtocolError ''recipient key certificate exceeds its size limit'') (
     case decode_utf8_sig encoded of
       None \<Rightarrow> Inl (ProtocolError ''recipient key certificate is invalid JSON'')
     | Some j \<Rightarrow> certificate_from_wire pr j)"

section \<open>The store\<close>

datatype path_entry = Missing | Unsafe | Regular nat bytes

record key_store =
  ks_identity_public_key :: bytes
  ks_identity_key_id :: string
  ks_tenant :: string
  ks_destination_connector :: string
  ks_has_path :: bool
  ks_current :: "key_certificate option"
  ks_used_key_ids :: "string list"
  ks_fingerprint :: "nat option"
  ks_head_revision :: nat
  ks_token :: nat

definition verify_current_validity :: "key_certificate \<Rightarrow> py_datetime \<Rightarrow> unit result" where
  "verify_current_validity c now =
     bindE (recipient_utc now ''verification time'') (\<lambda>current.
     raise_if (current < kc_not_before c) (IntegrityError ''recipient key certificate is not active yet'') (
     raise_if (kc_not_after c < current) (IntegrityError ''recipient key certificate has expired'') (Inr ())))"

text \<open>\<open>_verify_certificate\<close>; the validity is checked when a clock reading is given.\<close>

definition verify_certificate :: "primitives \<Rightarrow> key_store \<Rightarrow> key_certificate \<Rightarrow> py_datetime option \<Rightarrow> unit result" where
  "verify_certificate pr st c now =
     raise_if (kc_identity_key_id c \<noteq> ks_identity_key_id st)
       (IntegrityError ''recipient key certificate identity is not trusted'') (
     raise_if (kc_tenant c \<noteq> ks_tenant st \<or> kc_destination_connector c \<noteq> ks_destination_connector st)
       (IntegrityError ''recipient key certificate route binding is not trusted'') (
     bindE (verify_ed25519 (ed25519_ok pr) (ks_identity_public_key st) (certificate_signing_bytes c) (kc_signature c)) (\<lambda>_.
     case now of None \<Rightarrow> Inr () | Some t \<Rightarrow> verify_current_validity c t)))"

definition state_wire :: "key_store \<Rightarrow> key_certificate \<Rightarrow> json" where
  "state_wire st c = JObj
     [(''current_certificate'', JObj (certificate_to_wire c)),
      (''destination_connector'', JStr (ks_destination_connector st)),
      (''format'', JStr ''angusu.bridge/recipient-key-trust-state''),
      (''identity_key_id'', JStr (ks_identity_key_id st)),
      (''tenant'', JStr (ks_tenant st)),
      (''used_key_ids'', JArr (map JStr (sort (ks_used_key_ids st)))),
      (''version'', JInt 2)]"

definition state_bytes :: "key_store \<Rightarrow> key_certificate \<Rightarrow> bytes" where
  "state_bytes st c = json_encode (state_wire st c) @ [CHR 0x0A]"

definition read_bounded :: "path_entry \<Rightarrow> (bytes \<times> nat) result" where
  "read_bounded entry = (case entry of
     Missing \<Rightarrow> Inl (IntegrityError ''recipient key trust state is unavailable'')
   | Unsafe \<Rightarrow> Inl (IntegrityError ''recipient key trust path contains a link or reparse point'')
   | Regular fp data \<Rightarrow> raise_if (MAX_STATE_BYTES < length data)
       (ProtocolError ''recipient key trust state exceeds its size limit'') (Inr (data, fp)))"

definition path_fingerprint :: "path_entry \<Rightarrow> nat result" where
  "path_fingerprint entry = (case entry of
     Missing \<Rightarrow> Inl (IntegrityError ''recipient key trust state is unavailable'')
   | Unsafe \<Rightarrow> Inl (IntegrityError ''recipient key trust path contains a link or reparse point'')
   | Regular fp data \<Rightarrow> Inr fp)"

fun read_used_key_ids :: "string list \<Rightarrow> json list \<Rightarrow> string list result" where
  "read_used_key_ids used [] = Inr used"
| "read_used_key_ids used (v # vs) = (case v of
     JStr s \<Rightarrow> bindE (check_key_id s ''recipient trust-state used-key id'') (\<lambda>_.
       raise_if (s \<in> set used) (ProtocolError ''recipient key trust state repeats a used-key id'') (
       read_used_key_ids (used @ [s]) vs))
   | _ \<Rightarrow> Inl (ProtocolError ''recipient key trust state used-key id must be a string''))"

definition state_text :: "(string \<times> json) list \<Rightarrow> string \<Rightarrow> string result" where
  "state_text payload label = (case map_of payload label of Some (JStr s) \<Rightarrow> Inr s
     | _ \<Rightarrow> Inl (ProtocolError (''recipient key trust state '' @ label @ '' must be a string'')))"

definition state_fields :: "string list" where
  "state_fields = [''current_certificate'', ''destination_connector'', ''format'', ''identity_key_id'', ''tenant'',
     ''used_key_ids'', ''version'']"

definition read_state :: "primitives \<Rightarrow> key_store \<Rightarrow> path_entry \<Rightarrow> (key_certificate \<times> string list \<times> nat) result" where
  "read_state pr st entry =
     bindE (read_bounded entry) (\<lambda>(raw, fp).
     case decode_utf8_sig raw of
       None \<Rightarrow> Inl (ProtocolError ''recipient key trust state is invalid JSON'')
     | Some (JObj payload) \<Rightarrow>
       raise_if (set (map fst payload) \<noteq> set state_fields)
         (ProtocolError ''recipient key trust state has unexpected or missing fields'') (
       raise_if (map_of payload ''format'' \<noteq> Some (JStr ''angusu.bridge/recipient-key-trust-state'')
           \<or> map_of payload ''version'' \<noteq> Some (JInt 2))
         (ProtocolError ''recipient key trust state format is unsupported'') (
       bindE (state_text payload ''identity_key_id'') (\<lambda>identity.
       bindE (state_text payload ''tenant'') (\<lambda>tnt.
       bindE (state_text payload ''destination_connector'') (\<lambda>destination.
       raise_if (identity \<noteq> ks_identity_key_id st \<or> tnt \<noteq> ks_tenant st \<or> destination \<noteq> ks_destination_connector st)
         (IntegrityError ''recipient key trust state does not match its pinned identity'') (
       bindE (certificate_from_wire pr (the (map_of payload ''current_certificate''))) (\<lambda>certificate.
       bindE (verify_certificate pr st certificate None) (\<lambda>_.
       bindE (case map_of payload ''used_key_ids'' of
           Some (JArr vs) \<Rightarrow> raise_if (MAX_USED_KEY_IDS < length vs)
             (ProtocolError ''recipient key trust state used-key history is invalid'') (read_used_key_ids [] vs)
         | _ \<Rightarrow> Inl (ProtocolError ''recipient key trust state used-key history is invalid'')) (\<lambda>used.
       raise_if (kc_key_id certificate \<notin> set used)
         (IntegrityError ''recipient key trust state omits its current key from history'') (
       Inr (certificate, used, fp)))))))))))
     | Some _ \<Rightarrow> Inl (ProtocolError ''recipient key trust state has unexpected or missing fields''))"

definition adopt_state :: "key_store \<Rightarrow> key_certificate \<times> string list \<times> nat \<Rightarrow> key_store" where
  "adopt_state st = (\<lambda>(certificate, used, fp). st\<lparr>ks_current := Some certificate, ks_used_key_ids := used,
     ks_fingerprint := Some fp, ks_head_revision := Suc (ks_head_revision st)\<rparr>)"

definition new_store :: "bytes \<Rightarrow> string \<Rightarrow> string \<Rightarrow> string \<Rightarrow> bool \<Rightarrow> nat \<Rightarrow> key_store" where
  "new_store identity identity_id tnt destination has_path token =
     \<lparr>ks_identity_public_key = identity, ks_identity_key_id = identity_id, ks_tenant = tnt,
      ks_destination_connector = destination, ks_has_path = has_path, ks_current = None, ks_used_key_ids = [],
      ks_fingerprint = None, ks_head_revision = 0, ks_token = token\<rparr>"

text \<open>\<open>RecipientKeyTrustStore(...)\<close>; \<open>entry\<close> is what its path leads to, \<open>token\<close> the identity of the new object.\<close>

definition RecipientKeyTrustStore ::
    "primitives \<Rightarrow> bytes \<Rightarrow> string \<Rightarrow> string \<Rightarrow> path_entry option \<Rightarrow> nat \<Rightarrow> key_store result" where
  "RecipientKeyTrustStore pr identity tnt destination entry token =
     bindE (signing_key_id identity) (\<lambda>identity_id.
     bindE (binding tnt ''tenant'') (\<lambda>_.
     bindE (binding destination ''destination connector'') (\<lambda>_.
     let st = new_store identity identity_id tnt destination (entry \<noteq> None) token
     in case entry of
          None \<Rightarrow> Inr st
        | Some Missing \<Rightarrow> Inr st
        | Some e \<Rightarrow> bindE (read_state pr st e) (\<lambda>head. Inr (adopt_state st head)))))"

definition reload_state_if_changed :: "primitives \<Rightarrow> key_store \<Rightarrow> path_entry \<Rightarrow> key_store result" where
  "reload_state_if_changed pr st entry =
     bindE (path_fingerprint entry) (\<lambda>fp.
     if Some fp = ks_fingerprint st then Inr st
     else bindE (read_state pr st entry) (\<lambda>head. Inr (adopt_state st head)))"

text \<open>Equality of certificates leaves out the key id, which their public key determines.\<close>

definition same_certificate :: "key_certificate \<Rightarrow> key_certificate \<Rightarrow> bool" where
  "same_certificate c d = (c\<lparr>kc_key_id := []\<rparr> = d\<lparr>kc_key_id := []\<rparr>)"

text \<open>\<open>_accept_transition\<close>: the new head and whether it changed.\<close>

definition accept_transition :: "primitives \<Rightarrow> key_store \<Rightarrow> key_certificate \<Rightarrow> py_datetime \<Rightarrow> (key_store \<times> bool) result" where
  "accept_transition pr st c now =
     bindE (verify_certificate pr st c (Some now)) (\<lambda>_.
     let accepted = Inr (st\<lparr>ks_current := Some c, ks_used_key_ids := List.insert (kc_key_id c) (ks_used_key_ids st)\<rparr>, True)
     in case ks_current st of
       None \<Rightarrow>
         raise_if (kc_generation c \<noteq> 1 \<or> kc_previous_key_id c \<noteq> None)
           (IntegrityError ''recipient key trust bootstrap must start at generation 1'') (
         raise_if (ks_used_key_ids st \<noteq> [])
           (IntegrityError ''recipient key trust history exists without a current key'') accepted)
     | Some current \<Rightarrow>
         if same_certificate c current then Inr (st, False) else
         raise_if (kc_generation c \<le> kc_generation current)
           (IntegrityError ''recipient key certificate is a rollback or conflicting fork'') (
         raise_if (kc_generation c \<noteq> kc_generation current + 1)
           (IntegrityError ''recipient key rotation skipped a generation'') (
         raise_if (kc_previous_key_id c \<noteq> Some (kc_key_id current))
           (IntegrityError ''recipient key rotation does not continue the trusted chain'') (
         raise_if (kc_issued_at c < kc_issued_at current)
           (IntegrityError ''recipient key rotation issuance time moved backwards'') (
         raise_if (kc_key_id c \<in> set (ks_used_key_ids st))
           (IntegrityError ''recipient key rotation reuses retired key material'') (
         raise_if (MAX_USED_KEY_IDS \<le> length (ks_used_key_ids st))
           (IntegrityError ''recipient key rotation history capacity is exhausted'') accepted))))))"

text \<open>
  The publication of a new head: \<open>atomic_write_text\<close> replaces the file, or raises \<open>OSError\<close> before or after it did;
  the fingerprint is the one the new file gets. \<open>pb_status_error\<close> is what \<open>_state_path_fingerprint\<close> raises when the new
  file's status cannot be read any more. The parent directory is synced, or that raises.
\<close>

record publication =
  pb_fingerprint :: nat
  pb_write_error :: "bool option"
  pb_status_error :: "err option"
  pb_synced :: bool

definition sync_parent :: "publication \<Rightarrow> 'a result \<Rightarrow> 'a result" where
  "sync_parent pb k = raise_if (\<not> pb_synced pb)
     (IntegrityError ''recipient key trust-state durability is uncertain after replacement'') k"

definition accept_certificate :: "primitives \<Rightarrow> key_certificate \<Rightarrow> py_datetime \<Rightarrow> publication \<Rightarrow> key_store \<times> path_entry
    \<Rightarrow> key_certificate result \<times> key_store \<times> path_entry" where
  "accept_certificate pr c now pb = (\<lambda>(st, entry).
     if \<not> ks_has_path st then
       (case accept_transition pr st c now of
          Inl e \<Rightarrow> (Inl e, st, entry)
        | Inr (st1, changed) \<Rightarrow>
            (Inr c, if changed then st1\<lparr>ks_head_revision := Suc (ks_head_revision st1)\<rparr> else st1, entry))
     else
       (case (case entry of
            Missing \<Rightarrow> raise_if (ks_current st \<noteq> None) (IntegrityError ''recipient key trust state disappeared'') (Inr st)
          | _ \<Rightarrow> reload_state_if_changed pr st entry) of
          Inl e \<Rightarrow> (Inl e, st, entry)
        | Inr st1 \<Rightarrow> (case accept_transition pr st1 c now of
            Inl e \<Rightarrow> (Inl e, st1, entry)
          | Inr (st2, changed) \<Rightarrow>
              if \<not> changed then (sync_parent pb (Inr c), st2, entry)
              else
                (let st3 = st2\<lparr>ks_head_revision := Suc (ks_head_revision st2)\<rparr>;
                     written = Regular (pb_fingerprint pb) (state_bytes st3 c)
                 in case pb_write_error pb of
                      Some replaced \<Rightarrow>
                        (Inl (IntegrityError ''recipient key trust-state update outcome is uncertain''),
                         st3\<lparr>ks_current := ks_current st1, ks_used_key_ids := ks_used_key_ids st1, ks_fingerprint := None\<rparr>,
                         if replaced then written else entry)
                    | None \<Rightarrow> (case pb_status_error pb of
                        Some e \<Rightarrow> (Inl e, st3, written)
                      | None \<Rightarrow> (sync_parent pb (Inr c), st3\<lparr>ks_fingerprint := Some (pb_fingerprint pb)\<rparr>, written))))))"

definition store_verify :: "primitives \<Rightarrow> key_store \<Rightarrow> key_certificate \<Rightarrow> py_datetime \<Rightarrow> key_certificate result" where
  "store_verify pr st c now = bindE (verify_certificate pr st c (Some now)) (\<lambda>_. Inr c)"

text \<open>\<open>_refresh_current_locked\<close>; the store may have been reloaded when it raises.\<close>

definition refresh_current :: "primitives \<Rightarrow> key_store \<Rightarrow> path_entry \<Rightarrow> key_certificate result \<times> key_store" where
  "refresh_current pr st entry =
     (case (if \<not> ks_has_path st then Inr st
            else if entry = Missing then Inl (IntegrityError ''recipient key trust state is not initialized'')
            else reload_state_if_changed pr st entry) of
        Inl e \<Rightarrow> (Inl e, st)
      | Inr st1 \<Rightarrow> (case ks_current st1 of
          None \<Rightarrow> (Inl (IntegrityError ''recipient key trust store is not initialized''), st1)
        | Some c \<Rightarrow> (Inr c, st1)))"

definition current_certificate :: "primitives \<Rightarrow> py_datetime \<Rightarrow> key_store \<Rightarrow> path_entry \<Rightarrow> key_certificate result \<times> key_store" where
  "current_certificate pr now st entry =
     (let (r, st1) = refresh_current pr st entry
      in (bindE r (\<lambda>c. bindE (verify_current_validity c now) (\<lambda>_. Inr c)), st1))"

definition authorize_recipient :: "primitives \<Rightarrow> string \<Rightarrow> string \<Rightarrow> py_datetime \<Rightarrow> key_store \<Rightarrow> path_entry
    \<Rightarrow> key_certificate result \<times> key_store" where
  "authorize_recipient pr tnt destination now st entry =
     (if tnt \<noteq> ks_tenant st \<or> destination \<noteq> ks_destination_connector st
      then (Inl (IntegrityError ''recipient key trust store is bound to a different route''), st)
      else current_certificate pr now st entry)"

section \<open>Batches\<close>

record batch_authorization =
  ba_certificate :: key_certificate
  ba_store_token :: nat
  ba_head_revision :: nat
  ba_fingerprint :: "nat option"

definition begin_batch_authorization :: "primitives \<Rightarrow> string \<Rightarrow> string \<Rightarrow> key_store \<Rightarrow> path_entry
    \<Rightarrow> batch_authorization result \<times> key_store" where
  "begin_batch_authorization pr tnt destination st entry =
     (if tnt \<noteq> ks_tenant st \<or> destination \<noteq> ks_destination_connector st
      then (Inl (IntegrityError ''recipient key trust store is bound to a different route''), st)
      else (let (r, st1) = refresh_current pr st entry
            in (bindE r (\<lambda>c. Inr \<lparr>ba_certificate = c, ba_store_token = ks_token st1, ba_head_revision = ks_head_revision st1,
                 ba_fingerprint = ks_fingerprint st1\<rparr>), st1)))"

definition authorize_batch_record :: "key_store \<Rightarrow> batch_authorization \<Rightarrow> py_datetime \<Rightarrow> key_certificate result" where
  "authorize_batch_record st a now =
     raise_if (ba_store_token a \<noteq> ks_token st)
       (IntegrityError ''recipient batch authorization belongs to another trust store'') (
     bindE (verify_current_validity (ba_certificate a) now) (\<lambda>_. Inr (ba_certificate a)))"

definition confirm_batch_authorization :: "primitives \<Rightarrow> batch_authorization \<Rightarrow> key_store \<Rightarrow> path_entry \<Rightarrow> unit result \<times> key_store" where
  "confirm_batch_authorization pr a st entry =
     (if ba_store_token a \<noteq> ks_token st
      then (Inl (IntegrityError ''recipient batch authorization belongs to another trust store''), st)
      else (let (r, st1) = refresh_current pr st entry
            in (bindE r (\<lambda>c. raise_if (ks_head_revision st1 \<noteq> ba_head_revision a \<or> ks_fingerprint st1 \<noteq> ba_fingerprint a
                   \<or> \<not> same_certificate c (ba_certificate a))
                 (IntegrityError ''recipient key trust head changed during source batch'') (Inr ())), st1)))"

section \<open>Well-formed certificates\<close>

text \<open>What the constructor leaves as it is.\<close>

definition certificate_ok :: "primitives \<Rightarrow> key_certificate \<Rightarrow> bool" where
  "certificate_ok pr c = (RecipientKeyCertificate pr c (Aware (kc_issued_at c) 0) (Aware (kc_not_before c) 0)
     (Aware (kc_not_after c) 0) = Inr c)"

lemma recipient_utc_Inr: "recipient_utc v label = Inr t \<Longrightarrow> time_valid t"
  by (auto simp: recipient_utc_def astimezone_utc_def split: py_datetime.splits if_splits)

lemma recipient_utc_aware [simp]: "time_valid t \<Longrightarrow> recipient_utc (Aware t 0) label = Inr t"
  by (simp add: recipient_utc_def astimezone_utc_def)

lemma RecipientKeyCertificate_Inr:
  "RecipientKeyCertificate pr c issued nb na = Inr c' \<longleftrightarrow>
     (\<exists>i n x k. binding (kc_tenant c) ''tenant'' = Inr () \<and> binding (kc_destination_connector c) ''destination connector'' = Inr ()
       \<and> recipient_key_id pr (kc_public_key c) = Inr k \<and> 1 \<le> kc_generation c \<and> kc_generation c \<le> MAX_GENERATION
       \<and> (kc_generation c = 1 \<longleftrightarrow> kc_previous_key_id c = None)
       \<and> (case kc_previous_key_id c of None \<Rightarrow> True | Some p \<Rightarrow> lower_hex 64 p \<and> p \<noteq> k)
       \<and> recipient_utc issued ''issuance time'' = Inr i \<and> recipient_utc nb ''not-before time'' = Inr n
       \<and> recipient_utc na ''expiry time'' = Inr x \<and> n < x \<and> i \<le> x \<and> lower_hex 64 (kc_identity_key_id c)
       \<and> kc_algorithm c = ''ed25519'' \<and> length (kc_signature c) = 64
       \<and> c' = c\<lparr>kc_issued_at := i, kc_not_before := n, kc_not_after := x, kc_key_id := k\<rparr>)"
  unfolding RecipientKeyCertificate_def check_key_id_def
  by (cases "kc_previous_key_id c") (auto simp: not_le not_less)

lemma constructed_ok: "RecipientKeyCertificate pr c issued nb na = Inr c' \<Longrightarrow> certificate_ok pr c'"
  unfolding certificate_ok_def RecipientKeyCertificate_Inr
  by (elim exE conjE, intro exI conjI) (auto dest: recipient_utc_Inr)

lemma recipient_key_id_Inr: "recipient_key_id pr raw = Inr k \<Longrightarrow> lower_hex 64 k \<and> length raw = 32"
  by (auto simp: recipient_key_id_def Let_def sha256_hex_lower)

lemma certificate_okD:
  assumes "certificate_ok pr c"
  shows "recipient_key_id pr (kc_public_key c) = Inr (kc_key_id c)" "lower_hex 64 (kc_key_id c)" "length (kc_public_key c) = 32"
    "length (kc_signature c) = 64" "time_valid (kc_issued_at c)" "time_valid (kc_not_before c)" "time_valid (kc_not_after c)"
    "kc_algorithm c = ''ed25519''"
    "RecipientKeyCertificate pr c (Aware (kc_issued_at c) 0) (Aware (kc_not_before c) 0) (Aware (kc_not_after c) 0) = Inr c"
proof -
  note made = assms [unfolded certificate_ok_def]
  then obtain i n x k where k: "recipient_key_id pr (kc_public_key c) = Inr k" "time_valid i" "time_valid n" "time_valid x"
    and c: "c = c\<lparr>kc_issued_at := i, kc_not_before := n, kc_not_after := x, kc_key_id := k\<rparr>"
    and rest: "length (kc_signature c) = 64" "kc_algorithm c = ''ed25519''"
    using recipient_utc_Inr unfolding RecipientKeyCertificate_Inr by blast
  have sel: "kc_issued_at c = i" "kc_not_before c = n" "kc_not_after c = x" "kc_key_id c = k"
    by (subst c, simp)+
  show "recipient_key_id pr (kc_public_key c) = Inr (kc_key_id c)" using k(1) sel by simp
  then show "lower_hex 64 (kc_key_id c)" "length (kc_public_key c) = 32" using recipient_key_id_Inr by blast+
  show "length (kc_signature c) = 64" "kc_algorithm c = ''ed25519''" by (fact rest)+
  show "time_valid (kc_issued_at c)" "time_valid (kc_not_before c)" "time_valid (kc_not_after c)" using k sel by simp_all
qed (rule assms [unfolded certificate_ok_def])

end
