(* ===== verification/Source.thy ===== *)
theory Source
  imports Policy Transforms RecipientTrust
begin

text \<open>
  The source's trust boundary (\<open>BlindSourceAgent\<close> of \<open>agents.py\<close>): it validates its plan, authorizes the recipient's
  key, transforms the values of a record and seals every field, then signs the record. What the code draws from the
  clock, the random generator and the file system is given to the operations: the time of issue, per sealed field the
  clock reading, ephemeral key and nonce (\<open>seal_draw\<close>), and what the trust store's path leads to.
\<close>

section \<open>The agent\<close>

record source_agent =
  sa_tenant :: string
  sa_source_connector_id :: string
  sa_destination_connector_id :: string
  sa_source_schema :: schema_descriptor
  sa_target_schema :: schema_descriptor
  sa_plan :: mapping_plan
  sa_destination_public_key :: "bytes option"
  sa_signing_key :: "(bytes \<times> (bytes \<Rightarrow> bytes)) option"
  sa_schema_version :: string
  sa_transfer_ttl :: "int option"
  sa_protocol_version :: int
  sa_allow_legacy_unsigned :: bool
  sa_allow_unauthenticated_recipient_key :: bool

type_synonym recipient_trust = "(key_store \<times> path_entry) option"

definition bounded_new_identifier :: "string \<Rightarrow> string \<Rightarrow> nat \<Rightarrow> unit result" where
  "bounded_new_identifier v label maximum =
     raise_if (\<not> bounded_printable maximum v)
       (ProtocolError (''new source '' @ label @ '' must be bounded printable metadata'')) (Inr ())"

text \<open>The part of the construction that does not look at the recipient's key.\<close>

definition check_source_agent :: "source_agent \<Rightarrow> unit result" where
  "check_source_agent ag =
     bindE (bounded_new_identifier (sa_tenant ag) ''tenant'' 128) (\<lambda>_.
     bindE (bounded_new_identifier (sa_source_connector_id ag) ''source connector'' 128) (\<lambda>_.
     bindE (bounded_new_identifier (sa_destination_connector_id ag) ''destination connector'' 128) (\<lambda>_.
     bindE (raise_if_invalid (validate_plan (sa_plan ag) (sa_source_schema ag) (sa_target_schema ag))) (\<lambda>_.
     raise_if (sa_protocol_version ag = 3 \<and> sa_signing_key ag = None)
       (ValueError ''record protocol v3 requires a source signing key'') (
     raise_if (sa_protocol_version ag = 2 \<and> \<not> sa_allow_legacy_unsigned ag)
       (ValueError ''record protocol v2 requires explicit legacy opt-in'') (
     raise_if (sa_protocol_version ag \<notin> {2, 3}) (ValueError ''unsupported source record protocol version'') (Inr ())))))))"

definition BlindSourceAgent :: "primitives \<Rightarrow> source_agent \<Rightarrow> int \<Rightarrow> recipient_trust \<Rightarrow> source_agent result \<times> recipient_trust" where
  "BlindSourceAgent pr ag now trust =
     (case check_source_agent ag of
        Inl e \<Rightarrow> (Inl e, trust)
      | Inr _ \<Rightarrow> (case trust of
          Some (st, entry) \<Rightarrow>
            if sa_destination_public_key ag \<noteq> None
            then (Inl (ValueError ''destination public key must come only from the recipient key trust store''), trust)
            else (let (r, st') = authorize_recipient pr (sa_tenant ag) (sa_destination_connector_id ag) (Aware now 0) st entry
                  in (bindE r (\<lambda>_. Inr ag), Some (st', entry)))
        | None \<Rightarrow>
            (raise_if (sa_protocol_version ag = 3 \<and> \<not> sa_allow_unauthenticated_recipient_key ag)
               (ValueError ''record protocol v3 requires an authenticated recipient key trust store'') (
             case sa_destination_public_key ag of
               None \<Rightarrow> Inl (ValueError ''legacy recipient key mode requires a destination public key'')
             | Some raw \<Rightarrow> bindE (recipient_key_id pr raw) (\<lambda>_. Inr ag)), None)))"

text \<open>The key id a record carries: only version 3 has one.\<close>

definition static_recipient :: "primitives \<Rightarrow> source_agent \<Rightarrow> (bytes \<times> string) result" where
  "static_recipient pr ag =
     (let raw = the (sa_destination_public_key ag)
      in bindE (if sa_protocol_version ag = 3 then recipient_key_id pr raw else Inr []) (\<lambda>key_id. Inr (raw, key_id)))"

definition certified_recipient :: "source_agent \<Rightarrow> key_certificate \<Rightarrow> bytes \<times> string" where
  "certified_recipient ag c = (kc_public_key c, if sa_protocol_version ag = 3 then kc_key_id c else [])"

definition recipient_key_at :: "primitives \<Rightarrow> source_agent \<Rightarrow> int \<Rightarrow> recipient_trust \<Rightarrow> (bytes \<times> string) result \<times> recipient_trust" where
  "recipient_key_at pr ag now trust =
     (case trust of
        Some (st, entry) \<Rightarrow>
          (let (r, st') = authorize_recipient pr (sa_tenant ag) (sa_destination_connector_id ag) (Aware now 0) st entry
           in (bindE r (\<lambda>c. Inr (certified_recipient ag c)), Some (st', entry)))
      | None \<Rightarrow> (static_recipient pr ag, None))"

section \<open>Sealing one record\<close>

record seal_draw =
  sd_now :: int
  sd_ephemeral :: bytes
  sd_nonce :: bytes

type_synonym source_record = "(string \<times> py_value) list"

record issue =
  is_record_id :: string
  is_transfer_id :: string
  is_issued_at :: int
  is_public_key :: bytes
  is_key_id :: string

definition field_value :: "source_record \<Rightarrow> string \<Rightarrow> py_value" where
  "field_value r i = (case map_of r i of None \<Rightarrow> PNone | Some v \<Rightarrow> v)"

definition transformed_value ::
    "(string \<Rightarrow> string \<Rightarrow> py_datetime option) \<Rightarrow> field_descriptor \<Rightarrow> mapping_rule \<Rightarrow> py_value \<Rightarrow> py_value result" where
  "transformed_value strptime source rule v =
     bindE (transform_stage_of (mr_transform rule)) (\<lambda>stage.
     if fd_sensitivity source \<in> {SECRET, OPAQUE} then Inr v
     else if stage = SOURCE then apply_transform strptime (mr_transform rule) v (mr_parameters rule)
     else Inr v)"

definition seal_field :: "primitives \<Rightarrow> (string \<Rightarrow> string \<Rightarrow> py_datetime option) \<Rightarrow> source_agent \<Rightarrow> issue \<Rightarrow> int option
    \<Rightarrow> source_record \<Rightarrow> mapping_rule \<Rightarrow> seal_draw \<Rightarrow> sealed_field result" where
  "seal_field pr strptime ag iss expires_at r rule draw =
     (case by_id (sa_source_schema ag) (mr_source_field_id rule) of
        None \<Rightarrow> Inl (KeyError (mr_source_field_id rule))
      | Some source \<Rightarrow> (case by_id (sa_target_schema ag) (mr_target_field_id rule) of
          None \<Rightarrow> Inl (KeyError (mr_target_field_id rule))
        | Some target \<Rightarrow>
            bindE (validate_route source target (mr_transform rule)) (\<lambda>_.
            bindE (transformed_value strptime source rule (field_value r (fd_id source))) (\<lambda>transformed.
            bindE (TransferContext \<lparr>ctx_tenant = sa_tenant ag, ctx_source_connector = sa_source_connector_id ag,
                ctx_destination_connector = sa_destination_connector_id ag, ctx_field_id = fd_id target,
                ctx_schema_version = sa_schema_version ag, ctx_record_id = is_record_id iss, ctx_transfer_id = is_transfer_id iss,
                ctx_plan_id = mp_id (sa_plan ag), ctx_plan_digest = mapping_plan_digest (sa_plan ag),
                ctx_protocol_version = sa_protocol_version ag, ctx_recipient_key_id = is_key_id iss,
                ctx_issued_at = None, ctx_expires_at = None\<rparr>
                (Some (Aware (is_issued_at iss) 0)) (as_aware expires_at)) (\<lambda>context.
            bindE (payload_encode transformed) (\<lambda>payload.
            bindE (seal_for_recipient pr payload (is_public_key iss) context (Aware (sd_now draw) 0) (sd_ephemeral draw) (sd_nonce draw)) (\<lambda>envelope.
            Inr \<lparr>sf_target_field_id = fd_id target, sf_context = context, sf_envelope = envelope\<rparr>)))))))"

fun seal_fields :: "primitives \<Rightarrow> (string \<Rightarrow> string \<Rightarrow> py_datetime option) \<Rightarrow> source_agent \<Rightarrow> issue \<Rightarrow> int option
    \<Rightarrow> source_record \<Rightarrow> (nat \<Rightarrow> seal_draw) \<Rightarrow> nat \<Rightarrow> mapping_rule list \<Rightarrow> sealed_field list result" where
  "seal_fields pr strptime ag iss expires_at r draws i [] = Inr []"
| "seal_fields pr strptime ag iss expires_at r draws i (rule # rules) =
     bindE (seal_field pr strptime ag iss expires_at r rule (draws i)) (\<lambda>f.
     bindE (seal_fields pr strptime ag iss expires_at r draws (Suc i) rules) (\<lambda>fs. Inr (f # fs)))"

definition prepare_authorized_record :: "primitives \<Rightarrow> (string \<Rightarrow> string \<Rightarrow> py_datetime option) \<Rightarrow> source_agent \<Rightarrow> issue
    \<Rightarrow> source_record \<Rightarrow> (nat \<Rightarrow> seal_draw) \<Rightarrow> transport_record result" where
  "prepare_authorized_record pr strptime ag iss r draws =
     bindE (case sa_transfer_ttl ag of None \<Rightarrow> Inr None
       | Some ttl \<Rightarrow> bindE (add_delta (is_issued_at iss) ttl) (\<lambda>t. Inr (Some t))) (\<lambda>expires_at.
     bindE (seal_fields pr strptime ag iss expires_at r draws 0 (mp_rules (sa_plan ag))) (\<lambda>fields.
     bindE (BlindTransportRecord (is_record_id iss) fields None False) (\<lambda>transport.
     if sa_protocol_version ag = 2 then Inr transport
     else (let (public_key, sign) = the (sa_signing_key ag) in signed public_key sign transport))))"

text \<open>\<open>uuid\<close> is the text of the fresh identifier a missing transfer id is replaced with.\<close>

definition prepare_record :: "primitives \<Rightarrow> (string \<Rightarrow> string \<Rightarrow> py_datetime option) \<Rightarrow> source_agent \<Rightarrow> source_record \<Rightarrow> string
    \<Rightarrow> string option \<Rightarrow> string \<Rightarrow> int \<Rightarrow> (nat \<Rightarrow> seal_draw) \<Rightarrow> recipient_trust \<Rightarrow> transport_record result \<times> recipient_trust" where
  "prepare_record pr strptime ag r record_id transfer uuid now draws trust =
     (case bindE (bounded_new_identifier record_id ''record id'' 256) (\<lambda>_.
            case transfer of None \<Rightarrow> Inr () | Some t \<Rightarrow> bounded_new_identifier t ''transfer id'' 256) of
        Inl e \<Rightarrow> (Inl e, trust)
      | Inr _ \<Rightarrow>
          (let (recipient, trust') = recipient_key_at pr ag now trust
           in (bindE recipient (\<lambda>(public_key, key_id). prepare_authorized_record pr strptime ag
                \<lparr>is_record_id = record_id, is_transfer_id = (case transfer of None \<Rightarrow> uuid | Some t \<Rightarrow> t), is_issued_at = now,
                 is_public_key = public_key, is_key_id = key_id\<rparr> r draws), trust')))"

section \<open>Sealing a batch\<close>

definition MAX_SOURCE_BATCH_RECORDS :: nat where "MAX_SOURCE_BATCH_RECORDS = 10000"
definition DEFAULT_SOURCE_BATCH_WIRE_BYTES :: int where "DEFAULT_SOURCE_BATCH_WIRE_BYTES = 64 * 1024 * 1024"

text \<open>Where a batch takes the recipient of each record from: the static key, or the authorization of the batch.\<close>

datatype batch_recipient = Static "bytes \<times> string" | Authorized key_store batch_authorization

definition batch_recipient_at :: "source_agent \<Rightarrow> batch_recipient \<Rightarrow> int \<Rightarrow> (bytes \<times> string) result" where
  "batch_recipient_at ag b now = (case b of
     Static k \<Rightarrow> Inr k
   | Authorized st a \<Rightarrow> bindE (authorize_batch_record st a (Aware now 0)) (\<lambda>c. Inr (certified_recipient ag c)))"

text \<open>
  The loop of \<open>prepare_records\<close> from the record at \<open>index\<close> on; \<open>clock\<close> and \<open>draws\<close> give the time of issue and
  the draws of each record.
\<close>

fun seal_batch :: "primitives \<Rightarrow> (string \<Rightarrow> string \<Rightarrow> py_datetime option) \<Rightarrow> source_agent \<Rightarrow> batch_recipient \<Rightarrow> string \<Rightarrow> int
    \<Rightarrow> (nat \<Rightarrow> int) \<Rightarrow> (nat \<Rightarrow> nat \<Rightarrow> seal_draw) \<Rightarrow> nat \<Rightarrow> string list \<Rightarrow> int
    \<Rightarrow> source_record list \<Rightarrow> string list \<Rightarrow> transport_record list result" where
  "seal_batch pr strptime ag b transfer max_wire_bytes clock draws index seen total_wire_bytes [] [] = Inr []"
| "seal_batch pr strptime ag b transfer max_wire_bytes clock draws index seen total_wire_bytes (r # rs) (i # is) =
     raise_if (MAX_SOURCE_BATCH_RECORDS \<le> index) (ValueError ''source batch exceeds the record count limit'') (
     bindE (bounded_new_identifier i ''record id'' 256) (\<lambda>_.
     raise_if (i \<in> set seen) (ValueError ''source batch contains a duplicate record id'') (
     bindE (batch_recipient_at ag b (clock index)) (\<lambda>(public_key, key_id).
     bindE (prepare_authorized_record pr strptime ag \<lparr>is_record_id = i, is_transfer_id = transfer, is_issued_at = clock index,
         is_public_key = public_key, is_key_id = key_id\<rparr> r (draws index)) (\<lambda>sealed.
     let new_total = total_wire_bytes + int (length (canonical_wire_bytes sealed)) in
     raise_if (max_wire_bytes < new_total) (ValueError ''source batch exceeds the wire byte limit'') (
     bindE (seal_batch pr strptime ag b transfer max_wire_bytes clock draws (Suc index) (i # seen) new_total rs is) (\<lambda>rest.
     Inr (sealed # rest))))))))"
| "seal_batch pr strptime ag b transfer max_wire_bytes clock draws index seen total_wire_bytes _ _ =
     Inl (ValueError ''source batch records and record ids differ in length'')"

text \<open>\<open>entry'\<close> is what the trust store's path leads to when the batch is confirmed.\<close>

definition prepare_records :: "primitives \<Rightarrow> (string \<Rightarrow> string \<Rightarrow> py_datetime option) \<Rightarrow> source_agent \<Rightarrow> source_record list
    \<Rightarrow> string list \<Rightarrow> string option \<Rightarrow> string \<Rightarrow> int \<Rightarrow> (nat \<Rightarrow> int) \<Rightarrow> (nat \<Rightarrow> nat \<Rightarrow> seal_draw) \<Rightarrow> path_entry \<Rightarrow> recipient_trust
    \<Rightarrow> transport_record list result \<times> recipient_trust" where
  "prepare_records pr strptime ag records record_ids transfer uuid max_wire_bytes clock draws entry' trust =
     (case raise_if (\<not> (1 \<le> max_wire_bytes \<and> max_wire_bytes \<le> DEFAULT_SOURCE_BATCH_WIRE_BYTES))
            (ValueError ''source batch wire limit is outside supported range'') (
          case transfer of None \<Rightarrow> Inr () | Some t \<Rightarrow> bounded_new_identifier t ''transfer id'' 256) of
        Inl e \<Rightarrow> (Inl e, trust)
      | Inr _ \<Rightarrow>
          (let transfer_id = (case transfer of None \<Rightarrow> uuid | Some t \<Rightarrow> t);
               run = (\<lambda>b. seal_batch pr strptime ag b transfer_id max_wire_bytes clock draws 0 [] 0 records record_ids)
           in case trust of
                None \<Rightarrow> (bindE (static_recipient pr ag) (\<lambda>k. run (Static k)), None)
              | Some (st, entry) \<Rightarrow>
                  (case begin_batch_authorization pr (sa_tenant ag) (sa_destination_connector_id ag) st entry of
                     (Inl e, st1) \<Rightarrow> (Inl e, Some (st1, entry))
                   | (Inr a, st1) \<Rightarrow> (case run (Authorized st1 a) of
                       Inl e \<Rightarrow> (Inl e, Some (st1, entry'))
                     | Inr rs \<Rightarrow> (let (c, st2) = confirm_batch_authorization pr a st1 entry'
                                in (bindE c (\<lambda>_. Inr rs), Some (st2, entry')))))))"

end
