(* ===== verification/TransformProofs.thy ===== *)
theory TransformProofs
  imports Transforms PayloadProofs
begin

text \<open>The parsing transforms return values of the type they promise, and read back integers, datetimes and, in the locale of
  their parameters, decimals as they are printed.\<close>

section \<open>Types\<close>

lemma apply_transform_type:
  assumes "apply_transform strptime name v ps = Inr w" "result_type name = Some t"
  shows "w = PNone \<or> runtime_type w = t"
proof -
  consider "name = ''parse_integer''" "t = DT_INTEGER" | "name = ''parse_decimal''" "t = DT_DECIMAL"
    | "name = ''parse_datetime''" "t = DT_DATETIME"
    using assms(2) by (auto simp: result_type_def split: if_splits)
  then show ?thesis
  proof cases
    case 1
    with assms(1) parse_integer_type show ?thesis by (simp add: apply_transform_def TRANSFORM_SPECS_def)
  next
    case 2
    with assms(1) parse_decimal_type show ?thesis by (simp add: apply_transform_def TRANSFORM_SPECS_def)
  next
    case 3
    with assms(1) parse_datetime_type show ?thesis by (simp add: apply_transform_def TRANSFORM_SPECS_def)
  qed
qed

text \<open>An empty field, and nothing else, gives \<open>None\<close>.\<close>

lemma empty_parses_to_None:
  assumes "name \<in> {''parse_integer'', ''parse_decimal'', ''parse_datetime''}"
  shows "apply_transform strptime name v ps = Inr PNone \<longleftrightarrow> v \<in> {PNone, PStr []}"
proof
  assume "v \<in> {PNone, PStr []}"
  with assms show "apply_transform strptime name v ps = Inr PNone"
    by (elim insertE emptyE; simp add: apply_transform_def TRANSFORM_SPECS_def parse_integer_def parse_decimal_def parse_datetime_def)
next
  assume *: "apply_transform strptime name v ps = Inr PNone"
  from assms consider "name = ''parse_integer''" | "name = ''parse_decimal''" | "name = ''parse_datetime''" by blast
  then show "v \<in> {PNone, PStr []}"
  proof cases
    case 1
    with * show ?thesis
      by (auto simp: apply_transform_def TRANSFORM_SPECS_def parse_integer_def integer_text_def Let_def
          split: py_value.splits option.splits if_splits list.splits prod.splits)
  next
    case 2
    with * show ?thesis
      by (auto simp: apply_transform_def TRANSFORM_SPECS_def parse_decimal_def Let_def split: py_value.splits option.splits if_splits)
  next
    case 3
    with * show ?thesis
      by (auto simp: apply_transform_def TRANSFORM_SPECS_def parse_datetime_def Let_def split: py_value.splits option.splits if_splits)
  qed
qed

section \<open>Inverses\<close>

lemma starts_with_char: "starts_with [c] (d # s) = (c = d)" "\<not> starts_with [c] []"
  by (auto simp: starts_with_def)

lemma replace_char: "replace_found [c] new s = concat (map (\<lambda>d. if d = c then new else [d]) s)"
proof (induction s)
  case (Cons d s)
  then show ?case by (subst replace_found.simps) (auto simp: starts_with_char)
qed (subst replace_found.simps, simp add: starts_with_char)

lemma py_replace_delete: "py_replace s [c] [] = filter (\<lambda>d. d \<noteq> c) s"
  by (simp add: py_replace_def replace_char) (induction s; simp)

lemma py_replace_char: "py_replace s [c] [c'] = map (\<lambda>d. if d = c then c' else d) s"
  by (simp add: py_replace_def replace_char) (induction s; simp)

lemma strip_plain:
  assumes "list_all plain_char s"
  shows "strip s = s"
proof -
  have *: "\<forall>c \<in> set s. \<not> char_space c" using assms by (simp add: list_all_iff plain_char_def)
  then have "dropWhile char_space (rev s) = rev s" by (intro dropWhile_none) simp
  then show ?thesis using dropWhile_none [OF *] by (simp add: strip_def)
qed

text \<open>The characters of a rendered decimal.\<close>

definition decimal_char :: "char \<Rightarrow> bool" where
  "decimal_char c = (is_digit c \<or> c \<in> set ''.-+E'')"

lemma decimal_chars: "list_all decimal_char (decimal_str (Decimal neg c e))"
proof -
  obtain w f z e' where s: "decimal_str (Decimal neg c e) = (if neg then ''-'' else []) @ w @ (if f = [] then [] else ''.'' @ f) @ z"
    and w: "list_all is_digit w" "list_all is_digit f" and z: "z = [] \<and> e' = 0 \<or> z = show_exponent e'"
    by (rule decimal_shape)
  have "list_all decimal_char (show_exponent e')"
    using show_nat_digits [of "nat \<bar>e'\<bar>"] by (auto simp: show_exponent_def decimal_char_def list_all_iff)
  with w z show ?thesis unfolding s by (auto simp: list_all_iff decimal_char_def)
qed

lemma decimal_char_plain: "decimal_char c \<Longrightarrow> plain_char c \<and> c \<noteq> CHR '',''"
  by (auto simp: decimal_char_def plain_char_def is_digit_def char_space_def)

lemma decimal_str_nonempty: "decimal_str (Decimal neg c e) \<noteq> []"
proof
  assume "decimal_str (Decimal neg c e) = []"
  then show False using decimal_roundtrip [of neg c e] by (simp add: read_decimal_def strip_def)
qed

text \<open>The way a locale prints a decimal: \<open>p\<close> for the decimal point, and \<open>q\<close> anywhere between the digits.\<close>

definition localized :: "char \<Rightarrow> string \<Rightarrow> string" where
  "localized p s = map (\<lambda>c. if c = CHR ''.'' then p else c) s"

lemma delocalize:
  assumes "list_all decimal_char s" "p = CHR ''.'' \<or> \<not> decimal_char p"
  shows "map (\<lambda>c. if c = p then CHR ''.'' else c) (localized p s) = s"
  using assms by (induction s) (auto simp: localized_def)

lemma parse_decimal_localized:
  assumes "param ps ''decimal_separator'' ''.'' = [p]" "param ps ''thousands_separator'' '','' = [q]"
    and "p = CHR ''.'' \<or> \<not> decimal_char p"
    and "filter (\<lambda>d. d \<noteq> q) (strip s) = localized p (decimal_str (Decimal neg c e))"
  shows "parse_decimal ps (PStr s) = Inr (PDecimal (Decimal neg c e))"
proof -
  let ?t = "decimal_str (Decimal neg c e)"
  have t: "list_all plain_char ?t"
    using decimal_chars [of neg c e] decimal_char_plain unfolding list_all_iff by blast
  have "s \<noteq> []" using assms(4) decimal_str_nonempty [of neg c e] by (auto simp: localized_def strip_def)
  moreover have "if p = CHR ''.'' then localized p ?t = ?t else py_replace (localized p ?t) [p] ''.'' = ?t"
    using delocalize [OF decimal_chars assms(3), of neg c e] by (simp add: py_replace_char localized_def)
  ultimately show ?thesis
    using assms(1,2,4) decimal_roundtrip [of neg c e] strip_plain [OF t]
    by (cases "p = CHR ''.''") (simp_all add: parse_decimal_def Let_def py_replace_delete del: decimal_str.simps)
qed

lemma parse_integer_str:
  "parse_integer (PStr (show_int i)) =
     (if length (show_nat (nat \<bar>i\<bar>)) \<le> MAX_INT_DIGITS then Inr (PInt i)
      else Inl (ValueError ''Exceeds the limit for integer string conversion''))"
proof -
  let ?ds = "show_nat (nat \<bar>i\<bar>)"
  have ds: "list_all is_digit ?ds" "?ds \<noteq> []" using show_nat_digits by blast+
  then obtain d r where dr: "?ds = d # r" "is_digit d" by (cases ?ds) auto
  have sign: "d \<noteq> CHR ''-''" "d \<noteq> CHR ''+''" using dr(2) by (auto simp: is_digit_def)
  have shape: "show_int i = (if i < 0 then ''-'' else []) @ ?ds" by (simp add: show_int_def abs_if)
  have minus: "plain_char (CHR ''-'')" by (simp add: plain_char_def char_space_def)
  have "list_all plain_char (show_int i)" using ds(1) plain_digit minus unfolding shape
    by (auto simp: list_all_iff)
  then have strip: "strip (show_int i) = show_int i" by (rule strip_plain)
  have n: "num ?ds = Some \<bar>i\<bar>" using num_zeros [of 0 "nat \<bar>i\<bar>"] by simp
  have "integer_text (show_int i) = (if length ?ds \<le> MAX_INT_DIGITS then Inr (PInt i)
      else Inl (ValueError ''Exceeds the limit for integer string conversion''))"
  proof (cases "i < 0")
    case True
    then show ?thesis using ds n by (simp add: integer_text_def shape not_less)
  next
    case False
    then have "show_int i = d # r" using dr(1) by (simp add: shape)
    then show ?thesis using ds n sign False unfolding dr(1) by (simp add: integer_text_def not_less)
  qed
  moreover have "show_int i \<noteq> []" using ds(2) by (simp add: shape)
  ultimately show ?thesis by (simp add: parse_integer_def strip)
qed

lemma parse_datetime_str:
  "datetime_ok d \<Longrightarrow> param ps ''format'' [] = [] \<Longrightarrow> parse_datetime strptime ps (PStr (iso_datetime d)) = Inr (PDatetime d)"
proof -
  assume d: "datetime_ok d" "param ps ''format'' [] = []"
  then have "iso_datetime d \<noteq> []" using fromisoformat_datetime [OF d(1)] by (auto simp: fromisoformat_def)
  then show ?thesis using fromisoformat_datetime [OF d(1)] d(2) by (simp add: parse_datetime_def Let_def)
qed

text \<open>C40. The parsing transforms read back what was printed. Every decimal is read back exactly from its text in a locale:
  with the decimal point of the parameters, their thousands separator at any places, and white space around it; every
  integer from its text, and refused exactly when it has more than 4300 digits; every datetime from its ISO text. \<open>None\<close> comes
  of null and of empty text and of nothing else, and any other result has the type the transform's name promises.\<close>

theorem parsers_read_printed_values:
  assumes "param ps ''decimal_separator'' ''.'' = [p]" "param ps ''thousands_separator'' '','' = [q]" "param ps ''format'' [] = []"
    and "p = CHR ''.'' \<or> \<not> decimal_char p"
    and "filter (\<lambda>d. d \<noteq> q) (strip s) = localized p (decimal_str (Decimal neg c e))" "datetime_ok dt"
  shows "apply_transform strptime ''parse_decimal'' (PStr s) ps = Inr (PDecimal (Decimal neg c e))
    \<and> apply_transform strptime ''parse_integer'' (PStr (show_int i)) ps =
        (if length (show_nat (nat \<bar>i\<bar>)) \<le> MAX_INT_DIGITS then Inr (PInt i)
         else Inl (ValueError ''Exceeds the limit for integer string conversion''))
    \<and> apply_transform strptime ''parse_datetime'' (PStr (iso_datetime dt)) ps = Inr (PDatetime dt)
    \<and> list_all (\<lambda>(name, t). (apply_transform strptime name v ps = Inr PNone \<longleftrightarrow> v \<in> {PNone, PStr []})
          \<and> pred_sum (\<lambda>_. True) (\<lambda>w. w = PNone \<or> runtime_type w = t) (apply_transform strptime name v ps))
        [(''parse_integer'', DT_INTEGER), (''parse_decimal'', DT_DECIMAL), (''parse_datetime'', DT_DATETIME)]"
proof -
  have typed: "pred_sum (\<lambda>_. True) (\<lambda>w. w = PNone \<or> runtime_type w = t) (apply_transform strptime name v ps)"
    if "result_type name = Some t" for name t
    using apply_transform_type [OF _ that] by (cases "apply_transform strptime name v ps") auto
  have "list_all (\<lambda>(name, t). (apply_transform strptime name v ps = Inr PNone \<longleftrightarrow> v \<in> {PNone, PStr []})
      \<and> pred_sum (\<lambda>_. True) (\<lambda>w. w = PNone \<or> runtime_type w = t) (apply_transform strptime name v ps))
    [(''parse_integer'', DT_INTEGER), (''parse_decimal'', DT_DECIMAL), (''parse_datetime'', DT_DATETIME)]"
    unfolding list.pred_inject prod.case
    by (intro conjI empty_parses_to_None typed TrueI) (simp_all add: result_type_def)
  moreover have "apply_transform strptime ''parse_decimal'' (PStr s) ps = Inr (PDecimal (Decimal neg c e))"
    using parse_decimal_localized [OF assms(1,2,4,5)] by (simp add: apply_transform_def TRANSFORM_SPECS_def)
  moreover have "apply_transform strptime ''parse_datetime'' (PStr (iso_datetime dt)) ps = Inr (PDatetime dt)"
    using parse_datetime_str [OF assms(6,3)] by (simp add: apply_transform_def TRANSFORM_SPECS_def)
  moreover have "apply_transform strptime ''parse_integer'' (PStr (show_int i)) ps = parse_integer (PStr (show_int i))"
    by (simp add: apply_transform_def TRANSFORM_SPECS_def)
  ultimately show ?thesis unfolding parse_integer_str by blast
qed

text \<open>The price \<open>-1.234.567,50\<close> as a German export has it.\<close>

theorem parsers_read_printed_values_witness:
  "apply_transform (\<lambda>_ _. None) ''parse_decimal'' (PStr '' -1.234.567,50 '')
     [(''decimal_separator'', '',''), (''thousands_separator'', ''.'')] = Inr (PDecimal (Decimal True 123456750 (- 2)))"
proof -
  let ?ps = "[(''decimal_separator'', '',''), (''thousands_separator'', ''.'')]"
  have ps: "param ?ps ''decimal_separator'' ''.'' = [CHR '','']" "param ?ps ''thousands_separator'' '','' = [CHR ''.'']"
    "param ?ps ''format'' [] = []" by (simp_all add: param_def)
  have comma: "CHR '','' = CHR ''.'' \<or> \<not> decimal_char (CHR '','')" by (simp add: decimal_char_def is_digit_def)
  have "strip '' -1.234.567,50 '' = ''-1.234.567,50''" by (simp add: strip_def char_space_def)
  moreover have "decimal_str (Decimal True 123456750 (- 2)) = ''-1234567.50''" by (simp add: show_nat.simps digit_def) code_simp
  ultimately have printed: "filter (\<lambda>d. d \<noteq> CHR ''.'') (strip '' -1.234.567,50 '')
      = localized (CHR '','') (decimal_str (Decimal True 123456750 (- 2)))" by (simp add: localized_def del: decimal_str.simps)
  have "datetime_ok (Naive 0)" by (simp add: time_valid_def day_us_def)
  from parsers_read_printed_values [OF ps comma printed this] show ?thesis by (rule conjunct1)
qed

end
