(* ===== verification/SourceProofs.thy ===== *)
theory SourceProofs
  imports Source Destination TransformProofs
begin

text \<open>
  What the source and destination agents achieve together: a record the source prepares is authorized and opened by
  its destination, which sees exactly the values the plan prescribes.
\<close>

section \<open>Sealing and opening one field\<close>

text \<open>What the development relies on of the primitives: key agreement commutes, and opening undoes sealing.\<close>

definition lawful_primitives :: "primitives \<Rightarrow> bool" where
  "lawful_primitives pr =
     ((\<forall>a b s. x25519_exchange pr a (x25519_public pr b) = Some s \<longrightarrow> x25519_exchange pr b (x25519_public pr a) = Some s)
      \<and> (\<forall>k n m d. chacha_open pr k n (chacha_seal pr k n m d) d = Some m))"

lemma open_sealed:
  assumes "lawful_primitives pr" "seal_for_recipient pr m (x25519_public pr priv) c now eph nonce = Inr e"
    and "validate_time c now' = Inr ()"
  shows "open_envelope pr e priv c now' = Inr m"
proof -
  obtain shared key where s: "x25519_exchange pr eph (x25519_public pr priv) = Some shared" "derive_key pr shared c (aad c) = Inr key"
    and e: "e = \<lparr>env_epk = x25519_public pr eph, env_nonce = nonce, env_ciphertext = chacha_seal pr key nonce m (aad c)\<rparr>"
    using assms(2) unfolding seal_for_recipient_def
    by (cases "x25519_exchange pr eph (x25519_public pr priv)")
      (simp_all only: bindE_Inr_iff raise_if_Inr option.case OpaqueEnvelope_Inr sum.distinct simp_thms ex_simps, blast)
  then have "x25519_exchange pr priv (x25519_public pr eph) = Some shared" using assms(1) unfolding lawful_primitives_def by blast
  moreover have "chacha_open pr key nonce (chacha_seal pr key nonce m (aad c)) (aad c) = Some m"
    using assms(1) unfolding lawful_primitives_def by blast
  ultimately show ?thesis using s(2) e assms(3) by (simp add: open_envelope_def)
qed

text \<open>The context every field of an issue carries, and the values its destination is meant to see.\<close>

definition issue_context :: "source_agent \<Rightarrow> issue \<Rightarrow> int option \<Rightarrow> string \<Rightarrow> transfer_context" where
  "issue_context ag iss expires_at i = \<lparr>ctx_tenant = sa_tenant ag, ctx_source_connector = sa_source_connector_id ag,
     ctx_destination_connector = sa_destination_connector_id ag, ctx_field_id = i, ctx_schema_version = sa_schema_version ag,
     ctx_record_id = is_record_id iss, ctx_transfer_id = is_transfer_id iss, ctx_plan_id = mp_id (sa_plan ag),
     ctx_plan_digest = mapping_plan_digest (sa_plan ag), ctx_protocol_version = sa_protocol_version ag,
     ctx_recipient_key_id = is_key_id iss, ctx_issued_at = Some (is_issued_at iss), ctx_expires_at = expires_at\<rparr>"

definition mapped_value :: "(string \<Rightarrow> string \<Rightarrow> py_datetime option) \<Rightarrow> source_agent \<Rightarrow> source_record \<Rightarrow> mapping_rule
    \<Rightarrow> (string \<times> py_value) result" where
  "mapped_value strptime ag r rule = (case by_id (sa_source_schema ag) (mr_source_field_id rule) of
     None \<Rightarrow> Inl (KeyError (mr_source_field_id rule))
   | Some source \<Rightarrow> bindE (transformed_value strptime source rule (field_value r (fd_id source)))
       (\<lambda>v. Inr (mr_target_field_id rule, v)))"

lemma TransferContext_issue:
  assumes "TransferContext c (Some (Aware i 0)) (as_aware x) = Inr c'"
  shows "c' = c\<lparr>ctx_issued_at := Some i, ctx_expires_at := x\<rparr>"
proof -
  have "utc (Aware t 0) = Inr u \<Longrightarrow> u = t" for t u by (auto simp: utc_def astimezone_utc_def split: if_splits)
  with assms show ?thesis by (cases x) (auto simp: TransferContext_def utc_opt_def as_aware_def)
qed

lemma seal_field_Inr:
  assumes "seal_field pr strptime ag iss expires_at r rule draw = Inr f"
  shows "\<exists>source target v payload envelope. by_id (sa_source_schema ag) (mr_source_field_id rule) = Some source
    \<and> by_id (sa_target_schema ag) (mr_target_field_id rule) = Some target
    \<and> validate_route source target (mr_transform rule) = Inr ()
    \<and> transformed_value strptime source rule (field_value r (fd_id source)) = Inr v
    \<and> payload_encode v = Inr payload
    \<and> seal_for_recipient pr payload (is_public_key iss) (issue_context ag iss expires_at (mr_target_field_id rule))
        (Aware (sd_now draw) 0) (sd_ephemeral draw) (sd_nonce draw) = Inr envelope
    \<and> f = \<lparr>sf_target_field_id = mr_target_field_id rule, sf_context = issue_context ag iss expires_at (mr_target_field_id rule),
           sf_envelope = envelope\<rparr>"
proof -
  obtain source where source: "by_id (sa_source_schema ag) (mr_source_field_id rule) = Some source"
    using assms by (cases "by_id (sa_source_schema ag) (mr_source_field_id rule)") (simp_all add: seal_field_def)
  obtain target where target: "by_id (sa_target_schema ag) (mr_target_field_id rule) = Some target"
    using assms source by (cases "by_id (sa_target_schema ag) (mr_target_field_id rule)") (simp_all add: seal_field_def)
  then have ids: "fd_id target = mr_target_field_id rule" using by_id_Some by blast
  obtain v ctx payload envelope where *: "validate_route source target (mr_transform rule) = Inr ()"
    "transformed_value strptime source rule (field_value r (fd_id source)) = Inr v" "payload_encode v = Inr payload"
    "TransferContext \<lparr>ctx_tenant = sa_tenant ag, ctx_source_connector = sa_source_connector_id ag,
                ctx_destination_connector = sa_destination_connector_id ag, ctx_field_id = fd_id target,
                ctx_schema_version = sa_schema_version ag, ctx_record_id = is_record_id iss, ctx_transfer_id = is_transfer_id iss,
                ctx_plan_id = mp_id (sa_plan ag), ctx_plan_digest = mapping_plan_digest (sa_plan ag),
                ctx_protocol_version = sa_protocol_version ag, ctx_recipient_key_id = is_key_id iss,
                ctx_issued_at = None, ctx_expires_at = None\<rparr>
                (Some (Aware (is_issued_at iss) 0)) (as_aware expires_at) = Inr ctx"
    "seal_for_recipient pr payload (is_public_key iss) ctx (Aware (sd_now draw) 0) (sd_ephemeral draw) (sd_nonce draw) = Inr envelope"
    "f = \<lparr>sf_target_field_id = fd_id target, sf_context = ctx, sf_envelope = envelope\<rparr>"
    using assms unfolding seal_field_def source target option.case by (simp only: bindE_Inr_iff sum.inject) (elim exE conjE, rule that, simp, assumption+, erule sym)
  have "ctx = issue_context ag iss expires_at (mr_target_field_id rule)"
    using TransferContext_issue [OF *(4)] ids by (simp add: issue_context_def)
  with * source target ids show ?thesis by blast
qed

lemma seal_fields_length: "seal_fields pr strptime ag iss x r draws i rules = Inr fs \<Longrightarrow> length fs = length rules"
  by (induction rules arbitrary: i fs) auto

lemma seal_fields_targets:
  "seal_fields pr strptime ag iss x r draws i rules = Inr fs \<Longrightarrow> map sf_target_field_id fs = map mr_target_field_id rules"
  by (induction rules arbitrary: i fs) (auto dest: seal_field_Inr)

lemma seal_fields_contexts:
  "seal_fields pr strptime ag iss x r draws i rules = Inr fs \<Longrightarrow> f \<in> set fs \<Longrightarrow>
     sf_context f = issue_context ag iss x (sf_target_field_id f)"
  by (induction rules arbitrary: i fs) (auto dest!: seal_field_Inr)

text \<open>Opening the fields gives the mapped values, at any times before the expiry.\<close>

definition open_values :: "primitives \<Rightarrow> bytes \<Rightarrow> sealed_field \<Rightarrow> py_datetime \<Rightarrow> (string \<times> py_value) result" where
  "open_values pr priv f now = bindE (open_envelope pr (sf_envelope f) priv (sf_context f) now) (\<lambda>plaintext.
     bindE (payload_decode plaintext) (\<lambda>v. Inr (sf_target_field_id f, v)))"

lemma open_values_sealed:
  assumes "lawful_primitives pr" "is_public_key iss = x25519_public pr priv" "seal_field pr strptime ag iss x r rule draw = Inr f"
    and "\<And>i v. mapped_value strptime ag r rule = Inr (i, v) \<Longrightarrow> payload_ok v"
    and "time_valid t" "case x of None \<Rightarrow> True | Some e \<Rightarrow> t \<le> e"
  shows "\<exists>kv. mapped_value strptime ag r rule = Inr kv \<and> open_values pr priv f (Aware t 0) = Inr kv"
proof -
  obtain source target v payload envelope where *: "by_id (sa_source_schema ag) (mr_source_field_id rule) = Some source"
    "transformed_value strptime source rule (field_value r (fd_id source)) = Inr v" "payload_encode v = Inr payload"
    "seal_for_recipient pr payload (is_public_key iss) (issue_context ag iss x (mr_target_field_id rule))
        (Aware (sd_now draw) 0) (sd_ephemeral draw) (sd_nonce draw) = Inr envelope"
    "f = \<lparr>sf_target_field_id = mr_target_field_id rule, sf_context = issue_context ag iss x (mr_target_field_id rule),
           sf_envelope = envelope\<rparr>"
    using seal_field_Inr [OF assms(3)] by blast
  have mapped: "mapped_value strptime ag r rule = Inr (mr_target_field_id rule, v)" using * by (simp add: mapped_value_def)
  have "validate_time (issue_context ag iss x (mr_target_field_id rule)) (Aware t 0) = Inr ()"
    using assms(5,6) by (cases x) (simp_all add: validate_time_def issue_context_def)
  then have "open_envelope pr envelope priv (issue_context ag iss x (mr_target_field_id rule)) (Aware t 0) = Inr payload"
    using open_sealed [OF assms(1)] *(4) assms(2) by simp
  moreover have "payload_decode payload = Inr v" using decode_encoded [OF assms(4) [OF mapped]] *(3) by auto
  ultimately show ?thesis using mapped *(5) by (simp add: open_values_def)
qed

section \<open>Opening a record\<close>

text \<open>Every clock reading of the world is a time before the expiry.\<close>

definition unexpired :: "world \<Rightarrow> int option \<Rightarrow> bool" where
  "unexpired w x = (\<forall>n. time_valid (ev_now (w_tape w n)) \<and> (case x of None \<Rightarrow> True | Some e \<Rightarrow> ev_now (w_tape w n) \<le> e))"

lemma unexpired_step [simp]: "unexpired (w\<lparr>w_pos := n\<rparr>) x = unexpired w x"
  by (cases x) (simp_all add: unexpired_def)

lemma open_field_values:
  "open_values pr priv f (Aware (ev_now (w_tape w (w_pos w))) 0) = Inr kv \<Longrightarrow>
     open_field pr priv f w = (Inr kv, w\<lparr>w_pos := Suc (w_pos w)\<rparr>)"
  by (auto simp: open_values_def open_field_def bindA_def tick_def lift_result_def ret_def)

lemma open_sealed_fields:
  assumes "lawful_primitives pr" "is_public_key iss = x25519_public pr priv" "unexpired w x"
    and "seal_fields pr strptime ag iss x r draws i rules = Inr fs"
    and "\<And>rule j v. rule \<in> set rules \<Longrightarrow> mapped_value strptime ag r rule = Inr (j, v) \<Longrightarrow> payload_ok v"
  shows "\<exists>kvs. mapE (mapped_value strptime ag r) rules = Inr kvs
    \<and> mapA (open_field pr priv) fs w = (Inr kvs, w\<lparr>w_pos := w_pos w + length rules\<rparr>)"
  using assms(3-5)
proof (induction rules arbitrary: i fs w)
  case (Cons rule rules)
  obtain f gs where f: "seal_field pr strptime ag iss x r rule (draws i) = Inr f"
    and gs: "seal_fields pr strptime ag iss x r draws (Suc i) rules = Inr gs" and fs: "fs = f # gs"
    using Cons.prems(2) by auto
  let ?t = "ev_now (w_tape w (w_pos w))"
  have t: "time_valid ?t" "case x of None \<Rightarrow> True | Some e \<Rightarrow> ?t \<le> e" using Cons.prems(1) by (simp_all add: unexpired_def)
  have good: "payload_ok v" if "mapped_value strptime ag r rule = Inr (j, v)" for j v
    using Cons.prems(3) [OF _ that] by simp
  have "\<exists>kv. mapped_value strptime ag r rule = Inr kv \<and> open_values pr priv f (Aware ?t 0) = Inr kv"
    by (rule open_values_sealed [OF assms(1,2) f good t])
  then obtain kv where kv: "mapped_value strptime ag r rule = Inr kv" "open_values pr priv f (Aware ?t 0) = Inr kv"
    by blast
  let ?w = "w\<lparr>w_pos := Suc (w_pos w)\<rparr>"
  have "\<exists>kvs. mapE (mapped_value strptime ag r) rules = Inr kvs
      \<and> mapA (open_field pr priv) gs ?w = (Inr kvs, ?w\<lparr>w_pos := w_pos ?w + length rules\<rparr>)"
  proof (rule Cons.IH [OF _ gs])
    show "unexpired ?w x" using Cons.prems(1) by simp
    show "payload_ok v" if "q \<in> set rules" "mapped_value strptime ag r q = Inr (j, v)" for q j v
      using Cons.prems(3) [OF _ that(2)] that(1) by simp
  qed
  then obtain kvs where "mapE (mapped_value strptime ag r) rules = Inr kvs"
    "mapA (open_field pr priv) gs ?w = (Inr kvs, w\<lparr>w_pos := w_pos w + Suc (length rules)\<rparr>)" by auto
  then show ?case using kv(1) open_field_values [OF kv(2)] by (simp add: fs bindA_def ret_def)
qed (simp add: ret_def)

lemma dict_put_fresh: "distinct (map fst (d @ kvs)) \<Longrightarrow> foldl (\<lambda>d (k, v). dict_put k v d) d kvs = d @ kvs"
proof (induction kvs arbitrary: d)
  case (Cons kv kvs)
  obtain k v where kv: "kv = (k, v)" by (cases kv)
  have "k \<notin> set (map fst d) \<Longrightarrow> dict_put k v d = d @ [(k, v)]" by (induction d) auto
  then have "dict_put k v d = d @ [(k, v)]" using Cons.prems by (simp add: kv)
  with Cons show ?case by (simp add: kv)
qed simp

lemma mapped_targets: "mapE (mapped_value strptime ag r) rules = Inr kvs \<Longrightarrow> map fst kvs = map mr_target_field_id rules"
  by (induction rules arbitrary: kvs) (auto simp: mapped_value_def split: option.splits)

section \<open>Prepared records\<close>

definition expiry :: "source_agent \<Rightarrow> issue \<Rightarrow> int option" where
  "expiry ag iss = map_option (\<lambda>ttl. is_issued_at iss + ttl) (sa_transfer_ttl ag)"

lemma prepared_Inr:
  assumes "prepare_authorized_record pr strptime ag iss r draws = Inr t"
  shows "seal_fields pr strptime ag iss (expiry ag iss) r draws 0 (mp_rules (sa_plan ag)) = Inr (btr_fields t)
    \<and> btr_record_id t = is_record_id iss \<and> record_wf t"
proof -
  obtain x fields u where x: "(case sa_transfer_ttl ag of None \<Rightarrow> Inr None
       | Some ttl \<Rightarrow> bindE (add_delta (is_issued_at iss) ttl) (\<lambda>t. Inr (Some t))) = Inr x"
    and fields: "seal_fields pr strptime ag iss x r draws 0 (mp_rules (sa_plan ag)) = Inr fields"
    and u: "BlindTransportRecord (is_record_id iss) fields None False = Inr u"
    and t: "(if sa_protocol_version ag = 2 then Inr u
       else (let (public_key, sign) = the (sa_signing_key ag) in signed public_key sign u)) = Inr t"
    using assms unfolding prepare_authorized_record_def by (simp only: bindE_Inr_iff) blast
  have "x = expiry ag iss" using x by (auto simp: expiry_def add_delta_def split: option.splits if_splits)
  moreover have "btr_fields u = fields" "btr_record_id u = is_record_id iss" "record_wf u" "btr_authentication u = None"
    using u by (auto simp: BlindTransportRecord_Inr)
  moreover have "btr_fields t = btr_fields u \<and> btr_record_id t = btr_record_id u \<and> record_wf t"
  proof (cases "sa_protocol_version ag = 2")
    case True
    with t \<open>record_wf u\<close> show ?thesis by simp
  next
    case False
    obtain pk sign where s: "signed pk sign u = Inr t" using t False by (auto split: prod.splits)
    then have "record_wf t" by (auto simp: signed_def BlindTransportRecord_Inr)
    with signed_record [OF s] show ?thesis by simp
  qed
  ultimately show ?thesis using fields by simp
qed

lemma prepared_context:
  assumes "prepare_authorized_record pr strptime ag iss r draws = Inr t"
  shows "\<exists>i. first_context t = issue_context ag iss (expiry ag iss) i"
proof -
  note p = prepared_Inr [OF assms]
  then have "btr_fields t \<noteq> []" by (simp add: record_wf_def)
  then have "hd (btr_fields t) \<in> set (btr_fields t)" by simp
  with seal_fields_contexts p show ?thesis by (auto simp: first_context_def)
qed

lemma prepared_attributes:
  assumes "prepare_authorized_record pr strptime ag iss r draws = Inr t"
  shows "protocol_version t = sa_protocol_version ag" "tenant t = sa_tenant ag" "source_connector t = sa_source_connector_id ag"
    "destination_connector t = sa_destination_connector_id ag" "plan_digest t = mapping_plan_digest (sa_plan ag)"
    "ctx_recipient_key_id (first_context t) = is_key_id iss" "ctx_expires_at (first_context t) = expiry ag iss"
    "transfer_id t = is_transfer_id iss" "ctx_issued_at (first_context t) = Some (is_issued_at iss)"
  using prepared_context [OF assms]
  by (auto simp: protocol_version_def tenant_def source_connector_def destination_connector_def plan_digest_def transfer_id_def
      issue_context_def)

text \<open>What the destination opens is what the plan maps.\<close>

lemma open_prepared:
  assumes "lawful_primitives pr" "prepare_authorized_record pr strptime ag iss r draws = Inr t"
    and "is_public_key iss = x25519_public pr priv" "unexpired w (ctx_expires_at (first_context t))"
    and "\<And>rule j v. rule \<in> set (mp_rules (sa_plan ag)) \<Longrightarrow> mapped_value strptime ag r rule = Inr (j, v) \<Longrightarrow> payload_ok v"
  shows "\<exists>kvs. mapE (mapped_value strptime ag r) (mp_rules (sa_plan ag)) = Inr kvs
    \<and> open_authorized_record pr t priv w = (Inr kvs, w\<lparr>w_pos := w_pos w + length (mp_rules (sa_plan ag))\<rparr>)"
proof -
  note p = prepared_Inr [OF assms(2)]
  have x: "unexpired w (expiry ag iss)" using assms(4) prepared_attributes(7) [OF assms(2)] by simp
  have "\<exists>kvs. mapE (mapped_value strptime ag r) (mp_rules (sa_plan ag)) = Inr kvs
    \<and> mapA (open_field pr priv) (btr_fields t) w = (Inr kvs, w\<lparr>w_pos := w_pos w + length (mp_rules (sa_plan ag))\<rparr>)"
    by (rule open_sealed_fields [OF assms(1,3) x conjunct1 [OF p] assms(5)])
  then obtain kvs where kvs: "mapE (mapped_value strptime ag r) (mp_rules (sa_plan ag)) = Inr kvs"
    "mapA (open_field pr priv) (btr_fields t) w = (Inr kvs, w\<lparr>w_pos := w_pos w + length (mp_rules (sa_plan ag))\<rparr>)" by blast
  have "distinct (map sf_target_field_id (btr_fields t))" using p by (simp add: record_wf_def)
  then have "distinct (map fst kvs)" using mapped_targets [OF kvs(1)] seal_fields_targets p by metis
  then have "foldl (\<lambda>d (k, v). dict_put k v d) [] kvs = kvs" using dict_put_fresh [of "[]" kvs] by simp
  with kvs show ?thesis by (simp add: open_authorized_record_def bindA_def ret_def)
qed

section \<open>Authorization at the destination\<close>

text \<open>A destination that registered the source's signing key as active, for its tenant and connector, and that expects this
  route and this plan, if it expects any in particular.\<close>

definition expects_source :: "primitives \<Rightarrow> destination_agent \<Rightarrow> source_agent \<Rightarrow> bool" where
  "expects_source pr dag ag =
     (da_additional_private_keys dag = []
      \<and> da_expected_tenant dag \<in> {None, Some (sa_tenant ag)}
      \<and> da_expected_connector_id dag \<in> {None, Some (sa_destination_connector_id ag)}
      \<and> (case da_allowed_plan_digests dag of None \<Rightarrow> True | Some ps \<Rightarrow> mapping_plan_digest (sa_plan ag) \<in> set ps)
      \<and> (case (sa_signing_key ag, da_source_trust_store dag) of
           (Some (pk, sign), Some st) \<Rightarrow>
             (case ts_keys st (sha256_hex pk) of
                None \<Rightarrow> False
              | Some key \<Rightarrow> tsk_public_key key = pk \<and> tsk_state key = ACTIVE \<and> tsk_tenant key = sa_tenant ag
                  \<and> tsk_source_connector key = sa_source_connector_id ag \<and> tsk_not_before key = None \<and> tsk_not_after key = None)
             \<and> (\<forall>m. ed25519_ok pr pk m (sign m))
         | _ \<Rightarrow> False))"

lemma prepared_signed:
  assumes "prepare_authorized_record pr strptime ag iss r draws = Inr t" "sa_protocol_version ag = 3" "sa_signing_key ag = Some (pk, sign)"
  shows "\<exists>msg. length pk = 32 \<and> source_authentication_bytes t (sha256_hex pk) ''ed25519'' = Inr msg \<and> length (sign msg) = 64
    \<and> btr_authentication t = Some \<lparr>auth_key_id = sha256_hex pk, auth_signature = sign msg, auth_algorithm = ''ed25519''\<rparr>"
proof -
  obtain u where s: "signed pk sign u = Inr t"
    using assms unfolding prepare_authorized_record_def by (auto split: prod.splits simp del: split_paired_Ex)
  obtain key_id msg where k: "signing_key_id pk = Inr key_id" "source_authentication_bytes t key_id ''ed25519'' = Inr msg"
    "btr_authentication t = Some \<lparr>auth_key_id = key_id, auth_signature = sign msg, auth_algorithm = ''ed25519''\<rparr>"
    using signed_record [OF s] by blast
  have "\<exists>a. btr_authentication t = Some a \<and> authentication_wf a"
    using s by (auto simp: signed_def RecordAuthentication_Inr BlindTransportRecord_Inr)
  with k show ?thesis by (auto simp: signing_key_id_def authentication_wf_def)
qed

lemma authorize_prepared:
  assumes "prepare_authorized_record pr strptime ag iss r draws = Inr t" "sa_protocol_version ag = 3" "expects_source pr dag ag"
    and "recipient_key_id pr (x25519_public pr (da_private_key dag)) = Inr (is_key_id iss)" "time_valid now"
  shows "authorize_record_at pr dag t now = Inr (da_private_key dag)"
proof -
  obtain pk sign st key where sk: "sa_signing_key ag = Some (pk, sign)" "da_source_trust_store dag = Some st"
    "ts_keys st (sha256_hex pk) = Some key" "tsk_public_key key = pk" "tsk_state key = ACTIVE" "tsk_tenant key = sa_tenant ag"
    "tsk_source_connector key = sa_source_connector_id ag" "tsk_not_before key = None" "tsk_not_after key = None"
    and law: "\<And>m. ed25519_ok pr pk m (sign m)"
    using assms(3) by (auto simp: expects_source_def split: option.splits prod.splits)
  note at = prepared_attributes [OF assms(1)]
  obtain msg where m: "length pk = 32" "source_authentication_bytes t (sha256_hex pk) ''ed25519'' = Inr msg" "length (sign msg) = 64"
    "btr_authentication t = Some \<lparr>auth_key_id = sha256_hex pk, auth_signature = sign msg, auth_algorithm = ''ed25519''\<rparr>"
    using prepared_signed [OF assms(1,2) sk(1)] by blast
  have "key_utc (Aware now 0) = Inr now" using assms(5) by (simp add: key_utc_def astimezone_utc_def)
  then have "verify_record_locked (ed25519_ok pr) t (Aware now 0) st = Inr key"
    unfolding verify_record_locked_Inr using m sk at law by (intro exI conjI) (auto simp del: at(5))
  then have verified: "fst (verify_record (ed25519_ok pr) 0 t (Aware now 0) st) = Inr key" by (simp add: verify_record_eq)
  have "is_key_id iss \<noteq> []" using recipient_key_id_Inr [OF assms(4)] by (auto simp: lower_hex_def)
  then have "recipient_private_key pr dag t = Inr (da_private_key dag)"
    using assms(3,4) at(6) by (simp add: recipient_private_key_def expects_source_def Let_def)
  with verified sk(2) assms(2,3) at \<open>is_key_id iss \<noteq> []\<close> show ?thesis
    by (auto simp: authorize_record_at_def expects_source_def split: option.splits)
qed

section \<open>From source to destination\<close>

lemma prepare_record_Inr:
  assumes "prepare_record pr strptime ag r record_id transfer uuid now draws trust = (Inr t, trust')"
    and "recipient_key_at pr ag now trust = (Inr (pk, key_id), trust'')"
  shows "\<exists>iss. prepare_authorized_record pr strptime ag iss r draws = Inr t \<and> is_public_key iss = pk \<and> is_key_id iss = key_id
    \<and> is_issued_at iss = now \<and> is_record_id iss = record_id \<and> trust' = trust''"
  using assms by (auto simp: prepare_record_def Let_def split: sum.splits) fastforce?

text \<open>C6. What a source seals for a destination, that destination opens: a record prepared by the source agent under protocol
  version 3 passes every check of the destination agent that expects this source and owns the recipient key, and opens to exactly
  the values the mapping plan prescribes for the source record, one per rule and in the order of the rules. The laws assumed of the
  cryptographic primitives are that key agreement commutes, opening undoes sealing, and signatures of the source's key verify.\<close>

theorem destination_opens_what_source_sealed:
  assumes "lawful_primitives pr" "sa_protocol_version ag = 3" "expects_source pr dag ag"
    and "recipient_key_at pr ag now trust = (Inr (x25519_public pr (da_private_key dag), key_id), trust'')"
    and "recipient_key_id pr (x25519_public pr (da_private_key dag)) = Inr key_id"
    and "prepare_record pr strptime ag r record_id transfer uuid now draws trust = (Inr t, trust')"
    and "unexpired w (ctx_expires_at (first_context t))"
    and "\<And>rule j v. rule \<in> set (mp_rules (sa_plan ag)) \<Longrightarrow> mapped_value strptime ag r rule = Inr (j, v) \<Longrightarrow> payload_ok v"
  shows "\<exists>kvs. mapE (mapped_value strptime ag r) (mp_rules (sa_plan ag)) = Inr kvs
    \<and> open_record pr dag t w = (Inr kvs, w\<lparr>w_pos := Suc (w_pos w) + length (mp_rules (sa_plan ag))\<rparr>)"
proof -
  obtain iss where iss: "prepare_authorized_record pr strptime ag iss r draws = Inr t"
    "is_public_key iss = x25519_public pr (da_private_key dag)" "is_key_id iss = key_id"
    using prepare_record_Inr [OF assms(6,4)] by blast
  let ?now = "ev_now (w_tape w (w_pos w))" and ?w = "w\<lparr>w_pos := Suc (w_pos w)\<rparr>"
  have "time_valid ?now" using assms(7) by (simp add: unexpired_def)
  then have auth: "authorize_record pr dag t w = (Inr (da_private_key dag), ?w)"
    using authorize_prepared [OF iss(1) assms(2,3)] assms(5) iss(3)
    by (simp add: authorize_record_def bindA_def tick_def lift_result_def ret_def)
  have "unexpired ?w (ctx_expires_at (first_context t))" using assms(7) by simp
  from open_prepared [OF assms(1) iss(1,2) this assms(8)] show ?thesis by (auto simp: open_record_def bindA_def auth)
qed

text \<open>The field's envelope is the encoding of this value, sealed for this public key in the field's own context.\<close>

definition seals_value :: "primitives \<Rightarrow> bytes \<Rightarrow> sealed_field \<Rightarrow> py_value \<Rightarrow> bool" where
  "seals_value pr pk f v = (\<exists>payload now ephemeral nonce. payload_encode v = Inr payload
     \<and> seal_for_recipient pr payload pk (sf_context f) (Aware now 0) ephemeral nonce = Inr (sf_envelope f))"

text \<open>
  What must hold of a rule and the field it sealed: no sensitivity is downgraded; an opaque field, and any field for an
  opaque target, is forwarded under \<open>opaque_forward\<close>; a secret field is copied or forwarded; and what is sealed is the
  value of the source record itself in those cases, and the mapped value otherwise.
\<close>

definition respects_sensitivity :: "primitives \<Rightarrow> bytes \<Rightarrow> (string \<Rightarrow> string \<Rightarrow> py_datetime option) \<Rightarrow> source_agent \<Rightarrow> source_record
    \<Rightarrow> mapping_rule \<Rightarrow> sealed_field \<Rightarrow> bool" where
  "respects_sensitivity pr pk strptime ag r rule f =
     (case (by_id (sa_source_schema ag) (mr_source_field_id rule), by_id (sa_target_schema ag) (mr_target_field_id rule)) of
        (Some source, Some target) \<Rightarrow> sf_target_field_id f = fd_id target \<and> ctx_field_id (sf_context f) = fd_id target
          \<and> sensitivity_rank (fd_sensitivity source) \<le> sensitivity_rank (fd_sensitivity target)
          \<and> (if OPAQUE \<in> {fd_sensitivity source, fd_sensitivity target}
             then mr_transform rule = ''opaque_forward'' \<and> seals_value pr pk f (field_value r (fd_id source))
             else if fd_sensitivity source = SECRET
             then mr_transform rule \<in> {''copy'', ''opaque_forward''} \<and> seals_value pr pk f (field_value r (fd_id source))
             else (case mapped_value strptime ag r rule of Inl _ \<Rightarrow> False | Inr (i, v) \<Rightarrow> i = fd_id target \<and> seals_value pr pk f v))
      | _ \<Rightarrow> False)"

lemma validate_route_Inr:
  assumes "validate_route source target transform = Inr ()"
  shows "sensitivity_rank (fd_sensitivity source) \<le> sensitivity_rank (fd_sensitivity target)"
    and "OPAQUE \<in> {fd_sensitivity source, fd_sensitivity target} \<Longrightarrow> transform = ''opaque_forward''"
    and "fd_sensitivity source = SECRET \<Longrightarrow> transform \<in> {''copy'', ''opaque_forward''}"
  using assms by (auto simp: validate_route_def sensitivity_route_safe_def for_sensitivity_def Let_def)

lemma forwarded_value:
  assumes "transformed_value strptime source rule v = Inr w" "fd_sensitivity source \<in> {SECRET, OPAQUE} \<or> mr_transform rule = ''opaque_forward''"
  shows "w = v"
  using assms by (auto simp: transformed_value_def transform_stage_of_def TRANSFORM_SPECS_def split: if_splits)

lemma seal_field_respects:
  assumes "seal_field pr strptime ag iss x r rule draw = Inr f"
  shows "respects_sensitivity pr (is_public_key iss) strptime ag r rule f"
proof -
  obtain source target v payload envelope where *: "by_id (sa_source_schema ag) (mr_source_field_id rule) = Some source"
    "by_id (sa_target_schema ag) (mr_target_field_id rule) = Some target" "validate_route source target (mr_transform rule) = Inr ()"
    "transformed_value strptime source rule (field_value r (fd_id source)) = Inr v" "payload_encode v = Inr payload"
    "seal_for_recipient pr payload (is_public_key iss) (issue_context ag iss x (mr_target_field_id rule))
        (Aware (sd_now draw) 0) (sd_ephemeral draw) (sd_nonce draw) = Inr envelope"
    "f = \<lparr>sf_target_field_id = mr_target_field_id rule, sf_context = issue_context ag iss x (mr_target_field_id rule),
           sf_envelope = envelope\<rparr>"
    using seal_field_Inr [OF assms] by blast
  have id: "mr_target_field_id rule = fd_id target" using by_id_Some [OF *(2)] by simp
  have sealed: "seals_value pr (is_public_key iss) f v" using *(5,6) unfolding seals_value_def *(7) by auto
  have at: "sf_target_field_id f = fd_id target" "ctx_field_id (sf_context f) = fd_id target" using id by (simp_all add: *(7) issue_context_def)
  note route = validate_route_Inr [OF *(3)] and raw = forwarded_value [OF *(4)]
  have mapped: "mapped_value strptime ag r rule = Inr (fd_id target, v)" using *(1,4) id by (simp add: mapped_value_def)
  show ?thesis
  proof (cases "OPAQUE \<in> {fd_sensitivity source, fd_sensitivity target}")
    case True
    then have "mr_transform rule = ''opaque_forward''" "v = field_value r (fd_id source)" using route(2) raw by auto
    then show ?thesis using True *(1,2) at route(1) sealed by (simp add: respects_sensitivity_def)
  next
    case False
    show ?thesis
    proof (cases "fd_sensitivity source = SECRET")
      case True
      then have "mr_transform rule \<in> {''copy'', ''opaque_forward''}" "v = field_value r (fd_id source)" using route(3) raw by auto
      then show ?thesis using False True *(1,2) at route(1) sealed by (simp add: respects_sensitivity_def)
    qed (use False *(1,2) at route(1) sealed mapped in \<open>simp add: respects_sensitivity_def\<close>)
  qed
qed

lemma seal_fields_respect:
  "seal_fields pr strptime ag iss x r draws i rules = Inr fs \<Longrightarrow>
     list_all2 (respects_sensitivity pr (is_public_key iss) strptime ag r) rules fs"
  by (induction rules arbitrary: i fs) (auto dest: seal_field_respects)

text \<open>C7. No route leaks downwards: every field of a prepared record leads from an existing source field to a target of at least
  its sensitivity. An opaque field, and every field of an opaque target, is only ever forwarded under \<open>opaque_forward\<close>, a secret one
  only copied or forwarded, and the envelope is the source value itself, as it stands in the record, sealed for the
  recipient key that the agent resolved. Every other field is the mapped value, sealed for the same key.\<close>

theorem sealed_fields_respect_sensitivity:
  assumes "prepare_record pr strptime ag r record_id transfer uuid now draws trust = (Inr t, trust')"
  shows "\<exists>pk key_id. recipient_key_at pr ag now trust = (Inr (pk, key_id), trust')
    \<and> list_all2 (respects_sensitivity pr pk strptime ag r) (mp_rules (sa_plan ag)) (btr_fields t)"
proof -
  obtain recipient trust'' where at: "recipient_key_at pr ag now trust = (recipient, trust'')" by force
  obtain pk key_id iss where "recipient = Inr (pk, key_id)" "prepare_authorized_record pr strptime ag iss r draws = Inr t"
    "is_public_key iss = pk" "trust' = trust''"
    using assms at by (auto simp: prepare_record_def Let_def split: sum.splits) fastforce?
  then show ?thesis using at prepared_Inr seal_fields_respect by blast
qed

section \<open>Batches\<close>

definition records_wire_bytes :: "transport_record list \<Rightarrow> int" where
  "records_wire_bytes ts = sum_list (map (\<lambda>t. int (length (canonical_wire_bytes t))) ts)"

text \<open>What the loop establishes, from any point on.\<close>

lemma seal_batch_Inr:
  assumes "seal_batch pr strptime ag b transfer limit clock draws index seen sealed_bytes records ids = Inr ts"
    and "sealed_bytes \<le> limit" "index \<le> MAX_SOURCE_BATCH_RECORDS"
  shows "map btr_record_id ts = ids \<and> length ts = length records \<and> distinct ids \<and> set ids \<inter> set seen = {}
    \<and> index + length records \<le> MAX_SOURCE_BATCH_RECORDS \<and> sealed_bytes + records_wire_bytes ts \<le> limit
    \<and> list_all (\<lambda>t. transfer_id t = transfer \<and> (\<exists>now pk. batch_recipient_at ag b now = Inr (pk, ctx_recipient_key_id (first_context t)))) ts"
  using assms
proof (induction records arbitrary: index seen sealed_bytes ids ts)
  case Nil
  then show ?case by (cases ids) (simp_all add: records_wire_bytes_def)
next
  case (Cons r records)
  obtain i is' where ids: "ids = i # is'" using Cons.prems(1) by (cases ids) simp_all
  let ?iss = "\<lambda>pk k. \<lparr>is_record_id = i, is_transfer_id = transfer, is_issued_at = clock index, is_public_key = pk, is_key_id = k\<rparr>"
  obtain pk k t rest where recipient: "batch_recipient_at ag b (clock index) = Inr (pk, k)"
    and t: "prepare_authorized_record pr strptime ag (?iss pk k) r (draws index) = Inr t"
    and rest: "seal_batch pr strptime ag b transfer limit clock draws (Suc index) (i # seen)
        (sealed_bytes + int (length (canonical_wire_bytes t))) records is' = Inr rest"
    and ts: "ts = t # rest" and guards: "\<not> MAX_SOURCE_BATCH_RECORDS \<le> index" "i \<notin> set seen"
      "\<not> limit < sealed_bytes + int (length (canonical_wire_bytes t))"
    using Cons.prems(1) unfolding ids by (auto simp: Let_def)
  note at = prepared_attributes [OF t] and p = prepared_Inr [OF t]
  have "map btr_record_id rest = is' \<and> length rest = length records \<and> distinct is' \<and> set is' \<inter> set (i # seen) = {}
    \<and> Suc index + length records \<le> MAX_SOURCE_BATCH_RECORDS \<and> sealed_bytes + int (length (canonical_wire_bytes t)) + records_wire_bytes rest \<le> limit
    \<and> list_all (\<lambda>t. transfer_id t = transfer \<and> (\<exists>now pk. batch_recipient_at ag b now = Inr (pk, ctx_recipient_key_id (first_context t)))) rest"
    using guards by (intro Cons.IH [OF rest]) simp_all
  moreover have "batch_recipient_at ag b (clock index) = Inr (pk, ctx_recipient_key_id (first_context t))"
    using recipient at(6) by simp
  ultimately show ?case using p at(8) guards(2) unfolding ts ids
    by (auto simp: records_wire_bytes_def)
qed

lemma refresh_current_Inr:
  assumes "refresh_current pr st entry = (Inr c, st')"
  shows "ks_current st' = Some c \<and> (st' = st \<or> ks_head_revision st' = Suc (ks_head_revision st))"
proof -
  have "ks_head_revision (adopt_state st head) = Suc (ks_head_revision st)" for head by (cases head) (simp add: adopt_state_def)
  then have "reload_state_if_changed pr st entry = Inr st1 \<Longrightarrow> st1 = st \<or> ks_head_revision st1 = Suc (ks_head_revision st)" for st1
    by (auto simp: reload_state_if_changed_def split: if_splits)
  with assms show ?thesis by (auto simp: refresh_current_def split: if_splits sum.splits option.splits)
qed

text \<open>C15. A prepared batch is complete and bounded: it has one record per source record, in order, under the given record ids,
  which are pairwise different; all records belong to the one transfer; there are at most 10000 of them and their wire forms
  together stay within the byte limit, at most 64 MiB; and with a recipient trust store every record is sealed to the one key
  that is the store's head when the batch is confirmed.\<close>

theorem prepared_batch_is_complete:
  assumes "prepare_records pr strptime ag records ids (Some transfer) uuid limit clock draws entry' trust = (Inr ts, trust')"
  shows "map btr_record_id ts = ids \<and> length ts = length records \<and> distinct ids \<and> length ts \<le> 10000
    \<and> records_wire_bytes ts \<le> limit \<and> limit \<le> 64 * 1024 * 1024 \<and> list_all (\<lambda>t. transfer_id t = transfer) ts
    \<and> (case trust' of None \<Rightarrow> trust = None
       | Some (st, entry) \<Rightarrow> (\<exists>c. ks_current st = Some c
           \<and> list_all (\<lambda>t. ctx_recipient_key_id (first_context t) = snd (certified_recipient ag c)) ts))"
proof -
  have limit: "1 \<le> limit" "limit \<le> DEFAULT_SOURCE_BATCH_WIRE_BYTES"
    using assms by (auto simp: prepare_records_def raise_if_def split: if_splits)
  define run where "run b = seal_batch pr strptime ag b transfer limit clock draws 0 [] 0 records ids" for b
  note prepared = assms [unfolded prepare_records_def]
  have batch: "map btr_record_id ts = ids \<and> length ts = length records \<and> distinct ids \<and> length ts \<le> 10000
    \<and> records_wire_bytes ts \<le> limit
    \<and> list_all (\<lambda>t. transfer_id t = transfer \<and> (\<exists>now pk. batch_recipient_at ag b now = Inr (pk, ctx_recipient_key_id (first_context t)))) ts"
    if "run b = Inr ts" for b
    using seal_batch_Inr [OF that [unfolded run_def]] limit by (simp add: MAX_SOURCE_BATCH_RECORDS_def)
  show ?thesis
  proof (cases trust)
    case None
    with assms obtain k where "run (Static k) = Inr ts" "trust' = None"
      by (auto simp: prepare_records_def run_def split: sum.splits)
    with batch [OF this(1)] None limit show ?thesis by (simp add: list_all_iff DEFAULT_SOURCE_BATCH_WIRE_BYTES_def)
  next
    case (Some te)
    obtain st entry where te: "trust = Some (st, entry)" using Some by (cases te) simp
    obtain a st1 st2 where begun: "begin_batch_authorization pr (sa_tenant ag) (sa_destination_connector_id ag) st entry = (Inr a, st1)"
      and sealed: "run (Authorized st1 a) = Inr ts"
      and confirmed: "confirm_batch_authorization pr a st1 entry' = (Inr (), st2)" and trust': "trust' = Some (st2, entry')"
      using assms unfolding te prepare_records_def run_def
      by (auto simp: Let_def split: sum.splits prod.splits)
    obtain c where c: "refresh_current pr st1 entry' = (Inr c, st2)" "ks_head_revision st2 = ba_head_revision a"
      using confirmed by (auto simp: confirm_batch_authorization_def Let_def split: if_splits prod.splits)
    obtain d where d: "refresh_current pr st entry = (Inr d, st1)" "ba_certificate a = d" "ba_head_revision a = ks_head_revision st1"
      using begun by (auto simp: begin_batch_authorization_def Let_def split: if_splits prod.splits)
    have head: "ks_current st2 = Some c" "ks_current st1 = Some (ba_certificate a)" "st2 = st1"
      using refresh_current_Inr [OF c(1)] refresh_current_Inr [OF d(1)] c(2) d(2,3) by auto
    then have "batch_recipient_at ag (Authorized st1 a) now = Inr (pk, k) \<Longrightarrow> k = snd (certified_recipient ag c)" for now pk k
      by (auto simp: batch_recipient_at_def authorize_batch_record_def)
    with batch [OF sealed] head trust' limit show ?thesis
      by (auto simp: list_all_iff DEFAULT_SOURCE_BATCH_WIRE_BYTES_def)
  qed
qed

end
