(* ===== verification/RecipientRotation.thy ===== *)
theory RecipientRotation
  imports RecipientTrust
begin

text \<open>
  What the recipient trust store guarantees: the accepted certificates form one signed chain without reused keys, its
  head is always signed by the pinned identity whatever happens to the file, a batch is confirmed only when the head
  stayed as it was, and the published state is read back by the next process.
\<close>

section \<open>Steps of a store and its file\<close>

text \<open>Certificates a store may hold: signed by its pinned identity, for its route.\<close>

definition trusted :: "primitives \<Rightarrow> key_store \<Rightarrow> key_certificate \<Rightarrow> bool" where
  "trusted pr st c = (kc_identity_key_id c = ks_identity_key_id st \<and> kc_tenant c = ks_tenant st
     \<and> kc_destination_connector c = ks_destination_connector st
     \<and> ed25519_ok pr (ks_identity_public_key st) (certificate_signing_bytes c) (kc_signature c))"

definition pinned :: "key_store \<Rightarrow> bytes \<times> string \<times> string \<times> string \<times> bool \<times> nat" where
  "pinned st = (ks_identity_public_key st, ks_identity_key_id st, ks_tenant st, ks_destination_connector st, ks_has_path st, ks_token st)"

inductive trust_step :: "primitives \<Rightarrow> key_store \<times> path_entry \<Rightarrow> key_store \<times> path_entry \<Rightarrow> bool" for pr where
  Accept: "certificate_ok pr c \<Longrightarrow> accept_certificate pr c now pb s = (r, s') \<Longrightarrow> trust_step pr s s'"
| Refresh: "refresh_current pr st entry = (r, st') \<Longrightarrow> trust_step pr (st, entry) (st', entry)"
| External: "trust_step pr (st, entry) (st, entry')"

lemma trusted_pinned: "pinned st' = pinned st \<Longrightarrow> trusted pr st' c = trusted pr st c"
  by (simp add: trusted_def pinned_def)

lemma verify_certificate_trusted: "verify_certificate pr st c now = Inr u \<Longrightarrow> trusted pr st c"
  by (auto simp: verify_certificate_def trusted_def verify_ed25519_def)

lemma read_used_key_ids_Inr:
  "read_used_key_ids used vs = Inr used' \<Longrightarrow> distinct used \<Longrightarrow> list_all (lower_hex 64) used \<Longrightarrow>
     distinct used' \<and> list_all (lower_hex 64) used' \<and> length used' = length used + length vs"
  by (induction used vs rule: read_used_key_ids.induct)
    (fastforce simp: check_key_id_def split: json.splits)+

definition head_ok :: "primitives \<Rightarrow> key_store \<Rightarrow> key_certificate \<Rightarrow> string list \<Rightarrow> bool" where
  "head_ok pr st c used = (trusted pr st c \<and> certificate_ok pr c \<and> kc_key_id c \<in> set used
     \<and> distinct used \<and> list_all (lower_hex 64) used \<and> length used \<le> MAX_USED_KEY_IDS)"

lemma field_validation_Inr: "field_validation r = Inr c \<longleftrightarrow> r = Inr c"
  by (auto simp: field_validation_def split: sum.splits err.splits)

lemma certificate_from_wire_ok:
  assumes "certificate_from_wire pr j = Inr c"
  shows "certificate_ok pr c"
proof -
  obtain payload where j: "j = JObj payload" using assms by (cases j) (simp_all add: certificate_from_wire_def)
  have "\<exists>d i n x. RecipientKeyCertificate pr d i n x = Inr c"
    using assms [unfolded certificate_from_wire_def j json.case]
    by (simp only: bindE_Inr_iff raise_if_Inr field_validation_Inr sum.inject) blast
  then show ?thesis using constructed_ok by blast
qed

lemma read_state_Inr:
  assumes "read_state pr st entry = Inr (c, used, fp)"
  shows "head_ok pr st c used"
proof -
  obtain raw fp' where raw: "read_bounded entry = Inr (raw, fp')" using assms by (cases "read_bounded entry") (auto simp: read_state_def)
  then obtain payload where p: "decode_utf8_sig raw = Some (JObj payload)"
    using assms by (cases "decode_utf8_sig raw"; simp add: read_state_def) (auto split: json.splits)
  define history where "history = (case map_of payload ''used_key_ids'' of
      Some (JArr vs) \<Rightarrow> raise_if (MAX_USED_KEY_IDS < length vs)
        (ProtocolError ''recipient key trust state used-key history is invalid'') (read_used_key_ids [] vs)
    | _ \<Rightarrow> Inl (ProtocolError ''recipient key trust state used-key history is invalid''))"
  have h: "verify_certificate pr st c None = Inr () \<and> kc_key_id c \<in> set used \<and> history = Inr used
      \<and> certificate_from_wire pr (the (map_of payload ''current_certificate'')) = Inr c"
    using assms unfolding read_state_def raw
    by (simp only: p history_def [symmetric] bindE_simps prod.case option.case json.case raise_if_Inr bindE_Inr_iff sum.inject prod.inject) force
  then obtain vs where "read_used_key_ids [] vs = Inr used" "length vs \<le> MAX_USED_KEY_IDS"
    by (auto simp: history_def not_less split: option.splits json.splits)
  with h show ?thesis
    using read_used_key_ids_Inr [of "[]" vs used] verify_certificate_trusted certificate_from_wire_ok by (auto simp: head_ok_def)
qed

definition store_ok :: "primitives \<Rightarrow> key_store \<Rightarrow> bool" where
  "store_ok pr st = (case ks_current st of None \<Rightarrow> ks_used_key_ids st = []
     | Some c \<Rightarrow> head_ok pr st c (ks_used_key_ids st))"

lemma adopt_state_ok:
  assumes "read_state pr st entry = Inr head"
  shows "store_ok pr (adopt_state st head) \<and> pinned (adopt_state st head) = pinned st
    \<and> ks_head_revision (adopt_state st head) = Suc (ks_head_revision st)"
proof -
  obtain c used fp where head: "head = (c, used, fp)" by (cases head)
  have "head_ok pr st c used" using read_state_Inr [OF assms [unfolded head]] by blast
  then show ?thesis by (simp add: head adopt_state_def store_ok_def head_ok_def pinned_def trusted_def)
qed

lemma reload_ok:
  assumes "reload_state_if_changed pr st entry = Inr st'" "store_ok pr st"
  shows "store_ok pr st' \<and> pinned st' = pinned st \<and> (st' = st \<or> ks_head_revision st' = Suc (ks_head_revision st))"
  using assms adopt_state_ok by (auto simp: reload_state_if_changed_def split: if_splits)

lemma accept_transition_Inr:
  assumes "accept_transition pr st c now = Inr (st', changed)"
  shows "if changed then st' = st\<lparr>ks_current := Some c, ks_used_key_ids := List.insert (kc_key_id c) (ks_used_key_ids st)\<rparr>
      \<and> trusted pr st c
      \<and> (case ks_current st of
           None \<Rightarrow> ks_used_key_ids st = [] \<and> kc_generation c = 1 \<and> kc_previous_key_id c = None
         | Some d \<Rightarrow> kc_generation c = kc_generation d + 1 \<and> kc_previous_key_id c = Some (kc_key_id d)
             \<and> kc_issued_at d \<le> kc_issued_at c \<and> kc_key_id c \<notin> set (ks_used_key_ids st)
             \<and> length (ks_used_key_ids st) < MAX_USED_KEY_IDS)
    else st' = st"
  using assms verify_certificate_trusted [of pr st c "Some now"]
  by (auto simp: accept_transition_def Let_def not_le split: option.splits if_splits)

lemma accept_transition_ok:
  assumes "accept_transition pr st c now = Inr (st', changed)" "store_ok pr st" "certificate_ok pr c"
  shows "store_ok pr st' \<and> pinned st' = pinned st \<and> ks_head_revision st' = ks_head_revision st"
proof (cases changed)
  case True
  then show ?thesis
    using accept_transition_Inr [OF assms(1)] assms(2) certificate_okD(2) [OF assms(3)] assms(3)
    by (auto simp: store_ok_def head_ok_def pinned_def list_all_iff trusted_def MAX_USED_KEY_IDS_def distinct_insert split: option.splits)
next
  case False
  with accept_transition_Inr [OF assms(1)] assms(2) show ?thesis by simp
qed

text \<open>A step keeps the head of the store, or its revision grows.\<close>

definition evolves :: "primitives \<Rightarrow> key_store \<Rightarrow> key_store \<Rightarrow> bool" where
  "evolves pr st st' = (store_ok pr st' \<and> pinned st' = pinned st \<and> (st' = st \<or> ks_head_revision st < ks_head_revision st'))"

lemma evolves_refl: "store_ok pr st \<Longrightarrow> evolves pr st st"
  by (simp add: evolves_def)

lemma evolves_trans: "evolves pr a b \<Longrightarrow> evolves pr b c \<Longrightarrow> evolves pr a c"
  by (auto simp: evolves_def)

lemma reload_evolves: "reload_state_if_changed pr st entry = Inr st' \<Longrightarrow> store_ok pr st \<Longrightarrow> evolves pr st st'"
  using reload_ok by (fastforce simp: evolves_def)

lemma refresh_evolves:
  assumes "refresh_current pr st entry = (r, st')" "store_ok pr st"
  shows "evolves pr st st' \<and> (\<forall>c. r = Inr c \<longrightarrow> ks_current st' = Some c)"
  using assms reload_evolves [of pr st entry] evolves_refl [of pr st]
  by (auto simp: refresh_current_def split: if_splits sum.splits option.splits)

lemma bump_ok: "store_ok pr (st\<lparr>ks_head_revision := n\<rparr>) = store_ok pr st" "pinned (st\<lparr>ks_head_revision := n\<rparr>) = pinned st"
  "store_ok pr (st\<lparr>ks_fingerprint := f\<rparr>) = store_ok pr st" "pinned (st\<lparr>ks_fingerprint := f\<rparr>) = pinned st"
  by (simp_all add: store_ok_def head_ok_def trusted_def pinned_def split: option.splits)

lemma restored_ok:
  assumes "store_ok pr st1" "pinned st = pinned st1"
  shows "store_ok pr (st\<lparr>ks_head_revision := n, ks_current := ks_current st1, ks_used_key_ids := ks_used_key_ids st1, ks_fingerprint := None\<rparr>)
    \<and> pinned (st\<lparr>ks_head_revision := n, ks_current := ks_current st1, ks_used_key_ids := ks_used_key_ids st1, ks_fingerprint := None\<rparr>) = pinned st1"
  using assms by (simp add: store_ok_def head_ok_def trusted_def pinned_def split: option.splits)

text \<open>The change an accepted transition makes once it is in memory.\<close>

lemma transition_evolves:
  assumes "accept_transition pr st c now = Inr (st', changed)" "store_ok pr st" "certificate_ok pr c"
  shows "evolves pr st (if changed then st'\<lparr>ks_head_revision := Suc (ks_head_revision st')\<rparr> else st')"
  using accept_transition_ok [OF assms] accept_transition_Inr [OF assms(1)]
  by (simp add: evolves_def bump_ok split: if_splits)

lemma accept_evolves:
  assumes "accept_certificate pr c now pb (st, entry) = (r, st', entry')" "store_ok pr st" "certificate_ok pr c"
  shows "evolves pr st st'"
proof (cases "ks_has_path st")
  case False
  with assms transition_evolves [of pr st c now] evolves_refl show ?thesis
    by (fastforce simp: accept_certificate_def split: sum.splits if_splits)
next
  case True
  define start where "start = (case entry of
      Missing \<Rightarrow> raise_if (ks_current st \<noteq> None) (IntegrityError ''recipient key trust state disappeared'') (Inr st)
    | _ \<Rightarrow> reload_state_if_changed pr st entry)"
  note accept = assms(1) [unfolded accept_certificate_def prod.case start_def [symmetric]]
  show ?thesis
  proof (cases start)
    case (Inl e)
    with accept True evolves_refl [OF assms(2)] show ?thesis by simp
  next
    case (Inr st1)
    then have 1: "evolves pr st st1"
      using reload_evolves assms(2) evolves_refl by (auto simp: start_def split: path_entry.splits)
    then have ok: "store_ok pr st1" by (simp add: evolves_def)
    show ?thesis
    proof (cases "accept_transition pr st1 c now")
      case (Inl e)
      with accept True Inr 1 show ?thesis by simp
    next
      case (Inr out)
      obtain st2 changed where out: "accept_transition pr st1 c now = Inr (st2, changed)" using Inr by (cases out) simp
      let ?st3 = "st2\<lparr>ks_head_revision := Suc (ks_head_revision st2)\<rparr>"
      note step = transition_evolves [OF out ok assms(3)] accept_transition_ok [OF out ok assms(3)]
      have st': "st' = st2 \<and> \<not> changed \<or> changed \<and> (st' = ?st3 \<or> st' = ?st3\<lparr>ks_fingerprint := Some (pb_fingerprint pb)\<rparr>
          \<or> st' = ?st3\<lparr>ks_current := ks_current st1, ks_used_key_ids := ks_used_key_ids st1, ks_fingerprint := None\<rparr>)"
        using accept True \<open>start = Inr st1\<close> out by (simp add: Let_def split: if_splits option.splits)
      have "evolves pr st1 st'"
        using st' step restored_ok [OF ok, of st2 "Suc (ks_head_revision st2)"]
        by (elim disjE conjE) (simp_all add: evolves_def bump_ok)
      with 1 show ?thesis by (rule evolves_trans)
    qed
  qed
qed

lemma trust_step_evolves: "trust_step pr s s' \<Longrightarrow> store_ok pr (fst s) \<Longrightarrow> evolves pr (fst s) (fst s')"
  by (induction rule: trust_step.induct) (auto dest: accept_evolves refresh_evolves simp: evolves_refl)

lemma trust_steps_evolve:
  assumes "(trust_step pr)\<^sup>*\<^sup>* s s'" "store_ok pr (fst s)"
  shows "evolves pr (fst s) (fst s')"
  using assms
proof (induction rule: rtranclp_induct)
  case base
  then show ?case by (rule evolves_refl)
next
  case (step s1 s2)
  then have "evolves pr (fst s) (fst s1)" by simp
  moreover from this have "evolves pr (fst s1) (fst s2)" using trust_step_evolves [OF step.hyps(2)] by (simp add: evolves_def)
  ultimately show ?case by (rule evolves_trans)
qed

lemma opened_ok:
  assumes "RecipientKeyTrustStore pr identity t d entry token = Inr st"
  shows "store_ok pr st \<and> ks_identity_public_key st = identity \<and> ks_tenant st = t \<and> ks_destination_connector st = d"
proof -
  obtain i where i: "signing_key_id identity = Inr i" using assms by (auto simp: RecipientKeyTrustStore_def)
  define st0 where "st0 = new_store identity i t d (entry \<noteq> None) token"
  have "st = st0 \<or> (\<exists>e head. read_state pr st0 e = Inr head \<and> st = adopt_state st0 head)"
    using assms unfolding RecipientKeyTrustStore_def
    by (auto simp: i Let_def st0_def split: option.splits path_entry.splits)
  moreover have "store_ok pr st0" by (simp add: store_ok_def st0_def new_store_def)
  ultimately show ?thesis using adopt_state_ok by (fastforce simp: pinned_def st0_def new_store_def)
qed

text \<open>C16. A recipient trust store is only ever headed by a certificate that the pinned identity signed, for the store's
  tenant and destination: whatever certificates are offered to it, and whatever other processes put in place of its file,
  every key it hands out for sealing is bound to its route by that identity's signature, and is in its history of used keys.\<close>

theorem head_is_pinned:
  assumes "RecipientKeyTrustStore pr identity t d entry token = Inr st"
    and "(trust_step pr)\<^sup>*\<^sup>* (st, e0) (st1, e1)"
    and "authorize_recipient pr t' d' now st1 e2 = (Inr c, st2)"
  shows "t' = t \<and> d' = d \<and> kc_tenant c = t \<and> kc_destination_connector c = d
    \<and> ed25519_ok pr identity (certificate_signing_bytes c) (kc_signature c) \<and> kc_key_id c \<in> set (ks_used_key_ids st2)"
proof -
  have ok: "store_ok pr st" and pin: "ks_identity_public_key st = identity" "ks_tenant st = t" "ks_destination_connector st = d"
    using opened_ok [OF assms(1)] by simp_all
  have "evolves pr st st1" using trust_steps_evolve [OF assms(2)] ok by simp
  moreover obtain r where r: "refresh_current pr st1 e2 = (r, st2)" "r = Inr c" "t' = ks_tenant st1" "d' = ks_destination_connector st1"
    using assms(3) by (auto simp: authorize_recipient_def current_certificate_def Let_def split: if_splits prod.splits)
  ultimately have "evolves pr st st2" "ks_current st2 = Some c" "pinned st1 = pinned st"
    using refresh_evolves [OF r(1)] evolves_trans by (auto simp: evolves_def)
  then have "trusted pr st2 c" "kc_key_id c \<in> set (ks_used_key_ids st2)" "pinned st2 = pinned st" "pinned st1 = pinned st"
    by (auto simp: evolves_def store_ok_def head_ok_def)
  with r pin show ?thesis by (auto simp: trusted_def pinned_def)
qed

section \<open>Batches\<close>

text \<open>C10. A source batch is confirmed only when the trust head did not move while it was sealed: from the start of the batch to
  its confirmation, with any number of certificates offered, refreshes, failed publications and foreign writes of the file in
  between, the store is exactly as it was, and a store with a path finds its file with the fingerprint it had.\<close>

theorem confirmed_batch_kept_its_head:
  assumes "RecipientKeyTrustStore pr identity t d entry token = Inr st0" "(trust_step pr)\<^sup>*\<^sup>* (st0, e0) (st, e)"
    and "begin_batch_authorization pr t' d' st e = (Inr a, st1)" "(trust_step pr)\<^sup>*\<^sup>* (st1, e1) (st2, e2)"
    and "confirm_batch_authorization pr a st2 e3 = (Inr (), st3)"
  shows "st2 = st1 \<and> st3 = st1 \<and> ks_current st1 = Some (ba_certificate a)
    \<and> (if ks_has_path st1 then \<exists>fp data. e3 = Regular fp data \<and> ks_fingerprint st1 = Some fp else True)"
proof -
  have "store_ok pr st" using trust_steps_evolve [OF assms(2)] opened_ok [OF assms(1)] by (simp add: evolves_def)
  moreover obtain r where r: "refresh_current pr st e = (r, st1)" "r = Inr (ba_certificate a)"
    "ba_store_token a = ks_token st1" "ba_head_revision a = ks_head_revision st1" "ba_fingerprint a = ks_fingerprint st1"
    using assms(3) by (auto simp: begin_batch_authorization_def Let_def split: if_splits prod.splits)
  ultimately have 1: "store_ok pr st1" "ks_current st1 = Some (ba_certificate a)"
    using refresh_evolves [OF r(1)] by (auto simp: evolves_def)
  have 2: "evolves pr st1 st2" using trust_steps_evolve [OF assms(4)] 1(1) by simp
  obtain c where c: "refresh_current pr st2 e3 = (Inr c, st3)" "ks_head_revision st3 = ks_head_revision st1"
    "ks_fingerprint st3 = ks_fingerprint st1"
    using assms(5) r by (auto simp: confirm_batch_authorization_def Let_def split: if_splits prod.splits)
  have 3: "evolves pr st2 st3" using refresh_evolves [OF c(1)] 2 by (simp add: evolves_def)
  with 2 c(2) have "st2 = st1" "st3 = st1" by (auto simp: evolves_def)
  moreover have "\<exists>fp data. e3 = Regular fp data \<and> ks_fingerprint st1 = Some fp" if "ks_has_path st1"
  proof -
    have "reload_state_if_changed pr st1 e3 = Inr st1"
      using c(1) that \<open>st2 = st1\<close> \<open>st3 = st1\<close> by (simp add: refresh_current_def split: if_splits sum.splits option.splits)
    moreover have "adopt_state st1 head \<noteq> st1" for head
    proof
      assume "adopt_state st1 head = st1"
      then have "ks_head_revision (adopt_state st1 head) = ks_head_revision st1" by simp
      then show False by (cases head) (simp add: adopt_state_def)
    qed
    ultimately show ?thesis
      by (auto simp: reload_state_if_changed_def path_fingerprint_def split: path_entry.splits if_splits)
  qed
  ultimately show ?thesis using 1(2) by simp
qed

section \<open>The chain of accepted certificates\<close>

text \<open>The heads of a store without a file, when certificates are offered to it one after the other.\<close>

fun accepted_heads :: "primitives \<Rightarrow> key_certificate list \<Rightarrow> key_store \<Rightarrow> (key_certificate \<times> py_datetime \<times> publication) list
    \<Rightarrow> key_certificate list \<times> key_store" where
  "accepted_heads pr heads st [] = (heads, st)"
| "accepted_heads pr heads st ((c, now, pb) # offers) =
     (let (r, st', e) = accept_certificate pr c now pb (st, Missing)
      in accepted_heads pr (if ks_head_revision st' = ks_head_revision st then heads else heads @ [c]) st' offers)"

definition chained :: "primitives \<Rightarrow> key_certificate list \<Rightarrow> key_store \<Rightarrow> bool" where
  "chained pr hs st = (map kc_generation hs = map int [1..<Suc (length hs)]
     \<and> map kc_previous_key_id hs = take (length hs) (None # map (\<lambda>h. Some (kc_key_id h)) hs)
     \<and> distinct (map kc_key_id hs) \<and> sorted (map kc_issued_at hs) \<and> length hs \<le> MAX_USED_KEY_IDS
     \<and> list_all (trusted pr st) hs \<and> ks_current st = (if hs = [] then None else Some (last hs))
     \<and> set (ks_used_key_ids st) = kc_key_id ` set hs \<and> length (ks_used_key_ids st) = length hs)"

lemma chained_keep: "chained pr hs st \<Longrightarrow> chained pr hs (st\<lparr>ks_head_revision := n\<rparr>)"
  by (simp add: chained_def trusted_def [abs_def])

lemma take_snoc_shift: "take (length (hs @ [c])) (x # map f (hs @ [c])) = take (length hs) (x # map f hs) @ [if hs = [] then x else f (last hs)]"
  by (cases hs rule: rev_cases) simp_all

lemma chained_step:
  assumes "accept_transition pr st c now = Inr (st', True)" "chained pr hs st"
  shows "chained pr (hs @ [c]) st'"
proof -
  note t = accept_transition_Inr [OF assms(1), simplified]
  from t have st': "st' = st\<lparr>ks_current := Some c, ks_used_key_ids := List.insert (kc_key_id c) (ks_used_key_ids st)\<rparr>" by blast
  have trusted: "list_all (trusted pr st') (hs @ [c])"
    using t assms(2) by (simp add: chained_def st' trusted_def [abs_def])
  show ?thesis
  proof (cases hs rule: rev_cases)
    case Nil
    then have "ks_current st = None" using assms(2) by (simp add: chained_def)
    with t trusted Nil show ?thesis by (simp add: chained_def st' MAX_USED_KEY_IDS_def)
  next
    case (snoc gs d)
    then have cur: "ks_current st = Some d" using assms(2) by (simp add: chained_def)
    with t have new: "kc_generation c = kc_generation d + 1" "kc_previous_key_id c = Some (kc_key_id d)"
      "kc_issued_at d \<le> kc_issued_at c" "kc_key_id c \<notin> set (ks_used_key_ids st)" "length (ks_used_key_ids st) < MAX_USED_KEY_IDS"
      by simp_all
    have last: "kc_generation d = int (length hs)" using assms(2) snoc by (simp add: chained_def)
    have issued: "\<forall>x \<in> set hs. kc_issued_at x \<le> kc_issued_at c"
      using assms(2) new(3) unfolding chained_def snoc by (fastforce simp: sorted_append)
    have "map kc_previous_key_id (hs @ [c]) = take (length (hs @ [c])) (None # map (\<lambda>h. Some (kc_key_id h)) (hs @ [c]))"
      unfolding take_snoc_shift using assms(2) new(2) snoc by (simp add: chained_def)
    moreover have "sorted (map kc_issued_at (hs @ [c]))" using assms(2) issued by (simp add: chained_def sorted_append)
    moreover have "map kc_generation (hs @ [c]) = map int [1..<Suc (length (hs @ [c]))]"
      using assms(2) new(1) last by (simp add: chained_def)
    ultimately show ?thesis
      using trusted assms(2) new(4,5) by (simp add: chained_def st' insert_commute image_iff)
  qed
qed

lemma accepted_heads_chained:
  assumes "chained pr hs st" "\<not> ks_has_path st"
  shows "chained pr (fst (accepted_heads pr hs st offers)) (snd (accepted_heads pr hs st offers))"
  using assms
proof (induction pr hs st offers rule: accepted_heads.induct)
  case (2 pr hs st c now pb offers)
  obtain r st' e where a: "accept_certificate pr c now pb (st, Missing) = (r, st', e)" by (metis prod.exhaust)
  let ?hs = "if ks_head_revision st' = ks_head_revision st then hs else hs @ [c]"
  have "chained pr ?hs st' \<and> \<not> ks_has_path st'"
  proof (cases "accept_transition pr st c now")
    case (Inl x)
    with a 2 show ?thesis by (simp add: accept_certificate_def)
  next
    case (Inr out)
    obtain st1 changed where out: "accept_transition pr st c now = Inr (st1, changed)" using Inr by (cases out) simp
    note t = accept_transition_Inr [OF out]
    show ?thesis
    proof (cases changed)
      case True
      with a out 2 have "st' = st1\<lparr>ks_head_revision := Suc (ks_head_revision st1)\<rparr>" by (simp add: accept_certificate_def)
      moreover have "chained pr (hs @ [c]) st1" using chained_step [OF _ 2(2)] out True by simp
      ultimately show ?thesis using t True 2(3) chained_keep by simp
    next
      case False
      with a out t 2 show ?thesis by (simp add: accept_certificate_def)
    qed
  qed
  then show ?case using 2(1) [OF a [symmetric] refl] a by simp
qed simp

text \<open>C9. Whatever certificates are offered to a fresh store, in whatever order and at whatever times, the ones it accepts form
  one chain: their generations count up from 1, each names the key before it, no key comes back, issuance times never move
  backwards, every one is signed by the pinned identity for the route, and there are at most 512 of them.\<close>

theorem accepted_keys_form_a_chain:
  "case accepted_heads pr [] (new_store identity identity_id t d False token) offers of (hs, st) \<Rightarrow>
     map kc_generation hs = map int [1..<Suc (length hs)]
     \<and> map kc_previous_key_id hs = take (length hs) (None # map (\<lambda>h. Some (kc_key_id h)) hs)
     \<and> distinct (map kc_key_id hs) \<and> sorted (map kc_issued_at hs) \<and> length hs \<le> 512
     \<and> list_all (trusted pr st) hs \<and> ks_current st = (if hs = [] then None else Some (last hs))"
proof -
  have "chained pr [] (new_store identity identity_id t d False token)" "\<not> ks_has_path (new_store identity identity_id t d False token)"
    by (simp_all add: chained_def new_store_def MAX_USED_KEY_IDS_def)
  note chain = accepted_heads_chained [OF this, of offers]
  obtain hs st where run: "accepted_heads pr [] (new_store identity identity_id t d False token) offers = (hs, st)" by force
  from chain show ?thesis unfolding run by (simp only: chained_def MAX_USED_KEY_IDS_def fst_conv snd_conv prod.case)
qed

end
