(* ===== verification/RecipientState.thy ===== *)
theory RecipientState
  imports RecipientRotation
begin

text \<open>
  The trust state on disk: a published head is read back as it was by the next process, and it never outgrows the
  limit the reader sets.
\<close>

section \<open>Certificates on the wire\<close>

lemma unb64_encode:
  assumes "length b = n"
  shows "unb64 (JStr (b64_encode b)) n label = Inr b"
proof -
  have "ascii (b64_encode b)" by (simp add: ascii_def list_all_iff b64_encode_ascii)
  with assms show ?thesis by (simp add: unb64_def b64_roundtrip length_b64_encode)
qed

lemma parse_certificate_time_iso: "time_valid t \<Longrightarrow> parse_certificate_time (JStr (isoformat t)) label = Inr (Aware t 0)"
  by (simp add: parse_certificate_time_def iso.parse_render)

lemma certificate_wire_keys:
  "distinct (map fst (certificate_to_wire c))" "set (map fst (certificate_to_wire c)) = set certificate_fields"
  by (simp_all add: certificate_to_wire_def unsigned_wire_def certificate_fields_def) auto

lemma certificate_lookup:
  "map_of (certificate_to_wire c) ''format'' = Some (JStr ''angusu.bridge/recipient-key-certificate'')"
  "map_of (certificate_to_wire c) ''version'' = Some (JInt 1)"
  "map_of (certificate_to_wire c) ''algorithm'' = Some (JStr (kc_algorithm c))"
  "map_of (certificate_to_wire c) ''destination_connector'' = Some (JStr (kc_destination_connector c))"
  "map_of (certificate_to_wire c) ''generation'' = Some (JInt (kc_generation c))"
  "map_of (certificate_to_wire c) ''identity_key_id'' = Some (JStr (kc_identity_key_id c))"
  "map_of (certificate_to_wire c) ''issued_at'' = Some (JStr (isoformat (kc_issued_at c)))"
  "map_of (certificate_to_wire c) ''key_id'' = Some (JStr (kc_key_id c))"
  "map_of (certificate_to_wire c) ''not_after'' = Some (JStr (isoformat (kc_not_after c)))"
  "map_of (certificate_to_wire c) ''not_before'' = Some (JStr (isoformat (kc_not_before c)))"
  "map_of (certificate_to_wire c) ''previous_key_id'' = Some (opt_str (kc_previous_key_id c))"
  "map_of (certificate_to_wire c) ''public_key'' = Some (JStr (b64_encode (kc_public_key c)))"
  "map_of (certificate_to_wire c) ''signature'' = Some (JStr (b64_encode (kc_signature c)))"
  "map_of (certificate_to_wire c) ''tenant'' = Some (JStr (kc_tenant c))"
  by (simp_all add: certificate_to_wire_def unsigned_wire_def)

lemma set_map_fst_reread: "set (map fst (reread kvs)) = set (map fst kvs)"
  by (simp add: reread_def canon_members_map image_image split_def)

lemma certificate_from_wire_reread:
  assumes "certificate_ok pr c"
  shows "certificate_from_wire pr (JObj (reread (certificate_to_wire c))) = Inr c"
proof -
  note ok = certificate_okD [OF assms]
  note look = map_of_reread [OF certificate_wire_keys(1), of c] certificate_lookup
  have opt: "canon (opt_str p) = opt_str p" for p by (cases p) (simp_all add: opt_str_def)
  have previous: "(case opt_str p of JNull \<Rightarrow> Inr None | JStr s \<Rightarrow> Inr (Some s)
      | _ \<Rightarrow> Inl (ProtocolError ''recipient predecessor key id must be a string or null'')) = Inr p" for p
    by (cases p) (simp_all add: opt_str_def)
  have keys: "set (map fst (reread (certificate_to_wire c))) = set certificate_fields"
    unfolding set_map_fst_reread by (rule certificate_wire_keys)
  have "\<lparr>kc_tenant = kc_tenant c, kc_destination_connector = kc_destination_connector c, kc_public_key = kc_public_key c,
           kc_generation = kc_generation c, kc_previous_key_id = kc_previous_key_id c, kc_issued_at = 0, kc_not_before = 0,
           kc_not_after = 0, kc_identity_key_id = kc_identity_key_id c, kc_signature = kc_signature c,
           kc_algorithm = kc_algorithm c, kc_key_id = []\<rparr> = c\<lparr>kc_issued_at := 0, kc_not_before := 0, kc_not_after := 0, kc_key_id := []\<rparr>"
    by simp
  note blank = this
  have "RecipientKeyCertificate pr (c\<lparr>kc_issued_at := 0, kc_not_before := 0, kc_not_after := 0, kc_key_id := []\<rparr>)
      (Aware (kc_issued_at c) 0) (Aware (kc_not_before c) 0) (Aware (kc_not_after c) 0) = Inr c"
    using ok(9) unfolding RecipientKeyCertificate_Inr by auto
  then show ?thesis
    unfolding certificate_from_wire_def json.case keys
    by (simp add: look text_item_def opt previous unb64_encode ok(1-7) parse_certificate_time_iso blank field_validation_def)
qed

section \<open>The state file\<close>

lemma decode_line:
  assumes "readable j"
  shows "json_decode st (json_encode j @ [CHR 0x0A]) = Some (canon j)"
proof -
  let ?s = "render (canon j)"
  have "utf8_encode (?s @ [CHR 0x0A]) = utf8_encode ?s @ [CHR 0x0A]" by (simp add: utf8_encode_def)
  then have line: "utf8_decode (json_encode j @ [CHR 0x0A]) = Some (?s @ [CHR 0x0A])"
    using utf8_roundtrip [of "?s @ [CHR 0x0A]"] by (simp add: json_encode_def json_dumps_def)
  have "pvalue st (2 * length (?s @ [CHR 0x0A]) + 2) (?s @ [CHR 0x0A]) = Some (canon j, [CHR 0x0A])"
    using assms by (intro pvalue_render(1)) (simp_all add: readable_canon delimited_def)
  then show ?thesis unfolding json_decode_def line by (simp add: json_loads_def skip_ws_def)
qed

lemma encode_object_first: "json_encode (JObj kvs) = CHR ''{'' # tl (json_encode (JObj kvs))"
  by (cases "sort_key fst (canon_members kvs)") (auto simp: json_encode_def json_dumps_def utf8_encode_def)

lemma decode_object_line:
  assumes "readable (JObj kvs)"
  shows "decode_utf8_sig (json_encode (JObj kvs) @ [CHR 0x0A]) = Some (JObj (reread kvs))"
proof -
  have "\<not> starts_with [CHR 0xEF, CHR 0xBB, CHR 0xBF] (json_encode (JObj kvs) @ [CHR 0x0A])"
    by (subst encode_object_first) simp
  then show ?thesis using decode_line [OF assms, of True] by (simp add: decode_utf8_sig_def reread_def)
qed

lemma read_used_texts:
  "list_all (lower_hex 64) ks \<Longrightarrow> distinct ks \<Longrightarrow> set used \<inter> set ks = {} \<Longrightarrow> read_used_key_ids used (map JStr ks) = Inr (used @ ks)"
  by (induction ks arbitrary: used) (auto simp: check_key_id_def)

definition state_members :: "key_store \<Rightarrow> key_certificate \<Rightarrow> (string \<times> json) list" where
  "state_members st c = (case state_wire st c of JObj kvs \<Rightarrow> kvs | _ \<Rightarrow> [])"

lemma state_members:
  "state_wire st c = JObj (state_members st c)" "distinct (map fst (state_members st c))"
  "set (map fst (state_members st c)) = set state_fields"
  "map_of (state_members st c) ''current_certificate'' = Some (JObj (certificate_to_wire c))"
  "map_of (state_members st c) ''destination_connector'' = Some (JStr (ks_destination_connector st))"
  "map_of (state_members st c) ''format'' = Some (JStr ''angusu.bridge/recipient-key-trust-state'')"
  "map_of (state_members st c) ''identity_key_id'' = Some (JStr (ks_identity_key_id st))"
  "map_of (state_members st c) ''tenant'' = Some (JStr (ks_tenant st))"
  "map_of (state_members st c) ''used_key_ids'' = Some (JArr (map JStr (sort (ks_used_key_ids st))))"
  "map_of (state_members st c) ''version'' = Some (JInt 2)"
  by (simp_all add: state_members_def state_wire_def state_fields_def)

lemma certificate_readable: "readable (JObj (certificate_to_wire c))"
proof -
  have "readable (opt_str p)" for p by (cases p) (simp_all add: opt_str_def)
  then show ?thesis using certificate_wire_keys(1) [of c] by (simp add: certificate_to_wire_def unsigned_wire_def)
qed

lemma canon_texts: "canon (JArr (map JStr ks)) = JArr (map JStr ks)" "readable (JArr (map JStr ks))"
  by (simp_all add: canon_elems_map readable_elems_iff comp_def)

lemma state_readable: "readable (JObj (state_members st c))"
  using certificate_readable [of c] canon_texts(2) [of "sort (ks_used_key_ids st)"]
  by (simp add: state_members_def state_wire_def)

text \<open>What the reader makes of a published state, its size within the limit.\<close>

lemma read_published:
  assumes "certificate_ok pr c" "head_ok pr st c (ks_used_key_ids st)" "list_all (lower_hex 64) (ks_used_key_ids st)"
    and "length (ks_identity_public_key st) = 32" "length (state_bytes st c) \<le> MAX_STATE_BYTES"
  shows "read_state pr st (Regular fp (state_bytes st c)) = Inr (c, sort (ks_used_key_ids st), fp)"
proof -
  note look = map_of_reread [OF state_members(2), of st c] state_members(4-)
  have decoded: "decode_utf8_sig (state_bytes st c) = Some (JObj (reread (state_members st c)))"
    using decode_object_line [OF state_readable, of st c] by (simp add: state_bytes_def state_members(1))
  have keys: "set (map fst (reread (state_members st c))) = set state_fields"
    unfolding set_map_fst_reread by (rule state_members(3))
  have bounded: "read_bounded (Regular fp (state_bytes st c)) = Inr (state_bytes st c, fp)" using assms(5) by (simp add: read_bounded_def)
  have "verify_certificate pr st c None = Inr ()"
    using assms(1,2,4) certificate_okD(4) [OF assms(1)]
    by (simp add: verify_certificate_def verify_ed25519_def head_ok_def trusted_def)
  moreover have "read_used_key_ids [] (map JStr (sort (ks_used_key_ids st))) = Inr (sort (ks_used_key_ids st))"
    using read_used_texts [of "sort (ks_used_key_ids st)" "[]"] assms(2,3) by (simp add: head_ok_def list_all_iff)
  moreover have "canon (JObj (certificate_to_wire c)) = JObj (reread (certificate_to_wire c))" by (rule canon_JObj)
  ultimately show ?thesis
    using assms(2) certificate_from_wire_reread [OF assms(1)] canon_texts(1) [of "sort (ks_used_key_ids st)"]
    by (simp only: read_state_def bounded bindE_simps prod.case decoded option.case json.case keys)
      (simp add: look state_text_def head_ok_def not_less del: canon.simps(1,2))
qed

section \<open>Its size\<close>

text \<open>An upper bound on the bytes of a rendered document.\<close>

fun wire_size :: "json \<Rightarrow> nat"
  and wire_size_elems :: "json list \<Rightarrow> nat"
  and wire_size_members :: "(string \<times> json) list \<Rightarrow> nat" where
  "wire_size JNull = 4"
| "wire_size (JBool b) = 5"
| "wire_size (JInt i) = 2 * length (show_int i)"
| "wire_size (JFloat f) = 2 * length f"
| "wire_size (JStr s) = 2 + (if list_all hex_digit s then length s else 12 * length s)"
| "wire_size (JArr xs) = 2 + wire_size_elems xs"
| "wire_size (JObj kvs) = 2 + wire_size_members kvs"
| "wire_size_elems [] = 0"
| "wire_size_elems (x # xs) = 1 + wire_size x + wire_size_elems xs"
| "wire_size_members [] = 0"
| "wire_size_members ((k, v) # kvs) = 4 + 12 * length k + wire_size v + wire_size_members kvs"

lemma utf8_append: "utf8_encode (a @ b) = utf8_encode a @ utf8_encode b" "utf8_encode (c # a) = utf8_char c @ utf8_encode a"
    "utf8_encode [] = []"
  by (simp_all add: utf8_encode_def)

lemma length_utf8_char: "length (utf8_char c) \<le> 2"
  by (simp add: Let_def)

lemma length_utf8: "length (utf8_encode s) \<le> 2 * length s"
proof (induction s)
  case (Cons c s)
  then show ?case using length_utf8_char [of c] by (simp add: utf8_append del: utf8_char.simps)
qed (simp add: utf8_append)

lemma length_esc: "length (esc_char c) \<le> 6"
  by (simp add: esc_char_def)

lemma length_escaped: "length (concat (map esc_char s)) \<le> 6 * length s"
proof (induction s)
  case (Cons c s)
  then show ?case using length_esc [of c] by simp
qed simp

lemma hex_esc:
  assumes "hex_digit c"
  shows "utf8_encode (esc_char c) = [c]"
proof -
  have "48 \<le> (of_char c :: nat)" "(of_char c :: nat) < 103" "(of_char c :: nat) \<noteq> 92"
    using assms by (auto simp: hex_digit_def)
  moreover from this have "c \<noteq> CHR 0x22" "c \<noteq> CHR 0x5C" "c \<noteq> CHR 0x0A" "c \<noteq> CHR 0x0D" "c \<noteq> CHR 0x09" "c \<noteq> CHR 0x0C" "c \<noteq> CHR 0x08"
    by auto
  ultimately show ?thesis by (simp add: esc_char_def utf8_encode_def Let_def)
qed

lemma length_quote_bytes: "length (utf8_encode (quote s)) \<le> (if list_all hex_digit s then 2 + length s else 2 + 12 * length s)"
proof (cases "list_all hex_digit s")
  case True
  then have "length (utf8_encode (concat (map esc_char s))) = length s" by (induction s) (simp_all add: utf8_append hex_esc)
  with True show ?thesis by (simp add: quote_def utf8_append)
next
  case False
  have "length (utf8_encode (concat (map esc_char s))) \<le> 12 * length s"
    using length_utf8 [of "concat (map esc_char s)"] length_escaped [of s] by linarith
  with False show ?thesis by (simp add: quote_def utf8_append)
qed

lemma length_key: "length (utf8_encode (quote k)) \<le> 2 + 12 * length k"
  using length_quote_bytes [of k] by (simp split: if_splits)

lemma utf8_ascii_length: "utf8_char c = [c]" if "(of_char c :: nat) < 128"
  using that by (simp add: Let_def)

lemma length_render:
  "length (utf8_encode (render j)) \<le> wire_size j"
  "length (utf8_encode (render_elems xs)) \<le> 1 + wire_size_elems xs"
  "length (utf8_encode (render_members kvs)) \<le> 1 + wire_size_members kvs"
proof (induction j and xs and kvs rule: render_render_elems_render_members.induct)
  case (3 i)
  show ?case using length_utf8 [of "show_int i"] by simp
next
  case (4 f)
  show ?case using length_utf8 [of f] by simp
next
  case (5 s)
  show ?case using length_quote_bytes [of s] by (simp split: if_splits)
next
  case (9 k v kvs)
  then show ?case using length_key [of k] by (simp add: utf8_append)
next
  case (13 k v kvs)
  then show ?case using length_key [of k] by (simp add: utf8_append)
qed (simp_all add: utf8_append)

lemma wire_size_members_sum: "wire_size_members kvs = sum_list (map (\<lambda>(k, v). 4 + 12 * length k + wire_size v) kvs)"
  by (induction kvs) auto

lemma sum_list_sort_key: "sum_list (map f (sort_key g xs)) = sum_list (map f xs)" for f :: "'a \<Rightarrow> nat"
  by (metis mset_map mset_sort sum_mset_sum_list)

lemma wire_size_canon:
  "wire_size (canon j) = wire_size j"
  "wire_size_elems (canon_elems xs) = wire_size_elems xs"
  "wire_size_members (canon_members kvs) = wire_size_members kvs"
proof (induction j and xs and kvs rule: canon_canon_elems_canon_members.induct)
  case (2 kvs)
  have "wire_size_members (sort_key fst (canon_members kvs)) = wire_size_members (canon_members kvs)"
    unfolding wire_size_members_sum by (rule sum_list_sort_key)
  with 2 show ?case by simp
qed simp_all

lemma length_json_encode: "length (json_encode j) \<le> wire_size j"
  using length_render(1) [of "canon j"] by (simp add: json_encode_def json_dumps_def wire_size_canon)

lemma length_show_nat: "n < 10 ^ k \<Longrightarrow> 0 < k \<Longrightarrow> length (show_nat n) \<le> k"
proof (induction k arbitrary: n)
  case (Suc k)
  show ?case
  proof (cases "n < 10")
    case True
    then show ?thesis by (simp add: show_nat.simps [of n])
  next
    case False
    then have "0 < k" using Suc.prems(1) by (cases k) simp_all
    moreover have "n div 10 < 10 ^ k" using Suc.prems(1) by (simp add: less_mult_imp_div_less)
    ultimately have "length (show_nat (n div 10)) \<le> k" using Suc.IH by blast
    with False show ?thesis by (simp add: show_nat.simps [of n])
  qed
qed simp

lemma wire_size_text: "wire_size (JStr s) \<le> 2 + 12 * length s"
  by simp

lemma length_binding: "binding v label = Inr () \<Longrightarrow> length v \<le> 256"
proof -
  have "length v \<le> length (utf8_encode v)" by (induction v) (simp_all add: utf8_append Let_def)
  then show "binding v label = Inr () \<Longrightarrow> length v \<le> 256" by (simp add: binding_def MAX_BINDING_BYTES_def)
qed

lemma length_isoformat: "length (isoformat t) \<le> 32"
  by (simp add: isoformat_def iso_frac_def)

lemma certificate_size:
  assumes "certificate_ok pr c"
  shows "wire_size (JObj (certificate_to_wire c)) \<le> 14000"
proof -
  note ok = certificate_okD [OF assms]
  have made: "binding (kc_tenant c) ''tenant'' = Inr ()" "binding (kc_destination_connector c) ''destination connector'' = Inr ()"
    "1 \<le> kc_generation c" "kc_generation c \<le> MAX_GENERATION" "case kc_previous_key_id c of None \<Rightarrow> True | Some p \<Rightarrow> lower_hex 64 p"
    "lower_hex 64 (kc_identity_key_id c)"
    using ok(9) unfolding RecipientKeyCertificate_Inr by (auto split: option.splits)
  have "nat (kc_generation c) < 10 ^ 19" using made(3,4) by (simp add: MAX_GENERATION_def)
  then have "length (show_nat (nat (kc_generation c))) \<le> 19" by (rule length_show_nat) simp
  then have "wire_size (JInt (kc_generation c)) \<le> 38" using made(3) by (simp add: show_int_def)
  moreover have "wire_size (opt_str (kc_previous_key_id c)) \<le> 66" using made(5) by (cases "kc_previous_key_id c") (simp_all add: opt_str_def lower_hex_def)
  moreover have "wire_size (JStr (kc_key_id c)) = 66" "wire_size (JStr (kc_identity_key_id c)) = 66" using ok(2) made(6) by (simp_all add: lower_hex_def)
  moreover have "wire_size (JStr (kc_tenant c)) \<le> 3074" "wire_size (JStr (kc_destination_connector c)) \<le> 3074"
    using wire_size_text [of "kc_tenant c"] wire_size_text [of "kc_destination_connector c"] length_binding [OF made(1)] length_binding [OF made(2)]
    by linarith+
  moreover have "wire_size (JStr (isoformat t)) \<le> 386" for t using wire_size_text [of "isoformat t"] length_isoformat [of t] by linarith
  note times = this [of "kc_issued_at c"] this [of "kc_not_before c"] this [of "kc_not_after c"]
  moreover have "wire_size (JStr (b64_encode (kc_public_key c))) \<le> 530" "wire_size (JStr (b64_encode (kc_signature c))) \<le> 1058"
    using wire_size_text [of "b64_encode (kc_public_key c)"] wire_size_text [of "b64_encode (kc_signature c)"] ok(3,4)
    by (simp_all add: length_b64_encode del: wire_size.simps)
  moreover have "wire_size (JStr ''ed25519'') \<le> 86" "wire_size (JStr ''angusu.bridge/recipient-key-certificate'') \<le> 470" "wire_size (JInt 1) \<le> 2"
    using wire_size_text [of "''ed25519''"] wire_size_text [of "''angusu.bridge/recipient-key-certificate''"]
    by (simp_all add: show_int_def show_nat.simps [of "Suc 0"])
  ultimately show ?thesis
    unfolding certificate_to_wire_def unsigned_wire_def ok(8)
    by (simp del: wire_size.simps(1-6))
qed

lemma state_size:
  assumes "certificate_ok pr c" "trusted pr st c" "list_all (lower_hex 64) (ks_used_key_ids st)" "length (ks_used_key_ids st) \<le> MAX_USED_KEY_IDS"
  shows "length (state_bytes st c) \<le> MAX_STATE_BYTES"
proof -
  have made: "binding (kc_tenant c) ''tenant'' = Inr ()" "binding (kc_destination_connector c) ''destination connector'' = Inr ()"
    "lower_hex 64 (kc_identity_key_id c)"
    using certificate_okD(9) [OF assms(1)] unfolding RecipientKeyCertificate_Inr by auto
  with assms(2) have route: "binding (ks_tenant st) ''tenant'' = Inr ()" "binding (ks_destination_connector st) ''destination connector'' = Inr ()"
    "lower_hex 64 (ks_identity_key_id st)" by (simp_all add: trusted_def)
  have "list_all (lower_hex 64) ks \<Longrightarrow> wire_size_elems (map JStr ks) = 67 * length ks" for ks
    by (induction ks) (simp_all add: lower_hex_def)
  then have "wire_size (JArr (map JStr (sort (ks_used_key_ids st)))) \<le> 34306"
    using assms(3,4) by (simp add: list_all_iff MAX_USED_KEY_IDS_def)
  moreover have "wire_size (JStr (ks_tenant st)) \<le> 3074" "wire_size (JStr (ks_destination_connector st)) \<le> 3074"
    using wire_size_text [of "ks_tenant st"] wire_size_text [of "ks_destination_connector st"] length_binding [OF route(1)] length_binding [OF route(2)]
    by linarith+
  moreover have "wire_size (JStr (ks_identity_key_id st)) = 66" using route(3) by (simp add: lower_hex_def)
  moreover have "wire_size (JStr ''angusu.bridge/recipient-key-trust-state'') \<le> 470" "wire_size (JInt 2) \<le> 2"
    using wire_size_text [of "''angusu.bridge/recipient-key-trust-state''"] by (simp_all add: show_int_def show_nat.simps [of 2])
  ultimately have "wire_size (state_wire st c) \<le> 60000"
    using certificate_size [OF assms(1)] unfolding state_wire_def by (simp del: wire_size.simps(1-6))
  then show ?thesis using length_json_encode [of "state_wire st c"] by (simp add: state_bytes_def MAX_STATE_BYTES_def)
qed

section \<open>Restart\<close>

lemma read_state_pinned:
  assumes "ks_identity_public_key st' = ks_identity_public_key st" "ks_identity_key_id st' = ks_identity_key_id st"
    and "ks_tenant st' = ks_tenant st" "ks_destination_connector st' = ks_destination_connector st"
  shows "read_state pr st' entry = read_state pr st entry"
  unfolding read_state_def verify_certificate_def assms by (rule refl)

lemma opened_fields:
  assumes "RecipientKeyTrustStore pr identity t d (Some entry) token = Inr st"
  shows "\<exists>i. signing_key_id identity = Inr i \<and> binding t ''tenant'' = Inr () \<and> binding d ''destination connector'' = Inr ()
    \<and> pinned st = (identity, i, t, d, True, token)"
proof -
  obtain i where i: "signing_key_id identity = Inr i" "binding t ''tenant'' = Inr ()" "binding d ''destination connector'' = Inr ()"
    using assms by (auto simp: RecipientKeyTrustStore_def)
  let ?st0 = "new_store identity i t d True token"
  have "st = ?st0 \<or> (\<exists>head. st = adopt_state ?st0 head)"
    using assms by (auto simp: i RecipientKeyTrustStore_def Let_def split: path_entry.splits)
  moreover have "pinned (adopt_state ?st0 head) = pinned ?st0" for head by (cases head) (simp add: adopt_state_def pinned_def)
  ultimately show ?thesis using i by (auto simp: pinned_def new_store_def)
qed

text \<open>An accept that replaced the file: what it wrote, and the store it left.\<close>

lemma accept_published:
  assumes "accept_certificate pr c now pb (st, e) = (Inr x, st', e')" "e' \<noteq> e" "store_ok pr st" "certificate_ok pr c"
  shows "e' = Regular (pb_fingerprint pb) (state_bytes st' c) \<and> ks_current st' = Some c"
proof -
  have path: "ks_has_path st" using assms(1,2) by (auto simp: accept_certificate_def split: sum.splits if_splits)
  define start where "start = (case e of
      Missing \<Rightarrow> raise_if (ks_current st \<noteq> None) (IntegrityError ''recipient key trust state disappeared'') (Inr st)
    | _ \<Rightarrow> reload_state_if_changed pr st e)"
  note accept = assms(1) [unfolded accept_certificate_def prod.case start_def [symmetric]]
  obtain st1 where st1: "start = Inr st1" using accept path by (cases start) simp_all
  obtain st2 changed where out: "accept_transition pr st1 c now = Inr (st2, changed)"
    using accept path st1 by (cases "accept_transition pr st1 c now") (simp, fastforce)
  have changed: changed using accept path st1 out assms(2) by (cases changed) simp_all
  have st': "st' = st2\<lparr>ks_head_revision := Suc (ks_head_revision st2), ks_fingerprint := Some (pb_fingerprint pb)\<rparr>"
    "e' = Regular (pb_fingerprint pb) (state_bytes (st2\<lparr>ks_head_revision := Suc (ks_head_revision st2)\<rparr>) c)"
    using accept path st1 out changed by (simp_all add: Let_def split: option.splits)
  have "state_bytes (st2\<lparr>ks_head_revision := n, ks_fingerprint := f\<rparr>) c = state_bytes st2 c"
    "state_bytes (st2\<lparr>ks_head_revision := n\<rparr>) c = state_bytes st2 c" for n f by (simp_all add: state_bytes_def state_wire_def)
  with st' accept_transition_Inr [OF out] changed show ?thesis by simp
qed

text \<open>C17. A head that was accepted and published is what the next process starts from: opening a store for the same identity
  and route on the file that was written succeeds, within the reader's size limit of 64 KiB, with that certificate as its head
  and with the same history of used keys, whatever had happened to store and file before.\<close>

theorem published_head_survives_restart:
  assumes "RecipientKeyTrustStore pr identity t d (Some entry) token = Inr st0" "(trust_step pr)\<^sup>*\<^sup>* (st0, e0) (st, e)"
    and "certificate_ok pr c" "accept_certificate pr c now pb (st, e) = (Inr x, st', e')" "e' \<noteq> e"
  shows "\<exists>st''. RecipientKeyTrustStore pr identity t d (Some e') token' = Inr st'' \<and> ks_current st'' = Some c
    \<and> ks_current st' = Some c \<and> set (ks_used_key_ids st'') = set (ks_used_key_ids st')"
proof -
  obtain i where i: "signing_key_id identity = Inr i" "binding t ''tenant'' = Inr ()" "binding d ''destination connector'' = Inr ()"
    and pin0: "pinned st0 = (identity, i, t, d, True, token)"
    using opened_fields [OF assms(1)] by blast
  have "evolves pr st0 st" using trust_steps_evolve [OF assms(2)] opened_ok [OF assms(1)] by simp
  then have ok: "store_ok pr st" and pin: "pinned st = pinned st0" by (simp_all add: evolves_def)
  have "evolves pr st st'" by (rule accept_evolves [OF assms(4) ok assms(3)])
  then have ok': "store_ok pr st'" and pin': "pinned st' = (identity, i, t, d, True, token)"
    using pin pin0 by (simp_all add: evolves_def)
  have written: "e' = Regular (pb_fingerprint pb) (state_bytes st' c)" "ks_current st' = Some c"
    using accept_published [OF assms(4,5) ok assms(3)] by simp_all
  have head: "head_ok pr st' c (ks_used_key_ids st')" using ok' written(2) by (simp add: store_ok_def)
  have "length identity = 32" using i(1) by (simp add: signing_key_id_def)
  then have "read_state pr st' e' = Inr (c, sort (ks_used_key_ids st'), pb_fingerprint pb)"
    unfolding written(1) using pin' head state_size [of pr c st'] assms(3)
    by (intro read_published) (simp_all add: head_ok_def pinned_def)
  then have "read_state pr (new_store identity i t d True token') e' = Inr (c, sort (ks_used_key_ids st'), pb_fingerprint pb)"
    using read_state_pinned [of "new_store identity i t d True token'" st' pr e'] pin' by (simp add: new_store_def pinned_def)
  then show ?thesis using i written by (simp add: RecipientKeyTrustStore_def adopt_state_def Let_def)
qed

end
