(* ===== verification/RecipientSamples.thy ===== *)
theory RecipientSamples
  imports RecipientState
begin

text \<open>A concrete trust store with one published certificate, on which the properties of the store apply.\<close>

definition trust_primitives :: primitives where
  "trust_primitives = \<lparr>ed25519_ok = (\<lambda>_ _ _. True), x25519_public = (\<lambda>k. k), x25519_exchange = (\<lambda>_ _. Some ''shared''),
     hkdf_sha256 = (\<lambda>_ s. s), chacha_open = (\<lambda>_ _ _ _. None), chacha_seal = (\<lambda>_ _ m _. m)\<rparr>"

definition identity_key :: bytes where
  "identity_key = replicate 32 CHR ''i''"

definition recipient_key :: bytes where
  "recipient_key = replicate 32 CHR ''r''"

definition recipient_id :: string where
  "recipient_id = (case recipient_key_id trust_primitives recipient_key of Inr k \<Rightarrow> k | Inl _ \<Rightarrow> [])"

definition certificate_draft :: key_certificate where
  "certificate_draft = \<lparr>kc_tenant = ''acme'', kc_destination_connector = ''erp'', kc_public_key = recipient_key, kc_generation = 1,
     kc_previous_key_id = None, kc_issued_at = 0, kc_not_before = 0, kc_not_after = 100, kc_identity_key_id = sha256_hex identity_key,
     kc_signature = replicate 64 CHR ''s'', kc_algorithm = ''ed25519'', kc_key_id = []\<rparr>"

definition first_certificate :: key_certificate where
  "first_certificate = certificate_draft\<lparr>kc_key_id := recipient_id\<rparr>"

lemma recipient_key_ok: "recipient_key_id trust_primitives recipient_key = Inr recipient_id"
proof -
  have "\<exists>k. recipient_key_id trust_primitives recipient_key = Inr k"
    by (simp add: recipient_key_id_def validate_recipient_public_key_def trust_primitives_def recipient_key_def Let_def)
  then show ?thesis by (auto simp: recipient_id_def)
qed

lemma short_binding: "v \<in> {''acme'', ''erp''} \<Longrightarrow> binding v label = Inr ()"
  by (auto simp: binding_def MAX_BINDING_BYTES_def utf8_encode_def control_char_def)

lemma first_certificate_ok: "certificate_ok trust_primitives first_certificate"
proof -
  have t: "time_valid 0" "time_valid 100" by (simp_all add: time_valid_def day_us_def)
  have "RecipientKeyCertificate trust_primitives certificate_draft (Aware 0 0) (Aware 0 0) (Aware 100 0) = Inr first_certificate"
    unfolding RecipientKeyCertificate_Inr
    by (simp add: certificate_draft_def first_certificate_def recipient_key_ok short_binding MAX_GENERATION_def sha256_hex_lower t)
  then show ?thesis by (rule constructed_ok)
qed

definition empty_trust :: key_store where
  "empty_trust = new_store identity_key (sha256_hex identity_key) ''acme'' ''erp'' True 0"

lemma open_empty: "RecipientKeyTrustStore trust_primitives identity_key ''acme'' ''erp'' (Some Missing) 0 = Inr empty_trust"
  by (simp add: RecipientKeyTrustStore_def signing_key_id_def identity_key_def short_binding empty_trust_def Let_def)

definition written_trust :: key_store where
  "written_trust = empty_trust\<lparr>ks_current := Some first_certificate, ks_used_key_ids := [recipient_id], ks_head_revision := 1,
     ks_fingerprint := Some 7\<rparr>"

definition written_file :: path_entry where
  "written_file = Regular 7 (state_bytes written_trust first_certificate)"

lemma first_accept:
  "accept_certificate trust_primitives first_certificate (Aware 0 0) \<lparr>pb_fingerprint = 7, pb_write_error = None, pb_status_error = None, pb_synced = True\<rparr>
     (empty_trust, Missing) = (Inr first_certificate, written_trust, written_file)"
proof -
  have "time_valid 0" by (simp add: time_valid_def day_us_def)
  then have "verify_certificate trust_primitives empty_trust first_certificate (Some (Aware 0 0)) = Inr ()"
    by (simp add: verify_certificate_def verify_ed25519_def verify_current_validity_def empty_trust_def new_store_def
        first_certificate_def certificate_draft_def identity_key_def trust_primitives_def)
  moreover have "kc_generation first_certificate = 1" "kc_previous_key_id first_certificate = None" "kc_key_id first_certificate = recipient_id"
    by (simp_all add: first_certificate_def certificate_draft_def)
  moreover have "ks_current empty_trust = None" "ks_used_key_ids empty_trust = []" "ks_has_path empty_trust" "ks_head_revision empty_trust = 0"
    by (simp_all add: empty_trust_def new_store_def)
  ultimately show ?thesis
    by (simp add: accept_certificate_def accept_transition_def sync_parent_def written_trust_def written_file_def state_bytes_def state_wire_def)
qed

lemma first_step: "(trust_step trust_primitives)\<^sup>*\<^sup>* (empty_trust, Missing) (written_trust, written_file)"
  using Accept [OF first_certificate_ok first_accept] by (rule r_into_rtranclp)

lemma written_refresh: "refresh_current trust_primitives written_trust written_file = (Inr first_certificate, written_trust)"
  by (simp add: refresh_current_def written_trust_def written_file_def reload_state_if_changed_def path_fingerprint_def empty_trust_def new_store_def)

lemma written_route: "ks_tenant written_trust = ''acme''" "ks_destination_connector written_trust = ''erp''"
  by (simp_all add: written_trust_def empty_trust_def new_store_def)

theorem head_is_pinned_witness:
  "ed25519_ok trust_primitives identity_key (certificate_signing_bytes first_certificate) (kc_signature first_certificate)
   \<and> kc_key_id first_certificate \<in> set (ks_used_key_ids written_trust)"
proof -
  have "time_valid 0" by (simp add: time_valid_def day_us_def)
  then have "authorize_recipient trust_primitives ''acme'' ''erp'' (Aware 0 0) written_trust written_file = (Inr first_certificate, written_trust)"
    by (simp add: authorize_recipient_def current_certificate_def written_route written_refresh verify_current_validity_def
        first_certificate_def certificate_draft_def)
  from head_is_pinned [OF open_empty first_step this] show ?thesis by blast
qed

theorem confirmed_batch_kept_its_head_witness:
  "ks_current written_trust = Some first_certificate"
proof -
  let ?a = "\<lparr>ba_certificate = first_certificate, ba_store_token = ks_token written_trust,
    ba_head_revision = ks_head_revision written_trust, ba_fingerprint = ks_fingerprint written_trust\<rparr>"
  have began: "begin_batch_authorization trust_primitives ''acme'' ''erp'' written_trust written_file = (Inr ?a, written_trust)"
    by (simp add: begin_batch_authorization_def written_route written_refresh)
  have confirmed: "confirm_batch_authorization trust_primitives ?a written_trust written_file = (Inr (), written_trust)"
    by (simp add: confirm_batch_authorization_def written_refresh same_certificate_def)
  have "ks_current written_trust = Some (ba_certificate ?a)"
    using confirmed_batch_kept_its_head [OF open_empty first_step began rtranclp.rtrancl_refl confirmed] by blast
  then show ?thesis by simp
qed

theorem published_head_survives_restart_witness:
  "\<exists>st. RecipientKeyTrustStore trust_primitives identity_key ''acme'' ''erp'' (Some written_file) 1 = Inr st
     \<and> ks_current st = Some first_certificate \<and> set (ks_used_key_ids st) = {recipient_id}"
proof -
  have "written_file \<noteq> Missing" by (simp add: written_file_def)
  from published_head_survives_restart [OF open_empty rtranclp.rtrancl_refl first_certificate_ok first_accept this, of 1]
  show ?thesis by (auto simp: written_trust_def)
qed

end
