(* ===== verification/SourceSamples.thy ===== *)
theory SourceSamples
  imports SourceProofs RecipientSamples
begin

text \<open>A concrete source, its destination and one record, on which the properties of the source agent apply.\<close>

definition honest_primitives :: primitives where
  "honest_primitives = \<lparr>ed25519_ok = (\<lambda>_ _ _. True), x25519_public = (\<lambda>k. take 32 (k @ replicate 32 CHR ''0'')),
     x25519_exchange = (\<lambda>_ raw. if length raw = 32 then Some ''shared'' else None), hkdf_sha256 = (\<lambda>_ s. s),
     chacha_open = (\<lambda>_ _ c _. Some (drop 16 c)), chacha_seal = (\<lambda>_ _ m _. replicate 16 CHR ''t'' @ m)\<rparr>"

lemma honest_public [simp]: "length (x25519_public honest_primitives k) = 32"
  by (simp add: honest_primitives_def min_def)

lemma honest_exchange [simp]: "x25519_exchange honest_primitives a (x25519_public honest_primitives b) = Some ''shared''"
  using honest_public [of b] by (simp add: honest_primitives_def del: honest_public)

lemma honest_sealed [simp]: "length (chacha_seal honest_primitives k n m d) = 16 + length m"
  by (simp add: honest_primitives_def)

lemma honest_lawful: "lawful_primitives honest_primitives"
proof -
  have "chacha_open honest_primitives k n (chacha_seal honest_primitives k n m d) d = Some m" for k n m d
    by (simp add: honest_primitives_def)
  then show ?thesis by (simp add: lawful_primitives_def)
qed

definition sample_field :: field_descriptor where
  "sample_field = \<lparr>fd_id = ''name'', fd_name = ''name'', fd_data_type = DT_STRING, fd_nullable = False, fd_sensitivity = SECRET,
     fd_role = VALUE, fd_description = None, fd_aliases = [], fd_container = None, fd_destination_generated = False\<rparr>"

definition sample_schema :: schema_descriptor where
  "sample_schema = \<lparr>sd_id = ''s'', sd_fields = [sample_field], sd_relations = [], sd_metadata = []\<rparr>"

definition sample_rule :: mapping_rule where
  "sample_rule = \<lparr>mr_source_field_id = ''name'', mr_target_field_id = ''name'', mr_transform = ''copy'', mr_parameters = []\<rparr>"

definition sample_plan :: mapping_plan where
  "sample_plan = \<lparr>mp_id = ''p'', mp_source_schema_id = ''s'', mp_target_schema_id = ''s'', mp_source_fingerprint = fingerprint sample_schema,
     mp_target_fingerprint = fingerprint sample_schema, mp_rules = [sample_rule], mp_version = 1, mp_created_at = 0\<rparr>"

definition sample_private :: bytes where
  "sample_private = replicate 32 CHR ''d''"

definition sample_source :: source_agent where
  "sample_source = \<lparr>sa_tenant = ''acme'', sa_source_connector_id = ''crm'', sa_destination_connector_id = ''erp'',
     sa_source_schema = sample_schema, sa_target_schema = sample_schema, sa_plan = sample_plan,
     sa_destination_public_key = Some (x25519_public honest_primitives sample_private),
     sa_signing_key = Some (sample_public_key, \<lambda>_. replicate 64 CHR ''s''), sa_schema_version = ''1'', sa_transfer_ttl = None,
     sa_protocol_version = 3, sa_allow_legacy_unsigned = False, sa_allow_unauthenticated_recipient_key = True\<rparr>"

definition sample_recipient_id :: string where
  "sample_recipient_id = (case recipient_key_id honest_primitives (x25519_public honest_primitives sample_private) of Inr k \<Rightarrow> k | Inl _ \<Rightarrow> [])"

definition sample_draw :: seal_draw where
  "sample_draw = \<lparr>sd_now = 0, sd_ephemeral = ''e'', sd_nonce = replicate 12 CHR ''n''\<rparr>"

definition no_strptime :: "string \<Rightarrow> string \<Rightarrow> py_datetime option" where
  "no_strptime _ _ = None"

lemma sample_recipient_ok:
  "recipient_key_id honest_primitives (x25519_public honest_primitives sample_private) = Inr sample_recipient_id"
proof -
  have "\<exists>k. recipient_key_id honest_primitives (x25519_public honest_primitives sample_private) = Inr k"
    by (simp add: recipient_key_id_def validate_recipient_public_key_def honest_primitives_def Let_def)
  then show ?thesis by (auto simp: sample_recipient_id_def)
qed

lemma sample_recipient: "recipient_key_at honest_primitives sample_source 0 None
    = (Inr (x25519_public honest_primitives sample_private, sample_recipient_id), None)"
  by (simp add: recipient_key_at_def static_recipient_def sample_recipient_ok sample_source_def Let_def)

definition sample_issue :: "string \<Rightarrow> issue" where
  "sample_issue i = \<lparr>is_record_id = i, is_transfer_id = ''t1'', is_issued_at = 0,
     is_public_key = x25519_public honest_primitives sample_private, is_key_id = sample_recipient_id\<rparr>"

lemma sample_bounded:
  "bounded_printable 128 ''acme''" "bounded_printable 128 ''crm''" "bounded_printable 128 ''erp''" "bounded_printable 256 ''name''"
  "bounded_printable 128 ''1''" "bounded_printable 256 ''r1''" "bounded_printable 256 ''r2''" "bounded_printable 256 ''t1''" "isprintable ''p''"
  by (simp_all add: bounded_printable_def strip_def char_space_def isprintable_def char_printable_def Let_def)

lemma sample_metadata:
  assumes "i \<in> {''r1'', ''r2''}"
  shows "validate_new_metadata (issue_context sample_source (sample_issue i) None ''name'') = Inr ()"
proof -
  have i: "bounded_printable 256 i" using assms sample_bounded by auto
  let ?c = "issue_context sample_source (sample_issue i) None ''name''"
  have sel: "ctx_tenant ?c = ''acme''" "ctx_source_connector ?c = ''crm''" "ctx_destination_connector ?c = ''erp''"
    "ctx_field_id ?c = ''name''" "ctx_schema_version ?c = ''1''" "ctx_record_id ?c = i" "ctx_transfer_id ?c = ''t1''"
    "ctx_plan_id ?c = ''p''" "lower_hex 64 (ctx_plan_digest ?c)"
    by (simp_all add: issue_context_def sample_source_def sample_issue_def sample_plan_def mapping_plan_digest_def sha256_hex_lower)
  show ?thesis unfolding validate_new_metadata_def sel using sel(9) i by (simp add: sample_bounded)
qed

lemma sample_by_id: "by_id sample_schema ''name'' = Some sample_field"
  by (simp add: by_id_def sample_schema_def sample_field_def)

lemma sample_sealed: "i \<in> {''r1'', ''r2''} \<Longrightarrow> \<exists>f. seal_field honest_primitives no_strptime sample_source (sample_issue i) None
    [(''name'', PStr ''Ada'')] sample_rule sample_draw = Inr f"
proof -
  assume i: "i \<in> {''r1'', ''r2''}"
  let ?c = "issue_context sample_source (sample_issue i) None ''name''"
  have hex: "lower_hex 64 sample_recipient_id" using recipient_key_id_Inr [OF sample_recipient_ok] by blast
  then have ne: "sample_recipient_id \<noteq> []" by (auto simp: lower_hex_def)
  have route: "validate_route sample_field sample_field ''copy'' = Inr ()"
    by (simp add: validate_route_def sensitivity_route_safe_def for_sensitivity_def sample_field_def Let_def)
  have v: "transformed_value no_strptime sample_field sample_rule (PStr ''Ada'') = Inr (PStr ''Ada'')"
    by (simp add: transformed_value_def transform_stage_of_def TRANSFORM_SPECS_def sample_rule_def sample_field_def)
  obtain b where b: "payload_encode (PStr ''Ada'') = Inr b" using decode_encoded [of "PStr ''Ada''"] by auto
  have t0: "time_valid 0" by (simp add: time_valid_def day_us_def)
  have ctx: "TransferContext (?c\<lparr>ctx_issued_at := None, ctx_expires_at := None\<rparr>) (Some (Aware 0 0)) (as_aware None) = Inr ?c"
    using hex ne t0
    by (simp add: TransferContext_def utc_opt_def as_aware_def interval_inverted_def issue_context_def sample_issue_def sample_source_def)
  have "validate_new_metadata ?c = Inr ()" by (rule sample_metadata [OF i])
  moreover have "validate_time ?c (Aware 0 0) = Inr ()" by (simp add: validate_time_def issue_context_def)
  moreover have "ctx_protocol_version ?c = 3" by (simp add: issue_context_def sample_source_def)
  ultimately have "\<exists>e. seal_for_recipient honest_primitives b (is_public_key (sample_issue i)) ?c (Aware 0 0) ''e'' (replicate 12 CHR ''n'') = Inr e"
    by (simp add: seal_for_recipient_def derive_key_def OpaqueEnvelope_def sample_issue_def)
  then obtain e where "seal_for_recipient honest_primitives b (is_public_key (sample_issue i)) ?c (Aware 0 0) ''e'' (replicate 12 CHR ''n'') = Inr e"
    by blast
  with route v b ctx sample_by_id show ?thesis
    by (simp add: seal_field_def field_value_def sample_rule_def sample_draw_def issue_context_def)
      (simp add: sample_source_def sample_field_def sample_issue_def field_value_def)
qed

lemma sample_prepared: "i \<in> {''r1'', ''r2''} \<Longrightarrow> \<exists>t. prepare_authorized_record honest_primitives no_strptime sample_source (sample_issue i)
    [(''name'', PStr ''Ada'')] (\<lambda>_. sample_draw) = Inr t"
proof -
  assume i: "i \<in> {''r1'', ''r2''}"
  obtain f where f: "seal_field honest_primitives no_strptime sample_source (sample_issue i) None
      [(''name'', PStr ''Ada'')] sample_rule sample_draw = Inr f" using sample_sealed [OF i] by blast
  let ?c = "issue_context sample_source (sample_issue i) None ''name''"
  have c: "sf_target_field_id f = ''name''" "sf_context f = ?c"
    using seal_field_Inr [OF f] by (auto simp: sample_rule_def)
  have hex: "lower_hex 64 sample_recipient_id" using recipient_key_id_Inr [OF sample_recipient_ok] by blast
  then have ne: "sample_recipient_id \<noteq> []" by (auto simp: lower_hex_def)
  have wf: "record_wf \<lparr>btr_record_id = i, btr_fields = [f], btr_authentication = a, btr_allow_blank = False\<rparr>" for a
    using c ne by (simp add: record_wf_def protocol_version_def first_context_def agrees_def)
      (simp add: issue_context_def sample_source_def sample_issue_def)
  have "validate_new_metadata ?c = Inr ()" by (rule sample_metadata [OF i])
  moreover have "protocol_version \<lparr>btr_record_id = i, btr_fields = [f], btr_authentication = a, btr_allow_blank = False\<rparr> = 3" for a
    using c by (simp add: protocol_version_def first_context_def issue_context_def sample_source_def)
  moreover have "\<exists>a. RecordAuthentication (sha256_hex sample_public_key) (replicate 64 CHR ''s'') ''ed25519'' = Inr a"
    by (simp add: RecordAuthentication_def sha256_hex_lower)
  ultimately have "\<exists>t. signed sample_public_key (\<lambda>_. replicate 64 CHR ''s'')
      \<lparr>btr_record_id = i, btr_fields = [f], btr_authentication = None, btr_allow_blank = False\<rparr> = Inr t"
    using wf c by (auto simp: signed_def signing_key_id_def sample_public_key_def source_authentication_bytes_def BlindTransportRecord_Inr)
  moreover have "BlindTransportRecord i [f] None False
      = Inr \<lparr>btr_record_id = i, btr_fields = [f], btr_authentication = None, btr_allow_blank = False\<rparr>"
    using wf by (simp add: BlindTransportRecord_Inr)
  moreover have "seal_fields honest_primitives no_strptime sample_source (sample_issue i) None [(''name'', PStr ''Ada'')]
      (\<lambda>_. sample_draw) 0 (mp_rules (sa_plan sample_source)) = Inr [f]"
    using f by (simp add: sample_source_def sample_plan_def)
  moreover have "sa_transfer_ttl sample_source = None" "sa_protocol_version sample_source = 3" "is_record_id (sample_issue i) = i"
    "sa_signing_key sample_source = Some (sample_public_key, \<lambda>_. replicate 64 CHR ''s'')"
    by (simp_all add: sample_source_def sample_issue_def)
  ultimately show ?thesis by (simp add: prepare_authorized_record_def)
qed

lemma sample_identifiers: "bounded_new_identifier ''r1'' label 256 = Inr ()" "bounded_new_identifier ''r2'' label 256 = Inr ()"
    "bounded_new_identifier ''t1'' label 256 = Inr ()"
  by (simp_all add: bounded_new_identifier_def sample_bounded)

lemma sample_prepare: "\<exists>t. prepare_record honest_primitives no_strptime sample_source [(''name'', PStr ''Ada'')] ''r1'' (Some ''t1'') ''u'' 0
    (\<lambda>_. sample_draw) None = (Inr t, None)"
proof -
  obtain t where "prepare_authorized_record honest_primitives no_strptime sample_source (sample_issue ''r1'')
    [(''name'', PStr ''Ada'')] (\<lambda>_. sample_draw) = Inr t" using sample_prepared [of "''r1''"] by blast
  then show ?thesis
    by (simp add: prepare_record_def sample_identifiers sample_recipient sample_issue_def [symmetric])
qed

definition sample_destination :: destination_agent where
  "sample_destination = \<lparr>da_private_key = sample_private, da_expected_tenant = Some ''acme'', da_expected_connector_id = Some ''erp'',
     da_allowed_plan_digests = None, da_source_trust_store = Some (sample_store ACTIVE), da_allow_legacy_unsigned = False,
     da_additional_private_keys = [], da_allow_legacy_blank = False\<rparr>"

lemma sample_expected: "expects_source honest_primitives sample_destination sample_source"
  by (simp add: expects_source_def sample_destination_def sample_source_def)
    (simp add: sample_store_def sample_key_def honest_primitives_def)

lemma sample_mapped: "mapped_value no_strptime sample_source [(''name'', PStr ''Ada'')] sample_rule = Inr (''name'', PStr ''Ada'')"
  using sample_by_id
  by (simp add: mapped_value_def sample_source_def sample_rule_def sample_field_def transformed_value_def transform_stage_of_def
      TRANSFORM_SPECS_def field_value_def)

lemma sample_rules: "mp_rules (sa_plan sample_source) = [sample_rule]"
  by (simp add: sample_source_def sample_plan_def)

theorem destination_opens_what_source_sealed_witness:
  "\<exists>t w. prepare_record honest_primitives no_strptime sample_source [(''name'', PStr ''Ada'')] ''r1'' (Some ''t1'') ''u'' 0
      (\<lambda>_. sample_draw) None = (Inr t, None)
    \<and> open_record honest_primitives sample_destination t sample_world = (Inr [(''name'', PStr ''Ada'')], w)"
proof -
  obtain t where t: "prepare_record honest_primitives no_strptime sample_source [(''name'', PStr ''Ada'')] ''r1'' (Some ''t1'') ''u'' 0
    (\<lambda>_. sample_draw) None = (Inr t, None)" using sample_prepare by blast
  have priv: "da_private_key sample_destination = sample_private" by (simp add: sample_destination_def)
  have v3: "sa_protocol_version sample_source = 3" "sa_transfer_ttl sample_source = None" by (simp_all add: sample_source_def)
  obtain iss where "prepare_authorized_record honest_primitives no_strptime sample_source iss [(''name'', PStr ''Ada'')] (\<lambda>_. sample_draw) = Inr t"
    using prepare_record_Inr [OF t sample_recipient] by blast
  then have "ctx_expires_at (first_context t) = None" using prepared_attributes(7) v3(2) by (simp add: expiry_def)
  then have fresh: "unexpired sample_world (ctx_expires_at (first_context t))"
    by (simp add: unexpired_def sample_world_def good_event_def time_valid_def day_us_def)
  have good: "payload_ok v" if "rule \<in> set (mp_rules (sa_plan sample_source))"
      "mapped_value no_strptime sample_source [(''name'', PStr ''Ada'')] rule = Inr (j, v)" for rule j v
    using that sample_mapped by (simp add: sample_rules) auto
  have "\<exists>kvs. mapE (mapped_value no_strptime sample_source [(''name'', PStr ''Ada'')]) (mp_rules (sa_plan sample_source)) = Inr kvs
    \<and> open_record honest_primitives sample_destination t sample_world
      = (Inr kvs, sample_world\<lparr>w_pos := Suc (w_pos sample_world) + length (mp_rules (sa_plan sample_source))\<rparr>)"
    by (rule destination_opens_what_source_sealed [OF honest_lawful v3(1) sample_expected _ _ t fresh good])
      (simp_all add: priv sample_recipient sample_recipient_ok)
  then show ?thesis using t by (auto simp: sample_rules sample_mapped)
qed

theorem sealed_fields_respect_sensitivity_witness:
  "\<exists>t. prepare_record honest_primitives no_strptime sample_source [(''name'', PStr ''Ada'')] ''r1'' (Some ''t1'') ''u'' 0
      (\<lambda>_. sample_draw) None = (Inr t, None)
    \<and> list_all (\<lambda>f. seals_value honest_primitives (x25519_public honest_primitives sample_private) f (PStr ''Ada'')) (btr_fields t)"
proof -
  obtain t where t: "prepare_record honest_primitives no_strptime sample_source [(''name'', PStr ''Ada'')] ''r1'' (Some ''t1'') ''u'' 0
      (\<lambda>_. sample_draw) None = (Inr t, None)" using sample_prepare by blast
  have "list_all2 (respects_sensitivity honest_primitives (x25519_public honest_primitives sample_private) no_strptime sample_source
      [(''name'', PStr ''Ada'')]) [sample_rule] (btr_fields t)"
    using sealed_fields_respect_sensitivity [OF t] by (auto simp: sample_recipient) (simp add: sample_source_def sample_plan_def)
  moreover have "by_id (sa_source_schema sample_source) ''name'' = Some sample_field" "by_id (sa_target_schema sample_source) ''name'' = Some sample_field"
    using sample_by_id by (simp_all add: sample_source_def)
  ultimately have "list_all (\<lambda>f. seals_value honest_primitives (x25519_public honest_primitives sample_private) f (PStr ''Ada'')) (btr_fields t)"
    by (auto simp: list_all2_Cons1 respects_sensitivity_def sample_rule_def) (simp add: sample_field_def field_value_def)
  with t show ?thesis by blast
qed

text \<open>The size of a sample record on the wire.\<close>

lemma wire_size_bound: "length u \<le> n \<Longrightarrow> wire_size (JStr u) \<le> 2 + 12 * n"
  using wire_size_text [of u] by linarith

lemma sample_payload_size: "payload_encode (PStr ''Ada'') = Inr b \<Longrightarrow> length b \<le> 1000"
  using length_render(1) [of "JObj [(''kind'', JStr ''json''), (''value'', JStr ''Ada'')]"]
  by (auto simp: payload_encode_def non_finite_def json_of_value_def dump_payload_def hex_digit_def simp del: render.simps)

lemma sample_context_size: "i \<in> {''r1'', ''r2''} \<Longrightarrow> wire_size (JObj (aad_payload (issue_context sample_source (sample_issue i) None ''name''))) \<le> 20000"
proof -
  assume i: "i \<in> {''r1'', ''r2''}"
  have hex: "lower_hex 64 sample_recipient_id" using recipient_key_id_Inr [OF sample_recipient_ok] by blast
  have "length (mapping_plan_digest sample_plan) = 64" using sha256_hex_lower by (simp add: mapping_plan_digest_def lower_hex_def)
  then have "wire_size (JStr (mapping_plan_digest sample_plan)) \<le> 770" using wire_size_bound [of _ 64] by simp
  moreover have "wire_size (JStr sample_recipient_id) \<le> 770" using wire_size_bound [of _ 64] hex by (simp add: lower_hex_def)
  moreover have "wire_size (JStr (isoformat 0)) \<le> 386" using wire_size_bound [OF length_isoformat] by simp
  moreover have "wire_size (JStr i) \<le> 26" using i by auto
  moreover have "wire_size (JInt 3) = 2" by (simp add: show_int_def show_nat.simps [of 3])
  ultimately show ?thesis
    unfolding aad_payload_def issue_context_def sample_issue_def sample_source_def
    by (simp add: sample_plan_def hex_digit_def del: wire_size.simps(5)) (simp add: hex_digit_def)
qed

lemma sealed_lengths:
  assumes "seal_for_recipient pr m raw c now eph nonce = Inr e" "\<And>k n m d. length (chacha_seal pr k n m d) = 16 + length m"
  shows "length (env_epk e) = 32" "length (env_nonce e) = 12" "length (env_ciphertext e) = 16 + length m"
proof -
  obtain shared where "x25519_exchange pr eph raw = Some shared"
    using assms(1) by (cases "x25519_exchange pr eph raw") (simp_all add: seal_for_recipient_def)
  then obtain key where e: "OpaqueEnvelope (x25519_public pr eph) nonce (chacha_seal pr key nonce m (aad c)) = Inr e"
    using assms(1) by (auto simp: seal_for_recipient_def)
  then have "e = \<lparr>env_epk = x25519_public pr eph, env_nonce = nonce, env_ciphertext = chacha_seal pr key nonce m (aad c)\<rparr>" "envelope_wf e"
    unfolding OpaqueEnvelope_Inr by blast+
  then show "length (env_epk e) = 32" "length (env_nonce e) = 12" "length (env_ciphertext e) = 16 + length m"
    using assms(2) by (simp_all add: envelope_wf_def)
qed

lemma signature_size: "length b = 64 \<Longrightarrow> wire_size (JStr (b64_encode b)) \<le> 1058"
  using wire_size_bound [of "b64_encode b" 88] by (simp add: length_b64_encode del: wire_size.simps)

lemma sample_record_size:
  assumes "prepare_authorized_record honest_primitives no_strptime sample_source (sample_issue i) [(''name'', PStr ''Ada'')]
      (\<lambda>_. sample_draw) = Inr t" "i \<in> {''r1'', ''r2''}"
  shows "length (canonical_wire_bytes t) \<le> 100000"
proof -
  let ?c = "issue_context sample_source (sample_issue i) None ''name''"
  have ttl: "expiry sample_source (sample_issue i) = None" by (simp add: expiry_def sample_source_def)
  obtain f where f: "btr_fields t = [f]" "seal_field honest_primitives no_strptime sample_source (sample_issue i) None
      [(''name'', PStr ''Ada'')] sample_rule sample_draw = Inr f" and id: "btr_record_id t = i"
  proof -
    have rid: "is_record_id (sample_issue i) = i" by (simp add: sample_issue_def)
    show thesis using prepared_Inr [OF assms(1)] that by (simp add: sample_rules ttl rid) (elim conjE exE, metis)
  qed
  obtain source v b e where *: "by_id (sa_source_schema sample_source) ''name'' = Some source"
    "transformed_value no_strptime source sample_rule (field_value [(''name'', PStr ''Ada'')] (fd_id source)) = Inr v" "payload_encode v = Inr b"
    "seal_for_recipient honest_primitives b (is_public_key (sample_issue i)) ?c
        (Aware (sd_now sample_draw) 0) (sd_ephemeral sample_draw) (sd_nonce sample_draw) = Inr e"
    "f = \<lparr>sf_target_field_id = ''name'', sf_context = ?c, sf_envelope = e\<rparr>"
    using seal_field_Inr [OF f(2)] by (auto simp: sample_rule_def)
  have "mapped_value no_strptime sample_source [(''name'', PStr ''Ada'')] sample_rule = Inr (''name'', v)"
    using *(1,2) by (simp add: mapped_value_def) (simp add: sample_rule_def)
  then have "v = PStr ''Ada''" using sample_mapped by simp
  then have b: "length b \<le> 1000" using sample_payload_size *(3) by simp
  note len = sealed_lengths [OF *(4) honest_sealed]
  have "wire_size (JStr (b64_encode (env_epk e))) \<le> 530" "wire_size (JStr (b64_encode (env_nonce e))) \<le> 194"
    "wire_size (JStr (b64_encode (env_ciphertext e))) \<le> 17000"
    using wire_size_bound [of "b64_encode (env_epk e)" 44] wire_size_bound [of "b64_encode (env_nonce e)" 16]
      wire_size_bound [of "b64_encode (env_ciphertext e)" 1360] len b
    by (simp_all add: length_b64_encode del: wire_size.simps) linarith?
  then have envelope: "wire_size (JObj (OpaqueEnvelope_to_wire e)) \<le> 20000"
    unfolding OpaqueEnvelope_to_wire_def by (simp del: wire_size.simps(5))
  have field: "wire_size (SealedField_to_wire f) \<le> 50000"
    using envelope sample_context_size [OF assms(2)] unfolding SealedField_to_wire_def *(5)
    by (simp del: wire_size.simps(7) add: hex_digit_def) (simp add: hex_digit_def)
  have sk: "sa_signing_key sample_source = Some (sample_public_key, \<lambda>_. replicate 64 CHR ''s'')" "sa_protocol_version sample_source = 3"
    by (simp_all add: sample_source_def)
  have auth: "btr_authentication t = Some \<lparr>auth_key_id = sha256_hex sample_public_key, auth_signature = replicate 64 CHR ''s'',
      auth_algorithm = ''ed25519''\<rparr>"
    using prepared_signed [OF assms(1) sk(2,1)] by blast
  have "wire_size (JStr (sha256_hex sample_public_key)) \<le> 770"
    using wire_size_bound [of "sha256_hex sample_public_key" 64] sha256_hex_lower [of sample_public_key] by (simp add: lower_hex_def del: wire_size.simps)
  moreover have "wire_size (JStr (b64_encode (replicate 64 CHR ''s''))) \<le> 1058"
    by (rule signature_size) simp
  ultimately have "wire_size (JObj (RecordAuthentication_to_wire (the (btr_authentication t)))) \<le> 3000"
    unfolding auth RecordAuthentication_to_wire_def by (simp add: hex_digit_def del: wire_size.simps(5)) (simp add: hex_digit_def)
  moreover have "wire_size (JStr ''opaque-record'') \<le> 160"
    using wire_size_bound [of "''opaque-record''" 13] by (simp del: wire_size.simps)
  moreover have "wire_size (JStr i) \<le> 26" using assms(2) by auto
  moreover have "protocol_version t = 3" using prepared_attributes(1) [OF assms(1)] sk(2) by simp
  moreover have "wire_size (JInt 3) = 2" by (simp add: show_int_def show_nat.simps [of 3])
  ultimately have "wire_size (JObj (to_wire t)) \<le> 100000"
    using field unfolding to_wire_def content_wire_def
    by (simp add: auth f(1) id hex_digit_def del: wire_size.simps(5))
  then show ?thesis using length_json_encode [of "JObj (to_wire t)"] by (simp add: canonical_wire_bytes_def)
qed

lemma sample_static: "static_recipient honest_primitives sample_source = Inr (x25519_public honest_primitives sample_private, sample_recipient_id)"
  using sample_recipient by (simp add: recipient_key_at_def)

lemma sample_batch_run: "\<exists>ts. prepare_records honest_primitives no_strptime sample_source
      [[(''name'', PStr ''Ada'')], [(''name'', PStr ''Ada'')]] [''r1'', ''r2''] (Some ''t1'') ''u'' DEFAULT_SOURCE_BATCH_WIRE_BYTES
      (\<lambda>_. 0) (\<lambda>_ _. sample_draw) Missing None = (Inr ts, None)"
proof -
  obtain t1 t2 where t: "prepare_authorized_record honest_primitives no_strptime sample_source (sample_issue ''r1'') [(''name'', PStr ''Ada'')]
      (\<lambda>_. sample_draw) = Inr t1" "prepare_authorized_record honest_primitives no_strptime sample_source (sample_issue ''r2'')
      [(''name'', PStr ''Ada'')] (\<lambda>_. sample_draw) = Inr t2"
    using sample_prepared [of "''r1''"] sample_prepared [of "''r2''"] by blast
  have size: "length (canonical_wire_bytes t1) \<le> 100000" "length (canonical_wire_bytes t2) \<le> 100000"
    using sample_record_size t by blast+
  then have "prepare_records honest_primitives no_strptime sample_source [[(''name'', PStr ''Ada'')], [(''name'', PStr ''Ada'')]]
      [''r1'', ''r2''] (Some ''t1'') ''u'' DEFAULT_SOURCE_BATCH_WIRE_BYTES (\<lambda>_. 0) (\<lambda>_ _. sample_draw) Missing None = (Inr [t1, t2], None)"
    using t by (simp add: prepare_records_def sample_static sample_identifiers batch_recipient_at_def sample_issue_def
        DEFAULT_SOURCE_BATCH_WIRE_BYTES_def MAX_SOURCE_BATCH_RECORDS_def Let_def)
  then show ?thesis by blast
qed

theorem prepared_batch_is_complete_witness:
  "\<exists>ts. map btr_record_id ts = [''r1'', ''r2''] \<and> records_wire_bytes ts \<le> DEFAULT_SOURCE_BATCH_WIRE_BYTES"
proof -
  obtain ts where run: "prepare_records honest_primitives no_strptime sample_source
      [[(''name'', PStr ''Ada'')], [(''name'', PStr ''Ada'')]] [''r1'', ''r2''] (Some ''t1'') ''u'' DEFAULT_SOURCE_BATCH_WIRE_BYTES
      (\<lambda>_. 0) (\<lambda>_ _. sample_draw) Missing None = (Inr ts, None)"
    using sample_batch_run by (elim exE)
  note facts = prepared_batch_is_complete [OF run]
  show ?thesis by (rule exI [of _ ts]) (rule conjI, (use facts in fast)+)
qed

end
