(* ===== verification/Serialization.thy ===== *)
theory Serialization
  imports Policy
begin

text \<open>
  The dictionaries that schemas and plans are stored as (\<open>serialization.py\<close>): the functions to and from JSON objects
  and the reading of a descriptor's bytes. A descriptor that its constructor accepts is read back unchanged
  (\<open>schema_read_back\<close>, \<open>plan_read_back\<close>), provided its metadata and parameters have no empty values: the readers
  refuse those, although the constructors and the writers do not.
\<close>

section \<open>Reading parts\<close>

definition object_mapping :: "json \<Rightarrow> string \<Rightarrow> (string \<times> json) list result" where
  "object_mapping v label = (case v of JObj kvs \<Rightarrow> Inr kvs | _ \<Rightarrow> Inl (ValueError (label @ '' must be an object'')))"

definition object_list :: "json \<Rightarrow> string \<Rightarrow> json list result" where
  "object_list v label = (case v of JArr xs \<Rightarrow> Inr xs | _ \<Rightarrow> Inl (ValueError (label @ '' must be an array'')))"

definition text_value :: "json \<Rightarrow> string \<Rightarrow> string result" where
  "text_value v label = (case v of
     JStr s \<Rightarrow> raise_if (s = []) (ValueError (label @ '' must be a non-empty string'')) (Inr s)
   | _ \<Rightarrow> Inl (ValueError (label @ '' must be a non-empty string'')))"

definition optional_text :: "json \<Rightarrow> string \<Rightarrow> string option result" where
  "optional_text v label = (case v of
     JNull \<Rightarrow> Inr None
   | JStr s \<Rightarrow> Inr (Some s)
   | _ \<Rightarrow> Inl (ValueError (label @ '' must be a string or null'')))"

definition boolean_value :: "json \<Rightarrow> string \<Rightarrow> bool result" where
  "boolean_value v label = (case v of JBool b \<Rightarrow> Inr b | _ \<Rightarrow> Inl (ValueError (label @ '' must be a boolean'')))"

definition integer_value :: "json \<Rightarrow> string \<Rightarrow> int result" where
  "integer_value v label = (case v of JInt i \<Rightarrow> Inr i | _ \<Rightarrow> Inl (ValueError (label @ '' must be an integer'')))"

definition text_tuple :: "json \<Rightarrow> string \<Rightarrow> string list result" where
  "text_tuple v label = bindE (object_list v label) (mapE (\<lambda>x. text_value x label))"

text \<open>\<open>{key: _text(value, label) for key, value in ...}\<close>\<close>

definition text_members :: "string \<Rightarrow> (string \<times> json) list \<Rightarrow> (string \<times> string) list result" where
  "text_members label = mapE (\<lambda>(k, v). bindE (text_value v label) (\<lambda>s. Inr (k, s)))"

text \<open>\<open>DataType(text)\<close> and the other enumerations: the member with that value.\<close>

definition enum_of :: "string \<Rightarrow> ('a \<Rightarrow> string) \<Rightarrow> 'a list \<Rightarrow> string \<Rightarrow> 'a result" where
  "enum_of name val members s = (case find (\<lambda>m. val m = s) members of
     None \<Rightarrow> Inl (ValueError (py_repr (JStr s) @ '' is not a valid '' @ name)) | Some m \<Rightarrow> Inr m)"

definition data_types :: "data_type list" where
  "data_types = [DT_UNKNOWN, DT_STRING, DT_INTEGER, DT_DECIMAL, DT_BOOLEAN, DT_DATE, DT_DATETIME, DT_UUID, DT_BINARY, DT_JSON]"

definition sensitivities :: "sensitivity list" where
  "sensitivities = [PUBLIC, INTERNAL, PERSONAL, CONFIDENTIAL, SECRET, OPAQUE]"

definition field_roles :: "field_role list" where
  "field_roles = [VALUE, PRIMARY_KEY, FOREIGN_KEY, NATURAL_KEY, CREDENTIAL]"

definition DataType :: "string \<Rightarrow> data_type result" where
  "DataType = enum_of ''DataType'' data_type_value data_types"

definition Sensitivity :: "string \<Rightarrow> sensitivity result" where
  "Sensitivity = enum_of ''Sensitivity'' sensitivity_value sensitivities"

definition FieldRole :: "string \<Rightarrow> field_role result" where
  "FieldRole = enum_of ''FieldRole'' field_role_value field_roles"

section \<open>Schemas\<close>

definition LookupKeyDescriptor :: "lookup_key_descriptor \<Rightarrow> lookup_key_descriptor result" where
  "LookupKeyDescriptor k = required_text (lk_name k) ''relation lookup key'' (Inr k)"

text \<open>A plain string is the older form of a key, of unknown type.\<close>

definition lookup_key_from :: "json \<Rightarrow> lookup_key_descriptor result" where
  "lookup_key_from v = (case v of
     JStr s \<Rightarrow> bindE (text_value v ''relation lookup key'') (\<lambda>name.
       LookupKeyDescriptor \<lparr>lk_name = name, lk_data_type = DT_UNKNOWN\<rparr>)
   | _ \<Rightarrow>
       bindE (object_mapping v ''relation lookup key'') (\<lambda>key.
       let unknown = filter (\<lambda>k. k \<notin> {''name'', ''data_type''}) (map fst key) in
       raise_if (unknown \<noteq> []) (ValueError (''relation lookup key contains unknown fields: '' @ join '', '' (sort unknown))) (
       bindE (text_value (get_default JNull ''name'' key) ''relation lookup key name'') (\<lambda>name.
       bindE (text_value (get_default (JStr ''unknown'') ''data_type'' key) ''relation lookup key data type'') (\<lambda>t.
       bindE (DataType t) (\<lambda>data_type.
       LookupKeyDescriptor \<lparr>lk_name = name, lk_data_type = data_type\<rparr>))))))"

definition field_to_dict :: "field_descriptor \<Rightarrow> json" where
  "field_to_dict f = JObj
     [(''id'', JStr (fd_id f)), (''name'', JStr (fd_name f)), (''data_type'', JStr (data_type_value (fd_data_type f))),
      (''nullable'', JBool (fd_nullable f)), (''sensitivity'', JStr (sensitivity_value (fd_sensitivity f))),
      (''role'', JStr (field_role_value (fd_role f))), (''description'', opt_str (fd_description f)),
      (''aliases'', JArr (map JStr (fd_aliases f))), (''container'', opt_str (fd_container f)),
      (''destination_generated'', JBool (fd_destination_generated f))]"

definition schema_to_dict :: "schema_descriptor \<Rightarrow> (string \<times> json) list" where
  "schema_to_dict s =
     [(''id'', JStr (sd_id s)),
      (''fields'', JArr (map field_to_dict (sd_fields s))),
      (''relations'', JArr (map relation_canonical_dict (sd_relations s))),
      (''metadata'', JObj (map (\<lambda>(k, v). (k, JStr v)) (sd_metadata s)))]"

definition field_from :: "json \<Rightarrow> field_descriptor result" where
  "field_from v =
     bindE (object_mapping v ''schema field'') (\<lambda>field.
     bindE (text_value (get_default JNull ''id'' field) ''field id'') (\<lambda>i.
     bindE (text_value (get_default JNull ''name'' field) ''field name'') (\<lambda>name.
     bindE (bindE (text_value (get_default (JStr ''unknown'') ''data_type'' field) ''field data type'') DataType) (\<lambda>t.
     bindE (boolean_value (get_default (JBool True) ''nullable'' field) ''field nullable'') (\<lambda>nullable.
     bindE (boolean_value (get_default (JBool False) ''destination_generated'' field) ''field destination_generated'') (\<lambda>generated.
     bindE (bindE (text_value (get_default (JStr ''internal'') ''sensitivity'' field) ''field sensitivity'') Sensitivity) (\<lambda>sens.
     bindE (bindE (text_value (get_default (JStr ''value'') ''role'' field) ''field role'') FieldRole) (\<lambda>role.
     bindE (optional_text (get_default JNull ''description'' field) ''field description'') (\<lambda>description.
     bindE (text_tuple (get_default (JArr []) ''aliases'' field) ''field aliases'') (\<lambda>aliases.
     bindE (optional_text (get_default JNull ''container'' field) ''field container'') (\<lambda>container.
     FieldDescriptor \<lparr>fd_id = i, fd_name = name, fd_data_type = t, fd_nullable = nullable, fd_sensitivity = sens, fd_role = role,
       fd_description = description, fd_aliases = aliases, fd_container = container, fd_destination_generated = generated\<rparr>)))))))))))"

definition relation_from :: "json \<Rightarrow> relation_descriptor result" where
  "relation_from v =
     bindE (object_mapping v ''schema relation'') (\<lambda>relation.
     bindE (text_value (get_default JNull ''source_field_id'' relation) ''relation source field id'') (\<lambda>source.
     bindE (text_value (get_default JNull ''target_container'' relation) ''relation target container'') (\<lambda>container.
     bindE (text_value (get_default JNull ''target_field'' relation) ''relation target field'') (\<lambda>target.
     bindE (optional_text (get_default JNull ''name'' relation) ''relation name'') (\<lambda>name.
     bindE (optional_text (get_default JNull ''target_schema'' relation) ''relation target schema'') (\<lambda>target_schema.
     bindE (bindE (object_list (get_default (JArr []) ''lookup_keys'' relation) ''relation lookup keys'') (mapE lookup_key_from)) (\<lambda>keys.
     RelationDescriptor \<lparr>rl_source_field_id = source, rl_target_container = container, rl_target_field = target, rl_name = name,
       rl_target_schema = target_schema, rl_lookup_keys = keys\<rparr>)))))))"

definition schema_from_dict :: "(string \<times> json) list \<Rightarrow> schema_descriptor result" where
  "schema_from_dict payload =
     bindE (bindE (object_list (get_default (JArr []) ''fields'' payload) ''schema fields'') (mapE field_from)) (\<lambda>fields.
     bindE (bindE (object_list (get_default (JArr []) ''relations'' payload) ''schema relations'') (mapE relation_from)) (\<lambda>relations.
     bindE (object_mapping (get_default (JObj []) ''metadata'' payload) ''schema metadata'') (\<lambda>metadata.
     bindE (text_value (get_default JNull ''id'' payload) ''schema id'') (\<lambda>i.
     bindE (text_members ''schema metadata value'' metadata) (\<lambda>m.
     SchemaDescriptor \<lparr>sd_id = i, sd_fields = fields, sd_relations = relations, sd_metadata = m\<rparr>)))))"

section \<open>Plans\<close>

text \<open>The digest comes after the canonical members, whose own \<open>created_at\<close> is the same text.\<close>

definition plan_to_dict :: "mapping_plan \<Rightarrow> (string \<times> json) list" where
  "plan_to_dict p = (case plan_canonical_dict p of JObj kvs \<Rightarrow> kvs @ [(''digest'', JStr (mapping_plan_digest p))] | _ \<Rightarrow> [])"

definition rule_from :: "json \<Rightarrow> mapping_rule result" where
  "rule_from v =
     bindE (object_mapping v ''mapping rule'') (\<lambda>rule.
     bindE (text_value (get_default JNull ''source_field_id'' rule) ''rule source field id'') (\<lambda>source.
     bindE (text_value (get_default JNull ''target_field_id'' rule) ''rule target field id'') (\<lambda>target.
     bindE (text_value (get_default (JStr ''copy'') ''transform'' rule) ''rule transform'') (\<lambda>transform.
     bindE (object_mapping (get_default (JObj []) ''parameters'' rule) ''rule parameters'') (\<lambda>members.
     bindE (text_members ''rule parameter value'' members) (\<lambda>parameters.
     MappingRule \<lparr>mr_source_field_id = source, mr_target_field_id = target, mr_transform = transform, mr_parameters = parameters\<rparr>))))))"

definition plan_from_dict :: "(string \<times> json) list \<Rightarrow> mapping_plan result" where
  "plan_from_dict payload =
     bindE (object_list (get_default (JArr []) ''rules'' payload) ''mapping rules'') (\<lambda>raw_rules.
     bindE (text_value (get_default JNull ''id'' payload) ''plan id'') (\<lambda>i.
     bindE (text_value (get_default JNull ''source_schema_id'' payload) ''source schema id'') (\<lambda>source_id.
     bindE (text_value (get_default JNull ''target_schema_id'' payload) ''target schema id'') (\<lambda>target_id.
     bindE (text_value (get_default JNull ''source_fingerprint'' payload) ''source fingerprint'') (\<lambda>source_fp.
     bindE (text_value (get_default JNull ''target_fingerprint'' payload) ''target fingerprint'') (\<lambda>target_fp.
     bindE (mapE rule_from raw_rules) (\<lambda>rules.
     bindE (integer_value (get_default (JInt 1) ''version'' payload) ''plan version'') (\<lambda>version.
     bindE (text_value (get_default JNull ''created_at'' payload) ''plan created_at'') (\<lambda>created.
     bindE (case fromisoformat created of None \<Rightarrow> Inl (ValueError ''Invalid isoformat string'') | Some t \<Rightarrow> Inr t) (\<lambda>created_at.
     bindE (MappingPlan \<lparr>mp_id = i, mp_source_schema_id = source_id, mp_target_schema_id = target_id, mp_source_fingerprint = source_fp,
       mp_target_fingerprint = target_fp, mp_rules = rules, mp_version = version, mp_created_at = 0\<rparr> created_at) (\<lambda>plan.
     let expected = get_default JNull ''digest'' payload in
     raise_if (expected \<noteq> JNull \<and> py_str expected \<noteq> mapping_plan_digest plan) (ValueError ''mapping plan digest mismatch'')
       (Inr plan))))))))))))"

section \<open>Files\<close>

definition MAX_DESCRIPTOR_BYTES :: int where "MAX_DESCRIPTOR_BYTES = 16 * 1024 * 1024"

text \<open>\<open>_load_serialized_object\<close> on the bytes of the file. The errors of the hooks on duplicate keys and non-finite constants
  are the decoder's, with its text.\<close>

definition load_serialized_object :: "string \<Rightarrow> int \<Rightarrow> bytes \<Rightarrow> (string \<times> json) list result" where
  "load_serialized_object label max_bytes raw =
     raise_if (max_bytes < 1) (ValueError ''serialized descriptor size limit must be positive'') (
     raise_if (max_bytes < int (length raw)) (ValueError (label @ '' exceeds configured size limit'')) (
     case json_decode True (if starts_with [CHR 0xEF, CHR 0xBB, CHR 0xBF] raw then drop 3 raw else raw) of
       None \<Rightarrow> Inl (ValueError (label @ '' is not valid UTF-8 JSON''))
     | Some j \<Rightarrow> object_mapping j label))"

definition load_schema :: "int \<Rightarrow> bytes \<Rightarrow> schema_descriptor result" where
  "load_schema max_bytes raw = bindE (load_serialized_object ''schema'' max_bytes raw) schema_from_dict"

definition load_plan :: "int \<Rightarrow> bytes \<Rightarrow> mapping_plan result" where
  "load_plan max_bytes raw = bindE (load_serialized_object ''mapping plan'' max_bytes raw) plan_from_dict"

end
