(* ===== verification/SerializationProofs.thy ===== *)
theory SerializationProofs
  imports Serialization
begin

text \<open>
  What the stored dictionaries of schemas and plans keep. A descriptor is \<open>ok\<close> when its constructor stores it
  unchanged, which is what every value the program holds satisfies.
\<close>

lemma get_default_Cons [simp]:
  "get_default v k ((l, w) # d) = (if l = k then w else get_default v k d)" "get_default v k [] = v"
  by (simp_all add: get_default_def)

lemma text_value_JStr: "text_value (JStr s) label = (if s = [] then Inl (ValueError (label @ '' must be a non-empty string'')) else Inr s)"
  by (simp add: text_value_def)

lemma optional_text_opt_str [simp]: "optional_text (opt_str s) label = Inr s"
  by (cases s) (simp_all add: optional_text_def opt_str_def)

lemma enums_read [simp]:
  "DataType (data_type_value t) = Inr t" "Sensitivity (sensitivity_value s) = Inr s" "FieldRole (field_role_value r) = Inr r"
  by ((cases t; simp add: DataType_def enum_of_def data_types_def), (cases s; simp add: Sensitivity_def enum_of_def sensitivities_def),
      (cases r; simp add: FieldRole_def enum_of_def field_roles_def))

lemma enum_values_nonempty [simp]: "data_type_value t \<noteq> []" "sensitivity_value s \<noteq> []" "field_role_value r \<noteq> []"
  by ((cases t; simp), (cases s; simp), (cases r; simp))

lemma field_eta [simp]: "\<lparr>fd_id = fd_id f, fd_name = fd_name f, fd_data_type = fd_data_type f, fd_nullable = fd_nullable f,
    fd_sensitivity = fd_sensitivity f, fd_role = fd_role f, fd_description = fd_description f, fd_aliases = fd_aliases f,
    fd_container = fd_container f, fd_destination_generated = fd_destination_generated f\<rparr> = f"
  by (rule field_descriptor.equality) simp_all

lemma lookup_key_eta [simp]: "\<lparr>lk_name = lk_name k, lk_data_type = lk_data_type k\<rparr> = k"
  by (rule lookup_key_descriptor.equality) simp_all

lemma relation_eta [simp]: "\<lparr>rl_source_field_id = rl_source_field_id r, rl_target_container = rl_target_container r,
    rl_target_field = rl_target_field r, rl_name = rl_name r, rl_target_schema = rl_target_schema r,
    rl_lookup_keys = rl_lookup_keys r\<rparr> = r"
  by (rule relation_descriptor.equality) simp_all

lemma schema_eta [simp]: "\<lparr>sd_id = sd_id s, sd_fields = sd_fields s, sd_relations = sd_relations s, sd_metadata = sd_metadata s\<rparr> = s"
  by (rule schema_descriptor.equality) simp_all

lemma mapE_through: "list_all (\<lambda>x. f (g x) = Inr x) xs \<Longrightarrow> mapE f (map g xs) = Inr xs"
  by (induction xs) simp_all

lemma required_text_nonempty: "required_text v label k = Inr x \<Longrightarrow> v \<noteq> []"
  by (auto simp: required_text_def strip_def)

lemma required_texts_Inr: "required_texts label vs k = Inr x \<Longrightarrow> k = Inr x \<and> [] \<notin> set vs"
  by (induction vs) (auto simp: required_text_def strip_def)

lemma text_tuple_map: "[] \<notin> set vs \<Longrightarrow> text_tuple (JArr (map JStr vs)) label = Inr vs"
  by (induction vs) (auto simp: text_tuple_def object_list_def text_value_JStr)

lemma text_members_map:
  "text_members label (map (\<lambda>(k, v). (k, JStr v)) m) =
     (if list_all (\<lambda>(k, v). v \<noteq> []) m then Inr m else Inl (ValueError (label @ '' must be a non-empty string'')))"
  by (induction m) (auto simp: text_members_def text_value_JStr)

section \<open>Schemas\<close>

definition field_ok :: "field_descriptor \<Rightarrow> bool" where
  "field_ok f = (FieldDescriptor f = Inr f)"

definition relation_ok :: "relation_descriptor \<Rightarrow> bool" where
  "relation_ok r = (RelationDescriptor r = Inr r \<and> list_all (\<lambda>k. LookupKeyDescriptor k = Inr k) (rl_lookup_keys r))"

definition schema_ok :: "schema_descriptor \<Rightarrow> bool" where
  "schema_ok s = (SchemaDescriptor s = Inr s \<and> list_all field_ok (sd_fields s) \<and> list_all relation_ok (sd_relations s))"

lemma field_roundtrip:
  assumes "field_ok f"
  shows "field_from (field_to_dict f) = Inr f"
proof -
  have ok: "FieldDescriptor f = Inr f" using assms by (simp add: field_ok_def)
  then have "fd_id f \<noteq> []" "fd_name f \<noteq> []" "[] \<notin> set (fd_aliases f)"
    by (auto simp: FieldDescriptor_def required_text_def strip_def dest!: required_texts_Inr)
  then show ?thesis
    by (simp add: field_from_def field_to_dict_def object_mapping_def text_value_JStr boolean_value_def text_tuple_map ok)
qed

lemma lookup_key_roundtrip: "LookupKeyDescriptor k = Inr k \<Longrightarrow> lookup_key_from (lookup_canonical_dict k) = Inr k"
  using required_text_nonempty [of "lk_name k" "''relation lookup key''" "Inr k" k]
  by (simp add: LookupKeyDescriptor_def) (simp add: lookup_key_from_def lookup_canonical_dict_def object_mapping_def text_value_JStr LookupKeyDescriptor_def)

lemma relation_roundtrip:
  assumes "relation_ok r"
  shows "relation_from (relation_canonical_dict r) = Inr r"
proof -
  have ok: "RelationDescriptor r = Inr r" using assms by (simp add: relation_ok_def)
  then have "rl_source_field_id r \<noteq> []" "rl_target_container r \<noteq> []" "rl_target_field r \<noteq> []"
    by (auto simp: RelationDescriptor_def required_text_def strip_def)
  moreover have "mapE lookup_key_from (map lookup_canonical_dict (rl_lookup_keys r)) = Inr (rl_lookup_keys r)"
    using assms by (intro mapE_through) (simp add: relation_ok_def list_all_iff lookup_key_roundtrip)
  ultimately show ?thesis
    by (simp add: relation_from_def relation_canonical_dict_def object_mapping_def object_list_def text_value_JStr ok)
qed

text \<open>
  A schema that its constructors accept is read back unchanged from the dictionary it is stored as, provided that
  its metadata has no empty value; with an empty one, reading it back raises although storing it does not.
\<close>

lemma schema_read_back:
  assumes "schema_ok s"
  shows "schema_from_dict (schema_to_dict s) = (if list_all (\<lambda>(k, v). v \<noteq> []) (sd_metadata s) then Inr s
    else Inl (ValueError ''schema metadata value must be a non-empty string''))"
proof -
  have ok: "SchemaDescriptor s = Inr s" using assms by (simp add: schema_ok_def)
  then have i: "sd_id s \<noteq> []" by (auto simp: SchemaDescriptor_def required_text_def strip_def)
  have "mapE field_from (map field_to_dict (sd_fields s)) = Inr (sd_fields s)"
    "mapE relation_from (map relation_canonical_dict (sd_relations s)) = Inr (sd_relations s)"
    using assms by (auto intro!: mapE_through simp: schema_ok_def list_all_iff field_roundtrip relation_roundtrip)
  with i show ?thesis
    by (simp add: schema_from_dict_def schema_to_dict_def object_list_def object_mapping_def text_value_JStr text_members_map ok)
qed

section \<open>Plans\<close>

text \<open>Parameters are a dictionary: they are stored, and therefore read back, in the order of their keys.\<close>

definition sorted_rule :: "mapping_rule \<Rightarrow> mapping_rule" where
  "sorted_rule r = r\<lparr>mr_parameters := sort_key fst (mr_parameters r)\<rparr>"

definition sorted_plan :: "mapping_plan \<Rightarrow> mapping_plan" where
  "sorted_plan p = p\<lparr>mp_rules := map sorted_rule (mp_rules p)\<rparr>"

definition rule_ok :: "mapping_rule \<Rightarrow> bool" where
  "rule_ok r = (MappingRule r = Inr r \<and> distinct (map fst (mr_parameters r)))"

definition plan_ok :: "mapping_plan \<Rightarrow> bool" where
  "plan_ok p = (MappingPlan p (Aware (mp_created_at p) 0) = Inr p \<and> list_all rule_ok (mp_rules p)
     \<and> mp_source_fingerprint p \<noteq> [] \<and> mp_target_fingerprint p \<noteq> [])"

definition values_given :: "mapping_rule \<Rightarrow> bool" where
  "values_given r = list_all (\<lambda>(k, v). v \<noteq> []) (mr_parameters r)"

definition parameters_given :: "mapping_plan \<Rightarrow> bool" where
  "parameters_given p = list_all values_given (mp_rules p)"

lemma rule_eta [simp]: "\<lparr>mr_source_field_id = mr_source_field_id r, mr_target_field_id = mr_target_field_id r,
    mr_transform = mr_transform r, mr_parameters = ps\<rparr> = r\<lparr>mr_parameters := ps\<rparr>"
  by (rule mapping_rule.equality) simp_all

lemma MappingRule_sorted: "MappingRule r = Inr r \<Longrightarrow> MappingRule (r\<lparr>mr_parameters := ps\<rparr>) = Inr (r\<lparr>mr_parameters := ps\<rparr>)"
  by (simp add: MappingRule_def rule_text_def)

lemma sort_key_idem [simp]: "sort_key f (sort_key f xs) = sort_key f xs"
  by (rule sort_key_id_if_sorted) simp

lemma sorted_rule_dict [simp]: "rule_canonical_dict (sorted_rule r) = rule_canonical_dict r"
  by (simp add: sorted_rule_def rule_canonical_dict_def)

lemma sorted_plan_digest: "mapping_plan_digest (sorted_plan p) = mapping_plan_digest p"
  by (simp add: mapping_plan_digest_def plan_canonical_dict_def sorted_plan_def comp_def)

lemma rule_from_dict:
  assumes "rule_ok r"
  shows "rule_from (rule_canonical_dict r) = (if values_given r then Inr (sorted_rule r)
    else Inl (ValueError ''rule parameter value must be a non-empty string''))"
proof -
  have ok: "MappingRule r = Inr r" using assms by (simp add: rule_ok_def)
  then have "mr_source_field_id r \<noteq> []" "mr_target_field_id r \<noteq> []" "mr_transform r \<noteq> []"
    by (auto simp: MappingRule_def rule_text_def strip_def)
  moreover have "list_all P (sort_key fst (mr_parameters r)) = list_all P (mr_parameters r)" for P by (simp add: list_all_iff)
  ultimately show ?thesis
    by (simp add: rule_from_def rule_canonical_dict_def object_mapping_def text_value_JStr text_members_map MappingRule_sorted [OF ok]
        values_given_def sorted_rule_def)
qed

lemma rules_from_dicts:
  "list_all rule_ok rs \<Longrightarrow> mapE rule_from (map rule_canonical_dict rs) =
     (if list_all values_given rs then Inr (map sorted_rule rs)
      else Inl (ValueError ''rule parameter value must be a non-empty string''))"
  by (induction rs) (simp_all add: rule_from_dict)

lemma MappingPlan_fields:
  assumes "MappingPlan p (Aware (mp_created_at p) 0) = Inr p"
  shows "mp_id p \<noteq> []" "mp_source_schema_id p \<noteq> []" "mp_target_schema_id p \<noteq> []" "time_valid (mp_created_at p)" "1 \<le> mp_version p"
  using assms by (auto simp: MappingPlan_def astimezone_utc_def raise_if_def split: if_splits)

lemma MappingPlan_intro:
  "mp_id p \<noteq> [] \<Longrightarrow> mp_source_schema_id p \<noteq> [] \<Longrightarrow> mp_target_schema_id p \<noteq> [] \<Longrightarrow> 1 \<le> mp_version p \<Longrightarrow> time_valid t \<Longrightarrow>
   MappingPlan p (Aware t 0) = Inr (p\<lparr>mp_created_at := t\<rparr>)"
  by (simp add: MappingPlan_def astimezone_utc_def)

lemma plan_read_back:
  assumes "plan_ok p"
  shows "plan_from_dict (plan_to_dict p) = (if parameters_given p then Inr (sorted_plan p)
    else Inl (ValueError ''rule parameter value must be a non-empty string''))"
proof -
  have "MappingPlan p (Aware (mp_created_at p) 0) = Inr p" and rules: "list_all rule_ok (mp_rules p)"
    and fp: "mp_source_fingerprint p \<noteq> []" "mp_target_fingerprint p \<noteq> []"
    using assms by (simp_all add: plan_ok_def)
  note f = MappingPlan_fields [OF this(1)]
  have eta: "\<lparr>mp_id = mp_id p, mp_source_schema_id = mp_source_schema_id p, mp_target_schema_id = mp_target_schema_id p,
      mp_source_fingerprint = mp_source_fingerprint p, mp_target_fingerprint = mp_target_fingerprint p,
      mp_rules = map sorted_rule (mp_rules p), mp_version = mp_version p, mp_created_at = mp_created_at p\<rparr> = sorted_plan p"
    by (rule mapping_plan.equality) (simp_all add: sorted_plan_def)
  show ?thesis
    using f fp rules_from_dicts [OF rules]
    by (simp add: plan_from_dict_def plan_to_dict_def plan_canonical_dict_def object_list_def integer_value_def text_value_JStr
        parameters_given_def fromisoformat_isoformat MappingPlan_intro eta Let_def)
      (simp add: sorted_plan_digest [unfolded mapping_plan_digest_def plan_canonical_dict_def] mapping_plan_digest_def plan_canonical_dict_def)
qed

section \<open>Plans in JSON text\<close>

text \<open>A JSON text with sorted keys reads back as the same dictionary in the order of its keys.\<close>

lemma get_default_canon:
  "distinct (map fst kvs) \<Longrightarrow> get_default v k (sort_key fst (canon_members kvs)) = (case map_of kvs k of None \<Rightarrow> v | Some w \<Rightarrow> canon w)"
  by (simp add: get_default_def map_of_canon split: option.splits)

lemma member_keys [simp]: "map (fst \<circ> (\<lambda>(k, v). (k, JStr v))) ps = map fst ps"
  by (simp add: case_prod_unfold comp_def)

lemma distinct_sort_key [simp]: "distinct (map fst (sort_key f ps)) = distinct (map fst ps)"
  using mset_eq_imp_distinct_iff [of "map fst (sort_key f ps)" "map fst ps"] by simp

lemma canon_parameters [simp]:
  "sort_key fst (canon_members (map (\<lambda>(k, v). (k, JStr v)) (sort_key fst ps))) = map (\<lambda>(k, v). (k, JStr v)) (sort_key fst ps)"
proof -
  have "canon_members (map (\<lambda>(k, v). (k, JStr v)) (sort_key fst ps)) = map (\<lambda>(k, v). (k, JStr v)) (sort_key fst ps)"
    by (simp add: canon_members_map comp_def case_prod_unfold)
  then show ?thesis using sort_key_id_if_sorted [of fst "map (\<lambda>(k, v). (k, JStr v)) (sort_key fst ps)"] by simp
qed

lemma rule_from_canon: "rule_from (canon (rule_canonical_dict r)) = rule_from (rule_canonical_dict r)"
  unfolding rule_from_def rule_canonical_dict_def canon.simps object_mapping_def json.case bindE_simps
  by (subst get_default_canon, simp)+ (simp add: object_mapping_def)

lemma plan_to_dict_eq:
  "plan_to_dict p =
     [(''id'', JStr (mp_id p)), (''source_schema_id'', JStr (mp_source_schema_id p)),
      (''target_schema_id'', JStr (mp_target_schema_id p)), (''source_fingerprint'', JStr (mp_source_fingerprint p)),
      (''target_fingerprint'', JStr (mp_target_fingerprint p)), (''rules'', JArr (map rule_canonical_dict (mp_rules p))),
      (''version'', JInt (mp_version p)), (''created_at'', JStr (isoformat (mp_created_at p))), (''digest'', JStr (mapping_plan_digest p))]"
  by (simp add: plan_to_dict_def plan_canonical_dict_def)

lemma rules_from_canon: "mapE rule_from (canon_elems (map rule_canonical_dict rs)) = mapE rule_from (map rule_canonical_dict rs)"
  by (induction rs) (simp_all add: rule_from_canon)

lemma plan_from_canon: "plan_from_dict (sort_key fst (canon_members (plan_to_dict p))) = plan_from_dict (plan_to_dict p)"
proof -
  have d: "distinct (map fst (plan_to_dict p))" by (simp add: plan_to_dict_eq)
  show ?thesis
    unfolding plan_from_dict_def get_default_canon [OF d]
    unfolding plan_to_dict_eq by (simp add: object_list_def rules_from_canon)
qed

lemma rule_readable: "rule_ok r \<Longrightarrow> readable (rule_canonical_dict r)"
  by (auto simp: rule_canonical_dict_def rule_ok_def readable_members_iff)

lemma plan_readable: "plan_ok p \<Longrightarrow> readable (JObj (plan_to_dict p))"
  by (auto simp: plan_to_dict_eq readable_elems_iff rule_readable plan_ok_def list_all_iff)

lemma plan_text_read_back:
  "plan_ok p \<Longrightarrow> json_loads st (json_dumps_ascii (JObj (plan_to_dict p))) = Some (JObj (sort_key fst (canon_members (plan_to_dict p))))"
  using json_roundtrip_ascii [of "JObj (plan_to_dict p)" st] readable_canon(1) [OF plan_readable] by simp

end
