(* ===== verification/Recipes.thy ===== *)
theory Recipes
  imports SerializationProofs
begin

text \<open>
  The recipe store (\<open>recipes.py\<close>): approved plans remembered by the structure of their schemas, and the outcomes of
  their runs, which open a circuit when a recipe keeps being rejected. The two SQLite tables are lists of rows in
  insertion order; a new identifier, the clock reading and the new plan's identifier are arguments.
\<close>

datatype run_outcome = SUCCESS | RUN_QUARANTINED | REJECTED

fun run_outcome_value :: "run_outcome \<Rightarrow> string" where
  "run_outcome_value SUCCESS = ''success''"
| "run_outcome_value RUN_QUARANTINED = ''quarantined''"
| "run_outcome_value REJECTED = ''rejected''"

datatype health_state = UNOBSERVED | HEALTHY | DEGRADED | SUSPENDED

record recipe_health =
  rh_recipe_id :: string
  rh_state :: health_state
  rh_auto_reuse_allowed :: bool
  rh_rejection_threshold :: int
  rh_total_runs :: nat
  rh_successful_runs :: nat
  rh_quarantined_runs :: nat
  rh_rejected_runs :: nat
  rh_consecutive_rejections :: nat
  rh_last_outcome :: "run_outcome option"
  rh_last_reason_code :: "string option"
  rh_last_occurred_at :: "py_datetime option"

record recipe =
  rc_id :: string
  rc_version :: int
  rc_source_structural_fingerprint :: string
  rc_target_structural_fingerprint :: string
  rc_plan :: mapping_plan
  rc_approved_by :: string
  rc_created_at :: py_datetime

record recipe_row =
  rr_id :: string
  rr_version :: int
  rr_source_fingerprint :: string
  rr_target_fingerprint :: string
  rr_plan_json :: string
  rr_plan_digest :: string
  rr_approved_by :: string
  rr_created_at :: string

record run_row =
  ru_id :: nat
  ru_recipe_id :: string
  ru_plan_digest :: string
  ru_outcome :: string
  ru_reason_code :: "string option"
  ru_occurred_at :: string

record recipe_db =
  rd_recipes :: "recipe_row list"
  rd_runs :: "run_row list"

section \<open>Activation\<close>

definition rebind :: "recipe \<Rightarrow> schema_descriptor \<Rightarrow> schema_descriptor \<Rightarrow> string \<Rightarrow> int \<Rightarrow> mapping_plan result" where
  "rebind r source_schema target_schema uuid now =
     raise_if (structural_fingerprint source_schema \<noteq> rc_source_structural_fingerprint r)
       (IntegrityError ''recipe source structure does not match the current source'') (
     raise_if (structural_fingerprint target_schema \<noteq> rc_target_structural_fingerprint r)
       (IntegrityError ''recipe target structure does not match the current destination'') (
     bindE (MappingPlan \<lparr>mp_id = uuid, mp_source_schema_id = sd_id source_schema, mp_target_schema_id = sd_id target_schema,
         mp_source_fingerprint = fingerprint source_schema, mp_target_fingerprint = fingerprint target_schema,
         mp_rules = mp_rules (rc_plan r), mp_version = rc_version r, mp_created_at = now\<rparr> (Aware now 0)) (\<lambda>rebound.
     let report = validate_plan rebound source_schema target_schema in
     bindE (raise_if_invalid report) (\<lambda>_.
     raise_if (requires_review report)
       (PolicyViolation ''recipe rebind requires review under the current schema'') (Inr rebound)))))"

section \<open>The store\<close>

definition max_version :: "recipe_row list \<Rightarrow> int" where
  "max_version rs = foldl max 0 (map rr_version rs)"

definition of_structure :: "string \<Rightarrow> string \<Rightarrow> recipe_row \<Rightarrow> bool" where
  "of_structure source_fp target_fp x = (rr_source_fingerprint x = source_fp \<and> rr_target_fingerprint x = target_fp)"

definition remember :: "mapping_plan \<Rightarrow> schema_descriptor \<Rightarrow> schema_descriptor \<Rightarrow> string \<Rightarrow> string \<Rightarrow> int \<Rightarrow> recipe_db
    \<Rightarrow> (recipe \<times> recipe_db) result" where
  "remember plan source_schema target_schema approved_by uuid now db =
     (let report = validate_plan plan source_schema target_schema in
     bindE (raise_if_invalid report) (\<lambda>_.
     raise_if (requires_review report) (PolicyViolation ''a recipe can only remember a review-free validated plan'') (
     let source_fp = structural_fingerprint source_schema; target_fp = structural_fingerprint target_schema;
         version = max_version (filter (of_structure source_fp target_fp) (rd_recipes db)) + 1;
         row = \<lparr>rr_id = uuid, rr_version = version, rr_source_fingerprint = source_fp, rr_target_fingerprint = target_fp,
           rr_plan_json = json_dumps_ascii (JObj (plan_to_dict plan)), rr_plan_digest = mapping_plan_digest plan,
           rr_approved_by = approved_by, rr_created_at = isoformat now\<rparr>
     in raise_if (list_ex (\<lambda>x. rr_id x = uuid \<or> of_structure source_fp target_fp x \<and> rr_version x = version) (rd_recipes db))
          SqliteError (
        Inr (\<lparr>rc_id = uuid, rc_version = version, rc_source_structural_fingerprint = source_fp,
            rc_target_structural_fingerprint = target_fp, rc_plan = plan, rc_approved_by = approved_by, rc_created_at = Aware now 0\<rparr>,
          db\<lparr>rd_recipes := rd_recipes db @ [row]\<rparr>)))))"

definition row_to_recipe :: "recipe_row \<Rightarrow> recipe result" where
  "row_to_recipe x =
     bindE (case json_loads False (rr_plan_json x) of
         None \<Rightarrow> Inl (IntegrityError ''stored recipe plan is invalid'')
       | Some (JObj payload) \<Rightarrow> (case plan_from_dict payload of
             Inl (ValueError _) \<Rightarrow> Inl (IntegrityError ''stored recipe plan is invalid'')
           | Inl (KeyError _) \<Rightarrow> Inl (IntegrityError ''stored recipe plan is invalid'')
           | r \<Rightarrow> r)
       | Some _ \<Rightarrow> Inl (AttributeError ''get'')) (\<lambda>plan.
     raise_if (mapping_plan_digest plan \<noteq> rr_plan_digest x) (IntegrityError ''stored recipe plan digest does not match'') (
     case fromisoformat (rr_created_at x) of
       None \<Rightarrow> Inl (ValueError ''Invalid isoformat string'')
     | Some t \<Rightarrow> Inr \<lparr>rc_id = rr_id x, rc_version = rr_version x, rc_source_structural_fingerprint = rr_source_fingerprint x,
         rc_target_structural_fingerprint = rr_target_fingerprint x, rc_plan = plan, rc_approved_by = rr_approved_by x,
         rc_created_at = t\<rparr>))"

text \<open>\<open>ORDER BY version DESC LIMIT 1\<close>: versions of one structure are distinct.\<close>

definition latest :: "recipe_row list \<Rightarrow> recipe_row option" where
  "latest rs = (if rs = [] then None else Some (last (sort_key rr_version rs)))"

definition found :: "recipe_row option \<Rightarrow> recipe option result" where
  "found row = (case row of None \<Rightarrow> Inr None | Some x \<Rightarrow> bindE (row_to_recipe x) (\<lambda>r. Inr (Some r)))"

definition find_recipe :: "schema_descriptor \<Rightarrow> schema_descriptor \<Rightarrow> recipe_db \<Rightarrow> recipe option result" where
  "find_recipe source_schema target_schema db =
     found (latest (filter (of_structure (structural_fingerprint source_schema) (structural_fingerprint target_schema)) (rd_recipes db)))"

definition get_recipe :: "string \<Rightarrow> recipe_db \<Rightarrow> recipe option result" where
  "get_recipe i db = found (select_one (\<lambda>x. rr_id x = i) (rd_recipes db))"

section \<open>Runs\<close>

definition next_run_id :: "run_row list \<Rightarrow> nat" where
  "next_run_id runs = Suc (foldl max 0 (map ru_id runs))"

definition record_run :: "recipe \<Rightarrow> mapping_plan \<Rightarrow> run_outcome \<Rightarrow> string option \<Rightarrow> int \<Rightarrow> recipe_db \<Rightarrow> recipe_db result" where
  "record_run r plan outcome reason_code now db =
     raise_if (case reason_code of None \<Rightarrow> False | Some c \<Rightarrow> \<not> machine_id 128 c)
       (ValueError ''recipe reason code must be a short machine-readable identifier'') (
     raise_if (\<not> list_ex (\<lambda>x. rr_id x = rc_id r) (rd_recipes db)) SqliteError (
     Inr (db\<lparr>rd_runs := rd_runs db @ [\<lparr>ru_id = next_run_id (rd_runs db), ru_recipe_id = rc_id r,
       ru_plan_digest = mapping_plan_digest plan, ru_outcome = run_outcome_value outcome, ru_reason_code = reason_code,
       ru_occurred_at = isoformat now\<rparr>]\<rparr>)))"

definition RecipeRunOutcome :: "string \<Rightarrow> run_outcome result" where
  "RecipeRunOutcome = enum_of ''RecipeRunOutcome'' run_outcome_value [SUCCESS, RUN_QUARANTINED, REJECTED]"

text \<open>The three queries of \<open>health\<close>, on the runs of one recipe.\<close>

definition runs_of :: "string \<Rightarrow> recipe_db \<Rightarrow> run_row list" where
  "runs_of i db = filter (\<lambda>x. ru_recipe_id x = i) (rd_runs db)"

definition count_outcome :: "run_outcome \<Rightarrow> run_row list \<Rightarrow> nat" where
  "count_outcome outcome = rowcount (\<lambda>x. ru_outcome x = run_outcome_value outcome)"

definition last_run :: "run_row list \<Rightarrow> run_row option" where
  "last_run runs = (if runs = [] then None else Some (last (sort_key ru_id runs)))"

definition rejection_streak :: "run_row list \<Rightarrow> nat" where
  "rejection_streak runs =
     (let barrier = foldl max 0 (map ru_id (filter (\<lambda>x. ru_outcome x \<noteq> run_outcome_value REJECTED) runs))
      in rowcount (\<lambda>x. ru_outcome x = run_outcome_value REJECTED \<and> barrier < ru_id x) runs)"

definition health :: "recipe \<Rightarrow> int \<Rightarrow> recipe_db \<Rightarrow> recipe_health result" where
  "health r rejection_threshold db =
     raise_if (rejection_threshold < 1) (ValueError ''recipe rejection threshold must be at least one'') (
     let runs = runs_of (rc_id r) db; streak = rejection_streak runs; suspended = (rejection_threshold \<le> int streak) in
     bindE (case last_run runs of None \<Rightarrow> Inr (None, None, None)
       | Some x \<Rightarrow> (case (RecipeRunOutcome (ru_outcome x), fromisoformat (ru_occurred_at x)) of
           (Inr o', Some t) \<Rightarrow> Inr (Some o', ru_reason_code x, Some t)
         | _ \<Rightarrow> Inl (IntegrityError ''stored recipe run metadata is invalid''))) (\<lambda>(last_outcome, last_reason, last_time).
     Inr \<lparr>rh_recipe_id = rc_id r,
       rh_state = (if runs = [] then UNOBSERVED else if suspended then SUSPENDED
         else if last_outcome = Some SUCCESS then HEALTHY else DEGRADED),
       rh_auto_reuse_allowed = (\<not> suspended), rh_rejection_threshold = rejection_threshold,
       rh_total_runs = length runs, rh_successful_runs = count_outcome SUCCESS runs,
       rh_quarantined_runs = count_outcome RUN_QUARANTINED runs, rh_rejected_runs = count_outcome REJECTED runs,
       rh_consecutive_rejections = streak, rh_last_outcome = last_outcome, rh_last_reason_code = last_reason,
       rh_last_occurred_at = last_time\<rparr>))"

end
