(* ===== verification/RecipeProofs.thy ===== *)
theory RecipeProofs
  imports Recipes
begin

text \<open>
  What the recipe store promises: a remembered plan is found again (with one exception in its parameters), an
  activated plan is sound for the current schemas, and the health of a recipe is that of its sequence of outcomes.
\<close>

section \<open>Finding what was remembered\<close>

lemma insort_key_last: "f a \<le> f y \<Longrightarrow> insort_key f a (zs @ [y]) = insort_key f a zs @ [y]"
  by (induction zs) auto

lemma sort_key_last: "\<forall>x \<in> set xs. f x \<le> f y \<Longrightarrow> sort_key f (xs @ [y]) = sort_key f xs @ [y]"
  by (induction xs) (auto simp: insort_key_last)

lemma foldl_max_start: "a \<le> foldl max a xs" for a :: "'a::linorder"
proof (induction xs arbitrary: a)
  case (Cons x xs)
  have "max a x \<le> foldl max (max a x) xs" by (rule Cons)
  then show ?case using order_trans [OF max.cobounded1] by simp
qed simp

lemma foldl_max_ge: "x \<in> set xs \<Longrightarrow> x \<le> foldl max a xs" for x :: "'a::linorder"
proof (induction xs arbitrary: a)
  case (Cons y xs)
  then show ?case using order_trans [OF max.cobounded2 foldl_max_start [of "max a y" xs]] by auto
qed simp

lemma foldl_max_in: "foldl max a xs = a \<or> foldl max a xs \<in> set xs" for a :: "'a::linorder"
proof (induction xs arbitrary: a)
  case (Cons x xs)
  then show ?case using Cons [of "max a x"] by (auto simp: max_def split: if_splits)
qed simp

lemma latest_append: "\<forall>x \<in> set rs. rr_version x \<le> rr_version y \<Longrightarrow> latest (rs @ [y]) = Some y"
  by (simp add: latest_def sort_key_last)

lemma max_version_ge: "x \<in> set rs \<Longrightarrow> rr_version x \<le> max_version rs"
  unfolding max_version_def by (rule foldl_max_ge) simp

text \<open>
  C23. A recipe remembered for a pair of schemas is what the next search for them finds, with the plan's parameters in
  the order of their keys; but a plan with an empty parameter value is remembered and makes every later search raise.
\<close>

theorem remembered_recipe_is_found:
  assumes "remember plan s t approved_by uuid now db = Inr (r, db')" "plan_ok plan" "time_valid now"
  shows "find_recipe s t db' = (if parameters_given plan then Inr (Some (r\<lparr>rc_plan := sorted_plan plan\<rparr>))
    else Inl (IntegrityError ''stored recipe plan is invalid''))"
proof -
  let ?P = "of_structure (structural_fingerprint s) (structural_fingerprint t)"
  let ?row = "\<lparr>rr_id = uuid, rr_version = max_version (filter ?P (rd_recipes db)) + 1, rr_source_fingerprint = structural_fingerprint s,
      rr_target_fingerprint = structural_fingerprint t, rr_plan_json = json_dumps_ascii (JObj (plan_to_dict plan)),
      rr_plan_digest = mapping_plan_digest plan, rr_approved_by = approved_by, rr_created_at = isoformat now\<rparr>"
  have r: "db' = db\<lparr>rd_recipes := rd_recipes db @ [?row]\<rparr>"
    "r = \<lparr>rc_id = uuid, rc_version = rr_version ?row, rc_source_structural_fingerprint = structural_fingerprint s,
      rc_target_structural_fingerprint = structural_fingerprint t, rc_plan = plan, rc_approved_by = approved_by, rc_created_at = Aware now 0\<rparr>"
    using assms(1) by (auto simp: remember_def Let_def)
  have "latest (filter ?P (rd_recipes db) @ [?row]) = Some ?row"
    using max_version_ge [of _ "filter ?P (rd_recipes db)"] by (intro latest_append) (auto intro: add_increasing2)
  then have "find_recipe s t db' = found (Some ?row)"
    by (simp add: find_recipe_def r(1)) (simp add: of_structure_def)
  moreover have "row_to_recipe ?row = (if parameters_given plan then Inr (r\<lparr>rc_plan := sorted_plan plan\<rparr>)
      else Inl (IntegrityError ''stored recipe plan is invalid''))"
    using assms(3) by (simp add: row_to_recipe_def plan_text_read_back [OF assms(2)] plan_from_canon plan_read_back [OF assms(2)]
        sorted_plan_digest fromisoformat_isoformat r(2))
  ultimately show ?thesis by (simp add: found_def)
qed

section \<open>Activation\<close>

text \<open>
  C24. A plan a recipe activates has the recipe's rules and version, is bound to the exact schemas it was asked for, is
  sound for them, and needs no review.
\<close>

theorem rebound_plan_is_sound:
  assumes "rebind r s t uuid now = Inr p"
  shows "plan_sound p s t \<and> \<not> requires_review (validate_plan p s t) \<and> mp_rules p = mp_rules (rc_plan r) \<and> mp_version p = rc_version r
    \<and> structural_fingerprint s = rc_source_structural_fingerprint r \<and> structural_fingerprint t = rc_target_structural_fingerprint r"
proof -
  have "valid (validate_plan p s t)" "\<not> requires_review (validate_plan p s t)" "mp_rules p = mp_rules (rc_plan r)"
    "mp_version p = rc_version r" "structural_fingerprint s = rc_source_structural_fingerprint r"
    "structural_fingerprint t = rc_target_structural_fingerprint r"
    using assms by (auto simp: rebind_def Let_def raise_if_invalid_def MappingPlan_def astimezone_utc_def split: if_splits)
  then show ?thesis by (simp add: report_valid)
qed

section \<open>The circuit\<close>

lemma runs_barrier:
  assumes "sorted_wrt (<) (map ru_id (runs @ [x]))"
  shows "foldl max 0 (map ru_id (filter P runs)) < ru_id x \<or> ru_id x = 0"
proof -
  have "\<forall>y \<in> set runs. ru_id y < ru_id x" using assms by (auto simp: sorted_wrt_append)
  moreover have "foldl max 0 (map ru_id (filter P runs)) = 0 \<or> foldl max 0 (map ru_id (filter P runs)) \<in> ru_id ` set runs"
    using foldl_max_in [of 0 "map ru_id (filter P runs)"] by auto
  ultimately show ?thesis by auto
qed

text \<open>The streak of the SQL query is the length of the trailing run of rejections.\<close>

lemma streak_trailing:
  assumes "sorted_wrt (<) (map ru_id runs)" "\<forall>x \<in> set runs. 0 < ru_id x"
  shows "rejection_streak runs = length (takeWhile (\<lambda>x. ru_outcome x = run_outcome_value REJECTED) (rev runs))"
  using assms
proof (induction runs rule: rev_induct)
  case Nil
  then show ?case by (simp add: rejection_streak_def rowcount_def)
next
  case (snoc x runs)
  have less: "\<forall>y \<in> set runs. ru_id y < ru_id x" and pos: "0 < ru_id x" using snoc.prems by (auto simp: sorted_wrt_append)
  have IH: "rejection_streak runs = length (takeWhile (\<lambda>x. ru_outcome x = run_outcome_value REJECTED) (rev runs))"
    using snoc by (simp add: sorted_wrt_append)
  show ?case
  proof (cases "ru_outcome x = run_outcome_value REJECTED")
    case True
    have "foldl max 0 (map ru_id (filter P runs)) < ru_id x" for P
      using runs_barrier [OF snoc.prems(1), of P] pos by simp
    then have "rejection_streak (runs @ [x]) = Suc (rejection_streak runs)"
      using True by (simp add: rejection_streak_def rowcount_def Let_def)
    with True IH show ?thesis by simp
  next
    case False
    have "max (foldl max 0 (map ru_id (filter P runs))) (ru_id x) = ru_id x" for P
      using runs_barrier [OF snoc.prems(1), of P] pos by simp
    then have "rejection_streak (runs @ [x]) = 0"
      using False less by (auto simp: rejection_streak_def rowcount_def Let_def filter_empty_conv)
    with False show ?thesis by simp
  qed
qed

record run_call =
  call_recipe :: recipe
  call_plan :: mapping_plan
  call_outcome :: run_outcome
  call_reason :: "string option"
  call_now :: int

fun record_runs :: "run_call list \<Rightarrow> recipe_db \<Rightarrow> recipe_db result" where
  "record_runs [] db = Inr db"
| "record_runs (c # cs) db = bindE (record_run (call_recipe c) (call_plan c) (call_outcome c) (call_reason c) (call_now c) db) (record_runs cs)"

definition run_of :: "run_call \<Rightarrow> nat \<Rightarrow> run_row" where
  "run_of c n = \<lparr>ru_id = n, ru_recipe_id = rc_id (call_recipe c), ru_plan_digest = mapping_plan_digest (call_plan c),
     ru_outcome = run_outcome_value (call_outcome c), ru_reason_code = call_reason c, ru_occurred_at = isoformat (call_now c)\<rparr>"

text \<open>Identifiers of runs are consecutive, so the table is the numbered list of the calls.\<close>

fun numbered :: "nat \<Rightarrow> run_call list \<Rightarrow> run_row list" where
  "numbered n [] = []"
| "numbered n (c # cs) = run_of c (Suc n) # numbered (Suc n) cs"

lemma numbered_append: "numbered n (ds @ cs) = numbered n ds @ numbered (n + length ds) cs"
  by (induction ds arbitrary: n) simp_all

lemma numbered_ids: "map ru_id (numbered n cs) = [Suc n..<Suc (n + length cs)]"
  by (induction cs arbitrary: n) (simp_all add: run_of_def upt_conv_Cons del: upt_Suc)

lemma next_run_id_numbered: "next_run_id (numbered 0 ds) = Suc (length ds)"
proof -
  have "foldl max 0 [Suc 0..<Suc k] = k" for k by (induction k) simp_all
  then show ?thesis by (simp add: next_run_id_def numbered_ids)
qed

lemma record_runs_table:
  "record_runs cs db = Inr db' \<Longrightarrow> rd_runs db = numbered 0 ds \<Longrightarrow> rd_runs db' = numbered 0 (ds @ cs)"
proof (induction cs arbitrary: db ds)
  case (Cons c cs)
  obtain db1 where step: "record_run (call_recipe c) (call_plan c) (call_outcome c) (call_reason c) (call_now c) db = Inr db1"
    and rest: "record_runs cs db1 = Inr db'" using Cons.prems(1) by auto
  have "rd_runs db1 = rd_runs db @ [run_of c (next_run_id (rd_runs db))]"
    using step by (auto simp: record_run_def run_of_def)
  then have "rd_runs db1 = numbered 0 (ds @ [c])"
    by (simp add: Cons.prems(2) next_run_id_numbered numbered_append)
  from Cons.IH [OF rest this] show ?case by simp
qed simp

definition calls_of :: "string \<Rightarrow> run_call list \<Rightarrow> run_call list" where
  "calls_of i = filter (\<lambda>c. rc_id (call_recipe c) = i)"

lemma numbered_of:
  "map (\<lambda>x. (ru_outcome x, ru_reason_code x, ru_occurred_at x)) (filter (\<lambda>x. ru_recipe_id x = i) (numbered n cs))
    = map (\<lambda>c. (run_outcome_value (call_outcome c), call_reason c, isoformat (call_now c))) (calls_of i cs)"
  by (induction cs arbitrary: n) (simp_all add: run_of_def calls_of_def)

lemma value_inject [simp]: "run_outcome_value a = run_outcome_value b \<longleftrightarrow> a = b"
  by (cases a; cases b) simp_all

lemma RecipeRunOutcome_value [simp]: "RecipeRunOutcome (run_outcome_value a) = Inr a"
  by (cases a) (simp_all add: RecipeRunOutcome_def enum_of_def)

text \<open>
  C25. After any recorded runs, the health of a recipe is that of its own outcomes in order: the counts, the last outcome,
  and a circuit that is open exactly when the last outcomes are at least the threshold's number of rejections in a row.
\<close>

theorem circuit_opens_on_rejections:
  assumes "record_runs cs (db\<lparr>rd_runs := []\<rparr>) = Inr db'" "1 \<le> threshold" "list_all (\<lambda>c. time_valid (call_now c)) cs"
  shows "\<exists>h. health r threshold db' = Inr h \<and> (let os = map call_outcome (calls_of (rc_id r) cs);
      streak = length (takeWhile ((=) REJECTED) (rev os)) in
    rh_total_runs h = length os \<and> rh_successful_runs h = count_list os SUCCESS \<and> rh_rejected_runs h = count_list os REJECTED
    \<and> rh_quarantined_runs h = count_list os RUN_QUARANTINED
    \<and> rh_consecutive_rejections h = streak \<and> rh_auto_reuse_allowed h = (int streak < threshold)
    \<and> rh_last_outcome h = (if os = [] then None else Some (last os))
    \<and> rh_state h = (if os = [] then UNOBSERVED else if threshold \<le> int streak then SUSPENDED
        else if last os = SUCCESS then HEALTHY else DEGRADED))"
proof -
  define runs where "runs = runs_of (rc_id r) db'"
  define own where "own = calls_of (rc_id r) cs"
  have table: "rd_runs db' = numbered 0 cs" using record_runs_table [OF assms(1), of "[]"] by simp
  have cols: "map (\<lambda>x. (ru_outcome x, ru_reason_code x, ru_occurred_at x)) runs
      = map (\<lambda>c. (run_outcome_value (call_outcome c), call_reason c, isoformat (call_now c))) own"
    by (simp add: runs_def runs_of_def table numbered_of own_def)
  have outcomes: "map ru_outcome runs = map run_outcome_value (map call_outcome own)"
    using arg_cong [OF cols, of "map fst"] by (simp add: comp_def)
  have "sorted_wrt (<) (map ru_id (numbered 0 cs))" by (simp add: numbered_ids del: upt_Suc)
  moreover have "ru_id ` set (numbered 0 cs) = {Suc 0..<Suc (length cs)}"
    using arg_cong [OF numbered_ids [of 0 cs], of set] by (simp del: upt_Suc)
  then have "\<forall>x \<in> set (numbered 0 cs). 0 < ru_id x" by fastforce
  ultimately have ids: "sorted_wrt (<) (map ru_id runs)" "\<forall>x \<in> set runs. 0 < ru_id x"
    by (auto simp: runs_def runs_of_def table sorted_wrt_map sorted_wrt_filter)
  have "length (takeWhile (\<lambda>x. ru_outcome x = v) (rev runs)) = length (takeWhile (\<lambda>u. u = v) (rev (map ru_outcome runs)))" for v
    by (simp add: rev_map takeWhile_map comp_def)
  then have streak: "rejection_streak runs = length (takeWhile ((=) REJECTED) (rev (map call_outcome own)))"
    unfolding streak_trailing [OF ids] outcomes
    by (simp add: rev_map takeWhile_map comp_def eq_commute [of REJECTED] del: run_outcome_value.simps)
  have counts: "count_outcome v runs = count_list (map call_outcome own) v" for v
  proof -
    have "count_outcome v runs = count_list (map ru_outcome runs) (run_outcome_value v)"
      by (induction runs) (simp_all add: count_outcome_def rowcount_def)
    also have "\<dots> = count_list (map call_outcome own) v" unfolding outcomes by (induction own) simp_all
    finally show ?thesis .
  qed
  have len: "length runs = length own" and empty: "runs = [] \<longleftrightarrow> own = []" using arg_cong [OF cols, of length] by auto
  have "sort_key ru_id runs = runs" using ids(1) by (intro sort_key_id_if_sorted strict_sorted_imp_sorted) simp
  then have "last_run runs = (if runs = [] then None else Some (last runs))" by (simp add: last_run_def)
  moreover have "own \<noteq> [] \<Longrightarrow> ru_outcome (last runs) = run_outcome_value (call_outcome (last own)) \<and> ru_occurred_at (last runs) = isoformat (call_now (last own))"
    using arg_cong [OF cols, of last] empty by (simp add: last_map)
  moreover have "own \<noteq> [] \<Longrightarrow> time_valid (call_now (last own))"
    using assms(3) last_in_set [of own] by (auto simp: own_def calls_of_def list_all_iff)
  ultimately show ?thesis
    using assms(2) empty len streak counts
    by (cases "own = []") (simp_all add: health_def runs_def [symmetric] own_def [symmetric] Let_def fromisoformat_isoformat last_map not_le)
qed

section \<open>Instances\<close>

definition price :: "data_type \<Rightarrow> field_descriptor" where
  "price t = \<lparr>fd_id = ''price'', fd_name = ''price'', fd_data_type = t, fd_nullable = False, fd_sensitivity = INTERNAL,
     fd_role = VALUE, fd_description = None, fd_aliases = [], fd_container = None, fd_destination_generated = False\<rparr>"

definition price_schema :: "string \<Rightarrow> data_type \<Rightarrow> schema_descriptor" where
  "price_schema i t = \<lparr>sd_id = i, sd_fields = [price t], sd_relations = [], sd_metadata = []\<rparr>"

definition price_plan :: "(string \<times> string) list \<Rightarrow> mapping_plan" where
  "price_plan ps = \<lparr>mp_id = ''p'', mp_source_schema_id = ''s'', mp_target_schema_id = ''t'',
     mp_source_fingerprint = fingerprint (price_schema ''s'' DT_STRING), mp_target_fingerprint = fingerprint (price_schema ''t'' DT_DECIMAL),
     mp_rules = [\<lparr>mr_source_field_id = ''price'', mr_target_field_id = ''price'', mr_transform = ''parse_decimal'', mr_parameters = ps\<rparr>],
     mp_version = 1, mp_created_at = 0\<rparr>"

definition price_recipe :: "(string \<times> string) list \<Rightarrow> recipe" where
  "price_recipe ps = \<lparr>rc_id = ''u'', rc_version = 1, rc_source_structural_fingerprint = structural_fingerprint (price_schema ''s'' DT_STRING),
     rc_target_structural_fingerprint = structural_fingerprint (price_schema ''t'' DT_DECIMAL), rc_plan = price_plan ps,
     rc_approved_by = ''ops'', rc_created_at = Aware 0 0\<rparr>"

lemma price_fields [simp]:
  "sd_id (price_schema i t) = i" "sd_fields (price_schema i t) = [price t]" "fd_id (price t) = ''price''" "fd_nullable (price t) = False"
  "fd_sensitivity (price t) = INTERNAL" "by_id (price_schema i t) ''price'' = Some (price t)"
  by (simp_all add: price_schema_def price_def by_id_def)

lemma price_rule_findings:
  "mr_source_field_id r = ''price'' \<Longrightarrow> mr_target_field_id r = ''price'' \<Longrightarrow> mr_transform r = ''parse_decimal'' \<Longrightarrow>
   rule_findings (price_schema ''s'' DT_STRING) (price_schema ''t'' DT_DECIMAL) [] r = ([], [''price''])"
  by (simp add: rule_findings_def route_findings_def is_known_transform_def TRANSFORM_SPECS_def validate_route_def
      sensitivity_route_safe_def for_sensitivity_def Let_def)

lemma price_valid:
  "validate_plan (price_plan ps\<lparr>mp_id := i, mp_version := v, mp_created_at := now\<rparr>) (price_schema ''s'' DT_STRING) (price_schema ''t'' DT_DECIMAL) = []"
  by (simp add: validate_plan_def price_plan_def header_findings_def price_rule_findings required_findings_def)

lemma sha256_hex_nonempty [simp]: "sha256_hex m \<noteq> []"
  using sha256_hex_lower [of m] by (auto simp: lower_hex_def)

lemma price_plan_ok: "plan_ok (price_plan [(''thousands_separator'', [])])"
  by (simp add: plan_ok_def price_plan_def MappingPlan_def astimezone_utc_def time_valid_def day_us_def rule_ok_def MappingRule_def
      rule_text_def strip_def char_space_def fingerprint_def schema_digest_def)

theorem remembered_recipe_is_found_witness:
  "\<exists>r db'. remember (price_plan [(''thousands_separator'', [])]) (price_schema ''s'' DT_STRING) (price_schema ''t'' DT_DECIMAL)
      ''ops'' ''u'' 0 \<lparr>rd_recipes = [], rd_runs = []\<rparr> = Inr (r, db')
    \<and> find_recipe (price_schema ''s'' DT_STRING) (price_schema ''t'' DT_DECIMAL) db' = Inl (IntegrityError ''stored recipe plan is invalid'')"
proof -
  let ?plan = "price_plan [(''thousands_separator'', [])]"
  have "?plan\<lparr>mp_id := ''p'', mp_version := 1, mp_created_at := 0\<rparr> = ?plan" by (simp add: price_plan_def)
  then have "validate_plan ?plan (price_schema ''s'' DT_STRING) (price_schema ''t'' DT_DECIMAL) = []"
    using price_valid [where ps = "[(''thousands_separator'', [])]" and i = "''p''" and v = 1 and now = 0] by simp
  then obtain r db' where run: "remember ?plan (price_schema ''s'' DT_STRING) (price_schema ''t'' DT_DECIMAL) ''ops'' ''u'' 0
      \<lparr>rd_recipes = [], rd_runs = []\<rparr> = Inr (r, db')"
    by (simp add: remember_def raise_if_invalid_def requires_review_def Let_def)
  moreover have "time_valid 0" by (simp add: time_valid_def day_us_def)
  moreover have "\<not> parameters_given ?plan" by (simp add: parameters_given_def values_given_def price_plan_def)
  ultimately show ?thesis using remembered_recipe_is_found [OF run price_plan_ok] by simp
qed

theorem rebound_plan_is_sound_witness:
  "\<exists>p. rebind (price_recipe []) (price_schema ''s'' DT_STRING) (price_schema ''t'' DT_DECIMAL) ''q'' 0 = Inr p
    \<and> plan_sound p (price_schema ''s'' DT_STRING) (price_schema ''t'' DT_DECIMAL)"
proof -
  have "price_plan []\<lparr>mp_id := ''q'', mp_version := 1, mp_created_at := 0\<rparr> = \<lparr>mp_id = ''q'', mp_source_schema_id = ''s'',
      mp_target_schema_id = ''t'', mp_source_fingerprint = fingerprint (price_schema ''s'' DT_STRING),
      mp_target_fingerprint = fingerprint (price_schema ''t'' DT_DECIMAL), mp_rules = mp_rules (price_plan []), mp_version = 1, mp_created_at = 0\<rparr>"
    by (simp add: price_plan_def)
  then obtain p where run: "rebind (price_recipe []) (price_schema ''s'' DT_STRING) (price_schema ''t'' DT_DECIMAL) ''q'' 0 = Inr p"
    using price_valid [where ps = "[]" and i = "''q''" and v = 1 and now = 0]
    by (simp add: rebind_def price_recipe_def MappingPlan_def astimezone_utc_def time_valid_def day_us_def raise_if_invalid_def
        requires_review_def)
  with rebound_plan_is_sound [OF run] show ?thesis by (intro exI conjI) auto
qed

definition rejected_call :: run_call where
  "rejected_call = \<lparr>call_recipe = price_recipe [], call_plan = price_plan [], call_outcome = REJECTED, call_reason = Some ''schema_drift'',
     call_now = 0\<rparr>"

theorem circuit_opens_on_rejections_witness:
  "\<exists>db' h. record_runs [rejected_call, rejected_call, rejected_call] \<lparr>rd_recipes = [\<lparr>rr_id = ''u'', rr_version = 1,
      rr_source_fingerprint = [], rr_target_fingerprint = [], rr_plan_json = [], rr_plan_digest = [], rr_approved_by = [],
      rr_created_at = []\<rparr>], rd_runs = []\<rparr> = Inr db'
    \<and> health (price_recipe []) 3 db' = Inr h \<and> rh_state h = SUSPENDED \<and> \<not> rh_auto_reuse_allowed h"
proof -
  let ?db = "\<lparr>rd_recipes = [\<lparr>rr_id = ''u'', rr_version = 1, rr_source_fingerprint = [], rr_target_fingerprint = [], rr_plan_json = [],
      rr_plan_digest = [], rr_approved_by = [], rr_created_at = []\<rparr>], rd_runs = []\<rparr>"
  have id: "rc_id (price_recipe []) = ''u''" by (simp add: price_recipe_def)
  have "machine_id 128 ''schema_drift''" by (simp add: machine_id_def isalnum_def char_alnum_def)
  then have "\<exists>db'. record_runs [rejected_call, rejected_call, rejected_call] (?db\<lparr>rd_runs := []\<rparr>) = Inr db'"
    by (simp add: record_run_def rejected_call_def id)
  then obtain db' where run: "record_runs [rejected_call, rejected_call, rejected_call] (?db\<lparr>rd_runs := []\<rparr>) = Inr db'" by blast
  have "time_valid 0" by (simp add: time_valid_def day_us_def)
  then have "list_all (\<lambda>c. time_valid (call_now c)) [rejected_call, rejected_call, rejected_call]" by (simp add: rejected_call_def)
  from circuit_opens_on_rejections [OF run _ this, of 3 "price_recipe []"] run show ?thesis
    by (auto simp: calls_of_def rejected_call_def Let_def)
qed

end
