(* ===== verification/Doubles.thy ===== *)
theory Doubles
  imports Transforms Complex_Main
begin

text \<open>
  Python floats as the rational numbers they denote: the rounding of a rational to 53 significant bits, ties to even, and
  the sum of two floats. Overflow and subnormal numbers are left out; the clocks and timeouts that use this are far from both.
\<close>

definition floor_log2 :: "rat \<Rightarrow> int" where
  "floor_log2 x = (if 1 \<le> x then int (bit_length (nat \<lfloor>x\<rfloor>)) - 1 else - int (bit_length (nat (\<lceil>1 / x\<rceil> - 1))))"

definition round_even :: "rat \<Rightarrow> int" where
  "round_even q = (let n = \<lfloor>q\<rfloor>; f = q - of_int n in if 1 / 2 < f \<or> f = 1 / 2 \<and> odd n then n + 1 else n)"

definition double_of :: "rat \<Rightarrow> rat" where
  "double_of x = (if x = 0 then 0 else let s = 2 powi (floor_log2 \<bar>x\<bar> - 52) in sgn x * of_int (round_even (\<bar>x\<bar> / s)) * s)"

definition double_add :: "rat \<Rightarrow> rat \<Rightarrow> rat" where
  "double_add x y = double_of (x + y)"

definition double_sub :: "rat \<Rightarrow> rat \<Rightarrow> rat" where
  "double_sub x y = double_of (x - y)"

definition double_mul :: "rat \<Rightarrow> rat \<Rightarrow> rat" where
  "double_mul x y = double_of (x * y)"

section \<open>The rounding is to the nearest\<close>

lemma bit_length_eq: "2 ^ k \<le> n \<Longrightarrow> n < 2 ^ Suc k \<Longrightarrow> bit_length n = Suc k"
proof (induction k arbitrary: n)
  case 0
  then have "n = Suc 0" by simp
  then show ?case by (simp add: bit_length.simps [of "Suc 0"] bit_length.simps [of 0])
next
  case (Suc k)
  then have "bit_length (n div 2) = Suc k" by (intro Suc.IH) auto
  moreover have "n \<noteq> 0" using Suc.prems by auto
  ultimately show ?case by (simp add: bit_length.simps [of n])
qed

lemma floor_log2_eq:
  assumes "2 powi e \<le> x" "x < 2 powi (e + 1)"
  shows "floor_log2 x = e"
proof (cases "0 \<le> e")
  case True
  define k where "k = nat e"
  have e: "e = int k" using True by (simp add: k_def)
  have le: "2 ^ k \<le> x" using assms(1) by (simp add: e)
  have "x < 2 powi int (Suc k)" using assms(2) by (simp add: e add.commute)
  then have less: "x < 2 ^ Suc k" by (simp only: power_int_of_nat)
  have "(1 :: rat) \<le> 2 ^ k" by simp
  with le have "1 \<le> x" by linarith
  then obtain n where n: "\<lfloor>x\<rfloor> = int n" by (metis zero_le_floor nonneg_int_cases zero_le_one order_trans)
  moreover have "2 ^ k \<le> \<lfloor>x\<rfloor>" using le by (simp add: le_floor_iff)
  moreover have "\<lfloor>x\<rfloor> < 2 ^ Suc k" using less by (simp add: floor_less_iff)
  ultimately have "bit_length n = Suc k" by (intro bit_length_eq) (simp_all del: power_Suc)
  with \<open>1 \<le> x\<close> n show ?thesis by (simp add: floor_log2_def e)
next
  case False
  define k where "k = nat (- e - 1)"
  have e: "e = - int (Suc k)" using False by (simp add: k_def)
  have "e + 1 = - int k" by (simp add: e)
  then have less: "x < 1 / 2 ^ k" using assms(2) by (simp add: power_int_minus divide_inverse)
  have le: "1 / 2 ^ Suc k \<le> x" using assms(1) unfolding e power_int_minus power_int_of_nat by (simp only: divide_inverse mult_1)
  have "(0 :: rat) < 1 / 2 ^ Suc k" by simp
  with le have x: "0 < x" by linarith
  have "1 / 2 ^ k \<le> (1 :: rat)" by (simp add: divide_le_eq_1)
  with less have small: "x < 1" by linarith
  have up: "1 / x \<le> 2 ^ Suc k" using le x by (simp add: field_simps)
  have low: "2 ^ k < 1 / x" using less x by (simp add: field_simps)
  have c: "\<lceil>1 / x\<rceil> \<le> 2 ^ Suc k" "2 ^ k < \<lceil>1 / x\<rceil>" using up low by (simp_all only: ceiling_le_iff less_ceiling_iff of_int_power of_int_numeral)
  have "(0 :: int) < 2 ^ k" by simp
  with c have "0 \<le> \<lceil>1 / x\<rceil> - 1" by linarith
  then obtain n where n: "\<lceil>1 / x\<rceil> - 1 = int n" by (rule nonneg_int_cases)
  then have "2 ^ k \<le> int n" "int n < 2 ^ Suc k" using c by linarith+
  then have "bit_length n = Suc k" by (intro bit_length_eq) (simp_all del: power_Suc)
  then have "bit_length (nat (\<lceil>1 / x\<rceil> - 1)) = Suc k" by (simp only: n nat_int)
  with small show ?thesis by (simp add: floor_log2_def e)
qed

lemma binade: "0 < x \<Longrightarrow> \<exists>e. 2 powi e \<le> x \<and> x < 2 powi (e + 1)" for x :: rat
proof (cases "1 \<le> x")
  case True
  then obtain n where n: "\<lfloor>x\<rfloor> = int n" by (metis zero_le_floor nonneg_int_cases zero_le_one order_trans)
  with True have "1 \<le> n" by (simp flip: one_le_floor)
  then obtain k where k: "2 ^ k \<le> n" "n < 2 ^ (k + 1)" using ex_power_ivl1 [of 2 n] by auto
  then have "2 ^ k \<le> \<lfloor>x\<rfloor>" "\<lfloor>x\<rfloor> < 2 ^ (k + 1)" by (simp_all add: n del: power_Suc power_add)
  then have "2 ^ k \<le> x" "x < 2 ^ (k + 1)" by (simp_all only: le_floor_iff floor_less_iff of_int_power of_int_numeral)
  then have "2 powi int k \<le> x" "x < 2 powi int (k + 1)" by (simp_all only: power_int_of_nat)
  then show ?thesis by (intro exI [of _ "int k"]) (simp add: add.commute)
next
  case False
  assume x: "0 < x"
  have "1 < 1 / x" using False x by (simp add: field_simps)
  then have "1 < \<lceil>1 / x\<rceil>" by (simp add: less_ceiling_iff)
  then obtain n where n: "\<lceil>1 / x\<rceil> = int n" by (metis nonneg_int_cases less_imp_le order_trans zero_le_one)
  with \<open>1 < \<lceil>1 / x\<rceil>\<close> have "2 \<le> n" by linarith
  then obtain k where k: "2 ^ k < n" "n \<le> 2 ^ (k + 1)" using ex_power_ivl2 [of 2 n] by auto
  then have "2 ^ k < \<lceil>1 / x\<rceil>" "\<lceil>1 / x\<rceil> \<le> 2 ^ (k + 1)" by (simp_all add: n del: power_Suc power_add)
  then have "2 ^ k < 1 / x" "1 / x \<le> 2 ^ (k + 1)" by (simp_all only: less_ceiling_iff ceiling_le_iff of_int_power of_int_numeral)
  then have "x < inverse (2 ^ k)" "inverse (2 ^ (k + 1)) \<le> x" using x by (simp_all add: field_simps)
  then have "x < 2 powi (- int k)" "2 powi (- int (k + 1)) \<le> x" by (simp_all only: power_int_minus power_int_of_nat)
  moreover have "- int (k + 1) + 1 = - int k" by simp
  ultimately show ?thesis by metis
qed

lemma round_even_near: "\<bar>of_int (round_even q) - q\<bar> \<le> 1 / 2"
proof -
  have "of_int \<lfloor>q\<rfloor> \<le> q" "q < of_int \<lfloor>q\<rfloor> + 1" by linarith+
  then show ?thesis by (auto simp: round_even_def Let_def abs_le_iff)
qed

lemma round_even_eq: "\<bar>q - of_int n\<bar> < 1 / 2 \<Longrightarrow> round_even q = n"
  using round_even_near [of q] by linarith

lemma double_of_eq:
  assumes "2 powi e \<le> x" "x < 2 powi (e + 1)" "\<bar>x / 2 powi (e - 52) - of_int n\<bar> < 1 / 2"
  shows "double_of x = of_int n * 2 powi (e - 52)"
proof -
  have "(0 :: rat) < 2 powi e" by simp
  with assms(1) have "0 < x" by linarith
  then show ?thesis using floor_log2_eq [OF assms(1,2)] round_even_eq [OF assms(3)] by (simp add: double_of_def Let_def)
qed

lemma double_of_relative_error: "\<bar>double_of x - x\<bar> \<le> \<bar>x\<bar> / 2 ^ 53"
proof (cases "x = 0")
  case False
  then obtain e where e: "2 powi e \<le> \<bar>x\<bar>" "\<bar>x\<bar> < 2 powi (e + 1)" using binade [of "\<bar>x\<bar>"] by auto
  define s :: rat where "s = 2 powi (e - 52)"
  have s: "0 < s" "2 powi e = s * 2 ^ 52" by (simp_all add: s_def power_int_diff)
  have "double_of x = sgn x * of_int (round_even (\<bar>x\<bar> / s)) * s"
    using False floor_log2_eq [OF e] by (simp add: double_of_def Let_def s_def)
  moreover have "x = sgn x * \<bar>x\<bar>" by (simp add: sgn_mult_abs)
  ultimately have "double_of x - x = sgn x * (of_int (round_even (\<bar>x\<bar> / s)) * s - \<bar>x\<bar>)" by (simp add: algebra_simps)
  then have "\<bar>double_of x - x\<bar> = \<bar>sgn x\<bar> * \<bar>of_int (round_even (\<bar>x\<bar> / s)) * s - \<bar>x\<bar>\<bar>" by (simp only: abs_mult)
  also have "\<dots> = \<bar>of_int (round_even (\<bar>x\<bar> / s)) * s - \<bar>x\<bar>\<bar>" using False by (simp add: sgn_if)
  also have "\<dots> = \<bar>of_int (round_even (\<bar>x\<bar> / s)) - \<bar>x\<bar> / s\<bar> * s"
    using s(1) abs_mult [of "of_int (round_even (\<bar>x\<bar> / s)) - \<bar>x\<bar> / s" s] by (simp add: left_diff_distrib)
  also have "\<dots> \<le> 1 / 2 * s" using round_even_near [of "\<bar>x\<bar> / s"] s(1) by (intro mult_right_mono) simp_all
  also have "\<dots> \<le> \<bar>x\<bar> / 2 ^ 53" using e(1) s(2) by simp
  finally show ?thesis .
qed (simp add: double_of_def)

section \<open>Exact values\<close>

text \<open>Integers of at most 53 bits are floats.\<close>

lemma round_even_int [simp]: "round_even (of_int n) = n"
  by (simp add: round_even_def)

lemma bit_length_bound: "n < 2 ^ k \<Longrightarrow> bit_length n \<le> k"
proof (induction k arbitrary: n)
  case (Suc k)
  then have "bit_length (n div 2) \<le> k" by simp
  then show ?case by (simp add: bit_length.simps [of n])
qed (simp add: bit_length.simps)

lemma double_of_nat: "n < 2 ^ 53 \<Longrightarrow> double_of (of_nat n) = of_nat n"
proof (cases "n = 0")
  case False
  assume "n < 2 ^ 53"
  then have "bit_length n \<le> 53" by (rule bit_length_bound)
  moreover define k where "k = 53 - bit_length n"
  moreover have "floor_log2 (of_nat n) = int (bit_length n) - 1" using False by (simp add: floor_log2_def)
  ultimately have k: "floor_log2 (of_nat n) - 52 = - int k" by simp
  have "(of_nat n :: rat) / 2 powi (- int k) = of_int (int n * 2 ^ k)" by (simp add: power_int_minus divide_inverse)
  then have "round_even (of_nat n / 2 powi (- int k)) = int n * 2 ^ k" by (metis round_even_int)
  then show ?thesis using False by (simp add: double_of_def Let_def k power_int_minus)
qed (simp add: double_of_def)

end
