(* ===== verification/WorkBudget.thy ===== *)
theory WorkBudget
  imports Doubles
begin

text \<open>
  Work budgets of the connectors (\<open>work_budget.py\<close>): the limits, the meter with its counters and deadline, and the
  iterative check of a value's structure, which is proved equivalent to the recursive reading of its limits. A reading of
  the monotonic clock is a float, the rational number it denotes, and so are the timeout and the deadline.
\<close>

section \<open>Budgets\<close>

record work_budget =
  wb_max_total_records :: int
  wb_max_total_bytes :: int
  wb_max_structure_depth :: int
  wb_max_structure_nodes :: int
  wb_max_value_bytes :: int
  wb_max_parquet_row_groups :: int
  wb_max_parquet_metadata_bytes :: int
  wb_max_parquet_row_group_uncompressed_bytes :: int
  wb_max_decoded_batch_bytes :: int
  wb_wall_timeout_seconds :: "rat option"

text \<open>The timeout is \<open>None\<close> when it is not finite.\<close>

definition budget_limits :: "work_budget \<Rightarrow> (string \<times> int) list" where
  "budget_limits b =
     [(''max_total_records'', wb_max_total_records b), (''max_total_bytes'', wb_max_total_bytes b),
      (''max_structure_depth'', wb_max_structure_depth b), (''max_structure_nodes'', wb_max_structure_nodes b),
      (''max_value_bytes'', wb_max_value_bytes b), (''max_parquet_row_groups'', wb_max_parquet_row_groups b),
      (''max_parquet_metadata_bytes'', wb_max_parquet_metadata_bytes b),
      (''max_parquet_row_group_uncompressed_bytes'', wb_max_parquet_row_group_uncompressed_bytes b),
      (''max_decoded_batch_bytes'', wb_max_decoded_batch_bytes b)]"

definition WorkBudget :: "work_budget \<Rightarrow> work_budget result" where
  "WorkBudget b =
     (case find (\<lambda>(_, v). v \<le> 0) (budget_limits b) of
        Some (name, _) \<Rightarrow> Inl (ValueError (name @ '' must be a positive integer''))
      | None \<Rightarrow> (case wb_wall_timeout_seconds b of
          None \<Rightarrow> Inl (ValueError ''wall_timeout_seconds must be a finite positive number'')
        | Some t \<Rightarrow> raise_if (t \<le> 0) (ValueError ''wall_timeout_seconds must be a finite positive number'') (Inr b)))"

section \<open>Meters\<close>

record work_meter =
  wm_budget :: work_budget
  wm_records :: int
  wm_bytes :: int
  wm_deadline :: rat

definition WorkMeter :: "work_budget \<Rightarrow> rat \<Rightarrow> work_meter" where
  "WorkMeter b now = \<lparr>wm_budget = b, wm_records = 0, wm_bytes = 0,
     wm_deadline = double_add now (case wb_wall_timeout_seconds b of None \<Rightarrow> 0 | Some t \<Rightarrow> t)\<rparr>"

definition checkpoint :: "work_meter \<Rightarrow> rat \<Rightarrow> unit result" where
  "checkpoint m now = raise_if (wm_deadline m < now) (WorkBudgetExceeded ''wall_timeout_seconds'') (Inr ())"

definition consume_records :: "work_meter \<Rightarrow> rat \<Rightarrow> int \<Rightarrow> work_meter result" where
  "consume_records m now n =
     raise_if (n < 0) (ValueError ''record count must not be negative'') (
     bindE (checkpoint m now) (\<lambda>_.
     raise_if (wb_max_total_records (wm_budget m) < wm_records m + n) (WorkBudgetExceeded ''max_total_records'') (
     Inr (m\<lparr>wm_records := wm_records m + n\<rparr>))))"

definition consume_bytes :: "work_meter \<Rightarrow> rat \<Rightarrow> int \<Rightarrow> work_meter result" where
  "consume_bytes m now n =
     raise_if (n < 0) (ValueError ''byte count must not be negative'') (
     bindE (checkpoint m now) (\<lambda>_.
     raise_if (wb_max_total_bytes (wm_budget m) < wm_bytes m + n) (WorkBudgetExceeded ''max_total_bytes'') (
     Inr (m\<lparr>wm_bytes := wm_bytes m + n\<rparr>))))"

section \<open>The check of a value's structure\<close>

text \<open>Values as the check tells them apart; \<open>WScalar\<close> is every value it does not look into.\<close>

datatype work_value = WMap "(work_value \<times> work_value) list" | WSeq "work_value list" | WText string | WBytes bytes | WScalar

definition validate_scalar_size :: "work_budget \<Rightarrow> work_value \<Rightarrow> unit result" where
  "validate_scalar_size b v =
     (case (case v of WText s \<Rightarrow> Some (length (utf8_encode s)) | WBytes d \<Rightarrow> Some (length d) | _ \<Rightarrow> None) of
        None \<Rightarrow> Inr ()
      | Some n \<Rightarrow> raise_if (wb_max_value_bytes b < int n) (WorkBudgetExceeded ''max_value_bytes'') (Inr ()))"

text \<open>What one turn of the loop pushes on the stack, whose top is the head of the list.\<close>

fun push_items :: "work_budget \<Rightarrow> int \<Rightarrow> (work_value \<times> work_value) list \<Rightarrow> (work_value \<times> int) list \<Rightarrow> (work_value \<times> int) list result" where
  "push_items b depth [] stack = Inr stack"
| "push_items b depth ((key, v) # kvs) stack =
     bindE (validate_scalar_size b key) (\<lambda>_. push_items b depth kvs ((v, depth + 1) # stack))"

definition expand :: "work_budget \<Rightarrow> work_value \<Rightarrow> int \<Rightarrow> (work_value \<times> int) list \<Rightarrow> (work_value \<times> int) list result" where
  "expand b current depth stack =
     (case current of
        WMap kvs \<Rightarrow> push_items b depth kvs stack
      | WSeq xs \<Rightarrow> Inr (rev (map (\<lambda>x. (x, depth + 1)) xs) @ stack)
      | _ \<Rightarrow> bindE (validate_scalar_size b current) (\<lambda>_. Inr stack))"

text \<open>The number of nodes of a value: itself and, below it, the items of mappings and sequences.\<close>

fun node_count :: "work_value \<Rightarrow> nat" where
  "node_count (WMap kvs) = Suc (sum_list (map (\<lambda>(k, v). node_count v) kvs))"
| "node_count (WSeq xs) = Suc (sum_list (map node_count xs))"
| "node_count _ = 1"

definition stack_nodes :: "(work_value \<times> int) list \<Rightarrow> nat" where
  "stack_nodes st = sum_list (map (\<lambda>(v, d). node_count v) st)"

lemma stack_nodes_simps [simp]:
  "stack_nodes [] = 0" "stack_nodes ((v, d) # st) = node_count v + stack_nodes st" "stack_nodes (s @ t) = stack_nodes s + stack_nodes t"
  by (simp_all add: stack_nodes_def)

lemma stack_nodes_rev [simp]: "stack_nodes (rev s) = stack_nodes s"
  by (simp add: stack_nodes_def rev_map [symmetric])

lemma push_items_nodes: "push_items b d kvs st = Inr st' \<Longrightarrow> stack_nodes st' = sum_list (map (\<lambda>(k, v). node_count v) kvs) + stack_nodes st"
  by (induction b d kvs st rule: push_items.induct) auto

lemma expand_nodes: "expand b v d st = Inr st' \<Longrightarrow> Suc (stack_nodes st') = node_count v + stack_nodes st"
  by (cases v) (auto simp: expand_def comp_def dest: push_items_nodes, auto simp: stack_nodes_def comp_def)

text \<open>
  \<open>validate_structure\<close>: the verdict and how often the clock was read, which is how often the loop turned. \<open>clock i\<close> is
  the reading of turn \<open>i\<close>.
\<close>

function validate_loop :: "work_meter \<Rightarrow> (nat \<Rightarrow> rat) \<Rightarrow> nat \<Rightarrow> (work_value \<times> int) list \<Rightarrow> unit result \<times> nat" where
  "validate_loop m clock nodes [] = (Inr (), nodes)"
| "validate_loop m clock nodes ((current, depth) # stack) =
     (case bindE (checkpoint m (clock nodes)) (\<lambda>_.
        raise_if (wb_max_structure_depth (wm_budget m) < depth) (WorkBudgetExceeded ''max_structure_depth'') (
        raise_if (wb_max_structure_nodes (wm_budget m) < int (Suc nodes)) (WorkBudgetExceeded ''max_structure_nodes'') (
        expand (wm_budget m) current depth stack))) of
        Inl e \<Rightarrow> (Inl e, Suc nodes)
      | Inr stack' \<Rightarrow> validate_loop m clock (Suc nodes) stack')"
  by pat_completeness auto
termination
proof (relation "measure (\<lambda>(m, clock, nodes, stack). stack_nodes stack)")
  fix m :: work_meter and clock and nodes :: nat and current depth stack stack'
  assume "bindE (checkpoint m (clock nodes)) (\<lambda>_.
        raise_if (wb_max_structure_depth (wm_budget m) < depth) (WorkBudgetExceeded ''max_structure_depth'') (
        raise_if (wb_max_structure_nodes (wm_budget m) < int (Suc nodes)) (WorkBudgetExceeded ''max_structure_nodes'') (
        expand (wm_budget m) current depth stack))) = Inr stack'"
  then have "expand (wm_budget m) current depth stack = Inr stack'" by simp
  from expand_nodes [OF this]
  show "((m, clock, Suc nodes, stack'), m, clock, nodes, (current, depth) # stack) \<in> measure (\<lambda>(m, clock, nodes, stack). stack_nodes stack)"
    by simp
qed simp

declare validate_loop.simps(2) [simp del]

definition validate_structure :: "work_meter \<Rightarrow> (nat \<Rightarrow> rat) \<Rightarrow> work_value \<Rightarrow> unit result \<times> nat" where
  "validate_structure m clock v = validate_loop m clock 0 [(v, 1)]"

section \<open>What it decides\<close>

text \<open>The limits read recursively: the depth a value reaches and the sizes of its keys and leaves.\<close>

fun depth_within :: "int \<Rightarrow> int \<Rightarrow> work_value \<Rightarrow> bool" where
  "depth_within limit d (WMap kvs) = (d \<le> limit \<and> list_all (\<lambda>(k, v). depth_within limit (d + 1) v) kvs)"
| "depth_within limit d (WSeq xs) = (d \<le> limit \<and> list_all (depth_within limit (d + 1)) xs)"
| "depth_within limit d _ = (d \<le> limit)"

fun scalars_within :: "work_budget \<Rightarrow> work_value \<Rightarrow> bool" where
  "scalars_within b (WMap kvs) = list_all (\<lambda>(k, v). validate_scalar_size b k = Inr () \<and> scalars_within b v) kvs"
| "scalars_within b (WSeq xs) = list_all (scalars_within b) xs"
| "scalars_within b v = (validate_scalar_size b v = Inr ())"

definition stack_within :: "work_budget \<Rightarrow> (work_value \<times> int) list \<Rightarrow> bool" where
  "stack_within b = list_all (\<lambda>(v, d). depth_within (wb_max_structure_depth b) d v \<and> scalars_within b v)"

lemma push_items_within:
  "(\<exists>st'. push_items b d kvs st = Inr st') \<longleftrightarrow> list_all (\<lambda>(k, v). validate_scalar_size b k = Inr ()) kvs"
  by (induction b d kvs st rule: push_items.induct) auto

lemma push_items_stack:
  "push_items b d kvs st = Inr st' \<Longrightarrow> stack_within b st' \<longleftrightarrow>
     list_all (\<lambda>(k, v). depth_within (wb_max_structure_depth b) (d + 1) v \<and> scalars_within b v) kvs \<and> stack_within b st"
  by (induction b d kvs st rule: push_items.induct) (auto simp: stack_within_def)

lemma expand_within:
  assumes "d \<le> wb_max_structure_depth b"
  shows "stack_within b ((v, d) # st) \<longleftrightarrow> (\<exists>st'. expand b v d st = Inr st' \<and> stack_within b st')"
proof (cases v)
  case (WMap kvs)
  have "list_all (\<lambda>(k, v). P k \<and> Q v) kvs \<longleftrightarrow> list_all (\<lambda>(k, v). P k) kvs \<and> list_all (\<lambda>(k, v). Q v) kvs" for P Q
    by (auto simp: list_all_iff)
  then show ?thesis
    using assms push_items_within [of b d kvs st] push_items_stack [of b d kvs st] WMap
    by (auto simp: expand_def stack_within_def list_all_iff)
qed (use assms in \<open>auto simp: expand_def stack_within_def list_all_iff\<close>)

lemma validate_loop_iff:
  "fst (validate_loop m clock n st) = Inr () \<longleftrightarrow>
     (\<forall>i \<in> {n..<n + stack_nodes st}. clock i \<le> wm_deadline m) \<and> (st = [] \<or> int (n + stack_nodes st) \<le> wb_max_structure_nodes (wm_budget m))
     \<and> stack_within (wm_budget m) st"
proof (induction m clock n st rule: validate_loop.induct)
  case (1 m clock nodes)
  then show ?case by (simp add: stack_within_def)
next
  case (2 m clock n v d st)
  let ?b = "wm_budget m"
  have deep: "stack_within ?b ((v, d) # st) \<Longrightarrow> d \<le> wb_max_structure_depth ?b"
    by (cases v) (simp_all add: stack_within_def)
  have pos: "0 < node_count v" by (cases v) simp_all
  show ?case
  proof (cases "clock n \<le> wm_deadline m \<and> d \<le> wb_max_structure_depth ?b \<and> int (Suc n) \<le> wb_max_structure_nodes ?b
      \<and> (\<exists>st'. expand ?b v d st = Inr st')")
    case True
    then obtain st' where st': "expand ?b v d st = Inr st'" by blast
    have body: "bindE (checkpoint m (clock n)) (\<lambda>_.
        raise_if (wb_max_structure_depth ?b < d) (WorkBudgetExceeded ''max_structure_depth'') (
        raise_if (wb_max_structure_nodes ?b < int (Suc n)) (WorkBudgetExceeded ''max_structure_nodes'') (
        expand ?b v d st))) = Inr st'"
      using True st' by (simp add: checkpoint_def not_less)
    have "validate_loop m clock n ((v, d) # st) = validate_loop m clock (Suc n) st'"
      unfolding validate_loop.simps body by simp
    moreover have "stack_nodes ((v, d) # st) = Suc (stack_nodes st')" using expand_nodes [OF st'] by simp
    moreover have "{n..<n + Suc k} = insert n {Suc n..<Suc n + k}" for k by auto
    moreover have "stack_within ?b ((v, d) # st) = stack_within ?b st'" using expand_within [of d ?b v st] True st' by simp
    moreover have "st' = [] \<Longrightarrow> stack_nodes st' = 0" by simp
    ultimately show ?thesis using 2 [OF body] True by auto
  next
    case False
    have "\<exists>e. validate_loop m clock n ((v, d) # st) = (Inl e, Suc n)"
      using False unfolding validate_loop.simps
      by (auto simp: checkpoint_def raise_if_def bindE_def split: sum.splits)
    then have "fst (validate_loop m clock n ((v, d) # st)) \<noteq> Inr ()" by auto
    moreover have "\<not> ((\<forall>i \<in> {n..<n + stack_nodes ((v, d) # st)}. clock i \<le> wm_deadline m)
        \<and> int (n + stack_nodes ((v, d) # st)) \<le> wb_max_structure_nodes ?b \<and> stack_within ?b ((v, d) # st))"
      using False deep pos expand_within [of d ?b v st] by auto
    ultimately show ?thesis by simp
  qed
qed

text \<open>
  C21. The iterative check accepts a value exactly when its nodes, its depth, its keys and its leaves are within the limits
  and none of the clock readings, one per node, is past the deadline.
\<close>

theorem structure_check_is_exact:
  "fst (validate_structure m clock v) = Inr () \<longleftrightarrow>
     list_all (\<lambda>i. clock i \<le> wm_deadline m) [0..<node_count v] \<and> int (node_count v) \<le> wb_max_structure_nodes (wm_budget m)
     \<and> depth_within (wb_max_structure_depth (wm_budget m)) 1 v \<and> scalars_within (wm_budget m) v"
  by (simp add: validate_structure_def validate_loop_iff stack_within_def list_all_iff)

lemma validate_loop_turns:
  "snd (validate_loop m clock n st) \<le> n + stack_nodes st
   \<and> (n \<le> nat (wb_max_structure_nodes (wm_budget m)) \<longrightarrow> snd (validate_loop m clock n st) \<le> Suc (nat (wb_max_structure_nodes (wm_budget m))))"
proof (induction m clock n st rule: validate_loop.induct)
  case (2 m clock n v d st)
  let ?b = "wm_budget m"
  let ?body = "bindE (checkpoint m (clock n)) (\<lambda>_.
        raise_if (wb_max_structure_depth ?b < d) (WorkBudgetExceeded ''max_structure_depth'') (
        raise_if (wb_max_structure_nodes ?b < int (Suc n)) (WorkBudgetExceeded ''max_structure_nodes'') (
        expand ?b v d st)))"
  have pos: "0 < node_count v" by (cases v) simp_all
  show ?case
  proof (cases ?body)
    case (Inl e)
    then have "snd (validate_loop m clock n ((v, d) # st)) = Suc n" by (simp add: validate_loop.simps)
    with pos show ?thesis by simp
  next
    case (Inr st')
    then have "validate_loop m clock n ((v, d) # st) = validate_loop m clock (Suc n) st'" by (simp add: validate_loop.simps)
    moreover have "stack_nodes ((v, d) # st) = Suc (stack_nodes st')" "Suc n \<le> nat (wb_max_structure_nodes ?b)"
      using Inr expand_nodes [of ?b v d st st'] by (auto simp: not_less)
    ultimately show ?thesis using 2 [OF Inr] by simp
  qed
qed simp

text \<open>
  C22. The check ends after at most one turn more than the limit on nodes allows, however large the value is, and after at
  most one turn per node.
\<close>

theorem structure_check_turns:
  "snd (validate_structure m clock v) \<le> min (node_count v) (Suc (nat (wb_max_structure_nodes (wm_budget m))))"
  using validate_loop_turns [of m clock 0 "[(v, 1)]"] by (simp add: validate_structure_def)

section \<open>Accounting\<close>

datatype consumption = Records int | Bytes int

definition consume :: "work_meter \<Rightarrow> consumption \<times> rat \<Rightarrow> work_meter" where
  "consume m = (\<lambda>(c, now). case (case c of Records n \<Rightarrow> consume_records m now n | Bytes n \<Rightarrow> consume_bytes m now n) of
     Inl _ \<Rightarrow> m | Inr m' \<Rightarrow> m')"

lemma consume_within:
  assumes "0 \<le> wm_records m" "wm_records m \<le> wb_max_total_records (wm_budget m)" "0 \<le> wm_bytes m" "wm_bytes m \<le> wb_max_total_bytes (wm_budget m)"
  shows "wm_budget (consume m c) = wm_budget m" "wm_records m \<le> wm_records (consume m c)"
    "wm_records (consume m c) \<le> wb_max_total_records (wm_budget m)" "wm_bytes m \<le> wm_bytes (consume m c)"
    "wm_bytes (consume m c) \<le> wb_max_total_bytes (wm_budget m)"
  using assms by (auto simp: consume_def consume_records_def consume_bytes_def checkpoint_def raise_if_def bindE_def
      split: consumption.splits sum.splits prod.splits)

text \<open>Whatever is consumed, in any order and past any refusal, the totals stay within a valid budget.\<close>

lemma consumption_within_budget:
  assumes "WorkBudget b = Inr b"
  shows "let m = foldl consume (WorkMeter b now) cs in wm_budget m = b \<and> 0 \<le> wm_records m \<and> wm_records m \<le> wb_max_total_records b
    \<and> 0 \<le> wm_bytes m \<and> wm_bytes m \<le> wb_max_total_bytes b"
proof -
  have "0 < wb_max_total_records b" "0 < wb_max_total_bytes b"
    using assms by (auto simp: WorkBudget_def budget_limits_def split: option.splits if_splits)
  then have start: "wm_budget (WorkMeter b now) = b" "0 \<le> wm_records (WorkMeter b now)" "wm_records (WorkMeter b now) \<le> wb_max_total_records b"
    "0 \<le> wm_bytes (WorkMeter b now)" "wm_bytes (WorkMeter b now) \<le> wb_max_total_bytes b" by (simp_all add: WorkMeter_def)
  have "wm_budget m = b \<Longrightarrow> 0 \<le> wm_records m \<Longrightarrow> wm_records m \<le> wb_max_total_records b \<Longrightarrow> 0 \<le> wm_bytes m \<Longrightarrow> wm_bytes m \<le> wb_max_total_bytes b \<Longrightarrow>
      wm_budget (foldl consume m cs) = b \<and> 0 \<le> wm_records (foldl consume m cs) \<and> wm_records (foldl consume m cs) \<le> wb_max_total_records b
      \<and> 0 \<le> wm_bytes (foldl consume m cs) \<and> wm_bytes (foldl consume m cs) \<le> wb_max_total_bytes b" for m
  proof (induction cs arbitrary: m)
    case (Cons c cs)
    note w = consume_within [of m c]
    show ?case using Cons.prems w by (simp del: split_paired_All) (rule Cons.IH; linarith)
  qed simp
  from this [OF start] show ?thesis by (simp add: Let_def)
qed

end
