(* ===== verification/Sync.thy ===== *)
theory Sync
  imports Doubles RecipientTrust
begin

text \<open>
  The durable state of recurring runs (\<open>sync_state.py\<close>): per route a checkpoint with a cursor, advanced only with a
  receipt of a completed write, and a lease that keeps two runs of a route apart. The two SQLite tables are lists of rows
  keyed by the route. A reading of \<open>time.time()\<close> is a float, the rational it denotes; the tokens of new leases are arguments.
\<close>

section \<open>Cursors\<close>

definition MAX_CURSOR_BYTES :: nat where "MAX_CURSOR_BYTES = 64 * 1024"
definition MAX_CURSOR_NODES :: nat where "MAX_CURSOR_NODES = 4096"
definition MAX_CURSOR_DEPTH :: nat where "MAX_CURSOR_DEPTH = 12"

definition bounded_identifier :: "string \<Rightarrow> string \<Rightarrow> unit result" where
  "bounded_identifier name v =
     raise_if (v = [] \<or> 256 < length v) (SyncStateError (name @ '' must contain 1..256 characters'')) (
     raise_if (list_ex control_char v) (SyncStateError (name @ '' contains control characters'')) (Inr ()))"

text \<open>The recursion returns the counter of nodes seen so far.\<close>

fun validate_cursor :: "json \<Rightarrow> nat \<Rightarrow> nat \<Rightarrow> nat result"
  and validate_cursor_elems :: "json list \<Rightarrow> nat \<Rightarrow> nat \<Rightarrow> nat result"
  and validate_cursor_members :: "(string \<times> json) list \<Rightarrow> nat \<Rightarrow> nat \<Rightarrow> nat result" where
  "validate_cursor v depth counter =
     raise_if (MAX_CURSOR_NODES < Suc counter \<or> MAX_CURSOR_DEPTH < depth)
       (SyncStateError ''sync cursor exceeds the structural safety limit'') (
     case v of
       JStr s \<Rightarrow> raise_if (MAX_CURSOR_BYTES < length s) (SyncStateError ''sync cursor string exceeds the local safety limit'') (Inr (Suc counter))
     | JFloat f \<Rightarrow> raise_if (f \<in> set constants) (SyncStateError ''sync cursor contains a non-finite number'') (Inr (Suc counter))
     | JArr xs \<Rightarrow> validate_cursor_elems xs (Suc depth) (Suc counter)
     | JObj kvs \<Rightarrow> validate_cursor_members kvs (Suc depth) (Suc counter)
     | _ \<Rightarrow> Inr (Suc counter))"
| "validate_cursor_elems [] depth counter = Inr counter"
| "validate_cursor_elems (x # xs) depth counter = bindE (validate_cursor x depth counter) (validate_cursor_elems xs depth)"
| "validate_cursor_members [] depth counter = Inr counter"
| "validate_cursor_members ((k, v) # kvs) depth counter =
     raise_if (256 < length k) (SyncStateError ''sync cursor object keys must be bounded strings'') (
     bindE (validate_cursor v depth counter) (validate_cursor_members kvs depth))"

declare validate_cursor.simps [simp del]

definition cursor_json :: "json \<Rightarrow> string result" where
  "cursor_json cursor =
     bindE (validate_cursor cursor 0 0) (\<lambda>_.
     raise_if (MAX_CURSOR_BYTES < length (utf8_encode (json_dumps_ascii cursor)))
       (SyncStateError ''sync cursor exceeds the local byte limit'') (Inr (json_dumps_ascii cursor)))"

section \<open>Receipts and checkpoints\<close>

definition utc_now :: "int \<Rightarrow> string" where
  "utc_now now = py_replace (isoformat now) ''+00:00'' ''Z''"

record commit_receipt =
  cr_run_id :: string
  cr_committed_records :: int
  cr_completed_at :: string
  cr_outcome :: string

definition CommitReceipt :: "commit_receipt \<Rightarrow> commit_receipt result" where
  "CommitReceipt r =
     bindE (bounded_identifier ''run_id'' (cr_run_id r)) (\<lambda>_.
     raise_if (cr_outcome r \<noteq> ''completed'') (SyncStateError ''only a completed write can create a commit receipt'') (
     raise_if (cr_committed_records r < 0) (SyncStateError ''committed record count cannot be negative'') (
     case fromisoformat (py_replace (cr_completed_at r) ''Z'' ''+00:00'') of
       None \<Rightarrow> Inl (SyncStateError ''commit receipt timestamp is invalid'')
     | Some (Naive _) \<Rightarrow> Inl (SyncStateError ''commit receipt timestamp must include a timezone'')
     | Some (Aware _ _) \<Rightarrow> Inr r)))"

definition receipt_sha256 :: "commit_receipt \<Rightarrow> string" where
  "receipt_sha256 r = sha256_hex (utf8_encode (json_dumps_ascii (JObj
     [(''committed_records'', JInt (cr_committed_records r)), (''completed_at'', JStr (cr_completed_at r)),
      (''outcome'', JStr (cr_outcome r)), (''run_id'', JStr (cr_run_id r))])))"

text \<open>\<open>a or b\<close> on values of \<open>payload.get\<close>\<close>

definition truthy :: "json \<Rightarrow> bool" where
  "truthy v = (v \<notin> {JNull, JBool False, JInt 0, JStr [], JArr [], JObj []} \<and> (case v of JFloat f \<Rightarrow> (case read_decimal f of Some (Decimal _ c _) \<Rightarrow> c \<noteq> 0 | _ \<Rightarrow> True) | _ \<Rightarrow> True))"

definition receipt_from_result :: "(string \<times> json) list \<Rightarrow> string option \<Rightarrow> int \<Rightarrow> commit_receipt result" where
  "receipt_from_result payload run_id now =
     (let status = (let s = get_default JNull ''status'' payload in if truthy s then s else get_default JNull ''outcome'' payload) in
     raise_if (map lower_char (py_str status) \<noteq> ''completed'')
       (SyncStateError ''checkpoint cannot advance from a non-completed write'') (
     bindE (case get_default (get_default (JInt 0) ''committed_records'' payload) ''records_written'' payload of
         JInt n \<Rightarrow> Inr n | JBool b \<Rightarrow> Inr (if b then 1 else 0)
       | _ \<Rightarrow> Inl (SyncStateError ''write result record count is malformed'')) (\<lambda>records.
     bindE (case run_id of Some i \<Rightarrow> Inr i
       | None \<Rightarrow> (case get_default JNull ''run_id'' payload of JStr i \<Rightarrow> Inr i | _ \<Rightarrow> Inr [])) (\<lambda>i.
     raise_if (i = []) (SyncStateError ''write result has no stable run id for checkpoint identity'') (
     CommitReceipt \<lparr>cr_run_id = i, cr_committed_records = records, cr_completed_at = utc_now now, cr_outcome = ''completed''\<rparr>)))))"

record sync_checkpoint =
  sc_route_id :: string
  sc_generation :: int
  sc_cursor :: json
  sc_committed_records :: int
  sc_run_id :: string
  sc_updated_at :: string
  sc_receipt_sha256 :: string

record checkpoint_row =
  cp_route_id :: string
  cp_generation :: int
  cp_cursor_json :: string
  cp_committed_records :: int
  cp_run_id :: string
  cp_updated_at :: string
  cp_receipt_sha256 :: string

record lease_row =
  ls_route_id :: string
  ls_token :: string
  ls_expires_at_epoch :: rat
  ls_acquired_at :: string

record sync_db =
  sy_checkpoints :: "checkpoint_row list"
  sy_leases :: "lease_row list"

definition checkpoint_from_row :: "checkpoint_row \<Rightarrow> sync_checkpoint result" where
  "checkpoint_from_row x = (case json_loads False (cp_cursor_json x) of
     None \<Rightarrow> Inl (ValueError ''Expecting value'')
   | Some c \<Rightarrow> Inr \<lparr>sc_route_id = cp_route_id x, sc_generation = cp_generation x, sc_cursor = c,
       sc_committed_records = cp_committed_records x, sc_run_id = cp_run_id x, sc_updated_at = cp_updated_at x,
       sc_receipt_sha256 = cp_receipt_sha256 x\<rparr>)"

definition checkpoint_at :: "string \<Rightarrow> sync_db \<Rightarrow> checkpoint_row option" where
  "checkpoint_at route db = select_one (\<lambda>x. cp_route_id x = route) (sy_checkpoints db)"

definition get_checkpoint :: "string \<Rightarrow> sync_db \<Rightarrow> sync_checkpoint option result" where
  "get_checkpoint route db =
     bindE (bounded_identifier ''route_id'' route) (\<lambda>_.
     case checkpoint_at route db of None \<Rightarrow> Inr None | Some x \<Rightarrow> bindE (checkpoint_from_row x) (\<lambda>c. Inr (Some c)))"

definition list_checkpoints :: "int \<Rightarrow> sync_db \<Rightarrow> sync_checkpoint list result" where
  "list_checkpoints limit db =
     raise_if (\<not> (1 \<le> limit \<and> limit \<le> 10000)) (SyncStateError ''checkpoint list limit must be between 1 and 10,000'') (
     mapE checkpoint_from_row (take (nat limit) (sort_key cp_route_id (sy_checkpoints db))))"

section \<open>Advancing\<close>

definition MAX_SQLITE_INTEGER :: int where "MAX_SQLITE_INTEGER = 2 ^ 63 - 1"

text \<open>\<open>INSERT ... ON CONFLICT(route_id) DO UPDATE\<close>\<close>

definition put_checkpoint :: "checkpoint_row \<Rightarrow> sync_db \<Rightarrow> sync_db" where
  "put_checkpoint x db = db\<lparr>sy_checkpoints := (if checkpoint_at (cp_route_id x) db = None then sy_checkpoints db @ [x]
     else update_where (\<lambda>y. cp_route_id y = cp_route_id x) (\<lambda>_. x) (sy_checkpoints db))\<rparr>"

definition advance_row :: "string \<Rightarrow> string \<Rightarrow> commit_receipt \<Rightarrow> int \<Rightarrow> sync_db \<Rightarrow> checkpoint_row" where
  "advance_row route cursor r now db =
     (let (generation, records) = (case checkpoint_at route db of None \<Rightarrow> (0, 0) | Some x \<Rightarrow> (cp_generation x, cp_committed_records x))
      in \<lparr>cp_route_id = route, cp_generation = generation + 1, cp_cursor_json = cursor,
           cp_committed_records = records + cr_committed_records r, cp_run_id = cr_run_id r, cp_updated_at = utc_now now,
           cp_receipt_sha256 = receipt_sha256 r\<rparr>)"

text \<open>The transaction: \<open>Inl\<close> is a checkpoint that was committed before, \<open>Inr\<close> the table with the new one.\<close>

definition advance_tx :: "string \<Rightarrow> int \<Rightarrow> string \<Rightarrow> commit_receipt \<Rightarrow> int \<Rightarrow> sync_db \<Rightarrow> (sync_checkpoint + sync_db) result" where
  "advance_tx route expected cursor r now db =
     (case checkpoint_at route db of
        Some x \<Rightarrow> if cp_run_id x = cr_run_id r then
            bindE (checkpoint_from_row x) (\<lambda>existing.
            bindE (if sc_receipt_sha256 existing \<noteq> receipt_sha256 r then Inr True
              else bindE (cursor_json (sc_cursor existing)) (\<lambda>c. Inr (c \<noteq> cursor))) (\<lambda>differs.
            raise_if differs (CheckpointConflict ''run id was already used with different checkpoint evidence'') (Inr (Inl existing))))
          else raise_if (cp_generation x \<noteq> expected) (CheckpointConflict ''checkpoint generation changed before commit'') (
            let y = advance_row route cursor r now db in
            raise_if (MAX_SQLITE_INTEGER < cp_committed_records y \<or> MAX_SQLITE_INTEGER < cp_generation y)
              (OverflowError ''Python int too large to convert to SQLite INTEGER'') (
            raise_if (list_ex (\<lambda>z. cp_route_id z \<noteq> route \<and> cp_run_id z = cr_run_id r) (sy_checkpoints db)) SqliteError (
            Inr (Inr (put_checkpoint y db)))))
      | None \<Rightarrow> raise_if (0 \<noteq> expected) (CheckpointConflict ''checkpoint generation changed before commit'') (
            let y = advance_row route cursor r now db in
            raise_if (MAX_SQLITE_INTEGER < cp_committed_records y)
              (OverflowError ''Python int too large to convert to SQLite INTEGER'') (
            raise_if (list_ex (\<lambda>z. cp_run_id z = cr_run_id r) (sy_checkpoints db)) SqliteError (
            Inr (Inr (put_checkpoint y db))))))"

record advance_call =
  ac_route_id :: string
  ac_expected_generation :: int
  ac_next_cursor :: json
  ac_receipt :: commit_receipt

definition advance :: "advance_call \<Rightarrow> int \<Rightarrow> sync_db \<Rightarrow> sync_checkpoint result \<times> sync_db" where
  "advance c now db =
     (case bindE (bounded_identifier ''route_id'' (ac_route_id c)) (\<lambda>_.
           raise_if (ac_expected_generation c < 0) (SyncStateError ''expected checkpoint generation cannot be negative'') (
           bindE (cursor_json (ac_next_cursor c)) (\<lambda>cursor.
           advance_tx (ac_route_id c) (ac_expected_generation c) cursor (ac_receipt c) now db))) of
        Inl e \<Rightarrow> (Inl e, db)
      | Inr (Inl existing) \<Rightarrow> (Inr existing, db)
      | Inr (Inr db') \<Rightarrow> (bindE (get_checkpoint (ac_route_id c) db') (\<lambda>found.
          case found of None \<Rightarrow> Inl (SyncStateError ''checkpoint commit was not observable'') | Some cp \<Rightarrow> Inr cp), db'))"

section \<open>Leases\<close>

record run_lease =
  rl_route_id :: string
  rl_token :: string
  rl_expires_at_epoch :: rat

definition ttl_ok :: "rat option \<Rightarrow> bool" where
  "ttl_ok ttl = (case ttl of None \<Rightarrow> False | Some t \<Rightarrow> 1 \<le> t \<and> t \<le> 24 * 60 * 60)"

definition lease_at :: "string \<Rightarrow> sync_db \<Rightarrow> lease_row option" where
  "lease_at route db = select_one (\<lambda>x. ls_route_id x = route) (sy_leases db)"

definition put_lease :: "lease_row \<Rightarrow> sync_db \<Rightarrow> sync_db" where
  "put_lease x db = db\<lparr>sy_leases := (if lease_at (ls_route_id x) db = None then sy_leases db @ [x]
     else update_where (\<lambda>y. ls_route_id y = ls_route_id x) (\<lambda>_. x) (sy_leases db))\<rparr>"

definition claim_route :: "string \<Rightarrow> rat option \<Rightarrow> rat \<Rightarrow> int \<Rightarrow> string \<Rightarrow> sync_db \<Rightarrow> run_lease result \<times> sync_db" where
  "claim_route route ttl now wall token db =
     (case bindE (bounded_identifier ''route_id'' route) (\<lambda>_.
           raise_if (\<not> ttl_ok ttl) (SyncStateError ''run lease TTL must be between one second and 24 hours'') (
           raise_if (case lease_at route db of None \<Rightarrow> False | Some x \<Rightarrow> now < ls_expires_at_epoch x)
             (RunLeaseBusy ''another run holds the route lease'') (Inr ()))) of
        Inl e \<Rightarrow> (Inl e, db)
      | Inr _ \<Rightarrow>
          (let expires = double_add now (the ttl);
               row = \<lparr>ls_route_id = route, ls_token = token, ls_expires_at_epoch = expires, ls_acquired_at = utc_now wall\<rparr>
           in (Inr \<lparr>rl_route_id = route, rl_token = token, rl_expires_at_epoch = expires\<rparr>,
               put_lease row db)))"

definition holds_lease :: "run_lease \<Rightarrow> lease_row \<Rightarrow> bool" where
  "holds_lease l x = (ls_route_id x = rl_route_id l \<and> ls_token x = rl_token l)"

definition renew_lease :: "run_lease \<Rightarrow> rat option \<Rightarrow> rat \<Rightarrow> sync_db \<Rightarrow> run_lease result \<times> sync_db" where
  "renew_lease l ttl now db =
     (if \<not> ttl_ok ttl then (Inl (SyncStateError ''run lease TTL must be between one second and 24 hours''), db)
      else (let expires = double_add now (the ttl);
                db' = db\<lparr>sy_leases := update_where (holds_lease l) (\<lambda>x. x\<lparr>ls_expires_at_epoch := expires\<rparr>) (sy_leases db)\<rparr>
            in if rowcount (holds_lease l) (sy_leases db) \<noteq> 1 then (Inl (CheckpointConflict ''run lease was lost before renewal''), db')
               else (Inr (l\<lparr>rl_expires_at_epoch := expires\<rparr>), db')))"

definition release_lease :: "run_lease \<Rightarrow> sync_db \<Rightarrow> unit result \<times> sync_db" where
  "release_lease l db =
     (raise_if (rowcount (holds_lease l) (sy_leases db) \<noteq> 1) (CheckpointConflict ''run lease was lost before release'') (Inr ()),
      db\<lparr>sy_leases := delete_where (holds_lease l) (sy_leases db)\<rparr>)"

section \<open>Schedules\<close>

record schedule_policy =
  sp_interval_seconds :: int
  sp_jitter_seconds :: int

definition SchedulePolicy :: "schedule_policy \<Rightarrow> schedule_policy result" where
  "SchedulePolicy p =
     raise_if (\<not> (1 \<le> sp_interval_seconds p \<and> sp_interval_seconds p \<le> 31 * 24 * 60 * 60))
       (SyncStateError ''schedule interval must be between one second and 31 days'') (
     raise_if (\<not> (0 \<le> sp_jitter_seconds p \<and> sp_jitter_seconds p < sp_interval_seconds p))
       (SyncStateError ''schedule jitter must be smaller than the interval'') (Inr p))"

text \<open>\<open>int.from_bytes(digest[:8], "big")\<close>, from the sixteen hexadecimal digits of those bytes.\<close>

definition leading_word :: "string \<Rightarrow> nat" where
  "leading_word h = foldl (\<lambda>a c. 16 * a + (case hex_val c of None \<Rightarrow> 0 | Some d \<Rightarrow> d)) 0 (take 16 h)"

definition next_due :: "schedule_policy \<Rightarrow> string \<Rightarrow> py_datetime \<Rightarrow> py_datetime result" where
  "next_due p route last_completed =
     bindE (bounded_identifier ''route_id'' route) (\<lambda>_.
     case last_completed of
       Naive _ \<Rightarrow> Inl (SyncStateError ''last completion time must include a timezone'')
     | Aware t off \<Rightarrow>
         (let jitter = (if sp_jitter_seconds p = 0 then 0
            else int (leading_word (sha256_hex (utf8_encode route))) mod (sp_jitter_seconds p + 1));
              due = t + (sp_interval_seconds p + jitter) * 1000000
          in raise_if (\<not> time_valid due) (OverflowError ''date value out of range'') (Inr (Aware due off))))"

end
