(* ===== verification/SyncProofs.thy ===== *)
theory SyncProofs
  imports Sync
begin

text \<open>
  What recurring runs rely on: the checkpoint of a route is the account of the runs that advanced it, a retried advance
  counts nothing twice, and a lease is exclusive while it lasts.
\<close>

section \<open>Rows by key\<close>

lemma find_update_where:
  "(\<And>y. P y \<Longrightarrow> key y = k) \<Longrightarrow> key x = k \<Longrightarrow>
   find (\<lambda>y. key y = r) (update_where (\<lambda>y. key y = k) (\<lambda>_. x) t) =
     (if r = k \<and> find (\<lambda>y. key y = k) t \<noteq> None then Some x else find (\<lambda>y. key y = r) t)"
  by (induction t) (auto simp: update_where_def)

lemma find_snoc: "find P (t @ [x]) = (case find P t of None \<Rightarrow> if P x then Some x else None | Some y \<Rightarrow> Some y)"
  by (induction t) simp_all

lemma checkpoint_at_put: "checkpoint_at r (put_checkpoint x db) = (if r = cp_route_id x then Some x else checkpoint_at r db)"
  by (auto simp: put_checkpoint_def checkpoint_at_def select_one_def find_snoc
      find_update_where [where P = "\<lambda>_. False" and key = cp_route_id] split: option.splits)

lemma lease_at_put: "lease_at r (put_lease x db) = (if r = ls_route_id x then Some x else lease_at r db)"
  by (auto simp: put_lease_def lease_at_def select_one_def find_snoc
      find_update_where [where P = "\<lambda>_. False" and key = ls_route_id] split: option.splits)

section \<open>Checkpoints\<close>

text \<open>An advance changes nothing, or commits exactly one new checkpoint of its route at the generation it expected.\<close>

lemma advance_cases:
  obtains (unchanged) "snd (advance c now db) = db"
  | (committed) cursor where "cursor_json (ac_next_cursor c) = Inr cursor"
    "snd (advance c now db) = put_checkpoint (advance_row (ac_route_id c) cursor (ac_receipt c) now db) db"
    "ac_expected_generation c = (case checkpoint_at (ac_route_id c) db of None \<Rightarrow> 0 | Some x \<Rightarrow> cp_generation x)"
proof (cases "bindE (bounded_identifier ''route_id'' (ac_route_id c)) (\<lambda>_.
     raise_if (ac_expected_generation c < 0) (SyncStateError ''expected checkpoint generation cannot be negative'') (
     bindE (cursor_json (ac_next_cursor c)) (\<lambda>cursor.
     advance_tx (ac_route_id c) (ac_expected_generation c) cursor (ac_receipt c) now db)))")
  case (Inl e)
  then show thesis by (intro unchanged) (simp add: advance_def)
next
  case (Inr res)
  have eq: "snd (advance c now db) = (case res of Inl _ \<Rightarrow> db | Inr db' \<Rightarrow> db')" unfolding advance_def Inr by (cases res) simp_all
  from Inr obtain cursor where tx: "cursor_json (ac_next_cursor c) = Inr cursor"
    "advance_tx (ac_route_id c) (ac_expected_generation c) cursor (ac_receipt c) now db = Inr res" by auto
  show thesis
  proof (cases res)
    case (Inl existing)
    with eq show thesis by (intro unchanged) simp
  next
    case (Inr db')
    then have "snd (advance c now db) = db'" using eq by simp
    moreover have "db' = put_checkpoint (advance_row (ac_route_id c) cursor (ac_receipt c) now db) db"
      "ac_expected_generation c = (case checkpoint_at (ac_route_id c) db of None \<Rightarrow> 0 | Some x \<Rightarrow> cp_generation x)"
      using tx(2) Inr by (auto simp: advance_tx_def Let_def split: option.splits if_splits)
    ultimately show thesis using tx(1) by (intro committed) simp_all
  qed
qed

text \<open>A run of advances, with the calls that committed.\<close>

definition advance_step :: "sync_db \<times> advance_call list \<Rightarrow> advance_call \<times> int \<Rightarrow> sync_db \<times> advance_call list" where
  "advance_step s call = (case (s, call) of ((db, counted), c, now) \<Rightarrow>
     (snd (advance c now db), if snd (advance c now db) = db then counted else counted @ [c]))"

definition run_advances :: "(advance_call \<times> int) list \<Rightarrow> sync_db \<times> advance_call list \<Rightarrow> sync_db \<times> advance_call list" where
  "run_advances calls s = foldl advance_step s calls"

definition on_route :: "string \<Rightarrow> advance_call list \<Rightarrow> advance_call list" where
  "on_route route = filter (\<lambda>c. ac_route_id c = route)"

text \<open>The checkpoint of a route is the account of the calls that committed on it.\<close>

definition accounted :: "advance_call list \<Rightarrow> checkpoint_row option \<Rightarrow> bool" where
  "accounted h row = (case row of
     None \<Rightarrow> h = []
   | Some x \<Rightarrow> h \<noteq> [] \<and> cp_generation x = int (length h) \<and> map ac_expected_generation h = map int [0..<length h]
       \<and> cp_committed_records x = sum_list (map (\<lambda>c. cr_committed_records (ac_receipt c)) h)
       \<and> cp_run_id x = cr_run_id (ac_receipt (last h)) \<and> cp_receipt_sha256 x = receipt_sha256 (ac_receipt (last h))
       \<and> cursor_json (ac_next_cursor (last h)) = Inr (cp_cursor_json x))"

lemma accounted_step:
  assumes "\<And>route. accounted (on_route route counted) (checkpoint_at route db)" "advance_step (db, counted) (c, now) = (db', counted')"
  shows "accounted (on_route route counted') (checkpoint_at route db')"
proof (cases rule: advance_cases [of c now db])
  case unchanged
  then show ?thesis using assms by (simp add: advance_step_def)
next
  case (committed cursor)
  let ?y = "advance_row (ac_route_id c) cursor (ac_receipt c) now db"
  have at: "checkpoint_at r (snd (advance c now db)) = (if r = ac_route_id c then Some ?y else checkpoint_at r db)" for r
    unfolding committed(2) checkpoint_at_put by (simp add: advance_row_def split: option.splits prod.splits)
  have "checkpoint_at (ac_route_id c) db \<noteq> Some ?y"
    by (auto simp: advance_row_def split: option.splits prod.splits dest: arg_cong [where f = cp_generation])
  with at have "snd (advance c now db) \<noteq> db" by metis
  then have eq: "db' = snd (advance c now db)" "counted' = counted @ [c]" using assms(2) by (simp_all add: advance_step_def)
  show ?thesis
  proof (cases "route = ac_route_id c")
    case True
    have "accounted (on_route route counted) (checkpoint_at route db)" by (rule assms(1))
    then have "accounted (on_route route counted @ [c]) (Some ?y)"
      using committed(1,3) True
      by (cases "checkpoint_at route db") (simp_all add: accounted_def advance_row_def)
    then show ?thesis using True by (simp add: eq at on_route_def)
  next
    case False
    then show ?thesis using assms(1) by (simp add: eq at on_route_def)
  qed
qed

definition empty_sync :: sync_db where
  "empty_sync = \<lparr>sy_checkpoints = [], sy_leases = []\<rparr>"

text \<open>
  C18. After any calls on a new store, the checkpoint of a route is the account of the calls that committed on it: they
  expected the generations 0, 1, 2 and so on, its generation is their number, its records are the sum of theirs, and its
  run, receipt and cursor are those of the last of them.
\<close>

theorem checkpoint_accounts_for_runs:
  "case run_advances calls (empty_sync, []) of (db, counted) \<Rightarrow> accounted (on_route route counted) (checkpoint_at route db)"
proof -
  have "\<forall>route. accounted (on_route route (snd (run_advances calls (empty_sync, [])))) (checkpoint_at route (fst (run_advances calls (empty_sync, []))))"
  proof (induction calls rule: rev_induct)
    case Nil
    then show ?case by (simp add: run_advances_def accounted_def on_route_def checkpoint_at_def empty_sync_def select_one_def)
  next
    case (snoc call calls)
    obtain db counted where s: "run_advances calls (empty_sync, []) = (db, counted)" by force
    obtain c now where call: "call = (c, now)" by force
    obtain db' counted' where s': "advance_step (db, counted) (c, now) = (db', counted')" by force
    have "run_advances (calls @ [call]) (empty_sync, []) = (db', counted')" using s s' call by (simp add: run_advances_def)
    then show ?case using accounted_step [OF _ s'] snoc s by simp
  qed
  then show ?thesis by (simp add: case_prod_unfold)
qed

section \<open>Retries\<close>

definition generation_of :: "string \<Rightarrow> sync_db \<Rightarrow> int" where
  "generation_of route db = (case checkpoint_at route db of None \<Rightarrow> 0 | Some x \<Rightarrow> cp_generation x)"

lemma advance_generation:
  "generation_of route (snd (advance c now db)) = generation_of route db
   \<or> generation_of route (snd (advance c now db)) = generation_of route db + 1"
  by (cases rule: advance_cases [of c now db])
    (auto simp: generation_of_def checkpoint_at_put advance_row_def split: option.splits prod.splits)

lemma advances_generation:
  "generation_of route db \<le> generation_of route (foldl (\<lambda>d (c, now). snd (advance c now d)) db calls)"
proof (induction calls arbitrary: db)
  case (Cons call calls)
  obtain c now where call: "call = (c, now)" by force
  have "generation_of route db \<le> generation_of route (snd (advance c now db))" using advance_generation [of route c now db] by linarith
  also have "\<dots> \<le> generation_of route (foldl (\<lambda>d (c, now). snd (advance c now d)) (snd (advance c now db)) calls)" by (rule Cons)
  finally show ?case by (simp add: call)
qed simp

text \<open>
  C19. Once a call has committed, repeating it later changes nothing, whatever other calls came in between: its records are
  never counted twice.
\<close>

theorem retried_advance_changes_nothing:
  assumes "snd (advance c now db) \<noteq> db"
  shows "(let later = foldl (\<lambda>d (c, now). snd (advance c now d)) (snd (advance c now db)) calls
    in snd (advance c now' later) = later)"
proof -
  define later where "later = foldl (\<lambda>d (c, now). snd (advance c now d)) (snd (advance c now db)) calls"
  have "ac_expected_generation c < generation_of (ac_route_id c) (snd (advance c now db))"
  proof (cases rule: advance_cases [of c now db])
    case (committed cursor)
    show ?thesis unfolding committed(2,3) generation_of_def checkpoint_at_put
      by (simp add: advance_row_def split: option.splits)
  qed (use assms in simp)
  also have "\<dots> \<le> generation_of (ac_route_id c) later" unfolding later_def by (rule advances_generation)
  finally have "ac_expected_generation c \<noteq> generation_of (ac_route_id c) later" by simp
  then have "snd (advance c now' later) = later"
    by (cases rule: advance_cases [of c now' later]) (simp_all add: generation_of_def)
  then show ?thesis by (simp add: later_def)
qed

section \<open>Leases\<close>

datatype lease_op = Claim string "rat option" rat int string | Renew run_lease "rat option" rat | Release run_lease

definition lease_apply :: "sync_db \<Rightarrow> lease_op \<Rightarrow> sync_db" where
  "lease_apply db o' = (case o' of
     Claim route ttl now wall token \<Rightarrow> snd (claim_route route ttl now wall token db)
   | Renew l ttl now \<Rightarrow> snd (renew_lease l ttl now db)
   | Release l \<Rightarrow> snd (release_lease l db))"

text \<open>What others do while the lease lasts: claims before its expiry, and renewals and releases with other tokens.\<close>

definition foreign :: "run_lease \<Rightarrow> lease_op \<Rightarrow> bool" where
  "foreign l o' = (case o' of
     Claim route ttl now wall token \<Rightarrow> now < rl_expires_at_epoch l
   | Renew l' ttl now \<Rightarrow> rl_token l' \<noteq> rl_token l
   | Release l' \<Rightarrow> rl_token l' \<noteq> rl_token l)"

definition live :: "run_lease \<Rightarrow> sync_db \<Rightarrow> bool" where
  "live l db = (keyed ls_route_id (sy_leases db) \<and> (case lease_at (rl_route_id l) db of None \<Rightarrow> False
     | Some x \<Rightarrow> ls_token x = rl_token l \<and> ls_expires_at_epoch x = rl_expires_at_epoch l))"

lemma put_lease_keyed: "keyed ls_route_id (sy_leases db) \<Longrightarrow> keyed ls_route_id (sy_leases (put_lease x db))"
  by (auto simp: put_lease_def lease_at_def select_one_None intro!: keyed_update keyed_insert)

lemma find_map_key: "(\<And>x. key (f x) = key x) \<Longrightarrow> find (\<lambda>y. key y = r) (map f t) = map_option f (find (\<lambda>y. key y = r) t)"
  by (induction t) simp_all

lemma lease_at_iff: "keyed ls_route_id (sy_leases db) \<Longrightarrow> lease_at r db = Some x \<longleftrightarrow> x \<in> set (sy_leases db) \<and> ls_route_id x = r"
  unfolding lease_at_def by (rule keyed_select_iff)

lemma live_foreign:
  assumes "live l db" "foreign l o'"
  shows "live l (lease_apply db o')"
proof -
  obtain x where key: "keyed ls_route_id (sy_leases db)" and x: "lease_at (rl_route_id l) db = Some x" "ls_token x = rl_token l"
    "ls_expires_at_epoch x = rl_expires_at_epoch l" using assms(1) by (auto simp: live_def split: option.splits)
  show ?thesis
  proof (cases o')
    case (Claim route ttl now wall token)
    show ?thesis
    proof (cases "fst (claim_route route ttl now wall token db)")
      case (Inl e)
      then have "snd (claim_route route ttl now wall token db) = db" by (auto simp: claim_route_def Let_def split: sum.splits)
      with Claim assms(1) show ?thesis by (simp add: lease_apply_def)
    next
      case (Inr l')
      have now: "now < rl_expires_at_epoch l" using assms(2) Claim by (simp add: foreign_def)
      have "route \<noteq> rl_route_id l"
        using Inr x now by (auto simp: claim_route_def Let_def split: sum.splits)
      moreover obtain row where "snd (claim_route route ttl now wall token db) = put_lease row db" "ls_route_id row = route"
        using Inr by (auto simp: claim_route_def Let_def split: sum.splits)
      ultimately show ?thesis using Claim key x by (simp add: lease_apply_def live_def put_lease_keyed lease_at_put)
    qed
  next
    case (Renew l' ttl now)
    have "rl_token l' \<noteq> rl_token l" using assms(2) Renew by (simp add: foreign_def)
    then have "\<not> holds_lease l' x" using x by (simp add: holds_lease_def)
    moreover have "find (\<lambda>y. ls_route_id y = rl_route_id l) (sy_leases db) = Some x" using x(1) by (simp add: lease_at_def select_one_def)
    ultimately have "find (\<lambda>y. ls_route_id y = rl_route_id l)
        (update_where (holds_lease l') (\<lambda>x. x\<lparr>ls_expires_at_epoch := e\<rparr>) (sy_leases db)) = Some x" for e
      unfolding update_where_def by (subst find_map_key) simp_all
    moreover have "keyed ls_route_id (update_where (holds_lease l') (\<lambda>x. x\<lparr>ls_expires_at_epoch := e\<rparr>) (sy_leases db))" for e
      by (rule keyed_update [OF key]) simp
    ultimately show ?thesis
      using Renew assms(1) x by (auto simp: lease_apply_def renew_lease_def live_def lease_at_def select_one_def Let_def)
  next
    case (Release l')
    have "rl_token l' \<noteq> rl_token l" using assms(2) Release by (simp add: foreign_def)
    then have "\<not> holds_lease l' x" using x by (simp add: holds_lease_def)
    moreover have "x \<in> set (sy_leases db)" "ls_route_id x = rl_route_id l" using lease_at_iff [OF key] x(1) by blast+
    moreover have "keyed ls_route_id (delete_where (holds_lease l') (sy_leases db))" by (rule keyed_delete [OF key])
    ultimately have "lease_at (rl_route_id l) (db\<lparr>sy_leases := delete_where (holds_lease l') (sy_leases db)\<rparr>) = Some x"
      by (subst lease_at_iff) simp_all
    then show ?thesis using Release x keyed_delete [OF key, of "holds_lease l'"]
      by (simp add: lease_apply_def release_lease_def live_def)
  qed
qed

lemma live_foreigns: "live l db \<Longrightarrow> list_all (foreign l) ops \<Longrightarrow> live l (foldl lease_apply db ops)"
  by (induction ops arbitrary: db) (simp_all add: live_foreign)

text \<open>
  C20. From a claim until its expiry, whatever claims, renewals and releases of others happen, no further claim of the route
  succeeds, and the holder can still release its lease.
\<close>

theorem live_lease_is_exclusive:
  assumes "claim_route route ttl now wall token db = (Inr l, db1)" "keyed ls_route_id (sy_leases db)" "list_all (foreign l) ops"
    and "later < rl_expires_at_epoch l" "ttl_ok ttl'"
  shows "(let db2 = foldl lease_apply db1 ops in
    claim_route route ttl' later wall' token' db2 = (Inl (RunLeaseBusy ''another run holds the route lease''), db2)
    \<and> fst (release_lease l db2) = Inr ())"
proof -
  have route: "bounded_identifier ''route_id'' route = Inr ()" and l: "rl_route_id l = route"
    using assms(1) by (auto simp: claim_route_def Let_def split: sum.splits)
  have "live l db1"
    using assms(1) put_lease_keyed [OF assms(2)]
    by (auto simp: claim_route_def Let_def live_def lease_at_put split: sum.splits)
  then have live: "live l (foldl lease_apply db1 ops)" using assms(3) by (rule live_foreigns)
  define db2 where "db2 = foldl lease_apply db1 ops"
  obtain x where key: "keyed ls_route_id (sy_leases db2)" and x: "lease_at route db2 = Some x" "ls_token x = rl_token l"
    "ls_expires_at_epoch x = rl_expires_at_epoch l" using live l by (auto simp: live_def db2_def split: option.splits)
  have "x \<in> set (sy_leases db2)" "ls_route_id x = route" using lease_at_iff [OF key] x(1) by blast+
  then have "filter (holds_lease l) (sy_leases db2) = [x]"
    using x(2) l by (intro keyed_filter_single [OF key]) (simp_all add: holds_lease_def)
  then have "fst (release_lease l db2) = Inr ()" by (simp add: release_lease_def rowcount_def)
  moreover have "claim_route route ttl' later wall' token' db2 = (Inl (RunLeaseBusy ''another run holds the route lease''), db2)"
    using x(1,3) assms(4,5) by (simp add: claim_route_def route)
  ultimately show ?thesis by (simp add: db2_def)
qed

section \<open>Schedules\<close>

text \<open>The next run is due after the interval and within the interval and its jitter, which is less than two intervals.\<close>

lemma next_due_bounds:
  assumes "SchedulePolicy p = Inr p" "next_due p route (Aware t off) = Inr due"
  shows "\<exists>u. due = Aware u off \<and> t + sp_interval_seconds p * 1000000 \<le> u
    \<and> u \<le> t + (sp_interval_seconds p + sp_jitter_seconds p) * 1000000 \<and> u < t + 2 * sp_interval_seconds p * 1000000"
proof -
  have j: "0 \<le> sp_jitter_seconds p" "sp_jitter_seconds p < sp_interval_seconds p" using assms(1) by (auto simp: SchedulePolicy_def)
  define w where "w = int (leading_word (sha256_hex (utf8_encode route))) mod (sp_jitter_seconds p + 1)"
  have w: "0 \<le> w" "w \<le> sp_jitter_seconds p"
    using j(1) pos_mod_bound [of "sp_jitter_seconds p + 1"] by (auto simp: w_def)
  have "due = Aware (t + (sp_interval_seconds p + (if sp_jitter_seconds p = 0 then 0 else w)) * 1000000) off"
    using assms(2) by (auto simp: next_due_def Let_def w_def)
  with j w show ?thesis by (cases "sp_jitter_seconds p = 0") auto
qed

section \<open>Instances\<close>

definition nightly_receipt :: commit_receipt where
  "nightly_receipt = \<lparr>cr_run_id = ''run1'', cr_committed_records = 5, cr_completed_at = ''2026-01-01T00:00:00Z'', cr_outcome = ''completed''\<rparr>"

definition nightly_call :: advance_call where
  "nightly_call = \<lparr>ac_route_id = ''crm'', ac_expected_generation = 0, ac_next_cursor = JNull, ac_receipt = nightly_receipt\<rparr>"

lemma nightly_commits: "snd (advance nightly_call 0 empty_sync) = put_checkpoint (advance_row ''crm'' ''null'' nightly_receipt 0 empty_sync) empty_sync"
proof -
  have "bounded_identifier ''route_id'' ''crm'' = Inr ()" by (simp add: bounded_identifier_def control_char_def)
  moreover have "cursor_json JNull = Inr ''null''"
    by (simp add: cursor_json_def validate_cursor.simps MAX_CURSOR_NODES_def MAX_CURSOR_BYTES_def json_dumps_ascii_def utf8_encode_def)
  ultimately show ?thesis
    by (simp add: advance_def nightly_call_def advance_tx_def empty_sync_def checkpoint_at_def select_one_def advance_row_def
        nightly_receipt_def MAX_SQLITE_INTEGER_def)
qed

theorem retried_advance_changes_nothing_witness:
  "snd (advance nightly_call 7 (snd (advance nightly_call 0 empty_sync))) = snd (advance nightly_call 0 empty_sync)"
proof -
  have "snd (advance nightly_call 0 empty_sync) \<noteq> empty_sync"
    unfolding nightly_commits by (simp add: put_checkpoint_def empty_sync_def checkpoint_at_def select_one_def)
  from retried_advance_changes_nothing [OF this, of "[]" 7] show ?thesis by (simp add: Let_def)
qed

theorem live_lease_is_exclusive_witness:
  "\<exists>l db1. claim_route ''crm'' (Some 900) 0 0 ''a'' empty_sync = (Inr l, db1)
    \<and> claim_route ''crm'' (Some 900) 100 0 ''b'' db1 = (Inl (RunLeaseBusy ''another run holds the route lease''), db1)"
proof -
  have "bounded_identifier ''route_id'' ''crm'' = Inr ()" by (simp add: bounded_identifier_def control_char_def)
  then have run: "\<exists>db1. claim_route ''crm'' (Some 900) 0 0 ''a'' empty_sync
      = (Inr \<lparr>rl_route_id = ''crm'', rl_token = ''a'', rl_expires_at_epoch = double_add 0 900\<rparr>, db1)"
    by (simp add: claim_route_def ttl_ok_def empty_sync_def lease_at_def select_one_def Let_def)
  have "double_add 0 900 = 900" using double_of_nat [of 900] by (simp add: double_add_def)
  with run obtain db1 where run: "claim_route ''crm'' (Some 900) 0 0 ''a'' empty_sync
      = (Inr \<lparr>rl_route_id = ''crm'', rl_token = ''a'', rl_expires_at_epoch = 900\<rparr>, db1)" by auto
  have "keyed ls_route_id (sy_leases empty_sync)" by (simp add: empty_sync_def)
  from live_lease_is_exclusive [OF run this, of "[]" 100 "Some 900" 0 "''b''"] run show ?thesis by (auto simp: ttl_ok_def Let_def)
qed

end
