(* ===== verification/Difflib.thy ===== *)
theory Difflib
  imports Doubles
begin

text \<open>
  \<open>difflib.SequenceMatcher(a=xs, b=ys).ratio()\<close> of the standard library: the longest block the two sequences share,
  then the blocks to its left and to its right. From 200 elements on, the elements that make up more than one percent of
  \<open>ys\<close> do not start a block (\<open>autojunk\<close>). A range of a sequence is the list of its elements, so positions are relative.
\<close>

section \<open>The longest block\<close>

type_synonym block = "nat \<times> nat \<times> nat"

definition popular :: "'a list \<Rightarrow> 'a \<Rightarrow> bool" where
  "popular ys y = (200 \<le> length ys \<and> length ys div 100 + 1 < count_list ys y)"

text \<open>\<open>j2len\<close> of one element \<open>x\<close> from that of the element before: the length of the block that ends with \<open>x\<close> at each position.\<close>

definition next_row :: "('a \<Rightarrow> bool) \<Rightarrow> 'a list \<Rightarrow> 'a \<Rightarrow> nat list \<Rightarrow> nat list" where
  "next_row junk ys x row = map (\<lambda>(y, k). if y = x \<and> \<not> junk y then Suc k else 0) (zip ys (0 # row))"

fun best_in_row :: "nat \<Rightarrow> nat \<Rightarrow> nat list \<Rightarrow> block \<Rightarrow> block" where
  "best_in_row i j [] best = best"
| "best_in_row i j (k # row) (bi, bj, n) =
     best_in_row i (Suc j) row (if n < k then (Suc i - k, Suc j - k, k) else (bi, bj, n))"

fun best_block :: "('a \<Rightarrow> bool) \<Rightarrow> 'a list \<Rightarrow> nat \<Rightarrow> 'a list \<Rightarrow> nat list \<Rightarrow> block \<Rightarrow> block" where
  "best_block junk ys i [] row best = best"
| "best_block junk ys i (x # xs) row best =
     (let row' = next_row junk ys x row in best_block junk ys (Suc i) xs row' (best_in_row i 0 row' best))"

fun common_prefix :: "'a list \<Rightarrow> 'a list \<Rightarrow> nat" where
  "common_prefix (x # xs) (y # ys) = (if x = y then Suc (common_prefix xs ys) else 0)"
| "common_prefix _ _ = 0"

text \<open>The block found is extended to both sides, over popular elements too.\<close>

definition find_longest_match :: "('a \<Rightarrow> bool) \<Rightarrow> 'a list \<Rightarrow> 'a list \<Rightarrow> block" where
  "find_longest_match junk xs ys =
     (case best_block junk ys 0 xs (replicate (length ys) 0) (0, 0, 0) of (i, j, k) \<Rightarrow>
        (let front = common_prefix (rev (take i xs)) (rev (take j ys));
             back = common_prefix (drop (i + k) xs) (drop (j + k) ys)
         in (i - front, j - front, front + k + back)))"

section \<open>Blocks are blocks\<close>

definition is_block :: "'a list \<Rightarrow> 'a list \<Rightarrow> block \<Rightarrow> bool" where
  "is_block xs ys = (\<lambda>(i, j, k). i + k \<le> length xs \<and> j + k \<le> length ys \<and> take k (drop i xs) = take k (drop j ys))"

text \<open>After the elements \<open>take i xs\<close>, entry \<open>j\<close> of the row is the length of a block that ends at \<open>i\<close> and \<open>Suc j\<close>.\<close>

definition row_of :: "'a list \<Rightarrow> 'a list \<Rightarrow> nat \<Rightarrow> nat list \<Rightarrow> bool" where
  "row_of xs ys i row = (length row = length ys \<and>
     (\<forall>j < length ys. row ! j \<le> i \<and> row ! j \<le> Suc j \<and> is_block xs ys (i - row ! j, Suc j - row ! j, row ! j)))"

lemma is_block_0 [simp]: "is_block xs ys (i, j, 0) \<longleftrightarrow> i \<le> length xs \<and> j \<le> length ys"
  by (simp add: is_block_def)

lemma is_block_Suc:
  assumes "is_block xs ys (i, j, k)" "i + k < length xs" "j + k < length ys" "xs ! (i + k) = ys ! (j + k)"
  shows "is_block xs ys (i, j, Suc k)"
proof -
  have "take (Suc k) (drop i xs) = take k (drop i xs) @ [xs ! (i + k)]" "take (Suc k) (drop j ys) = take k (drop j ys) @ [ys ! (j + k)]"
    using assms(2,3) by (simp_all add: take_Suc_conv_app_nth)
  then show ?thesis using assms by (simp add: is_block_def)
qed

lemma row_step:
  assumes "row_of xs ys i row" "i < length xs"
  shows "row_of xs ys (Suc i) (next_row junk ys (xs ! i) row)"
proof -
  have entry: "next_row junk ys (xs ! i) row ! j = (if ys ! j = xs ! i \<and> \<not> junk (ys ! j) then Suc ((0 # row) ! j) else 0)"
    if "j < length ys" for j
    using that assms(1) by (simp add: next_row_def row_of_def)
  have "is_block xs ys (Suc i - Suc ((0 # row) ! j), Suc j - Suc ((0 # row) ! j), Suc ((0 # row) ! j)) \<and> (0 # row) ! j \<le> i \<and> (0 # row) ! j \<le> j"
    if j: "j < length ys" and eq: "ys ! j = xs ! i" for j
  proof (cases j)
    case 0
    then show ?thesis using j eq assms(2) by (auto simp: is_block_def take_Suc_conv_app_nth Suc_le_eq)
  next
    case (Suc j')
    then have r: "row ! j' \<le> i" "row ! j' \<le> j" "is_block xs ys (i - row ! j', j - row ! j', row ! j')"
      using assms(1) j by (auto simp: row_of_def)
    then have "is_block xs ys (i - row ! j', j - row ! j', Suc (row ! j'))"
      using is_block_Suc [OF r(3)] assms(2) j eq by simp
    then show ?thesis using r Suc by simp
  qed
  then show ?thesis
    using entry assms by (simp add: row_of_def next_row_def)
qed

lemma best_in_row_block:
  assumes "\<forall>j' < length row. is_block xs ys (Suc i - row ! j', Suc (j + j') - row ! j', row ! j')" "is_block xs ys best"
  shows "is_block xs ys (best_in_row i j row best)"
  using assms
proof (induction i j row best rule: best_in_row.induct)
  case (2 i j k row bi bj n)
  have head: "is_block xs ys (Suc i - k, Suc j - k, k)" using spec [OF 2(2), of 0] by simp
  have "\<forall>j' < length row. is_block xs ys (Suc i - row ! j', Suc (Suc j + j') - row ! j', row ! j')"
    using 2(2) by (auto dest: spec [of _ "Suc _"])
  with 2(1) 2(3) head show ?case by (simp split: if_splits)
qed simp

lemma best_block_block:
  assumes "row_of xs ys i row" "rest = drop i xs" "is_block xs ys best"
  shows "is_block xs ys (best_block junk ys i rest row best)"
  using assms
proof (induction junk ys i rest row best rule: best_block.induct)
  case (2 junk ys i x rest row best)
  have i: "i < length xs" "x = xs ! i" "rest = drop (Suc i) xs"
    using 2(3) by (metis drop_eq_Nil2 leI list.distinct(1), metis nth_via_drop, metis drop_Suc list.sel(3) drop_tl)
  let ?row = "next_row junk ys x row"
  have row: "row_of xs ys (Suc i) ?row" using row_step [OF 2(2) i(1)] i(2) by simp
  then have "is_block xs ys (best_in_row i 0 ?row best)"
    by (intro best_in_row_block) (auto simp: row_of_def 2(4))
  with 2(1) row i(3) show ?case by (simp add: Let_def)
qed simp

lemma common_prefix_le: "common_prefix xs ys \<le> length xs" "common_prefix xs ys \<le> length ys"
  by (induction xs ys rule: common_prefix.induct) auto

lemma common_prefix_take: "take (common_prefix xs ys) xs = take (common_prefix xs ys) ys"
  by (induction xs ys rule: common_prefix.induct) auto

lemma find_longest_match_block: "is_block xs ys (find_longest_match junk xs ys)"
proof -
  obtain i j k where b: "best_block junk ys 0 xs (replicate (length ys) 0) (0, 0, 0) = (i, j, k)" by (metis prod_cases3)
  have "row_of xs ys 0 (replicate (length ys) 0)" by (simp add: row_of_def)
  then have block: "is_block xs ys (i, j, k)" using best_block_block [of xs ys 0 "replicate (length ys) 0" xs "(0, 0, 0)" junk] b by simp
  define p where "p = common_prefix (rev (take i xs)) (rev (take j ys))"
  define q where "q = common_prefix (drop (i + k) xs) (drop (j + k) ys)"
  have p: "p \<le> i" "p \<le> j" "take p (rev (take i xs)) = take p (rev (take j ys))"
    using common_prefix_le [of "rev (take i xs)" "rev (take j ys)"] block common_prefix_take [of "rev (take i xs)" "rev (take j ys)"]
    by (auto simp: p_def is_block_def)
  have q: "q \<le> length xs - (i + k)" "q \<le> length ys - (j + k)" "take q (drop (i + k) xs) = take q (drop (j + k) ys)"
    using common_prefix_le [of "drop (i + k) xs" "drop (j + k) ys"] common_prefix_take [of "drop (i + k) xs" "drop (j + k) ys"]
    by (auto simp: q_def)
  have left: "take p (drop (i - p) xs) = take p (drop (j - p) ys)"
  proof -
    have "rev (drop (i - p) (take i xs)) = rev (drop (j - p) (take j ys))"
      using p block by (simp add: rev_drop is_block_def)
    then have "drop (i - p) (take i xs) = drop (j - p) (take j ys)" by simp
    then show ?thesis using p by (simp add: drop_take)
  qed
  have split: "take (p + k + q) (drop (i - p) xs) = take p (drop (i - p) xs) @ take k (drop i xs) @ take q (drop (i + k) xs)"
    "take (p + k + q) (drop (j - p) ys) = take p (drop (j - p) ys) @ take k (drop j ys) @ take q (drop (j + k) ys)"
    using p by (simp_all add: take_add add.commute [of k])
  have "is_block xs ys (i - p, j - p, p + k + q)"
    using block p q left split by (auto simp: is_block_def)
  then show ?thesis by (simp add: find_longest_match_def b p_def q_def Let_def)
qed

section \<open>All blocks\<close>

text \<open>The size of the matching blocks together; the order in which the queue visits the parts does not matter to it.\<close>

function matched :: "('a \<Rightarrow> bool) \<Rightarrow> 'a list \<Rightarrow> 'a list \<Rightarrow> nat" where
  "matched junk xs ys = (case find_longest_match junk xs ys of (i, j, k) \<Rightarrow>
     if k = 0 then 0
     else k + (if 0 < i \<and> 0 < j then matched junk (take i xs) (take j ys) else 0)
       + (if i + k < length xs \<and> j + k < length ys then matched junk (drop (i + k) xs) (drop (j + k) ys) else 0))"
  by pat_completeness auto
termination
proof (relation "measure (\<lambda>(junk, xs, ys). length xs)", goal_cases)
  case (2 junk xs ys)
  then show ?case using find_longest_match_block [of xs ys junk] by (auto simp: is_block_def)
next
  case (3 junk xs ys)
  then show ?case using find_longest_match_block [of xs ys junk] by (auto simp: is_block_def)
qed simp

declare matched.simps [simp del]

lemma matched_le: "matched junk xs ys \<le> length xs \<and> matched junk xs ys \<le> length ys"
proof (induction junk xs ys rule: matched.induct)
  case (1 junk xs ys)
  obtain i j k where f: "find_longest_match junk xs ys = (i, j, k)" by (metis prod_cases3)
  then have "i + k \<le> length xs" "j + k \<le> length ys" using find_longest_match_block [of xs ys junk] by (auto simp: is_block_def)
  moreover note 1 [OF f [symmetric] refl]
  ultimately show ?case by (subst (1 2) matched.simps) (auto simp: f)
qed

text \<open>\<open>2.0 * matches / length\<close>: both factors are exact.\<close>

definition sequence_ratio :: "'a list \<Rightarrow> 'a list \<Rightarrow> rat" where
  "sequence_ratio xs ys =
     (if length xs + length ys = 0 then 1
      else double_of (2 * of_nat (matched (popular ys) xs ys) / of_nat (length xs + length ys)))"

end
