(* ===== verification/Matching.thy ===== *)
theory Matching
  imports Difflib Policy "HOL-Library.Product_Lexorder"
begin

text \<open>
  Deterministic matching of fields (\<open>matching/deterministic.py\<close>): normal forms of names, their similarity, the score of a
  pair of fields, and the contract a mapping must have to be automatic. Scores are floats, computed as the code computes them.
\<close>

section \<open>Names\<close>

definition ascii_upper :: "char \<Rightarrow> bool" where
  "ascii_upper c = (let n = (of_char c :: nat) in 65 \<le> n \<and> n \<le> 90)"

definition ascii_lower_digit :: "char \<Rightarrow> bool" where
  "ascii_lower_digit c = (let n = (of_char c :: nat) in 48 \<le> n \<and> n \<le> 57 \<or> 97 \<le> n \<and> n \<le> 122)"

text \<open>\<open>_CAMEL.sub(" ", value)\<close>: a space between a small letter or digit and the capital letter after it.\<close>

fun camel :: "string \<Rightarrow> string" where
  "camel (c # d # cs) = (if ascii_lower_digit c \<and> ascii_upper d then c # CHR '' '' # camel (d # cs) else c # camel (d # cs))"
| "camel cs = cs"

text \<open>
  A character after \<open>casefold\<close>, NFKD, the removal of combining marks, and the replacement of what is not alphanumeric. The
  Greek letter that the micro sign (code 181) becomes is kept as code 181, which nothing else becomes.
\<close>

definition latin_folds :: "(nat list \<times> string) list" where
  "latin_folds = [(170 # [224..<230], ''a''), ([231], ''c''), ([232..<236], ''e''), ([236..<240], ''i''), ([241], ''n''),
     (186 # [242..<247], ''o''), ([249..<253], ''u''), ([253, 255], ''y''), ([178], ''2''), ([179], ''3''), ([185], ''1''),
     ([188], ''1 4''), ([189], ''1 2''), ([190], ''3 4''), ([223], ''ss'')]"

definition fold_char :: "char \<Rightarrow> string" where
  "fold_char c = (let n = (of_char c :: nat); m = (if 192 \<le> n \<and> n \<le> 222 \<and> n \<noteq> 215 then n + 32 else n) in
     if n < 128 then [if char_alnum c then lower_char c else CHR '' '']
     else case find (\<lambda>(ms, _). m \<in> set ms) latin_folds of
       Some (_, s) \<Rightarrow> s
     | None \<Rightarrow> [if m \<in> {181, 230, 240, 248, 254} then char_of m else CHR '' ''])"

fun split_words :: "string \<Rightarrow> string \<Rightarrow> string list" where
  "split_words acc [] = (if acc = [] then [] else [rev acc])"
| "split_words acc (c # cs) =
     (if c = CHR '' '' then (if acc = [] then split_words [] cs else rev acc # split_words [] cs) else split_words (c # acc) cs)"

definition normalize_name :: "string \<Rightarrow> string" where
  "normalize_name v = join '' '' (split_words [] (concat (map fold_char (camel v))))"

definition SYNONYM_GROUPS :: "string list list" where
  "SYNONYM_GROUPS = [
     [''customer'', ''client'', ''kunde'', ''debitor''],
     [''number'', ''num'', ''nr'', ''no'', ''nummer''],
     [''id'', ''identifier'', ''kennung'', ''key''],
     [''email'', ''mail'', ''emailaddress'', ''mailaddress''],
     [''date'', ''datum''],
     [''time'', ''zeit''],
     [''amount'', ''betrag'', ''sum'', ''total'', ''value'', ''wert''],
     [''price'', ''preis''],
     [''net'', ''netto''],
     [''gross'', ''brutto''],
     [''password'', ''passwort'', ''kennwort'', ''secret''],
     [''token'', ''credential'', ''credentials'', ''zugang'', ''access''],
     [''order'', ''auftrag'', ''bestellung''],
     [''invoice'', ''rechnung''],
     [''product'', ''produkt'', ''article'', ''artikel''],
     [''quantity'', ''qty'', ''menge'', ''anzahl''],
     [''name'', ''bezeichnung'', ''title'', ''titel'']]"

definition synonym :: "string \<Rightarrow> string" where
  "synonym token = (case find (\<lambda>(_, group). token \<in> set group) (enumerate 0 SYNONYM_GROUPS) of
     None \<Rightarrow> token | Some (i, _) \<Rightarrow> CHR ''g'' # show_nat i)"

definition normalized_tokens :: "string \<Rightarrow> string list" where
  "normalized_tokens v = map synonym (split_words [] (normalize_name v))"

section \<open>Similarity\<close>

definition variants :: "field_descriptor \<Rightarrow> string list" where
  "variants f = fd_name f # fd_aliases f"

definition jaccard_of :: "string \<Rightarrow> string \<Rightarrow> rat" where
  "jaccard_of l r = (let lt = set (normalized_tokens l); rt = set (normalized_tokens r) in
     if lt \<union> rt = {} then 0 else double_of (of_nat (card (lt \<inter> rt)) / of_nat (card (lt \<union> rt))))"

definition sequence_of :: "string \<Rightarrow> string \<Rightarrow> rat" where
  "sequence_of l r = (let ln = normalize_name l; rn = normalize_name r in
     if ln \<noteq> [] \<and> rn \<noteq> [] then sequence_ratio ln rn else 0)"

record evidence =
  ev_score :: rat
  ev_jaccard :: rat
  ev_sequence :: rat
  ev_used_alias :: bool

text \<open>The first pair with the best score, from pairs with the flag that an alias took part.\<close>

definition pair_evidence :: "string \<Rightarrow> string \<Rightarrow> bool \<Rightarrow> evidence" where
  "pair_evidence l r alias = (let j = jaccard_of l r; s = sequence_of l r in
     \<lparr>ev_score = double_add (double_mul (double_of (62 / 100)) j) (double_mul (double_of (38 / 100)) s), ev_jaccard = j,
       ev_sequence = s, ev_used_alias = alias\<rparr>)"

definition best_evidence :: "field_descriptor \<Rightarrow> field_descriptor \<Rightarrow> evidence" where
  "best_evidence left right =
     foldl (\<lambda>best e. if ev_score best < ev_score e then e else best)
       \<lparr>ev_score = 0, ev_jaccard = 0, ev_sequence = 0, ev_used_alias = False\<rparr>
       (concat (map (\<lambda>(i, l). map (\<lambda>(j, r). pair_evidence l r (0 < i \<or> 0 < j)) (enumerate 0 (variants right))) (enumerate 0 (variants left))))"

text \<open>\<open>f"{x:.2f}"\<close> for a float that is not negative\<close>

definition two_decimals :: "rat \<Rightarrow> string" where
  "two_decimals x = (let n = nat (round_even (x * 100)) in show_nat (n div 100) @ ''.'' @ show_nat (n div 10 mod 10) @ show_nat (n mod 10))"

definition name_similarity :: "field_descriptor \<Rightarrow> field_descriptor \<Rightarrow> rat \<times> string list" where
  "name_similarity left right =
     (let ln = filter (\<lambda>v. v \<noteq> []) (map normalize_name (variants left));
          rn = filter (\<lambda>v. v \<noteq> []) (map normalize_name (variants right)) in
      if normalize_name (fd_name left) \<noteq> [] \<and> normalize_name (fd_name left) = normalize_name (fd_name right)
      then (1, [''exact normalized name''])
      else if list_ex (\<lambda>v. v \<in> set rn) ln then (double_of (98 / 100), [''alias match''])
      else (let b = best_evidence left right in
        (ev_score b,
         (if ev_jaccard b \<noteq> 0 then [''token overlap '' @ two_decimals (ev_jaccard b)] else [])
         @ (if double_of (6 / 10) \<le> ev_sequence b then [''name similarity '' @ two_decimals (ev_sequence b)] else [])
         @ (if ev_used_alias b then [''relation alias evidence''] else []))))"

section \<open>Contracts\<close>

definition type_compatibility :: "data_type \<Rightarrow> data_type \<Rightarrow> rat" where
  "type_compatibility source target =
     (if source = DT_UNKNOWN \<or> target = DT_UNKNOWN then double_of (55 / 100)
      else if source = target then 1
      else if source \<in> {DT_INTEGER, DT_DECIMAL} \<and> target \<in> {DT_INTEGER, DT_DECIMAL} then double_of (85 / 100)
      else if source \<in> {DT_DATE, DT_DATETIME} \<and> target \<in> {DT_DATE, DT_DATETIME} then 3 / 4
      else if source = DT_STRING then double_of (45 / 100) else 0)"

definition role_compatible_for_automatic :: "field_role \<Rightarrow> field_role \<Rightarrow> bool" where
  "role_compatible_for_automatic source target = (source = target \<or> VALUE \<in> {source, target} \<and> CREDENTIAL \<notin> {source, target})"

definition lookup_candidate :: "lookup_key_descriptor \<Rightarrow> field_descriptor" where
  "lookup_candidate k = \<lparr>fd_id = lk_name k, fd_name = lk_name k, fd_data_type = lk_data_type k, fd_nullable = True,
     fd_sensitivity = INTERNAL, fd_role = NATURAL_KEY, fd_description = None, fd_aliases = [], fd_container = None,
     fd_destination_generated = False\<rparr>"

text \<open>The loop over the relation's keys keeps those whose types allow the lookup.\<close>

definition scored_keys :: "bool \<Rightarrow> field_descriptor \<Rightarrow> lookup_key_descriptor list
    \<Rightarrow> (rat \<times> string) list" where
  "scored_keys automatic source keys =
     map (\<lambda>k. (fst (name_similarity source (lookup_candidate k)), lk_name k))
       (filter (\<lambda>k. let known = DT_UNKNOWN \<notin> {fd_data_type source, lk_data_type k};
            compatible = known \<and> automatic_copy_type_safe (fd_data_type source) (lk_data_type k)
          in \<not> (automatic \<and> \<not> compatible) \<and> \<not> (\<not> automatic \<and> known \<and> \<not> compatible)) keys)"

definition foreign_key_lookup_key :: "bool \<Rightarrow> field_descriptor \<Rightarrow> field_descriptor
    \<Rightarrow> schema_descriptor \<Rightarrow> string option" where
  "foreign_key_lookup_key automatic source target target_schema =
     (if fd_sensitivity source \<in> {SECRET, OPAQUE} then None
      else if fd_role source \<noteq> NATURAL_KEY \<or> fd_role target \<noteq> FOREIGN_KEY then None
      else case relation_for_source_field (fd_id target) target_schema of
        None \<Rightarrow> None
      | Some relation \<Rightarrow>
          (if rl_lookup_keys relation = [] then None
           else let scored = rev (sort (scored_keys automatic source (rl_lookup_keys relation)))
             in case scored of [] \<Rightarrow> None | (score, name) # _ \<Rightarrow> if score < double_of (42 / 100) then None else Some name))"

definition automatic_mapping_contract_safe :: "field_descriptor \<Rightarrow> field_descriptor
    \<Rightarrow> schema_descriptor \<Rightarrow> bool" where
  "automatic_mapping_contract_safe source target target_schema =
     (if fd_sensitivity source \<noteq> fd_sensitivity target then False
      else if fd_nullable source \<and> \<not> fd_nullable target then False
      else if foreign_key_lookup_key True source target target_schema \<noteq> None then True
      else automatic_copy_type_safe (fd_data_type source) (fd_data_type target)
        \<and> role_compatible_for_automatic (fd_role source) (fd_role target))"

section \<open>Scores\<close>

definition deterministic_score :: "field_descriptor \<Rightarrow> field_descriptor \<Rightarrow> schema_descriptor option \<Rightarrow> rat \<times> string list" where
  "deterministic_score source target target_schema =
     (if \<not> sensitivity_route_safe (fd_sensitivity source) (fd_sensitivity target) then (0, [''sensitivity incompatible''])
      else
       (let (name_score, reasons) = name_similarity source target;
            relation_lookup = (case target_schema of None \<Rightarrow> False | Some s \<Rightarrow> foreign_key_lookup_key True source target s \<noteq> None);
            t = type_compatibility (fd_data_type source) (fd_data_type target);
            r = (if fd_role source = fd_role target then 1 else double_of (55 / 100));
            type_score = (if relation_lookup then max t (double_of (85 / 100)) else t);
            role_score = (if relation_lookup then max r (double_of (85 / 100)) else r);
            base = double_add (double_add (double_mul (double_of (68 / 100)) name_score) (double_mul (double_of (22 / 100)) type_score))
              (double_mul (double_of (10 / 100)) role_score);
            score = (if relation_lookup then min 1 (double_add base (double_of (12 / 100))) else base)
        in (min score 1, reasons @ (if relation_lookup then [''verified foreign-key lookup path''] else [])
            @ (if type_score = 1 then [''type match''] else []) @ (if fd_role source = fd_role target then [''role match''] else []))))"

end
