(* ===== verification/Planning.thy ===== *)
theory Planning
  imports Matching
begin

text \<open>
  From decisions to a plan (\<open>planning.py\<close>). The main result is that a plan made of automatic decisions has no finding of the
  validator but required targets it leaves out.
\<close>

section \<open>Decisions\<close>

datatype mapping_status = AUTO | REVIEW | BLOCKED

record mapping_decision =
  md_source_field_id :: string
  md_target_field_id :: "string option"
  md_status :: mapping_status
  md_score :: rat
  md_margin :: rat
  md_reasons :: "string list"

section \<open>Plans\<close>

definition new_rule :: "field_descriptor \<Rightarrow> field_descriptor \<Rightarrow> string \<Rightarrow> (string \<times> string) list \<Rightarrow> mapping_rule result" where
  "new_rule source target transform parameters = MappingRule \<lparr>mr_source_field_id = fd_id source, mr_target_field_id = fd_id target,
     mr_transform = transform, mr_parameters = parameters\<rparr>"

definition mapping_rule_for :: "field_descriptor \<Rightarrow> field_descriptor
    \<Rightarrow> schema_descriptor \<Rightarrow> bool \<Rightarrow> mapping_rule result" where
  "mapping_rule_for source target target_schema reviewed =
     (if fd_sensitivity source \<in> {OPAQUE, SECRET} then new_rule source target ''opaque_forward'' []
      else
        (let lookup = (case foreign_key_lookup_key True source target target_schema of
             Some k \<Rightarrow> Some k
           | None \<Rightarrow> if reviewed then foreign_key_lookup_key False source target target_schema else None)
         in case lookup of
              Some k \<Rightarrow> new_rule source target ''lookup_foreign_key'' [(''match_column'', k)]
            | None \<Rightarrow> if fd_data_type source = DT_INTEGER \<and> fd_data_type target = DT_INTEGER
                then new_rule source target ''parse_integer'' [] else new_rule source target ''copy'' []))"

text \<open>One decision gives at most one rule.\<close>

definition decided_rule :: "schema_descriptor \<Rightarrow> schema_descriptor \<Rightarrow> bool
    \<Rightarrow> mapping_decision \<Rightarrow> mapping_rule list result" where
  "decided_rule source_schema target_schema allow_review d =
     (case md_target_field_id d of
        None \<Rightarrow> Inr []
      | Some target_id \<Rightarrow>
          if md_status d = BLOCKED then Inr []
          else if md_status d = REVIEW \<and> \<not> allow_review then Inr []
          else (case by_id source_schema (md_source_field_id d) of
            None \<Rightarrow> Inl (KeyError (md_source_field_id d))
          | Some source \<Rightarrow> (case by_id target_schema target_id of
              None \<Rightarrow> Inl (KeyError target_id)
            | Some target \<Rightarrow>
                raise_if (md_status d = AUTO \<and> \<not> automatic_mapping_contract_safe source target target_schema)
                  (PolicyViolation ''automatic mapping decision lacks an executable contract'') (
                bindE (mapping_rule_for source target target_schema (md_status d = REVIEW)) (\<lambda>rule.
                bindE (validate_route source target (mr_transform rule)) (\<lambda>_. Inr [rule]))))))"

definition build_plan :: "schema_descriptor \<Rightarrow> schema_descriptor
    \<Rightarrow> mapping_decision list \<Rightarrow> bool \<Rightarrow> string \<Rightarrow> int \<Rightarrow> mapping_plan result" where
  "build_plan source_schema target_schema decisions allow_review uuid now =
     bindE (mapE (decided_rule source_schema target_schema allow_review) decisions) (\<lambda>rules.
     MappingPlan \<lparr>mp_id = uuid, mp_source_schema_id = sd_id source_schema, mp_target_schema_id = sd_id target_schema,
       mp_source_fingerprint = fingerprint source_schema, mp_target_fingerprint = fingerprint target_schema,
       mp_rules = concat rules, mp_version = 1, mp_created_at = now\<rparr> (Aware now 0))"

section \<open>Automatic plans are clean\<close>

text \<open>A lookup the planner chooses automatically names a declared key of fitting type.\<close>

lemma lookup_chosen:
  assumes "foreign_key_lookup_key True source target ts = Some name"
    and "list_all (\<lambda>r. distinct (map lk_name (rl_lookup_keys r))) (sd_relations ts)"
  obtains relation key where "relation_for_source_field (fd_id target) ts = Some relation" "lookup_key name relation = Some key"
    "fd_data_type source \<noteq> DT_UNKNOWN" "lk_data_type key \<noteq> DT_UNKNOWN"
    "automatic_copy_type_safe (fd_data_type source) (lk_data_type key)" "fd_role source = NATURAL_KEY" "fd_role target = FOREIGN_KEY"
    "fd_sensitivity source \<notin> {SECRET, OPAQUE}"
proof -
  obtain relation score rest where r: "relation_for_source_field (fd_id target) ts = Some relation"
    "rev (sort (scored_keys True source (rl_lookup_keys relation))) = (score, name) # rest"
    "fd_role source = NATURAL_KEY" "fd_role target = FOREIGN_KEY" "fd_sensitivity source \<notin> {SECRET, OPAQUE}"
    using assms(1) by (auto simp: foreign_key_lookup_key_def Let_def split: if_splits option.splits list.splits)
  have "(score, name) \<in> set (rev (sort (scored_keys True source (rl_lookup_keys relation))))" unfolding r(2) by simp
  then obtain key where key: "key \<in> set (rl_lookup_keys relation)" "lk_name key = name" "fd_data_type source \<noteq> DT_UNKNOWN"
    "lk_data_type key \<noteq> DT_UNKNOWN" "automatic_copy_type_safe (fd_data_type source) (lk_data_type key)"
    by (auto simp: scored_keys_def Let_def)
  have "relation \<in> set (sd_relations ts)" using r(1) by (auto simp: relation_for_source_field_def find_Some_iff)
  then have "keyed lk_name (rl_lookup_keys relation)" using assms(2) by (simp add: list_all_iff keyed_def)
  then have "lookup_key name relation = Some key"
    using keyed_select_iff [of lk_name "rl_lookup_keys relation" name key] key(1,2) by (simp add: lookup_key_def select_one_def)
  with r key show thesis by (intro that) simp_all
qed

lemma new_rule_Inr: "new_rule s t tr ps = Inr r \<Longrightarrow> r = \<lparr>mr_source_field_id = fd_id s, mr_target_field_id = fd_id t, mr_transform = tr, mr_parameters = ps\<rparr>"
  by (auto simp: new_rule_def MappingRule_def rule_text_def)

lemma automatic_rule_clean:
  assumes "automatic_mapping_contract_safe source target ts" "mapping_rule_for source target ts False = Inr rule"
    and "validate_route source target (mr_transform rule) = Inr ()"
    and "list_all (\<lambda>r. distinct (map lk_name (rl_lookup_keys r))) (sd_relations ts)"
  shows "route_findings ts source target rule = []"
proof -
  have known: "is_known_transform tr" if "tr \<in> {''copy'', ''opaque_forward'', ''parse_integer'', ''lookup_foreign_key''}" for tr
    using that by (auto simp: is_known_transform_def TRANSFORM_SPECS_def)
  have nullable: "\<not> (fd_nullable source \<and> \<not> fd_nullable target)"
    using assms(1) by (auto simp: automatic_mapping_contract_safe_def split: if_splits)
  show ?thesis
  proof (cases "foreign_key_lookup_key True source target ts")
    case None
    then have safe: "automatic_copy_type_safe (fd_data_type source) (fd_data_type target)"
      using assms(1) by (auto simp: automatic_mapping_contract_safe_def split: if_splits)
    have tr: "mr_transform rule \<in> {''copy'', ''opaque_forward'', ''parse_integer''}"
      using assms(2) None by (auto simp: mapping_rule_for_def dest!: new_rule_Inr split: if_splits)
    have "copy_findings source target = []" using safe by (auto simp: copy_findings_def automatic_copy_type_safe_def)
    then show ?thesis using tr known [of "mr_transform rule"] assms(3) nullable by (auto simp: route_findings_def)
  next
    case (Some name)
    from lookup_chosen [OF Some assms(4)] obtain relation key where k: "relation_for_source_field (fd_id target) ts = Some relation"
      "lookup_key name relation = Some key" "fd_data_type source \<noteq> DT_UNKNOWN" "lk_data_type key \<noteq> DT_UNKNOWN"
      "automatic_copy_type_safe (fd_data_type source) (lk_data_type key)" "fd_role source = NATURAL_KEY" "fd_role target = FOREIGN_KEY"
      "fd_sensitivity source \<notin> {SECRET, OPAQUE}" .
    have rule: "mr_transform rule = ''lookup_foreign_key''" "mr_parameters rule = [(''match_column'', name)]"
      using assms(2) Some k(8) by (auto simp: mapping_rule_for_def dest!: new_rule_Inr)
    have "rule_lookup ts target rule = Some key" using k(1,2) rule(2) by (simp add: rule_lookup_def)
    then have "lookup_findings ts source target rule = []" using k rule(2) by (simp add: lookup_findings_def Let_def)
    then show ?thesis using rule(1) known [of "mr_transform rule"] assms(3) nullable by (simp add: route_findings_def)
  qed
qed

lemma decided_rule_clean:
  assumes "decided_rule ss ts False d = Inr rules" "r \<in> set rules"
    and "list_all (\<lambda>r. distinct (map lk_name (rl_lookup_keys r))) (sd_relations ts)" "mr_target_field_id r \<notin> set targeted"
  shows "rule_findings ss ts targeted r = ([], mr_target_field_id r # targeted)"
proof -
  obtain source target where d: "by_id ss (md_source_field_id d) = Some source" "md_target_field_id d \<noteq> None"
    "by_id ts (the (md_target_field_id d)) = Some target" "automatic_mapping_contract_safe source target ts"
    "mapping_rule_for source target ts False = Inr r" "validate_route source target (mr_transform r) = Inr ()"
    using assms(1,2) by (cases "md_status d") (auto simp: decided_rule_def split: option.splits if_splits)
  have ids: "fd_id source = md_source_field_id d" "fd_id target = the (md_target_field_id d)"
    using d(1,3) by_id_Some by blast+
  have r: "mr_source_field_id r = fd_id source" "mr_target_field_id r = fd_id target"
    using d(5) by (auto simp: mapping_rule_for_def Let_def dest!: new_rule_Inr split: if_splits option.splits)
  have "route_findings ts source target r = []" by (rule automatic_rule_clean [OF d(4,5,6) assms(3)])
  then show ?thesis using assms(4) d(1,3) ids r by (simp add: rule_findings_def)
qed

lemma rules_clean:
  assumes "\<And>r targeted. r \<in> set rs \<Longrightarrow> mr_target_field_id r \<notin> set targeted \<Longrightarrow>
      rule_findings ss ts targeted r = ([], mr_target_field_id r # targeted)"
    and "distinct (map mr_target_field_id rs)" "set (map mr_target_field_id rs) \<inter> set targeted = {}"
  shows "rules_findings ss ts targeted rs = ([], rev (map mr_target_field_id rs) @ targeted)"
  using assms by (induction rs arbitrary: targeted) auto

lemma required_findings_set: "set a = set b \<Longrightarrow> required_findings ts a = required_findings ts b"
  by (simp add: required_findings_def)

text \<open>The planner never proposes what the validator would refuse.\<close>

lemma automatic_plan_is_clean:
  assumes "build_plan ss ts decisions False uuid now = Inr p"
    and "list_all (\<lambda>r. distinct (map lk_name (rl_lookup_keys r))) (sd_relations ts)" "distinct (map mr_target_field_id (mp_rules p))"
  shows "validate_plan p ss ts = required_findings ts (map mr_target_field_id (mp_rules p))"
proof -
  obtain rules where rules: "mapE (decided_rule ss ts False) decisions = Inr rules" "mp_rules p = concat rules"
    and head: "mp_source_schema_id p = sd_id ss" "mp_target_schema_id p = sd_id ts" "mp_source_fingerprint p = fingerprint ss"
      "mp_target_fingerprint p = fingerprint ts"
    using assms(1) by (auto simp: build_plan_def MappingPlan_def)
  have "rule_findings ss ts targeted r = ([], mr_target_field_id r # targeted)"
    if r: "r \<in> set (mp_rules p)" and fresh: "mr_target_field_id r \<notin> set targeted" for r targeted
  proof -
    obtain x where x: "x \<in> set rules" "r \<in> set x" using r rules(2) by auto
    then obtain i where i: "i < length rules" "r \<in> set (rules ! i)" by (metis in_set_conv_nth)
    then have "decided_rule ss ts False (decisions ! i) = Inr (rules ! i)"
      using mapE_nth [OF rules(1)] mapE_length [OF rules(1)] by simp
    from decided_rule_clean [OF this i(2) assms(2) fresh] show ?thesis .
  qed
  from rules_clean [OF this assms(3), of "[]"]
  have found: "rules_findings ss ts [] (mp_rules p) = ([], rev (map mr_target_field_id (mp_rules p)))" by simp
  have "header_findings p ss ts = []" using head by (simp add: header_findings_def)
  then show ?thesis
    unfolding validate_plan_def found by (simp add: required_findings_set [of "rev (map mr_target_field_id (mp_rules p))" "map mr_target_field_id (mp_rules p)"])
qed

end
