(* ===== verification/Hybrid.thy ===== *)
theory Hybrid
  imports Planning
begin

text \<open>
  The matcher (\<open>matching/hybrid.py\<close>, \<open>matching/glossary.py\<close>): candidates ranked by deterministic scores and, where
  configured, by models; decisions for the fields of a schema, the glossary's advice, and the conflicts between them. A model
  (\<open>SemanticEncoder\<close>, \<open>Reranker\<close>) is an argument: it may answer any floats, in any number, or raise.
\<close>

section \<open>Models\<close>

datatype model_float = Finite rat | PosInf | NegInf | NotANumber

text \<open>\<open>max(0.0, min(x, 1.0))\<close>: of two arguments \<open>min\<close> and \<open>max\<close> keep the first unless the second is smaller, or larger.\<close>

fun clamp01 :: "model_float \<Rightarrow> rat" where
  "clamp01 (Finite x) = max 0 (min x 1)"
| "clamp01 PosInf = 1"
| "clamp01 NegInf = 0"
| "clamp01 NotANumber = 0"

type_synonym model = "string \<Rightarrow> string list \<Rightarrow> model_float list result"

record hybrid_matcher =
  hm_semantic :: "model option"
  hm_reranker :: "model option"
  hm_semantic_weight :: rat
  hm_reranker_weight :: rat
  hm_rerank_top_k :: int
  hm_rerank_trigger_margin :: rat
  hm_rerank_min_score :: rat
  hm_deterministic_auto_floor :: rat
  hm_deterministic_minimum_margin :: rat
  hm_auto_threshold :: rat
  hm_minimum_margin :: rat

definition HybridMatcher :: "model option \<Rightarrow> model option \<Rightarrow> hybrid_matcher" where
  "HybridMatcher semantic reranker = \<lparr>hm_semantic = semantic, hm_reranker = reranker, hm_semantic_weight = double_of (24 / 100),
     hm_reranker_weight = double_of (18 / 100), hm_rerank_top_k = 4, hm_rerank_trigger_margin = double_of (16 / 100),
     hm_rerank_min_score = 1 / 2, hm_deterministic_auto_floor = double_of (90 / 100),
     hm_deterministic_minimum_margin = double_of (8 / 100), hm_auto_threshold = double_of (86 / 100),
     hm_minimum_margin = double_of (8 / 100)\<rparr>"

definition semantic_text :: "field_descriptor \<Rightarrow> string" where
  "semantic_text f = join ''; '' (
     [''name: '' @ fd_name f]
     @ (if fd_aliases f \<noteq> [] then [''aliases: '' @ join '', '' (fd_aliases f)] else [])
     @ (case fd_description f of Some d \<Rightarrow> if d \<noteq> [] then [''description: '' @ d] else [] | None \<Rightarrow> [])
     @ [''type: '' @ data_type_value (fd_data_type f), ''role: '' @ field_role_value (fd_role f)]
     @ (case fd_container f of Some c \<Rightarrow> if c \<noteq> [] then [''container: '' @ c] else [] | None \<Rightarrow> []))"

section \<open>Candidates\<close>

record mapping_candidate =
  mc_source_field_id :: string
  mc_target_field_id :: string
  mc_score :: rat
  mc_deterministic_score :: rat
  mc_semantic_score :: "model_float option"
  mc_reasons :: "string list"
  mc_reranker_score :: "rat option"

text \<open>\<open>sorted(xs, key=f, reverse=True)\<close>, which is stable\<close>

definition sort_desc :: "('a \<Rightarrow> rat) \<Rightarrow> 'a list \<Rightarrow> 'a list" where
  "sort_desc f = sort_key (\<lambda>x. - f x)"

text \<open>How far the best score is from the second, or from \<open>0.0\<close>, of scores in descending order.\<close>

fun lead :: "rat list \<Rightarrow> rat" where
  "lead [] = 0"
| "lead [x] = x"
| "lead (x # y # _) = double_sub x y"

definition first_max :: "rat list \<Rightarrow> nat" where
  "first_max xs = length (takeWhile (\<lambda>x. x \<noteq> Max (set xs)) xs)"

definition deterministic_is_decisive :: "hybrid_matcher \<Rightarrow> field_descriptor \<Rightarrow> schema_descriptor \<Rightarrow> rat list \<Rightarrow> bool" where
  "deterministic_is_decisive m source ts scores = (scores \<noteq> [] \<and>
     (let ranking = sort_desc (\<lambda>x. x) scores in
       hm_deterministic_auto_floor m \<le> hd ranking \<and> hm_deterministic_minimum_margin m \<le> lead ranking
       \<and> automatic_mapping_contract_safe source (sd_fields ts ! first_max scores) ts))"

definition blend :: "rat \<Rightarrow> rat \<Rightarrow> rat \<Rightarrow> rat" where
  "blend weight old new = double_add (double_mul (double_sub 1 weight) old) (double_mul weight new)"

definition initial_candidate :: "hybrid_matcher \<Rightarrow> field_descriptor \<Rightarrow> field_descriptor \<times> model_float option \<times> rat \<times> string list
    \<Rightarrow> mapping_candidate" where
  "initial_candidate m source = (\<lambda>(target, semantic, deterministic, reasons).
     \<lparr>mc_source_field_id = fd_id source, mc_target_field_id = fd_id target,
      mc_score = (case semantic of None \<Rightarrow> deterministic | Some s \<Rightarrow> blend (hm_semantic_weight m) deterministic (clamp01 s)),
      mc_deterministic_score = deterministic, mc_semantic_score = semantic, mc_reasons = reasons, mc_reranker_score = None\<rparr>)"

definition initial_candidates :: "hybrid_matcher \<Rightarrow> field_descriptor \<Rightarrow> schema_descriptor \<Rightarrow> mapping_candidate list result" where
  "initial_candidates m source ts =
     (let fields = sd_fields ts; evidence = map (\<lambda>t. deterministic_score source t (Some ts)) fields in
      bindE (case hm_semantic m of
          Some similarities \<Rightarrow>
            if deterministic_is_decisive m source ts (map fst evidence) then Inr (map (\<lambda>_. None) fields)
            else bindE (similarities (semantic_text source) (map semantic_text fields)) (\<lambda>scores. Inr (map Some scores))
        | None \<Rightarrow> Inr (map (\<lambda>_. None) fields)) (\<lambda>semantic.
      raise_if (length semantic \<noteq> length fields) (ValueError ''zip() arguments have different lengths'') (
      Inr (sort_desc mc_score (map (initial_candidate m source) (zip fields (zip semantic evidence)))))))"

definition rerank :: "rat \<Rightarrow> mapping_candidate \<times> model_float \<Rightarrow> mapping_candidate" where
  "rerank weight = (\<lambda>(c, raw). let s = clamp01 raw in
     c\<lparr>mc_score := blend weight (mc_score c) s, mc_reranker_score := Some s, mc_reasons := mc_reasons c @ [''reranker evidence'']\<rparr>)"

definition target_of :: "schema_descriptor \<Rightarrow> mapping_candidate \<Rightarrow> field_descriptor result" where
  "target_of ts c = (case by_id ts (mc_target_field_id c) of None \<Rightarrow> Inl (KeyError (mc_target_field_id c)) | Some f \<Rightarrow> Inr f)"

definition candidates_for :: "hybrid_matcher \<Rightarrow> field_descriptor \<Rightarrow> schema_descriptor \<Rightarrow> mapping_candidate list result" where
  "candidates_for m source ts =
     bindE (initial_candidates m source ts) (\<lambda>candidates.
     case hm_reranker m of
       None \<Rightarrow> Inr candidates
     | Some scores_of \<Rightarrow>
         if length candidates < 2 then Inr candidates
         else
          (let ranking = sort_desc mc_deterministic_score candidates; scores = map mc_deterministic_score ranking in
           bindE (target_of ts (hd ranking)) (\<lambda>target.
           if hm_deterministic_auto_floor m \<le> hd scores \<and> hm_deterministic_minimum_margin m \<le> lead scores
             \<and> automatic_mapping_contract_safe source target ts then Inr candidates
           else if mc_score (hd candidates) < hm_rerank_min_score m
             \<or> hm_rerank_trigger_margin m < lead (map mc_score candidates) then Inr candidates
           else
            (let count = nat (min (max 2 (hm_rerank_top_k m)) (int (length candidates))); top = take count candidates in
             bindE (mapE (target_of ts) top) (\<lambda>targets.
             bindE (scores_of (semantic_text source) (map semantic_text targets)) (\<lambda>scores.
             if length scores \<noteq> length top then Inr candidates
             else Inr (sort_desc mc_score (map (rerank (hm_reranker_weight m)) (zip top scores) @ drop count candidates))))))))"

section \<open>Decisions\<close>

definition decided_status :: "hybrid_matcher \<Rightarrow> rat \<Rightarrow> rat \<Rightarrow> rat \<Rightarrow> bool \<Rightarrow> mapping_status" where
  "decided_status m score margin deterministic ok =
     (if hm_auto_threshold m \<le> score \<and> hm_minimum_margin m \<le> margin \<and> ok then AUTO
      else if double_of (55 / 100) \<le> score \<or> double_of (55 / 100) \<le> deterministic then REVIEW else BLOCKED)"

definition decide_among :: "hybrid_matcher \<Rightarrow> field_descriptor \<Rightarrow> schema_descriptor \<Rightarrow> mapping_candidate list \<Rightarrow> mapping_decision result" where
  "decide_among m source ts candidates =
     (if candidates = [] then Inr \<lparr>md_source_field_id = fd_id source, md_target_field_id = None, md_status = BLOCKED, md_score = 0,
        md_margin = 0, md_reasons = [''no target fields'']\<rparr>
      else
       (let top = hd candidates;
            margin = lead (map mc_score candidates);
            deterministic = sort_desc mc_deterministic_score candidates;
            deterministic_top = hd deterministic;
            deterministic_margin = lead (map mc_deterministic_score deterministic) in
        bindE (target_of ts deterministic_top) (\<lambda>target.
        let verified = (foreign_key_lookup_key True source target ts \<noteq> None);
            type_ok = (automatic_copy_type_safe (fd_data_type source) (fd_data_type target) \<or> verified);
            role_ok = (role_compatible_for_automatic (fd_role source) (fd_role target) \<or> verified);
            contract_safe = automatic_mapping_contract_safe source target ts;
            ok = (mc_target_field_id deterministic_top = mc_target_field_id top
              \<and> hm_deterministic_auto_floor m \<le> mc_deterministic_score deterministic_top
              \<and> hm_deterministic_minimum_margin m \<le> deterministic_margin \<and> type_ok \<and> role_ok \<and> contract_safe);
            status = decided_status m (mc_score top) margin (mc_deterministic_score deterministic_top) ok
        in Inr \<lparr>md_source_field_id = fd_id source,
             md_target_field_id = (if status = BLOCKED then None else Some (mc_target_field_id top)), md_status = status,
             md_score = mc_score top, md_margin = margin,
             md_reasons = mc_reasons top
               @ (if type_ok then [] else [''automatic approval requires compatible declared types''])
               @ (if role_ok then [] else [''automatic approval requires compatible field roles''])
               @ (if contract_safe then [] else [''automatic approval requires an executable policy route''])
               @ (if \<not> ok then [''automatic approval requires independently strong deterministic evidence'']
                  else if mc_semantic_score top \<noteq> None \<or> mc_reranker_score top \<noteq> None
                  then [''model evidence is advisory; automatic approval is deterministic''] else [])\<rparr>)))"

definition decide :: "hybrid_matcher \<Rightarrow> field_descriptor \<Rightarrow> schema_descriptor \<Rightarrow> mapping_decision result" where
  "decide m source ts = bindE (candidates_for m source ts) (decide_among m source ts)"

section \<open>Glossary\<close>

text \<open>\<open>data/business_glossary.json\<close>: a concept and its terms in every language\<close>

definition business_glossary :: "(string \<times> string list) list" where
  "business_glossary = [
     (''invoice_number'', [''invoice number'', ''invoice no'', ''rechnungsnummer'', ''rechnungsnr'', ''numero de facture'',
        ''numero facture'']),
     (''invoice_date'', [''invoice date'', ''invoice issue date'', ''rechnungsdatum'', ''belegdatum'', ''date de facture'',
        ''date facture'']),
     (''due_date'', [''due date'', ''payment due date'', ''faelligkeitsdatum'', ''zahlungsziel'', ''date echeance'',
        ''date limite de paiement'']),
     (''currency'', [''currency'', ''currency code'', ''document currency code'', ''waehrung'', ''waehrungscode'', ''devise'',
        ''code devise'']),
     (''net_amount'', [''net amount'', ''invoice total amount without vat'', ''tax exclusive amount'', ''nettobetrag'',
        ''summe netto'', ''montant net'', ''montant hors taxe'']),
     (''gross_amount'', [''gross amount'', ''invoice total amount with vat'', ''tax inclusive amount'', ''bruttobetrag'',
        ''summe brutto'', ''montant brut'', ''montant toutes taxes comprises'']),
     (''vat_amount'', [''vat amount'', ''invoice total vat amount'', ''tax amount'', ''mehrwertsteuerbetrag'',
        ''umsatzsteuerbetrag'', ''mwst betrag'', ''montant tva'', ''taxe sur la valeur ajoutee'']),
     (''vat_rate'', [''vat rate'', ''tax rate'', ''mehrwertsteuersatz'', ''umsatzsteuersatz'', ''mwst satz'', ''taux tva'',
        ''taux de taxe'']),
     (''payable_amount'', [''payable amount'', ''amount due for payment'', ''zahlbetrag'', ''offener betrag'',
        ''montant a payer'', ''net a payer'']),
     (''customer_number'', [''customer number'', ''customer id'', ''kundennummer'', ''debitorennummer'', ''debitor'',
        ''numero client'', ''identifiant client'']),
     (''supplier_number'', [''supplier number'', ''vendor number'', ''lieferantennummer'', ''kreditorennummer'', ''kreditor'',
        ''numero fournisseur'', ''identifiant fournisseur'']),
     (''company_registration_number'', [''company number'', ''company registration number'',
        ''organization registration number'', ''handelsregisternummer'', ''unternehmensnummer'', ''siren'', ''numero siren'',
        ''numero entreprise'']),
     (''legal_name'', [''company name'', ''legal name'', ''firmenname'', ''rechtlicher name'', ''denominationunitelegale'',
        ''denomination unite legale'', ''raison sociale'']),
     (''incorporation_date'', [''date of creation'', ''incorporation date'', ''gruendungsdatum'', ''errichtungsdatum'',
        ''datecreationunitelegale'', ''date creation unite legale'']),
     (''quantity'', [''quantity'', ''invoiced quantity'', ''menge'', ''anzahl'', ''quantite'', ''quantite facturee'']),
     (''unit_price'', [''unit price'', ''item net price'', ''einzelpreis'', ''stueckpreis'', ''prix unitaire'',
        ''prix net article'']),
     (''tax_id'', [''tax id'', ''vat identifier'', ''steuer id'', ''steuernummer'', ''umsatzsteuer id'', ''numero tva'',
        ''identifiant fiscal'']),
     (''iban'', [''iban'', ''bank account iban'', ''iban'', ''kontonummer iban'', ''iban'', ''compte bancaire iban'']),
     (''reference_date'', [''reference date'', ''reporting date'', ''stichtag'', ''berichtsdatum'', ''date de reference'',
        ''date observation'']),
     (''area_square_kilometers'', [''area square kilometers'', ''area km2'', ''gebietsflaeche qkm'', ''flaeche qkm'',
        ''superficie km2'', ''surface km2''])]"

definition concepts :: "field_descriptor \<Rightarrow> string set" where
  "concepts f = set (map fst (filter (\<lambda>(_, terms). list_ex (\<lambda>v. let n = normalize_name v in
     n \<noteq> [] \<and> n \<in> set (map normalize_name terms)) (variants f)) business_glossary))"

definition advisory_glossary_target :: "field_descriptor \<Rightarrow> schema_descriptor \<Rightarrow> field_descriptor option" where
  "advisory_glossary_target source ts =
     (if concepts source = {} then None
      else case filter (\<lambda>t. concepts source \<inter> concepts t \<noteq> {} \<and> automatic_mapping_contract_safe source t ts) (sd_fields ts) of
        [t] \<Rightarrow> Some t | _ \<Rightarrow> None)"

section \<open>Proposals\<close>

definition with_glossary :: "schema_descriptor \<Rightarrow> field_descriptor \<times> mapping_decision \<Rightarrow> mapping_decision" where
  "with_glossary ts = (\<lambda>(source, d).
     if md_status d = AUTO then d
     else case advisory_glossary_target source ts of
       None \<Rightarrow> d
     | Some t \<Rightarrow> if md_target_field_id d = Some (fd_id t) then d
         else \<lparr>md_source_field_id = fd_id source, md_target_field_id = Some (fd_id t), md_status = REVIEW,
           md_score = max (double_of (55 / 100)) (md_score d), md_margin = 0,
           md_reasons = md_reasons d @ [''business glossary advisory match'']\<rparr>)"

text \<open>The targets that a decision claims: those in \<open>target_to_sources\<close>, where an empty identifier counts as none.\<close>

definition claimed :: "mapping_decision \<Rightarrow> string option" where
  "claimed d = (if md_status d = BLOCKED \<or> md_target_field_id d = Some [] then None else md_target_field_id d)"

definition with_conflicts :: "mapping_decision list \<Rightarrow> mapping_decision list" where
  "with_conflicts ds = map (\<lambda>d. if claimed d \<noteq> None \<and> 1 < length (filter (\<lambda>e. claimed e = claimed d) ds)
     then d\<lparr>md_status := REVIEW, md_reasons := md_reasons d @ [''target conflict'']\<rparr> else d) ds"

definition propose :: "hybrid_matcher \<Rightarrow> schema_descriptor \<Rightarrow> schema_descriptor \<Rightarrow> mapping_decision list result" where
  "propose m ss ts =
     bindE (mapE (\<lambda>source. decide m source ts) (sd_fields ss)) (\<lambda>decisions.
     Inr (with_conflicts (map (with_glossary ts) (zip (sd_fields ss) decisions))))"

end
