(* ===== verification/HybridProofs.thy ===== *)
theory HybridProofs
  imports Hybrid SerializationProofs
begin

text \<open>
  What the matcher promises whatever its models answer: they can take an automatic decision away but never grant one, and
  what it proposes automatically is a plan that the planner builds and the validator finds clean.
\<close>

section \<open>Rankings\<close>

lemma map_sort_key_self: "map f (sort_key f xs) = sort (map f xs)"
  by (rule properties_for_sort [symmetric]) simp_all

lemma map_sort_desc: "map f (sort_desc f xs) = map uminus (sort (map uminus (map f xs)))"
proof -
  have "map uminus (map (\<lambda>x. - f x) (sort_desc f xs)) = map uminus (sort (map (\<lambda>x. - f x) xs))"
    by (simp only: sort_desc_def map_sort_key_self)
  then show ?thesis by (simp add: comp_def)
qed

lemma sort_desc_scores:
  assumes "mset (map f xs) = mset (map g ys)"
  shows "map f (sort_desc f xs) = map g (sort_desc g ys)"
proof -
  have "mset (map uminus (map f xs)) = mset (map uminus (map g ys))" by (simp only: mset_map assms [unfolded mset_map])
  then have "sort (map uminus (map f xs)) = sort (map uminus (map g ys))" by (intro properties_for_sort) simp_all
  then show ?thesis by (simp only: map_sort_desc)
qed

lemma sort_desc_set [simp]: "set (sort_desc f xs) = set xs" "length (sort_desc f xs) = length xs"
  by (simp_all add: sort_desc_def)

lemma sort_desc_mset [simp]: "mset (sort_desc f xs) = mset xs"
  by (simp add: sort_desc_def)

lemma sort_desc_Nil [simp]: "sort_desc f xs = [] \<longleftrightarrow> xs = []"
  by (metis sort_desc_set(2) length_0_conv)

lemma sort_desc_sorted: "sorted_wrt (\<lambda>x y. f y \<le> f x) (sort_desc f xs)"
  using sorted_sort_key [of "\<lambda>x. - f x" xs] by (simp add: sort_desc_def sorted_map)

lemma sort_desc_idem: "sort_desc f (sort_desc f xs) = sort_desc f xs"
  unfolding sort_desc_def by (rule sort_key_id_if_sorted) simp

lemma insort_key_agree: "\<forall>y \<in> set (x # ys). f y = g y \<Longrightarrow> insort_key f x ys = insort_key g x ys"
  by (induction ys) auto

lemma sort_desc_cong: "\<forall>x \<in> set xs. f x = g x \<Longrightarrow> sort_desc f xs = sort_desc g xs"
proof (induction xs)
  case (Cons x xs)
  then have "insort_key (\<lambda>x. - f x) x (sort_key (\<lambda>x. - f x) xs) = insort_key (\<lambda>x. - g x) x (sort_key (\<lambda>x. - f x) xs)"
    by (intro insort_key_agree) simp
  with Cons show ?case by (simp add: sort_desc_def)
qed (simp add: sort_desc_def)

lemma mset_map_sort_desc: "mset (map g (sort_desc f xs)) = mset (map g xs)"
  by simp

text \<open>A lead above zero is that of a single first entry.\<close>

lemma round_even_nonneg: "0 \<le> q \<Longrightarrow> 0 \<le> round_even q"
  by (simp add: round_even_def Let_def)

lemma double_of_nonpos: "x \<le> 0 \<Longrightarrow> double_of x \<le> 0"
proof -
  assume x: "x \<le> 0"
  define s :: rat where "s = 2 powi (floor_log2 \<bar>x\<bar> - 52)"
  have s: "0 < s" by (simp add: s_def)
  have "0 \<le> round_even (\<bar>x\<bar> / s)" using s by (intro round_even_nonneg) simp
  then have "0 \<le> of_int (round_even (\<bar>x\<bar> / s)) * s" using s by (simp add: zero_le_mult_iff)
  moreover have "sgn x \<le> 0" using x by (simp add: sgn_if)
  ultimately have "sgn x * (of_int (round_even (\<bar>x\<bar> / s)) * s) \<le> 0" by (rule mult_nonpos_nonneg [rotated])
  then show ?thesis by (simp add: double_of_def Let_def s_def algebra_simps)
qed

lemma lead_unique:
  assumes "sorted_wrt (\<lambda>x y. f y \<le> f x) (x # xs)" "0 < lead (map f (x # xs))" "y \<in> set xs"
  shows "f y < f x"
proof (cases xs)
  case (Cons z zs)
  then have "\<not> double_sub (f x) (f z) \<le> 0" using assms(2) by simp
  then have "f z < f x" using double_of_nonpos [of "f x - f z"] unfolding double_sub_def by linarith
  moreover have "f y \<le> f z" using assms(1,3) Cons by auto
  ultimately show ?thesis by linarith
qed (use assms(3) in simp)

section \<open>Candidates\<close>

definition mc_pair :: "mapping_candidate \<Rightarrow> string \<times> rat" where
  "mc_pair c = (mc_target_field_id c, mc_deterministic_score c)"

definition scored_targets :: "field_descriptor \<Rightarrow> schema_descriptor \<Rightarrow> (string \<times> rat) list" where
  "scored_targets source ts = map (\<lambda>t. (fd_id t, fst (deterministic_score source t (Some ts)))) (sd_fields ts)"

lemma initial_pairs:
  assumes "length semantic = length ts1"
  shows "map mc_pair (map (initial_candidate m source) (zip ts1 (zip semantic (map (\<lambda>t. deterministic_score source t (Some ts)) ts1))))
    = map (\<lambda>t. (fd_id t, fst (deterministic_score source t (Some ts)))) ts1"
  using assms
proof (induction ts1 arbitrary: semantic)
  case (Cons t ts1)
  then show ?case by (cases semantic) (auto simp: initial_candidate_def mc_pair_def split: prod.splits)
qed simp

lemma initial_candidates_pairs:
  "initial_candidates m source ts = Inr cs \<Longrightarrow> mset (map mc_pair cs) = mset (scored_targets source ts)"
proof -
  assume "initial_candidates m source ts = Inr cs"
  then obtain semantic where "length semantic = length (sd_fields ts)"
    "cs = sort_desc mc_score (map (initial_candidate m source) (zip (sd_fields ts)
      (zip semantic (map (\<lambda>t. deterministic_score source t (Some ts)) (sd_fields ts)))))"
    unfolding initial_candidates_def Let_def by (auto simp del: map_map)
  then show ?thesis using initial_pairs [of semantic "sd_fields ts" m source ts] by (simp only: scored_targets_def mset_map_sort_desc)
qed

lemma rerank_pairs: "length scores = length best \<Longrightarrow> map mc_pair (map (rerank w) (zip best scores)) = map mc_pair best"
proof (induction best arbitrary: scores)
  case (Cons c best)
  then show ?case by (cases scores) (auto simp: rerank_def mc_pair_def Let_def)
qed simp

lemma candidates_pairs:
  assumes "candidates_for m source ts = Inr cs"
  shows "mset (map mc_pair cs) = mset (scored_targets source ts)"
proof -
  obtain cs' where cs': "initial_candidates m source ts = Inr cs'" using assms by (cases "initial_candidates m source ts") (simp_all add: candidates_for_def)
  consider "cs = cs'" | n scores where "length scores = length (take n cs')"
      "cs = sort_desc mc_score (map (rerank (hm_reranker_weight m)) (zip (take n cs') scores) @ drop n cs')"
  proof (cases "hm_reranker m")
    case None
    then have "cs = cs'" using assms cs' by (simp add: candidates_for_def)
    then show thesis by (rule that(1))
  next
    case (Some scores_of)
    let ?n = "nat (min (max 2 (hm_rerank_top_k m)) (int (length cs')))"
    show thesis
    proof (cases "cs = cs'")
      case False
      have "\<exists>scores. length scores = length (take ?n cs')
          \<and> Inr cs = Inr (sort_desc mc_score (map (rerank (hm_reranker_weight m)) (zip (take ?n cs') scores) @ drop ?n cs'))"
        using assms Some False unfolding candidates_for_def cs' bindE_simps Let_def
        by (auto simp only: bindE_Inr_iff option.case sum.inject simp_thms False not_sym [OF False] split: if_split_asm)
      then show thesis by (elim exE conjE) (rule that(2), assumption, simp only: sum.inject)
    qed (rule that(1))
  qed
  then show ?thesis
  proof cases
    case 2
    then have "mset (map mc_pair cs) = mset (map mc_pair (take n cs') @ map mc_pair (drop n cs'))"
      using rerank_pairs [OF 2(1), of "hm_reranker_weight m"] by (simp only: mset_map_sort_desc map_append)
    also have "\<dots> = mset (map mc_pair cs')" by (simp only: append_take_drop_id flip: map_append)
    finally show ?thesis using initial_candidates_pairs [OF cs'] by simp
  qed (use initial_candidates_pairs [OF cs'] in simp)
qed

section \<open>Automatic decisions\<close>

text \<open>What an automatic decision takes, of the candidates and of the matcher's thresholds.\<close>

definition automatic_among :: "hybrid_matcher \<Rightarrow> field_descriptor \<Rightarrow> schema_descriptor \<Rightarrow> mapping_candidate list \<Rightarrow> field_descriptor \<Rightarrow> bool" where
  "automatic_among m source ts cs target \<longleftrightarrow>
     (let ranking = sort_desc mc_deterministic_score cs in
       cs \<noteq> [] \<and> target_of ts (hd ranking) = Inr target \<and> mc_target_field_id (hd ranking) = mc_target_field_id (hd cs)
       \<and> hm_deterministic_auto_floor m \<le> mc_deterministic_score (hd ranking)
       \<and> hm_deterministic_minimum_margin m \<le> lead (map mc_deterministic_score ranking)
       \<and> hm_auto_threshold m \<le> mc_score (hd cs) \<and> hm_minimum_margin m \<le> lead (map mc_score cs)
       \<and> automatic_mapping_contract_safe source target ts)"

lemma contract_safe_type_role:
  "automatic_mapping_contract_safe source target ts \<Longrightarrow>
     (automatic_copy_type_safe (fd_data_type source) (fd_data_type target) \<or> foreign_key_lookup_key True source target ts \<noteq> None)
     \<and> (role_compatible_for_automatic (fd_role source) (fd_role target) \<or> foreign_key_lookup_key True source target ts \<noteq> None)"
  by (auto simp: automatic_mapping_contract_safe_def split: if_splits)

lemma decided_status_AUTO [simp]:
  "decided_status m score margin det ok = AUTO \<longleftrightarrow> hm_auto_threshold m \<le> score \<and> hm_minimum_margin m \<le> margin \<and> ok"
  by (simp add: decided_status_def)

lemma decide_among_AUTO:
  assumes "automatic_among m source ts cs target"
  shows "\<exists>d. decide_among m source ts cs = Inr d \<and> md_status d = AUTO \<and> md_target_field_id d = Some (mc_target_field_id (hd cs))"
proof -
  have a: "cs \<noteq> []" "target_of ts (hd (sort_desc mc_deterministic_score cs)) = Inr target"
    "mc_target_field_id (hd (sort_desc mc_deterministic_score cs)) = mc_target_field_id (hd cs)"
    "hm_deterministic_auto_floor m \<le> mc_deterministic_score (hd (sort_desc mc_deterministic_score cs))"
    "hm_deterministic_minimum_margin m \<le> lead (map mc_deterministic_score (sort_desc mc_deterministic_score cs))"
    "hm_auto_threshold m \<le> mc_score (hd cs)" "hm_minimum_margin m \<le> lead (map mc_score cs)"
    "automatic_mapping_contract_safe source target ts"
    using assms by (simp_all add: automatic_among_def Let_def)
  note tr = contract_safe_type_role [OF a(8)]
  have "decided_status m (mc_score (hd cs)) (lead (map mc_score cs)) x True \<noteq> BLOCKED" for x using a by (simp add: decided_status_def)
  then show ?thesis unfolding decide_among_def Let_def using a tr by (simp only: if_False bindE_simps) simp
qed

lemma decide_among_AUTO_D:
  assumes "decide_among m source ts cs = Inr d" "md_status d = AUTO"
  obtains target where "automatic_among m source ts cs target" "md_target_field_id d = Some (mc_target_field_id (hd cs))"
    "md_source_field_id d = fd_id source"
proof -
  have cs: "cs \<noteq> []" using assms by (auto simp: decide_among_def)
  let ?r = "sort_desc mc_deterministic_score cs"
  obtain target where t: "target_of ts (hd ?r) = Inr target"
    using assms(1) cs unfolding decide_among_def Let_def by (simp only: if_False bindE_Inr_iff) blast
  let ?ok = "mc_target_field_id (hd ?r) = mc_target_field_id (hd cs) \<and> hm_deterministic_auto_floor m \<le> mc_deterministic_score (hd ?r)
    \<and> hm_deterministic_minimum_margin m \<le> lead (map mc_deterministic_score ?r)
    \<and> (automatic_copy_type_safe (fd_data_type source) (fd_data_type target) \<or> foreign_key_lookup_key True source target ts \<noteq> None)
    \<and> (role_compatible_for_automatic (fd_role source) (fd_role target) \<or> foreign_key_lookup_key True source target ts \<noteq> None)
    \<and> automatic_mapping_contract_safe source target ts"
  have d: "md_status d = decided_status m (mc_score (hd cs)) (lead (map mc_score cs)) (mc_deterministic_score (hd ?r)) ?ok"
    "md_target_field_id d = (if md_status d = BLOCKED then None else Some (mc_target_field_id (hd cs)))" "md_source_field_id d = fd_id source"
    using assms(1) cs t unfolding decide_among_def Let_def by (simp_all only: if_False bindE_simps sum.inject mapping_decision.simps) auto
  from assms(2) [unfolded d(1)] have "automatic_among m source ts cs target" using cs t by (simp add: automatic_among_def Let_def)
  with d(2,3) assms(2) show thesis by (intro that) simp_all
qed

section \<open>Models never promote\<close>

definition without_models :: "hybrid_matcher \<Rightarrow> hybrid_matcher" where
  "without_models m = m\<lparr>hm_semantic := None, hm_reranker := None\<rparr>"

lemma candidates_without_models:
  "candidates_for (without_models m) source ts = Inr (sort_desc mc_score (map (initial_candidate (without_models m) source)
     (zip (sd_fields ts) (zip (map (\<lambda>_. None) (sd_fields ts)) (map (\<lambda>t. deterministic_score source t (Some ts)) (sd_fields ts))))))"
  by (simp add: candidates_for_def initial_candidates_def without_models_def Let_def)

lemma decide_among_without_models: "decide_among (without_models m) = decide_among m"
  by (intro ext) (simp add: decide_among_def decided_status_def without_models_def)

lemma automatic_among_without_models: "automatic_among (without_models m) = automatic_among m"
  by (intro ext) (simp add: automatic_among_def without_models_def)

lemma pairs_scores: "map mc_deterministic_score cs = map snd (map mc_pair cs)"
  by (simp add: mc_pair_def comp_def)

lemma by_id_field: "distinct (map fd_id (sd_fields ts)) \<Longrightarrow> f \<in> set (sd_fields ts) \<Longrightarrow> by_id ts (fd_id f) = Some f"
  by (simp add: by_id_def rev_map [symmetric] comp_def)

definition det_scores :: "field_descriptor \<Rightarrow> schema_descriptor \<Rightarrow> rat list" where
  "det_scores source ts = map fst (map (\<lambda>t. deterministic_score source t (Some ts)) (sd_fields ts))"

lemma takeWhile_short: "x \<in> set xs \<Longrightarrow> \<not> P x \<Longrightarrow> length (takeWhile P xs) < length xs"
  by (induction xs) auto

lemma first_max_nth: "xs \<noteq> [] \<Longrightarrow> first_max xs < length xs \<and> xs ! first_max xs = Max (set xs)"
proof -
  assume ne: "xs \<noteq> []"
  let ?P = "\<lambda>x. x \<noteq> Max (set xs)"
  have "Max (set xs) \<in> set xs" using ne by simp
  then have "first_max xs < length xs" unfolding first_max_def by (rule takeWhile_short) simp
  moreover from this have "\<not> ?P (xs ! first_max xs)" unfolding first_max_def by (rule nth_length_takeWhile)
  ultimately show ?thesis by simp
qed

text \<open>With a lead above zero the first of the deterministic ranking is the field at the first maximum of the scores.\<close>

lemma ranking_scores:
  assumes "mset (map mc_pair cs) = mset (scored_targets source ts)"
  shows "map mc_deterministic_score (sort_desc mc_deterministic_score cs) = sort_desc (\<lambda>x. x) (det_scores source ts)"
proof -
  have "map (\<lambda>x. x) (det_scores source ts) = map snd (scored_targets source ts)" by (simp add: scored_targets_def det_scores_def comp_def)
  then have "mset (map mc_deterministic_score cs) = mset (map (\<lambda>x. x) (det_scores source ts))"
    by (simp only: pairs_scores mset_map [of snd] assms)
  from sort_desc_scores [OF this] show ?thesis by simp
qed

lemma leader_field:
  assumes "mset (map mc_pair cs) = mset (scored_targets source ts)" "cs \<noteq> []" "distinct (map fd_id (sd_fields ts))"
    and "0 < lead (sort_desc (\<lambda>x. x) (det_scores source ts))"
  shows "target_of ts (hd (sort_desc mc_deterministic_score cs)) = Inr (sd_fields ts ! first_max (det_scores source ts))"
proof -
  let ?r = "sort_desc mc_deterministic_score cs" and ?s = "det_scores source ts"
  have sets: "set (map mc_pair cs) = set (scored_targets source ts)" by (metis assms(1) set_mset_mset)
  then have "scored_targets source ts \<noteq> []" using assms(2) by auto
  then have ne: "?s \<noteq> []" by (simp add: scored_targets_def det_scores_def)
  define k where "k = first_max ?s"
  have k: "k < length ?s" "?s ! k = Max (set ?s)" using first_max_nth [OF ne] by (simp_all add: k_def)
  have len: "length ?s = length (sd_fields ts)" by (simp add: det_scores_def)
  have "scored_targets source ts ! k = (fd_id (sd_fields ts ! k), ?s ! k)" using k(1) by (simp add: scored_targets_def det_scores_def)
  then have "(fd_id (sd_fields ts ! k), ?s ! k) \<in> set (map mc_pair cs)"
    unfolding sets using k(1) by (metis nth_mem length_map scored_targets_def det_scores_def)
  then obtain c where c: "c \<in> set ?r" "mc_target_field_id c = fd_id (sd_fields ts ! k)" "mc_deterministic_score c = ?s ! k"
    by (auto simp: mc_pair_def)
  have "?r \<noteq> []" using assms(2) by simp
  then obtain x xs where xs: "?r = x # xs" by (meson neq_Nil_conv)
  have "mc_deterministic_score x \<in> set (map mc_deterministic_score ?r)" by (simp add: xs)
  then have "mc_deterministic_score x \<le> mc_deterministic_score c"
    unfolding ranking_scores [OF assms(1)] c(3) k(2) by simp
  moreover have "c \<in> set xs \<Longrightarrow> mc_deterministic_score c < mc_deterministic_score x"
    using lead_unique [OF sort_desc_sorted [of mc_deterministic_score cs, unfolded xs]] assms(4)
    unfolding ranking_scores [OF assms(1), symmetric] xs by blast
  ultimately have "c = x" using c(1) xs by auto
  moreover have "by_id ts (fd_id (sd_fields ts ! k)) = Some (sd_fields ts ! k)" using k(1) len by (intro by_id_field assms(3)) simp
  ultimately show ?thesis using c(2) xs by (simp add: target_of_def k_def)
qed

lemma automatic_is_decisive:
  assumes "mset (map mc_pair cs) = mset (scored_targets source ts)" "automatic_among m source ts cs target"
    and "distinct (map fd_id (sd_fields ts))" "0 < hm_deterministic_minimum_margin m"
  shows "deterministic_is_decisive m source ts (det_scores source ts)"
proof -
  let ?r = "sort_desc mc_deterministic_score cs"
  have a: "cs \<noteq> []" "target_of ts (hd ?r) = Inr target" "hm_deterministic_auto_floor m \<le> hd (map mc_deterministic_score ?r)"
    "hm_deterministic_minimum_margin m \<le> lead (map mc_deterministic_score ?r)" "automatic_mapping_contract_safe source target ts"
    using assms(2) by (auto simp: automatic_among_def Let_def hd_map)
  have "target = sd_fields ts ! first_max (det_scores source ts)"
    using leader_field [OF assms(1) a(1) assms(3)] a(2,4) assms(4) ranking_scores [OF assms(1)] by simp
  moreover have "length cs = length (det_scores source ts)" using arg_cong [OF ranking_scores [OF assms(1)], of length] by simp
  then have "det_scores source ts \<noteq> []" using a(1) by auto
  ultimately show ?thesis using a(3-5) unfolding ranking_scores [OF assms(1)] by (simp add: deterministic_is_decisive_def Let_def)
qed

lemma decisive_asks_no_model:
  assumes "deterministic_is_decisive m source ts (det_scores source ts)" "distinct (map fd_id (sd_fields ts))"
    "0 < hm_deterministic_minimum_margin m"
  shows "candidates_for m source ts = candidates_for (without_models m) source ts"
proof -
  have init: "initial_candidates m source ts = initial_candidates (without_models m) source ts"
    using assms(1) by (auto simp: initial_candidates_def det_scores_def without_models_def initial_candidate_def Let_def fun_eq_iff
        intro!: arg_cong [where f = "sort_desc mc_score"] split: option.splits)
  obtain cs where cs: "candidates_for (without_models m) source ts = Inr cs" "initial_candidates (without_models m) source ts = Inr cs"
    using candidates_without_models by (fastforce simp: candidates_for_def without_models_def)
  let ?r = "sort_desc mc_deterministic_score cs"
  have pairs: "mset (map mc_pair cs) = mset (scored_targets source ts)" by (rule candidates_pairs [OF cs(1)])
  have d: "hm_deterministic_auto_floor m \<le> hd (map mc_deterministic_score ?r)"
    "hm_deterministic_minimum_margin m \<le> lead (map mc_deterministic_score ?r)"
    "automatic_mapping_contract_safe source (sd_fields ts ! first_max (det_scores source ts)) ts"
    using assms(1) unfolding ranking_scores [OF pairs] by (simp_all add: deterministic_is_decisive_def Let_def)
  have "candidates_for m source ts = Inr cs" if two: "\<not> length cs < 2"
  proof -
    have "target_of ts (hd ?r) = Inr (sd_fields ts ! first_max (det_scores source ts))"
      using two d(2) assms(3) by (intro leader_field [OF pairs _ assms(2)]) (auto simp flip: ranking_scores [OF pairs])
    then show ?thesis using d by (simp add: candidates_for_def init cs(2) Let_def split: option.splits)
  qed
  moreover have "candidates_for m source ts = Inr cs" if "length cs < 2"
    using that by (simp add: candidates_for_def init cs(2) split: option.splits)
  ultimately show ?thesis using cs(1) by metis
qed

lemma decide_without_models:
  assumes "0 < hm_deterministic_minimum_margin m" "distinct (map fd_id (sd_fields ts))"
    and run: "decide m' source ts = Inr d" "md_status d = AUTO" and among: "decide_among m' = decide_among m"
  shows "decide m source ts = decide (without_models m) source ts"
proof -
  obtain cs where cs: "candidates_for m' source ts = Inr cs" "decide_among m source ts cs = Inr d"
    using run(1) among by (auto simp: decide_def)
  from cs(2) run(2) obtain target where "automatic_among m source ts cs target" by (rule decide_among_AUTO_D)
  from automatic_is_decisive [OF candidates_pairs [OF cs(1)] this assms(2,1)]
  show ?thesis unfolding decide_def decide_among_without_models by (simp only: decisive_asks_no_model assms(1,2))
qed

text \<open>
  C27. Deciding one source field on its own: with a positive minimum margin and target fields of distinct ids, \<open>decide\<close>
  gives an automatic decision exactly when it gives it without the models, and then it is the same one: whatever a
  semantic encoder or a reranker answers, it neither grants an automatic decision nor takes one away. This is a
  statement about \<open>decide\<close>. In a whole proposal a model may still send another source to review on the same target,
  and the conflict then takes this decision to review too.
\<close>

theorem models_decide_nothing_automatic:
  assumes "0 < hm_deterministic_minimum_margin m" "distinct (map fd_id (sd_fields ts))"
  shows "decide m source ts = Inr d \<and> md_status d = AUTO \<longleftrightarrow> decide (without_models m) source ts = Inr d \<and> md_status d = AUTO"
proof
  assume a: "decide m source ts = Inr d \<and> md_status d = AUTO"
  then show "decide (without_models m) source ts = Inr d \<and> md_status d = AUTO"
    using decide_without_models [OF assms conjunct1 [OF a] conjunct2 [OF a] refl] by simp
next
  assume a: "decide (without_models m) source ts = Inr d \<and> md_status d = AUTO"
  then show "decide m source ts = Inr d \<and> md_status d = AUTO"
    using decide_without_models [OF assms conjunct1 [OF a] conjunct2 [OF a] decide_among_without_models] by simp
qed

section \<open>Proposals\<close>

lemma automatic_rule_exists:
  assumes "automatic_mapping_contract_safe source target ts" "field_ok source" "field_ok target"
  shows "\<exists>rule. mapping_rule_for source target ts False = Inr rule \<and> validate_route source target (mr_transform rule) = Inr ()"
proof -
  have ids: "strip (fd_id f) \<noteq> [] \<and> CHR 0x00 \<notin> set (fd_id f)" if "field_ok f" for f
    using that by (simp add: field_ok_def FieldDescriptor_def required_text_def)
  have new: "new_rule source target tr ps = Inr \<lparr>mr_source_field_id = fd_id source, mr_target_field_id = fd_id target, mr_transform = tr,
      mr_parameters = ps\<rparr>" if "tr \<in> {''copy'', ''opaque_forward'', ''parse_integer'', ''lookup_foreign_key''}" for tr ps
    using that ids [OF assms(2)] ids [OF assms(3)] by (auto simp: new_rule_def MappingRule_def rule_text_def strip_def char_space_def)
  have sens: "fd_sensitivity target = fd_sensitivity source"
    using assms(1) by (auto simp: automatic_mapping_contract_safe_def split: if_splits)
  show ?thesis
  proof (cases "fd_sensitivity source \<in> {OPAQUE, SECRET}")
    case True
    then show ?thesis using sens by (auto simp: mapping_rule_for_def new validate_route_def sensitivity_route_safe_def for_sensitivity_def Let_def)
  next
    case False
    then have "validate_route source target tr = Inr ()" for tr
      using sens by (auto simp: validate_route_def sensitivity_route_safe_def for_sensitivity_def Let_def)
    with False show ?thesis by (auto simp: mapping_rule_for_def new Let_def split: option.splits)
  qed
qed

lemma mapping_rule_for_target: "mapping_rule_for source target ts reviewed = Inr rule \<Longrightarrow> mr_target_field_id rule = fd_id target"
  by (auto simp: mapping_rule_for_def Let_def dest!: new_rule_Inr split: if_splits option.splits)

text \<open>The decisions that survive the glossary and the conflicts as automatic are the matcher's own.\<close>

lemma glossary_automatic:
  assumes "mapE (\<lambda>source. decide m source ts) ss = Inr xs" "d \<in> set (map (with_glossary ts) (zip ss xs))" "md_status d = AUTO"
  shows "\<exists>source \<in> set ss. decide m source ts = Inr d"
proof -
  obtain source x where z: "(source, x) \<in> set (zip ss xs)" "d = with_glossary ts (source, x)" using assms(2) by auto
  then have "d = x" using assms(3) by (auto simp: with_glossary_def split: if_splits option.splits)
  obtain i where i: "i < length ss" "ss ! i = source" "xs ! i = x" using z(1) by (auto simp: set_zip)
  then have "decide m source ts = Inr x" using mapE_nth [OF assms(1) i(1)] by simp
  with i \<open>d = x\<close> show ?thesis by (metis nth_mem)
qed

lemma proposed_automatic:
  assumes "propose m ss ts = Inr ds"
  obtains es where "ds = with_conflicts es" "\<forall>d \<in> set es. md_status d = AUTO \<longrightarrow> (\<exists>source \<in> set (sd_fields ss). decide m source ts = Inr d)"
proof -
  obtain xs where xs: "mapE (\<lambda>source. decide m source ts) (sd_fields ss) = Inr xs" "ds = with_conflicts (map (with_glossary ts) (zip (sd_fields ss) xs))"
    using assms by (auto simp: propose_def)
  show thesis by (rule that [OF xs(2)]) (use glossary_automatic [OF xs(1)] in blast)
qed

lemma with_conflicts_automatic: "d \<in> set (with_conflicts es) \<Longrightarrow> md_status d = AUTO \<Longrightarrow> d \<in> set es"
  by (auto simp: with_conflicts_def split: if_splits)

lemma decided_target:
  assumes "decide m source ts = Inr d" "md_status d = AUTO"
  obtains target where "md_source_field_id d = fd_id source" "md_target_field_id d = Some (fd_id target)" "target \<in> set (sd_fields ts)"
    "by_id ts (fd_id target) = Some target" "automatic_mapping_contract_safe source target ts"
proof -
  obtain cs where cs: "decide_among m source ts cs = Inr d" using assms(1) by (auto simp: decide_def)
  obtain target where a: "automatic_among m source ts cs target" "md_target_field_id d = Some (mc_target_field_id (hd cs))"
    "md_source_field_id d = fd_id source" using cs assms(2) by (rule decide_among_AUTO_D)
  then have "target_of ts (hd (sort_desc mc_deterministic_score cs)) = Inr target"
    "mc_target_field_id (hd (sort_desc mc_deterministic_score cs)) = mc_target_field_id (hd cs)"
    "automatic_mapping_contract_safe source target ts" by (simp_all add: automatic_among_def Let_def)
  moreover from this have "by_id ts (mc_target_field_id (hd cs)) = Some target" by (simp add: target_of_def split: option.splits)
  ultimately show thesis using that a by_id_Some by metis
qed

text \<open>No two decisions that claim a target are left automatic on it.\<close>

lemma sole_claims_distinct: "distinct (map g (filter (\<lambda>d. P d \<and> length (filter (\<lambda>e. g e = g d) ds) \<le> 1) ds))"
proof (rule ccontr)
  let ?sole = "filter (\<lambda>d. P d \<and> length (filter (\<lambda>e. g e = g d) ds) \<le> 1) ds"
  assume "\<not> distinct (map g ?sole)"
  then obtain xs v ys zs where split: "map g ?sole = xs @ [v] @ ys @ [v] @ zs" using not_distinct_decomp by blast
  then have "v \<in> set (map g ?sole)" by simp
  then obtain d where d: "g d = v" "length (filter (\<lambda>e. g e = v) ds) \<le> 1" by auto
  have "length (filter (\<lambda>w. w = v) (map g (filter Q ds))) \<le> length (filter (\<lambda>e. g e = v) ds)" for Q
    by (induction ds) auto
  then have "length (filter (\<lambda>w. w = v) (map g ?sole)) \<le> length (filter (\<lambda>e. g e = v) ds)" .
  then show False using d unfolding split by simp
qed

lemma filter_settled:
  assumes "list_all (\<lambda>d. P d \<longrightarrow> c d) es" "\<And>d. \<not> P (h d)"
  shows "filter P (map (\<lambda>d. if c d \<and> 1 < n d then h d else d) es) = filter (\<lambda>d. P d \<and> n d \<le> (1 :: nat)) es"
  using assms by (induction es) auto

lemma conflicts_distinct:
  assumes "list_all (\<lambda>d. md_status d = AUTO \<longrightarrow> claimed d \<noteq> None) ds"
  shows "distinct (map claimed (filter (\<lambda>d. md_status d = AUTO) (with_conflicts ds)))"
proof -
  have "filter (\<lambda>d. md_status d = AUTO) (with_conflicts ds)
    = filter (\<lambda>d. md_status d = AUTO \<and> length (filter (\<lambda>e. claimed e = claimed d) ds) \<le> 1) ds"
    unfolding with_conflicts_def by (rule filter_settled [OF assms]) simp
  then show ?thesis by (simp only: sole_claims_distinct)
qed

lemma schema_ok_fields: "schema_ok s \<Longrightarrow> f \<in> set (sd_fields s) \<Longrightarrow> field_ok f \<and> by_id s (fd_id f) = Some f"
  by (auto simp: schema_ok_def SchemaDescriptor_def required_text_def list_all_iff intro: by_id_field)

lemma schema_ok_keys: "schema_ok s \<Longrightarrow> list_all (\<lambda>r. distinct (map lk_name (rl_lookup_keys r))) (sd_relations s)"
  by (auto simp: schema_ok_def relation_ok_def RelationDescriptor_def required_text_def list_all_iff)

lemma field_ok_id: "field_ok f \<Longrightarrow> fd_id f \<noteq> []"
  by (auto simp: field_ok_def FieldDescriptor_def required_text_def strip_def)

lemma decided_rule_automatic:
  assumes "decide m source ts = Inr d" "md_status d = AUTO" "source \<in> set (sd_fields ss)" "schema_ok ss" "schema_ok ts"
  shows "\<exists>rule. decided_rule ss ts False d = Inr [rule] \<and> Some (mr_target_field_id rule) = md_target_field_id d"
proof -
  obtain target where t: "md_source_field_id d = fd_id source" "md_target_field_id d = Some (fd_id target)" "target \<in> set (sd_fields ts)"
    "by_id ts (fd_id target) = Some target" "automatic_mapping_contract_safe source target ts"
    using assms(1,2) by (rule decided_target)
  have src: "field_ok source" "by_id ss (fd_id source) = Some source" using schema_ok_fields assms(3,4) by blast+
  obtain rule where r: "mapping_rule_for source target ts False = Inr rule" "validate_route source target (mr_transform rule) = Inr ()"
    using automatic_rule_exists [OF t(5) src(1)] schema_ok_fields [OF assms(5) t(3)] by blast
  then show ?thesis using t src assms(2) mapping_rule_for_target [OF r(1)] by (intro exI [of _ rule]) (simp add: decided_rule_def)
qed

text \<open>
  C26. Whatever the models answer, a proposal between two valid schemas makes a plan without review: its rules are the
  automatic decisions in order, on distinct targets, and the validator has no finding but required targets left out.
\<close>

theorem proposal_makes_clean_plan:
  assumes "propose m ss ts = Inr ds" "schema_ok ss" "schema_ok ts" "uuid \<noteq> []" "time_valid now"
  shows "\<exists>p. build_plan ss ts ds False uuid now = Inr p
    \<and> map (\<lambda>r. Some (mr_target_field_id r)) (mp_rules p) = map md_target_field_id (filter (\<lambda>d. md_status d = AUTO) ds)
    \<and> distinct (map mr_target_field_id (mp_rules p))
    \<and> validate_plan p ss ts = required_findings ts (map mr_target_field_id (mp_rules p))"
proof -
  let ?auto = "\<lambda>d. md_status d = AUTO"
  obtain es where es: "ds = with_conflicts es"
    "\<forall>d \<in> set es. ?auto d \<longrightarrow> (\<exists>source \<in> set (sd_fields ss). decide m source ts = Inr d)"
    using assms(1) by (rule proposed_automatic)
  note kept = with_conflicts_automatic [of _ es, folded es(1)]
  have claims: "claimed d = md_target_field_id d \<and> claimed d \<noteq> None" if d: "d \<in> set es" "?auto d" for d
  proof -
    obtain source where "decide m source ts = Inr d" using es(2) d by blast
    then obtain target where "md_target_field_id d = Some (fd_id target)" "target \<in> set (sd_fields ts)"
      using d(2) by (metis decided_target)
    then show ?thesis using schema_ok_fields [OF assms(3)] field_ok_id d(2) by (auto simp: claimed_def)
  qed
  have each: "\<exists>rules. decided_rule ss ts False d = Inr rules
      \<and> map (\<lambda>r. Some (mr_target_field_id r)) rules = (if ?auto d then [md_target_field_id d] else [])" if d: "d \<in> set ds" for d
  proof (cases "?auto d")
    case True
    obtain source where "source \<in> set (sd_fields ss)" "decide m source ts = Inr d" using es(2) kept [OF d True] True by blast
    then show ?thesis using decided_rule_automatic [OF _ True _ assms(2,3)] True by fastforce
  next
    case False
    then show ?thesis by (cases "md_status d") (auto simp: decided_rule_def split: option.splits)
  qed
  then obtain f where f: "\<And>d. d \<in> set ds \<Longrightarrow> decided_rule ss ts False d = Inr (f d)
      \<and> map (\<lambda>r. Some (mr_target_field_id r)) (f d) = (if ?auto d then [md_target_field_id d] else [])" by metis
  have rules: "mapE (decided_rule ss ts False) ds = Inr (map f ds)" using f by (intro mapE_Inr_map) blast
  have targets: "map (\<lambda>r. Some (mr_target_field_id r)) (concat (map f ds)) = map md_target_field_id (filter ?auto ds)"
    using f by (induction ds) auto
  have "sd_id ss \<noteq> []" "sd_id ts \<noteq> []" using assms(2,3) by (auto simp: schema_ok_def SchemaDescriptor_def required_text_def strip_def)
  then obtain p where p: "build_plan ss ts ds False uuid now = Inr p" "mp_rules p = concat (map f ds)"
    using rules assms(4,5) by (simp add: build_plan_def MappingPlan_def astimezone_utc_def)
  have "list_all (\<lambda>d. ?auto d \<longrightarrow> claimed d \<noteq> None) es" unfolding list_all_iff using claims by blast
  from conflicts_distinct [OF this] have "distinct (map claimed (filter ?auto ds))" by (simp only: es(1))
  moreover have "map claimed (filter ?auto ds) = map md_target_field_id (filter ?auto ds)" using claims kept by auto
  ultimately have "distinct (map Some (map mr_target_field_id (mp_rules p)))" using targets p(2) by (simp add: comp_def)
  then have dist: "distinct (map mr_target_field_id (mp_rules p))" by (simp only: distinct_map)
  then show ?thesis using p targets automatic_plan_is_clean [OF p(1) schema_ok_keys [OF assms(3)] dist] by auto
qed

section \<open>An instance\<close>

text \<open>One field, a target of the same name, and one it would be downgraded by; models that raise or answer nonsense.\<close>

definition plain_field :: "string \<Rightarrow> sensitivity \<Rightarrow> field_descriptor" where
  "plain_field name s = \<lparr>fd_id = name, fd_name = name, fd_data_type = DT_STRING, fd_nullable = False, fd_sensitivity = s,
     fd_role = VALUE, fd_description = None, fd_aliases = [], fd_container = None, fd_destination_generated = False\<rparr>"

definition plain_schema :: "string \<Rightarrow> field_descriptor list \<Rightarrow> schema_descriptor" where
  "plain_schema i fs = \<lparr>sd_id = i, sd_fields = fs, sd_relations = [], sd_metadata = []\<rparr>"

definition city_source :: schema_descriptor where
  "city_source = plain_schema ''s'' [plain_field ''city'' INTERNAL]"

definition city_target :: schema_descriptor where
  "city_target = plain_schema ''t'' [plain_field ''city'' INTERNAL, plain_field ''town'' PUBLIC]"

definition wild_matcher :: hybrid_matcher where
  "wild_matcher = HybridMatcher (Some (\<lambda>_ _. Inl (ValueError ''model''))) (Some (\<lambda>_ _. Inr [NotANumber, PosInf]))"

text \<open>The floats of the default thresholds and weights, and the sums that occur.\<close>

lemma doubles [simp]:
  "double_of (17 / 25) = 6124895493223875 / 9007199254740992" "double_of (11 / 50) = 7926335344172073 / 36028797018963968" "double_of (1 / 10) = 3602879701896397 / 36028797018963968"
  "double_of (6124895493223875 / 9007199254740992) = 6124895493223875 / 9007199254740992" "double_of (7926335344172073 / 36028797018963968) = 7926335344172073 / 36028797018963968" "double_of (3602879701896397 / 36028797018963968) = 3602879701896397 / 36028797018963968"
  "double_of (32425917317067573 / 36028797018963968) = 8106479329266893 / 9007199254740992" "double_of (36028797018963969 / 36028797018963968) = 1"
  "double_of (9 / 10) = 8106479329266893 / 9007199254740992" "double_of (2 / 25) = 5764607523034235 / 72057594037927936"
  "double_of (43 / 50) = 7746191359077253 / 9007199254740992" "double_of 1 = 1"
  using double_of_eq [of "- 1" "17 / 25" 6124895493223875] double_of_eq [of "- 3" "11 / 50" 7926335344172073]
    double_of_eq [of "- 4" "1 / 10" 7205759403792794] double_of_eq [of "- 1" "6124895493223875 / 9007199254740992" 6124895493223875]
    double_of_eq [of "- 3" "7926335344172073 / 36028797018963968" 7926335344172073] double_of_eq [of "- 4" "3602879701896397 / 36028797018963968" 7205759403792794]
    double_of_eq [of "- 1" "32425917317067573 / 36028797018963968" 8106479329266893] double_of_eq [of 0 "36028797018963969 / 36028797018963968" 4503599627370496]
    double_of_eq [of "- 1" "9 / 10" 8106479329266893] double_of_eq [of "- 4" "2 / 25" 5764607523034235]
    double_of_eq [of "- 1" "43 / 50" 7746191359077253] double_of_nat [of 1]
  by (simp_all add: power_int_def power_divide)

lemma city_scores: "det_scores (plain_field ''city'' INTERNAL) city_target = [1, 0]"
proof -
  have "normalize_name ''city'' = ''city''"
    by (simp add: normalize_name_def fold_char_def char_alnum_def lower_char_def ascii_lower_digit_def ascii_upper_def)
  then have "name_similarity (plain_field ''city'' INTERNAL) (plain_field ''city'' INTERNAL) = (1, [''exact normalized name''])"
    by (simp add: name_similarity_def plain_field_def)
  then show ?thesis
    by (simp add: det_scores_def city_target_def plain_schema_def deterministic_score_def sensitivity_route_safe_def
        foreign_key_lookup_key_def type_compatibility_def double_mul_def double_add_def plain_field_def Let_def)
qed

lemma city_safe: "automatic_mapping_contract_safe (plain_field ''city'' INTERNAL) (plain_field ''city'' INTERNAL) city_target"
  by (simp add: automatic_mapping_contract_safe_def plain_field_def foreign_key_lookup_key_def automatic_copy_type_safe_def
      runtime_type_satisfies_def role_compatible_for_automatic_def)

lemma city_decided: "\<exists>d. decide (without_models wild_matcher) (plain_field ''city'' INTERNAL) city_target = Inr d \<and> md_status d = AUTO
  \<and> md_target_field_id d = Some ''city''"
proof -
  let ?m = "without_models wild_matcher" and ?source = "plain_field ''city'' INTERNAL"
  define cs where "cs = sort_desc mc_score (map (initial_candidate ?m ?source) (zip (sd_fields city_target)
     (zip (map (\<lambda>_. None) (sd_fields city_target)) (map (\<lambda>t. deterministic_score ?source t (Some city_target)) (sd_fields city_target)))))"
  have cs: "candidates_for ?m ?source city_target = Inr cs" unfolding cs_def by (rule candidates_without_models)
  obtain r1 r2 where s: "deterministic_score ?source ?source (Some city_target) = (1, r1)"
    "deterministic_score ?source (plain_field ''town'' PUBLIC) (Some city_target) = (0, r2)"
    using city_scores by (auto simp: det_scores_def city_target_def plain_schema_def) (metis prod.collapse)
  have fields: "sd_fields city_target = [?source, plain_field ''town'' PUBLIC]" by (simp add: city_target_def plain_schema_def)
  have ids: "fd_id (plain_field i t) = i" for i t by (simp add: plain_field_def)
  have "automatic_among ?m ?source city_target cs ?source"
    using s city_safe by (simp add: cs_def fields ids initial_candidate_def sort_desc_def automatic_among_def target_of_def by_id_def
        without_models_def wild_matcher_def HybridMatcher_def double_sub_def)
  moreover have "mc_target_field_id (hd cs) = ''city''" using s by (simp add: cs_def fields ids initial_candidate_def sort_desc_def)
  ultimately show ?thesis using decide_among_AUTO [of ?m] by (fastforce simp: decide_def cs)
qed

lemma wild_matcher_hyps: "0 < hm_deterministic_minimum_margin wild_matcher" "distinct (map fd_id (sd_fields city_target))"
  by (simp_all add: wild_matcher_def HybridMatcher_def city_target_def plain_schema_def plain_field_def)

theorem models_decide_nothing_automatic_witness:
  "\<exists>d. decide wild_matcher (plain_field ''city'' INTERNAL) city_target = Inr d \<and> md_status d = AUTO"
proof -
  obtain d where "decide (without_models wild_matcher) (plain_field ''city'' INTERNAL) city_target = Inr d \<and> md_status d = AUTO"
    using city_decided by blast
  then show ?thesis unfolding models_decide_nothing_automatic [OF wild_matcher_hyps, symmetric] by blast
qed

theorem proposal_makes_clean_plan_witness:
  "\<exists>p. build_plan city_source city_target (case propose wild_matcher city_source city_target of Inl _ \<Rightarrow> [] | Inr ds \<Rightarrow> ds) False ''p'' 0 = Inr p
    \<and> map mr_target_field_id (mp_rules p) = [''city'']"
proof -
  obtain d where d0: "decide (without_models wild_matcher) (plain_field ''city'' INTERNAL) city_target = Inr d" "md_status d = AUTO"
    "md_target_field_id d = Some ''city''" using city_decided by blast
  have d: "decide wild_matcher (plain_field ''city'' INTERNAL) city_target = Inr d"
    using decide_without_models [OF wild_matcher_hyps d0(1,2) decide_among_without_models] d0(1) by simp
  have run: "propose wild_matcher city_source city_target = Inr [d]"
    using d d0 by (simp add: propose_def city_source_def plain_schema_def with_glossary_def with_conflicts_def)
  have ok: "schema_ok city_source" "schema_ok city_target" "time_valid 0"
    by (simp_all add: schema_ok_def city_source_def city_target_def plain_schema_def plain_field_def SchemaDescriptor_def field_ok_def
        FieldDescriptor_def required_text_def strip_def char_space_def check_relations.simps time_valid_def day_us_def)
  from proposal_makes_clean_plan [OF run ok(1,2) _ ok(3), of "''p''"] show ?thesis using d0 run
    by (auto simp: map_eq_Cons_conv)
qed

end
