(* ===== verification/Repair.thy ===== *)
theory Repair
  imports HybridProofs
begin

text \<open>
  Repair of an approved plan after its schemas have changed (\<open>repair.py\<close>): each mapped field is found again by its identifier or
  by an automatic decision of the matcher, and the new plan is validated. A repaired plan maps the fields of the old one, rule by
  rule, at the same sensitivity and with the same transforms, and is sound for the new schemas.
\<close>

datatype repair_severity = RS_SAFE | RS_REVIEW | RS_BLOCKING

record repair_finding =
  rf_severity :: repair_severity
  rf_field_id :: string
  rf_message :: string
  rf_replacement_field_id :: "string option"
  rf_side :: string

record repair_proposal =
  rp_findings :: "repair_finding list"
  rp_plan :: "mapping_plan option"

definition auto_applicable :: "repair_proposal \<Rightarrow> bool" where
  "auto_applicable p = (rp_plan p \<noteq> None \<and> list_all (\<lambda>f. rf_severity f = RS_SAFE) (rp_findings p))"

definition repair_finding_of :: "repair_severity \<Rightarrow> string \<Rightarrow> string \<Rightarrow> string option \<Rightarrow> string \<Rightarrow> repair_finding" where
  "repair_finding_of severity i message replacement side = \<lparr>rf_severity = severity, rf_field_id = i, rf_message = message,
     rf_replacement_field_id = replacement, rf_side = side\<rparr>"

definition descriptor_is_stable :: "field_descriptor \<Rightarrow> field_descriptor \<Rightarrow> bool" where
  "descriptor_is_stable old current =
     (if fd_sensitivity old \<noteq> fd_sensitivity current then False
      else if fd_name old = fd_name current then True
      else double_of (88 / 100) \<le> fst (name_similarity old current))"

type_synonym resolved = "field_descriptor option \<times> repair_finding list"

definition resolve_by_decision :: "field_descriptor \<Rightarrow> schema_descriptor \<Rightarrow> mapping_decision \<Rightarrow> string \<Rightarrow> resolved result" where
  "resolve_by_decision old new_schema d side =
     (case (if md_status d \<noteq> AUTO then None else md_target_field_id d) of
        None \<Rightarrow> Inr (None, [repair_finding_of RS_BLOCKING (fd_id old) ''mapped field cannot be resolved safely after schema drift'' None side])
      | Some target_id \<Rightarrow> (case by_id new_schema target_id of
          None \<Rightarrow> Inl (KeyError target_id)
        | Some replacement \<Rightarrow>
            if fd_sensitivity replacement \<noteq> fd_sensitivity old
            then Inr (None, [repair_finding_of RS_BLOCKING (fd_id old) ''replacement would change sensitivity'' (Some (fd_id replacement)) side])
            else (let retyped = (fd_data_type replacement \<noteq> fd_data_type old) in
              Inr (Some replacement, [repair_finding_of (if retyped then RS_REVIEW else RS_SAFE) (fd_id old)
                (''field appears moved or renamed'' @ (if retyped then '' and its declared type changed'' else []))
                (Some (fd_id replacement)) side]))))"

definition resolve_field :: "field_descriptor \<Rightarrow> schema_descriptor \<Rightarrow> hybrid_matcher \<Rightarrow> string \<Rightarrow> resolved result" where
  "resolve_field old new_schema m side =
     (case by_id new_schema (fd_id old) of
        Some same_id \<Rightarrow>
          if descriptor_is_stable old same_id then
            (if fd_sensitivity same_id \<noteq> fd_sensitivity old
             then Inr (None, [repair_finding_of RS_BLOCKING (fd_id old) ''field sensitivity changed'' (Some (fd_id same_id)) side])
             else if fd_data_type same_id \<noteq> fd_data_type old
             then Inr (Some same_id, [repair_finding_of RS_REVIEW (fd_id old) ''field type changed'' (Some (fd_id same_id)) side])
             else Inr (Some same_id, []))
          else bindE (decide m old new_schema) (\<lambda>d. resolve_by_decision old new_schema d side)
      | None \<Rightarrow> bindE (decide m old new_schema) (\<lambda>d. resolve_by_decision old new_schema d side))"

definition lookup_path_exists :: "schema_descriptor \<Rightarrow> field_descriptor \<Rightarrow> mapping_rule \<Rightarrow> bool" where
  "lookup_path_exists new_target target rule =
     (case (relation_for_source_field (fd_id target) new_target, map_of (mr_parameters rule) ''match_column'') of
        (Some relation, Some column) \<Rightarrow> lookup_key column relation \<noteq> None
      | _ \<Rightarrow> False)"

text \<open>One turn of the loop: the findings it adds, and the rule unless it skips.\<close>

definition repair_rule :: "schema_descriptor \<Rightarrow> schema_descriptor \<Rightarrow> schema_descriptor \<Rightarrow> schema_descriptor \<Rightarrow> hybrid_matcher
    \<Rightarrow> mapping_rule \<Rightarrow> (repair_finding list \<times> mapping_rule list) result" where
  "repair_rule old_source new_source old_target new_target m rule =
     (case (by_id old_source (mr_source_field_id rule), by_id old_target (mr_target_field_id rule)) of
        (Some os, Some ot) \<Rightarrow>
          bindE (resolve_field os new_source m ''source'') (\<lambda>(ns, source_findings).
          bindE (resolve_field ot new_target m ''target'') (\<lambda>(nt, target_findings).
          case (ns, nt) of
            (Some s, Some t) \<Rightarrow>
              if mr_transform rule = ''lookup_foreign_key'' \<and> \<not> lookup_path_exists new_target t rule
              then Inr (source_findings @ target_findings @ [repair_finding_of RS_BLOCKING (fd_id ot)
                ''approved foreign-key lookup path no longer exists'' (Some (fd_id t)) ''target''], [])
              else bindE (MappingRule \<lparr>mr_source_field_id = fd_id s, mr_target_field_id = fd_id t, mr_transform = mr_transform rule,
                mr_parameters = mr_parameters rule\<rparr>) (\<lambda>r. Inr (source_findings @ target_findings, [r]))
          | _ \<Rightarrow> Inr (source_findings @ target_findings, [])))
      | _ \<Rightarrow> Inr ([repair_finding_of RS_BLOCKING (mr_source_field_id rule)
          ''approved plan references a field absent from its baseline schema'' None ''source''], []))"

definition repair_blocked :: "repair_finding list \<Rightarrow> bool" where
  "repair_blocked findings = list_ex (\<lambda>f. rf_severity f = RS_BLOCKING) findings"

text \<open>\<open>a or b\<close> on optional strings\<close>

fun or_text :: "string option \<Rightarrow> string option \<Rightarrow> string option" where
  "or_text (Some (c # cs)) b = Some (c # cs)"
| "or_text a b = b"

definition plan_findings :: "validation_finding list \<Rightarrow> repair_finding list" where
  "plan_findings report = map (\<lambda>f. repair_finding_of (if vf_severity f = SEV_BLOCKING then RS_BLOCKING else RS_REVIEW)
       (the (or_text (vf_source_field_id f) (or_text (vf_target_field_id f) (Some ''plan''))))
       (vf_message f) (vf_target_field_id f) ''plan'')
     (filter (\<lambda>f. vf_severity f \<noteq> SEV_INFO) report)"

definition propose_plan_repair :: "mapping_plan \<Rightarrow> schema_descriptor \<Rightarrow> schema_descriptor \<Rightarrow> schema_descriptor \<Rightarrow> schema_descriptor
    \<Rightarrow> hybrid_matcher \<Rightarrow> int \<Rightarrow> repair_proposal result" where
  "propose_plan_repair plan old_source new_source old_target new_target m now =
     (if fingerprint new_source = mp_source_fingerprint plan \<and> fingerprint new_target = mp_target_fingerprint plan
      then Inr \<lparr>rp_findings = [], rp_plan = Some plan\<rparr>
      else
        bindE (mapE (repair_rule old_source new_source old_target new_target m) (mp_rules plan)) (\<lambda>turns.
        let findings = concat (map fst turns) in
        if repair_blocked findings then Inr \<lparr>rp_findings = findings, rp_plan = None\<rparr>
        else
          bindE (MappingPlan \<lparr>mp_id = mp_id plan, mp_source_schema_id = sd_id new_source, mp_target_schema_id = sd_id new_target,
            mp_source_fingerprint = fingerprint new_source, mp_target_fingerprint = fingerprint new_target,
            mp_rules = concat (map snd turns), mp_version = mp_version plan + 1, mp_created_at = now\<rparr> (Aware now 0)) (\<lambda>repaired.
          let all = findings @ plan_findings (validate_plan repaired new_source new_target) in
          Inr \<lparr>rp_findings = all, rp_plan = (if repair_blocked all then None else Some repaired)\<rparr>)))"

definition assess_plan_drift :: "mapping_plan \<Rightarrow> schema_descriptor \<Rightarrow> schema_descriptor \<Rightarrow> schema_descriptor \<Rightarrow> hybrid_matcher \<Rightarrow> int
    \<Rightarrow> repair_finding list result" where
  "assess_plan_drift plan old_source new_source target m now =
     bindE (propose_plan_repair plan old_source new_source target target m now) (\<lambda>p. Inr (rp_findings p))"

section \<open>What a repair keeps\<close>

lemma resolve_field_sensitivity:
  assumes "resolve_field old new m side = Inr (Some f, fs)"
  shows "by_id new (fd_id f) = Some f \<and> fd_sensitivity f = fd_sensitivity old"
proof -
  have "by_id new (fd_id f) = Some f \<and> fd_sensitivity f = fd_sensitivity old" if "resolve_by_decision old new d side = Inr (Some f, fs)" for d
    using that by_id_Some by (fastforce simp: resolve_by_decision_def Let_def split: option.splits if_splits)
  then show ?thesis using assms by_id_Some
    by (fastforce simp: resolve_field_def split: option.splits if_splits)
qed

text \<open>The fields of two rules are of the same sensitivity in their schemas, and what is done with them is the same.\<close>

definition same_route :: "schema_descriptor \<Rightarrow> schema_descriptor \<Rightarrow> schema_descriptor \<Rightarrow> schema_descriptor \<Rightarrow> mapping_rule \<Rightarrow> mapping_rule \<Rightarrow> bool" where
  "same_route os ns ot nt r r' \<longleftrightarrow> mr_transform r' = mr_transform r \<and> mr_parameters r' = mr_parameters r
     \<and> (\<exists>f g. by_id os (mr_source_field_id r) = Some f \<and> by_id ns (mr_source_field_id r') = Some g \<and> fd_sensitivity g = fd_sensitivity f)
     \<and> (\<exists>f g. by_id ot (mr_target_field_id r) = Some f \<and> by_id nt (mr_target_field_id r') = Some g \<and> fd_sensitivity g = fd_sensitivity f)"

lemma resolve_by_decision_blocked: "resolve_by_decision old new d side = Inr (None, fs) \<Longrightarrow> repair_blocked fs"
  unfolding resolve_by_decision_def Let_def
  by (auto simp: repair_blocked_def repair_finding_of_def split: option.split_asm if_split_asm)

lemma resolve_field_blocked: "resolve_field old new m side = Inr (None, fs) \<Longrightarrow> repair_blocked fs"
  unfolding resolve_field_def
  by (auto simp: repair_finding_of_def repair_blocked_def dest!: resolve_by_decision_blocked split: option.split_asm if_split_asm)

lemma repair_rule_unblocked:
  assumes "repair_rule os ns ot nt m r = Inr (fs, rs)" "\<not> repair_blocked fs"
  shows "\<exists>r'. rs = [r'] \<and> same_route os ns ot nt r r'"
proof -
  obtain so to where old: "by_id os (mr_source_field_id r) = Some so" "by_id ot (mr_target_field_id r) = Some to"
    using assms by (auto simp: repair_rule_def repair_blocked_def repair_finding_of_def split: option.splits)
  obtain s1 f1 s2 f2 where res: "resolve_field so ns m ''source'' = Inr (s1, f1)" "resolve_field to nt m ''target'' = Inr (s2, f2)"
    using assms(1) old by (auto simp: repair_rule_def)
  show ?thesis
  proof (cases "s1 = None \<or> s2 = None")
    case True
    then have "fs = f1 @ f2" using assms(1) old res by (auto simp: repair_rule_def split: option.splits)
    then show ?thesis using True resolve_field_blocked res assms(2) by (auto simp: repair_blocked_def)
  next
    case False
    then obtain s t where st: "s1 = Some s" "s2 = Some t" by auto
    have "\<not> (mr_transform r = ''lookup_foreign_key'' \<and> \<not> lookup_path_exists nt t r)"
      using assms old res st by (auto simp: repair_rule_def repair_blocked_def repair_finding_of_def split: if_splits)
    then have "rs = [\<lparr>mr_source_field_id = fd_id s, mr_target_field_id = fd_id t, mr_transform = mr_transform r, mr_parameters = mr_parameters r\<rparr>]"
      using assms(1) old res st by (auto simp: repair_rule_def MappingRule_def rule_text_def)
    then show ?thesis using old resolve_field_sensitivity [OF res(1) [unfolded st]] resolve_field_sensitivity [OF res(2) [unfolded st]]
      by (auto simp: same_route_def)
  qed
qed

lemma repaired_rules:
  assumes "mapE (repair_rule os ns ot nt m) rules = Inr turns" "\<not> repair_blocked (concat (map fst turns))"
  shows "list_all2 (same_route os ns ot nt) rules (concat (map snd turns))"
  using assms
proof (induction rules arbitrary: turns)
  case (Cons r rules)
  obtain fs rs turns' where t: "repair_rule os ns ot nt m r = Inr (fs, rs)" "mapE (repair_rule os ns ot nt m) rules = Inr turns'"
    "turns = (fs, rs) # turns'" using Cons.prems(1) by auto
  have "\<not> repair_blocked fs" "\<not> repair_blocked (concat (map fst turns'))" using Cons.prems(2) t(3) by (auto simp: repair_blocked_def)
  then show ?case using Cons.IH [OF t(2)] repair_rule_unblocked [OF t(1)] t(3) by auto
qed simp

lemma plan_findings_severity:
  "repair_blocked (plan_findings report) \<longleftrightarrow> \<not> valid report"
  "list_all (\<lambda>f. rf_severity f = RS_SAFE) (plan_findings report) \<Longrightarrow> \<not> requires_review report"
  by (auto simp: plan_findings_def repair_blocked_def valid_def requires_review_def repair_finding_of_def list_all_iff list_ex_iff)

text \<open>
  C28. A plan that a repair proposes is the approved plan, if the schemas have not changed, or else the next version of it: sound
  for the new schemas, with its rules in order, each with the same transform and parameters between fields of the same
  sensitivity as before; and if the proposal may be applied automatically, the plan needs no review.
\<close>

theorem repaired_plan_is_sound:
  assumes "propose_plan_repair plan os ns ot nt m now = Inr proposal" "rp_plan proposal = Some p" "p \<noteq> plan"
  shows "plan_sound p ns nt \<and> mp_version p = mp_version plan + 1 \<and> list_all2 (same_route os ns ot nt) (mp_rules plan) (mp_rules p)
    \<and> (auto_applicable proposal \<longrightarrow> \<not> requires_review (validate_plan p ns nt))"
proof -
  let ?same = "fingerprint ns = mp_source_fingerprint plan \<and> fingerprint nt = mp_target_fingerprint plan"
  have new: "\<not> ?same" using assms by (auto simp: propose_plan_repair_def)
  obtain turns where turns: "mapE (repair_rule os ns ot nt m) (mp_rules plan) = Inr turns"
    using assms(1) new unfolding propose_plan_repair_def by (simp only: if_False bindE_Inr_iff) blast
  let ?f = "concat (map fst turns)"
  have clear: "\<not> repair_blocked ?f" using assms(1,2) turns new by (auto simp: propose_plan_repair_def Let_def split: if_splits)
  have p: "mp_rules p = concat (map snd turns)" "mp_version p = mp_version plan + 1"
    "rp_findings proposal = ?f @ plan_findings (validate_plan p ns nt)" "\<not> repair_blocked (rp_findings proposal)"
    using assms(1,2) turns new clear by (auto simp: propose_plan_repair_def MappingPlan_def Let_def split: if_splits)
  then have "valid (validate_plan p ns nt)" using plan_findings_severity(1) by (auto simp: repair_blocked_def)
  then have "plan_sound p ns nt" by (simp add: report_valid)
  moreover have "list_all2 (same_route os ns ot nt) (mp_rules plan) (mp_rules p)" using repaired_rules [OF turns clear] p(1) by simp
  moreover have "\<not> requires_review (validate_plan p ns nt)" if "auto_applicable proposal"
    using that p(3) plan_findings_severity(2) by (auto simp: auto_applicable_def)
  ultimately show ?thesis using p(2) by blast
qed

section \<open>An instance\<close>

text \<open>A plan approved for an earlier fingerprint of its source, whose field is still there.\<close>

definition city_only :: schema_descriptor where
  "city_only = plain_schema ''t'' [plain_field ''city'' INTERNAL]"

definition city_rule :: mapping_rule where
  "city_rule = \<lparr>mr_source_field_id = ''city'', mr_target_field_id = ''city'', mr_transform = ''copy'', mr_parameters = []\<rparr>"

definition city_plan :: mapping_plan where
  "city_plan = \<lparr>mp_id = ''p'', mp_source_schema_id = ''s'', mp_target_schema_id = ''t'', mp_source_fingerprint = ''old'',
     mp_target_fingerprint = fingerprint city_only, mp_rules = [city_rule], mp_version = 1, mp_created_at = 0\<rparr>"

theorem repaired_plan_is_sound_witness:
  "\<exists>proposal p. propose_plan_repair city_plan city_source city_source city_only city_only wild_matcher 0 = Inr proposal
    \<and> rp_plan proposal = Some p \<and> plan_sound p city_source city_only \<and> mp_version p = 2
    \<and> list_all2 (same_route city_source city_source city_only city_only) [city_rule] (mp_rules p)"
proof -
  have new: "fingerprint city_source \<noteq> ''old''"
    using sha256_hex_lower by (auto simp: fingerprint_def schema_digest_def lower_hex_def dest: arg_cong [where f = length])
  have ids: "by_id city_source ''city'' = Some (plain_field ''city'' INTERNAL)" "by_id city_only ''city'' = Some (plain_field ''city'' INTERNAL)"
    by (simp_all add: by_id_def city_source_def city_only_def plain_schema_def plain_field_def)
  have f: "fd_id (plain_field i t) = i" "fd_sensitivity (plain_field i t) = t" for i t by (simp_all add: plain_field_def)
  have rule: "MappingRule city_rule = Inr city_rule"
    by (simp add: city_rule_def MappingRule_def rule_text_def strip_def char_space_def)
  have "resolve_field (plain_field ''city'' INTERNAL) s wild_matcher side = Inr (Some (plain_field ''city'' INTERNAL), [])"
    if "by_id s ''city'' = Some (plain_field ''city'' INTERNAL)" for s side
    using that by (simp add: resolve_field_def descriptor_is_stable_def f)
  then have turn: "repair_rule city_source city_source city_only city_only wild_matcher city_rule = Inr ([], [city_rule])"
    using ids rule by (simp add: repair_rule_def city_rule_def f)
  let ?p = "city_plan\<lparr>mp_source_fingerprint := fingerprint city_source, mp_version := 2\<rparr>"
  have "route_findings city_only (plain_field ''city'' INTERNAL) (plain_field ''city'' INTERNAL) city_rule = []"
    by (simp add: route_findings_def city_rule_def plain_field_def is_known_transform_def TRANSFORM_SPECS_def copy_findings_def
        automatic_copy_type_safe_def runtime_type_satisfies_def validate_route_def sensitivity_route_safe_def for_sensitivity_def Let_def)
  then have "validate_plan ?p city_source city_only = []"
    using ids by (simp add: validate_plan_def header_findings_def city_plan_def city_rule_def rule_findings_def required_findings_def f
        city_source_def city_only_def plain_schema_def)
  then have run: "propose_plan_repair city_plan city_source city_source city_only city_only wild_matcher 0
      = Inr \<lparr>rp_findings = [], rp_plan = Some ?p\<rparr>"
    using new turn by (simp add: propose_plan_repair_def city_plan_def repair_blocked_def MappingPlan_def astimezone_utc_def
        time_valid_def day_us_def plan_findings_def city_source_def city_only_def plain_schema_def Let_def)
  have "?p \<noteq> city_plan" by (simp add: city_plan_def)
  from repaired_plan_is_sound [OF run _ this] show ?thesis using run by (simp add: city_plan_def)
qed

end
