(* ===== verification/Spec2Isabelle.thy ===== *)
theory Spec2Isabelle
  imports Signing Capabilities Ledger Spool Outbox RelayLiveness RuntimeSamples AuditChain SourceSamples
    RecipeProofs WorkBudget SyncProofs Repair
begin

text \<open>
  A model of the polymorph data bridge (\<open>src/src/polymorph\<close>) and its proofs.

  The program. A source agent maps the fields of a record by an approved plan, seals every mapped value for the
  destination's key and signs the record (\<open>agents.py\<close>, \<open>crypto.py\<close>, \<open>signing.py\<close>). Records wait in a
  durable outbox (\<open>outbox.py\<close>), travel through a relay that cannot read them (\<open>relay.py\<close>) and reach the
  destination runtime (\<open>runtime.py\<close>), which claims each one in a ledger (\<open>ledger.py\<close>), opens it, writes it through
  a connector, and keeps what it could not write in a sealed spool (\<open>spool.py\<close>) for a replay that needs a signed grant
  (\<open>capabilities.py\<close>). Every outcome goes to a hash-chained audit log (\<open>audit.py\<close>). The key a source seals for comes from a
  store of signed certificates that pins the destination's identity (\<open>recipient_auth.py\<close>), and the plan it follows has
  passed a validator (\<open>policy.py\<close>, \<open>validation.py\<close>).

  Theories, from the bottom up.

  \<^item> \<open>Prelude\<close>: the error type with one constructor per exception class, results (\<open>Inl\<close> the exception), guards
    \<open>raise_if\<close> and sequencing \<open>bindE\<close>, SQL cells and comparisons, and the character classes of Python's \<open>str\<close>.
  \<^item> \<open>PyTime\<close>, \<open>Sha256\<close>, \<open>Json\<close>, \<open>Wire\<close>: what the code uses of Python: datetimes as microseconds with
    \<open>isoformat\<close> and \<open>fromisoformat\<close>, SHA-256 on words of 32 bits, \<open>json\<close> with sorted keys and with hooks against duplicate
    keys, UTF-8 and base64, each with its round trip. The locale \<open>wire_codec\<close> is the interface of an encoding.
  \<^item> \<open>Schema\<close>: enums, descriptors, plans, run-time types and the connector's capabilities (\<open>models\<close>,
    \<open>connectors/base.py\<close>). \<open>Policy\<close>: routes between fields and the plan validator, which \<open>validator_decides_soundness\<close> shows
    to decide a declarative reading of the plan. \<open>Payload\<close>, \<open>PayloadProofs\<close>: the codec of sealed values. \<open>Transforms\<close>,
    \<open>TransformProofs\<close>: the transforms of the source (\<open>transforms.py\<close>).
  \<^item> \<open>Transport\<close>: contexts, envelopes, signed records, their decoding and canonical bytes. \<open>Signing\<close>: the registry of source
    keys, its sessions and the verification of a record. \<open>Envelopes\<close>: recipient keys, sealing and opening.
  \<^item> \<open>RecipientTrust\<close>, \<open>RecipientRotation\<close>, \<open>RecipientState\<close>, \<open>RecipientSamples\<close>: certificates and the trust store, as steps on
    a store and what its path leads to; what a store promises over any sequence of steps, and that a published head is read
    back by the next process.
  \<^item> \<open>Source\<close>, \<open>SourceProofs\<close>, \<open>SourceSamples\<close>: the source agent. \<open>destination_opens_what_source_sealed\<close> composes it with
    \<open>Destination\<close>, the destination agent.
  \<^item> \<open>Ledger\<close>, \<open>Batches\<close>, \<open>Spool\<close>, \<open>Outbox\<close>, \<open>Relay\<close> (with \<open>RelaySafety\<close> and \<open>RelayLiveness\<close>): the SQLite stores. A table is
    a list of rows in rowid order, a method is one function on the table that returns the result and the new table, and an
    exception leaves the table as its transaction does. \<open>Batches\<close> holds the all-or-none loops the stores share, as a locale.
  \<^item> \<open>Capabilities\<close>: grants, their signatures and the authorizer. \<open>AuditStore\<close>, \<open>AuditChain\<close>: the audit log.
  \<^item> \<open>Effects\<close>, \<open>Runtime\<close>, \<open>RuntimeSafety\<close>, \<open>RuntimeReceipts\<close>, \<open>RuntimeBatches\<close>, \<open>RuntimeSamples\<close>: the destination runtime
    as actions on a world of ledger, spool and write log. What the runtime does not control (clock readings, random tokens, the
    connector's answers, faults of the stores and of the event sinks) is read off a tape, one event per interaction; every
    property holds for every tape. The delivery diagram of \<open>Ledger\<close> is the abstract specification that the table operations
    refine, and \<open>one_contract_per_identity\<close> is the runtime's guarantee over it.

  \<^item> \<open>Doubles\<close>, \<open>Difflib\<close>: the rounding of floats, with its error bound, and the ratio of \<open>difflib.SequenceMatcher\<close>.
    \<open>Matching\<close>, \<open>Hybrid\<close>, \<open>HybridProofs\<close>: names, scores and decisions of the matcher (\<open>matching\<close>), whose models are
    parameters that may answer anything; deciding one field, they neither grant nor take away an automatic decision, and a
    proposal makes a plan the validator finds clean.
    \<open>Planning\<close>: plans built from decisions (\<open>planning.py\<close>). \<open>Repair\<close>: the repair of a plan after a change of schemas
    (\<open>repair.py\<close>).
  \<^item> \<open>Serialization\<close>, \<open>SerializationProofs\<close>: the stored dictionaries of schemas and plans (\<open>serialization.py\<close>).
    \<open>Recipes\<close>, \<open>RecipeProofs\<close>: approved plans remembered by the structure of their schemas, their activation and the circuit
    that stops one that keeps being rejected (\<open>recipes.py\<close>).
  \<^item> \<open>Sync\<close>, \<open>SyncProofs\<close>: checkpoints and leases of recurring runs (\<open>sync_state.py\<close>).
    \<open>WorkBudget\<close>: budgets and the iterative check of a value's structure (\<open>work_budget.py\<close>).

  What the lemmas show. Round trips: records, payloads, printed values in any locale, trust-store files
  and recipes are read back, except a recipe with an empty rule parameter, which the store writes and then refuses
  (\<open>remembered_recipe_is_found\<close>). Invariants:
  the ledger, relay and outbox tables stay well formed, the audit chain stays valid, accepted certificates form a chain,
  a checkpoint accounts for the runs that advanced it. Safety:
  claims and leases are exclusive and fenced by their tokens in every state of a delivery, a write of unknown outcome is
  repeated only under the contract that makes it harmless or by an authorized replay, what a delivery or replay reports as
  delivered is the opened content of its record (atomic batches are not covered there), revocation is final and a signing cutoff
  holds until the key is made active again, sensitivity is never downgraded and opaque values are only forwarded, a retried advance counts nothing
  twice. Equivalence: the plan validator and the structure check decide what their declarative readings say. Liveness: the outbox
  drains in order and a relay lease makes progress. Each property with hypotheses has a witness that evaluates it on concrete values, with the
  cryptographic primitives instantiated by simple lawful functions.

  Conventions. Code points are those up to U+00FF, the type \<open>char\<close>. Times are microseconds of the Unix epoch as \<open>int\<close>, with
  Python's range checked. \<open>fromisoformat\<close> reads the extended formats that \<open>isoformat\<close> writes and the \<open>Z\<close> suffix. Texts of
  errors are kept without their interpolated counts. A float of a payload is its JSON text; a float of a clock is the
  rational it denotes, and sums are rounded as Python rounds them. The JSON parser runs on fuel \<open>2 * length + 2\<close>,
  which \<open>json_roundtrip\<close> shows enough for every rendered value; every other loop is structural or has a measure. SHA-256 is
  executable, but no proof depends on its values: \<open>checkpoint_determines_log\<close> names the collision it would take.

  Parameters. X25519, HKDF, ChaCha20-Poly1305 and Ed25519 belong to the package \<open>cryptography\<close>: they are the record
  \<open>primitives\<close> and function arguments. The only laws assumed of them are in \<open>lawful_primitives\<close>: both sides of a key exchange
  agree, and opening undoes sealing under the same key, nonce and associated data. \<open>strptime\<close> is an argument of the
  transforms; encoders and rerankers are arguments of the matcher.

  Not modelled: connectors, as parsers and writers of third-party formats (the runtime sees their answers); sandboxing
  and worker processes; language models and the learned ranker; the command line, reports
  and benchmarks; connection set-up, pragmas, permissions and indexes of the databases; the JSONL export of the audit log;
  Python's recursion limit. The manifest lists each part with its reason.
\<close>

end
